(* ===== verification/Prelude.thy ===== *)
theory Prelude
  imports Main "HOL-Library.Char_ord" "HOL-Library.List_Lexorder" "HOL-Library.Product_Lexorder"
    "HOL-Library.Sublist"
begin

text \<open>
  What every component shares: the insertion-ordered map of JavaScript, the stable sort with a
  comparator, distinct lists built by \<open>new Set\<close>, running maxima and sums, and the lemmas about them.
  The collection \<open>js_map\<close> holds the lookup laws of the insertion-ordered map and \<open>folds\<close> the laws of
  the accumulating loops; both are meant for \<open>simp add:\<close>.
\<close>

named_theorems js_map
named_theorems folds

section \<open>Insertion-ordered maps\<close>

text \<open>
  A JavaScript \<open>Map\<close> (and a plain object used as one) iterates its keys in the order of their first
  insertion; writing an existing key keeps its position. It is an association list, written by
  \<open>assoc_set\<close> and read by \<open>map_of\<close>.
\<close>

type_synonym ('k, 'v) assoc = "('k \<times> 'v) list"

fun assoc_set :: "'k \<Rightarrow> 'v \<Rightarrow> ('k, 'v) assoc \<Rightarrow> ('k, 'v) assoc" where
  "assoc_set k v [] = [(k, v)]"
| "assoc_set k v ((k', v') # m) = (if k' = k then (k, v) # m else (k', v') # assoc_set k v m)"

definition assoc_get_or :: "'v \<Rightarrow> ('k, 'v) assoc \<Rightarrow> 'k \<Rightarrow> 'v" where
  "assoc_get_or d m k = (case map_of m k of None \<Rightarrow> d | Some v \<Rightarrow> v)"

definition assoc_of :: "('k \<times> 'v) list \<Rightarrow> ('k, 'v) assoc" where
  "assoc_of kvs = fold (\<lambda>(k, v). assoc_set k v) kvs []"

lemma map_of_assoc_set [js_map]: "map_of (assoc_set k v m) = (map_of m)(k \<mapsto> v)"
  by (induction k v m rule: assoc_set.induct) auto

lemma keys_assoc_set [js_map]: "set (map fst (assoc_set k v m)) = insert k (set (map fst m))"
  by (induction k v m rule: assoc_set.induct) auto

lemma distinct_assoc_set [intro]: "distinct (map fst m) \<Longrightarrow> distinct (map fst (assoc_set k v m))"
proof (induction k v m rule: assoc_set.induct)
  case (2 k v k' v' m)
  then show ?case using keys_assoc_set [of k v m] by auto
qed simp

lemma assoc_set_new: "k \<notin> set (map fst m) \<Longrightarrow> assoc_set k v m = m @ [(k, v)]"
  by (induction k v m rule: assoc_set.induct) auto

lemma map_of_fold_assoc_set:
  "map_of (fold (\<lambda>(k, v). assoc_set k v) kvs m) = map_of m ++ map_of (rev kvs)"
proof (induction kvs arbitrary: m)
  case (Cons kv kvs)
  then show ?case by (cases kv) (auto simp: map_of_assoc_set map_add_def fun_eq_iff split: option.splits)
qed simp

lemma map_of_assoc_of [js_map]: "map_of (assoc_of kvs) = map_of (rev kvs)"
  by (simp add: assoc_of_def map_of_fold_assoc_set)

lemma distinct_fold_assoc_set:
  "distinct (map fst m) \<Longrightarrow> distinct (map fst (fold (\<lambda>(k, v). assoc_set k v) kvs m))"
  by (induction kvs arbitrary: m) (auto simp: case_prod_beta distinct_assoc_set)

lemma distinct_assoc_of [intro, simp]: "distinct (map fst (assoc_of kvs))"
  by (simp add: assoc_of_def distinct_fold_assoc_set)

lemma keys_fold_assoc_set:
  "set (map fst (fold (\<lambda>(k, v). assoc_set k v) kvs m)) = set (map fst m) \<union> set (map fst kvs)"
proof (induction kvs arbitrary: m)
  case (Cons kv kvs)
  then show ?case using keys_assoc_set [of "fst kv" "snd kv" m] by (auto simp: case_prod_beta)
qed simp

lemma keys_assoc_of [js_map]: "set (map fst (assoc_of kvs)) = set (map fst kvs)"
  by (simp add: assoc_of_def keys_fold_assoc_set del: set_map)

lemma map_of_rev_distinct: "distinct (map fst kvs) \<Longrightarrow> map_of (rev kvs) = map_of kvs"
  by (metis distinct_rev map_of_inject_set rev_map set_rev)

lemma assoc_of_map_distinct:
  "distinct (map f xs) \<Longrightarrow> map_of (assoc_of (map (\<lambda>x. (f x, x)) xs)) k = find (\<lambda>x. f x = k) xs"
proof -
  assume d: "distinct (map f xs)"
  have "map_of (assoc_of (map (\<lambda>x. (f x, x)) xs)) = map_of (map (\<lambda>x. (f x, x)) xs)"
    using d by (simp add: map_of_assoc_of map_of_rev_distinct o_def)
  moreover have "map_of (map (\<lambda>x. (f x, x)) ys) k = find (\<lambda>x. f x = k) ys" for ys
    by (induction ys) auto
  ultimately show ?thesis by simp
qed

section \<open>Distinct lists\<close>

text \<open>\<open>[...new Set(xs)]\<close>: the elements in the order of their first occurrence.\<close>

definition js_dedup :: "'a list \<Rightarrow> 'a list" where
  "js_dedup xs = rev (fold (\<lambda>x acc. if x \<in> set acc then acc else x # acc) xs [])"

lemma set_fold_dedup [folds]:
  "set (fold (\<lambda>x acc. if x \<in> set acc then acc else x # acc) xs acc) = set acc \<union> set xs"
  by (induction xs arbitrary: acc) auto

lemma distinct_fold_dedup:
  "distinct acc \<Longrightarrow> distinct (fold (\<lambda>x acc. if x \<in> set acc then acc else x # acc) xs acc)"
  by (induction xs arbitrary: acc) auto

lemma set_js_dedup [simp]: "set (js_dedup xs) = set xs"
  by (simp add: js_dedup_def set_fold_dedup)

lemma distinct_js_dedup [simp]: "distinct (js_dedup xs)"
  by (simp add: js_dedup_def distinct_fold_dedup)

lemma js_dedup_Nil [simp]: "js_dedup [] = []"
  by (simp add: js_dedup_def)

lemma js_dedup_eq_Nil [simp]: "js_dedup xs = [] \<longleftrightarrow> xs = []"
  by (metis set_empty set_js_dedup)

lemma fold_dedup_distinct:
  "distinct (rev acc @ xs) \<Longrightarrow> fold (\<lambda>x acc. if x \<in> set acc then acc else x # acc) xs acc = rev xs @ acc"
  by (induction xs arbitrary: acc) auto

lemma js_dedup_distinct: "distinct xs \<Longrightarrow> js_dedup xs = xs"
  using fold_dedup_distinct [of "[]" xs] by (simp add: js_dedup_def)

section \<open>Stable sorting with a comparator\<close>

text \<open>
  \<open>xs.sort(cmp)\<close> is stable; any stable sort by the same total preorder gives the same list, so an
  insertion sort stands for it. The argument says \<open>cmp(a, b) <= 0\<close>. Where the comparator compares keys
  of a linear order the library's \<open>sort_key\<close>, which is stable too, is used instead.
\<close>

fun insert_by :: "('a \<Rightarrow> 'a \<Rightarrow> bool) \<Rightarrow> 'a \<Rightarrow> 'a list \<Rightarrow> 'a list" where
  "insert_by le x [] = [x]"
| "insert_by le x (y # ys) = (if le x y then x # y # ys else y # insert_by le x ys)"

definition sort_by :: "('a \<Rightarrow> 'a \<Rightarrow> bool) \<Rightarrow> 'a list \<Rightarrow> 'a list" where
  "sort_by le xs = foldr (insert_by le) xs []"

lemma set_insert_by [simp]: "set (insert_by le x xs) = insert x (set xs)"
  by (induction le x xs rule: insert_by.induct) auto

lemma set_sort_by [simp]: "set (sort_by le xs) = set xs"
  by (induction xs) (auto simp: sort_by_def)

lemma length_insert_by [simp]: "length (insert_by le x xs) = Suc (length xs)"
  by (induction le x xs rule: insert_by.induct) auto

lemma length_sort_by [simp]: "length (sort_by le xs) = length xs"
  by (induction xs) (auto simp: sort_by_def)

lemma distinct_insert_by: "distinct (insert_by le x xs) = (x \<notin> set xs \<and> distinct xs)"
  by (induction le x xs rule: insert_by.induct) auto

lemma distinct_sort_by [simp]: "distinct (sort_by le xs) = distinct xs"
proof (induction xs)
  case (Cons x xs)
  then show ?case using set_sort_by [of le xs] by (simp add: sort_by_def distinct_insert_by)
qed (simp add: sort_by_def)

lemma sorted_insert_by:
  assumes "\<And>a b. le a b \<or> le b a" and "\<And>a b c. le a b \<Longrightarrow> le b c \<Longrightarrow> le a c" and "sorted_wrt le xs"
  shows "sorted_wrt le (insert_by le x xs)"
  using assms(3)
proof (induction xs)
  case (Cons y ys)
  show ?case
  proof (cases "le x y")
    case True
    with Cons.prems show ?thesis by (auto intro: assms(2))
  next
    case False
    then have "le y x" using assms(1) by blast
    with Cons False show ?thesis by auto
  qed
qed simp

lemma sorted_sort_by:
  assumes "\<And>a b. le a b \<or> le b a" and "\<And>a b c. le a b \<Longrightarrow> le b c \<Longrightarrow> le a c"
  shows "sorted_wrt le (sort_by le xs)"
proof (induction xs)
  case (Cons x xs)
  then have "sorted_wrt le (insert_by le x (sort_by le xs))"
    using sorted_insert_by [of le "sort_by le xs" x] assms by blast
  then show ?case by (simp add: sort_by_def)
qed (simp add: sort_by_def)

section \<open>Accumulating loops\<close>

definition sum_by :: "('a \<Rightarrow> int) \<Rightarrow> 'a list \<Rightarrow> int" where
  "sum_by f xs = fold (\<lambda>x s. s + f x) xs 0"

definition max_by :: "('a \<Rightarrow> int) \<Rightarrow> 'a list \<Rightarrow> int" where
  "max_by f xs = fold (\<lambda>x m. max m (f x)) xs 0"

lemma fold_sum [folds]: "fold (\<lambda>x s. s + f x) xs (a::int) = a + (\<Sum>x\<leftarrow>xs. f x)"
  by (induction xs arbitrary: a) auto

lemma sum_by_eq: "sum_by f xs = (\<Sum>x\<leftarrow>xs. f x)"
  by (simp add: sum_by_def fold_sum)

lemma sum_by_Nil [simp]: "sum_by f [] = 0"
  by (simp add: sum_by_eq)

lemma sum_by_Cons [simp]: "sum_by f (x # xs) = f x + sum_by f xs"
  by (simp add: sum_by_eq)

lemma sum_by_append [simp]: "sum_by f (xs @ ys) = sum_by f xs + sum_by f ys"
  by (simp add: sum_by_eq)

lemma sum_by_map [simp]: "sum_by f (map g xs) = sum_by (f \<circ> g) xs"
  by (simp add: sum_by_eq o_def)

lemma sum_by_nonneg: "(\<And>x. x \<in> set xs \<Longrightarrow> 0 \<le> f x) \<Longrightarrow> 0 \<le> sum_by f xs"
  by (induction xs) auto

lemma fold_max [folds]: "fold (\<lambda>x m. max m (f x)) xs (a::int) = max a (fold (\<lambda>x m. max m (f x)) xs a)"
proof -
  have "a \<le> fold (\<lambda>x m. max m (f x)) xs a" for a
    by (induction xs arbitrary: a) (auto intro: order_trans [OF max.cobounded1])
  then show ?thesis by (simp add: max_def)
qed

lemma fold_max_shift: "fold (\<lambda>x m. max m (f x)) xs (max a b) = max (a::int) (fold (\<lambda>x m. max m (f x)) xs b)"
  by (induction xs arbitrary: b) (simp_all add: max.assoc)

lemma max_by_Nil [simp]: "max_by f [] = 0"
  by (simp add: max_by_def)

lemma max_by_Cons [simp]: "max_by f (x # xs) = max (f x) (max_by f xs)"
  using fold_max_shift [of f xs "f x" 0] by (simp add: max_by_def max.commute)

lemma max_by_append [simp]: "max_by f (xs @ ys) = max (max_by f xs) (max_by f ys)"
proof (induction xs)
  case Nil
  have "0 \<le> max_by f ys" by (induction ys) auto
  then show ?case by simp
qed (simp add: max.assoc)

lemma max_by_map [simp]: "max_by f (map g xs) = max_by (f \<circ> g) xs"
  by (induction xs) auto

lemma max_by_ge0 [simp]: "0 \<le> max_by f xs"
  by (induction xs) auto

lemma max_by_ge: "x \<in> set xs \<Longrightarrow> f x \<le> max_by f xs"
  by (induction xs) auto

lemma max_by_le: "0 \<le> b \<Longrightarrow> (\<And>x. x \<in> set xs \<Longrightarrow> f x \<le> b) \<Longrightarrow> max_by f xs \<le> b"
  by (induction xs) auto

section \<open>Lists and options\<close>

lemma find_None_filter: "find P xs = None \<longleftrightarrow> filter P xs = []"
  by (induction xs) auto

lemma find_SomeD: "find P xs = Some x \<Longrightarrow> x \<in> set xs \<and> P x"
  by (induction xs) (auto split: if_splits)

lemma filter_length_eq: "length (filter P xs) = length xs \<longleftrightarrow> filter P xs = xs"
  by (metis filter_id_conv length_filter_less nat_less_le)

lemma distinct_map_filter_key: "distinct (map f xs) \<Longrightarrow> distinct (map f (filter P xs))"
  by (induction xs) auto

lemma distinct_map_sort_key: "distinct (map f (sort_key g xs)) \<longleftrightarrow> distinct (map f xs)"
  by (metis distinct_map distinct_sort set_sort)

section \<open>Errors as values\<close>

text \<open>\<open>bind\<close> of a computation that may throw: the first error stops it, as a \<open>throw\<close> does.\<close>

definition res_bind :: "'e + 'a \<Rightarrow> ('a \<Rightarrow> 'e + 'b) \<Rightarrow> 'e + 'b" where
  "res_bind r f = (case r of Inl e \<Rightarrow> Inl e | Inr x \<Rightarrow> f x)"

lemma res_bind_Inl [simp]: "res_bind (Inl e) f = Inl e"
  by (simp add: res_bind_def)

lemma res_bind_Inr [simp]: "res_bind (Inr x) f = f x"
  by (simp add: res_bind_def)

lemma res_bind_eq_Inr: "res_bind r f = Inr y \<longleftrightarrow> (\<exists>x. r = Inr x \<and> f x = Inr y)"
  by (auto simp: res_bind_def split: sum.splits)

lemma res_bind_eq_Inl: "res_bind r f = Inl e \<longleftrightarrow> r = Inl e \<or> (\<exists>x. r = Inr x \<and> f x = Inl e)"
  by (auto simp: res_bind_def split: sum.splits)

end
