(* ===== verification/Js_Strings.thy ===== *)
theory Js_Strings
  imports Prelude
begin

text \<open>
  The part of JavaScript's strings the program uses, on HOL's strings (lists of characters of one
  byte; every identifier, key and path of the program is ASCII): splitting and searching, \<open>trim\<close>,
  decimal digits, template literals that print an integer, and the two orders of the program, that of
  \<open>sort()\<close> (code units) and that of \<open>localeCompare\<close> (the root collation, on ASCII).
\<close>

section \<open>Searching and splitting\<close>

definition starts_with :: "string \<Rightarrow> string \<Rightarrow> bool" where
  "starts_with s p \<longleftrightarrow> take (length p) s = p"

definition ends_with :: "string \<Rightarrow> string \<Rightarrow> bool" where
  "ends_with s p \<longleftrightarrow> length p \<le> length s \<and> drop (length s - length p) s = p"

fun str_includes :: "string \<Rightarrow> string \<Rightarrow> bool" where
  "str_includes [] p = (p = [])"
| "str_includes (c # s) p = (starts_with (c # s) p \<or> str_includes s p)"

text \<open>\<open>indexOf\<close> and \<open>lastIndexOf\<close> of one character; \<open>None\<close> stands for \<open>-1\<close>.\<close>

fun index_of :: "char \<Rightarrow> string \<Rightarrow> nat option" where
  "index_of c [] = None"
| "index_of c (d # s) = (if d = c then Some 0 else map_option Suc (index_of c s))"

definition last_index_of :: "char \<Rightarrow> string \<Rightarrow> nat option" where
  "last_index_of c s = map_option (\<lambda>i. length s - 1 - i) (index_of c (rev s))"

text \<open>\<open>s.split(c)\<close> for a separator of one character: always at least one part.\<close>

fun split_char :: "char \<Rightarrow> string \<Rightarrow> string list" where
  "split_char c [] = [[]]"
| "split_char c (d # s) =
     (if d = c then [] # split_char c s
      else (case split_char c s of [] \<Rightarrow> [[d]] | p # ps \<Rightarrow> (d # p) # ps))"

fun join_str :: "string \<Rightarrow> string list \<Rightarrow> string" where
  "join_str sep [] = []"
| "join_str sep [p] = p"
| "join_str sep (p # q # ps) = p @ sep @ join_str sep (q # ps)"

text \<open>The characters \<open>trim\<close> and \<open>\s\<close> take as white space (those below 256).\<close>

definition is_ws :: "char \<Rightarrow> bool" where
  "is_ws c \<longleftrightarrow> c \<in> {CHR 0x09, CHR 0x0A, CHR 0x0B, CHR 0x0C, CHR 0x0D, CHR 0x20, CHR 0xA0}"

definition trim_start :: "string \<Rightarrow> string" where
  "trim_start s = dropWhile is_ws s"

definition trim_end :: "string \<Rightarrow> string" where
  "trim_end s = rev (dropWhile is_ws (rev s))"

definition trim :: "string \<Rightarrow> string" where
  "trim s = trim_end (trim_start s)"

lemma split_char_ne [simp]: "split_char c s \<noteq> []"
  by (induction s) (auto split: list.splits)

lemma join_split_char [simp]: "join_str [c] (split_char c s) = s"
proof (induction s)
  case (Cons d s)
  then show ?case
    by (cases "split_char c s"; cases "tl (split_char c s)") auto
qed simp

lemma split_char_no_sep: "p \<in> set (split_char c s) \<Longrightarrow> c \<notin> set p"
proof (induction s arbitrary: p)
  case (Cons d s)
  obtain q qs where q: "split_char c s = q # qs" by (cases "split_char c s") auto
  with Cons show ?case by (auto split: if_splits)
qed simp

lemma split_char_append:
  "c \<notin> set p \<Longrightarrow> split_char c (p @ c # s) = p # split_char c s"
  by (induction p) auto

lemma split_char_single: "c \<notin> set p \<Longrightarrow> split_char c p = [p]"
  by (induction p) auto

lemma split_join_char:
  "ps \<noteq> [] \<Longrightarrow> (\<And>p. p \<in> set ps \<Longrightarrow> c \<notin> set p) \<Longrightarrow> split_char c (join_str [c] ps) = ps"
  by (induction "[c]" ps rule: join_str.induct) (auto simp: split_char_append split_char_single)

lemma index_of_None: "index_of c s = None \<longleftrightarrow> c \<notin> set s"
  by (induction s) auto

lemma index_of_Some: "index_of c s = Some i \<longleftrightarrow> i < length s \<and> s ! i = c \<and> c \<notin> set (take i s)"
proof (induction s arbitrary: i)
  case (Cons d s)
  then show ?case by (cases i) auto
qed simp

lemma last_index_of_None: "last_index_of c s = None \<longleftrightarrow> c \<notin> set s"
  by (simp add: last_index_of_def index_of_None)

lemma last_index_of_split: "c \<notin> set t \<Longrightarrow> last_index_of c (p @ c # t) = Some (length p)"
proof -
  assume "c \<notin> set t"
  then have "index_of c (rev t @ c # rev p) = Some (length t)"
    by (simp add: index_of_Some nth_append)
  then show ?thesis by (simp add: last_index_of_def)
qed

lemma last_index_of_Some:
  assumes "last_index_of c s = Some i"
  shows "s = take i s @ c # drop (Suc i) s \<and> i < length s \<and> c \<notin> set (drop (Suc i) s)"
proof -
  obtain j where j: "index_of c (rev s) = Some j" and i: "i = length s - 1 - j"
    using assms by (auto simp: last_index_of_def)
  then have jl: "j < length s" and e: "rev s ! j = c" and n: "c \<notin> set (take j (rev s))"
    by (auto simp: index_of_Some)
  from e jl i have "s ! i = c" by (simp add: rev_nth)
  moreover from jl i have "i < length s" by simp
  moreover have "drop (Suc i) s = rev (take j (rev s))"
    using jl i by (simp add: take_rev Suc_diff_Suc)
  ultimately show ?thesis using n by (metis id_take_nth_drop set_rev)
qed

lemma starts_with_append [simp]: "starts_with (p @ s) p"
  by (simp add: starts_with_def)

lemma starts_with_iff: "starts_with s p \<longleftrightarrow> (\<exists>t. s = p @ t)"
  by (metis append_eq_conv_conj append_take_drop_id starts_with_def)

lemma starts_with_includes: "starts_with s p \<Longrightarrow> str_includes s p"
  by (cases s) (auto simp: starts_with_def)

lemma str_includes_iff: "str_includes s p \<longleftrightarrow> (\<exists>a b. s = a @ p @ b)"
proof (induction s)
  case (Cons c s)
  show ?case
  proof
    assume "str_includes (c # s) p"
    then consider "starts_with (c # s) p" | "str_includes s p" by auto
    then show "\<exists>a b. c # s = a @ p @ b"
    proof cases
      case 1
      then obtain t where "c # s = [] @ p @ t" by (auto simp: starts_with_iff)
      then show ?thesis by blast
    next
      case 2
      then obtain a b where "s = a @ p @ b" using Cons by auto
      then have "c # s = (c # a) @ p @ b" by simp
      then show ?thesis by blast
    qed
  next
    assume "\<exists>a b. c # s = a @ p @ b"
    then obtain a b where ab: "c # s = a @ p @ b" by blast
    then show "str_includes (c # s) p"
    proof (cases a)
      case Nil
      with ab show ?thesis by (auto simp: starts_with_iff intro: starts_with_includes)
    next
      case (Cons x a')
      with ab have "s = a' @ p @ b" by simp
      with Cons.IH show ?thesis by auto
    qed
  qed
qed simp

section \<open>Characters and decimal numbers\<close>

definition in_range :: "char \<Rightarrow> char \<Rightarrow> char \<Rightarrow> bool" where
  "in_range lo hi c \<longleftrightarrow> (of_char lo :: nat) \<le> of_char c \<and> (of_char c :: nat) \<le> of_char hi"

definition is_lower :: "char \<Rightarrow> bool" where
  "is_lower c \<longleftrightarrow> in_range CHR ''a'' CHR ''z'' c"

definition is_upper :: "char \<Rightarrow> bool" where
  "is_upper c \<longleftrightarrow> in_range CHR ''A'' CHR ''Z'' c"

definition is_digit :: "char \<Rightarrow> bool" where
  "is_digit c \<longleftrightarrow> in_range CHR ''0'' CHR ''9'' c"

definition digit_val :: "char \<Rightarrow> nat" where
  "digit_val c = of_char c - of_char CHR ''0''"

definition digit_char :: "nat \<Rightarrow> char" where
  "digit_char n = char_of (n + of_char CHR ''0'' :: nat)"

text \<open>\<open>Number(s)\<close> / \<open>parseInt(s, 10)\<close> of a string of digits.\<close>

definition digits_val :: "string \<Rightarrow> nat" where
  "digits_val s = fold (\<lambda>c n. n * 10 + digit_val c) s 0"

definition all_digits :: "string \<Rightarrow> bool" where
  "all_digits s \<longleftrightarrow> s \<noteq> [] \<and> list_all is_digit s"

text \<open>
  \<open>Number.parseInt(s, 10)\<close>: white space is skipped, a sign is read, then the longest run of digits;
  \<open>None\<close> is \<open>NaN\<close>.
\<close>

definition parse_int10 :: "string \<Rightarrow> int option" where
  "parse_int10 s =
     (let t = trim_start s;
          neg = (case t of c # _ \<Rightarrow> c = CHR ''-'' | [] \<Rightarrow> False);
          u = (case t of c # r \<Rightarrow> if c = CHR ''-'' \<or> c = CHR ''+'' then r else t | [] \<Rightarrow> []);
          ds = takeWhile is_digit u
      in if ds = [] then None
         else Some (if neg then - int (digits_val ds) else int (digits_val ds)))"

text \<open>\<open>`${n}`\<close> of a natural number.\<close>

fun show_nat :: "nat \<Rightarrow> string" where
  "show_nat n = (if n < 10 then [digit_char n] else show_nat (n div 10) @ [digit_char (n mod 10)])"

declare show_nat.simps [simp del]

lemma of_char_digit_char: "n < 10 \<Longrightarrow> (of_char (digit_char n) :: nat) = n + 48"
  by (simp add: digit_char_def)

lemma is_digit_digit_char [simp]: "n < 10 \<Longrightarrow> is_digit (digit_char n)"
  by (simp add: is_digit_def in_range_def of_char_digit_char)

lemma digit_val_digit_char [simp]: "n < 10 \<Longrightarrow> digit_val (digit_char n) = n"
  by (simp add: digit_val_def of_char_digit_char)

lemma digits_val_snoc: "digits_val (s @ [c]) = digits_val s * 10 + digit_val c"
  by (simp add: digits_val_def)

lemma digits_val_show_nat [simp]: "digits_val (show_nat n) = n"
proof (induction n rule: show_nat.induct)
  case (1 n)
  then show ?case
    by (subst show_nat.simps) (auto simp: digits_val_snoc, simp add: digits_val_def)
qed

lemma show_nat_digits: "list_all is_digit (show_nat n)"
proof (induction n rule: show_nat.induct)
  case (1 n)
  then show ?case by (subst show_nat.simps) auto
qed

lemma show_nat_ne [simp]: "show_nat n \<noteq> []"
  by (subst show_nat.simps) simp

lemma all_digits_show_nat [simp]: "all_digits (show_nat n)"
  by (simp add: all_digits_def show_nat_digits)

lemma show_nat_inj: "show_nat m = show_nat n \<longleftrightarrow> m = n"
  by (metis digits_val_show_nat)

lemma not_digit_dash [simp]: "\<not> is_digit CHR ''-''"
  by (simp add: is_digit_def in_range_def)

lemma not_digit_slash [simp]: "\<not> is_digit CHR ''/''"
  by (simp add: is_digit_def in_range_def)

lemma show_nat_no_char: "\<not> is_digit c \<Longrightarrow> c \<notin> set (show_nat n)"
  using show_nat_digits [of n] by (auto simp: list_all_iff)

lemma digit_not_ws: "is_digit c \<Longrightarrow> \<not> is_ws c"
  by (auto simp: is_digit_def in_range_def is_ws_def)

lemma parse_int10_digits:
  assumes "all_digits s"
  shows "parse_int10 s = Some (int (digits_val s))"
proof -
  obtain c r where s: "s = c # r" and c: "is_digit c" using assms by (cases s) (auto simp: all_digits_def)
  then have t: "trim_start s = s" by (simp add: trim_start_def digit_not_ws)
  have "c \<noteq> CHR ''-''" "c \<noteq> CHR ''+''" using c by (auto simp: is_digit_def in_range_def)
  moreover have "takeWhile is_digit s = s"
    using assms by (simp add: all_digits_def takeWhile_eq_all_conv list_all_iff)
  ultimately show ?thesis using s t by (simp add: parse_int10_def Let_def)
qed

lemma parse_int10_show_nat [simp]: "parse_int10 (show_nat n) = Some (int n)"
  by (simp add: parse_int10_digits)

section \<open>The order of localeCompare\<close>

text \<open>
  The root collation on ASCII: control characters are ignored, white space comes before punctuation,
  punctuation before digits and digits before letters; case decides only between strings equal
  otherwise, lower case first. \<open>a.localeCompare(b) <= 0\<close> is \<open>coll_key a \<le> coll_key b\<close>, so sorting by
  \<open>localeCompare\<close> is \<open>sort_key coll_key\<close>.
\<close>

definition coll_punct :: string where
  "coll_punct = [CHR 0x09, CHR 0x0A, CHR 0x0B, CHR 0x0C, CHR 0x0D, CHR '' '', CHR ''_'', CHR ''-'', CHR '','',
     CHR '';'', CHR '':'', CHR ''!'', CHR ''?'', CHR ''.'', CHR 0x27, CHR 0x22, CHR ''('', CHR '')'',
     CHR ''['', CHR '']'', CHR ''{'', CHR ''}'', CHR ''@'', CHR ''*'', CHR ''/'', CHR 0x5C, CHR ''&'',
     CHR ''#'', CHR ''%'', CHR 0x60, CHR ''^'', CHR ''+'', CHR ''<'', CHR ''='', CHR ''>'', CHR ''|'',
     CHR ''~'', CHR ''$'']"

definition coll_primary :: "char \<Rightarrow> nat option" where
  "coll_primary c =
     (if is_digit c then Some (50 + digit_val c)
      else if is_lower c then Some (60 + (of_char c - of_char CHR ''a''))
      else if is_upper c then Some (60 + (of_char c - of_char CHR ''A''))
      else if c \<in> set coll_punct then index_of c coll_punct
      else if (of_char c :: nat) < 128 then None
      else Some (of_char c))"

definition coll_key :: "string \<Rightarrow> nat list \<times> bool list" where
  "coll_key s = (List.map_filter coll_primary s, map is_upper (filter (\<lambda>c. coll_primary c \<noteq> None) s))"

definition locale_le :: "string \<Rightarrow> string \<Rightarrow> bool" where
  "locale_le a b \<longleftrightarrow> coll_key a \<le> coll_key b"

lemma locale_le_total: "locale_le a b \<or> locale_le b a"
  by (auto simp: locale_le_def)

lemma locale_le_trans: "locale_le a b \<Longrightarrow> locale_le b c \<Longrightarrow> locale_le a c"
  by (auto simp: locale_le_def)

end
