(* ===== verification/Constants.thy ===== *)
theory Constants
  imports Js_Strings
begin

text \<open>
  The constants of the CLI/agent contract (\<open>packages/shared/src/constants.ts\<close>, \<open>time.ts\<close>): versions,
  managed-database defaults, reserved host capacity, timing cadences and the host-port range.
\<close>

definition SECOND_MS :: int where "SECOND_MS = 1000"
definition MINUTE_MS :: int where "MINUTE_MS = 60000"
definition HOUR_MS :: int where "HOUR_MS = 3600000"
definition DAY_MS :: int where "DAY_MS = 86400000"

definition PROTOCOL_VERSION :: int where "PROTOCOL_VERSION = 3"
definition DEFAULT_EDGE_INSTANCE_TYPE :: string where "DEFAULT_EDGE_INSTANCE_TYPE = ''t4g.nano''"
definition DEFAULT_POSTGRES_VERSION :: string where "DEFAULT_POSTGRES_VERSION = ''16''"
definition POSTGRES_IMAGE_REPO :: string where
  "POSTGRES_IMAGE_REPO = ''public.ecr.aws/docker/library/postgres''"
definition POSTGRES_DATA_PATH :: string where "POSTGRES_DATA_PATH = ''/var/lib/postgresql/data''"
definition POSTGRES_VOLUME_NAME :: string where "POSTGRES_VOLUME_NAME = ''data''"
definition POSTGRES_PASSWORD_SECRET :: string where "POSTGRES_PASSWORD_SECRET = ''POSTGRES_PASSWORD''"
definition DEFAULT_DATABASE_CPU :: int where "DEFAULT_DATABASE_CPU = 1024"
definition DEFAULT_DATABASE_MEMORY :: int where "DEFAULT_DATABASE_MEMORY = 1024"
definition DEFAULT_BACKUP_RETENTION_DAYS :: int where "DEFAULT_BACKUP_RETENTION_DAYS = 7"
definition CONFIG_BASELINE_VERSION :: int where "CONFIG_BASELINE_VERSION = 1"
definition DEPLOY_EVENT_VERSION :: int where "DEPLOY_EVENT_VERSION = 1"
definition PREVIEW_MARKER_VERSION :: int where "PREVIEW_MARKER_VERSION = 1"
definition PROJECT_INDEX_VERSION :: int where "PROJECT_INDEX_VERSION = 1"
definition DEFAULT_CLUSTER :: string where "DEFAULT_CLUSTER = ''default''"
definition LAUNCH_PAD_ENVIRONMENT :: string where "LAUNCH_PAD_ENVIRONMENT = ''LAUNCH_PAD_ENVIRONMENT''"
definition DEFAULT_RESERVED_CPU :: int where "DEFAULT_RESERVED_CPU = 256"
definition DEFAULT_RESERVED_MEMORY :: int where "DEFAULT_RESERVED_MEMORY = 512"
definition HEARTBEAT_STALE_MS :: int where "HEARTBEAT_STALE_MS = 60000"
definition LIVENESS_HEARTBEAT_MS :: int where "LIVENESS_HEARTBEAT_MS = 30000"
definition HOST_PORT_MIN :: int where "HOST_PORT_MIN = 20000"
definition HOST_PORT_COUNT :: int where "HOST_PORT_COUNT = 10000"
definition HOST_PORT_MAX :: int where "HOST_PORT_MAX = HOST_PORT_MIN + HOST_PORT_COUNT - 1"
definition DEFAULT_POLL_INTERVAL_MS :: int where "DEFAULT_POLL_INTERVAL_MS = 10000"

lemmas time_defs = SECOND_MS_def MINUTE_MS_def HOUR_MS_def DAY_MS_def

text \<open>The ordering the source requires of its cadences, so that a live node never flickers stale.\<close>

lemma cadence_order:
  "DEFAULT_POLL_INTERVAL_MS \<le> LIVENESS_HEARTBEAT_MS \<and> 2 * LIVENESS_HEARTBEAT_MS \<le> HEARTBEAT_STALE_MS"
  by (simp add: DEFAULT_POLL_INTERVAL_MS_def LIVENESS_HEARTBEAT_MS_def HEARTBEAT_STALE_MS_def)

text \<open>The published ports stay below the ephemeral range of the host.\<close>

lemma host_ports_below_ephemeral: "HOST_PORT_MIN \<le> HOST_PORT_MAX \<and> HOST_PORT_MAX < 32768"
  by (simp add: HOST_PORT_MIN_def HOST_PORT_MAX_def HOST_PORT_COUNT_def)

end
