(* ===== verification/Cron.thy ===== *)
theory Cron
  imports Constants
begin

text \<open>
  The five-field cron evaluator (\<open>packages/shared/src/cron.ts\<close>): the UTC calendar of a time in
  milliseconds, the parser with its errors, the matching of a minute and the two scans for the next
  and for the due fire time. The scans count minutes up to the horizon of 366 days, so they end.
\<close>

section \<open>The UTC calendar of a \<open>Date\<close>\<close>

text \<open>
  The definitions of the language's standard: the day number of a time, the first day of a year, and
  the month and day within it. The year is estimated from the mean length of a year and corrected.
\<close>

definition utc_day :: "int \<Rightarrow> int" where
  "utc_day ms = ms div DAY_MS"

definition day_from_year :: "int \<Rightarrow> int" where
  "day_from_year y =
     365 * (y - 1970) + (y - 1969) div 4 - (y - 1901) div 100 + (y - 1601) div 400"

definition year_from_day :: "int \<Rightarrow> int" where
  "year_from_day d =
     (let y = 1970 + (d * 400) div 146097
      in if d < day_from_year y then y - 1 else if day_from_year (y + 1) \<le> d then y + 1 else y)"

definition is_leap :: "int \<Rightarrow> bool" where
  "is_leap y \<longleftrightarrow> y mod 4 = 0 \<and> (y mod 100 \<noteq> 0 \<or> y mod 400 = 0)"

definition month_days :: "int \<Rightarrow> int list" where
  "month_days y = [31, if is_leap y then 29 else 28, 31, 30, 31, 30, 31, 31, 30, 31, 30, 31]"

text \<open>Month (from 0) and date (from 1) of a day within the year.\<close>

fun month_date :: "int list \<Rightarrow> int \<Rightarrow> int \<times> int" where
  "month_date [] k = (0, k + 1)"
| "month_date (n # ns) k =
     (if k < n then (0, k + 1) else (let (m, d) = month_date ns (k - n) in (m + 1, d)))"

definition utc_date :: "int \<Rightarrow> int \<times> int \<times> int" where
  "utc_date ms =
     (let d = utc_day ms; y = year_from_day d; (m, dd) = month_date (month_days y) (d - day_from_year y)
      in (y, m, dd))"

definition getUTCMinutes :: "int \<Rightarrow> int" where
  "getUTCMinutes ms = (ms div MINUTE_MS) mod 60"

definition getUTCHours :: "int \<Rightarrow> int" where
  "getUTCHours ms = (ms div HOUR_MS) mod 24"

definition getUTCMonth :: "int \<Rightarrow> int" where
  "getUTCMonth ms = fst (snd (utc_date ms))"

definition getUTCDate :: "int \<Rightarrow> int" where
  "getUTCDate ms = snd (snd (utc_date ms))"

definition getUTCDay :: "int \<Rightarrow> int" where
  "getUTCDay ms = (utc_day ms + 4) mod 7"

section \<open>Parsing\<close>

record cron_schedule =
  minutes :: "int list"
  hours :: "int list"
  dom :: "int list"
  months :: "int list"
  dow :: "int list"
  domRestricted :: bool
  dowRestricted :: bool

definition SCAN_HORIZON_MINUTES :: int where
  "SCAN_HORIZON_MINUTES = 366 * 24 * 60"

record field_spec =
  fs_name :: string
  fs_min :: int
  fs_max :: int

definition FIELDS :: "field_spec list" where
  "FIELDS =
     [\<lparr>fs_name = ''minute'', fs_min = 0, fs_max = 59\<rparr>,
      \<lparr>fs_name = ''hour'', fs_min = 0, fs_max = 23\<rparr>,
      \<lparr>fs_name = ''day of month'', fs_min = 1, fs_max = 31\<rparr>,
      \<lparr>fs_name = ''month'', fs_min = 1, fs_max = 12\<rparr>,
      \<lparr>fs_name = ''day of week'', fs_min = 0, fs_max = 7\<rparr>]"

datatype cron_error =
    InvalidValue string string
  | ValueOutOfRange string int int int
  | InvalidStep string string
  | StepNotPositive string string
  | EmptyValue string
  | InvalidRange string string
  | InvertedRange string string
  | WrongFieldCount

definition parseNumber :: "string \<Rightarrow> field_spec \<Rightarrow> cron_error + int" where
  "parseNumber token spec =
     (if \<not> all_digits token then Inl (InvalidValue (fs_name spec) token)
      else (let n = int (digits_val token)
            in if n < fs_min spec \<or> fs_max spec < n
               then Inl (ValueOutOfRange (fs_name spec) n (fs_min spec) (fs_max spec))
               else Inr n))"

text \<open>The loop \<open>for (v = lo; v <= hi; v += step)\<close>; the parser never gives it a step below 1.\<close>

function step_values :: "int \<Rightarrow> int \<Rightarrow> int \<Rightarrow> int list" where
  "step_values lo hi step =
     (if lo \<le> hi \<and> 0 < step then lo # step_values (lo + step) hi step else [])"
  by pat_completeness auto
termination
  by (relation "measure (\<lambda>(lo, hi, step). nat (hi + 1 - lo))") auto

declare step_values.simps [simp del]

text \<open>The step of an item: the part after the slash, when there is one.\<close>

definition item_step :: "string \<Rightarrow> string option \<Rightarrow> field_spec \<Rightarrow> cron_error + int" where
  "item_step item stepPart spec =
     (case stepPart of None \<Rightarrow> Inr 1
      | Some s \<Rightarrow> if \<not> all_digits s \<or> digits_val s = 0 then Inl (StepNotPositive (fs_name spec) item)
                  else Inr (int (digits_val s)))"

text \<open>The bounds of an item: everything, a range, a number, or a number through the maximum.\<close>

definition item_bounds :: "string \<Rightarrow> string option \<Rightarrow> field_spec \<Rightarrow> cron_error + (int \<times> int)" where
  "item_bounds rangePart stepPart spec =
     (if rangePart = ''*'' then Inr (fs_min spec, fs_max spec)
      else if rangePart = [] then Inl (EmptyValue (fs_name spec))
      else if CHR ''-'' \<in> set rangePart then
        (case split_char CHR ''-'' rangePart of
           [a, b] \<Rightarrow>
             if a = [] \<or> b = [] then Inl (InvalidRange (fs_name spec) rangePart)
             else res_bind (parseNumber a spec) (\<lambda>lo. res_bind (parseNumber b spec) (\<lambda>hi.
                    if hi < lo then Inl (InvertedRange (fs_name spec) rangePart) else Inr (lo, hi)))
         | _ \<Rightarrow> Inl (InvalidRange (fs_name spec) rangePart))
      else res_bind (parseNumber rangePart spec) (\<lambda>lo.
             Inr (lo, if stepPart \<noteq> None then fs_max spec else lo)))"

definition expandItem :: "string \<Rightarrow> field_spec \<Rightarrow> cron_error + int list" where
  "expandItem item spec =
     (let parts = split_char CHR ''/'' item;
          rangePart = hd parts;
          stepPart = (case parts of _ # s # _ \<Rightarrow> Some s | _ \<Rightarrow> None)
      in if 2 < length parts \<or> stepPart = Some [] then Inl (InvalidStep (fs_name spec) item)
         else res_bind (item_step item stepPart spec) (\<lambda>step.
              res_bind (item_bounds rangePart stepPart spec) (\<lambda>(lo, hi).
              Inr (step_values lo hi step))))"

fun expandItems :: "string list \<Rightarrow> field_spec \<Rightarrow> cron_error + int list" where
  "expandItems [] spec = Inr []"
| "expandItems (i # is) spec =
     res_bind (expandItem i spec) (\<lambda>vs. res_bind (expandItems is spec) (\<lambda>ws. Inr (vs @ ws)))"

definition parseField :: "string \<Rightarrow> field_spec \<Rightarrow> cron_error + (int list \<times> bool)" where
  "parseField field spec =
     (if field = ''*'' then Inr (step_values (fs_min spec) (fs_max spec) 1, False)
      else res_bind (expandItems (split_char CHR '','' field) spec) (\<lambda>vs. Inr (js_dedup vs, True)))"

text \<open>\<open>expr.trim().split(/\s+/).filter(f => f.length > 0)\<close>: the words between white space.\<close>

definition ws_fields :: "string \<Rightarrow> string list" where
  "ws_fields s =
     filter (\<lambda>f. f \<noteq> []) (split_char CHR '' '' (map (\<lambda>c. if is_ws c then CHR '' '' else c) (trim s)))"

definition parseCronExpression :: "string \<Rightarrow> cron_error + cron_schedule" where
  "parseCronExpression expr =
     (case ws_fields expr of
        [f0, f1, f2, f3, f4] \<Rightarrow>
          res_bind (parseField f0 (FIELDS ! 0)) (\<lambda>(mi, _).
          res_bind (parseField f1 (FIELDS ! 1)) (\<lambda>(ho, _).
          res_bind (parseField f2 (FIELDS ! 2)) (\<lambda>(dm, dmr).
          res_bind (parseField f3 (FIELDS ! 3)) (\<lambda>(mo, _).
          res_bind (parseField f4 (FIELDS ! 4)) (\<lambda>(dw, dwr).
            Inr \<lparr>minutes = mi, hours = ho, dom = dm, months = mo,
                 dow = js_dedup (map (\<lambda>v. if v = 7 then 0 else v) dw),
                 domRestricted = dmr, dowRestricted = dwr\<rparr>)))))
      | _ \<Rightarrow> Inl WrongFieldCount)"

definition cronExpressionError :: "string \<Rightarrow> cron_error option" where
  "cronExpressionError expr = (case parseCronExpression expr of Inl e \<Rightarrow> Some e | Inr _ \<Rightarrow> None)"

section \<open>Matching and scanning\<close>

definition cronMatchesMinute :: "cron_schedule \<Rightarrow> int \<Rightarrow> bool" where
  "cronMatchesMinute s ms =
     (if getUTCMinutes ms \<notin> set (minutes s) then False
      else if getUTCHours ms \<notin> set (hours s) then False
      else if getUTCMonth ms + 1 \<notin> set (months s) then False
      else (let domMatch = getUTCDate ms \<in> set (dom s); dowMatch = getUTCDay ms \<in> set (dow s)
            in if domRestricted s \<and> dowRestricted s then domMatch \<or> dowMatch
               else domMatch \<and> dowMatch))"

definition floorToMinute :: "int \<Rightarrow> int" where
  "floorToMinute ms = (ms div MINUTE_MS) * MINUTE_MS"

function scan_up :: "cron_schedule \<Rightarrow> int \<Rightarrow> int \<Rightarrow> int option" where
  "scan_up s t i =
     (if i < SCAN_HORIZON_MINUTES
      then (if cronMatchesMinute s t then Some t else scan_up s (t + MINUTE_MS) (i + 1))
      else None)"
  by pat_completeness auto
termination
  by (relation "measure (\<lambda>(s, t, i). nat (SCAN_HORIZON_MINUTES - i))") auto

declare scan_up.simps [simp del]

definition nextCronFire :: "cron_schedule \<Rightarrow> int \<Rightarrow> int option" where
  "nextCronFire s afterMs = scan_up s (floorToMinute afterMs + MINUTE_MS) 0"

function scan_down :: "cron_schedule \<Rightarrow> int \<Rightarrow> int \<Rightarrow> int option" where
  "scan_down s t bound =
     (if bound < t
      then (if cronMatchesMinute s t then Some t else scan_down s (t - MINUTE_MS) bound)
      else None)"
  by pat_completeness auto
termination
  by (relation "measure (\<lambda>(s, t, b). nat (t - b))") (auto simp: MINUTE_MS_def)

declare scan_down.simps [simp del]

definition dueCronFire :: "cron_schedule \<Rightarrow> int \<Rightarrow> int \<Rightarrow> int option" where
  "dueCronFire s lastFireMs nowMs =
     (let bound = max lastFireMs (nowMs - SCAN_HORIZON_MINUTES * MINUTE_MS)
      in scan_down s (floorToMinute nowMs) bound)"


section \<open>The calendar is right\<close>

lemma day_from_year_bounds:
  "146097 * (y - 1970) - 506 \<le> 400 * day_from_year y" (is ?lower)
  "400 * day_from_year y \<le> 146097 * (y - 1970) + 589" (is ?upper)
proof -
  define a b c where "a = (y - 1969) div 4" and "b = (y - 1901) div 100" and "c = (y - 1601) div 400"
  have q: "k * (x div k) \<le> x" "x < k * (x div k) + k" if "0 < k" for x k :: int
    using that mult_div_mod_eq [of k x] pos_mod_sign [of k x] pos_mod_bound [of k x] by linarith+
  have "4 * a \<le> y - 1969" "y - 1969 < 4 * a + 4" "100 * b \<le> y - 1901" "y - 1901 < 100 * b + 100"
    "400 * c \<le> y - 1601" "y - 1601 < 400 * c + 400"
    using q [of 4 "y - 1969"] q [of 100 "y - 1901"] q [of 400 "y - 1601"] by (simp_all only: a_def b_def c_def)
  note bounds = this
  have f: "day_from_year y = 365 * (y - 1970) + a - b + c"
    unfolding day_from_year_def a_def b_def c_def by (rule refl)
  show ?lower ?upper unfolding f using bounds by (simp_all add: algebra_simps)
qed

lemma year_from_day_correct:
  "day_from_year (year_from_day d) \<le> d \<and> d < day_from_year (year_from_day d + 1)"
proof -
  define q where "q = d * 400 div 146097"
  have q: "146097 * q \<le> 400 * d" "400 * d < 146097 * q + 146097"
    using div_mult_mod_eq [of "d * 400" 146097] pos_mod_sign [of 146097 "d * 400"]
      pos_mod_bound [of 146097 "d * 400"] unfolding q_def by linarith+
  have b: "400 * day_from_year (1970 + q - 1) \<le> 146097 * (q - 1) + 589"
    "400 * day_from_year (1970 + q) \<le> 146097 * q + 589"
    "146097 * (q + 1) - 506 \<le> 400 * day_from_year (1970 + q + 1)"
    "146097 * (q + 2) - 506 \<le> 400 * day_from_year (1970 + q + 1 + 1)"
    using day_from_year_bounds [of "1970 + q - 1"] day_from_year_bounds [of "1970 + q"]
      day_from_year_bounds [of "1970 + q + 1"] day_from_year_bounds [of "1970 + q + 1 + 1"] by simp_all
  show ?thesis
    using b q unfolding year_from_day_def Let_def q_def [symmetric] by auto
qed

lemma div_step: "0 < c \<Longrightarrow> (x + 1) div c = x div c + (if (x + 1) mod c = 0 then 1 else (0::int))"
proof -
  assume c: "0 < c"
  have x: "x = c * (x div c) + x mod c" "0 \<le> x mod c" "x mod c < c" using c by simp_all
  show ?thesis
  proof (cases "x mod c + 1 = c")
    case True
    then have e: "x + 1 = c * (x div c + 1) + 0" using x(1) unfolding distrib_left by linarith
    show ?thesis using int_div_pos_eq [OF e] int_mod_pos_eq [OF e] c by simp
  next
    case False
    have e: "x + 1 = c * (x div c) + (x mod c + 1)" using x by simp
    show ?thesis using int_div_pos_eq [OF e] int_mod_pos_eq [OF e] x(2,3) False by simp
  qed
qed

lemma div_step_mod:
  "x' = x + 1 \<Longrightarrow> 0 < c \<Longrightarrow> x' mod c = y mod c \<Longrightarrow> x' div c = x div c + (if y mod c = 0 then 1 else (0::int))"
  using div_step [of c x] by simp

lemma leap_count:
  fixes a b c y :: int
  shows "(R \<Longrightarrow> Q) \<Longrightarrow> (Q \<Longrightarrow> P) \<Longrightarrow>
    365 * (y + 1 - 1970) + (a + (if P then 1 else 0)) - (b + (if Q then 1 else 0)) + (c + (if R then 1 else 0))
    = 365 * (y - 1970) + a - b + c + (if P \<and> (\<not> Q \<or> R) then 366 else 365)"
  by (cases P; cases Q; cases R) simp_all

lemma day_from_year_step: "day_from_year (y + 1) = day_from_year y + (if is_leap y then 366 else 365)"
proof -
  have m: "(y - 1968) mod 4 = y mod 4" "(y - 1900) mod 100 = y mod 100" "(y - 1600) mod 400 = y mod 400"
    using mod_mult_self1 [of "y - 1968" 492 4] mod_mult_self1 [of "y - 1900" 19 100]
      mod_mult_self1 [of "y - 1600" 4 400] by simp_all
  have d: "(y + 1 - 1969) div 4 = (y - 1969) div 4 + (if y mod 4 = 0 then 1 else 0)"
    "(y + 1 - 1901) div 100 = (y - 1901) div 100 + (if y mod 100 = 0 then 1 else 0)"
    "(y + 1 - 1601) div 400 = (y - 1601) div 400 + (if y mod 400 = 0 then 1 else 0)"
    by (rule div_step_mod; simp add: m)+
  have l: "y mod 400 = 0 \<Longrightarrow> y mod 100 = 0" "y mod 100 = 0 \<Longrightarrow> y mod 4 = 0"
    using dvd_trans [of 100 400 y] dvd_trans [of 4 100 y] by (simp_all add: dvd_eq_mod_eq_0)
  show ?thesis
    unfolding day_from_year_def is_leap_def d by (rule leap_count) (rule l; assumption)+
qed

lemma month_date_bounds:
  "0 \<le> k \<Longrightarrow> k < sum_list ns \<Longrightarrow> (\<And>n. n \<in> set ns \<Longrightarrow> 0 < n) \<Longrightarrow> month_date ns k = (m, d) \<Longrightarrow>
   0 \<le> m \<and> m < int (length ns) \<and> 1 \<le> d \<and> d \<le> ns ! nat m \<and> k = sum_list (take (nat m) ns) + d - 1"
proof (induction ns arbitrary: k m d)
  case (Cons n ns)
  show ?case
  proof (cases "k < n")
    case True
    with Cons.prems show ?thesis by auto
  next
    case False
    obtain m' d' where md: "month_date ns (k - n) = (m', d')" by fastforce
    have "0 \<le> k - n" "k - n < sum_list ns" using False Cons.prems by auto
    from Cons.IH [OF this _ md] have "0 \<le> m' \<and> m' < int (length ns) \<and> 1 \<le> d' \<and> d' \<le> ns ! nat m'
        \<and> k - n = sum_list (take (nat m') ns) + d' - 1"
      using Cons.prems(3) by auto
    moreover have "m = m' + 1" "d = d'" using Cons.prems(4) False md by auto
    ultimately show ?thesis by (auto simp: nat_add_distrib)
  qed
qed simp

text \<open>
  The date of a time names its day: the year, a month of it, a date within that month, and the days of
  the earlier years and months add up to the day number.
\<close>

lemma utc_date_correct:
  assumes "utc_date ms = (y, m, d)"
  shows "0 \<le> m \<and> m < 12 \<and> 1 \<le> d \<and> d \<le> month_days y ! nat m
    \<and> utc_day ms = day_from_year y + sum_list (take (nat m) (month_days y)) + d - 1"
proof -
  define k where "k = utc_day ms - day_from_year y"
  have y: "y = year_from_day (utc_day ms)" and md: "month_date (month_days y) k = (m, d)"
    using assms by (auto simp: utc_date_def Let_def k_def split: prod.splits)
  have "0 \<le> k" "k < sum_list (month_days y)"
    using year_from_day_correct [of "utc_day ms"] day_from_year_step [of y]
    by (auto simp: k_def month_days_def y [symmetric])
  moreover have "n \<in> set (month_days y) \<Longrightarrow> 0 < n" for n by (auto simp: month_days_def)
  ultimately have "0 \<le> m \<and> m < int (length (month_days y)) \<and> 1 \<le> d \<and> d \<le> month_days y ! nat m
      \<and> k = sum_list (take (nat m) (month_days y)) + d - 1"
    using month_date_bounds [OF _ _ _ md] by blast
  then show ?thesis by (auto simp: k_def month_days_def)
qed

section \<open>What the parser returns\<close>

lemma step_values_bounds: "v \<in> set (step_values lo hi step) \<Longrightarrow> lo \<le> v \<and> v \<le> hi"
proof (induction lo hi step rule: step_values.induct)
  case (1 lo hi step)
  show ?case
  proof (cases "lo \<le> hi \<and> 0 < step")
    case True
    with 1(2) have "v = lo \<or> v \<in> set (step_values (lo + step) hi step)"
      by (subst (asm) step_values.simps) simp
    with True 1(1) show ?thesis by fastforce
  next
    case False
    with 1(2) show ?thesis by (subst (asm) step_values.simps) simp
  qed
qed

lemma set_step_values: "0 < step \<Longrightarrow> set (step_values lo hi step) = {v. lo \<le> v \<and> v \<le> hi \<and> step dvd (v - lo)}"
proof (induction lo hi step rule: step_values.induct)
  case (1 lo hi step)
  show ?case
  proof (cases "lo \<le> hi")
    case True
    have "v = lo \<or> lo + step \<le> v" if "lo \<le> v" "step dvd (v - lo)" for v
      using that zdvd_imp_le [of step "v - lo"] by (cases "v = lo") linarith+
    moreover have "step dvd (v - (lo + step)) \<longleftrightarrow> step dvd (v - lo)" for v
    proof -
      have "v - (lo + step) = (v - lo) + (- step)" by simp
      then show ?thesis by (simp only: dvd_add_left_iff dvd_minus_iff dvd_refl)
    qed
    moreover note "1.IH" [OF _ "1.prems"]
    ultimately show ?thesis using True 1(2) by (subst step_values.simps) auto
  next
    case False
    then show ?thesis by (subst step_values.simps) auto
  qed
qed

lemma step_values_ne: "lo \<le> hi \<Longrightarrow> 0 < step \<Longrightarrow> lo \<in> set (step_values lo hi step)"
  by (simp add: set_step_values)

lemma parseNumber_bounds: "parseNumber t spec = Inr n \<Longrightarrow> fs_min spec \<le> n \<and> n \<le> fs_max spec"
  by (auto simp: parseNumber_def Let_def split: if_splits)

lemma item_bounds_ok:
  "fs_min spec \<le> fs_max spec \<Longrightarrow> item_bounds r p spec = Inr (lo, hi)
   \<Longrightarrow> fs_min spec \<le> lo \<and> lo \<le> hi \<and> hi \<le> fs_max spec"
  by (auto simp: item_bounds_def res_bind_eq_Inr dest!: parseNumber_bounds split: if_splits list.splits)

lemma item_step_pos: "item_step i p spec = Inr s \<Longrightarrow> 0 < s"
  by (auto simp: item_step_def split: option.splits if_splits)

lemma expandItem_ok:
  "fs_min spec \<le> fs_max spec \<Longrightarrow> expandItem i spec = Inr vs
   \<Longrightarrow> vs \<noteq> [] \<and> (\<forall>v \<in> set vs. fs_min spec \<le> v \<and> v \<le> fs_max spec)"
proof -
  assume a: "fs_min spec \<le> fs_max spec" and "expandItem i spec = Inr vs"
  then obtain st p r lo hi where st: "item_step i p spec = Inr st" and b: "item_bounds r p spec = Inr (lo, hi)"
    and vs: "vs = step_values lo hi st"
    by (auto simp: expandItem_def Let_def res_bind_eq_Inr split: if_splits)
  have "0 < st" "fs_min spec \<le> lo \<and> lo \<le> hi \<and> hi \<le> fs_max spec"
    using item_step_pos [OF st] item_bounds_ok [OF a b] by auto
  moreover from this have "lo \<in> set vs" unfolding vs by (intro step_values_ne) auto
  ultimately show ?thesis using step_values_bounds unfolding vs by fastforce
qed

lemma expandItems_ok:
  "fs_min spec \<le> fs_max spec \<Longrightarrow> expandItems is spec = Inr vs \<Longrightarrow> is \<noteq> []
   \<Longrightarrow> vs \<noteq> [] \<and> (\<forall>v \<in> set vs. fs_min spec \<le> v \<and> v \<le> fs_max spec)"
proof (induction "is" arbitrary: vs)
  case (Cons i "is")
  from Cons.prems(2) obtain a b where ab: "expandItem i spec = Inr a" "expandItems is spec = Inr b" "vs = a @ b"
    by (auto simp: res_bind_eq_Inr)
  show ?case
    using expandItem_ok [OF Cons.prems(1) ab(1)] Cons.IH [OF Cons.prems(1) ab(2)] ab
    by (cases "is") auto
qed simp

lemma parseField_ok:
  "fs_min spec \<le> fs_max spec \<Longrightarrow> parseField f spec = Inr (vs, r)
   \<Longrightarrow> vs \<noteq> [] \<and> (\<forall>v \<in> set vs. fs_min spec \<le> v \<and> v \<le> fs_max spec)
     \<and> (\<not> r \<longrightarrow> set vs = {fs_min spec..fs_max spec})"
proof -
  assume a: "fs_min spec \<le> fs_max spec" and p: "parseField f spec = Inr (vs, r)"
  show ?thesis
  proof (cases "f = ''*''")
    case True
    with p have "vs = step_values (fs_min spec) (fs_max spec) 1" "\<not> r"
      by (auto simp: parseField_def)
    moreover have "set (step_values (fs_min spec) (fs_max spec) 1) = {fs_min spec..fs_max spec}"
      by (auto simp: set_step_values)
    moreover from this a have "step_values (fs_min spec) (fs_max spec) 1 \<noteq> []" by force
    ultimately show ?thesis by auto
  next
    case False
    with p obtain ws where w: "expandItems (split_char CHR '','' f) spec = Inr ws" "vs = js_dedup ws" "r"
      by (auto simp: parseField_def res_bind_eq_Inr)
    from expandItems_ok [OF a w(1)] have "ws \<noteq> [] \<and> (\<forall>v \<in> set ws. fs_min spec \<le> v \<and> v \<le> fs_max spec)"
      by simp
    then show ?thesis using w by auto
  qed
qed

text \<open>The invariant of a parsed schedule: every field non-empty and within its range, day of week below 7.\<close>

definition wf_schedule :: "cron_schedule \<Rightarrow> bool" where
  "wf_schedule s \<longleftrightarrow>
     minutes s \<noteq> [] \<and> list_all (\<lambda>v. 0 \<le> v \<and> v \<le> 59) (minutes s)
   \<and> hours s \<noteq> [] \<and> list_all (\<lambda>v. 0 \<le> v \<and> v \<le> 23) (hours s)
   \<and> dom s \<noteq> [] \<and> list_all (\<lambda>v. 1 \<le> v \<and> v \<le> 31) (dom s)
   \<and> months s \<noteq> [] \<and> list_all (\<lambda>v. 1 \<le> v \<and> v \<le> 12) (months s)
   \<and> dow s \<noteq> [] \<and> list_all (\<lambda>v. 0 \<le> v \<and> v \<le> 6) (dow s)
   \<and> (domRestricted s \<or> set (dom s) = {1..31}) \<and> (dowRestricted s \<or> set (dow s) = {0..6})"

lemma dow_normalised:
  assumes "vs \<noteq> []" "\<forall>v \<in> set vs. (0::int) \<le> v \<and> v \<le> 7"
  shows "js_dedup (map (\<lambda>v. if v = 7 then 0 else v) vs) \<noteq> []"
    "\<forall>v \<in> set (js_dedup (map (\<lambda>v. if v = 7 then 0 else v) vs)). 0 \<le> v \<and> v \<le> 6"
proof -
  show "js_dedup (map (\<lambda>v. if v = 7 then 0 else v) vs) \<noteq> []" using assms by simp
  show "\<forall>v \<in> set (js_dedup (map (\<lambda>v. if v = 7 then 0 else v) vs)). 0 \<le> v \<and> v \<le> 6"
    using assms(2) by fastforce
qed


lemma parseCronExpression_cases:
  assumes "parseCronExpression e = Inr s"
  obtains mi r0 ho r1 dm r2 mo r3 dw r4 f0 f1 f2 f3 f4 where
    "parseField f0 (FIELDS ! 0) = Inr (mi, r0)" "parseField f1 (FIELDS ! 1) = Inr (ho, r1)"
    "parseField f2 (FIELDS ! 2) = Inr (dm, r2)" "parseField f3 (FIELDS ! 3) = Inr (mo, r3)"
    "parseField f4 (FIELDS ! 4) = Inr (dw, r4)"
    "s = \<lparr>minutes = mi, hours = ho, dom = dm, months = mo,
          dow = js_dedup (map (\<lambda>v. if v = 7 then 0 else v) dw), domRestricted = r2, dowRestricted = r4\<rparr>"
proof -
  obtain f0 f1 f2 f3 f4 where "ws_fields e = [f0, f1, f2, f3, f4]"
    using assms by (auto simp: parseCronExpression_def split: list.splits)
  with assms show ?thesis
    by (auto simp: parseCronExpression_def res_bind_eq_Inr intro!: that)
qed

lemma dow_unrestricted:
  "set vs = {0..7::int} \<Longrightarrow> set (js_dedup (map (\<lambda>v. if v = 7 then 0 else v) vs)) = {0..6}"
proof -
  assume v: "set vs = {0..7::int}"
  have "(\<lambda>v. if v = 7 then 0 else v) ` {0..7::int} = {0..6}"
  proof
    show "{0..6} \<subseteq> (\<lambda>v. if v = 7 then 0 else v) ` {0..7::int}" by (auto simp: image_iff intro!: bexI)
  qed auto
  then show ?thesis by (simp only: set_js_dedup set_map v)
qed

lemma parseCronExpression_ok: "parseCronExpression e = Inr s \<Longrightarrow> wf_schedule s"
proof (elim parseCronExpression_cases)
  fix mi r0 ho r1 dm r2 mo r3 dw r4 f0 f1 f2 f3 f4
  assume p: "parseField f0 (FIELDS ! 0) = Inr (mi, r0)" "parseField f1 (FIELDS ! 1) = Inr (ho, r1)"
    "parseField f2 (FIELDS ! 2) = Inr (dm, r2)" "parseField f3 (FIELDS ! 3) = Inr (mo, r3)"
    "parseField f4 (FIELDS ! 4) = Inr (dw, r4)"
    and s: "s = \<lparr>minutes = mi, hours = ho, dom = dm, months = mo,
          dow = js_dedup (map (\<lambda>v. if v = 7 then 0 else v) dw), domRestricted = r2, dowRestricted = r4\<rparr>"
  note ok = parseField_ok [OF _ p(1)] parseField_ok [OF _ p(2)] parseField_ok [OF _ p(3)]
    parseField_ok [OF _ p(4)] parseField_ok [OF _ p(5)]
  have f: "fs_min (FIELDS ! 0) = 0" "fs_max (FIELDS ! 0) = 59" "fs_min (FIELDS ! 1) = 0" "fs_max (FIELDS ! 1) = 23"
    "fs_min (FIELDS ! 2) = 1" "fs_max (FIELDS ! 2) = 31" "fs_min (FIELDS ! 3) = 1" "fs_max (FIELDS ! 3) = 12"
    "fs_min (FIELDS ! 4) = 0" "fs_max (FIELDS ! 4) = 7" by (simp_all add: FIELDS_def)
  note ok' = ok [unfolded f, simplified]
  have "\<forall>v \<in> set dw. 0 \<le> v \<and> v \<le> 7" "dw \<noteq> []" using ok'(5) by auto
  note n = dow_normalised [OF this(2,1)]
  have "dowRestricted s \<or> set (dow s) = {0..6}"
    using ok'(5) dow_unrestricted [of dw] by (auto simp: s simp del: set_js_dedup)
  moreover have "domRestricted s \<or> set (dom s) = {1..31}" using ok'(3) by (auto simp: s)
  moreover have "dow s \<noteq> []" "list_all (\<lambda>v. 0 \<le> v \<and> v \<le> 6) (dow s)"
    using n by (simp_all add: s list_all_iff)
  ultimately show "wf_schedule s"
    using ok'(1-4) unfolding wf_schedule_def by (simp add: s list_all_iff)
qed

section \<open>What the scans return\<close>

lemma floorToMinute_bounds: "floorToMinute ms \<le> ms" "ms < floorToMinute ms + MINUTE_MS" "MINUTE_MS dvd floorToMinute ms"
proof -
  have "MINUTE_MS * (ms div MINUTE_MS) + ms mod MINUTE_MS = ms" "0 \<le> ms mod MINUTE_MS" "ms mod MINUTE_MS < MINUTE_MS"
    by (simp_all add: MINUTE_MS_def)
  then show "floorToMinute ms \<le> ms" "ms < floorToMinute ms + MINUTE_MS" "MINUTE_MS dvd floorToMinute ms"
    unfolding floorToMinute_def by (simp_all only: mult.commute [of "ms div MINUTE_MS"] dvd_triv_left)
qed

lemma scan_up_Some:
  "scan_up s t i = Some r \<longleftrightarrow>
   (\<exists>k \<ge> 0. i + k < SCAN_HORIZON_MINUTES \<and> r = t + k * MINUTE_MS \<and> cronMatchesMinute s r
      \<and> (\<forall>j. 0 \<le> j \<and> j < k \<longrightarrow> \<not> cronMatchesMinute s (t + j * MINUTE_MS)))"
proof (induction s t i rule: scan_up.induct)
  case (1 s t i)
  show ?case
  proof (cases "i < SCAN_HORIZON_MINUTES")
    case i: True
    show ?thesis
    proof (cases "cronMatchesMinute s t")
      case True
      with i have "scan_up s t i = Some r \<longleftrightarrow> r = t" by (subst scan_up.simps) auto
      moreover have "k = 0" if "0 \<le> k" "\<forall>j. 0 \<le> j \<and> j < k \<longrightarrow> \<not> cronMatchesMinute s (t + j * MINUTE_MS)" for k
        using that(2) [rule_format, of 0] that(1) True by (cases "k = 0") auto
      ultimately show ?thesis using True i by (auto intro: exI [of _ 0])
    next
      case False
      with i have e: "scan_up s t i = scan_up s (t + MINUTE_MS) (i + 1)" by (subst scan_up.simps) simp
      show ?thesis unfolding e "1.IH" [OF i False]
      proof
        assume "\<exists>k\<ge>0. i + 1 + k < SCAN_HORIZON_MINUTES \<and> r = t + MINUTE_MS + k * MINUTE_MS \<and> cronMatchesMinute s r
          \<and> (\<forall>j. 0 \<le> j \<and> j < k \<longrightarrow> \<not> cronMatchesMinute s (t + MINUTE_MS + j * MINUTE_MS))"
        then obtain k where k: "0 \<le> k" "i + 1 + k < SCAN_HORIZON_MINUTES" "r = t + MINUTE_MS + k * MINUTE_MS"
          "cronMatchesMinute s r" "\<And>j. 0 \<le> j \<Longrightarrow> j < k \<Longrightarrow> \<not> cronMatchesMinute s (t + MINUTE_MS + j * MINUTE_MS)" by blast
        have "\<not> cronMatchesMinute s (t + j * MINUTE_MS)" if "0 \<le> j" "j < k + 1" for j
          using k(5) [of "j - 1"] that False by (cases "j = 0") (auto simp: algebra_simps)
        with k show "\<exists>k\<ge>0. i + k < SCAN_HORIZON_MINUTES \<and> r = t + k * MINUTE_MS \<and> cronMatchesMinute s r
          \<and> (\<forall>j. 0 \<le> j \<and> j < k \<longrightarrow> \<not> cronMatchesMinute s (t + j * MINUTE_MS))"
          by (intro exI [of _ "k + 1"]) (auto simp: algebra_simps)
      next
        assume "\<exists>k\<ge>0. i + k < SCAN_HORIZON_MINUTES \<and> r = t + k * MINUTE_MS \<and> cronMatchesMinute s r
          \<and> (\<forall>j. 0 \<le> j \<and> j < k \<longrightarrow> \<not> cronMatchesMinute s (t + j * MINUTE_MS))"
        then obtain k where k: "0 \<le> k" "i + k < SCAN_HORIZON_MINUTES" "r = t + k * MINUTE_MS" "cronMatchesMinute s r"
          "\<And>j. 0 \<le> j \<Longrightarrow> j < k \<Longrightarrow> \<not> cronMatchesMinute s (t + j * MINUTE_MS)" by blast
        have "k \<noteq> 0" using k(3,4) False by auto
        moreover have "\<not> cronMatchesMinute s (t + MINUTE_MS + j * MINUTE_MS)" if "0 \<le> j" "j < k - 1" for j
          using k(5) [of "j + 1"] that by (auto simp: algebra_simps)
        ultimately show "\<exists>k\<ge>0. i + 1 + k < SCAN_HORIZON_MINUTES \<and> r = t + MINUTE_MS + k * MINUTE_MS \<and> cronMatchesMinute s r
          \<and> (\<forall>j. 0 \<le> j \<and> j < k \<longrightarrow> \<not> cronMatchesMinute s (t + MINUTE_MS + j * MINUTE_MS))"
          using k(1-4) by (intro exI [of _ "k - 1"]) (auto simp: algebra_simps)
      qed
    qed
  next
    case False
    then show ?thesis by (subst scan_up.simps) auto
  qed
qed


lemma scan_down_Some:
  "scan_down s t b = Some r \<longleftrightarrow>
   (\<exists>k \<ge> 0. r = t - k * MINUTE_MS \<and> b < r \<and> cronMatchesMinute s r
      \<and> (\<forall>j. 0 \<le> j \<and> j < k \<longrightarrow> \<not> cronMatchesMinute s (t - j * MINUTE_MS)))"
proof (induction s t b rule: scan_down.induct)
  case (1 s t b)
  have M: "0 < MINUTE_MS" by (simp add: MINUTE_MS_def)
  show ?case
  proof (cases "b < t")
    case i: True
    show ?thesis
    proof (cases "cronMatchesMinute s t")
      case True
      with i have "scan_down s t b = Some r \<longleftrightarrow> r = t" by (subst scan_down.simps) auto
      moreover have "k = 0" if "0 \<le> k" "\<forall>j. 0 \<le> j \<and> j < k \<longrightarrow> \<not> cronMatchesMinute s (t - j * MINUTE_MS)" for k
        using that(2) [rule_format, of 0] that(1) True by (cases "k = 0") auto
      ultimately show ?thesis using True i by (auto intro: exI [of _ 0])
    next
      case False
      with i have e: "scan_down s t b = scan_down s (t - MINUTE_MS) b" by (subst scan_down.simps) simp
      show ?thesis unfolding e "1.IH" [OF i False]
      proof
        assume "\<exists>k\<ge>0. r = t - MINUTE_MS - k * MINUTE_MS \<and> b < r \<and> cronMatchesMinute s r
          \<and> (\<forall>j. 0 \<le> j \<and> j < k \<longrightarrow> \<not> cronMatchesMinute s (t - MINUTE_MS - j * MINUTE_MS))"
        then obtain k where k: "0 \<le> k" "r = t - MINUTE_MS - k * MINUTE_MS" "b < r" "cronMatchesMinute s r"
          "\<And>j. 0 \<le> j \<Longrightarrow> j < k \<Longrightarrow> \<not> cronMatchesMinute s (t - MINUTE_MS - j * MINUTE_MS)" by blast
        have "\<not> cronMatchesMinute s (t - j * MINUTE_MS)" if "0 \<le> j" "j < k + 1" for j
          using k(5) [of "j - 1"] that False by (cases "j = 0") (auto simp: algebra_simps)
        with k show "\<exists>k\<ge>0. r = t - k * MINUTE_MS \<and> b < r \<and> cronMatchesMinute s r
          \<and> (\<forall>j. 0 \<le> j \<and> j < k \<longrightarrow> \<not> cronMatchesMinute s (t - j * MINUTE_MS))"
          by (intro exI [of _ "k + 1"]) (auto simp: algebra_simps)
      next
        assume "\<exists>k\<ge>0. r = t - k * MINUTE_MS \<and> b < r \<and> cronMatchesMinute s r
          \<and> (\<forall>j. 0 \<le> j \<and> j < k \<longrightarrow> \<not> cronMatchesMinute s (t - j * MINUTE_MS))"
        then obtain k where k: "0 \<le> k" "r = t - k * MINUTE_MS" "b < r" "cronMatchesMinute s r"
          "\<And>j. 0 \<le> j \<Longrightarrow> j < k \<Longrightarrow> \<not> cronMatchesMinute s (t - j * MINUTE_MS)" by blast
        have "k \<noteq> 0" using k(2,4) False by auto
        moreover have "\<not> cronMatchesMinute s (t - MINUTE_MS - j * MINUTE_MS)" if "0 \<le> j" "j < k - 1" for j
          using k(5) [of "j + 1"] that by (auto simp: algebra_simps)
        ultimately show "\<exists>k\<ge>0. r = t - MINUTE_MS - k * MINUTE_MS \<and> b < r \<and> cronMatchesMinute s r
          \<and> (\<forall>j. 0 \<le> j \<and> j < k \<longrightarrow> \<not> cronMatchesMinute s (t - MINUTE_MS - j * MINUTE_MS))"
          using k(1-4) by (intro exI [of _ "k - 1"]) (auto simp: algebra_simps)
      qed
    qed
  next
    case False
    have "\<not> b < t - k * MINUTE_MS" if "0 \<le> k" for k
      using False mult_nonneg_nonneg [OF that less_imp_le [OF M]] by linarith
    with False show ?thesis by (subst scan_down.simps) auto
  qed
qed

text \<open>A whole minute between two others is reached by the counting loop.\<close>

lemma minute_between:
  assumes "MINUTE_MS dvd t" "MINUTE_MS dvd u" "t \<le> u"
  obtains k where "0 \<le> k" "u = t + k * MINUTE_MS"
proof -
  from assms obtain k where k: "u - t = MINUTE_MS * k" by (metis dvd_diff dvdE)
  moreover have "0 \<le> k"
    using k assms(3) by (simp add: MINUTE_MS_def)
  ultimately show ?thesis using that [of k] by (simp add: algebra_simps)
qed

lemma minute_gap:
  assumes "MINUTE_MS dvd t" "MINUTE_MS dvd u" "t < u"
  shows "t + MINUTE_MS \<le> u"
proof -
  obtain k where k: "u = t + k * MINUTE_MS" "0 \<le> k"
    using minute_between [OF assms(1,2) less_imp_le [OF assms(3)]] by blast
  have "k \<noteq> 0" using k assms(3) by auto
  with k show ?thesis by (simp add: MINUTE_MS_def)
qed

lemma minute_after: "MINUTE_MS dvd u \<Longrightarrow> ms < u \<Longrightarrow> floorToMinute ms + MINUTE_MS \<le> u"
  using floorToMinute_bounds [of ms] by (intro minute_gap) auto

lemma minute_before: "MINUTE_MS dvd u \<Longrightarrow> u \<le> ms \<Longrightarrow> u \<le> floorToMinute ms"
  using floorToMinute_bounds [of ms] minute_gap [of "floorToMinute ms" u] by fastforce

text \<open>
  C30. \<open>nextCronFire\<close> returns exactly the first matching minute after the given time: strictly later,
  on a whole minute, matching, no earlier minute matching, and no later than the scan's horizon.
\<close>

theorem nextCronFire_first:
  "nextCronFire s a = Some t \<longleftrightarrow>
   a < t \<and> MINUTE_MS dvd t \<and> cronMatchesMinute s t
   \<and> t \<le> floorToMinute a + SCAN_HORIZON_MINUTES * MINUTE_MS
   \<and> (\<forall>u. a < u \<and> MINUTE_MS dvd u \<and> u < t \<longrightarrow> \<not> cronMatchesMinute s u)"
  (is "_ \<longleftrightarrow> ?spec")
proof
  let ?f = "floorToMinute a + MINUTE_MS"
  have fd: "MINUTE_MS dvd ?f" and fa: "a < ?f" using floorToMinute_bounds [of a] by simp_all
  {
    assume "nextCronFire s a = Some t"
    then obtain k where k: "0 \<le> k" "k < SCAN_HORIZON_MINUTES" "t = ?f + k * MINUTE_MS" "cronMatchesMinute s t"
      and n: "\<And>j. 0 \<le> j \<Longrightarrow> j < k \<Longrightarrow> \<not> cronMatchesMinute s (?f + j * MINUTE_MS)"
      by (auto simp: nextCronFire_def scan_up_Some)
    have "\<not> cronMatchesMinute s u" if u: "a < u" "MINUTE_MS dvd u" "u < t" for u
    proof -
      obtain j where j: "0 \<le> j" "u = ?f + j * MINUTE_MS"
        using minute_between [OF fd u(2) minute_after [OF u(2,1)]] by blast
      moreover from j u(3) k(3) have "j < k" by (simp add: MINUTE_MS_def)
      ultimately show ?thesis using n by simp
    qed
    moreover have "a < t" "t \<le> floorToMinute a + SCAN_HORIZON_MINUTES * MINUTE_MS"
      using k(1-3) fa by (simp_all add: MINUTE_MS_def)
    moreover have "MINUTE_MS dvd t" using fd k(3) by simp
    ultimately show ?spec using k(4) by blast
  next
    assume s: ?spec
    then obtain k where k: "0 \<le> k" "t = ?f + k * MINUTE_MS"
      using minute_between [OF fd _ minute_after] by blast
    have "\<not> cronMatchesMinute s (?f + j * MINUTE_MS)" if j: "0 \<le> j" "j < k" for j
    proof -
      have "a < ?f + j * MINUTE_MS" "?f + j * MINUTE_MS < t" "MINUTE_MS dvd ?f + j * MINUTE_MS"
        using fa fd j k by (simp_all add: MINUTE_MS_def)
      with s show ?thesis by blast
    qed
    moreover have "k < SCAN_HORIZON_MINUTES" using s k(2) by (simp add: MINUTE_MS_def)
    ultimately show "nextCronFire s a = Some t" using s k by (auto simp: nextCronFire_def scan_up_Some)
  }
qed

text \<open>The run that is due is the latest matching minute since the last run, within the horizon.\<close>

lemma dueCronFire_latest:
  "dueCronFire s l now = Some t \<longleftrightarrow>
   l < t \<and> now - SCAN_HORIZON_MINUTES * MINUTE_MS < t \<and> t \<le> now \<and> MINUTE_MS dvd t \<and> cronMatchesMinute s t
   \<and> (\<forall>u. t < u \<and> u \<le> now \<and> MINUTE_MS dvd u \<longrightarrow> \<not> cronMatchesMinute s u)"
  (is "_ \<longleftrightarrow> ?spec")
proof
  let ?f = "floorToMinute now" and ?b = "max l (now - SCAN_HORIZON_MINUTES * MINUTE_MS)"
  have fd: "MINUTE_MS dvd ?f" and fa: "?f \<le> now" using floorToMinute_bounds [of now] by simp_all
  {
    assume "dueCronFire s l now = Some t"
    then obtain k where k: "0 \<le> k" "t = ?f - k * MINUTE_MS" "?b < t" "cronMatchesMinute s t"
      and n: "\<And>j. 0 \<le> j \<Longrightarrow> j < k \<Longrightarrow> \<not> cronMatchesMinute s (?f - j * MINUTE_MS)"
      by (auto simp: dueCronFire_def Let_def scan_down_Some)
    have "\<not> cronMatchesMinute s u" if u: "t < u" "u \<le> now" "MINUTE_MS dvd u" for u
    proof -
      obtain j where j: "0 \<le> j" "?f = u + j * MINUTE_MS"
        using minute_between [OF u(3) fd minute_before [OF u(3,2)]] by blast
      moreover from j u(1) k(2) have "j < k" by (simp add: MINUTE_MS_def)
      ultimately show ?thesis using n [of j] by (simp add: algebra_simps)
    qed
    moreover have "t \<le> now" using k(1,2) fa by (simp add: MINUTE_MS_def)
    moreover have "MINUTE_MS dvd t" using fd k(2) by simp
    ultimately show ?spec using k(3,4) by auto
  next
    assume s: ?spec
    then have "t \<le> ?f" using minute_before by blast
    with s obtain k where k: "0 \<le> k" "?f = t + k * MINUTE_MS"
      using minute_between [OF _ fd] by blast
    have "\<not> cronMatchesMinute s (?f - j * MINUTE_MS)" if j: "0 \<le> j" "j < k" for j
    proof -
      have "?f - j * MINUTE_MS \<le> now" "t < ?f - j * MINUTE_MS" "MINUTE_MS dvd ?f - j * MINUTE_MS"
        using fa fd j k by (simp_all add: MINUTE_MS_def)
      with s show ?thesis by blast
    qed
    moreover have "t = ?f - k * MINUTE_MS" using k by simp
    moreover have "?b < t" "cronMatchesMinute s t" using s by simp_all
    ultimately show "dueCronFire s l now = Some t"
      unfolding dueCronFire_def Let_def scan_down_Some using k(1) by blast
  }
qed

lemma nextCronFire_Some_D:
  "nextCronFire s a = Some t \<Longrightarrow> cronMatchesMinute s t \<and> a < t
   \<and> t \<le> a + SCAN_HORIZON_MINUTES * MINUTE_MS"
  using floorToMinute_bounds [of a]
  by (auto simp: nextCronFire_def scan_up_Some MINUTE_MS_def)

text \<open>
  A missed backlog collapses to one run: once the due run \<open>t\<close> is recorded as the last one, nothing
  is due at the same time, and whatever is due at a later time is a later matching minute than \<open>t\<close>
  after which, up to that time, no minute matches.
\<close>

theorem due_run_collapses_backlog:
  assumes "dueCronFire s l now = Some t" and "now \<le> later"
  shows "dueCronFire s t now = None
    \<and> (case dueCronFire s t later of None \<Rightarrow> True
       | Some t' \<Rightarrow> now < t' \<and> t' \<le> later \<and> cronMatchesMinute s t'
           \<and> dueCronFire s t' later = None)"
proof -
  have none: "dueCronFire s u n = None" if "dueCronFire s k n = Some u" for k u n
    using that dueCronFire_latest [of s k n u] dueCronFire_latest [of s u n]
    by (cases "dueCronFire s u n") auto
  have "now < t'" if "dueCronFire s t later = Some t'" for t'
    using that assms dueCronFire_latest [of s l now t] dueCronFire_latest [of s t later t'] by force
  moreover have "t' \<le> later \<and> cronMatchesMinute s t'" if "dueCronFire s t later = Some t'" for t'
    using that dueCronFire_latest [of s t later t'] by blast
  ultimately show ?thesis
    using none assms(1) by (auto split: option.splits)
qed

text \<open>Every quarter of an hour: after an hour without an agent, one run is due, at the last quarter.\<close>

definition quarter_hours :: cron_schedule where
  "quarter_hours = (case parseCronExpression ''*/15 * * * *'' of Inr s \<Rightarrow> s)"

lemma due_run_collapses_backlog_witness:
  "dueCronFire quarter_hours 1767225600000 1767229260000 = Some 1767229200000
   \<and> dueCronFire quarter_hours 1767229200000 1767229260000 = None"
proof -
  have d: "dueCronFire quarter_hours 1767225600000 1767229260000 = Some 1767229200000" by code_simp
  show ?thesis using d due_run_collapses_backlog [OF d order_refl] by blast
qed

lemma nextCronFire_first_witness:
  "nextCronFire quarter_hours 1767225600000 = Some 1767226500000
   \<and> \<not> cronMatchesMinute quarter_hours 1767225660000"
proof -
  have d: "nextCronFire quarter_hours 1767225600000 = Some 1767226500000" by code_simp
  have "MINUTE_MS dvd (1767225660000::int)" by (simp add: MINUTE_MS_def)
  then show ?thesis using d nextCronFire_first [of quarter_hours 1767225600000 1767226500000] by simp
qed

section \<open>The horizon and leap days\<close>

text \<open>
  The comment at the horizon says that 366 days cover every yearly schedule with a real date. The
  schedule of 29 February shows otherwise: from March 2025 no run is found, though one exists.
\<close>

definition leap_day_schedule :: cron_schedule where
  "leap_day_schedule = (case parseCronExpression ''0 0 29 2 *'' of Inr s \<Rightarrow> s)"

lemma leap_day_schedule_parsed: "parseCronExpression ''0 0 29 2 *'' = Inr leap_day_schedule"
proof -
  have "isl (parseCronExpression ''0 0 29 2 *'') = False" by code_simp
  then show ?thesis by (cases "parseCronExpression ''0 0 29 2 *''") (auto simp: leap_day_schedule_def)
qed

lemma leap_day_schedule_fields:
  "months leap_day_schedule = [2]" "dom leap_day_schedule = [29]" "\<not> dowRestricted leap_day_schedule"
  by code_simp+

text \<open>29 February falls in leap years only.\<close>

lemma february_29: "getUTCMonth t = 1 \<Longrightarrow> getUTCDate t = 29 \<Longrightarrow> is_leap (fst (utc_date t))"
proof -
  assume "getUTCMonth t = 1" "getUTCDate t = 29"
  then have "utc_date t = (fst (utc_date t), 1, 29)"
    by (metis getUTCDate_def getUTCMonth_def prod.collapse)
  from utc_date_correct [OF this] show ?thesis by (auto simp: month_days_def split: if_splits)
qed

lemma leap_day_never_found: "nextCronFire leap_day_schedule 1740787200000 = None"
proof (rule ccontr)
  assume "nextCronFire leap_day_schedule 1740787200000 \<noteq> None"
  then obtain t where "nextCronFire leap_day_schedule 1740787200000 = Some t" by blast
  from nextCronFire_Some_D [OF this] have m: "cronMatchesMinute leap_day_schedule t"
    and b: "1740787200000 < t" "t \<le> 1740787200000 + SCAN_HORIZON_MINUTES * MINUTE_MS" by auto
  then have d: "20148 \<le> utc_day t" "utc_day t \<le> 20514"
    by (simp_all add: utc_day_def DAY_MS_def SCAN_HORIZON_MINUTES_def MINUTE_MS_def)
  define y where "y = fst (utc_date t)"
  have "y = year_from_day (utc_day t)" by (simp add: y_def utc_date_def Let_def split: prod.split)
  then have "day_from_year y \<le> utc_day t" "utc_day t < day_from_year (y + 1)"
    using year_from_day_correct [of "utc_day t"] by simp_all
  then have "146097 * (y - 1970) - 506 \<le> 400 * 20514" "400 * 20148 < 146097 * (y + 1 - 1970) + 589"
    using d day_from_year_bounds(1) [of y] day_from_year_bounds(2) [of "y + 1"] by linarith+
  then have "2025 \<le> y \<and> y \<le> 2026" by simp
  then have "y = 2025 \<or> y = 2026" by auto
  then have "\<not> is_leap y" by (auto simp: is_leap_def)
  moreover have "getUTCMonth t = 1 \<and> getUTCDate t = 29"
    using m leap_day_schedule_fields by (auto simp: cronMatchesMinute_def Let_def split: if_splits)
  ultimately show False using february_29 y_def by blast
qed

end
