(* ===== verification/Names.thy ===== *)
theory Names
  imports Constants
begin

text \<open>
  Names and their syntax (\<open>config.ts\<close> of \<open>packages/shared/src\<close>, with the secret names of
  \<open>secrets.ts\<close>): labels, hostnames, node ids, volume paths, the footprint owner derived from project,
  component and environment, and the projection of a domain onto an environment. The regular
  expressions are written out as predicates; \<open>$\<close> without the \<open>m\<close> flag is the end of the string.
\<close>

section \<open>Regular expressions as predicates\<close>

definition is_lower_alnum :: "char \<Rightarrow> bool" where
  "is_lower_alnum c \<longleftrightarrow> is_lower c \<or> is_digit c"

definition is_alnum :: "char \<Rightarrow> bool" where
  "is_alnum c \<longleftrightarrow> is_lower c \<or> is_upper c \<or> is_digit c"

text \<open>\<open>^X([X-]{0,n}X)?$\<close> for a class \<open>X\<close> of characters.\<close>

definition dashed :: "(char \<Rightarrow> bool) \<Rightarrow> nat \<Rightarrow> string \<Rightarrow> bool" where
  "dashed X n s \<longleftrightarrow>
     (case s of [] \<Rightarrow> False
      | c # r \<Rightarrow> X c \<and> (r = [] \<or> (length (butlast r) \<le> n
                            \<and> list_all (\<lambda>c. X c \<or> c = CHR ''-'') (butlast r) \<and> X (last r))))"

definition LABEL_REGEX :: "string \<Rightarrow> bool" where
  "LABEL_REGEX s \<longleftrightarrow> dashed is_lower_alnum 38 s"

definition host_label :: "string \<Rightarrow> bool" where
  "host_label s \<longleftrightarrow> dashed is_alnum 61 s"

definition dotted_quad_shape :: "string \<Rightarrow> bool" where
  "dotted_quad_shape s \<longleftrightarrow>
     (let ps = split_char CHR ''.'' s
      in length ps = 4 \<and> list_all (\<lambda>p. all_digits p \<and> length p \<le> 3) ps)"

definition HOSTNAME_REGEX :: "string \<Rightarrow> bool" where
  "HOSTNAME_REGEX s \<longleftrightarrow>
     \<not> dotted_quad_shape s
     \<and> (let ps = split_char CHR ''.'' s in 2 \<le> length ps \<and> list_all host_label ps)"

definition node_id_char :: "char \<Rightarrow> bool" where
  "node_id_char c \<longleftrightarrow> is_alnum c \<or> c = CHR ''_'' \<or> c = CHR ''-''"

definition NODE_ID_REGEX :: "string \<Rightarrow> bool" where
  "NODE_ID_REGEX s \<longleftrightarrow>
     (case s of [] \<Rightarrow> False | c # r \<Rightarrow> is_alnum c \<and> length r \<le> 62 \<and> list_all node_id_char r)"

definition SECRET_KEY_REGEX :: "string \<Rightarrow> bool" where
  "SECRET_KEY_REGEX s \<longleftrightarrow>
     (case s of [] \<Rightarrow> False
      | c # r \<Rightarrow> is_upper c \<and> list_all (\<lambda>c. is_upper c \<or> is_digit c \<or> c = CHR ''_'') r)"

definition POSTGRES_VERSION_REGEX :: "string \<Rightarrow> bool" where
  "POSTGRES_VERSION_REGEX s \<longleftrightarrow>
     (let ps = split_char CHR ''.'' s in length ps \<le> 2 \<and> list_all all_digits ps)"

definition LOGICAL_DB_NAME_REGEX :: "string \<Rightarrow> bool" where
  "LOGICAL_DB_NAME_REGEX s \<longleftrightarrow>
     (case s of [] \<Rightarrow> False
      | c # r \<Rightarrow> (is_lower c \<or> is_upper c \<or> c = CHR ''_'') \<and> length r \<le> 62
                 \<and> list_all (\<lambda>c. is_alnum c \<or> c = CHR ''_'' \<or> c = CHR ''$'') r)"

definition nodeIdError :: "string \<Rightarrow> string option" where
  "nodeIdError i = (if NODE_ID_REGEX i then None else
     Some ''must be letters, numbers, hyphens, or underscores'')"

lemmas char_class_defs = is_lower_alnum_def is_alnum_def is_lower_def is_upper_def is_digit_def in_range_def

lemma dashed_chars: "dashed X n s \<Longrightarrow> c \<in> set s \<Longrightarrow> X c \<or> c = CHR ''-''"
proof -
  assume d: "dashed X n s" and c: "c \<in> set s"
  obtain h r where s: "s = h # r" using d by (cases s) (auto simp: dashed_def)
  show ?thesis
  proof (cases "r = []")
    case True
    with d c s show ?thesis by (auto simp: dashed_def)
  next
    case False
    with c s have "c = h \<or> c \<in> set (butlast r) \<or> c = last r"
      by (metis append_butlast_last_id in_set_conv_decomp_last list.set_intros(1) set_ConsD
          rotate1.simps(2) set_rotate1)
    with d s False show ?thesis by (auto simp: dashed_def list_all_iff)
  qed
qed

lemma dashed_ends: "dashed X n s \<Longrightarrow> s \<noteq> [] \<and> X (hd s) \<and> X (last s)"
  by (cases s) (auto simp: dashed_def)

lemma dashed_length: "dashed X n s \<Longrightarrow> length s \<le> n + 2"
  by (cases s) (auto simp: dashed_def)

lemma label_chars: "LABEL_REGEX s \<Longrightarrow> c \<in> set s \<Longrightarrow> is_lower_alnum c \<or> c = CHR ''-''"
  using dashed_chars by (auto simp: LABEL_REGEX_def)

lemma label_ends: "LABEL_REGEX s \<Longrightarrow> s \<noteq> [] \<and> hd s \<noteq> CHR ''-'' \<and> last s \<noteq> CHR ''-''"
  using dashed_ends [of is_lower_alnum 38 s] by (auto simp: LABEL_REGEX_def char_class_defs)

lemma label_no_slash: "LABEL_REGEX s \<Longrightarrow> CHR ''/'' \<notin> set s \<and> CHR ''_'' \<notin> set s \<and> CHR ''.'' \<notin> set s"
  using label_chars [of s "CHR ''/''"] label_chars [of s "CHR ''_''"] label_chars [of s "CHR ''.''"]
  by (auto simp: char_class_defs)

section \<open>Volume paths\<close>

datatype volume_path_error =
  PathNotAbsolute | PathIsRoot | PathTrailingSlash | PathDotDot | PathInvalidChars

definition volume_path_char :: "char \<Rightarrow> bool" where
  "volume_path_char c \<longleftrightarrow> is_alnum c \<or> c \<in> {CHR ''.'', CHR ''_'', CHR ''-'', CHR ''/''}"

definition volumePathError :: "string \<Rightarrow> volume_path_error option" where
  "volumePathError path =
     (if \<not> starts_with path ''/'' then Some PathNotAbsolute
      else if path = ''/'' then Some PathIsRoot
      else if ends_with path ''/'' then Some PathTrailingSlash
      else if ''..'' \<in> set (split_char CHR ''/'' path) then Some PathDotDot
      else if \<not> (length path \<ge> 2 \<and> hd path = CHR ''/'' \<and> list_all volume_path_char (tl path))
        then Some PathInvalidChars
      else None)"

section \<open>Footprint owners\<close>

definition COMPONENT_SEPARATOR :: string where "COMPONENT_SEPARATOR = ''--''"

definition envProject :: "string \<Rightarrow> string option \<Rightarrow> string" where
  "envProject project env = (case env of None \<Rightarrow> project | Some e \<Rightarrow> project @ ''-'' @ e)"

definition componentOwner :: "string \<Rightarrow> string option \<Rightarrow> string" where
  "componentOwner project component =
     (case component of None \<Rightarrow> project | Some c \<Rightarrow> project @ COMPONENT_SEPARATOR @ c)"

definition footprintOwner :: "string \<Rightarrow> string option \<Rightarrow> string option \<Rightarrow> string" where
  "footprintOwner project component env = envProject (componentOwner project component) env"

text \<open>
  What the configuration's validation requires of a project or component name: a label that does not
  contain the separator.
\<close>

definition owner_part :: "string \<Rightarrow> bool" where
  "owner_part s \<longleftrightarrow> LABEL_REGEX s \<and> \<not> str_includes s COMPONENT_SEPARATOR"

lemma no_double_dash: "owner_part s \<Longrightarrow> s \<noteq> a @ ''--'' @ b"
  by (auto simp: owner_part_def COMPONENT_SEPARATOR_def str_includes_iff)

lemma separator_split_unique:
  assumes p: "owner_part p" "owner_part p'" and e: "p @ ''--'' @ c = p' @ ''--'' @ c'"
  shows "p = p'"
proof -
  have False if u: "u \<noteq> []" and x: "x = y @ u" "u @ ''--'' @ d = ''--'' @ d'" and o: "owner_part x"
    for u x y d d'
  proof -
    have ld: "last x \<noteq> CHR ''-''" and nd: "\<And>a b. x \<noteq> a @ ''--'' @ b"
      using o label_ends [of x] no_double_dash [OF o] by (auto simp: owner_part_def)
    show False
    proof (cases u)
      case (Cons v u')
      then have v: "v = CHR ''-''" and u': "u' @ ''--'' @ d = ''-'' @ d'" using x(2) by auto
      show False
      proof (cases u')
        case Nil
        with Cons v x(1) ld show False by simp
      next
        case (Cons w u'')
        with u' have "w = CHR ''-''" by simp
        with Cons \<open>u = v # u'\<close> v x(1) have "x = y @ ''--'' @ u''" by simp
        with nd show False by blast
      qed
    qed (use u in simp)
  qed
  note no = this
  obtain u where "p = p' @ u \<and> u @ ''--'' @ c = ''--'' @ c' \<or> p @ u = p' \<and> ''--'' @ c = u @ ''--'' @ c'"
    using e by (auto simp: append_eq_append_conv2)
  then show ?thesis
    using no [of u p p' c c'] no [of u p' p c' c] p by (cases "u = []") auto
qed

section \<open>Domain projection\<close>

function pattern_tokens :: "string \<Rightarrow> string list" where
  "pattern_tokens [] = []"
| "pattern_tokens (c # s) =
     (if c = CHR ''{'' then
        (case index_of CHR ''}'' s of None \<Rightarrow> []
         | Some j \<Rightarrow> take j s # pattern_tokens (drop (Suc j) s))
      else pattern_tokens s)"
  by pat_completeness auto
termination
  by (relation "measure length") auto

function replace_tokens :: "string \<Rightarrow> string \<Rightarrow> string \<Rightarrow> string" where
  "replace_tokens env service [] = []"
| "replace_tokens env service (c # s) =
     (if c = CHR ''{'' \<and> starts_with s ''env}'' then env @ replace_tokens env service (drop 4 s)
      else if c = CHR ''{'' \<and> starts_with s ''service}'' then
        service @ replace_tokens env service (drop 8 s)
      else c # replace_tokens env service s)"
  by pat_completeness auto
termination
  by (relation "measure (\<lambda>(_, _, s). length s)") auto

datatype domain_pattern_error = UnknownTokens "string list" | MissingEnvToken | NotAHostname

definition domainPatternError :: "string \<Rightarrow> domain_pattern_error option" where
  "domainPatternError pattern =
     (let tokens = pattern_tokens pattern;
          unknown = filter (\<lambda>t. t \<notin> {''env'', ''service''}) tokens
      in if unknown \<noteq> [] then Some (UnknownTokens unknown)
         else if ''env'' \<notin> set tokens then Some MissingEnvToken
         else if \<not> HOSTNAME_REGEX (replace_tokens ''a'' ''a'' pattern) then Some NotAHostname
         else None)"

text \<open>\<open>domain.replace(/^([^.]+)/, `$1-${env}`)\<close>; an environment name holds no \<open>$\<close>.\<close>

definition insert_env_label :: "string \<Rightarrow> string \<Rightarrow> string" where
  "insert_env_label domain env =
     (let l = takeWhile (\<lambda>c. c \<noteq> CHR ''.'') domain
      in if l = [] then domain else l @ ''-'' @ env @ drop (length l) domain)"

datatype domain_error = ProjectedDomainInvalid string string string

definition resolveServiceDomain ::
  "string option \<Rightarrow> string option \<Rightarrow> string \<Rightarrow> string option \<Rightarrow> domain_error + string option" where
  "resolveServiceDomain domain domainPattern service env =
     (case domain of None \<Rightarrow> Inr None
      | Some d \<Rightarrow>
         (case env of None \<Rightarrow> Inr (Some d)
          | Some e \<Rightarrow>
             (let projected =
                (case domainPattern of
                   Some p \<Rightarrow> if p \<noteq> [] then replace_tokens e service p else insert_env_label d e
                 | None \<Rightarrow> insert_env_label d e)
              in if HOSTNAME_REGEX projected then Inr (Some projected)
                 else Inl (ProjectedDomainInvalid projected service e))))"

text \<open>Production deploys keep the declared environment; a named one injects its name unless declared.\<close>

definition containerEnvForDeploy ::
  "(string, string) assoc \<Rightarrow> string option \<Rightarrow> (string, string) assoc" where
  "containerEnvForDeploy declared deployEnv =
     (case deployEnv of None \<Rightarrow> declared
      | Some e \<Rightarrow> fold (\<lambda>(k, v). assoc_set k v) declared [(LAUNCH_PAD_ENVIRONMENT, e)])"

subsection \<open>A pattern that passes the check keeps environments apart\<close>

fun env_tokens :: "string list \<Rightarrow> nat" where
  "env_tokens [] = 0"
| "env_tokens (t # ts) = (if t = ''env'' then Suc (env_tokens ts) else env_tokens ts)"

definition known_tokens :: "string \<Rightarrow> bool" where
  "known_tokens s \<longleftrightarrow> set (pattern_tokens s) \<subseteq> {''env'', ''service''}"

text \<open>The shape of a pattern whose tokens are all known: what replacing does at each step.\<close>

lemma index_of_closing:
  assumes "index_of CHR ''}'' s = Some j"
  shows "s = take j s @ CHR ''}'' # drop (Suc j) s"
  using assms id_take_nth_drop [of j s] by (auto simp: index_of_Some)

lemma no_closing: "CHR ''}'' \<notin> set s \<Longrightarrow> replace_tokens e v s = s"
proof (induction e v s rule: replace_tokens.induct)
  case (2 e v c s)
  then have "\<not> starts_with s ''env}''" "\<not> starts_with s ''service}''"
    by (auto simp: starts_with_iff)
  with 2 show ?case by auto
qed simp

lemma known_cases:
  assumes "known_tokens (c # s)"
  obtains (env) r where "length r < length s" "known_tokens r"
      "pattern_tokens (c # s) = ''env'' # pattern_tokens r"
      "\<And>e v. replace_tokens e v (c # s) = e @ replace_tokens e v r"
  | (service) r where "length r < length s" "known_tokens r"
      "pattern_tokens (c # s) = ''service'' # pattern_tokens r"
      "\<And>e v. replace_tokens e v (c # s) = v @ replace_tokens e v r"
  | (dead) "pattern_tokens (c # s) = []" "\<And>e v. replace_tokens e v (c # s) = c # s"
  | (plain) "known_tokens s" "pattern_tokens (c # s) = pattern_tokens s"
      "\<And>e v. replace_tokens e v (c # s) = c # replace_tokens e v s"
proof (cases "c = CHR ''{''")
  case False
  with assms show ?thesis by (intro plain) (auto simp: known_tokens_def)
next
  case True
  show ?thesis
  proof (cases "index_of CHR ''}'' s")
    case None
    then have "CHR ''}'' \<notin> set (c # s)" using True by (simp add: index_of_None)
    then have "replace_tokens e v (c # s) = c # s" for e v by (rule no_closing)
    with None True show ?thesis by (intro dead) simp_all
  next
    case (Some j)
    define r where "r = drop (Suc j) s"
    have s: "s = take j s @ CHR ''}'' # r" using index_of_closing [OF Some] by (simp add: r_def)
    have pt: "pattern_tokens (c # s) = take j s # pattern_tokens r" using Some True by (simp add: r_def)
    with assms have "take j s = ''env'' \<or> take j s = ''service''" and k: "known_tokens r"
      by (auto simp: known_tokens_def)
    then show ?thesis
    proof (elim disjE)
      assume t: "take j s = ''env''"
      with s have "s = ''env}'' @ r" by simp
      with t True pt k show ?thesis by (intro env [of r]) (auto simp: starts_with_def)
    next
      assume t: "take j s = ''service''"
      with s have "s = ''service}'' @ r" by simp
      with t True pt k show ?thesis by (intro service [of r]) (auto simp: starts_with_def)
    qed
  qed
qed

lemma replace_length:
  "known_tokens s \<Longrightarrow>
   length (replace_tokens e v s) = length (replace_tokens [] v s) + env_tokens (pattern_tokens s) * length e"
proof (induction s rule: length_induct)
  case (1 s)
  note IH = "1.IH" [rule_format]
  show ?case
  proof (cases s)
    case (Cons c r)
    with 1 have "known_tokens (c # r)" by simp
    then show ?thesis
    proof (cases rule: known_cases)
      case (env q)
      show ?thesis using IH [OF _ env(2)] env(1) by (simp only: Cons env(3,4)) simp
    next
      case (service q)
      show ?thesis using IH [OF _ service(2)] service(1) by (simp only: Cons service(3,4)) simp
    next
      case dead
      show ?thesis by (simp only: Cons dead) simp
    next
      case plain
      show ?thesis using IH [OF _ plain(1)] by (simp only: Cons plain(2,3)) simp
    qed
  qed simp
qed

lemma replace_inj_same_length:
  "known_tokens s \<Longrightarrow> ''env'' \<in> set (pattern_tokens s) \<Longrightarrow> length e = length e'
   \<Longrightarrow> replace_tokens e v s = replace_tokens e' v s \<Longrightarrow> e = e'"
proof (induction s rule: length_induct)
  case (1 s)
  note IH = "1.IH" [rule_format]
  obtain c r where s: "s = c # r" using 1 by (cases s) auto
  note prems = "1.prems" [unfolded s]
  from prems(1) show ?case
  proof (cases rule: known_cases)
    case (env q)
    show ?thesis using prems(3,4) by (simp only: env(4)) simp
  next
    case (service q)
    show ?thesis
      using prems(2,4) IH [OF _ service(2) _ prems(3)] service(1)
      by (simp only: s service(3,4)) simp
  next
    case dead
    show ?thesis using prems(2) by (simp only: dead) simp
  next
    case plain
    show ?thesis
      using prems(2,4) IH [OF _ plain(1) _ prems(3)] by (simp only: s plain(2,3)) simp
  qed
qed

lemma env_tokens_pos: "''env'' \<in> set ts \<Longrightarrow> 0 < env_tokens ts"
  by (induction ts) auto

lemma replace_tokens_inj:
  assumes "known_tokens p" "''env'' \<in> set (pattern_tokens p)"
    and "replace_tokens e v p = replace_tokens e' v p"
  shows "e = e'"
proof -
  have "env_tokens (pattern_tokens p) * length e = env_tokens (pattern_tokens p) * length e'"
    using arg_cong [OF assms(3), of length] replace_length [OF assms(1)] by (metis add_left_cancel)
  then have "length e = length e'" using env_tokens_pos [OF assms(2)] by simp
  with assms replace_inj_same_length show ?thesis by blast
qed

lemma domainPatternError_None:
  "domainPatternError p = None \<Longrightarrow> known_tokens p \<and> ''env'' \<in> set (pattern_tokens p)"
  by (auto simp: domainPatternError_def Let_def known_tokens_def filter_empty_conv split: if_splits)

lemma insert_env_label_inj:
  "d \<noteq> [] \<Longrightarrow> hd d \<noteq> CHR ''.'' \<Longrightarrow> insert_env_label d e = insert_env_label d e' \<Longrightarrow> e = e'"
  by (cases d) (auto simp: insert_env_label_def Let_def)

lemma hostname_start: "HOSTNAME_REGEX d \<Longrightarrow> d \<noteq> [] \<and> hd d \<noteq> CHR ''.''"
proof -
  assume h: "HOSTNAME_REGEX d"
  show ?thesis
  proof (cases d)
    case Nil
    with h show ?thesis by (simp add: HOSTNAME_REGEX_def Let_def)
  next
    case (Cons c s)
    have "c \<noteq> CHR ''.''"
      using h Cons by (auto simp: HOSTNAME_REGEX_def Let_def host_label_def dashed_def)
    with Cons show ?thesis by simp
  qed
qed

end
