(* ===== verification/Registry.thy ===== *)
theory Registry
  imports Names
begin

text \<open>
  The node registry (\<open>registry.ts\<close>, \<open>node-role.ts\<close>, \<open>architecture.ts\<close>, \<open>aws-tags.ts\<close> of
  \<open>packages/shared/src\<close>): what a node is, its capacity after the host's reservation, its role and
  architecture, and the tags of the resources created for it.
\<close>

section \<open>Roles, states and architectures\<close>

datatype node_state = Provisioning | Ready | Stopped | Terminating | Terminated
datatype node_role = RoleApp | RoleEdge | RoleBoth
datatype node_agent_type = AgentTs | AgentRust
datatype provisioning_mode = Ec2 | External
datatype architecture = X86_64 | Arm64

definition nodeHostsContainers :: "node_role \<Rightarrow> bool" where
  "nodeHostsContainers role \<longleftrightarrow> role = RoleApp \<or> role = RoleBoth"

definition nodeFrontsIngress :: "node_role \<Rightarrow> bool" where
  "nodeFrontsIngress role \<longleftrightarrow> role = RoleEdge \<or> role = RoleBoth"

definition nodeUsesElasticIp :: "node_role \<Rightarrow> bool" where
  "nodeUsesElasticIp role \<longleftrightarrow> role = RoleEdge \<or> role = RoleBoth"

definition role_string :: "node_role \<Rightarrow> string" where
  "role_string role = (case role of RoleApp \<Rightarrow> ''app'' | RoleEdge \<Rightarrow> ''edge'' | RoleBoth \<Rightarrow> ''both'')"

definition dockerPlatformForArchitecture :: "architecture \<Rightarrow> string" where
  "dockerPlatformForArchitecture a = (if a = Arm64 then ''linux/arm64'' else ''linux/amd64'')"

definition caddyArchForArchitecture :: "architecture \<Rightarrow> string" where
  "caddyArchForArchitecture a = (if a = Arm64 then ''arm64'' else ''amd64'')"

definition rustTargetForArchitecture :: "architecture \<Rightarrow> string" where
  "rustTargetForArchitecture a =
     (if a = Arm64 then ''aarch64-unknown-linux-musl'' else ''x86_64-unknown-linux-musl'')"

definition distDirForArchitecture :: "architecture \<Rightarrow> string" where
  "distDirForArchitecture a = (if a = Arm64 then ''arm64'' else ''x86_64'')"

definition parseAwsInstanceArchitecture :: "string list option \<Rightarrow> architecture option" where
  "parseAwsInstanceArchitecture values =
     (case values of None \<Rightarrow> None
      | Some vs \<Rightarrow> if ''arm64'' \<in> set vs then Some Arm64
                   else if ''x86_64'' \<in> set vs then Some X86_64 else None)"

text \<open>Every role hosts containers or fronts ingress, and an Elastic IP goes with ingress.\<close>

lemma role_cover: "nodeHostsContainers r \<or> nodeFrontsIngress r"
  by (cases r) (auto simp: nodeHostsContainers_def nodeFrontsIngress_def)

lemma elastic_ip_iff_ingress: "nodeUsesElasticIp r \<longleftrightarrow> nodeFrontsIngress r"
  by (simp add: nodeUsesElasticIp_def nodeFrontsIngress_def)

section \<open>The registry entry\<close>

record node_entry =
  ne_nodeId :: string
  ne_clusterId :: string
  ne_instanceId :: "string option"
  ne_instanceType :: string
  ne_architecture :: architecture
  ne_region :: string
  ne_availabilityZone :: "string option"
  ne_role :: node_role
  ne_privateIp :: "string option"
  ne_totalCpu :: int
  ne_totalMemory :: int
  ne_reservedCpu :: int
  ne_reservedMemory :: int
  ne_publicIp :: "string option"
  ne_eipAllocationId :: "string option"
  ne_securityGroupId :: "string option"
  ne_iamInstanceProfile :: "string option"
  ne_provisioning :: provisioning_mode
  ne_advertiseIp :: "string option"
  ne_iamUserName :: "string option"
  ne_agentId :: string
  ne_agentVersion :: "string option"
  ne_agentType :: node_agent_type
  ne_createdAt :: string
  ne_createdBy :: string
  ne_state :: node_state

text \<open>What the schema of \<open>node.json\<close> admits beyond the field types.\<close>

definition valid_node_entry :: "node_entry \<Rightarrow> bool" where
  "valid_node_entry e \<longleftrightarrow> ne_nodeId e \<noteq> [] \<and> LABEL_REGEX (ne_clusterId e) \<and> ne_instanceType e \<noteq> [] \<and> ne_region e \<noteq> []
     \<and> 0 \<le> ne_totalCpu e \<and> 0 \<le> ne_totalMemory e \<and> 0 \<le> ne_reservedCpu e \<and> 0 \<le> ne_reservedMemory e"

definition agentIdForNode :: "string \<Rightarrow> string" where
  "agentIdForNode nodeId = ''agent-'' @ nodeId"

definition allocatableCpu :: "node_entry \<Rightarrow> int" where
  "allocatableCpu e = ne_totalCpu e - ne_reservedCpu e"

definition allocatableMemory :: "node_entry \<Rightarrow> int" where
  "allocatableMemory e = ne_totalMemory e - ne_reservedMemory e"

section \<open>Resource tags\<close>

record aws_tag =
  tag_Key :: string
  tag_Value :: string

definition managedTag :: aws_tag where
  "managedTag = \<lparr>tag_Key = ''launch-pad'', tag_Value = ''true''\<rparr>"

definition nodeResourceTags :: "string \<Rightarrow> string \<Rightarrow> node_role \<Rightarrow> aws_tag list" where
  "nodeResourceTags clusterId nodeId role =
     [managedTag,
      \<lparr>tag_Key = ''launch-pad:cluster'', tag_Value = clusterId\<rparr>,
      \<lparr>tag_Key = ''launch-pad:node'', tag_Value = nodeId\<rparr>,
      \<lparr>tag_Key = ''launch-pad:role'', tag_Value = role_string role\<rparr>,
      \<lparr>tag_Key = ''Name'', tag_Value = ''launch-pad-'' @ nodeId\<rparr>]"

definition bucketTags :: "string \<Rightarrow> aws_tag list" where
  "bucketTags clusterId = [managedTag, \<lparr>tag_Key = ''launch-pad:cluster'', tag_Value = clusterId\<rparr>]"

definition ecrRepoTags :: "string \<Rightarrow> string \<Rightarrow> aws_tag list" where
  "ecrRepoTags project service =
     [managedTag,
      \<lparr>tag_Key = ''launch-pad:project'', tag_Value = project\<rparr>,
      \<lparr>tag_Key = ''launch-pad:service'', tag_Value = service\<rparr>]"

lemma nodeResourceTags_keys_distinct: "distinct (map tag_Key (nodeResourceTags c n r))"
  by (simp add: nodeResourceTags_def managedTag_def)

lemma nodeResourceTags_inj:
  "nodeResourceTags c n r = nodeResourceTags c' n' r' \<longleftrightarrow> c = c' \<and> n = n' \<and> r = r'"
  by (auto simp: nodeResourceTags_def role_string_def split: node_role.splits)

end
