(* ===== verification/Service_Config.thy ===== *)
theory Service_Config
  imports Names Registry
begin

text \<open>
  The services of a node and their documents (\<open>desired.ts\<close>, \<open>health.ts\<close>, \<open>secrets.ts\<close> of
  \<open>packages/shared/src\<close>): health checks, rollout durations, secret references, volumes, managed
  databases, and the desired state of one node. Parsing an untrusted document is the schema library's;
  what a parsed document satisfies beyond its types is \<open>valid_service_config\<close>.
\<close>

section \<open>Health checks and durations\<close>

record health_check =
  hc_path :: string
  hc_port :: "int option"
  hc_intervalMs :: int
  hc_timeoutMs :: int
  hc_healthyThreshold :: int

record rollout =
  ro_maxSurge :: int
  ro_drainTimeout :: string
  ro_stopGrace :: string

definition DEFAULT_ROLLOUT :: rollout where
  "DEFAULT_ROLLOUT = \<lparr>ro_maxSurge = 1, ro_drainTimeout = ''20s'', ro_stopGrace = ''30s''\<rparr>"

text \<open>\<open>/^(\d+)(ms|s|m)$/\<close>: digits, then one of the units; the digits take as much as they can.\<close>

definition duration_parts :: "string \<Rightarrow> (nat \<times> string) option" where
  "duration_parts d =
     (let ds = takeWhile is_digit d; u = dropWhile is_digit d
      in if ds \<noteq> [] \<and> u \<in> {''ms'', ''s'', ''m''} then Some (digits_val ds, u) else None)"

definition valid_duration :: "string \<Rightarrow> bool" where
  "valid_duration d \<longleftrightarrow> duration_parts d \<noteq> None"

definition parseDurationMs :: "string \<Rightarrow> int" where
  "parseDurationMs d =
     (case duration_parts d of None \<Rightarrow> 0
      | Some (n, u) \<Rightarrow> if u = ''ms'' then int n else if u = ''s'' then int n * SECOND_MS else int n * MINUTE_MS)"

definition valid_health_check :: "health_check \<Rightarrow> bool" where
  "valid_health_check h \<longleftrightarrow> starts_with (hc_path h) ''/''
     \<and> (case hc_port h of None \<Rightarrow> True | Some p \<Rightarrow> 1 \<le> p \<and> p \<le> 65535)
     \<and> 1 \<le> hc_intervalMs h \<and> 1 \<le> hc_timeoutMs h \<and> 1 \<le> hc_healthyThreshold h"

definition valid_rollout :: "rollout \<Rightarrow> bool" where
  "valid_rollout r \<longleftrightarrow> 1 \<le> ro_maxSurge r \<and> valid_duration (ro_drainTimeout r) \<and> valid_duration (ro_stopGrace r)"

lemma duration_parts_show: "u \<in> {''ms'', ''s'', ''m''} \<Longrightarrow> duration_parts (show_nat n @ u) = Some (n, u)"
proof -
  assume u: "u \<in> {''ms'', ''s'', ''m''}"
  have d: "\<forall>c \<in> set (show_nat n). is_digit c" using show_nat_digits by (simp add: list_all_iff)
  have "takeWhile is_digit u = []" "dropWhile is_digit u = u"
    using u by (auto simp: is_digit_def in_range_def)
  then have "takeWhile is_digit (show_nat n @ u) = show_nat n" "dropWhile is_digit (show_nat n @ u) = u"
    using d by (simp_all add: takeWhile_append2 dropWhile_append2)
  with u show ?thesis by (simp add: duration_parts_def)
qed

lemma parseDurationMs_show:
  "parseDurationMs (show_nat n @ ''ms'') = int n"
  "parseDurationMs (show_nat n @ ''s'') = int n * 1000"
  "parseDurationMs (show_nat n @ ''m'') = int n * 60000"
  by (simp_all add: parseDurationMs_def duration_parts_show time_defs)

lemma parseDurationMs_nonneg: "0 \<le> parseDurationMs d"
  by (auto simp: parseDurationMs_def time_defs split: option.splits prod.splits)

section \<open>Secrets\<close>

record secret_ref =
  sr_name :: string
  sr_ssm :: string

definition secretParameterPrefix :: "string \<Rightarrow> string \<Rightarrow> string \<Rightarrow> string" where
  "secretParameterPrefix clusterId ownerProject service =
     ''/launch-pad/'' @ clusterId @ ''/'' @ ownerProject @ ''/'' @ service"

definition secretParameterPath :: "string \<Rightarrow> string \<Rightarrow> string \<Rightarrow> string \<Rightarrow> string" where
  "secretParameterPath clusterId ownerProject service key =
     secretParameterPrefix clusterId ownerProject service @ ''/'' @ key"

definition secretRefsForService :: "string list \<Rightarrow> string \<Rightarrow> string \<Rightarrow> string \<Rightarrow> secret_ref list" where
  "secretRefsForService secrets clusterId ownerProject service =
     map (\<lambda>name. \<lparr>sr_name = name, sr_ssm = secretParameterPath clusterId ownerProject service name\<rparr>) secrets"

definition findEnvSecretConflicts :: "(string, string) assoc \<Rightarrow> string list \<Rightarrow> string list" where
  "findEnvSecretConflicts env secrets = filter (\<lambda>k. k \<in> set (map fst env)) secrets"

lemma slash_split_unique:
  "CHR ''/'' \<notin> set a \<Longrightarrow> CHR ''/'' \<notin> set b \<Longrightarrow> a @ CHR ''/'' # x = b @ CHR ''/'' # y \<Longrightarrow> a = b \<and> x = y"
proof (induction a arbitrary: b)
  case Nil
  then show ?case by (cases b) auto
next
  case (Cons c a)
  then show ?case by (cases b) auto
qed

text \<open>Two secrets share a parameter only when they are the same secret.\<close>

lemma secretParameterPath_inj:
  assumes "CHR ''/'' \<notin> set c" "CHR ''/'' \<notin> set c'" "CHR ''/'' \<notin> set p" "CHR ''/'' \<notin> set p'"
    "CHR ''/'' \<notin> set s" "CHR ''/'' \<notin> set s'"
    and "secretParameterPath c p s k = secretParameterPath c' p' s' k'"
  shows "c = c' \<and> p = p' \<and> s = s' \<and> k = k'"
proof -
  have e: "c @ CHR ''/'' # p @ CHR ''/'' # s @ CHR ''/'' # k = c' @ CHR ''/'' # p' @ CHR ''/'' # s' @ CHR ''/'' # k'"
    using assms(7) by (simp add: secretParameterPath_def secretParameterPrefix_def)
  note 1 = slash_split_unique [OF assms(1,2) e]
  note 2 = slash_split_unique [OF assms(3,4) conjunct2 [OF 1]]
  note 3 = slash_split_unique [OF assms(5,6) conjunct2 [OF 2]]
  from 1 2 3 show ?thesis by blast
qed

section \<open>Volumes, databases, jobs\<close>

record volume_decl =
  vd_name :: string
  vd_path :: string

record service_database =
  db_engine :: string
  db_version :: string
  db_databases :: "string list"

record backup_config =
  bc_schedule :: string
  bc_retentionDays :: int
  bc_bucket :: string
  bc_prefix :: string

record job_run_request =
  jr_id :: string
  jr_requestedAt :: string

record ingress =
  ig_domain :: string
  ig_port :: int
  ig_edge :: string

section \<open>The desired state of a node\<close>

record service_config =
  sc_project :: string
  sc_service :: string
  sc_image :: string
  sc_cpu :: int
  sc_memory :: int
  sc_replicas :: int
  sc_env :: "(string, string) assoc"
  sc_secretRefs :: "secret_ref list"
  sc_restartAt :: "string option"
  sc_cron :: "string option"
  sc_ingress :: "ingress option"
  sc_healthCheck :: "health_check option"
  sc_rollout :: rollout
  sc_volumes :: "volume_decl list"
  sc_database :: "service_database option"
  sc_backup :: "backup_config option"
  sc_jobRun :: "job_run_request option"

record desired_state =
  ds_version :: int
  ds_nodeId :: string
  ds_updatedAt :: string
  ds_services :: "service_config list"

definition valid_service_config :: "service_config \<Rightarrow> bool" where
  "valid_service_config s \<longleftrightarrow> sc_project s \<noteq> [] \<and> sc_service s \<noteq> [] \<and> sc_image s \<noteq> []
     \<and> 1 \<le> sc_cpu s \<and> 1 \<le> sc_memory s \<and> 1 \<le> sc_replicas s \<and> valid_rollout (sc_rollout s)
     \<and> (case sc_ingress s of None \<Rightarrow> True
        | Some i \<Rightarrow> HOSTNAME_REGEX (ig_domain i) \<and> 1 \<le> ig_port i \<and> ig_port i \<le> 65535 \<and> ig_edge i \<noteq> [])
     \<and> (case sc_healthCheck s of None \<Rightarrow> True | Some h \<Rightarrow> valid_health_check h)
     \<and> list_all (\<lambda>v. LABEL_REGEX (vd_name v) \<and> volumePathError (vd_path v) = None) (sc_volumes s)
     \<and> list_all (\<lambda>r. SECRET_KEY_REGEX (sr_name r) \<and> sr_ssm r \<noteq> []) (sc_secretRefs s)"

definition serviceKey :: "string \<Rightarrow> string \<Rightarrow> string" where
  "serviceKey project service = project @ ''/'' @ service"

abbreviation sc_key :: "service_config \<Rightarrow> string" where
  "sc_key s \<equiv> serviceKey (sc_project s) (sc_service s)"

definition emptyDesiredState :: "string \<Rightarrow> string \<Rightarrow> desired_state" where
  "emptyDesiredState nodeId now =
     \<lparr>ds_version = PROTOCOL_VERSION, ds_nodeId = nodeId, ds_updatedAt = now, ds_services = []\<rparr>"

text \<open>
  The argument is what the schema makes of the document: \<open>None\<close> when it rejects it (wrong version,
  corrupt), which the code reads as the empty document.
\<close>

definition parseDesiredStateOrEmpty :: "string \<Rightarrow> desired_state option \<Rightarrow> string \<Rightarrow> desired_state" where
  "parseDesiredStateOrEmpty nodeId parsed now =
     (case parsed of Some d \<Rightarrow> d | None \<Rightarrow> emptyDesiredState nodeId now)"

lemma serviceKey_inj:
  "CHR ''/'' \<notin> set p \<Longrightarrow> CHR ''/'' \<notin> set p' \<Longrightarrow> serviceKey p s = serviceKey p' s' \<longleftrightarrow> p = p' \<and> s = s'"
  using slash_split_unique [of p p' s s'] by (auto simp: serviceKey_def)

lemma serviceKey_inj_service [simp]: "serviceKey p s = serviceKey p s' \<longleftrightarrow> s = s'"
  by (simp add: serviceKey_def)

text \<open>A service without anything optional, for concrete examples.\<close>

definition plain_service :: "string \<Rightarrow> string \<Rightarrow> int \<Rightarrow> int \<Rightarrow> int \<Rightarrow> service_config" where
  "plain_service project service cpu memory replicas =
     \<lparr>sc_project = project, sc_service = service, sc_image = ''img'', sc_cpu = cpu, sc_memory = memory,
      sc_replicas = replicas, sc_env = [], sc_secretRefs = [], sc_restartAt = None, sc_cron = None,
      sc_ingress = None, sc_healthCheck = None, sc_rollout = DEFAULT_ROLLOUT, sc_volumes = [],
      sc_database = None, sc_backup = None, sc_jobRun = None\<rparr>"

lemma plain_service_sel [simp]:
  "sc_project (plain_service p s c m r) = p" "sc_service (plain_service p s c m r) = s"
  "sc_cpu (plain_service p s c m r) = c" "sc_memory (plain_service p s c m r) = m"
  "sc_replicas (plain_service p s c m r) = r" "sc_ingress (plain_service p s c m r) = None"
  "sc_volumes (plain_service p s c m r) = []"
  by (simp_all add: plain_service_def)

end
