(* ===== verification/Config.thy ===== *)
theory Config
  imports Cron Service_Config
begin

text \<open>
  The project file (\<open>packages/shared/src/config.ts\<close>): the declarations of services, databases and
  jobs, the check of the decoded TOML's keys, the validation of a declaration with its list of issues,
  and the desugaring of databases into services. Decoding and the field-by-field checks are the schema
  library's; the constraints they state are \<open>valid_service_decl\<close> and its like. A document is accepted
  when the constraints hold and every list of issues is empty. The time of the check is an argument.
\<close>

section \<open>Keys of the decoded document\<close>

datatype raw_value = RawScalar | RawArray "raw_value list" | RawObject "(string \<times> raw_value) list"

definition DEPRECATED_SERVICE_KEYS :: "string list" where
  "DEPRECATED_SERVICE_KEYS = [''cluster'', ''schedule'', ''node'', ''nodes'', ''edge'', ''topology'']"

definition SUPPORTED_TOP_LEVEL_KEYS :: "string list" where
  "SUPPORTED_TOP_LEVEL_KEYS = [''project'', ''component'', ''domainPattern'', ''service'', ''database'', ''job'']"

definition SUPPORTED_DATABASE_KEYS :: "string list" where
  "SUPPORTED_DATABASE_KEYS =
     [''name'', ''engine'', ''version'', ''storage'', ''cpu'', ''memory'', ''databases'', ''backup'']"

definition SUPPORTED_BACKUP_KEYS :: "string list" where
  "SUPPORTED_BACKUP_KEYS = [''schedule'', ''retentionDays'']"

definition SUPPORTED_SERVICE_KEYS :: "string list" where
  "SUPPORTED_SERVICE_KEYS =
     [''name'', ''cron'', ''dockerfile'', ''context'', ''replicas'', ''cpu'', ''memory'', ''env'', ''domain'',
      ''domainPattern'', ''port'', ''healthCheck'', ''rollout'', ''secrets'', ''volumes'']"

definition SUPPORTED_JOB_KEYS :: "string list" where
  "SUPPORTED_JOB_KEYS = [''name'', ''dockerfile'', ''context'', ''cpu'', ''memory'', ''env'', ''secrets'']"

datatype raw_error =
    UnsupportedKey string nat string
  | DeprecatedKey nat string

fun first_error :: "('a \<Rightarrow> 'e option) \<Rightarrow> 'a list \<Rightarrow> 'e option" where
  "first_error f [] = None"
| "first_error f (x # xs) = (case f x of Some e \<Rightarrow> Some e | None \<Rightarrow> first_error f xs)"

fun object_keys :: "raw_value \<Rightarrow> string list option" where
  "object_keys (RawObject kvs) = Some (map fst kvs)"
| "object_keys _ = None"

definition member :: "raw_value \<Rightarrow> string \<Rightarrow> raw_value option" where
  "member v k = (case v of RawObject kvs \<Rightarrow> map_of kvs k | _ \<Rightarrow> None)"

text \<open>The blocks of an array of tables, with their positions; anything else has none.\<close>

definition blocks :: "raw_value \<Rightarrow> string \<Rightarrow> (nat \<times> raw_value) list" where
  "blocks root k = (case member root k of Some (RawArray xs) \<Rightarrow> List.enumerate 0 xs | _ \<Rightarrow> [])"

definition unsupported :: "string \<Rightarrow> nat \<Rightarrow> string list \<Rightarrow> raw_value \<Rightarrow> raw_error option" where
  "unsupported what i allowed v =
     (case object_keys v of None \<Rightarrow> None
      | Some ks \<Rightarrow> first_error (\<lambda>k. if k \<notin> set allowed then Some (UnsupportedKey what i k) else None) ks)"

definition check_database :: "nat \<times> raw_value \<Rightarrow> raw_error option" where
  "check_database iv =
     (case iv of (i, v) \<Rightarrow>
        (case unsupported ''database'' i SUPPORTED_DATABASE_KEYS v of Some e \<Rightarrow> Some e
         | None \<Rightarrow> (case member v ''backup'' of None \<Rightarrow> None
                    | Some b \<Rightarrow> unsupported ''backup'' i SUPPORTED_BACKUP_KEYS b)))"

definition check_service :: "nat \<times> raw_value \<Rightarrow> raw_error option" where
  "check_service iv =
     (case iv of (i, v) \<Rightarrow>
        (case object_keys v of None \<Rightarrow> None
         | Some ks \<Rightarrow> first_error (\<lambda>k.
             if k \<in> set DEPRECATED_SERVICE_KEYS then Some (DeprecatedKey i k)
             else if k \<notin> set SUPPORTED_SERVICE_KEYS then Some (UnsupportedKey ''service'' i k) else None) ks))"

definition check_job :: "nat \<times> raw_value \<Rightarrow> raw_error option" where
  "check_job iv = (case iv of (i, v) \<Rightarrow> unsupported ''job'' i SUPPORTED_JOB_KEYS v)"

definition assertSupportedLaunchPadConfigRaw :: "raw_value \<Rightarrow> raw_error option" where
  "assertSupportedLaunchPadConfigRaw input =
     (case input of
        RawObject kvs \<Rightarrow>
          first_error (\<lambda>c. c)
            [unsupported ''(root)'' 0 SUPPORTED_TOP_LEVEL_KEYS input,
             first_error check_database (blocks input ''database''),
             first_error check_service (blocks input ''service''),
             first_error check_job (blocks input ''job'')]
      | _ \<Rightarrow> None)"

section \<open>Declarations\<close>

record backup_decl =
  bd_schedule :: string
  bd_retentionDays :: int

record database_decl =
  dd_name :: string
  dd_engine :: string
  dd_version :: string
  dd_storage :: "string option"
  dd_cpu :: int
  dd_memory :: int
  dd_databases :: "string list"
  dd_backup :: "backup_decl option"

record job_decl =
  jd_name :: string
  jd_dockerfile :: string
  jd_context :: string
  jd_cpu :: int
  jd_memory :: int
  jd_env :: "(string, string) assoc"
  jd_secrets :: "string list"

record service_decl =
  sd_name :: string
  sd_cron :: "string option"
  sd_dockerfile :: string
  sd_context :: string
  sd_replicas :: int
  sd_cpu :: int
  sd_memory :: int
  sd_env :: "(string, string) assoc"
  sd_secrets :: "string list"
  sd_domain :: "string option"
  sd_domainPattern :: "string option"
  sd_port :: "int option"
  sd_healthCheck :: "health_check option"
  sd_rollout :: rollout
  sd_volumes :: "volume_decl list"
  sd_database :: "service_database option"
  sd_backup :: "backup_decl option"

record launch_pad_config =
  lc_project :: string
  lc_component :: "string option"
  lc_domainPattern :: "string option"
  lc_service :: "service_decl list"
  lc_database :: "database_decl list option"
  lc_job :: "job_decl list option"

definition SERVICE_NUMERIC_FIELD_MIN :: int where "SERVICE_NUMERIC_FIELD_MIN = 1"

definition serviceHasIngress :: "service_decl \<Rightarrow> bool" where
  "serviceHasIngress s \<longleftrightarrow> sd_domain s \<noteq> None \<and> sd_port s \<noteq> None"

definition isWebService :: "service_decl \<Rightarrow> bool" where
  "isWebService s = serviceHasIngress s"

definition isDatabaseService :: "service_decl \<Rightarrow> bool" where
  "isDatabaseService s \<longleftrightarrow> sd_database s \<noteq> None"

section \<open>Constraints of the fields\<close>

definition opt_all :: "('a \<Rightarrow> bool) \<Rightarrow> 'a option \<Rightarrow> bool" where
  "opt_all P x = (case x of None \<Rightarrow> True | Some v \<Rightarrow> P v)"

definition valid_volume_decl :: "volume_decl \<Rightarrow> bool" where
  "valid_volume_decl v \<longleftrightarrow> LABEL_REGEX (vd_name v) \<and> volumePathError (vd_path v) = None"

definition valid_service_database :: "service_database \<Rightarrow> bool" where
  "valid_service_database d \<longleftrightarrow> db_engine d = ''postgres'' \<and> POSTGRES_VERSION_REGEX (db_version d)
     \<and> list_all LOGICAL_DB_NAME_REGEX (db_databases d)"

definition valid_backup_decl :: "backup_decl \<Rightarrow> bool" where
  "valid_backup_decl b \<longleftrightarrow> 1 \<le> bd_retentionDays b \<and> bd_retentionDays b \<le> 3650"

definition valid_database_decl :: "database_decl \<Rightarrow> bool" where
  "valid_database_decl d \<longleftrightarrow> LABEL_REGEX (dd_name d) \<and> dd_engine d = ''postgres''
     \<and> POSTGRES_VERSION_REGEX (dd_version d) \<and> opt_all (\<lambda>s. s \<noteq> []) (dd_storage d)
     \<and> SERVICE_NUMERIC_FIELD_MIN \<le> dd_cpu d \<and> SERVICE_NUMERIC_FIELD_MIN \<le> dd_memory d
     \<and> list_all LOGICAL_DB_NAME_REGEX (dd_databases d) \<and> opt_all valid_backup_decl (dd_backup d)"

definition valid_job_decl :: "job_decl \<Rightarrow> bool" where
  "valid_job_decl j \<longleftrightarrow> LABEL_REGEX (jd_name j) \<and> SERVICE_NUMERIC_FIELD_MIN \<le> jd_cpu j
     \<and> SERVICE_NUMERIC_FIELD_MIN \<le> jd_memory j \<and> list_all SECRET_KEY_REGEX (jd_secrets j)"

definition valid_service_decl :: "service_decl \<Rightarrow> bool" where
  "valid_service_decl s \<longleftrightarrow> LABEL_REGEX (sd_name s) \<and> SERVICE_NUMERIC_FIELD_MIN \<le> sd_replicas s
     \<and> SERVICE_NUMERIC_FIELD_MIN \<le> sd_cpu s \<and> SERVICE_NUMERIC_FIELD_MIN \<le> sd_memory s
     \<and> list_all SECRET_KEY_REGEX (sd_secrets s) \<and> opt_all HOSTNAME_REGEX (sd_domain s)
     \<and> opt_all (\<lambda>p. p \<noteq> []) (sd_domainPattern s) \<and> opt_all (\<lambda>p. 1 \<le> p \<and> p \<le> 65535) (sd_port s)
     \<and> opt_all valid_health_check (sd_healthCheck s) \<and> valid_rollout (sd_rollout s)
     \<and> list_all valid_volume_decl (sd_volumes s) \<and> opt_all valid_service_database (sd_database s)
     \<and> opt_all valid_backup_decl (sd_backup s)"

definition valid_config_fields :: "launch_pad_config \<Rightarrow> bool" where
  "valid_config_fields c \<longleftrightarrow> LABEL_REGEX (lc_project c) \<and> opt_all LABEL_REGEX (lc_component c)
     \<and> opt_all (\<lambda>p. p \<noteq> []) (lc_domainPattern c) \<and> lc_service c \<noteq> []
     \<and> list_all valid_service_decl (lc_service c)
     \<and> opt_all (list_all valid_database_decl) (lc_database c) \<and> opt_all (list_all valid_job_decl) (lc_job c)"

section \<open>Issues across fields\<close>

datatype config_issue =
    DatabaseNotPlainWorker
  | DatabaseNeedsVolume
  | BackupWithoutDatabase
  | DomainPortMismatch
  | PatternOnWorker
  | BadDomainPattern domain_pattern_error
  | BadCron cron_error
  | CronNeverFires
  | CronOnWeb
  | CronHealthCheck
  | CronReplicas
  | WebNeedsHealthCheck
  | DuplicateVolumeName nat string
  | DuplicateVolumePath nat string
  | ProjectHasSeparator
  | ComponentHasSeparator
  | DuplicateServiceName nat string
  | DatabaseNameTaken nat string
  | JobNameTaken nat string

definition issue_if :: "bool \<Rightarrow> config_issue \<Rightarrow> config_issue list" where
  "issue_if b i = (if b then [i] else [])"

definition pattern_issues :: "string \<Rightarrow> config_issue list" where
  "pattern_issues p = (case domainPatternError p of None \<Rightarrow> [] | Some e \<Rightarrow> [BadDomainPattern e])"

text \<open>A schedule must parse and must fire within the scan's horizon from now.\<close>

definition schedule_issues :: "int \<Rightarrow> string \<Rightarrow> config_issue list" where
  "schedule_issues now e =
     (case parseCronExpression e of
        Inl err \<Rightarrow> [BadCron err]
      | Inr s \<Rightarrow> issue_if (nextCronFire s now = None) CronNeverFires)"

fun volume_issues :: "nat \<Rightarrow> string list \<Rightarrow> string list \<Rightarrow> volume_decl list \<Rightarrow> config_issue list" where
  "volume_issues i names paths [] = []"
| "volume_issues i names paths (v # vs) =
     issue_if (vd_name v \<in> set names) (DuplicateVolumeName i (vd_name v))
     @ issue_if (vd_path v \<in> set paths) (DuplicateVolumePath i (vd_path v))
     @ volume_issues (i + 1) (vd_name v # names) (vd_path v # paths) vs"

definition database_decl_issues :: "int \<Rightarrow> database_decl \<Rightarrow> config_issue list" where
  "database_decl_issues now d =
     (case dd_backup d of None \<Rightarrow> [] | Some b \<Rightarrow> schedule_issues now (bd_schedule b))"

definition service_decl_issues :: "int \<Rightarrow> service_decl \<Rightarrow> config_issue list" where
  "service_decl_issues now s =
     (let isWeb = serviceHasIngress s
      in (if sd_database s \<noteq> None
          then issue_if (isWeb \<or> sd_cron s \<noteq> None) DatabaseNotPlainWorker
               @ issue_if (sd_volumes s = []) DatabaseNeedsVolume
          else [])
         @ issue_if (sd_backup s \<noteq> None \<and> sd_database s = None) BackupWithoutDatabase
         @ issue_if ((sd_domain s = None) \<noteq> (sd_port s = None)) DomainPortMismatch
         @ (case sd_domainPattern s of None \<Rightarrow> []
            | Some p \<Rightarrow> if \<not> isWeb then [PatternOnWorker] else pattern_issues p)
         @ (case sd_cron s of None \<Rightarrow> []
            | Some e \<Rightarrow> schedule_issues now e
                @ issue_if isWeb CronOnWeb
                @ issue_if (sd_healthCheck s \<noteq> None) CronHealthCheck
                @ issue_if (1 < sd_replicas s) CronReplicas)
         @ issue_if (isWeb \<and> sd_healthCheck s = None) WebNeedsHealthCheck
         @ volume_issues 0 [] [] (sd_volumes s))"

fun name_issues :: "(nat \<Rightarrow> string \<Rightarrow> config_issue) \<Rightarrow> nat \<Rightarrow> string list \<Rightarrow> string list \<Rightarrow> config_issue list \<times> string list" where
  "name_issues mk i seen [] = ([], seen)"
| "name_issues mk i seen (n # ns) =
     (let (is, seen') = name_issues mk (i + 1) (n # seen) ns
      in (issue_if (n \<in> set seen) (mk i n) @ is, seen'))"

definition list_or_empty :: "'a list option \<Rightarrow> 'a list" where
  "list_or_empty x = (case x of None \<Rightarrow> [] | Some xs \<Rightarrow> xs)"

definition config_root_issues :: "launch_pad_config \<Rightarrow> config_issue list" where
  "config_root_issues c =
     (let (si, seen1) = name_issues DuplicateServiceName 0 [] (map sd_name (lc_service c));
          (di, seen2) = name_issues DatabaseNameTaken 0 seen1 (map dd_name (list_or_empty (lc_database c)));
          (ji, seen3) = name_issues JobNameTaken 0 seen2 (map jd_name (list_or_empty (lc_job c)))
      in (case lc_domainPattern c of None \<Rightarrow> [] | Some p \<Rightarrow> pattern_issues p)
         @ issue_if (str_includes (lc_project c) COMPONENT_SEPARATOR) ProjectHasSeparator
         @ (case lc_component c of None \<Rightarrow> []
            | Some k \<Rightarrow> issue_if (str_includes k COMPONENT_SEPARATOR) ComponentHasSeparator)
         @ si @ di @ ji)"

definition config_issues :: "int \<Rightarrow> launch_pad_config \<Rightarrow> config_issue list" where
  "config_issues now c =
     concat (map (service_decl_issues now) (lc_service c))
     @ concat (map (database_decl_issues now) (list_or_empty (lc_database c)))
     @ config_root_issues c"

text \<open>What \<open>parseLaunchPadConfig\<close> accepts, of a document decoded to a configuration.\<close>

definition accepted_config :: "int \<Rightarrow> launch_pad_config \<Rightarrow> bool" where
  "accepted_config now c \<longleftrightarrow> valid_config_fields c \<and> config_issues now c = []"

section \<open>Databases become services\<close>

definition databaseImage :: "string \<Rightarrow> string" where
  "databaseImage version = POSTGRES_IMAGE_REPO @ '':'' @ version"

text \<open>The declaration a database becomes, with the defaults of the service schema filled in.\<close>

definition database_service :: "database_decl \<Rightarrow> service_decl" where
  "database_service d =
     \<lparr>sd_name = dd_name d, sd_cron = None, sd_dockerfile = ''./Dockerfile'', sd_context = ''.'',
      sd_replicas = 1, sd_cpu = dd_cpu d, sd_memory = dd_memory d, sd_env = [],
      sd_secrets = [POSTGRES_PASSWORD_SECRET], sd_domain = None, sd_domainPattern = None, sd_port = None,
      sd_healthCheck = None, sd_rollout = DEFAULT_ROLLOUT,
      sd_volumes = [\<lparr>vd_name = POSTGRES_VOLUME_NAME, vd_path = POSTGRES_DATA_PATH\<rparr>],
      sd_database = Some \<lparr>db_engine = dd_engine d, db_version = dd_version d, db_databases = dd_databases d\<rparr>,
      sd_backup = dd_backup d\<rparr>"

definition expandDatabaseServices :: "launch_pad_config \<Rightarrow> launch_pad_config" where
  "expandDatabaseServices c =
     (if list_or_empty (lc_database c) = [] then c
      else c\<lparr>lc_service := lc_service c @ map database_service (list_or_empty (lc_database c)),
             lc_database := Some []\<rparr>)"

definition databaseServiceNames :: "launch_pad_config \<Rightarrow> string list" where
  "databaseServiceNames c = map dd_name (list_or_empty (lc_database c))"

section \<open>What an accepted configuration guarantees\<close>

lemma issue_if_Nil [simp]: "issue_if b i = [] \<longleftrightarrow> \<not> b"
  by (simp add: issue_if_def)

lemma name_issues_seen: "snd (name_issues mk i seen ns) = rev ns @ seen"
  by (induction ns arbitrary: i seen) (auto simp: Let_def case_prod_beta)

lemma name_issues_Nil:
  "fst (name_issues mk i seen ns) = [] \<longleftrightarrow> distinct ns \<and> set ns \<inter> set seen = {}"
  by (induction ns arbitrary: i seen) (auto simp: Let_def case_prod_beta)

lemma config_root_issues_Nil:
  "config_root_issues c = [] \<longleftrightarrow>
     opt_all (\<lambda>p. pattern_issues p = []) (lc_domainPattern c)
     \<and> \<not> str_includes (lc_project c) COMPONENT_SEPARATOR
     \<and> opt_all (\<lambda>k. \<not> str_includes k COMPONENT_SEPARATOR) (lc_component c)
     \<and> distinct (map sd_name (lc_service c) @ map dd_name (list_or_empty (lc_database c))
                 @ map jd_name (list_or_empty (lc_job c)))"
  unfolding config_root_issues_def Let_def case_prod_beta append_is_Nil_conv name_issues_Nil name_issues_seen
  by (auto simp: opt_all_def split: option.splits)

lemma accepted_owner_parts:
  "accepted_config now c \<Longrightarrow> owner_part (lc_project c) \<and> opt_all owner_part (lc_component c)"
  by (auto simp: accepted_config_def config_issues_def config_root_issues_Nil valid_config_fields_def
      owner_part_def opt_all_def split: option.splits)

lemma database_service_issues: "service_decl_issues now (database_service d) = []"
  by (simp add: service_decl_issues_def database_service_def serviceHasIngress_def)

lemma database_service_valid: "valid_database_decl d \<Longrightarrow> valid_service_decl (database_service d)"
proof -
  have c: "SECRET_KEY_REGEX POSTGRES_PASSWORD_SECRET" "LABEL_REGEX POSTGRES_VOLUME_NAME"
    "volumePathError POSTGRES_DATA_PATH = None" "valid_rollout DEFAULT_ROLLOUT" by code_simp+
  assume "valid_database_decl d"
  with c show ?thesis
    by (simp add: valid_database_decl_def valid_service_decl_def database_service_def opt_all_def
        valid_volume_decl_def valid_service_database_def SERVICE_NUMERIC_FIELD_MIN_def)
qed

text \<open>
  Desugaring keeps an accepted configuration acceptable: the expanded configuration has only
  services (the databases after the declared ones, each with its sticky volume), their names and the
  jobs' are distinct, it passes the same validation, and expanding it again changes nothing.
\<close>

theorem expandDatabaseServices_accepted:
  assumes "accepted_config now c"
  shows "accepted_config now (expandDatabaseServices c)
    \<and> list_or_empty (lc_database (expandDatabaseServices c)) = []
    \<and> expandDatabaseServices (expandDatabaseServices c) = expandDatabaseServices c
    \<and> map sd_name (lc_service (expandDatabaseServices c)) = map sd_name (lc_service c) @ databaseServiceNames c
    \<and> list_all (\<lambda>s. \<not> isDatabaseService s \<or> sd_volumes s \<noteq> [])
        (lc_service (expandDatabaseServices c))"
proof -
  let ?dbs = "list_or_empty (lc_database c)"
  from assms have v: "valid_config_fields c" and i: "config_issues now c = []"
    by (simp_all add: accepted_config_def)
  have names: "map sd_name (map database_service ?dbs) = map dd_name ?dbs"
    by (simp add: database_service_def)
  have vdb: "list_all valid_database_decl ?dbs"
    using v by (auto simp: valid_config_fields_def list_or_empty_def opt_all_def split: option.splits)
  have "accepted_config now (expandDatabaseServices c)"
  proof (cases "?dbs = []")
    case True
    with assms show ?thesis by (simp add: expandDatabaseServices_def)
  next
    case False
    have "valid_config_fields (expandDatabaseServices c)"
      using v vdb False database_service_valid
      by (auto simp: valid_config_fields_def expandDatabaseServices_def opt_all_def list_all_iff)
    moreover have e: "lc_service (expandDatabaseServices c) = lc_service c @ map database_service ?dbs"
      "list_or_empty (lc_database (expandDatabaseServices c)) = []"
      "lc_project (expandDatabaseServices c) = lc_project c" "lc_component (expandDatabaseServices c) = lc_component c"
      "lc_domainPattern (expandDatabaseServices c) = lc_domainPattern c"
      "lc_job (expandDatabaseServices c) = lc_job c"
      using False by (simp_all add: expandDatabaseServices_def list_or_empty_def)
    have "config_issues now (expandDatabaseServices c) = []"
      using i unfolding config_issues_def config_root_issues_Nil append_is_Nil_conv e map_append names
      by (auto simp: database_service_issues)
    with calculation show ?thesis by (simp add: accepted_config_def)
  qed
  moreover have "list_all (\<lambda>s. \<not> isDatabaseService s \<or> sd_volumes s \<noteq> []) (lc_service c)"
    using i unfolding config_issues_def
    by (auto simp: list_all_iff service_decl_issues_def Let_def isDatabaseService_def)
  ultimately show ?thesis
    using names by (auto simp: expandDatabaseServices_def databaseServiceNames_def list_or_empty_def
        list_all_iff database_service_def)
qed

definition example_database :: database_decl where
  "example_database =
     \<lparr>dd_name = ''primary'', dd_engine = ''postgres'', dd_version = ''16'', dd_storage = None, dd_cpu = 1024,
      dd_memory = 1024, dd_databases = [''app''], dd_backup = Some \<lparr>bd_schedule = ''0 3 * * *'', bd_retentionDays = 7\<rparr>\<rparr>"

definition example_decl :: "string \<Rightarrow> service_decl" where
  "example_decl n =
     \<lparr>sd_name = n, sd_cron = None, sd_dockerfile = ''./Dockerfile'', sd_context = ''.'', sd_replicas = 2,
      sd_cpu = 256, sd_memory = 256, sd_env = [], sd_secrets = [], sd_domain = Some ''api.example.com'',
      sd_domainPattern = None, sd_port = Some 8080,
      sd_healthCheck = Some \<lparr>hc_path = ''/health'', hc_port = None, hc_intervalMs = 2000, hc_timeoutMs = 2000,
                             hc_healthyThreshold = 2\<rparr>,
      sd_rollout = DEFAULT_ROLLOUT, sd_volumes = [], sd_database = None, sd_backup = None\<rparr>"

definition example_config :: launch_pad_config where
  "example_config =
     \<lparr>lc_project = ''shop'', lc_component = None, lc_domainPattern = None, lc_service = [example_decl ''api''],
      lc_database = Some [example_database], lc_job = None\<rparr>"

lemma example_config_accepted: "accepted_config 1767225600000 example_config"
  by code_simp

lemma expandDatabaseServices_accepted_witness:
  "map sd_name (lc_service (expandDatabaseServices example_config)) = [''api'', ''primary'']"
proof -
  from expandDatabaseServices_accepted [OF example_config_accepted] show ?thesis
    by (simp add: databaseServiceNames_def example_config_def example_decl_def example_database_def
        list_or_empty_def)
qed

lemma accepted_schedule_fires:
  "schedule_issues now e = [] \<Longrightarrow>
   \<exists>s t. parseCronExpression e = Inr s \<and> nextCronFire s now = Some t \<and> wf_schedule s \<and> now < t"
  using parseCronExpression_ok nextCronFire_Some_D
  by (fastforce simp: schedule_issues_def split: sum.splits)

text \<open>
  An accepted scheduled service is a worker that runs one container and does fire: its expression
  parses to a well-formed schedule with a fire time within the horizon, and no part of a web service or
  of a health check is declared.
\<close>

theorem accepted_cron_service:
  assumes "accepted_config now c" and "s \<in> set (lc_service c)" and "sd_cron s = Some e"
  shows "(\<exists>sch t. parseCronExpression e = Inr sch \<and> wf_schedule sch \<and> nextCronFire sch now = Some t)
    \<and> sd_replicas s = 1 \<and> sd_domain s = None \<and> sd_port s = None \<and> sd_healthCheck s = None
    \<and> \<not> isDatabaseService s"
proof -
  from assms have i: "service_decl_issues now s = []" and v: "valid_service_decl s"
    by (auto simp: accepted_config_def config_issues_def valid_config_fields_def list_all_iff)
  have "schedule_issues now e = []" "\<not> serviceHasIngress s" "sd_healthCheck s = None" "\<not> 1 < sd_replicas s"
    "(sd_domain s = None) = (sd_port s = None)" "sd_database s = None"
    using i assms(3) by (auto simp: service_decl_issues_def Let_def split: if_splits)
  moreover have "1 \<le> sd_replicas s" using v by (simp add: valid_service_decl_def SERVICE_NUMERIC_FIELD_MIN_def)
  ultimately show ?thesis
    using accepted_schedule_fires [of now e]
    by (fastforce simp: serviceHasIngress_def isDatabaseService_def)
qed

end
