(* ===== verification/Merge.thy ===== *)
theory Merge
  imports Service_Config
begin

text \<open>
  Ownership-aware merges of a node's services (\<open>packages/shared/src/merge.ts\<close>) and the removal of a
  footprint (\<open>servicesAfterRemoval\<close>, \<open>planUndeploy\<close> of \<open>undeploy.ts\<close>). A node hosts services of many
  projects; the locale \<open>footprint_update\<close> states what every such update owes the other projects, and is
  interpreted on the full merge, the partial merge and the removal.
\<close>

section \<open>Merging\<close>

datatype merge_error = NotOwned string string | DuplicateService string

fun assertOwned :: "string \<Rightarrow> service_config list \<Rightarrow> string \<Rightarrow> merge_error + unit" where
  "assertOwned project [] fname = Inr ()"
| "assertOwned project (s # ss) fname =
     (if sc_project s \<noteq> project then Inl (NotOwned fname (sc_key s)) else assertOwned project ss fname)"

fun no_dup_keys :: "string list \<Rightarrow> service_config list \<Rightarrow> merge_error + unit" where
  "no_dup_keys seen [] = Inr ()"
| "no_dup_keys seen (s # ss) =
     (if sc_key s \<in> set seen then Inl (DuplicateService (sc_key s)) else no_dup_keys (sc_key s # seen) ss)"

definition assertNoDuplicates :: "service_config list \<Rightarrow> merge_error + unit" where
  "assertNoDuplicates merged = no_dup_keys [] merged"

definition mergeProjectServices ::
  "service_config list \<Rightarrow> string \<Rightarrow> service_config list \<Rightarrow> merge_error + service_config list" where
  "mergeProjectServices existing project incoming =
     res_bind (assertOwned project incoming ''mergeProjectServices'') (\<lambda>_.
     (let merged = filter (\<lambda>s. sc_project s \<noteq> project) existing @ incoming
      in res_bind (assertNoDuplicates merged) (\<lambda>_. Inr merged)))"

text \<open>
  The partial merge: the map keeps the last of several incoming services of one name; entries of the
  node are replaced in place; what was not applied is appended.
\<close>

definition by_service :: "service_config list \<Rightarrow> (string, service_config) assoc" where
  "by_service incoming = assoc_of (map (\<lambda>s. (sc_service s, s)) incoming)"

definition replacement :: "string \<Rightarrow> service_config list \<Rightarrow> service_config \<Rightarrow> service_config option" where
  "replacement project incoming s =
     (if sc_project s = project then map_of (by_service incoming) (sc_service s) else None)"

definition mergeProjectServicesPartial ::
  "service_config list \<Rightarrow> string \<Rightarrow> service_config list \<Rightarrow> merge_error + service_config list" where
  "mergeProjectServicesPartial existing project incoming =
     res_bind (assertOwned project incoming ''mergeProjectServicesPartial'') (\<lambda>_.
     (let replaced = map (\<lambda>s. case replacement project incoming s of Some r \<Rightarrow> r | None \<Rightarrow> s) existing;
          applied = map sc_service (List.map_filter (replacement project incoming) existing);
          merged = replaced @ filter (\<lambda>s. sc_service s \<notin> set applied) incoming
      in res_bind (assertNoDuplicates merged) (\<lambda>_. Inr merged)))"

section \<open>Removal\<close>

text \<open>\<open>None\<close> removes the whole footprint, a list only the named services.\<close>

definition should_remove :: "string list option \<Rightarrow> string \<Rightarrow> bool" where
  "should_remove removeSet service \<longleftrightarrow> (case removeSet of None \<Rightarrow> True | Some r \<Rightarrow> service \<in> set r)"

definition servicesAfterRemoval ::
  "service_config list \<Rightarrow> string \<Rightarrow> string list option \<Rightarrow> service_config list" where
  "servicesAfterRemoval existing ownerProject removeSet =
     filter (\<lambda>s. \<not> (sc_project s = ownerProject \<and> should_remove removeSet (sc_service s))) existing"

record node_undeploy_plan =
  nup_nodeId :: string
  nup_removed :: "string list"
  nup_kept :: "service_config list"

record undeploy_plan =
  up_nodes :: "node_undeploy_plan list"
  up_removedServices :: "string list"
  up_removedDomains :: "string list"
  up_affectedEdges :: "string list"

type_synonym node_services = "string \<times> service_config list"

definition owned_by :: "string \<Rightarrow> service_config list \<Rightarrow> service_config list" where
  "owned_by owner ss = filter (\<lambda>s. sc_project s = owner) ss"

text \<open>The domain a service answers: a truthy string.\<close>

definition sc_domain :: "service_config \<Rightarrow> string option" where
  "sc_domain s = (case sc_ingress s of None \<Rightarrow> None
     | Some i \<Rightarrow> if ig_domain i = [] then None else Some (ig_domain i))"

definition add_domain_edges ::
  "service_config \<Rightarrow> (string, string list) assoc \<Rightarrow> (string, string list) assoc" where
  "add_domain_edges s m =
     (case sc_domain s of None \<Rightarrow> m
      | Some d \<Rightarrow>
         (let edges = assoc_get_or [] m d;
              edge = (case sc_ingress s of None \<Rightarrow> [] | Some i \<Rightarrow> ig_edge i)
          in assoc_set d (if edge \<noteq> [] \<and> edge \<notin> set edges then edges @ [edge] else edges) m))"

definition planUndeploy ::
  "node_services list \<Rightarrow> string \<Rightarrow> string list option \<Rightarrow> undeploy_plan" where
  "planUndeploy states owner servicesToRemove =
     (let rm = (\<lambda>s. sc_project s = owner \<and> should_remove servicesToRemove (sc_service s));
          removed = (\<lambda>ss. filter rm ss);
          surviving = List.map_filter sc_domain (filter (\<lambda>s. \<not> rm s) (concat (map snd states)));
          hit = filter (\<lambda>(n, ss). removed ss \<noteq> []) states;
          gone = concat (map (\<lambda>(n, ss). removed ss) hit);
          candidates = fold add_domain_edges gone [];
          dead = filter (\<lambda>(d, edges). d \<notin> set surviving) candidates
      in \<lparr>up_nodes = sort_by (\<lambda>a b. locale_le (nup_nodeId a) (nup_nodeId b))
            (map (\<lambda>(n, ss). \<lparr>nup_nodeId = n, nup_removed = sort (map sc_service (removed ss)),
                nup_kept = filter (\<lambda>s. \<not> rm s) (owned_by owner ss)\<rparr>) hit),
          up_removedServices = sort (js_dedup (map sc_service gone)),
          up_removedDomains = sort (map fst dead),
          up_affectedEdges = sort (js_dedup (concat (map snd dead)))\<rparr>)"

section \<open>What every update of a footprint owes the node\<close>

lemma assertOwned_ok: "assertOwned p ss f = Inr u \<longleftrightarrow> (\<forall>s \<in> set ss. sc_project s = p)"
  by (induction ss) auto

lemma no_dup_keys_ok:
  "no_dup_keys seen ss = Inr u \<longleftrightarrow> distinct (map sc_key ss) \<and> set (map sc_key ss) \<inter> set seen = {}"
  by (induction ss arbitrary: seen) auto

lemma assertNoDuplicates_ok: "assertNoDuplicates ss = Inr u \<longleftrightarrow> distinct (map sc_key ss)"
  by (simp add: assertNoDuplicates_def no_dup_keys_ok)

definition others :: "string \<Rightarrow> service_config list \<Rightarrow> service_config list" where
  "others project ss = filter (\<lambda>s. sc_project s \<noteq> project) ss"

text \<open>
  An update of one project's footprint on a node: it may refuse, and when it does not, the services of
  the other projects are the same, in the same order, and no key is new to the node without being the
  project's own.
\<close>

locale footprint_update =
  fixes project :: string
    and update :: "service_config list \<Rightarrow> merge_error + service_config list"
  assumes others_kept: "update existing = Inr merged \<Longrightarrow> others project merged = others project existing"
    and keys_distinct: "update existing = Inr merged \<Longrightarrow> distinct (map sc_key existing)
      \<Longrightarrow> distinct (map sc_key merged)"
begin

text \<open>Repeated updates of the same footprint never touch another project's services.\<close>

fun updates :: "nat \<Rightarrow> service_config list \<Rightarrow> merge_error + service_config list" where
  "updates 0 ss = Inr ss"
| "updates (Suc n) ss = res_bind (update ss) (updates n)"

lemma updates_others: "updates n ss = Inr ss' \<Longrightarrow> others project ss' = others project ss"
  by (induction n arbitrary: ss) (auto simp: res_bind_eq_Inr dest: others_kept)

lemma foreign_service_kept:
  "update ss = Inr ss' \<Longrightarrow> sc_project s \<noteq> project \<Longrightarrow> s \<in> set ss' \<longleftrightarrow> s \<in> set ss"
  using others_kept [of ss ss'] by (auto simp: others_def dest!: arg_cong [of _ _ set])

lemma updates_distinct:
  "updates n ss = Inr ss' \<Longrightarrow> distinct (map sc_key ss) \<Longrightarrow> distinct (map sc_key ss')"
  by (induction n arbitrary: ss) (auto simp: res_bind_eq_Inr dest: keys_distinct)

end

lemma others_append [simp]: "others p (xs @ ys) = others p xs @ others p ys"
  by (simp add: others_def)

lemma others_own: "(\<forall>s \<in> set ss. sc_project s = p) \<Longrightarrow> others p ss = []"
  by (induction ss) (auto simp: others_def)

lemma full_merge_cases:
  "mergeProjectServices ex p inc = Inr m \<longleftrightarrow>
     (\<forall>s \<in> set inc. sc_project s = p) \<and> m = others p ex @ inc \<and> distinct (map sc_key m)"
  by (simp only: mergeProjectServices_def res_bind_eq_Inr assertOwned_ok assertNoDuplicates_ok Let_def
      others_def sum.inject) blast

interpretation full_merge: footprint_update p "\<lambda>ex. mergeProjectServices ex p inc" for p inc
proof
  fix ex m
  assume "mergeProjectServices ex p inc = Inr m"
  then have "m = others p ex @ inc" "others p inc = []" by (simp_all add: full_merge_cases others_own)
  then show "others p m = others p ex" by (simp add: others_def)
qed (unfold full_merge_cases, blast)

definition partial_result :: "service_config list \<Rightarrow> string \<Rightarrow> service_config list \<Rightarrow> service_config list" where
  "partial_result ex p inc =
     map (\<lambda>s. case replacement p inc s of Some r \<Rightarrow> r | None \<Rightarrow> s) ex
     @ filter (\<lambda>s. sc_service s \<notin> set (map sc_service (List.map_filter (replacement p inc) ex))) inc"

lemma partial_merge_cases:
  "mergeProjectServicesPartial ex p inc = Inr m \<longleftrightarrow>
     (\<forall>s \<in> set inc. sc_project s = p) \<and> m = partial_result ex p inc \<and> distinct (map sc_key m)"
  by (simp only: mergeProjectServicesPartial_def res_bind_eq_Inr assertOwned_ok assertNoDuplicates_ok
      Let_def partial_result_def sum.inject) blast

lemma replacement_incoming:
  "replacement p inc s = Some r \<Longrightarrow> r \<in> set inc \<and> sc_service r = sc_service s \<and> sc_project s = p"
proof -
  assume "replacement p inc s = Some r"
  then have "sc_project s = p" "map_of (rev (map (\<lambda>s. (sc_service s, s)) inc)) (sc_service s) = Some r"
    by (auto simp: replacement_def by_service_def map_of_assoc_of split: if_splits)
  from this(1) map_of_SomeD [OF this(2)] show ?thesis by auto
qed

lemma others_replaced:
  assumes "\<forall>s \<in> set inc. sc_project s = p"
  shows "others p (map (\<lambda>s. case replacement p inc s of Some r \<Rightarrow> r | None \<Rightarrow> s) ex) = others p ex"
proof (induction ex)
  case (Cons s ex)
  have "r \<in> set inc \<and> sc_project s = p" if "replacement p inc s = Some r" for r
    using replacement_incoming [OF that] by blast
  with assms Cons show ?case by (cases "replacement p inc s") (auto simp: others_def)
qed (simp add: others_def)

interpretation partial_merge: footprint_update p "\<lambda>ex. mergeProjectServicesPartial ex p inc" for p inc
proof
  fix ex m
  assume "mergeProjectServicesPartial ex p inc = Inr m"
  then have own: "\<forall>s \<in> set inc. sc_project s = p" and m: "m = partial_result ex p inc"
    by (auto simp: partial_merge_cases)
  have "others p (map (\<lambda>s. case replacement p inc s of Some r \<Rightarrow> r | None \<Rightarrow> s) ex) = others p ex"
    by (rule others_replaced [OF own])
  moreover have "others p (filter P inc) = []" for P using own by (intro others_own) auto
  ultimately show "others p m = others p ex" by (simp add: m partial_result_def)
qed (unfold partial_merge_cases, blast)

interpretation removal: footprint_update p "\<lambda>ex. Inr (servicesAfterRemoval ex p rs)" for p rs
proof
  fix ex m
  assume "(Inr (servicesAfterRemoval ex p rs) :: merge_error + service_config list) = Inr m"
  then have m: "m = servicesAfterRemoval ex p rs" by simp
  show "others p m = others p ex"
    by (simp add: m servicesAfterRemoval_def others_def) (rule filter_cong; auto)
  show "distinct (map sc_key ex) \<Longrightarrow> distinct (map sc_key m)"
    by (simp add: m servicesAfterRemoval_def distinct_map_filter_key)
qed

section \<open>The full merge replaces a footprint\<close>

text \<open>
  A full merge that succeeds leaves the other projects' services as they are, makes the project's
  footprint on the node exactly the incoming services, keeps keys unique, and running it again on its
  own result changes nothing.
\<close>

theorem full_merge_replaces_footprint:
  assumes "mergeProjectServices existing project incoming = Inr merged"
  shows "others project merged = others project existing \<and> owned_by project merged = incoming
    \<and> distinct (map sc_key merged) \<and> mergeProjectServices merged project incoming = Inr merged"
proof -
  from assms have m: "merged = others project existing @ incoming" "distinct (map sc_key merged)"
    and own: "\<forall>s \<in> set incoming. sc_project s = project"
    by (simp_all only: full_merge_cases) blast+
  have o: "others project merged = others project existing"
    by (rule full_merge.others_kept [OF assms])
  have i: "owned_by project incoming = incoming" using own by (simp add: owned_by_def)
  moreover have "owned_by project (others project existing) = []"
    by (simp add: owned_by_def others_def filter_empty_conv)
  ultimately have "owned_by project merged = incoming" by (simp add: m(1) owned_by_def)
  moreover have "mergeProjectServices merged project incoming = Inr merged"
    unfolding full_merge_cases using own o m by simp
  ultimately show ?thesis using o m(2) by blast
qed

definition example_node :: "service_config list" where
  "example_node = [plain_service ''shop'' ''api'' 256 256 1, plain_service ''blog'' ''web'' 128 128 2,
     plain_service ''shop'' ''worker'' 128 128 1]"

lemma full_merge_replaces_footprint_witness:
  "owned_by ''shop'' [plain_service ''blog'' ''web'' 128 128 2, plain_service ''shop'' ''api'' 512 256 1]
   = [plain_service ''shop'' ''api'' 512 256 1]"
proof -
  have "mergeProjectServices example_node ''shop'' [plain_service ''shop'' ''api'' 512 256 1]
      = Inr [plain_service ''blog'' ''web'' 128 128 2, plain_service ''shop'' ''api'' 512 256 1]"
    by code_simp
  from full_merge_replaces_footprint [OF this] show ?thesis by blast
qed

section \<open>The partial merge is an upsert\<close>

lemma by_service_Some:
  "map_of (by_service inc) n = Some r \<Longrightarrow> r \<in> set inc \<and> sc_service r = n"
  by (auto simp: by_service_def map_of_assoc_of dest!: map_of_SomeD)

lemma by_service_None: "map_of (by_service inc) n = None \<longleftrightarrow> n \<notin> sc_service ` set inc"
proof -
  have "map fst (rev (map (\<lambda>s. (sc_service s, s)) inc)) = rev (map sc_service inc)"
    by (simp add: rev_map [symmetric] o_def)
  then show ?thesis
    unfolding by_service_def map_of_assoc_of map_of_eq_None_iff
    by (metis image_set set_map set_rev)
qed

lemma set_map_filter_Some: "set (List.map_filter f xs) = {y. \<exists>x \<in> set xs. f x = Some y}"
  by (force simp: List.map_filter_def)

lemma partial_merge_set:
  assumes "mergeProjectServicesPartial existing project incoming = Inr merged"
  shows "set merged =
      {s \<in> set existing. sc_project s \<noteq> project \<or> sc_service s \<notin> sc_service ` set incoming}
      \<union> {s. \<exists>n. map_of (by_service incoming) n = Some s}"
  (is "_ = ?kept \<union> ?new")
proof -
  from assms have m: "merged = partial_result existing project incoming" "distinct (map sc_key merged)"
    and own: "\<forall>s \<in> set incoming. sc_project s = project"
    by (simp_all only: partial_merge_cases) blast+
  let ?rep = "\<lambda>s. case replacement project incoming s of Some r \<Rightarrow> r | None \<Rightarrow> s"
  let ?app = "{s. sc_service s \<notin> set (map sc_service (List.map_filter (replacement project incoming) existing))}"
  have sm: "set merged = ?rep ` set existing \<union> (set incoming \<inter> ?app)"
    by (auto simp: m(1) partial_result_def)
  have kept: "?kept \<subseteq> ?rep ` set existing"
  proof
    fix s assume s: "s \<in> ?kept"
    then have "replacement project incoming s = None"
      by (auto simp: replacement_def by_service_None)
    with s show "s \<in> ?rep ` set existing" by (auto intro: rev_image_eqI)
  qed
  have new: "?new \<subseteq> set merged"
  proof
    fix s assume "s \<in> ?new"
    then obtain n where n: "map_of (by_service incoming) n = Some s" by blast
    from by_service_Some [OF this] have s: "s \<in> set incoming" "sc_service s = n" by auto
    show "s \<in> set merged"
    proof (cases "s \<in> ?app")
      case True
      with s sm show ?thesis by blast
    next
      case False
      then obtain x r where x: "x \<in> set existing" "replacement project incoming x = Some r" "sc_service r = n"
        using s(2) by (auto simp: set_map_filter_Some)
      from replacement_incoming [OF x(2)] x(3) have "r = s"
        using x(2) n by (auto simp: replacement_def split: if_splits)
      with x have "s = ?rep x" by simp
      then have "s \<in> ?rep ` set existing" using x(1) by (rule image_eqI)
      then show ?thesis unfolding sm by (rule UnI1)
    qed
  qed
  have sub: "set merged \<subseteq> ?kept \<union> ?new"
  proof
    fix s assume "s \<in> set merged"
    then consider x where "x \<in> set existing" "s = ?rep x" | "s \<in> set incoming" "s \<in> ?app" using sm by blast
    then show "s \<in> ?kept \<union> ?new"
    proof cases
      case (1 x)
      then show ?thesis
        by (cases "replacement project incoming x")
          (auto simp: replacement_def by_service_None split: if_splits)
    next
      case 2
      then obtain r where r: "map_of (by_service incoming) (sc_service s) = Some r"
        using by_service_None [of incoming "sc_service s"] by (cases "map_of (by_service incoming) (sc_service s)") auto
      from by_service_Some [OF r] have r': "r \<in> set incoming" "sc_service r = sc_service s" by auto
      have rm: "r \<in> set merged" using new r by blast
      have rk: "sc_key r = sc_key s" using own 2(1) r' by simp
      have "inj_on sc_key (set merged)" using m(2) by (simp add: distinct_map)
      from inj_onD [OF this rk rm \<open>s \<in> set merged\<close>] have "r = s" .
      with r show ?thesis by blast
    qed
  qed
  from kept new sub sm show ?thesis by blast
qed

text \<open>
  A partial merge that succeeds is an upsert by service name: a node without duplicate keys keeps
  every service not named by the incoming ones, of this project and of the others, has every incoming
  service (the last one of a name), and has nothing else; the other projects keep their order and no key
  is there twice.
\<close>

theorem partial_merge_upserts:
  assumes "mergeProjectServicesPartial existing project incoming = Inr merged"
  shows "set merged =
      {s \<in> set existing. sc_project s \<noteq> project \<or> sc_service s \<notin> sc_service ` set incoming}
      \<union> {s. \<exists>n. map_of (by_service incoming) n = Some s}
    \<and> others project merged = others project existing \<and> distinct (map sc_key merged)"
  using partial_merge_set [OF assms] partial_merge.others_kept [OF assms] assms
  unfolding partial_merge_cases by blast

lemma partial_merge_upserts_witness:
  "set [plain_service ''shop'' ''api'' 512 256 1, plain_service ''blog'' ''web'' 128 128 2,
        plain_service ''shop'' ''worker'' 128 128 1]
   = {s \<in> set example_node. sc_project s \<noteq> ''shop'' \<or> sc_service s \<notin> sc_service ` set [plain_service ''shop'' ''api'' 512 256 1]}
     \<union> {s. \<exists>n. map_of (by_service [plain_service ''shop'' ''api'' 512 256 1]) n = Some s}"
proof (rule conjunct1 [OF partial_merge_upserts])
  show "mergeProjectServicesPartial example_node ''shop'' [plain_service ''shop'' ''api'' 512 256 1]
      = Inr [plain_service ''shop'' ''api'' 512 256 1, plain_service ''blog'' ''web'' 128 128 2,
             plain_service ''shop'' ''worker'' 128 128 1]"
    by code_simp
qed

text \<open>
  The documentation of the partial merge says it throws on a duplicate service; two incoming services
  of one name that the node already has do not: the last one replaces the entry.
\<close>

lemma partial_merge_swallows_duplicate:
  "mergeProjectServicesPartial example_node ''shop''
     [plain_service ''shop'' ''api'' 512 256 1, plain_service ''shop'' ''api'' 1024 256 1]
   = Inr [plain_service ''shop'' ''api'' 1024 256 1, plain_service ''blog'' ''web'' 128 128 2,
          plain_service ''shop'' ''worker'' 128 128 1]"
  by code_simp

section \<open>Removal and its plan\<close>

lemma removal_by_merge:
  assumes "distinct (map sc_key ex)"
  shows "mergeProjectServices ex p (owned_by p (servicesAfterRemoval ex p rs))
    = Inr (others p ex @ owned_by p (servicesAfterRemoval ex p rs))"
proof -
  let ?k = "owned_by p (servicesAfterRemoval ex p rs)"
  have "inj_on sc_key (set ex)" using assms by (simp add: distinct_map)
  moreover have "set ?k \<subseteq> set ex" "set (others p ex) \<subseteq> set ex" "set ?k \<inter> set (others p ex) = {}"
    by (auto simp: owned_by_def servicesAfterRemoval_def others_def)
  ultimately have "sc_key ` set (others p ex) \<inter> sc_key ` set ?k = {}"
    by (metis (no_types, lifting) Int_commute image_empty inj_on_image_Int)
  moreover have "distinct (map sc_key (others p ex))" "distinct (map sc_key ?k)"
    using assms by (simp_all add: others_def owned_by_def servicesAfterRemoval_def distinct_map_filter_key)
  moreover have "\<forall>s \<in> set ?k. sc_project s = p" by (simp add: owned_by_def)
  ultimately show ?thesis unfolding full_merge_cases by simp
qed

lemma keys_add_domain_edges:
  "set (map fst (add_domain_edges s m)) = set (map fst m) \<union> (case sc_domain s of None \<Rightarrow> {} | Some d \<Rightarrow> {d})"
  by (auto simp: add_domain_edges_def Let_def simp flip: set_map simp del: set_map simp: keys_assoc_set split: option.splits)

lemma keys_fold_domain_edges:
  "set (map fst (fold add_domain_edges ss m)) = set (map fst m) \<union> {d. \<exists>s \<in> set ss. sc_domain s = Some d}"
proof (induction ss arbitrary: m)
  case (Cons s ss)
  then show ?case
    using keys_add_domain_edges [of s m] by (auto simp del: set_map split: option.splits)
qed simp

text \<open>
  The undeploy plan is right about domains: a domain is listed for pruning exactly when some
  removed service answered it and no service that survives the removal, of any project on any node,
  still does.
\<close>

theorem planUndeploy_domains:
  "d \<in> set (up_removedDomains (planUndeploy states owner rs)) \<longleftrightarrow>
   (\<exists>n ss s. (n, ss) \<in> set states \<and> s \<in> set ss \<and> s \<notin> set (servicesAfterRemoval ss owner rs)
      \<and> sc_domain s = Some d)
   \<and> \<not> (\<exists>n ss s. (n, ss) \<in> set states \<and> s \<in> set (servicesAfterRemoval ss owner rs) \<and> sc_domain s = Some d)"
proof -
  let ?rm = "\<lambda>s. sc_project s = owner \<and> should_remove rs (sc_service s)"
  let ?gone = "concat (map (\<lambda>(n, ss). filter ?rm ss) (filter (\<lambda>(n, ss). filter ?rm ss \<noteq> []) states))"
  let ?surv = "List.map_filter sc_domain (filter (\<lambda>s. \<not> ?rm s) (concat (map snd states)))"
  have g: "s \<in> set ?gone \<longleftrightarrow> (\<exists>n ss. (n, ss) \<in> set states \<and> s \<in> set ss \<and> ?rm s)" for s
    by (auto simp: filter_empty_conv)
  have v: "d \<in> set ?surv \<longleftrightarrow> (\<exists>n ss s. (n, ss) \<in> set states \<and> s \<in> set ss \<and> \<not> ?rm s \<and> sc_domain s = Some d)"
    unfolding set_map_filter_Some by (simp add: Bex_def) (metis (no_types, opaque_lifting) prod.collapse snd_conv)
  have "d \<in> set (up_removedDomains (planUndeploy states owner rs)) \<longleftrightarrow>
      d \<in> set (map fst (fold add_domain_edges ?gone [])) \<and> d \<notin> set ?surv"
    by (force simp: planUndeploy_def Let_def)
  also have "\<dots> \<longleftrightarrow> (\<exists>s \<in> set ?gone. sc_domain s = Some d) \<and> d \<notin> set ?surv"
    using keys_fold_domain_edges [of ?gone "[]"] by (auto simp del: set_map)
  finally show ?thesis unfolding g v Bex_def by (auto simp: servicesAfterRemoval_def)
qed

end
