(* ===== verification/Capacity.thy ===== *)
theory Capacity
  imports Registry
begin

text \<open>
  The capacity model (\<open>packages/shared/src/capacity.ts\<close>): instance types, the admission check of a
  node with its rollout headroom, and the smallest instance type for a demand. CPU is counted in
  shares (1024 a vCPU), memory in MB; both are integers.
\<close>

section \<open>Instance types\<close>

definition CPU_SHARES_PER_VCPU :: int where "CPU_SHARES_PER_VCPU = 1024"

record raw_instance_capacity =
  ri_vcpu :: int
  ri_memoryMiB :: int
  ri_architecture :: architecture

record instance_capacity =
  ic_totalCpu :: int
  ic_totalMemory :: int
  ic_architecture :: architecture

definition INSTANCE_CAPACITY_TABLE :: "(string, raw_instance_capacity) assoc" where
  "INSTANCE_CAPACITY_TABLE =
     [
      (''t4g.nano'', \<lparr>ri_vcpu = 2, ri_memoryMiB = 512, ri_architecture = Arm64\<rparr>),
      (''t4g.micro'', \<lparr>ri_vcpu = 2, ri_memoryMiB = 1024, ri_architecture = Arm64\<rparr>),
      (''t4g.small'', \<lparr>ri_vcpu = 2, ri_memoryMiB = 2048, ri_architecture = Arm64\<rparr>),
      (''t4g.medium'', \<lparr>ri_vcpu = 2, ri_memoryMiB = 4096, ri_architecture = Arm64\<rparr>),
      (''t4g.large'', \<lparr>ri_vcpu = 2, ri_memoryMiB = 8192, ri_architecture = Arm64\<rparr>),
      (''t4g.xlarge'', \<lparr>ri_vcpu = 4, ri_memoryMiB = 16384, ri_architecture = Arm64\<rparr>),
      (''t3.nano'', \<lparr>ri_vcpu = 2, ri_memoryMiB = 512, ri_architecture = X86_64\<rparr>),
      (''t3.micro'', \<lparr>ri_vcpu = 2, ri_memoryMiB = 1024, ri_architecture = X86_64\<rparr>),
      (''t3.small'', \<lparr>ri_vcpu = 2, ri_memoryMiB = 2048, ri_architecture = X86_64\<rparr>),
      (''t3.medium'', \<lparr>ri_vcpu = 2, ri_memoryMiB = 4096, ri_architecture = X86_64\<rparr>),
      (''t3.large'', \<lparr>ri_vcpu = 2, ri_memoryMiB = 8192, ri_architecture = X86_64\<rparr>),
      (''t3.xlarge'', \<lparr>ri_vcpu = 4, ri_memoryMiB = 16384, ri_architecture = X86_64\<rparr>),
      (''t3a.micro'', \<lparr>ri_vcpu = 2, ri_memoryMiB = 1024, ri_architecture = X86_64\<rparr>),
      (''t3a.small'', \<lparr>ri_vcpu = 2, ri_memoryMiB = 2048, ri_architecture = X86_64\<rparr>),
      (''t3a.medium'', \<lparr>ri_vcpu = 2, ri_memoryMiB = 4096, ri_architecture = X86_64\<rparr>),
      (''t3a.large'', \<lparr>ri_vcpu = 2, ri_memoryMiB = 8192, ri_architecture = X86_64\<rparr>),
      (''t2.micro'', \<lparr>ri_vcpu = 1, ri_memoryMiB = 1024, ri_architecture = X86_64\<rparr>),
      (''t2.small'', \<lparr>ri_vcpu = 1, ri_memoryMiB = 2048, ri_architecture = X86_64\<rparr>),
      (''t2.medium'', \<lparr>ri_vcpu = 2, ri_memoryMiB = 4096, ri_architecture = X86_64\<rparr>),
      (''m5.large'', \<lparr>ri_vcpu = 2, ri_memoryMiB = 8192, ri_architecture = X86_64\<rparr>),
      (''m5.xlarge'', \<lparr>ri_vcpu = 4, ri_memoryMiB = 16384, ri_architecture = X86_64\<rparr>),
      (''m6i.large'', \<lparr>ri_vcpu = 2, ri_memoryMiB = 8192, ri_architecture = X86_64\<rparr>),
      (''m6i.xlarge'', \<lparr>ri_vcpu = 4, ri_memoryMiB = 16384, ri_architecture = X86_64\<rparr>),
      (''c5.large'', \<lparr>ri_vcpu = 2, ri_memoryMiB = 4096, ri_architecture = X86_64\<rparr>),
      (''c5.xlarge'', \<lparr>ri_vcpu = 4, ri_memoryMiB = 8192, ri_architecture = X86_64\<rparr>)
     ]"

definition rawToCapacity :: "raw_instance_capacity \<Rightarrow> instance_capacity" where
  "rawToCapacity raw =
     \<lparr>ic_totalCpu = ri_vcpu raw * CPU_SHARES_PER_VCPU, ic_totalMemory = ri_memoryMiB raw,
      ic_architecture = ri_architecture raw\<rparr>"

text \<open>The table is a plain object; a name that only its prototype has is not an instance type.\<close>

definition lookupInstanceCapacity :: "string \<Rightarrow> instance_capacity option" where
  "lookupInstanceCapacity t = map_option rawToCapacity (map_of INSTANCE_CAPACITY_TABLE t)"

section \<open>The admission check\<close>

record capacity_demand =
  cd_project :: string
  cd_service :: string
  cd_cpu :: int
  cd_memory :: int
  cd_surgeCpu :: "int option"
  cd_surgeMemory :: "int option"

record capacity_check_input =
  ci_totalCpu :: int
  ci_totalMemory :: int
  ci_reservedCpu :: int
  ci_reservedMemory :: int
  ci_services :: "capacity_demand list"

record capacity_check_result =
  cr_ok :: bool
  cr_allocatableCpu :: int
  cr_allocatableMemory :: int
  cr_usedCpu :: int
  cr_usedMemory :: int
  cr_steadyCpu :: int
  cr_steadyMemory :: int
  cr_surgeCpu :: int
  cr_surgeMemory :: int
  cr_cpuOverBy :: int
  cr_memoryOverBy :: int

definition or0 :: "int option \<Rightarrow> int" where
  "or0 x = (case x of None \<Rightarrow> 0 | Some n \<Rightarrow> n)"

definition checkCapacity :: "capacity_check_input \<Rightarrow> capacity_check_result" where
  "checkCapacity i =
     (let aCpu = ci_totalCpu i - ci_reservedCpu i;
          aMem = ci_totalMemory i - ci_reservedMemory i;
          stCpu = sum_by cd_cpu (ci_services i);
          stMem = sum_by cd_memory (ci_services i);
          suCpu = max_by (\<lambda>s. or0 (cd_surgeCpu s)) (ci_services i);
          suMem = max_by (\<lambda>s. or0 (cd_surgeMemory s)) (ci_services i);
          uCpu = stCpu + suCpu;
          uMem = stMem + suMem
      in \<lparr>cr_ok = (uCpu - aCpu \<le> 0 \<and> uMem - aMem \<le> 0),
          cr_allocatableCpu = aCpu, cr_allocatableMemory = aMem,
          cr_usedCpu = uCpu, cr_usedMemory = uMem,
          cr_steadyCpu = stCpu, cr_steadyMemory = stMem,
          cr_surgeCpu = suCpu, cr_surgeMemory = suMem,
          cr_cpuOverBy = uCpu - aCpu, cr_memoryOverBy = uMem - aMem\<rparr>)"

section \<open>The smallest instance type for a demand\<close>

record smallest_type_options =
  so_reservedCpu :: "int option"
  so_reservedMemory :: "int option"
  so_floor :: "string option"
  so_architecture :: "architecture option"

definition familyRank :: "string \<Rightarrow> nat" where
  "familyRank t =
     (if starts_with t ''t4g.'' then 0 else if starts_with t ''t3.'' then 1
      else if starts_with t ''t3a.'' then 2 else if starts_with t ''t2.'' then 3 else 4)"

type_synonym typed_capacity = "string \<times> instance_capacity"

text \<open>The comparator of the sort, as \<open>cmp(a, b) <= 0\<close>.\<close>

definition size_key :: "typed_capacity \<Rightarrow> int \<times> int \<times> nat \<times> nat list \<times> bool list" where
  "size_key a = (ic_totalCpu (snd a), ic_totalMemory (snd a), familyRank (fst a), coll_key (fst a))"

definition option_or :: "'a option \<Rightarrow> 'a \<Rightarrow> 'a" where
  "option_or x d = (case x of None \<Rightarrow> d | Some v \<Rightarrow> v)"

definition floor_capacity :: "smallest_type_options \<Rightarrow> instance_capacity option" where
  "floor_capacity opts = lookupInstanceCapacity (option_or (so_floor opts) ''t4g.micro'')"

definition target_architecture :: "smallest_type_options \<Rightarrow> architecture option" where
  "target_architecture opts =
     (case so_architecture opts of Some a \<Rightarrow> Some a
      | None \<Rightarrow> map_option ic_architecture (floor_capacity opts))"

definition type_candidates :: "smallest_type_options \<Rightarrow> typed_capacity list" where
  "type_candidates opts =
     sort_key size_key
       (filter (\<lambda>(_, c). case floor_capacity opts of None \<Rightarrow> True
                | Some f \<Rightarrow> ic_totalCpu f \<le> ic_totalCpu c \<and> ic_totalMemory f \<le> ic_totalMemory c)
         (filter (\<lambda>(_, c). case target_architecture opts of None \<Rightarrow> True | Some a \<Rightarrow> ic_architecture c = a)
           (map (\<lambda>(t, raw). (t, rawToCapacity raw)) INSTANCE_CAPACITY_TABLE)))"

definition type_fits :: "smallest_type_options \<Rightarrow> int \<Rightarrow> int \<Rightarrow> typed_capacity \<Rightarrow> bool" where
  "type_fits opts cpuShares memoryMb c \<longleftrightarrow>
     cpuShares \<le> ic_totalCpu (snd c) - option_or (so_reservedCpu opts) DEFAULT_RESERVED_CPU
     \<and> memoryMb \<le> ic_totalMemory (snd c) - option_or (so_reservedMemory opts) DEFAULT_RESERVED_MEMORY"

definition smallestInstanceTypeFor ::
  "int \<Rightarrow> int \<Rightarrow> smallest_type_options \<Rightarrow> typed_capacity option" where
  "smallestInstanceTypeFor cpuShares memoryMb opts =
     find (type_fits opts cpuShares memoryMb) (type_candidates opts)"

section \<open>What the admission check promises\<close>

lemma checkCapacity_ok:
  "cr_ok (checkCapacity i) \<longleftrightarrow>
     sum_by cd_cpu (ci_services i) + max_by (\<lambda>s. or0 (cd_surgeCpu s)) (ci_services i)
       \<le> ci_totalCpu i - ci_reservedCpu i
   \<and> sum_by cd_memory (ci_services i) + max_by (\<lambda>s. or0 (cd_surgeMemory s)) (ci_services i)
       \<le> ci_totalMemory i - ci_reservedMemory i"
  by (simp add: checkCapacity_def Let_def)

text \<open>
  The abstract promise: a node rolls one service at a time, so in every moment of every rollout the
  steady demand and the surge of the rolling service fit, for each resource on its own.
\<close>

definition fits_every_rollout :: "int \<Rightarrow> int \<Rightarrow> capacity_demand list \<Rightarrow> bool" where
  "fits_every_rollout aCpu aMem ss \<longleftrightarrow>
     sum_by cd_cpu ss \<le> aCpu \<and> sum_by cd_memory ss \<le> aMem
     \<and> list_all (\<lambda>s. sum_by cd_cpu ss + or0 (cd_surgeCpu s) \<le> aCpu
                   \<and> sum_by cd_memory ss + or0 (cd_surgeMemory s) \<le> aMem) ss"

lemma max_by_le_iff: "max_by f xs \<le> b \<longleftrightarrow> 0 \<le> b \<and> (\<forall>x \<in> set xs. f x \<le> b)"
  by (meson max_by_ge max_by_ge0 max_by_le order_trans)

text \<open>
  C31. The admission check refines the promise: a set of services is admitted exactly when its steady
  demand fits and, whichever single service is rolling, its surge fits on top, in CPU and in memory.
\<close>

theorem checkCapacity_iff_every_rollout:
  "cr_ok (checkCapacity i) =
   fits_every_rollout (ci_totalCpu i - ci_reservedCpu i) (ci_totalMemory i - ci_reservedMemory i)
     (ci_services i)"
proof -
  have "s + max_by f xs \<le> a \<longleftrightarrow> s \<le> a \<and> (\<forall>x \<in> set xs. s + f x \<le> a)" for s a and f :: "'x \<Rightarrow> int" and xs
    using max_by_le_iff [of f xs "a - s"] by (force simp: algebra_simps)
  then show ?thesis
    by (auto simp: checkCapacity_ok fits_every_rollout_def list_all_iff)
qed

text \<open>Fewer services never fail a check that more services passed.\<close>

lemma checkCapacity_fewer:
  assumes "cr_ok (checkCapacity (i\<lparr>ci_services := xs @ s # ys\<rparr>))" "0 \<le> cd_cpu s" "0 \<le> cd_memory s"
  shows "cr_ok (checkCapacity (i\<lparr>ci_services := xs @ ys\<rparr>))"
  using assms by (auto simp: checkCapacity_ok)

section \<open>What the smallest type promises\<close>

lemma find_sorted_least:
  assumes "sorted (map f xs)" "find P xs = Some x" "y \<in> set xs" "P y"
  shows "f x \<le> f y"
  using assms by (induction xs) (auto split: if_splits)

text \<open>
  The chosen instance type is a known one of the wanted architecture, at least the floor, fits the
  demand after the host's reservation, and no other such type is smaller (CPU first, then memory);
  none is returned only when no such type fits.
\<close>

theorem smallestInstanceTypeFor_least:
  "case smallestInstanceTypeFor cpu mem opts of
     None \<Rightarrow> \<not> list_ex (type_fits opts cpu mem) (type_candidates opts)
   | Some c \<Rightarrow> lookupInstanceCapacity (fst c) = Some (snd c) \<and> type_fits opts cpu mem c
       \<and> (target_architecture opts = None \<or> target_architecture opts = Some (ic_architecture (snd c)))
       \<and> list_all (\<lambda>d. ic_totalCpu (snd c) < ic_totalCpu (snd d)
            \<or> ic_totalCpu (snd c) = ic_totalCpu (snd d) \<and> ic_totalMemory (snd c) \<le> ic_totalMemory (snd d))
          (filter (type_fits opts cpu mem) (type_candidates opts))"
proof (cases "smallestInstanceTypeFor cpu mem opts")
  case None
  then have "find (type_fits opts cpu mem) (type_candidates opts) = None"
    by (simp add: smallestInstanceTypeFor_def)
  then have "\<not> list_ex (type_fits opts cpu mem) (type_candidates opts)"
    unfolding find_None_iff list_ex_iff by blast
  with None show ?thesis by simp
next
  case (Some c)
  then have f: "find (type_fits opts cpu mem) (type_candidates opts) = Some c"
    by (simp add: smallestInstanceTypeFor_def)
  from find_SomeD [OF f] have c: "c \<in> set (type_candidates opts)" and fit: "type_fits opts cpu mem c" by auto
  have d: "distinct (map fst INSTANCE_CAPACITY_TABLE)" by (simp add: INSTANCE_CAPACITY_TABLE_def)
  from c have l: "lookupInstanceCapacity (fst c) = Some (snd c)"
    by (auto simp: type_candidates_def lookupInstanceCapacity_def map_of_eq_Some_iff [OF d]
        intro: map_of_is_SomeI [OF d])
  from c have a: "target_architecture opts = None \<or> target_architecture opts = Some (ic_architecture (snd c))"
    by (cases "target_architecture opts") (auto simp: type_candidates_def)
  have "sorted (map size_key (type_candidates opts))" by (simp add: type_candidates_def)
  note least = find_sorted_least [OF this f]
  have "list_all (\<lambda>d. ic_totalCpu (snd c) < ic_totalCpu (snd d)
            \<or> ic_totalCpu (snd c) = ic_totalCpu (snd d) \<and> ic_totalMemory (snd c) \<le> ic_totalMemory (snd d))
          (filter (type_fits opts cpu mem) (type_candidates opts))"
    unfolding list_all_iff set_filter using least by (fastforce simp: size_key_def less_eq_prod_def)
  with Some l a fit show ?thesis by simp
qed

end
