(* ===== verification/S3_Keys.thy ===== *)
theory S3_Keys
  imports Names
begin

text \<open>
  The keys and buckets of the program's state (\<open>packages/shared/src/s3-keys.ts\<close>), and the proof that
  two documents never share a key: a key is a path of segments without slashes, and the kind of a
  document, its cluster and its ids can be read off the path.
\<close>

definition NODES_PREFIX :: string where "NODES_PREFIX = ''nodes/''"
definition CLUSTERS_PREFIX :: string where "CLUSTERS_PREFIX = ''clusters/''"
definition PROJECT_INDEX_DIR :: string where "PROJECT_INDEX_DIR = ''_index''"

definition stateBucketName :: "string \<Rightarrow> string \<Rightarrow> string" where
  "stateBucketName accountId region = ''launch-pad-state-'' @ accountId @ ''-'' @ region"

definition backupsBucketName :: "string \<Rightarrow> string \<Rightarrow> string" where
  "backupsBucketName accountId region = ''launch-pad-backups-'' @ accountId @ ''-'' @ region"

definition backupServicePrefix :: "string \<Rightarrow> string \<Rightarrow> string \<Rightarrow> string" where
  "backupServicePrefix clusterId ownerProject service = clusterId @ ''/'' @ ownerProject @ ''/'' @ service @ ''/''"

definition backupDatabasePrefix :: "string \<Rightarrow> string \<Rightarrow> string \<Rightarrow> string \<Rightarrow> string" where
  "backupDatabasePrefix clusterId ownerProject service database =
     backupServicePrefix clusterId ownerProject service @ database @ ''/''"

definition backupObjectKey :: "string \<Rightarrow> string \<Rightarrow> string \<Rightarrow> string \<Rightarrow> string \<Rightarrow> string" where
  "backupObjectKey clusterId ownerProject service database timestamp =
     backupDatabasePrefix clusterId ownerProject service database @ timestamp @ ''.sql.gz''"

definition clusterNodesPrefix :: "string \<Rightarrow> string" where
  "clusterNodesPrefix clusterId =
     (if clusterId = DEFAULT_CLUSTER then NODES_PREFIX else CLUSTERS_PREFIX @ clusterId @ ''/'' @ NODES_PREFIX)"

definition clusterConfigKey :: "string \<Rightarrow> string" where
  "clusterConfigKey clusterId = CLUSTERS_PREFIX @ clusterId @ ''/cluster.json''"

definition nodePrefix :: "string \<Rightarrow> string \<Rightarrow> string" where
  "nodePrefix clusterId nodeId = clusterNodesPrefix clusterId @ nodeId @ ''/''"

definition nodeRegistryKey :: "string \<Rightarrow> string \<Rightarrow> string" where
  "nodeRegistryKey clusterId nodeId = nodePrefix clusterId nodeId @ ''node.json''"

definition desiredKey :: "string \<Rightarrow> string \<Rightarrow> string" where
  "desiredKey clusterId nodeId = nodePrefix clusterId nodeId @ ''desired.json''"

definition statusKey :: "string \<Rightarrow> string \<Rightarrow> string" where
  "statusKey clusterId nodeId = nodePrefix clusterId nodeId @ ''status.json''"

definition edgeConfigKey :: "string \<Rightarrow> string \<Rightarrow> string" where
  "edgeConfigKey clusterId nodeId = nodePrefix clusterId nodeId @ ''edge.json''"

definition edgeUpstreamPrefix :: "string \<Rightarrow> string \<Rightarrow> string" where
  "edgeUpstreamPrefix clusterId edgeId = nodePrefix clusterId edgeId @ ''upstream/''"

definition edgeUpstreamKey :: "string \<Rightarrow> string \<Rightarrow> string \<Rightarrow> string" where
  "edgeUpstreamKey clusterId edgeId appNodeId = edgeUpstreamPrefix clusterId edgeId @ appNodeId @ ''.json''"

definition ecrRepositoryName :: "string \<Rightarrow> string \<Rightarrow> string" where
  "ecrRepositoryName project service = project @ ''/'' @ service"

definition projectsPrefix :: "string \<Rightarrow> string" where
  "projectsPrefix clusterId =
     (if clusterId = DEFAULT_CLUSTER then [] else CLUSTERS_PREFIX @ clusterId @ ''/'') @ ''projects/''"

definition projectStatePrefix :: "string \<Rightarrow> string \<Rightarrow> string" where
  "projectStatePrefix clusterId ownerProject = projectsPrefix clusterId @ ownerProject @ ''/''"

definition projectIndexKey :: "string \<Rightarrow> string \<Rightarrow> string" where
  "projectIndexKey clusterId project = projectsPrefix clusterId @ PROJECT_INDEX_DIR @ ''/'' @ project @ ''.json''"

definition projectIndexPrefix :: "string \<Rightarrow> string" where
  "projectIndexPrefix clusterId = projectsPrefix clusterId @ PROJECT_INDEX_DIR @ ''/''"

definition previewMarkerKey :: "string \<Rightarrow> string \<Rightarrow> string" where
  "previewMarkerKey clusterId ownerProject = projectStatePrefix clusterId ownerProject @ ''preview.json''"

definition configBaselineKey :: "string \<Rightarrow> string \<Rightarrow> string" where
  "configBaselineKey clusterId ownerProject =
     projectStatePrefix clusterId ownerProject @ ''config-baseline.json''"

definition deployEventsPrefix :: "string \<Rightarrow> string \<Rightarrow> string" where
  "deployEventsPrefix clusterId ownerProject = projectStatePrefix clusterId ownerProject @ ''events/''"

definition remoteBuildContextPrefix :: "string \<Rightarrow> string \<Rightarrow> string" where
  "remoteBuildContextPrefix clusterId ownerProject = projectStatePrefix clusterId ownerProject @ ''builds/''"

definition remoteBuildContextKey :: "string \<Rightarrow> string \<Rightarrow> string \<Rightarrow> string \<Rightarrow> string" where
  "remoteBuildContextKey clusterId ownerProject service tag =
     remoteBuildContextPrefix clusterId ownerProject @ service @ ''/'' @ tag @ ''.tar.gz''"

definition deployEventKey :: "string \<Rightarrow> string \<Rightarrow> string \<Rightarrow> string \<Rightarrow> string" where
  "deployEventKey clusterId ownerProject ts eid =
     deployEventsPrefix clusterId ownerProject @ ts @ ''-'' @ eid @ ''.json''"

section \<open>Keys as paths\<close>

text \<open>Every kind of document the program keeps in the state bucket.\<close>

datatype state_key =
    NodeDoc string string
  | DesiredDoc string string
  | StatusDoc string string
  | EdgeDoc string string
  | UpstreamDoc string string string
  | ClusterDoc string
  | BaselineDoc string string
  | PreviewDoc string string
  | IndexDoc string string
  | EventDoc string string string string
  | BuildDoc string string string string

fun key_of :: "state_key \<Rightarrow> string" where
  "key_of (NodeDoc c n) = nodeRegistryKey c n"
| "key_of (DesiredDoc c n) = desiredKey c n"
| "key_of (StatusDoc c n) = statusKey c n"
| "key_of (EdgeDoc c n) = edgeConfigKey c n"
| "key_of (UpstreamDoc c e a) = edgeUpstreamKey c e a"
| "key_of (ClusterDoc c) = clusterConfigKey c"
| "key_of (BaselineDoc c p) = configBaselineKey c p"
| "key_of (PreviewDoc c p) = previewMarkerKey c p"
| "key_of (IndexDoc c p) = projectIndexKey c p"
| "key_of (EventDoc c p ts i) = deployEventKey c p ts i"
| "key_of (BuildDoc c p s t) = remoteBuildContextKey c p s t"

abbreviation no_slash :: "string \<Rightarrow> bool" where
  "no_slash s \<equiv> CHR ''/'' \<notin> set s"

text \<open>
  Ids as the program makes them: cluster and owner names start like labels (no underscore, no slash),
  node ids, tags, times and event ids hold no slash; an event's id, being random hex, holds no dash.
\<close>

fun wf_key :: "state_key \<Rightarrow> bool" where
  "wf_key (NodeDoc c n) = (no_slash c \<and> no_slash n)"
| "wf_key (DesiredDoc c n) = (no_slash c \<and> no_slash n)"
| "wf_key (StatusDoc c n) = (no_slash c \<and> no_slash n)"
| "wf_key (EdgeDoc c n) = (no_slash c \<and> no_slash n)"
| "wf_key (UpstreamDoc c e a) = (no_slash c \<and> no_slash e \<and> no_slash a)"
| "wf_key (ClusterDoc c) = no_slash c"
| "wf_key (BaselineDoc c p) = (no_slash c \<and> no_slash p \<and> CHR ''_'' \<notin> set p)"
| "wf_key (PreviewDoc c p) = (no_slash c \<and> no_slash p \<and> CHR ''_'' \<notin> set p)"
| "wf_key (IndexDoc c p) = (no_slash c \<and> no_slash p)"
| "wf_key (EventDoc c p ts i) = (no_slash c \<and> no_slash p \<and> CHR ''_'' \<notin> set p \<and> no_slash ts \<and> no_slash i \<and> CHR ''-'' \<notin> set i)"
| "wf_key (BuildDoc c p s t) = (no_slash c \<and> no_slash p \<and> CHR ''_'' \<notin> set p \<and> no_slash s \<and> no_slash t)"

definition scope :: "string \<Rightarrow> string list \<Rightarrow> string list" where
  "scope c path = (if c = DEFAULT_CLUSTER then path else ''clusters'' # c # path)"

fun path_of :: "state_key \<Rightarrow> string list" where
  "path_of (NodeDoc c n) = scope c [''nodes'', n, ''node.json'']"
| "path_of (DesiredDoc c n) = scope c [''nodes'', n, ''desired.json'']"
| "path_of (StatusDoc c n) = scope c [''nodes'', n, ''status.json'']"
| "path_of (EdgeDoc c n) = scope c [''nodes'', n, ''edge.json'']"
| "path_of (UpstreamDoc c e a) = scope c [''nodes'', e, ''upstream'', a @ ''.json'']"
| "path_of (ClusterDoc c) = [''clusters'', c, ''cluster.json'']"
| "path_of (BaselineDoc c p) = scope c [''projects'', p, ''config-baseline.json'']"
| "path_of (PreviewDoc c p) = scope c [''projects'', p, ''preview.json'']"
| "path_of (IndexDoc c p) = scope c [''projects'', ''_index'', p @ ''.json'']"
| "path_of (EventDoc c p ts i) = scope c [''projects'', p, ''events'', ts @ ''-'' @ i @ ''.json'']"
| "path_of (BuildDoc c p s t) = scope c [''projects'', p, ''builds'', s, t @ ''.tar.gz'']"

lemmas key_defs = NODES_PREFIX_def CLUSTERS_PREFIX_def PROJECT_INDEX_DIR_def clusterNodesPrefix_def
  clusterConfigKey_def nodePrefix_def nodeRegistryKey_def desiredKey_def statusKey_def edgeConfigKey_def
  edgeUpstreamPrefix_def edgeUpstreamKey_def projectsPrefix_def projectStatePrefix_def projectIndexKey_def
  previewMarkerKey_def configBaselineKey_def deployEventsPrefix_def remoteBuildContextPrefix_def
  remoteBuildContextKey_def deployEventKey_def

lemma key_of_path: "key_of k = join_str ''/'' (path_of k)"
  by (cases k) (simp_all add: key_defs scope_def)

lemma path_no_slash: "wf_key k \<Longrightarrow> p \<in> set (path_of k) \<Longrightarrow> no_slash p"
  by (cases k) (auto simp: scope_def split: if_splits)

lemma path_ne: "path_of k \<noteq> []"
  by (cases k) (simp_all add: scope_def)

lemma path_of_key: "wf_key k \<Longrightarrow> split_char CHR ''/'' (key_of k) = path_of k"
  unfolding key_of_path using path_no_slash by (intro split_join_char path_ne) blast

lemma last_dash_unique:
  "CHR ''-'' \<notin> set i \<Longrightarrow> CHR ''-'' \<notin> set j \<Longrightarrow> a @ CHR ''-'' # i = b @ CHR ''-'' # j \<Longrightarrow> a = b \<and> i = j"
  using last_index_of_split [of "CHR ''-''" i a] last_index_of_split [of "CHR ''-''" j b]
  by (metis append_eq_append_conv list.inject option.inject)

lemma scope_simps:
  "scope c (''nodes'' # p) = scope d (''nodes'' # q) \<longleftrightarrow> c = d \<and> p = q"
  "scope c (''projects'' # p) = scope d (''projects'' # q) \<longleftrightarrow> c = d \<and> p = q"
  "scope c (''nodes'' # p) \<noteq> scope d (''projects'' # q)"
  "scope c (''projects'' # p) \<noteq> scope d (''nodes'' # q)"
  "scope c (''nodes'' # p) \<noteq> [''clusters'', d, ''cluster.json'']"
  "scope c (''projects'' # p) \<noteq> [''clusters'', d, ''cluster.json'']"
  "[''clusters'', d, ''cluster.json''] \<noteq> scope c (''nodes'' # p)"
  "[''clusters'', d, ''cluster.json''] \<noteq> scope c (''projects'' # p)"
  by (auto simp: scope_def)

lemma path_inj: "wf_key k \<Longrightarrow> wf_key l \<Longrightarrow> path_of k = path_of l \<Longrightarrow> k = l"
  by (cases k; cases l; simp only: path_of.simps scope_simps list.inject wf_key.simps)
    (simp_all, metis last_dash_unique)

text \<open>
  No two documents of the state bucket share a key: whatever their kinds, clusters, nodes and
  owners, equal keys mean the same document.
\<close>

theorem state_keys_distinct:
  assumes "wf_key k" and "wf_key l" and "key_of k = key_of l"
  shows "k = l"
  using path_inj [OF assms(1,2)] path_of_key [OF assms(1)] path_of_key [OF assms(2)] assms(3) by simp

lemma state_keys_distinct_witness:
  "key_of (DesiredDoc ''prod'' ''dog-runs-fast'') \<noteq> key_of (BaselineDoc ''prod'' ''shop--auth'')"
  using state_keys_distinct [of "DesiredDoc ''prod'' ''dog-runs-fast''" "BaselineDoc ''prod'' ''shop--auth''"] by auto

end
