(* ===== verification/Footprint.thy ===== *)
theory Footprint
  imports Config Merge Capacity S3_Keys
begin

text \<open>
  What a deploy publishes for a service (\<open>toServiceConfig\<close> of \<open>commands/deploy.ts\<close>), the demand of
  published services (\<open>demandsOf\<close> of \<open>deploy/candidate-nodes.ts\<close>), and the footprint read back from the
  nodes' desired states (\<open>deploy/deployed-footprint.ts\<close>), all of \<open>packages/cli/src\<close>.
\<close>

section \<open>Publishing a service\<close>

record aws_env =
  aws_accountId :: string
  aws_region :: string
  aws_clusterId :: string

datatype deploy_error = NoEdgeForWebService string

definition resolved_health_check :: "service_decl \<Rightarrow> health_check option" where
  "resolved_health_check d =
     map_option (\<lambda>h. h\<lparr>hc_port := (case hc_port h of Some p \<Rightarrow> Some p | None \<Rightarrow> sd_port d)\<rparr>) (sd_healthCheck d)"

text \<open>The last argument is the time of a restart, when one is asked for.\<close>

definition toServiceConfig ::
  "aws_env \<Rightarrow> string \<Rightarrow> service_decl \<Rightarrow> string \<Rightarrow> string option \<Rightarrow> int \<Rightarrow> string option \<Rightarrow> string option
   \<Rightarrow> string option \<Rightarrow> deploy_error + service_config" where
  "toServiceConfig aws project decl img domain replicas resolvedEdge env restart =
     (let isWeb = (domain \<noteq> None \<and> sd_port decl \<noteq> None)
      in if isWeb \<and> resolvedEdge = None then Inl (NoEdgeForWebService (sd_name decl))
         else Inr \<lparr>sc_project = project, sc_service = sd_name decl, sc_image = img, sc_cpu = sd_cpu decl,
           sc_memory = sd_memory decl, sc_replicas = replicas,
           sc_env = containerEnvForDeploy (sd_env decl) env,
           sc_secretRefs = secretRefsForService (sd_secrets decl) (aws_clusterId aws) project (sd_name decl),
           sc_restartAt = restart, sc_cron = sd_cron decl,
           sc_ingress = (if isWeb then Some \<lparr>ig_domain = the domain, ig_port = the (sd_port decl), ig_edge = the resolvedEdge\<rparr>
                         else None),
           sc_healthCheck = resolved_health_check decl, sc_rollout = sd_rollout decl, sc_volumes = sd_volumes decl,
           sc_database = sd_database decl,
           sc_backup = (case (sd_database decl, sd_backup decl) of
               (Some _, Some b) \<Rightarrow> Some \<lparr>bc_schedule = bd_schedule b, bc_retentionDays = bd_retentionDays b,
                   bc_bucket = backupsBucketName (aws_accountId aws) (aws_region aws),
                   bc_prefix = backupServicePrefix (aws_clusterId aws) project (sd_name decl)\<rparr>
             | _ \<Rightarrow> None),
           sc_jobRun = None\<rparr>)"

section \<open>Demands\<close>

definition demandsOf :: "service_config list \<Rightarrow> capacity_demand list" where
  "demandsOf ss = map (\<lambda>s.
     let surge = min (ro_maxSurge (sc_rollout s)) (sc_replicas s)
     in \<lparr>cd_project = sc_project s, cd_service = sc_service s, cd_cpu = sc_cpu s * sc_replicas s,
         cd_memory = sc_memory s * sc_replicas s, cd_surgeCpu = Some (sc_cpu s * surge),
         cd_surgeMemory = Some (sc_memory s * surge)\<rparr>) ss"

section \<open>The deployed footprint\<close>

record node_occupancy =
  no_service :: string
  no_replicas :: int
  no_ingress :: "ingress option"

record deployed_footprint =
  df_service :: string
  df_nodeIds :: "string list"
  df_replicas :: int
  df_cpu :: int
  df_memory :: int
  df_env :: "(string, string) assoc"
  df_ingress :: "ingress option"
  df_healthCheck :: "health_check option"
  df_rollout :: rollout
  df_secrets :: "string list"
  df_volumes :: "volume_decl list"
  df_cron :: "string option"
  df_database :: "service_database option"

record deployed_placement =
  dp_footprints :: "deployed_footprint list"
  dp_occupiedNodeIds :: "string list"
  dp_byNode :: "(string, node_occupancy list) assoc"

type_synonym placed_service = "string \<times> service_config"

definition footprint_services :: "node_services list \<Rightarrow> string \<Rightarrow> placed_service list" where
  "footprint_services states owner =
     concat (map (\<lambda>(n, ss). map (\<lambda>s. (n, s)) (owned_by owner ss)) states)"

definition first_footprint :: "placed_service \<Rightarrow> deployed_footprint" where
  "first_footprint ns = (case ns of (n, s) \<Rightarrow>
     \<lparr>df_service = sc_service s, df_nodeIds = [n], df_replicas = sc_replicas s, df_cpu = sc_cpu s,
      df_memory = sc_memory s, df_env = sc_env s, df_ingress = sc_ingress s, df_healthCheck = sc_healthCheck s,
      df_rollout = sc_rollout s, df_secrets = map sr_name (sc_secretRefs s), df_volumes = sc_volumes s,
      df_cron = sc_cron s, df_database = sc_database s\<rparr>)"

definition add_footprint ::
  "placed_service \<Rightarrow> (string, deployed_footprint) assoc \<Rightarrow> (string, deployed_footprint) assoc" where
  "add_footprint ns m = (case ns of (n, s) \<Rightarrow>
     (case map_of m (sc_service s) of
        None \<Rightarrow> assoc_set (sc_service s) (first_footprint ns) m
      | Some f \<Rightarrow> assoc_set (sc_service s)
          (f\<lparr>df_nodeIds := df_nodeIds f @ [n], df_replicas := df_replicas f + sc_replicas s\<rparr>) m))"

definition add_occupancy ::
  "placed_service \<Rightarrow> (string, node_occupancy list) assoc \<Rightarrow> (string, node_occupancy list) assoc" where
  "add_occupancy ns m = (case ns of (n, s) \<Rightarrow>
     assoc_set n (assoc_get_or [] m n
       @ [\<lparr>no_service = sc_service s, no_replicas = sc_replicas s, no_ingress = sc_ingress s\<rparr>]) m)"

definition buildPlacementSnapshot :: "node_services list \<Rightarrow> string \<Rightarrow> deployed_placement" where
  "buildPlacementSnapshot states owner =
     (let placed = footprint_services states owner;
          byService = fold add_footprint placed [];
          byNode = fold add_occupancy placed []
      in \<lparr>dp_footprints = sort_key (\<lambda>f. coll_key (df_service f))
            (map (\<lambda>(k, f). f\<lparr>df_nodeIds := sort (df_nodeIds f)\<rparr>) byService),
          dp_occupiedNodeIds = sort (map fst byNode),
          dp_byNode = byNode\<rparr>)"

section \<open>What the snapshot says\<close>

text \<open>The footprint of one service: the fields of its first occurrence, all its nodes, all its replicas.\<close>

fun merged_footprint :: "placed_service list \<Rightarrow> deployed_footprint option" where
  "merged_footprint [] = None"
| "merged_footprint (p # ps) = Some ((first_footprint p)\<lparr>df_nodeIds := map fst (p # ps),
     df_replicas := sum_by (\<lambda>q. sc_replicas (snd q)) (p # ps)\<rparr>)"

definition of_service :: "string \<Rightarrow> placed_service list \<Rightarrow> placed_service list" where
  "of_service k ps = filter (\<lambda>p. sc_service (snd p) = k) ps"

lemma merged_footprint_snoc:
  "merged_footprint (ps @ [(n, s)]) =
     (case merged_footprint ps of None \<Rightarrow> Some (first_footprint (n, s))
      | Some f \<Rightarrow> Some (f\<lparr>df_nodeIds := df_nodeIds f @ [n], df_replicas := df_replicas f + sc_replicas s\<rparr>))"
  by (cases ps) (simp_all add: first_footprint_def)

lemma map_of_fold_add_footprint:
  "map_of (fold add_footprint ps []) k = merged_footprint (of_service k ps)"
proof (induction ps rule: rev_induct)
  case (snoc p ps)
  obtain n s where p: "p = (n, s)" by (cases p)
  have o: "of_service k (ps @ [p]) = of_service k ps @ (if sc_service s = k then [(n, s)] else [])"
    by (simp add: of_service_def p)
  show ?case
  proof (cases "sc_service s = k")
    case True
    with snoc o show ?thesis
      by (simp add: p add_footprint_def merged_footprint_snoc map_of_assoc_set split: option.splits)
  next
    case False
    with snoc o show ?thesis
      by (simp add: p add_footprint_def map_of_assoc_set split: option.splits)
  qed
qed (simp add: of_service_def)

lemma keys_fold_add_footprint:
  "set (map fst (fold add_footprint ps m)) = set (map fst m) \<union> (\<lambda>p. sc_service (snd p)) ` set ps"
proof (induction ps arbitrary: m)
  case (Cons p ps)
  have "set (map fst (add_footprint p m)) = insert (sc_service (snd p)) (set (map fst m))"
    by (cases p) (auto simp: add_footprint_def keys_assoc_set simp del: set_map split: option.splits)
  with Cons show ?case by simp
qed simp

lemma distinct_fold_add_footprint:
  "distinct (map fst m) \<Longrightarrow> distinct (map fst (fold add_footprint ps m))"
  by (induction ps arbitrary: m)
    (auto simp: add_footprint_def case_prod_beta distinct_assoc_set split: option.splits)

lemma of_service_Cons: "of_service k ps = p # l \<Longrightarrow> sc_service (snd p) = k"
  using filter_eq_ConsD [of "\<lambda>p. sc_service (snd p) = k" ps p l] by (auto simp: of_service_def)

lemma of_service_ne: "of_service k ps \<noteq> [] \<longleftrightarrow> (\<exists>n s. (n, s) \<in> set ps \<and> sc_service s = k)"
  by (force simp: of_service_def filter_empty_conv)

lemma merged_footprint_None: "merged_footprint ps = None \<longleftrightarrow> ps = []"
  by (cases ps) auto

lemma merged_footprint_service:
  "merged_footprint (of_service k ps) = Some f \<Longrightarrow> df_service f = k"
proof (cases "of_service k ps")
  case (Cons p l)
  assume "merged_footprint (of_service k ps) = Some f"
  with Cons of_service_Cons [OF Cons] show ?thesis
    by (auto simp: first_footprint_def split: prod.splits)
qed simp

text \<open>The footprints of a snapshot, before their node ids are sorted.\<close>

lemma snapshot_footprints:
  "f \<in> set (dp_footprints (buildPlacementSnapshot states owner)) \<longleftrightarrow>
   (\<exists>k g. merged_footprint (of_service k (footprint_services states owner)) = Some g
      \<and> f = g\<lparr>df_nodeIds := sort (df_nodeIds g)\<rparr>)"
proof -
  let ?m = "fold add_footprint (footprint_services states owner) []"
  have d: "distinct (map fst ?m)" by (simp add: distinct_fold_add_footprint)
  have "(k, g) \<in> set ?m \<longleftrightarrow> merged_footprint (of_service k (footprint_services states owner)) = Some g" for k g
    using map_of_eq_Some_iff [OF d] map_of_fold_add_footprint by metis
  then show ?thesis
    by (force simp: buildPlacementSnapshot_def Let_def)
qed

lemma footprint_services_mem:
  "(n, s) \<in> set (footprint_services states owner) \<longleftrightarrow>
   (\<exists>ss. (n, ss) \<in> set states \<and> s \<in> set ss \<and> sc_project s = owner)"
  by (auto simp: footprint_services_def owned_by_def)

lemma snapshot_services:
  "k \<in> df_service ` set (dp_footprints (buildPlacementSnapshot states owner)) \<longleftrightarrow>
   (\<exists>n ss s. (n, ss) \<in> set states \<and> s \<in> set ss \<and> sc_project s = owner \<and> sc_service s = k)"
proof -
  let ?os = "of_service k (footprint_services states owner)"
  have "k \<in> df_service ` set (dp_footprints (buildPlacementSnapshot states owner)) \<longleftrightarrow>
      (\<exists>g. merged_footprint ?os = Some g)"
  proof
    assume "k \<in> df_service ` set (dp_footprints (buildPlacementSnapshot states owner))"
    then obtain f where f: "f \<in> set (dp_footprints (buildPlacementSnapshot states owner))" "df_service f = k" by blast
    then obtain k' g where g: "merged_footprint (of_service k' (footprint_services states owner)) = Some g"
      "f = g\<lparr>df_nodeIds := sort (df_nodeIds g)\<rparr>" by (auto simp: snapshot_footprints)
    with f(2) merged_footprint_service [OF g(1)] show "\<exists>g. merged_footprint ?os = Some g" by auto
  next
    assume "\<exists>g. merged_footprint ?os = Some g"
    then obtain g where g: "merged_footprint ?os = Some g" by blast
    then have "g\<lparr>df_nodeIds := sort (df_nodeIds g)\<rparr> \<in> set (dp_footprints (buildPlacementSnapshot states owner))"
      unfolding snapshot_footprints by blast
    from imageI [OF this, of df_service] merged_footprint_service [OF g]
    show "k \<in> df_service ` set (dp_footprints (buildPlacementSnapshot states owner))" by simp
  qed
  also have "\<dots> \<longleftrightarrow> ?os \<noteq> []" using merged_footprint_None [of ?os] by auto
  also have "\<dots> \<longleftrightarrow> (\<exists>n ss s. (n, ss) \<in> set states \<and> s \<in> set ss \<and> sc_project s = owner \<and> sc_service s = k)"
    unfolding of_service_ne footprint_services_mem by blast
  finally show ?thesis .
qed

lemma snapshot_distinct_services: "distinct (map df_service (dp_footprints (buildPlacementSnapshot states owner)))"
proof -
  let ?m = "fold add_footprint (footprint_services states owner) []"
  have d: "distinct (map fst ?m)" by (simp add: distinct_fold_add_footprint)
  have "df_service f = k" if "(k, f) \<in> set ?m" for k f
    using that map_of_eq_Some_iff [OF d, of k f] by (simp add: map_of_fold_add_footprint merged_footprint_service)
  then have "map df_service (map (\<lambda>(k, f). f\<lparr>df_nodeIds := sort (df_nodeIds f)\<rparr>) ?m) = map fst ?m" by auto
  with d show ?thesis
    by (simp add: buildPlacementSnapshot_def Let_def distinct_map_sort_key del: map_map)
qed

text \<open>
  The snapshot counts right: a service of the footprint is reported once, on exactly the nodes that
  publish it, with the replicas of all of them added up; a service that no node publishes for the owner
  is not reported.
\<close>

theorem snapshot_counts_replicas:
  "f \<in> set (dp_footprints (buildPlacementSnapshot states owner)) \<longrightarrow>
     df_replicas f = sum_by (\<lambda>p. sc_replicas (snd p)) (of_service (df_service f) (footprint_services states owner))
   \<and> set (df_nodeIds f) = fst ` set (of_service (df_service f) (footprint_services states owner))
   \<and> of_service (df_service f) (footprint_services states owner) \<noteq> []"
proof
  assume "f \<in> set (dp_footprints (buildPlacementSnapshot states owner))"
  then obtain k g where g: "merged_footprint (of_service k (footprint_services states owner)) = Some g"
    and f: "f = g\<lparr>df_nodeIds := sort (df_nodeIds g)\<rparr>" by (auto simp: snapshot_footprints)
  have k: "df_service f = k" using merged_footprint_service [OF g] f by simp
  show "df_replicas f = sum_by (\<lambda>p. sc_replicas (snd p)) (of_service (df_service f) (footprint_services states owner))
   \<and> set (df_nodeIds f) = fst ` set (of_service (df_service f) (footprint_services states owner))
   \<and> of_service (df_service f) (footprint_services states owner) \<noteq> []"
  proof (cases "of_service k (footprint_services states owner)")
    case (Cons p ps)
    with g f have "df_nodeIds f = sort (map fst (p # ps))"
      "df_replicas f = sum_by (\<lambda>q. sc_replicas (snd q)) (p # ps)" by auto
    then show ?thesis unfolding k Cons by (simp only: set_sort set_map) simp
  qed (use g in simp)
qed

definition example_states :: "node_services list" where
  "example_states = [(''a'', [plain_service ''shop'' ''api'' 256 256 1]),
     (''b'', [plain_service ''shop'' ''api'' 256 256 2, plain_service ''blog'' ''web'' 128 128 2])]"

lemma snapshot_counts_replicas_witness:
  "df_replicas (hd (dp_footprints (buildPlacementSnapshot example_states ''shop''))) = 3
   \<and> length (dp_footprints (buildPlacementSnapshot example_states ''shop'')) = 1"
proof -
  let ?f = "hd (dp_footprints (buildPlacementSnapshot example_states ''shop''))"
  have l: "length (dp_footprints (buildPlacementSnapshot example_states ''shop'')) = 1" by code_simp
  then have "?f \<in> set (dp_footprints (buildPlacementSnapshot example_states ''shop''))"
    by (cases "dp_footprints (buildPlacementSnapshot example_states ''shop'')") auto
  then have "df_replicas ?f = sum_by (\<lambda>p. sc_replicas (snd p)) (of_service (df_service ?f) (footprint_services example_states ''shop''))"
    using snapshot_counts_replicas [of ?f example_states "''shop''"] by blast
  moreover have "sum_by (\<lambda>p. sc_replicas (snd p)) (of_service (df_service ?f) (footprint_services example_states ''shop'')) = 3"
    by code_simp
  ultimately show ?thesis using l by simp
qed

end
