(* ===== verification/Config_Lock.thy ===== *)
theory Config_Lock
  imports Footprint
begin

text \<open>
  The configuration lock (\<open>packages/shared/src/config-lock.ts\<close>): the snapshot of a deployed
  configuration, its reconstruction from the published services, and the comparison that allows only
  the mutable fields to change after the first deploy. The code compares the JSON texts of two objects
  with sorted keys, which are equal exactly when the objects are: the view is a record here.
\<close>

section \<open>Baselines\<close>

record baseline_service =
  cb_name :: string
  cb_node :: "string option"
  cb_nodes :: "string list option"
  cb_edge :: "string option"
  cb_cron :: "string option"
  cb_schedule :: "string option"
  cb_topology :: "string option"
  cb_dockerfile :: string
  cb_context :: string
  cb_replicas :: int
  cb_cpu :: int
  cb_memory :: int
  cb_env :: "(string, string) assoc"
  cb_domain :: "string option"
  cb_domainPattern :: "string option"
  cb_port :: "int option"
  cb_healthCheck :: "health_check option"
  cb_rollout :: rollout
  cb_secrets :: "string list"
  cb_volumes :: "volume_decl list"
  cb_database :: "(string \<times> string) option"

record config_baseline =
  bl_version :: int
  bl_project :: string
  bl_component :: "string option"
  bl_domainPattern :: "string option"
  bl_services :: "baseline_service list"
  bl_lockedAt :: string

definition serviceSnapshot :: "service_decl \<Rightarrow> baseline_service" where
  "serviceSnapshot d =
     \<lparr>cb_name = sd_name d, cb_node = None, cb_nodes = None, cb_edge = None, cb_cron = sd_cron d,
      cb_schedule = None, cb_topology = None, cb_dockerfile = sd_dockerfile d, cb_context = sd_context d,
      cb_replicas = sd_replicas d, cb_cpu = sd_cpu d, cb_memory = sd_memory d, cb_env = sd_env d,
      cb_domain = sd_domain d, cb_domainPattern = sd_domainPattern d, cb_port = sd_port d,
      cb_healthCheck = resolved_health_check d, cb_rollout = sd_rollout d, cb_secrets = sd_secrets d,
      cb_volumes = sd_volumes d,
      cb_database = map_option (\<lambda>b. (db_engine b, db_version b)) (sd_database d)\<rparr>"

definition snapshotConfigBaseline :: "launch_pad_config \<Rightarrow> string \<Rightarrow> config_baseline" where
  "snapshotConfigBaseline c lockedAt =
     \<lparr>bl_version = CONFIG_BASELINE_VERSION, bl_project = lc_project c, bl_component = lc_component c,
      bl_domainPattern = lc_domainPattern c,
      bl_services = sort_key (\<lambda>s. coll_key (cb_name s)) (map serviceSnapshot (lc_service c)),
      bl_lockedAt = lockedAt\<rparr>"

definition declaredEnv :: "(string, string) assoc \<Rightarrow> (string, string) assoc" where
  "declaredEnv env = filter (\<lambda>(k, v). k \<noteq> LAUNCH_PAD_ENVIRONMENT) env"

definition footprint_baseline :: "deployed_footprint \<Rightarrow> baseline_service" where
  "footprint_baseline f =
     \<lparr>cb_name = df_service f, cb_node = None, cb_nodes = None, cb_edge = None, cb_cron = df_cron f,
      cb_schedule = None, cb_topology = None, cb_dockerfile = [], cb_context = [],
      cb_replicas = df_replicas f, cb_cpu = df_cpu f, cb_memory = df_memory f, cb_env = declaredEnv (df_env f),
      cb_domain = (case df_ingress f of None \<Rightarrow> None
                   | Some i \<Rightarrow> if ig_domain i = [] then None else Some (ig_domain i)),
      cb_domainPattern = None,
      cb_port = (case df_ingress f of None \<Rightarrow> None | Some i \<Rightarrow> if ig_port i = 0 then None else Some (ig_port i)),
      cb_healthCheck = df_healthCheck f, cb_rollout = df_rollout f, cb_secrets = df_secrets f,
      cb_volumes = df_volumes f,
      cb_database = map_option (\<lambda>b. (db_engine b, db_version b)) (df_database f)\<rparr>"

definition baselineFromDeployedFootprints ::
  "string \<Rightarrow> string option \<Rightarrow> deployed_footprint list \<Rightarrow> string \<Rightarrow> config_baseline" where
  "baselineFromDeployedFootprints project component footprints lockedAt =
     \<lparr>bl_version = CONFIG_BASELINE_VERSION, bl_project = project, bl_component = component,
      bl_domainPattern = None,
      bl_services = sort_key (\<lambda>s. coll_key (cb_name s)) (map footprint_baseline footprints),
      bl_lockedAt = lockedAt\<rparr>"

section \<open>The comparison\<close>

record lock_options =
  lo_baselineFromDesired :: bool
  lo_allowNewServices :: bool

text \<open>What stays of a service: identity, port, health check, rollout, volumes, database.\<close>

record locked_view =
  lv_name :: string
  lv_cron :: "string option"
  lv_dockerfile :: "string option"
  lv_context :: "string option"
  lv_port :: "int option"
  lv_healthCheck :: "health_check option"
  lv_rollout :: rollout
  lv_volumes :: "volume_decl list"
  lv_database :: "(string \<times> string) option"

definition lockedServiceView :: "lock_options \<Rightarrow> baseline_service \<Rightarrow> locked_view" where
  "lockedServiceView opts s =
     \<lparr>lv_name = cb_name s, lv_cron = cb_cron s,
      lv_dockerfile = (if lo_baselineFromDesired opts then None else Some (cb_dockerfile s)),
      lv_context = (if lo_baselineFromDesired opts then None else Some (cb_context s)),
      lv_port = cb_port s, lv_healthCheck = cb_healthCheck s, lv_rollout = cb_rollout s,
      lv_volumes = cb_volumes s, lv_database = cb_database s\<rparr>"

datatype lock_violation =
    ProjectChanged string string
  | ComponentChanged "string option" "string option"
  | ServiceRemoved string
  | ServiceAdded string
  | LockedFieldsChanged string

definition by_name :: "baseline_service list \<Rightarrow> (string, baseline_service) assoc" where
  "by_name ss = assoc_of (map (\<lambda>s. (cb_name s, s)) ss)"

record service_change_outcome =
  co_service :: string
  co_identityChanged :: bool

definition analyzeConfigChange ::
  "config_baseline \<Rightarrow> config_baseline \<Rightarrow> lock_options \<Rightarrow> lock_violation list \<times> service_change_outcome list" where
  "analyzeConfigChange baseline current opts =
     (let base = by_name (bl_services baseline); cur = by_name (bl_services current)
      in ((if bl_project baseline \<noteq> bl_project current
           then [ProjectChanged (bl_project baseline) (bl_project current)] else [])
          @ (if bl_component baseline \<noteq> bl_component current
             then [ComponentChanged (bl_component baseline) (bl_component current)] else [])
          @ map ServiceRemoved (filter (\<lambda>n. map_of cur n = None) (map fst base))
          @ map ServiceAdded (filter (\<lambda>n. map_of base n = None \<and> \<not> lo_allowNewServices opts) (map fst cur)),
          List.map_filter (\<lambda>(n, b). case map_of cur n of None \<Rightarrow> None
            | Some c \<Rightarrow> Some \<lparr>co_service = n,
                co_identityChanged = (lockedServiceView opts b \<noteq> lockedServiceView opts c)\<rparr>) base))"

definition findConfigLockViolations ::
  "config_baseline \<Rightarrow> config_baseline \<Rightarrow> lock_options \<Rightarrow> lock_violation list" where
  "findConfigLockViolations baseline current opts =
     (case analyzeConfigChange baseline current opts of (pre, outcomes) \<Rightarrow>
        pre @ map (\<lambda>oc. LockedFieldsChanged (co_service oc)) (filter co_identityChanged outcomes))"

definition assertConfigLockAllowed ::
  "config_baseline \<Rightarrow> config_baseline \<Rightarrow> lock_options \<Rightarrow> lock_violation list + unit" where
  "assertConfigLockAllowed baseline current opts =
     (let vs = findConfigLockViolations baseline current opts in if vs = [] then Inr () else Inl vs)"

definition removeServicesFromBaseline :: "config_baseline \<Rightarrow> string list \<Rightarrow> config_baseline option" where
  "removeServicesFromBaseline baseline removed =
     (let services = filter (\<lambda>s. cb_name s \<notin> set removed) (bl_services baseline)
      in if services = [] then None else Some (baseline\<lparr>bl_services := services\<rparr>))"

section \<open>What the lock allows\<close>

lemma by_name_find: "distinct (map cb_name ss) \<Longrightarrow> map_of (by_name ss) n = find (\<lambda>s. cb_name s = n) ss"
  unfolding by_name_def by (rule assoc_of_map_distinct)

lemma by_name_mem:
  "distinct (map cb_name ss) \<Longrightarrow> map_of (by_name ss) n = Some s \<longleftrightarrow> s \<in> set ss \<and> cb_name s = n"
proof -
  assume d: "distinct (map cb_name ss)"
  have "find (\<lambda>s. cb_name s = n) ss = Some s \<longleftrightarrow> s \<in> set ss \<and> cb_name s = n"
    using d by (induction ss) (auto simp: image_iff)
  with by_name_find [OF d] show ?thesis by simp
qed

lemma by_name_keys: "n \<in> set (map fst (by_name ss)) \<longleftrightarrow> n \<in> cb_name ` set ss"
  unfolding by_name_def keys_assoc_of by (auto simp: image_iff)

lemma by_name_None: "map_of (by_name ss) n = None \<longleftrightarrow> n \<notin> cb_name ` set ss"
  unfolding map_of_eq_None_iff using by_name_keys [of n ss] by simp

lemma by_name_pair:
  "distinct (map cb_name ss) \<Longrightarrow> (n, s) \<in> set (by_name ss) \<longleftrightarrow> s \<in> set ss \<and> cb_name s = n"
proof -
  assume d: "distinct (map cb_name ss)"
  have "distinct (map fst (by_name ss))" by (simp add: by_name_def)
  from map_of_eq_Some_iff [OF this, of n s] by_name_mem [OF d, of n s] show ?thesis by simp
qed

text \<open>Two sets of services with the same names and, name by name, the same view.\<close>

definition same_views :: "lock_options \<Rightarrow> baseline_service list \<Rightarrow> baseline_service list \<Rightarrow> bool" where
  "same_views opts bs cs \<longleftrightarrow>
     (\<forall>b \<in> set bs. \<forall>c \<in> set cs. cb_name b = cb_name c \<longrightarrow> lockedServiceView opts b = lockedServiceView opts c)"

lemma no_violations:
  assumes db: "distinct (map cb_name (bl_services b))" and dc: "distinct (map cb_name (bl_services c))"
  shows "findConfigLockViolations b c opts = [] \<longleftrightarrow>
    bl_project b = bl_project c \<and> bl_component b = bl_component c
    \<and> cb_name ` set (bl_services b) \<subseteq> cb_name ` set (bl_services c)
    \<and> (lo_allowNewServices opts \<or> cb_name ` set (bl_services c) \<subseteq> cb_name ` set (bl_services b))
    \<and> same_views opts (bl_services b) (bl_services c)"
proof -
  let ?B = "by_name (bl_services b)" and ?C = "by_name (bl_services c)"
  have r: "filter (\<lambda>n. map_of ?C n = None) (map fst ?B) = [] \<longleftrightarrow>
      cb_name ` set (bl_services b) \<subseteq> cb_name ` set (bl_services c)"
    unfolding filter_empty_conv Ball_def by_name_keys by_name_None by blast
  have a: "filter (\<lambda>n. map_of ?B n = None \<and> \<not> lo_allowNewServices opts) (map fst ?C) = [] \<longleftrightarrow>
      lo_allowNewServices opts \<or> cb_name ` set (bl_services c) \<subseteq> cb_name ` set (bl_services b)"
    unfolding filter_empty_conv Ball_def by_name_keys by_name_None by blast
  have v: "filter co_identityChanged (snd (analyzeConfigChange b c opts)) = [] \<longleftrightarrow>
      same_views opts (bl_services b) (bl_services c)"
  proof -
    have "filter co_identityChanged (snd (analyzeConfigChange b c opts)) = [] \<longleftrightarrow>
        (\<forall>n s t. (n, s) \<in> set ?B \<longrightarrow> map_of ?C n = Some t \<longrightarrow> lockedServiceView opts s = lockedServiceView opts t)"
      by (fastforce simp: analyzeConfigChange_def Let_def filter_empty_conv set_map_filter_Some split: option.splits)
    also have "\<dots> \<longleftrightarrow> same_views opts (bl_services b) (bl_services c)"
      unfolding by_name_pair [OF db] by_name_mem [OF dc] same_views_def by metis
    finally show ?thesis .
  qed
  show ?thesis
    using r a v unfolding findConfigLockViolations_def case_prod_beta
    by (simp add: analyzeConfigChange_def Let_def)
qed

lemma snapshot_names:
  "cb_name ` set (bl_services (snapshotConfigBaseline c at')) = sd_name ` set (lc_service c)"
  by (auto simp: snapshotConfigBaseline_def serviceSnapshot_def image_iff)

lemma snapshot_distinct:
  "distinct (map sd_name (lc_service c)) \<Longrightarrow> distinct (map cb_name (bl_services (snapshotConfigBaseline c at')))"
proof -
  have "map cb_name (map serviceSnapshot (lc_service c)) = map sd_name (lc_service c)"
    by (simp add: serviceSnapshot_def)
  then show "distinct (map sd_name (lc_service c)) \<Longrightarrow> ?thesis"
    by (simp add: snapshotConfigBaseline_def distinct_map_sort_key del: map_map)
qed

text \<open>What the lock compares of a declaration.\<close>

definition locked_fields :: "service_decl \<Rightarrow> locked_view" where
  "locked_fields d =
     \<lparr>lv_name = sd_name d, lv_cron = sd_cron d, lv_dockerfile = Some (sd_dockerfile d),
      lv_context = Some (sd_context d), lv_port = sd_port d, lv_healthCheck = resolved_health_check d,
      lv_rollout = sd_rollout d, lv_volumes = sd_volumes d,
      lv_database = map_option (\<lambda>b. (db_engine b, db_version b)) (sd_database d)\<rparr>"

definition STRICT_LOCK :: lock_options where
  "STRICT_LOCK = \<lparr>lo_baselineFromDesired = False, lo_allowNewServices = False\<rparr>"

lemma view_snapshot: "lockedServiceView STRICT_LOCK (serviceSnapshot d) = locked_fields d"
  by (simp add: lockedServiceView_def STRICT_LOCK_def serviceSnapshot_def locked_fields_def)

lemma snapshot_services_set: "set (bl_services (snapshotConfigBaseline c at')) = serviceSnapshot ` set (lc_service c)"
  by (simp add: snapshotConfigBaseline_def)

lemma snapshot_name [simp]: "cb_name (serviceSnapshot d) = sd_name d"
  by (simp add: serviceSnapshot_def)

lemma views_snapshot:
  "same_views STRICT_LOCK (bl_services (snapshotConfigBaseline c t)) (bl_services (snapshotConfigBaseline c' t'))
   \<longleftrightarrow> (\<forall>x \<in> set (lc_service c). \<forall>y \<in> set (lc_service c'). sd_name x = sd_name y \<longrightarrow> locked_fields x = locked_fields y)"
  by (simp add: same_views_def snapshot_services_set view_snapshot)


definition scaled_config :: launch_pad_config where
  "scaled_config = example_config\<lparr>lc_service := [(example_decl ''api'')\<lparr>sd_replicas := 4, sd_cpu := 512\<rparr>]\<rparr>"


section \<open>The reconstructed baseline\<close>

text \<open>
  The nodes publish a configuration for an owner: every service they publish for it is one of the
  declared ones, as a deploy publishes it, and every declared service is published somewhere.
\<close>

definition published_as ::
  "aws_env \<Rightarrow> string \<Rightarrow> string option \<Rightarrow> service_decl \<Rightarrow> service_config \<Rightarrow> bool" where
  "published_as aws owner env d s \<longleftrightarrow>
     (\<exists>img dm reps edge restart. toServiceConfig aws owner d img dm reps edge env restart = Inr s
        \<and> (dm = None \<longleftrightarrow> sd_domain d = None) \<and> dm \<noteq> Some [])"

definition publishes ::
  "aws_env \<Rightarrow> launch_pad_config \<Rightarrow> string \<Rightarrow> string option \<Rightarrow> node_services list \<Rightarrow> bool" where
  "publishes aws c owner env states \<longleftrightarrow>
     (\<forall>(n, s) \<in> set (footprint_services states owner). \<exists>d \<in> set (lc_service c). published_as aws owner env d s)
   \<and> (\<forall>d \<in> set (lc_service c). \<exists>(n, s) \<in> set (footprint_services states owner). sc_service s = sd_name d)"

definition FROM_DESIRED :: lock_options where
  "FROM_DESIRED = \<lparr>lo_baselineFromDesired = True, lo_allowNewServices = False\<rparr>"

lemma published_view:
  assumes "published_as aws owner env d s" and v: "valid_service_decl d"
    and dp: "(sd_domain d = None) = (sd_port d = None)"
  shows "lockedServiceView FROM_DESIRED (footprint_baseline ((first_footprint (n, s))\<lparr>df_nodeIds := ns, df_replicas := r\<rparr>))
    = lockedServiceView FROM_DESIRED (serviceSnapshot d)" "sc_service s = sd_name d"
proof -
  have p: "sd_port d \<noteq> Some 0" using v by (auto simp: valid_service_decl_def opt_all_def)
  with assms show "lockedServiceView FROM_DESIRED (footprint_baseline ((first_footprint (n, s))\<lparr>df_nodeIds := ns, df_replicas := r\<rparr>))
    = lockedServiceView FROM_DESIRED (serviceSnapshot d)" "sc_service s = sd_name d"
    by (auto simp: published_as_def toServiceConfig_def Let_def lockedServiceView_def FROM_DESIRED_def
        footprint_baseline_def first_footprint_def serviceSnapshot_def split: if_splits)
qed

lemma accepted_services:
  "accepted_config now c \<Longrightarrow> d \<in> set (lc_service c) \<Longrightarrow>
   valid_service_decl d \<and> (sd_domain d = None) = (sd_port d = None)"
  by (auto simp: accepted_config_def valid_config_fields_def config_issues_def list_all_iff
      service_decl_issues_def Let_def)

text \<open>
  C33. Redeploying an unchanged configuration never trips the lock when the baseline has to be
  reconstructed from the nodes' desired states: for every accepted configuration, every environment
  and every placement that publishes it, the comparison finds no violation.
\<close>

theorem unchanged_config_passes_reconstructed_lock:
  assumes acc: "accepted_config now c" and pub: "publishes aws c owner env states"
  shows "findConfigLockViolations
      (baselineFromDeployedFootprints (lc_project c) (lc_component c)
         (dp_footprints (buildPlacementSnapshot states owner)) t)
      (snapshotConfigBaseline c t') FROM_DESIRED = []"
proof -
  let ?fs = "dp_footprints (buildPlacementSnapshot states owner)"
  let ?b = "baselineFromDeployedFootprints (lc_project c) (lc_component c) ?fs t"
  have bs: "set (bl_services ?b) = footprint_baseline ` set ?fs"
    by (simp add: baselineFromDeployedFootprints_def)
  have bn: "cb_name ` set (bl_services ?b) = df_service ` set ?fs"
    by (simp add: bs image_image footprint_baseline_def)
  have dc: "distinct (map sd_name (lc_service c))"
    using acc by (auto simp: accepted_config_def config_issues_def config_root_issues_Nil)
  have "map cb_name (map footprint_baseline ?fs) = map df_service ?fs"
    by (simp add: footprint_baseline_def)
  then have db: "distinct (map cb_name (bl_services ?b))"
    using snapshot_distinct_services [of states owner]
    by (simp add: baselineFromDeployedFootprints_def distinct_map_sort_key del: map_map)
  have pub_s: "\<exists>d \<in> set (lc_service c). published_as aws owner env d s"
    if "(n, s) \<in> set (footprint_services states owner)" for n s
    using pub that by (auto simp: publishes_def)
  have ok: "lockedServiceView FROM_DESIRED (footprint_baseline ((first_footprint (n, s))\<lparr>df_nodeIds := ns, df_replicas := r\<rparr>))
      = lockedServiceView FROM_DESIRED (serviceSnapshot d)" "sc_service s = sd_name d"
    if "published_as aws owner env d s" "d \<in> set (lc_service c)" for d s n ns r
  proof -
    have v: "valid_service_decl d" "(sd_domain d = None) = (sd_port d = None)"
      using accepted_services [OF acc that(2)] by blast+
    show "lockedServiceView FROM_DESIRED (footprint_baseline ((first_footprint (n, s))\<lparr>df_nodeIds := ns, df_replicas := r\<rparr>))
      = lockedServiceView FROM_DESIRED (serviceSnapshot d)"
      by (rule published_view(1) [OF that(1) v])
    show "sc_service s = sd_name d" by (rule published_view(2) [OF that(1) v])
  qed
  have names: "df_service ` set ?fs = sd_name ` set (lc_service c)"
  proof
    show "df_service ` set ?fs \<subseteq> sd_name ` set (lc_service c)"
    proof
      fix k assume "k \<in> df_service ` set ?fs"
      then obtain n s where "(n, s) \<in> set (footprint_services states owner)" "sc_service s = k"
        unfolding snapshot_services footprint_services_mem by blast
      with pub_s ok(2) show "k \<in> sd_name ` set (lc_service c)" by blast
    qed
    show "sd_name ` set (lc_service c) \<subseteq> df_service ` set ?fs"
    proof
      fix k assume "k \<in> sd_name ` set (lc_service c)"
      then obtain n s where "(n, s) \<in> set (footprint_services states owner)" "sc_service s = k"
        using pub by (fastforce simp: publishes_def)
      then show "k \<in> df_service ` set ?fs"
        unfolding snapshot_services footprint_services_mem by blast
    qed
  qed
  have views: "same_views FROM_DESIRED (bl_services ?b) (bl_services (snapshotConfigBaseline c t'))"
    unfolding same_views_def bs snapshot_services_set
  proof (intro ballI impI)
    fix b e assume "b \<in> footprint_baseline ` set ?fs" and e: "e \<in> serviceSnapshot ` set (lc_service c)"
      and n: "cb_name b = cb_name e"
    then obtain f where f: "f \<in> set ?fs" and b: "b = footprint_baseline f" by blast
    from f obtain k g where g: "merged_footprint (of_service k (footprint_services states owner)) = Some g"
      and fg: "f = g\<lparr>df_nodeIds := sort (df_nodeIds g)\<rparr>" by (auto simp: snapshot_footprints)
    obtain p ps where ps: "of_service k (footprint_services states owner) = p # ps"
      using g by (cases "of_service k (footprint_services states owner)") auto
    obtain m s where p: "p = (m, s)" by (cases p)
    have "(m, s) \<in> set (footprint_services states owner)"
      using ps p unfolding of_service_def by (metis filter_is_subset list.set_intros(1) subsetD)
    then obtain d where d: "d \<in> set (lc_service c)" "published_as aws owner env d s" using pub_s by blast
    from e obtain d' where d': "d' \<in> set (lc_service c)" "e = serviceSnapshot d'" by blast
    have "f = (first_footprint (m, s))\<lparr>df_nodeIds := sort (df_nodeIds g), df_replicas := df_replicas g\<rparr>"
      using g ps p fg by auto
    note view = ok(1) [OF d(2,1), where n = m and ns = "sort (df_nodeIds g)" and r = "df_replicas g", folded this]
    have "cb_name b = sd_name d"
      using b f g fg merged_footprint_service [OF g] of_service_Cons [OF ps] ok(2) [OF d(2,1)] p
      by (simp add: footprint_baseline_def)
    then have "sd_name d = sd_name d'" using n d'(2) by simp
    with dc d(1) d'(1) have "d = d'" by (metis distinct_map inj_on_eq_iff)
    with view b d'(2) show "lockedServiceView FROM_DESIRED b = lockedServiceView FROM_DESIRED e" by simp
  qed
  show ?thesis
    unfolding no_violations [OF db snapshot_distinct [OF dc]] snapshot_names bn names
    using views by (simp add: baselineFromDeployedFootprints_def snapshotConfigBaseline_def)
qed

definition example_aws :: aws_env where
  "example_aws = \<lparr>aws_accountId = ''123456789012'', aws_region = ''us-east-1'', aws_clusterId = ''default''\<rparr>"

definition published_example :: service_config where
  "published_example =
     (case toServiceConfig example_aws ''shop-staging'' (example_decl ''api'') ''img'' (Some ''api-staging.example.com'')
        1 (Some ''edge-1'') (Some ''staging'') None of Inr s \<Rightarrow> s)"

definition example_config_nodb :: launch_pad_config where
  "example_config_nodb = example_config\<lparr>lc_database := None\<rparr>"

lemma unchanged_config_passes_reconstructed_lock_witness:
  "findConfigLockViolations
      (baselineFromDeployedFootprints ''shop'' None
         (dp_footprints (buildPlacementSnapshot [(''a'', [published_example]), (''b'', [published_example])] ''shop-staging'')) ''t'')
      (snapshotConfigBaseline example_config_nodb ''u'') FROM_DESIRED = []"
proof -
  have a: "accepted_config 1767225600000 example_config_nodb" by code_simp
  have s: "toServiceConfig example_aws ''shop-staging'' (example_decl ''api'') ''img'' (Some ''api-staging.example.com'')
        1 (Some ''edge-1'') (Some ''staging'') None = Inr published_example"
    by (simp add: published_example_def toServiceConfig_def Let_def)
  have p: "published_as example_aws ''shop-staging'' (Some ''staging'') (example_decl ''api'') published_example"
    unfolding published_as_def using s by (intro exI conjI) (auto simp: example_decl_def)
  have o: "sc_project published_example = ''shop-staging''" "sc_service published_example = ''api''"
    by code_simp+
  have "publishes example_aws example_config_nodb ''shop-staging'' (Some ''staging'')
      [(''a'', [published_example]), (''b'', [published_example])]"
    using p o by (simp add: publishes_def footprint_services_def owned_by_def example_config_nodb_def
        example_config_def) (simp add: example_decl_def)
  from unchanged_config_passes_reconstructed_lock [OF a this, of "''t''" "''u''"] show ?thesis
    by (simp add: example_config_nodb_def example_config_def)
qed

text \<open>
  A one-off job running at the time counts as a service of the reconstructed baseline: the unchanged
  configuration is then rejected, as if a service had been removed.
\<close>

definition running_job :: service_config where
  "running_job = (plain_service ''shop'' ''migrate'' 256 256 1)\<lparr>sc_jobRun := Some \<lparr>jr_id = ''r1'', jr_requestedAt = ''t''\<rparr>\<rparr>"

definition job_running_states :: "node_services list" where
  "job_running_states = [(''a'', [published_example, running_job\<lparr>sc_project := ''shop-staging''\<rparr>])]"

lemma running_job_trips_reconstructed_lock:
  "findConfigLockViolations
      (baselineFromDeployedFootprints ''shop'' None
         (dp_footprints (buildPlacementSnapshot job_running_states ''shop-staging'')) ''t'')
      (snapshotConfigBaseline example_config_nodb ''u'') FROM_DESIRED
   = [ServiceRemoved ''migrate'']"
  by code_simp

end
