(* ===== verification/Store.thy ===== *)
theory Store
  imports Prelude
begin

text \<open>
  The state bucket and its optimistic updates (\<open>packages/cli/src/aws/s3-state.ts\<close> and the retry loops
  of the commands). S3 itself is third-party: the bucket is a map from keys to documents, an object's
  ETag is the digest of its content, and a conditional write or delete fails with 412 when the current
  object does not match, as S3 documents. Every read-modify-write of the program has one shape: read,
  decide, write on the condition that the object is still the one read, retry when it is not. It is
  \<open>cas_loop\<close> over the client's operations; other writers are a schedule of arbitrary changes of the
  bucket before every read and before every write.

  The locale \<open>object_store\<close> states what the loop needs of the client, and proves that a loop that
  returns has acted on the object in one instant; it is interpreted on the model's \<open>getJson\<close>,
  \<open>putJson\<close> and \<open>deleteObject\<close>.
\<close>

section \<open>The bucket\<close>

type_synonym 'd bucket = "string \<Rightarrow> 'd option"

text \<open>The ETag of a document: its digest, for which the model takes the document itself.\<close>

definition etag_of :: "'d \<Rightarrow> 'd" where "etag_of d = d"

datatype 'e write_condition = IfMatch 'e | IfNoneMatch | Always

definition getJson :: "'d bucket \<Rightarrow> string \<Rightarrow> ('d \<times> 'd) option" where
  "getJson s key = map_option (\<lambda>d. (d, etag_of d)) (s key)"

text \<open>\<open>None\<close> is the error of a failed precondition.\<close>

definition putJson :: "'d bucket \<Rightarrow> string \<Rightarrow> 'd \<Rightarrow> 'd write_condition \<Rightarrow> 'd bucket option" where
  "putJson s key d c =
     (case c of
        IfMatch e \<Rightarrow> if map_option etag_of (s key) = Some e then Some (s(key := Some d)) else None
      | IfNoneMatch \<Rightarrow> if s key = None then Some (s(key := Some d)) else None
      | Always \<Rightarrow> Some (s(key := Some d)))"

definition deleteObject :: "'d bucket \<Rightarrow> string \<Rightarrow> 'd \<Rightarrow> 'd bucket option" where
  "deleteObject s key e = (if map_option etag_of (s key) = Some e then Some (s(key := None)) else None)"

section \<open>The retry loop\<close>

text \<open>What an attempt decides from the object it read.\<close>

datatype ('d, 'e, 'r) decision =
    Finish 'r
  | Fail 'e
  | Write 'd 'r
  | Delete 'r

text \<open>
  Attempt \<open>i\<close> of the loop: other writers act (\<open>interfere (2 * i)\<close>), the object is read, the attempt
  decides; before a write they act again (\<open>interfere (2 * i + 1)\<close>). A failed precondition starts the
  next attempt. The loop ends with the result of the attempt that ended it, or with \<open>None\<close> when the
  attempts are used up. A delete is decided only for an object that was read.
\<close>

fun cas_loop ::
  "('s \<Rightarrow> string \<Rightarrow> ('d \<times> 't) option) \<Rightarrow> ('s \<Rightarrow> string \<Rightarrow> 'd \<Rightarrow> 't write_condition \<Rightarrow> 's option)
   \<Rightarrow> ('s \<Rightarrow> string \<Rightarrow> 't \<Rightarrow> 's option) \<Rightarrow> string \<Rightarrow> (nat \<Rightarrow> 'd option \<Rightarrow> ('d, 'e, 'r) decision)
   \<Rightarrow> (nat \<Rightarrow> 's \<Rightarrow> 's) \<Rightarrow> nat \<Rightarrow> nat \<Rightarrow> 's \<Rightarrow> 's \<times> ('e + 'r) option" where
  "cas_loop get put del key decide interfere i 0 s = (s, None)"
| "cas_loop get put del key decide interfere i (Suc n) s =
     (let s0 = interfere (2 * i) s; r = get s0 key; s1 = interfere (2 * i + 1) s0
      in case decide i (map_option fst r) of
           Finish x \<Rightarrow> (s0, Some (Inr x))
         | Fail e \<Rightarrow> (s0, Some (Inl e))
         | Write d x \<Rightarrow>
             (case put s1 key d (case r of Some (_, t) \<Rightarrow> IfMatch t | None \<Rightarrow> IfNoneMatch) of
                Some s2 \<Rightarrow> (s2, Some (Inr x))
              | None \<Rightarrow> cas_loop get put del key decide interfere (i + 1) n s1)
         | Delete x \<Rightarrow>
             (case r of None \<Rightarrow> (s0, Some (Inr x))
              | Some (_, t) \<Rightarrow>
                  (case del s1 key t of
                     Some s2 \<Rightarrow> (s2, Some (Inr x))
                   | None \<Rightarrow> cas_loop get put del key decide interfere (i + 1) n s1)))"

text \<open>The states other writers can bring about, starting from a given one.\<close>

definition drifted :: "(nat \<Rightarrow> 's \<Rightarrow> 's) \<Rightarrow> nat \<Rightarrow> nat \<Rightarrow> 's \<Rightarrow> 's" where
  "drifted interfere i j s = fold interfere [i..<j] s"

lemma drifted_refl [simp]: "drifted f i i s = s"
  by (simp add: drifted_def)

lemma drifted_step: "i < j \<Longrightarrow> drifted f i j s = drifted f (Suc i) j (f i s)"
  by (simp add: drifted_def upt_rec)

lemma drifted_1: "drifted f i (Suc i) s = f i s"
  by (simp add: drifted_def)

lemma drifted_2: "drifted f (2 * i) (2 * i + 2) s = f (2 * i + 1) (f (2 * i) s)"
  by (simp add: drifted_def)

lemma drifted_trans: "i \<le> j \<Longrightarrow> j \<le> k \<Longrightarrow> drifted f i k s = drifted f j k (drifted f i j s)"
proof -
  assume "i \<le> j" "j \<le> k"
  then obtain d where k: "k = j + d" by (auto dest: le_Suc_ex)
  have "[i..<k] = [i..<j] @ [j..<k]" unfolding k by (rule upt_add_eq_append [OF \<open>i \<le> j\<close>])
  then show ?thesis by (simp add: drifted_def)
qed

section \<open>The client's contract and what the loop then promises\<close>

locale object_store =
  fixes get :: "'s \<Rightarrow> string \<Rightarrow> ('d \<times> 't) option"
    and put :: "'s \<Rightarrow> string \<Rightarrow> 'd \<Rightarrow> 't write_condition \<Rightarrow> 's option"
    and del :: "'s \<Rightarrow> string \<Rightarrow> 't \<Rightarrow> 's option"
    and view :: "'s \<Rightarrow> string \<Rightarrow> 'd option"
  assumes get_view: "view s k = map_option fst (get s k)"
    and put_match: "put s k d (IfMatch t) = Some s' \<Longrightarrow> get s0 k = Some (d0, t) \<Longrightarrow> view s k = Some d0"
    and put_none: "put s k d IfNoneMatch = Some s' \<Longrightarrow> view s k = None"
    and put_view: "put s k d c = Some s' \<Longrightarrow> view s' = (view s)(k := Some d)"
    and del_match: "del s k t = Some s' \<Longrightarrow> get s0 k = Some (d0, t) \<Longrightarrow> view s k = Some d0"
    and del_view: "del s k t = Some s' \<Longrightarrow> view s' = (view s)(k := None)"
    and put_unchanged: "get s k = Some (d0, t) \<Longrightarrow> put s k d (IfMatch t) \<noteq> None"
    and put_absent: "get s k = None \<Longrightarrow> put s k d IfNoneMatch \<noteq> None"
begin

text \<open>
  A loop that returns a result acted at one instant: in the state \<open>s1\<close> that the others had brought
  about by then, the decision was taken on the very object that \<open>s1\<close> held, and the loop changed
  nothing but that object, as decided.
\<close>

lemma cas_loop_linearizable:
  assumes "cas_loop get put del key decide interfere i n s = (s', Some (Inr x))"
  shows "\<exists>a j s1. i \<le> a \<and> a < i + n \<and> 2 * i \<le> j \<and> s1 = drifted interfere (2 * i) j s \<and>
    (case decide a (view s1 key) of
       Finish y \<Rightarrow> y = x \<and> s' = s1
     | Fail e \<Rightarrow> False
     | Write d y \<Rightarrow> y = x \<and> view s' = (view s1)(key := Some d)
     | Delete y \<Rightarrow> y = x \<and> view s' = (view s1)(key := None))"
  using assms
proof (induction n arbitrary: i s)
  case (Suc n)
  let ?s0 = "interfere (2 * i) s"
  let ?s1 = "interfere (2 * i + 1) ?s0"
  have d0: "?s0 = drifted interfere (2 * i) (Suc (2 * i)) s" by (simp add: drifted_1)
  have d1: "?s1 = drifted interfere (2 * i) (2 * i + 2) s" by (rule drifted_2 [symmetric])
  have retry: ?case if r: "cas_loop get put del key decide interfere (i + 1) n ?s1 = (s', Some (Inr x))"
  proof -
    from Suc.IH [OF r] obtain a j s2 where a: "i + 1 \<le> a" "a < i + 1 + n" "2 * (i + 1) \<le> j"
      and s2: "s2 = drifted interfere (2 * (i + 1)) j ?s1"
      and c: "case decide a (view s2 key) of Finish y \<Rightarrow> y = x \<and> s' = s2 | Fail e \<Rightarrow> False
        | Write d y \<Rightarrow> y = x \<and> view s' = (view s2)(key := Some d)
        | Delete y \<Rightarrow> y = x \<and> view s' = (view s2)(key := None)" by blast
    have "s2 = drifted interfere (2 * i) j s"
      using drifted_trans [of "2 * i" "2 * i + 2" j interfere s] a(3) s2 d1 by simp
    with a c show ?case by (intro exI [of _ a] exI [of _ j] exI [of _ s2]) simp
  qed
  have stop: ?case if "s2 = drifted interfere (2 * i) j s" "2 * i \<le> j"
    "case decide i (view s2 key) of Finish y \<Rightarrow> y = x \<and> s' = s2 | Fail e \<Rightarrow> False
        | Write d y \<Rightarrow> y = x \<and> view s' = (view s2)(key := Some d)
        | Delete y \<Rightarrow> y = x \<and> view s' = (view s2)(key := None)" for s2 j
    using that by (intro exI [of _ i] exI [of _ j] exI [of _ s2]) simp
  obtain r where r: "get ?s0 key = r" by blast
  have v0: "map_option fst r = view ?s0 key" by (simp add: get_view r)
  note run = Suc.prems [simplified Let_def cas_loop.simps(2) r v0]
  show ?case
  proof (cases "decide i (view ?s0 key)")
    case (Finish y)
    with run show ?thesis by (intro stop [OF d0]) auto
  next
    case (Fail e)
    with run show ?thesis by simp
  next
    case w: (Write d y)
    let ?c = "case r of Some (_, t) \<Rightarrow> IfMatch t | None \<Rightarrow> IfNoneMatch"
    show ?thesis
    proof (cases "put ?s1 key d ?c")
      case None
      with run w have "cas_loop get put del key decide interfere (i + 1) n ?s1 = (s', Some (Inr x))" by simp
      then show ?thesis by (rule retry)
    next
      case (Some s2)
      have "view ?s1 key = view ?s0 key"
      proof (cases r)
        case None
        with Some v0 put_none [of ?s1 key d s2] show ?thesis by simp
      next
        case rr: (Some p)
        obtain dd t where p: "p = (dd, t)" by (cases p)
        with put_match [of ?s1 key d t s2 ?s0 dd] Some rr v0 r show ?thesis by simp
      qed
      with w run Some put_view [OF Some] show ?thesis by (intro stop [OF d1]) auto
    qed
  next
    case w: (Delete y)
    show ?thesis
    proof (cases r)
      case None
      from None w run have e: "y = x" "s' = ?s0" by simp_all
      have "view s' = (view ?s0)(key := None)" using e(2) None v0 by (simp add: fun_upd_idem)
      with w e show ?thesis by (intro stop [OF d0]) auto
    next
      case rr: (Some p)
      obtain dd t where p: "p = (dd, t)" by (cases p)
      show ?thesis
      proof (cases "del ?s1 key t")
        case None
        with run w rr p have "cas_loop get put del key decide interfere (i + 1) n ?s1 = (s', Some (Inr x))" by simp
        then show ?thesis by (rule retry)
      next
        case (Some s2)
        have "view ?s1 key = view ?s0 key"
          using del_match [OF Some, of ?s0 dd] rr p v0 r by simp
        with w run rr p Some del_view [OF Some] show ?thesis by (intro stop [OF d1]) auto
      qed
    qed
  qed
qed simp

text \<open>Without other writers the first attempt ends the loop.\<close>

lemma cas_loop_alone:
  assumes "\<And>j t. interfere j t = t" and "0 < n"
    and del: "\<And>t d. get s key = Some (d, t) \<Longrightarrow> del s key t \<noteq> None"
  shows "\<exists>s' o'. cas_loop get put del key decide interfere i n s = (s', Some o') \<and>
    (case decide i (view s key) of
       Finish y \<Rightarrow> o' = Inr y \<and> s' = s
     | Fail e \<Rightarrow> o' = Inl e \<and> s' = s
     | Write d y \<Rightarrow> o' = Inr y \<and> view s' = (view s)(key := Some d)
     | Delete y \<Rightarrow> o' = Inr y \<and> view s' = (view s)(key := None))"
proof -
  obtain m where n: "n = Suc m" using assms(2) by (cases n) auto
  obtain r where r: "get s key = r" by blast
  have v: "map_option fst r = view s key" by (simp add: get_view r)
  show ?thesis
  proof (cases "decide i (view s key)")
    case (Write d y)
    let ?c = "case r of Some (_, t) \<Rightarrow> IfMatch t | None \<Rightarrow> IfNoneMatch"
    have "put s key d ?c \<noteq> None"
      using put_unchanged [of s key] put_absent [of s key] r by (cases r) auto
    then obtain s2 where s2: "put s key d ?c = Some s2" by auto
    with Write put_view [OF s2] show ?thesis by (simp add: n assms(1) r v Let_def)
  next
    case (Delete y)
    show ?thesis
    proof (cases r)
      case None
      with v have "view s key = None" by simp
      with Delete None r show ?thesis by (simp add: n assms(1) Let_def fun_upd_idem)
    next
      case (Some p)
      obtain dd t where p: "p = (dd, t)" by (cases p)
      with del [of dd t] r Some obtain s2 where s2: "del s key t = Some s2" by auto
      have "view s key = Some dd" using v Some p by simp
      with Delete s2 Some p r del_view [OF s2] show ?thesis by (simp add: n assms(1) Let_def)
    qed
  qed (simp_all add: n assms(1) r v Let_def)
qed

end

interpretation s3: object_store getJson putJson deleteObject "\<lambda>s. s"
  by unfold_locales
    (auto simp: getJson_def putJson_def deleteObject_def etag_of_def fun_eq_iff option.map_comp comp_def
        option.map_ident
      split: write_condition.splits if_splits option.splits)

end
