(* ===== verification/Iso_Time.thy ===== *)
theory Iso_Time
  imports Cron
begin

text \<open>
  Timestamps: \<open>new Date(ms).toISOString()\<close> and \<open>Date.parse\<close> of what it prints. What \<open>Date.parse\<close> makes of
  any other text is left to the implementation by the language's standard, so the definitions that read
  foreign timestamps take the parser as an argument; \<open>iso_parse\<close> is one such parser.
\<close>

definition pad :: "nat \<Rightarrow> nat \<Rightarrow> string" where
  "pad w n = replicate (w - length (show_nat n)) CHR ''0'' @ show_nat n"

definition iso_year :: "int \<Rightarrow> string" where
  "iso_year y =
     (if 0 \<le> y \<and> y \<le> 9999 then pad 4 (nat y)
      else (if y < 0 then ''-'' else ''+'') @ pad 6 (nat (abs y)))"

definition toISOString :: "int \<Rightarrow> string" where
  "toISOString ms =
     (let (y, m, d) = utc_date ms
      in iso_year y @ ''-'' @ pad 2 (nat (m + 1)) @ ''-'' @ pad 2 (nat d) @ ''T''
         @ pad 2 (nat (getUTCHours ms)) @ '':'' @ pad 2 (nat (getUTCMinutes ms)) @ '':''
         @ pad 2 (nat (ms div 1000 mod 60)) @ ''.'' @ pad 3 (nat (ms mod 1000)) @ ''Z'')"

text \<open>The time of a date and a time of day.\<close>

definition make_time :: "int \<Rightarrow> int \<Rightarrow> int \<Rightarrow> int \<Rightarrow> int \<Rightarrow> int \<Rightarrow> int \<Rightarrow> int" where
  "make_time y m d h mi s ms =
     (day_from_year y + sum_list (take (nat m) (month_days y)) + d - 1) * DAY_MS
     + h * HOUR_MS + mi * MINUTE_MS + s * SECOND_MS + ms"

definition field :: "nat \<Rightarrow> nat \<Rightarrow> string \<Rightarrow> int" where
  "field i w s = int (digits_val (take w (drop i s)))"

definition iso_shape :: "string \<Rightarrow> bool" where
  "iso_shape s \<longleftrightarrow> length s = 24
     \<and> list_all (\<lambda>(i, w). list_all is_digit (take w (drop i s)))
         [(0, 4), (5, 2), (8, 2), (11, 2), (14, 2), (17, 2), (20, 3)]
     \<and> list_all (\<lambda>(i, c). s ! i = c)
         [(4, CHR ''-''), (7, CHR ''-''), (10, CHR ''T''), (13, CHR '':''), (16, CHR '':''), (19, CHR ''.''),
          (23, CHR ''Z'')]"

definition iso_parse :: "string \<Rightarrow> int option" where
  "iso_parse s =
     (if \<not> iso_shape s then None
      else let y = field 0 4 s; m = field 5 2 s; d = field 8 2 s; h = field 11 2 s; mi = field 14 2 s; se = field 17 2 s
           in if 1 \<le> m \<and> m \<le> 12 \<and> 1 \<le> d \<and> d \<le> month_days y ! nat (m - 1) \<and> h < 24 \<and> mi < 60 \<and> se < 60
              then Some (make_time y (m - 1) d h mi se (field 20 3 s)) else None)"

section \<open>Printing and parsing\<close>

lemma length_show_nat: "n < 10 ^ w \<Longrightarrow> 0 < w \<Longrightarrow> length (show_nat n) \<le> w"
proof (induction w arbitrary: n)
  case (Suc w)
  show ?case
  proof (cases "n < 10")
    case True
    then show ?thesis by (simp add: show_nat.simps)
  next
    case False
    with Suc.prems have "n div 10 < 10 ^ w" "0 < w" by (auto simp: less_mult_imp_div_less intro!: Nat.gr0I)
    with Suc.IH [of "n div 10"] False show ?thesis by (simp add: show_nat.simps [of n])
  qed
qed simp

lemma length_pad: "n < 10 ^ w \<Longrightarrow> 0 < w \<Longrightarrow> length (pad w n) = w"
  using length_show_nat [of n w] by (simp add: pad_def)

lemma digits_val_zeros: "digits_val (replicate k CHR ''0'' @ s) = digits_val s"
  by (induction k) (simp_all add: digits_val_def digit_val_def)

lemma digits_val_pad [simp]: "digits_val (pad w n) = n"
  by (simp add: pad_def digits_val_zeros)

lemma pad_digits [simp]: "list_all is_digit (pad w n)"
proof -
  have "is_digit CHR ''0''" by code_simp
  then show ?thesis using show_nat_digits [of n] by (auto simp: pad_def list_all_iff)
qed

lemma time_of_day:
  "ms = utc_day ms * DAY_MS + getUTCHours ms * HOUR_MS + getUTCMinutes ms * MINUTE_MS
        + (ms div 1000 mod 60) * SECOND_MS + ms mod 1000"
proof -
  define a where "a = ms div 1000"
  define b where "b = a div 60"
  define c where "c = b div 60"
  have m: "x div (k * l) = x div k div l" if "0 \<le> l" for x k l :: int
    using that by (rule zdiv_zmult2_eq)
  have d: "ms div 60000 = b" "ms div 3600000 = c" "ms div 86400000 = c div 24"
    unfolding a_def b_def c_def m [symmetric, OF zero_le_numeral] by simp_all
  have e: "ms = 1000 * a + ms mod 1000" "a = 60 * b + a mod 60" "b = 60 * c + b mod 60" "c = 24 * (c div 24) + c mod 24"
    unfolding a_def b_def c_def by (rule mult_div_mod_eq [symmetric])+
  show ?thesis
    unfolding utc_day_def getUTCHours_def getUTCMinutes_def time_defs d a_def [symmetric]
    using e by linarith
qed

lemma time_fields_bounds:
  "0 \<le> getUTCHours ms" "getUTCHours ms < 24" "0 \<le> getUTCMinutes ms" "getUTCMinutes ms < 60"
  "0 \<le> ms div 1000 mod 60" "ms div 1000 mod 60 < 60" "0 \<le> ms mod 1000" "ms mod 1000 < (1000 :: int)"
  by (simp_all add: getUTCHours_def getUTCMinutes_def)

lemma day_from_year_mono: "y \<le> z \<Longrightarrow> day_from_year y \<le> day_from_year z"
proof (induction z rule: int_ge_induct)
  case (step z)
  then show ?case using day_from_year_step [of z] by auto
qed simp

lemma four_digit_year:
  assumes "utc_date ms = (y, m, d)" and "- 62167219200000 \<le> ms" and "ms < 253402300800000"
  shows "0 \<le> y \<and> y \<le> 9999"
proof -
  have y: "y = year_from_day (utc_day ms)"
    using assms(1) by (auto simp: utc_date_def Let_def split: prod.splits)
  have u: "- 719528 \<le> utc_day ms" "utc_day ms < 2932897"
    using zdiv_mono1 [OF assms(2), of DAY_MS] zdiv_mono1 [of ms 253402300799999 DAY_MS] assms(3)
    by (simp_all add: utc_day_def DAY_MS_def)
  have e: "day_from_year 0 = - 719528" "day_from_year 10000 = 2932897" by code_simp+
  have "0 < y + 1"
  proof (rule ccontr)
    assume "\<not> 0 < y + 1"
    then have "day_from_year (y + 1) \<le> day_from_year 0" by (intro day_from_year_mono) simp
    with year_from_day_correct [of "utc_day ms"] y u e show False by simp
  qed
  moreover have "y < 10000"
  proof (rule ccontr)
    assume "\<not> y < 10000"
    then have "day_from_year 10000 \<le> day_from_year y" by (intro day_from_year_mono) simp
    with year_from_day_correct [of "utc_day ms"] y u e show False by simp
  qed
  ultimately show ?thesis by simp
qed

lemma iso_parse_fields:
  assumes l: "length Y = 4" "length Mo = 2" "length D = 2" "length H = 2" "length Mi = 2" "length S = 2" "length Ms = 3"
    and d: "list_all is_digit Y" "list_all is_digit Mo" "list_all is_digit D" "list_all is_digit H"
      "list_all is_digit Mi" "list_all is_digit S" "list_all is_digit Ms"
    and v: "1 \<le> digits_val Mo" "digits_val Mo \<le> 12" "1 \<le> digits_val D"
      "int (digits_val D) \<le> month_days (int (digits_val Y)) ! (digits_val Mo - 1)"
      "digits_val H < 24" "digits_val Mi < 60" "digits_val S < 60"
  shows "iso_parse (Y @ ''-'' @ Mo @ ''-'' @ D @ ''T'' @ H @ '':'' @ Mi @ '':'' @ S @ ''.'' @ Ms @ ''Z'') =
    Some (make_time (int (digits_val Y)) (int (digits_val Mo) - 1) (int (digits_val D)) (int (digits_val H))
      (int (digits_val Mi)) (int (digits_val S)) (int (digits_val Ms)))"
proof -
  let ?s = "Y @ ''-'' @ Mo @ ''-'' @ D @ ''T'' @ H @ '':'' @ Mi @ '':'' @ S @ ''.'' @ Ms @ ''Z''"
  have t: "take 4 (drop 0 ?s) = Y" "take 2 (drop 5 ?s) = Mo" "take 2 (drop 8 ?s) = D" "take 2 (drop 11 ?s) = H"
    "take 2 (drop 14 ?s) = Mi" "take 2 (drop 17 ?s) = S" "take 3 (drop 20 ?s) = Ms"
    using l by simp_all
  have n: "?s ! 4 = CHR ''-''" "?s ! 7 = CHR ''-''" "?s ! 10 = CHR ''T''" "?s ! 13 = CHR '':''" "?s ! 16 = CHR '':''"
    "?s ! 19 = CHR ''.''" "?s ! 23 = CHR ''Z''" "length ?s = 24"
    using l by (simp_all add: nth_append)
  have shape: "iso_shape ?s" unfolding iso_shape_def list.pred_inject prod.case t n using d by simp
  have f: "field 0 4 ?s = int (digits_val Y)" "field 5 2 ?s = int (digits_val Mo)" "field 8 2 ?s = int (digits_val D)"
    "field 11 2 ?s = int (digits_val H)" "field 14 2 ?s = int (digits_val Mi)" "field 17 2 ?s = int (digits_val S)"
    "field 20 3 ?s = int (digits_val Ms)"
    unfolding field_def t by (rule refl)+
  have "nat (int (digits_val Mo) - 1) = digits_val Mo - 1" by simp
  with v shape show ?thesis unfolding iso_parse_def f Let_def by simp
qed

text \<open>
  A timestamp survives the round trip through the documents: parsing what \<open>toISOString\<close> prints
  gives back the time, for every time of the years 0 to 9999.
\<close>

theorem iso_roundtrip:
  assumes "- 62167219200000 \<le> ms" and "ms < 253402300800000"
  shows "iso_parse (toISOString ms) = Some ms"
proof -
  obtain y m d where u: "utc_date ms = (y, m, d)" by (metis prod_cases3)
  note y = four_digit_year [OF u assms]
  note c = utc_date_correct [OF u]
  note b = time_fields_bounds [of ms]
  have "\<forall>n \<in> set (month_days y). n \<le> 31" by (simp add: month_days_def)
  moreover have "nat m < length (month_days y)" using c by (simp add: month_days_def nat_less_iff)
  then have "month_days y ! nat m \<in> set (month_days y)" by (rule nth_mem)
  ultimately have d31: "d \<le> 31" using c by fastforce
  have md: "Suc 0 \<le> nat (m + 1)" "nat (m + 1) \<le> 12" "Suc 0 \<le> nat d" "nat (m + 1) - Suc 0 = nat m"
    using c by auto
  have s: "toISOString ms = pad 4 (nat y) @ ''-'' @ pad 2 (nat (m + 1)) @ ''-'' @ pad 2 (nat d) @ ''T''
      @ pad 2 (nat (getUTCHours ms)) @ '':'' @ pad 2 (nat (getUTCMinutes ms)) @ '':''
      @ pad 2 (nat (ms div 1000 mod 60)) @ ''.'' @ pad 3 (nat (ms mod 1000)) @ ''Z''"
    using y by (simp add: toISOString_def u iso_year_def)
  have "iso_parse (toISOString ms) = Some (make_time y m d (getUTCHours ms) (getUTCMinutes ms)
      (ms div 1000 mod 60) (ms mod 1000))"
    unfolding s
    by (subst iso_parse_fields) (use y c b d31 md in \<open>simp_all add: length_pad nat_less_iff\<close>)
  also have "make_time y m d (getUTCHours ms) (getUTCMinutes ms) (ms div 1000 mod 60) (ms mod 1000) = ms"
    using c time_of_day [of ms] by (simp add: make_time_def)
  finally show ?thesis .
qed

lemma iso_roundtrip_witness: "iso_parse (toISOString 1709210096789) = Some 1709210096789"
  by (rule iso_roundtrip) simp_all

end
