(* ===== verification/Js_Numbers.thy ===== *)
theory Js_Numbers
  imports Complex_Main Prelude "HOL-Library.Log_Nat"
begin

text \<open>
  JavaScript's numbers. Counts, shares, megabytes and times are integers below \<open>2 ^ 53\<close>, on which
  double arithmetic is exact: they are \<open>int\<close>. Quotients and averages are doubles: they are rationals
  rounded to 53 significant bits, ties to even, by \<open>fl64\<close> (the exponents the program reaches stay far
  from the ends of the range, so under- and overflow are not modelled). \<open>NaN\<close> is \<open>None\<close>.
\<close>

definition pow2 :: "int \<Rightarrow> rat" where
  "pow2 e = (if 0 \<le> e then 2 ^ nat e else 1 / 2 ^ nat (- e))"

definition half_even :: "rat \<Rightarrow> int" where
  "half_even y =
     (let n = \<lfloor>y\<rfloor>; r = y - of_int n
      in if r < 1 / 2 then n else if 1 / 2 < r then n + 1 else if even n then n else n + 1)"

text \<open>The exponent \<open>e\<close> with \<open>2 ^ e \<le> |x| < 2 ^ (e + 1)\<close>, from the bit lengths of the quotient.\<close>

definition fl_exponent :: "rat \<Rightarrow> int" where
  "fl_exponent x =
     (let (p, q) = quotient_of x; e = int (floorlog 2 (nat \<bar>p\<bar>)) - int (floorlog 2 (nat q))
      in if \<bar>x\<bar> < pow2 e then e - 1 else e)"

definition fl64 :: "rat \<Rightarrow> rat" where
  "fl64 x = (if x = 0 then 0
     else (let u = pow2 (fl_exponent x - 52) in of_int (half_even (x / u)) * u))"

definition fadd :: "rat \<Rightarrow> rat \<Rightarrow> rat" where
  "fadd x y = fl64 (x + y)"

definition fmul :: "rat \<Rightarrow> rat \<Rightarrow> rat" where
  "fmul x y = fl64 (x * y)"

text \<open>
  Division: \<open>0 / 0\<close> is \<open>NaN\<close>; a nonzero number over zero is an infinity, which no comparison of the
  program distinguishes from \<open>NaN\<close> where it can arise, so both are \<open>None\<close>.
\<close>

definition fdiv :: "rat \<Rightarrow> rat \<Rightarrow> rat option" where
  "fdiv x y = (if y = 0 then None else Some (fl64 (x / y)))"

lemma pow2_pos [simp]: "0 < pow2 e"
  by (simp add: pow2_def)

lemma half_even_mono: "x \<le> y \<Longrightarrow> half_even x \<le> half_even y"
proof -
  assume xy: "x \<le> y"
  then have f: "\<lfloor>x\<rfloor> \<le> \<lfloor>y\<rfloor>" by (rule floor_mono)
  show ?thesis
  proof (cases "\<lfloor>x\<rfloor> = \<lfloor>y\<rfloor>")
    case True
    with xy show ?thesis by (auto simp: half_even_def Let_def)
  next
    case False
    with f have "\<lfloor>x\<rfloor> + 1 \<le> \<lfloor>y\<rfloor>" by simp
    moreover have "half_even x \<le> \<lfloor>x\<rfloor> + 1" "\<lfloor>y\<rfloor> \<le> half_even y"
      by (auto simp: half_even_def Let_def)
    ultimately show ?thesis by simp
  qed
qed

lemma half_even_of_int [simp]: "half_even (of_int n) = n"
  by (simp add: half_even_def Let_def)

lemma fl64_0 [simp]: "fl64 0 = 0"
  by (simp add: fl64_def)

lemma half_even_nonneg: "0 \<le> y \<Longrightarrow> 0 \<le> half_even y"
  using half_even_mono [of 0 y] half_even_of_int [of 0] by simp

lemma fl64_nonneg: "0 \<le> x \<Longrightarrow> 0 \<le> fl64 x"
  using half_even_nonneg [of "x / pow2 (fl_exponent x - 52)"]
  by (simp add: fl64_def Let_def less_imp_le)

end
