(* ===== verification/Status.thy ===== *)
theory Status
  imports Iso_Time Service_Config Js_Numbers
begin

text \<open>
  What a node reports (\<open>packages/shared/src/status.ts\<close>), the staleness of a heartbeat and the detection of
  an agent that is behind the published protocol (\<open>packages/cli/src/deploy/protocol-mismatch.ts\<close>).
  A status document that the schema rejects is \<open>None\<close> where the code's reader catches the error.
\<close>

section \<open>The status document\<close>

datatype service_state = SPending | SPulling | SStarting | SRunning | SStopping | SError | SStopped
datatype job_run_state = JPending | JRunning | JSucceeded | JFailed

record replica_status =
  rs_index :: int
  rs_containerId :: "string option"
  rs_hostPort :: "int option"
  rs_state :: service_state
  rs_image :: string
  rs_healthy :: bool

record cron_run_status =
  cr_lastRunAt :: "string option"
  cr_lastExitCode :: "int option"
  cr_nextRunAt :: "string option"

record job_run_status =
  jrs_id :: string
  jrs_requestedAt :: string
  jrs_startedAt :: "string option"
  jrs_finishedAt :: "string option"
  jrs_exitCode :: "int option"
  jrs_state :: job_run_state
  jrs_message :: string

record database_backup_entry =
  be_name :: string
  be_lastSuccessAt :: "string option"
  be_sizeBytes :: "int option"

record database_backup_status =
  bs_lastRunAt :: "string option"
  bs_lastSuccessAt :: "string option"
  bs_lastError :: "string option"
  bs_nextRunAt :: "string option"
  bs_databases :: "database_backup_entry list"

record service_status =
  ss_project :: string
  ss_service :: string
  ss_image :: string
  ss_state :: service_state
  ss_message :: string
  ss_containerId :: "string option"
  ss_replicas :: "replica_status list"
  ss_desiredReplicas :: int
  ss_runningReplicas :: int
  ss_cron :: "cron_run_status option"
  ss_backup :: "database_backup_status option"
  ss_jobRun :: "job_run_status option"
  ss_updatedAt :: string

record caddy_status =
  cy_managed :: bool
  cy_lastReloadAt :: "string option"
  cy_error :: "string option"

record edge_route_status =
  er_domain :: string
  er_upstreams :: int

text \<open>The host sample holds finite numbers of the language, which are rationals.\<close>

record host_sample =
  hs_cpuPercent :: rat
  hs_memoryUsedMb :: rat
  hs_memoryTotalMb :: rat
  hs_sampledAt :: string

record node_status =
  ns_nodeId :: string
  ns_agentId :: string
  ns_lastSeen :: string
  ns_agentVersion :: string
  ns_services :: "service_status list"
  ns_caddy :: caddy_status
  ns_edgeRoutes :: "edge_route_status list"
  ns_host :: "host_sample option"

text \<open>What the schema admits of a host sample.\<close>

definition valid_host_sample :: "host_sample \<Rightarrow> bool" where
  "valid_host_sample h \<longleftrightarrow> 0 \<le> hs_cpuPercent h \<and> hs_cpuPercent h \<le> 100
     \<and> 0 \<le> hs_memoryUsedMb h \<and> 0 \<le> hs_memoryTotalMb h"

definition hostMemoryPercent :: "host_sample \<Rightarrow> rat" where
  "hostMemoryPercent h =
     (if 0 < hs_memoryTotalMb h
      then fmul (case fdiv (hs_memoryUsedMb h) (hs_memoryTotalMb h) of None \<Rightarrow> 0 | Some q \<Rightarrow> q) 100 else 0)"

section \<open>Staleness\<close>

text \<open>\<open>date_parse\<close> is \<open>Date.parse\<close>, \<open>None\<close> its \<open>NaN\<close>.\<close>

definition isHeartbeatStale :: "(string \<Rightarrow> int option) \<Rightarrow> string \<Rightarrow> int \<Rightarrow> int \<Rightarrow> bool" where
  "isHeartbeatStale date_parse lastSeen nowMs staleMs =
     (case date_parse lastSeen of None \<Rightarrow> True | Some seen \<Rightarrow> staleMs < nowMs - seen)"

text \<open>
  An agent that writes a heartbeat every \<open>LIVENESS_HEARTBEAT_MS\<close> is never stale, even when a write is late
  by as much again.
\<close>

lemma live_agent_not_stale:
  assumes "date_parse (toISOString seen) = Some seen" and "nowMs - seen \<le> 2 * LIVENESS_HEARTBEAT_MS"
  shows "\<not> isHeartbeatStale date_parse (toISOString seen) nowMs HEARTBEAT_STALE_MS"
  using assms by (simp add: isHeartbeatStale_def LIVENESS_HEARTBEAT_MS_def HEARTBEAT_STALE_MS_def)

section \<open>Protocol mismatch\<close>

text \<open>
  \<open>/unsupported desired\.json version\s+(\d+)\s+\(expected\s+(\d+)\)/i\<close>, searched from the left. The
  classes that meet at a border share no character, so the greedy reading is the only one.
\<close>

definition ascii_lower :: "char \<Rightarrow> char" where
  "ascii_lower c = (if is_upper c then char_of (of_char c + 32 :: nat) else c)"

definition strip_ci :: "string \<Rightarrow> string \<Rightarrow> string option" where
  "strip_ci p s =
     (if length p \<le> length s \<and> map ascii_lower (take (length p) s) = p then Some (drop (length p) s) else None)"

definition some_ws :: "string \<Rightarrow> string option" where
  "some_ws s = (if takeWhile is_ws s = [] then None else Some (dropWhile is_ws s))"

definition some_digits :: "string \<Rightarrow> (string \<times> string) option" where
  "some_digits s = (if takeWhile is_digit s = [] then None else Some (takeWhile is_digit s, dropWhile is_digit s))"

definition mismatch_at :: "string \<Rightarrow> (string \<times> string) option" where
  "mismatch_at s =
     Option.bind (strip_ci ''unsupported desired.json version'' s) (\<lambda>s1.
     Option.bind (some_ws s1) (\<lambda>s2.
     Option.bind (some_digits s2) (\<lambda>(published, s3).
     Option.bind (some_ws s3) (\<lambda>s4.
     Option.bind (strip_ci ''(expected'' s4) (\<lambda>s5.
     Option.bind (some_ws s5) (\<lambda>s6.
     Option.bind (some_digits s6) (\<lambda>(expected, s7).
     Option.bind (strip_ci '')'' s7) (\<lambda>_. Some (published, expected)))))))))"

fun search_mismatch :: "string \<Rightarrow> (string \<times> string) option" where
  "search_mismatch [] = mismatch_at []"
| "search_mismatch (c # s) = (case mismatch_at (c # s) of Some r \<Rightarrow> Some r | None \<Rightarrow> search_mismatch s)"

record protocol_mismatch =
  pm_nodeId :: string
  pm_publishedVersion :: nat
  pm_agentExpectedVersion :: nat
  pm_message :: string

text \<open>An empty error text is falsy and counts as none. The version numbers are read exactly.\<close>

definition detectProtocolMismatch :: "string \<Rightarrow> node_status option \<Rightarrow> protocol_mismatch option" where
  "detectProtocolMismatch nodeId status =
     (case status of None \<Rightarrow> None
      | Some st \<Rightarrow>
          (case cy_error (ns_caddy st) of None \<Rightarrow> None
           | Some error \<Rightarrow>
               if error = [] then None
               else (case search_mismatch error of None \<Rightarrow> None
                     | Some (p, e) \<Rightarrow> Some \<lparr>pm_nodeId = nodeId, pm_publishedVersion = digits_val p,
                         pm_agentExpectedVersion = digits_val e, pm_message = trim error\<rparr>)))"

text \<open>The message the agent writes is recognised, with both versions, wherever it stands in the error text.\<close>

definition agent_reject_message :: "nat \<Rightarrow> nat \<Rightarrow> string" where
  "agent_reject_message n m =
     ''unsupported desired.json version '' @ show_nat n @ '' (expected '' @ show_nat m @ '')''"

lemma takeWhile_show_nat:
  assumes "\<not> is_digit c"
  shows "takeWhile is_digit (show_nat n @ c # s) = show_nat n" "dropWhile is_digit (show_nat n @ c # s) = c # s"
  using show_nat_digits [of n] assms by (simp_all add: takeWhile_append2 dropWhile_append2 list_all_iff)

lemma strip_ci_prefix: "map ascii_lower p = p \<Longrightarrow> strip_ci p (p @ s) = Some s"
  by (simp add: strip_ci_def)

lemma ws_before_number: "some_ws (CHR '' '' # show_nat n @ s) = Some (show_nat n @ s)"
proof -
  obtain c r where c: "show_nat n = c # r" by (cases "show_nat n") auto
  then have "is_digit c" using show_nat_digits [of n] by simp
  then show ?thesis using digit_not_ws [of c] by (simp add: some_ws_def c is_ws_def)
qed

lemma mismatch_at_agent: "mismatch_at (agent_reject_message n m @ t) = Some (show_nat n, show_nat m)"
proof -
  let ?lit = "''unsupported desired.json version''"
  have l: "map ascii_lower ?lit = ?lit" "map ascii_lower ''(expected'' = ''(expected''" "map ascii_lower '')'' = '')''"
    by code_simp+
  have d: "\<not> is_digit CHR '' ''" "\<not> is_digit CHR '')''" "is_ws CHR '' ''" "\<not> is_ws CHR ''(''" by code_simp+
  have e: "agent_reject_message n m @ t =
      ?lit @ CHR '' '' # show_nat n @ CHR '' '' # ''(expected'' @ CHR '' '' # show_nat m @ '')'' @ t"
    by (simp add: agent_reject_message_def)
  have p: "some_digits (show_nat n @ CHR '' '' # s) = Some (show_nat n, CHR '' '' # s)" for s
    using takeWhile_show_nat [OF d(1)] by (simp add: some_digits_def)
  have q: "some_digits (show_nat m @ '')'' @ s) = Some (show_nat m, '')'' @ s)" for s
    using takeWhile_show_nat [OF d(2)] by (simp add: some_digits_def)
  have w: "some_ws (CHR '' '' # ''(expected'' @ s) = Some (''(expected'' @ s)" for s
    using d by (simp add: some_ws_def)
  show ?thesis
    unfolding mismatch_at_def e strip_ci_prefix [OF l(1)] Option.bind.simps ws_before_number p prod.case w
      strip_ci_prefix [OF l(2)] q strip_ci_prefix [OF l(3)] by (rule refl)
qed

lemma search_mismatch_suffix:
  "mismatch_at s = Some r \<Longrightarrow> search_mismatch (p @ s) \<noteq> None"
proof (induction p)
  case Nil
  then show ?case by (cases s) auto
qed (simp split: option.splits)

lemma reject_message_detected:
  assumes "cy_error (ns_caddy st) = Some (p @ agent_reject_message n m @ t)"
  shows "detectProtocolMismatch node (Some st) \<noteq> None"
  using assms search_mismatch_suffix [OF mismatch_at_agent, of p n m t]
  by (auto simp: detectProtocolMismatch_def agent_reject_message_def split: option.splits)

text \<open>Documents for concrete examples.\<close>

definition quiet_status :: "string \<Rightarrow> string \<Rightarrow> service_status list \<Rightarrow> node_status" where
  "quiet_status nodeId seen ss =
     \<lparr>ns_nodeId = nodeId, ns_agentId = agentIdForNode nodeId, ns_lastSeen = seen, ns_agentVersion = ''1'',
      ns_services = ss, ns_caddy = \<lparr>cy_managed = False, cy_lastReloadAt = None, cy_error = None\<rparr>,
      ns_edgeRoutes = [], ns_host = None\<rparr>"

definition running_replica :: "string \<Rightarrow> string \<Rightarrow> replica_status" where
  "running_replica container img =
     \<lparr>rs_index = 0, rs_containerId = Some container, rs_hostPort = None, rs_state = SRunning, rs_image = img,
      rs_healthy = True\<rparr>"

definition running_service :: "string \<Rightarrow> string \<Rightarrow> replica_status list \<Rightarrow> service_status" where
  "running_service project service rs =
     \<lparr>ss_project = project, ss_service = service, ss_image = ''img'', ss_state = SRunning, ss_message = [],
      ss_containerId = None, ss_replicas = rs, ss_desiredReplicas = int (length rs),
      ss_runningReplicas = int (length rs), ss_cron = None, ss_backup = None, ss_jobRun = None,
      ss_updatedAt = []\<rparr>"

end
