(* ===== verification/Cluster.thy ===== *)
theory Cluster
  imports Names Js_Numbers
begin

text \<open>
  The topology document \<open>cluster.json\<close> (\<open>packages/shared/src/cluster.ts\<close>) and the autoscaling policy it holds
  (the schema of \<open>autoscale.ts\<close>). Percentages are numbers of the language, so rationals.
\<close>

record autoscale_policy =
  ap_minNodes :: int
  ap_maxNodes :: int
  ap_scaleOutPercent :: rat
  ap_scaleInPercent :: rat
  ap_cooldownSeconds :: int
  ap_lastScaleAt :: "string option"

definition valid_policy :: "autoscale_policy \<Rightarrow> bool" where
  "valid_policy p \<longleftrightarrow> 1 \<le> ap_minNodes p \<and> ap_minNodes p \<le> 100 \<and> 1 \<le> ap_maxNodes p \<and> ap_maxNodes p \<le> 100
     \<and> 1 \<le> ap_scaleOutPercent p \<and> ap_scaleOutPercent p \<le> 100
     \<and> 0 \<le> ap_scaleInPercent p \<and> ap_scaleInPercent p \<le> 99 \<and> 0 \<le> ap_cooldownSeconds p
     \<and> ap_minNodes p \<le> ap_maxNodes p \<and> ap_scaleInPercent p < ap_scaleOutPercent p"

record cluster_config =
  cc_clusterId :: string
  cc_defaultEdge :: "string option"
  cc_region :: string
  cc_createdAt :: string
  cc_createdBy :: string
  cc_autoscale :: "autoscale_policy option"
  cc_snsTopicArn :: "string option"

definition valid_cluster_config :: "cluster_config \<Rightarrow> bool" where
  "valid_cluster_config c \<longleftrightarrow> LABEL_REGEX (cc_clusterId c) \<and> cc_defaultEdge c \<noteq> Some [] \<and> cc_region c \<noteq> []
     \<and> (case cc_autoscale c of None \<Rightarrow> True | Some p \<Rightarrow> valid_policy p) \<and> cc_snsTopicArn c \<noteq> Some []"

end
