(* ===== verification/Preview.thy ===== *)
theory Preview
  imports Iso_Time Names
begin

text \<open>
  The markers that make environments enumerable, destroyable and prunable
  (\<open>packages/shared/src/preview.ts\<close>). \<open>date_parse\<close> is \<open>Date.parse\<close>, \<open>None\<close> its \<open>NaN\<close>.
\<close>

section \<open>The marker\<close>

definition OWNER_REGEX :: "string \<Rightarrow> bool" where
  "OWNER_REGEX s \<longleftrightarrow> s \<noteq> [] \<and> is_lower_alnum (hd s) \<and> list_all (\<lambda>c. is_lower_alnum c \<or> c = CHR ''-'') (tl s)"

record preview_marker =
  pm_version :: int
  pm_project :: string
  pm_component :: "string option"
  pm_env :: string
  pm_owner :: string
  pm_createdAt :: string
  pm_updatedAt :: string
  pm_expiresAt :: "string option"
  pm_domains :: "string list"

definition valid_preview_marker :: "preview_marker \<Rightarrow> bool" where
  "valid_preview_marker m \<longleftrightarrow> pm_version m = PREVIEW_MARKER_VERSION \<and> LABEL_REGEX (pm_project m)
     \<and> (case pm_component m of None \<Rightarrow> True | Some c \<Rightarrow> LABEL_REGEX c) \<and> LABEL_REGEX (pm_env m)
     \<and> OWNER_REGEX (pm_owner m) \<and> pm_createdAt m \<noteq> [] \<and> pm_updatedAt m \<noteq> []
     \<and> list_all HOSTNAME_REGEX (pm_domains m)
     \<and> pm_owner m = envProject (componentOwner (pm_project m) (pm_component m)) (Some (pm_env m))"

section \<open>Time to live\<close>

definition TTL_MIN_MS :: int where "TTL_MIN_MS = MINUTE_MS"
definition TTL_MAX_MS :: int where "TTL_MAX_MS = 90 * DAY_MS"

definition TTL_UNIT_MS :: "char \<Rightarrow> int option" where
  "TTL_UNIT_MS c = (if c = CHR ''m'' then Some MINUTE_MS else if c = CHR ''h'' then Some HOUR_MS
     else if c = CHR ''d'' then Some DAY_MS else None)"

definition MAX_SAFE_INTEGER :: int where "MAX_SAFE_INTEGER = 2 ^ 53 - 1"

definition parsePreviewTtlMs :: "string \<Rightarrow> int option" where
  "parsePreviewTtlMs raw =
     (if raw = [] \<or> \<not> all_digits (butlast raw) then None
      else case TTL_UNIT_MS (last raw) of
             None \<Rightarrow> None
           | Some unit_ms \<Rightarrow>
               (let n = int (digits_val (butlast raw)); ms = n * unit_ms
                in if n > MAX_SAFE_INTEGER \<or> n < 1 then None
                   else if ms > MAX_SAFE_INTEGER \<or> ms < TTL_MIN_MS \<or> TTL_MAX_MS < ms then None else Some ms))"

section \<open>Writing and pruning markers\<close>

record build_marker_input =
  bm_project :: string
  bm_component :: "string option"
  bm_env :: string
  bm_now :: string
  bm_ttlMs :: "int option"
  bm_domains :: "string list"
  bm_prior :: "preview_marker option"

text \<open>\<open>None\<close> is the \<open>RangeError\<close> of printing an invalid date.\<close>

definition buildPreviewMarker :: "(string \<Rightarrow> int option) \<Rightarrow> build_marker_input \<Rightarrow> preview_marker option" where
  "buildPreviewMarker date_parse i =
     (case (case bm_ttlMs i of
              Some ttl \<Rightarrow> map_option (\<lambda>now. Some (toISOString (now + ttl))) (date_parse (bm_now i))
            | None \<Rightarrow> Some (Option.bind (bm_prior i) pm_expiresAt)) of
        None \<Rightarrow> None
      | Some expires \<Rightarrow>
          Some \<lparr>pm_version = PREVIEW_MARKER_VERSION, pm_project = bm_project i, pm_component = bm_component i,
                pm_env = bm_env i,
                pm_owner = envProject (componentOwner (bm_project i) (bm_component i)) (Some (bm_env i)),
                pm_createdAt = (case bm_prior i of None \<Rightarrow> bm_now i | Some p \<Rightarrow> pm_createdAt p),
                pm_updatedAt = bm_now i, pm_expiresAt = expires, pm_domains = sort (js_dedup (bm_domains i))\<rparr>)"

text \<open>A marker whose deadline cannot be read counts as expired.\<close>

definition isPreviewExpired :: "(string \<Rightarrow> int option) \<Rightarrow> preview_marker \<Rightarrow> int \<Rightarrow> bool" where
  "isPreviewExpired date_parse m nowMs =
     (case pm_expiresAt m of
        None \<Rightarrow> False
      | Some e \<Rightarrow> (case date_parse e of None \<Rightarrow> True | Some deadline \<Rightarrow> deadline < nowMs))"

definition planPreviewPrune ::
  "(string \<Rightarrow> int option) \<Rightarrow> preview_marker list \<Rightarrow> int \<Rightarrow> preview_marker list \<times> preview_marker list" where
  "planPreviewPrune date_parse markers nowMs =
     fold (\<lambda>m (expired, kept). if isPreviewExpired date_parse m nowMs then (expired @ [m], kept) else (expired, kept @ [m]))
       markers ([], [])"

definition selectPreviewMarkers ::
  "preview_marker list \<Rightarrow> string \<Rightarrow> string option \<Rightarrow> string option \<Rightarrow> preview_marker list" where
  "selectPreviewMarkers markers env project component =
     filter (\<lambda>m. pm_env m = env \<and> (project = None \<or> Some (pm_project m) = project)
       \<and> (project = None \<or> component = None \<or> pm_component m = component)) markers"

section \<open>Facts\<close>

lemma ttl_units: "TTL_UNIT_MS c = Some u \<Longrightarrow> MINUTE_MS \<le> u"
  by (auto simp: TTL_UNIT_MS_def time_defs split: if_splits)

lemma label_is_owner: "LABEL_REGEX s \<Longrightarrow> OWNER_REGEX s"
  using label_chars [of s] label_ends [of s]
  by (cases s) (auto simp: OWNER_REGEX_def list_all_iff)

lemma owner_append: "OWNER_REGEX a \<Longrightarrow> list_all (\<lambda>c. is_lower_alnum c \<or> c = CHR ''-'') b \<Longrightarrow> OWNER_REGEX (a @ b)"
  by (cases a) (auto simp: OWNER_REGEX_def)

lemma label_tail: "LABEL_REGEX s \<Longrightarrow> list_all (\<lambda>c. is_lower_alnum c \<or> c = CHR ''-'') s"
  using label_chars [of s] by (auto simp: list_all_iff)

lemma prune_fold:
  "fold (\<lambda>m (expired, kept). if P m then (expired @ [m], kept) else (expired, kept @ [m])) ms (es, ks)
     = (es @ filter P ms, ks @ filter (\<lambda>m. \<not> P m) ms)"
  by (induction ms arbitrary: es ks) auto

lemma prune_splits:
  "planPreviewPrune date_parse ms now =
     (filter (\<lambda>m. isPreviewExpired date_parse m now) ms, filter (\<lambda>m. \<not> isPreviewExpired date_parse m now) ms)"
  by (simp add: planPreviewPrune_def prune_fold)

end
