(* ===== verification/Project_Index.thy ===== *)
theory Project_Index
  imports Preview
begin

text \<open>
  The component registry of a logical project (\<open>packages/shared/src/project-registry.ts\<close>): the document
  that maps a project to its components and the owner each deploys under.
\<close>

definition DEFAULT_COMPONENT :: string where "DEFAULT_COMPONENT = ''default''"

record component_entry =
  ce_component :: string
  ce_owner :: string
  ce_services :: "string list"
  ce_updatedAt :: string

record project_index =
  px_version :: int
  px_project :: string
  px_components :: "component_entry list"
  px_updatedAt :: string

definition valid_component_entry :: "component_entry \<Rightarrow> bool" where
  "valid_component_entry e \<longleftrightarrow> LABEL_REGEX (ce_component e) \<and> OWNER_REGEX (ce_owner e)
     \<and> [] \<notin> set (ce_services e) \<and> ce_updatedAt e \<noteq> []"

definition valid_project_index :: "project_index \<Rightarrow> bool" where
  "valid_project_index x \<longleftrightarrow> px_version x = PROJECT_INDEX_VERSION \<and> LABEL_REGEX (px_project x)
     \<and> list_all valid_component_entry (px_components x) \<and> px_updatedAt x \<noteq> []"

definition registryComponentName :: "string option \<Rightarrow> string" where
  "registryComponentName component = (case component of None \<Rightarrow> DEFAULT_COMPONENT | Some c \<Rightarrow> c)"

record upsert_component_input =
  uc_project :: string
  uc_component :: "string option"
  uc_services :: "string list"
  uc_now :: string

definition upsertComponentEntry :: "project_index option \<Rightarrow> upsert_component_input \<Rightarrow> project_index" where
  "upsertComponentEntry index i =
     (let n = registryComponentName (uc_component i);
          entry = \<lparr>ce_component = n, ce_owner = componentOwner (uc_project i) (uc_component i),
                   ce_services = sort (js_dedup (uc_services i)), ce_updatedAt = uc_now i\<rparr>;
          others = filter (\<lambda>c. ce_component c \<noteq> n) (case index of None \<Rightarrow> [] | Some x \<Rightarrow> px_components x)
      in \<lparr>px_version = PROJECT_INDEX_VERSION, px_project = uc_project i,
          px_components = sort_by (\<lambda>a b. locale_le (ce_component a) (ce_component b)) (others @ [entry]),
          px_updatedAt = uc_now i\<rparr>)"

text \<open>\<open>None\<close>: the last component is gone and the object is deleted.\<close>

definition removeComponentEntry :: "project_index \<Rightarrow> string option \<Rightarrow> string \<Rightarrow> project_index option" where
  "removeComponentEntry index component now =
     (let remaining = filter (\<lambda>c. ce_component c \<noteq> registryComponentName component) (px_components index)
      in if remaining = [] then None else Some (index\<lparr>px_components := remaining, px_updatedAt := now\<rparr>))"

definition findCrossComponentServiceConflicts ::
  "project_index option \<Rightarrow> string option \<Rightarrow> string list \<Rightarrow> (string \<times> string) list" where
  "findCrossComponentServiceConflicts index component services =
     (case index of
        None \<Rightarrow> []
      | Some x \<Rightarrow>
          concat (map (\<lambda>entry. if ce_component entry = registryComponentName component then []
            else map (\<lambda>s. (s, ce_component entry)) (filter (\<lambda>s. s \<in> set (ce_services entry)) services)) (px_components x)))"

section \<open>Facts\<close>

text \<open>The services registered for a component, over all its entries.\<close>

definition claimed :: "project_index option \<Rightarrow> string \<Rightarrow> string set" where
  "claimed index n = {s. \<exists>e \<in> set (case index of None \<Rightarrow> [] | Some x \<Rightarrow> px_components x). ce_component e = n \<and> s \<in> set (ce_services e)}"

lemma claimed_upsert:
  "claimed (Some (upsertComponentEntry index i)) n =
     (if n = registryComponentName (uc_component i) then set (uc_services i) else claimed index n)"
  by (auto simp: claimed_def upsertComponentEntry_def Let_def)

lemma claimed_remove:
  "claimed (removeComponentEntry x component now) n =
     (if n = registryComponentName component then {} else claimed (Some x) n)"
  by (auto simp: claimed_def removeComponentEntry_def Let_def filter_empty_conv)

lemma no_conflicts:
  "findCrossComponentServiceConflicts index component services = [] \<longleftrightarrow>
     (\<forall>n. n \<noteq> registryComponentName component \<longrightarrow> claimed index n \<inter> set services = {})"
proof (cases index)
  case (Some x)
  have "findCrossComponentServiceConflicts index component services = [] \<longleftrightarrow>
      (\<forall>e\<in>set (px_components x). ce_component e \<noteq> registryComponentName component \<longrightarrow>
         (\<forall>s\<in>set services. s \<notin> set (ce_services e)))"
    by (simp add: findCrossComponentServiceConflicts_def Some ball_Un filter_empty_conv) blast
  also have "\<dots> \<longleftrightarrow> (\<forall>n. n \<noteq> registryComponentName component \<longrightarrow> claimed index n \<inter> set services = {})"
    by (auto simp: claimed_def Some disjoint_iff)
  finally show ?thesis .
qed (simp add: findCrossComponentServiceConflicts_def claimed_def)

text \<open>
  Deploys that pass the check keep the service names of a project's components apart: the invariant of the
  shared ECR namespace.
\<close>

definition names_apart :: "project_index option \<Rightarrow> bool" where
  "names_apart index \<longleftrightarrow> (\<forall>m n. m \<noteq> n \<longrightarrow> claimed index m \<inter> claimed index n = {})"

lemma upsert_apart:
  assumes "names_apart index" and "findCrossComponentServiceConflicts index (uc_component i) (uc_services i) = []"
  shows "names_apart (Some (upsertComponentEntry index i))"
proof -
  have "claimed index n \<inter> set (uc_services i) = {}" if "n \<noteq> registryComponentName (uc_component i)" for n
    using assms(2) that by (simp add: no_conflicts)
  with assms(1) show ?thesis by (simp add: names_apart_def claimed_upsert Int_commute)
qed

lemma remove_apart: "names_apart (Some x) \<Longrightarrow> names_apart (removeComponentEntry x component now)"
  by (auto simp: names_apart_def claimed_remove disjoint_iff)

lemma upsert_one_entry:
  "distinct (map ce_component (case index of None \<Rightarrow> [] | Some x \<Rightarrow> px_components x))
   \<Longrightarrow> distinct (map ce_component (px_components (upsertComponentEntry index i)))"
proof -
  assume d: "distinct (map ce_component (case index of None \<Rightarrow> [] | Some x \<Rightarrow> px_components x))"
  have "distinct (map f (insert_by le x ys)) \<longleftrightarrow> f x \<notin> f ` set ys \<and> distinct (map f ys)" for f :: "component_entry \<Rightarrow> string" and le x ys
    by (induction le x ys rule: insert_by.induct) auto
  then have "distinct (map f (sort_by le ys)) \<longleftrightarrow> distinct (map f ys)" for f :: "component_entry \<Rightarrow> string" and le ys
    by (induction ys) (simp_all add: sort_by_def set_sort_by [unfolded sort_by_def])
  with d show ?thesis
    by (auto simp: upsertComponentEntry_def Let_def distinct_map_filter_key)
qed

end
