(* ===== verification/Deploy_Events.thy ===== *)
theory Deploy_Events
  imports Iso_Time
begin

text \<open>The append-only deploy history (\<open>packages/shared/src/events.ts\<close>).\<close>

datatype deploy_kind = KBuild | KRestart | KImage | KMigrate

record event_service =
  es_service :: string
  es_image :: string
  es_replicas :: int

record deploy_event =
  ev_version :: int
  ev_at :: string
  ev_by :: string
  ev_cluster :: string
  ev_project :: string
  ev_env :: "string option"
  ev_kind :: deploy_kind
  ev_services :: "event_service list"
  ev_converged :: "bool option"

definition valid_deploy_event :: "deploy_event \<Rightarrow> bool" where
  "valid_deploy_event e \<longleftrightarrow> ev_version e = DEPLOY_EVENT_VERSION \<and> ev_at e \<noteq> [] \<and> ev_by e \<noteq> []
     \<and> ev_cluster e \<noteq> [] \<and> ev_project e \<noteq> [] \<and> ev_services e \<noteq> []
     \<and> list_all (\<lambda>s. es_service s \<noteq> [] \<and> es_image s \<noteq> [] \<and> 0 \<le> es_replicas s) (ev_services e)"

definition buildDeployEvent ::
  "string \<Rightarrow> string \<Rightarrow> string \<Rightarrow> string \<Rightarrow> string option \<Rightarrow> deploy_kind \<Rightarrow> event_service list \<Rightarrow> bool option \<Rightarrow> deploy_event" where
  "buildDeployEvent stamp caller cluster project env kind services converged =
     \<lparr>ev_version = DEPLOY_EVENT_VERSION, ev_at = stamp, ev_by = caller, ev_cluster = cluster, ev_project = project,
      ev_env = env, ev_kind = kind,
      ev_services = sort_by (\<lambda>a b. locale_le (es_service a) (es_service b)) services, ev_converged = converged\<rparr>"

lemma built_event_valid:
  assumes "stamp \<noteq> []" "caller \<noteq> []" "cluster \<noteq> []" "project \<noteq> []" "services \<noteq> []"
    and "\<forall>s\<in>set services. es_service s \<noteq> [] \<and> es_image s \<noteq> [] \<and> 0 \<le> es_replicas s"
  shows "valid_deploy_event (buildDeployEvent stamp caller cluster project env kind services converged)"
proof -
  have "sort_by le services \<noteq> []" for le using assms(5) length_sort_by [of le services] by (metis length_0_conv)
  with assms show ?thesis by (auto simp: valid_deploy_event_def buildDeployEvent_def list_all_iff)
qed

end
