(* ===== verification/Documents.thy ===== *)
theory Documents
  imports Footprint Config_Lock Store Status Cluster Project_Index Deploy_Events
begin

text \<open>
  The JSON documents of the state bucket and the parsers that read them back (\<open>parse...\<close> of
  \<open>packages/shared/src\<close>). A schema is third-party machinery: what it admits beyond the field types is the
  predicate \<open>valid_...\<close>, and a parse that fails is \<open>None\<close>.
\<close>

record edge_config =
  ec_nodeId :: string
  ec_domains :: "string list"
  ec_updatedAt :: string

text \<open>\<open>UnreadableJson\<close> stands for every JSON document that no schema accepts and that has no list of domains.\<close>

datatype document =
    DesiredJson desired_state
  | EdgeJson edge_config
  | BaselineJson config_baseline
  | NodeJson node_entry
  | StatusJson node_status
  | ClusterJson cluster_config
  | PreviewJson preview_marker
  | IndexJson project_index
  | EventJson deploy_event
  | UnreadableJson string

definition valid_desired_state :: "desired_state \<Rightarrow> bool" where
  "valid_desired_state d \<longleftrightarrow> ds_version d = PROTOCOL_VERSION \<and> ds_nodeId d \<noteq> []
     \<and> list_all valid_service_config (ds_services d)"

definition parseDesiredState :: "document \<Rightarrow> desired_state option" where
  "parseDesiredState doc =
     (case doc of DesiredJson d \<Rightarrow> if valid_desired_state d then Some d else None | _ \<Rightarrow> None)"

definition valid_baseline_service :: "baseline_service \<Rightarrow> bool" where
  "valid_baseline_service s \<longleftrightarrow> cb_name s \<noteq> [] \<and> cb_node s \<noteq> Some [] \<and> cb_edge s \<noteq> Some []
     \<and> opt_all (\<lambda>ns. ns \<noteq> [] \<and> [] \<notin> set ns) (cb_nodes s) \<and> cb_cron s \<noteq> Some []
     \<and> opt_all (\<lambda>x. x \<in> {''even'', ''capacity''}) (cb_schedule s)
     \<and> opt_all (\<lambda>x. x \<in> {''split'', ''co-located'', ''auto''}) (cb_topology s)
     \<and> 1 \<le> cb_replicas s \<and> 1 \<le> cb_cpu s \<and> 1 \<le> cb_memory s
     \<and> cb_domain s \<noteq> Some [] \<and> cb_domainPattern s \<noteq> Some []
     \<and> opt_all (\<lambda>p. 1 \<le> p \<and> p \<le> 65535) (cb_port s) \<and> opt_all valid_health_check (cb_healthCheck s)
     \<and> valid_rollout (cb_rollout s) \<and> list_all valid_volume_decl (cb_volumes s)
     \<and> opt_all (\<lambda>(engine, version). engine = ''postgres'' \<and> POSTGRES_VERSION_REGEX version) (cb_database s)"

definition valid_baseline :: "config_baseline \<Rightarrow> bool" where
  "valid_baseline b \<longleftrightarrow> bl_version b = CONFIG_BASELINE_VERSION \<and> bl_project b \<noteq> [] \<and> bl_component b \<noteq> Some []
     \<and> bl_domainPattern b \<noteq> Some [] \<and> bl_services b \<noteq> [] \<and> list_all valid_baseline_service (bl_services b)"

definition parseConfigBaseline :: "document \<Rightarrow> config_baseline option" where
  "parseConfigBaseline doc =
     (case doc of BaselineJson b \<Rightarrow> if valid_baseline b then Some b else None | _ \<Rightarrow> None)"

definition valid_service_status :: "service_status \<Rightarrow> bool" where
  "valid_service_status s \<longleftrightarrow> 0 \<le> ss_desiredReplicas s \<and> 0 \<le> ss_runningReplicas s
     \<and> list_all (\<lambda>r. 0 \<le> rs_index r) (ss_replicas s)
     \<and> opt_all (\<lambda>b. list_all (\<lambda>d. opt_all (\<lambda>n. 0 \<le> n) (be_sizeBytes d)) (bs_databases b)) (ss_backup s)"

definition valid_node_status :: "node_status \<Rightarrow> bool" where
  "valid_node_status s \<longleftrightarrow> list_all valid_service_status (ns_services s)
     \<and> list_all (\<lambda>r. 0 \<le> er_upstreams r) (ns_edgeRoutes s) \<and> opt_all valid_host_sample (ns_host s)"

definition parseNodeStatus :: "document \<Rightarrow> node_status option" where
  "parseNodeStatus doc = (case doc of StatusJson s \<Rightarrow> if valid_node_status s then Some s else None | _ \<Rightarrow> None)"

definition parseNodeRegistryEntry :: "document \<Rightarrow> node_entry option" where
  "parseNodeRegistryEntry doc = (case doc of NodeJson e \<Rightarrow> if valid_node_entry e then Some e else None | _ \<Rightarrow> None)"

definition parseClusterConfig :: "document \<Rightarrow> cluster_config option" where
  "parseClusterConfig doc = (case doc of ClusterJson c \<Rightarrow> if valid_cluster_config c then Some c else None | _ \<Rightarrow> None)"

definition parsePreviewMarker :: "document \<Rightarrow> preview_marker option" where
  "parsePreviewMarker doc = (case doc of PreviewJson m \<Rightarrow> if valid_preview_marker m then Some m else None | _ \<Rightarrow> None)"

definition parseProjectIndex :: "document \<Rightarrow> project_index option" where
  "parseProjectIndex doc = (case doc of IndexJson x \<Rightarrow> if valid_project_index x then Some x else None | _ \<Rightarrow> None)"

definition parseDeployEvent :: "document \<Rightarrow> deploy_event option" where
  "parseDeployEvent doc = (case doc of EventJson e \<Rightarrow> if valid_deploy_event e then Some e else None | _ \<Rightarrow> None)"

lemma parse_Some:
  "parseDesiredState doc = Some d \<longleftrightarrow> doc = DesiredJson d \<and> valid_desired_state d"
  "parseNodeStatus doc = Some st \<longleftrightarrow> doc = StatusJson st \<and> valid_node_status st"
  "parseNodeRegistryEntry doc = Some e \<longleftrightarrow> doc = NodeJson e \<and> valid_node_entry e"
  "parseClusterConfig doc = Some c \<longleftrightarrow> doc = ClusterJson c \<and> valid_cluster_config c"
  "parsePreviewMarker doc = Some m \<longleftrightarrow> doc = PreviewJson m \<and> valid_preview_marker m"
  "parseProjectIndex doc = Some x \<longleftrightarrow> doc = IndexJson x \<and> valid_project_index x"
  "parseDeployEvent doc = Some v \<longleftrightarrow> doc = EventJson v \<and> valid_deploy_event v"
  by (cases doc; simp add: parseDesiredState_def parseNodeStatus_def parseNodeRegistryEntry_def parseClusterConfig_def
      parsePreviewMarker_def parseProjectIndex_def parseDeployEvent_def; blast)+

type_synonym state_bucket = "document bucket"
type_synonym schedule = "nat \<Rightarrow> state_bucket \<Rightarrow> state_bucket"

end
