(* ===== verification/Publish.thy ===== *)
theory Publish
  imports Documents
begin

text \<open>
  The read-modify-write operations on the state bucket: \<open>publishDesired\<close> and \<open>publishEdgeConfig\<close> of
  \<open>packages/cli/src/commands/deploy.ts\<close>, \<open>publishRemoval\<close>, \<open>pruneEdgeConfig\<close>, \<open>updateBaseline\<close> and
  \<open>applyUndeploy\<close> of \<open>commands/destroy.ts\<close>, \<open>publishJobRun\<close> and \<open>removeJobRun\<close> of \<open>commands/job.ts\<close>.
  Every one is \<open>cas_loop\<close> with its own decision. \<open>clock i\<close> is the time the attempt reads while it works on the
  document and \<open>stamp i\<close> the time it writes into it; \<open>interfere\<close> is what other writers do meanwhile.
\<close>

section \<open>The retry loops\<close>

definition edge_domains :: "document option \<Rightarrow> string list" where
  "edge_domains doc = (case doc of Some (EdgeJson e) \<Rightarrow> ec_domains e | _ \<Rightarrow> [])"

definition MAX_PUBLISH_RETRIES :: nat where "MAX_PUBLISH_RETRIES = 5"

datatype publish_error =
    MergeRefused merge_error
  | OverCapacity string int int
  | UnparseableDesired
  | PublishRaced string
  | JobAlreadyRunning string string

text \<open>A loop whose exhaustion is an error.\<close>

definition retry_or_fail ::
  "string \<Rightarrow> string \<Rightarrow> (nat \<Rightarrow> document option \<Rightarrow> (document, publish_error, 'r) decision) \<Rightarrow> schedule
   \<Rightarrow> state_bucket \<Rightarrow> state_bucket \<times> (publish_error + 'r)" where
  "retry_or_fail nodeId key decide interfere s =
     (case cas_loop getJson putJson deleteObject key decide interfere 0 MAX_PUBLISH_RETRIES s of
        (s', Some r) \<Rightarrow> (s', r)
      | (s', None) \<Rightarrow> (s', Inl (PublishRaced nodeId)))"

section \<open>Deploying to a node\<close>

definition current_state :: "string \<Rightarrow> document option \<Rightarrow> string \<Rightarrow> desired_state" where
  "current_state nodeId existing now =
     (case existing of
        Some raw \<Rightarrow> parseDesiredStateOrEmpty nodeId (parseDesiredState raw) now
      | None \<Rightarrow> emptyDesiredState nodeId now)"

definition assertCapacity :: "string \<Rightarrow> node_entry \<Rightarrow> capacity_demand list \<Rightarrow> publish_error option" where
  "assertCapacity nodeId node merged =
     (let r = checkCapacity \<lparr>ci_totalCpu = ne_totalCpu node, ci_totalMemory = ne_totalMemory node,
                ci_reservedCpu = ne_reservedCpu node, ci_reservedMemory = ne_reservedMemory node, ci_services = merged\<rparr>
      in if cr_ok r then None else Some (OverCapacity nodeId (cr_cpuOverBy r) (cr_memoryOverBy r)))"

definition publish_decision ::
  "string \<Rightarrow> node_entry \<Rightarrow> string \<Rightarrow> service_config list \<Rightarrow> bool \<Rightarrow> string \<Rightarrow> string \<Rightarrow> document option
   \<Rightarrow> (document, publish_error, unit) decision" where
  "publish_decision nodeId node project incoming partial now stamp existing =
     (let state = current_state nodeId existing now;
          merged = (if partial then mergeProjectServicesPartial (ds_services state) project incoming
                    else mergeProjectServices (ds_services state) project incoming)
      in case merged of
           Inl e \<Rightarrow> Fail (MergeRefused e)
         | Inr ss \<Rightarrow>
             (case assertCapacity nodeId node (demandsOf ss) of
                Some e \<Rightarrow> Fail e
              | None \<Rightarrow> Write (DesiredJson \<lparr>ds_version = PROTOCOL_VERSION, ds_nodeId = nodeId, ds_updatedAt = stamp,
                                ds_services = ss\<rparr>) ()))"

definition publishDesired ::
  "aws_env \<Rightarrow> string \<Rightarrow> node_entry \<Rightarrow> string \<Rightarrow> service_config list \<Rightarrow> bool \<Rightarrow> (nat \<Rightarrow> string) \<Rightarrow> (nat \<Rightarrow> string)
   \<Rightarrow> schedule \<Rightarrow> state_bucket \<Rightarrow> state_bucket \<times> (publish_error + unit)" where
  "publishDesired aws nodeId node project incoming partial clock stamp interfere s =
     retry_or_fail nodeId (desiredKey (aws_clusterId aws) nodeId)
       (\<lambda>i existing. publish_decision nodeId node project incoming partial (clock i) (stamp i) existing) interfere s"

text \<open>The edge's advisory list; it gives up silently.\<close>

definition publishEdgeConfig ::
  "aws_env \<Rightarrow> string \<Rightarrow> string list \<Rightarrow> (nat \<Rightarrow> string) \<Rightarrow> schedule \<Rightarrow> state_bucket \<Rightarrow> state_bucket" where
  "publishEdgeConfig aws edgeId domains stamp interfere s =
     fst (cas_loop getJson putJson deleteObject (edgeConfigKey (aws_clusterId aws) edgeId)
       (\<lambda>i existing. (Write (EdgeJson \<lparr>ec_nodeId = edgeId,
            ec_domains = sort (js_dedup (edge_domains existing @ domains)), ec_updatedAt = stamp i\<rparr>) ()
          :: (document, unit, unit) decision)) interfere 0 MAX_PUBLISH_RETRIES s)"

section \<open>Removing from a node\<close>

definition removal_decision ::
  "string \<Rightarrow> string \<Rightarrow> string list option \<Rightarrow> string \<Rightarrow> document option \<Rightarrow> (document, publish_error, unit) decision" where
  "removal_decision nodeId ownerProject removeSet stamp existing =
     (case existing of
        None \<Rightarrow> Finish ()
      | Some raw \<Rightarrow>
          (case parseDesiredState raw of
             None \<Rightarrow> Fail UnparseableDesired
           | Some state \<Rightarrow>
               (let services = servicesAfterRemoval (ds_services state) ownerProject removeSet
                in if length services = length (ds_services state) then Finish ()
                   else Write (DesiredJson \<lparr>ds_version = PROTOCOL_VERSION, ds_nodeId = nodeId,
                          ds_updatedAt = stamp, ds_services = services\<rparr>) ())))"

definition publishRemoval ::
  "aws_env \<Rightarrow> string \<Rightarrow> string \<Rightarrow> string list option \<Rightarrow> (nat \<Rightarrow> string) \<Rightarrow> schedule \<Rightarrow> state_bucket
   \<Rightarrow> state_bucket \<times> (publish_error + unit)" where
  "publishRemoval aws nodeId ownerProject removeSet stamp interfere s =
     retry_or_fail nodeId (desiredKey (aws_clusterId aws) nodeId)
       (\<lambda>i existing. removal_decision nodeId ownerProject removeSet (stamp i) existing) interfere s"

definition prune_decision :: "string \<Rightarrow> string list \<Rightarrow> string \<Rightarrow> document option \<Rightarrow> (document, unit, bool) decision" where
  "prune_decision edgeId removedDomains stamp existing =
     (case existing of
        None \<Rightarrow> Finish False
      | Some _ \<Rightarrow>
          (let current = edge_domains existing; kept = filter (\<lambda>d. d \<notin> set removedDomains) current
           in if length kept = length current then Finish False
              else Write (EdgeJson \<lparr>ec_nodeId = edgeId, ec_domains = kept, ec_updatedAt = stamp\<rparr>) True))"

definition pruneEdgeConfig ::
  "aws_env \<Rightarrow> string \<Rightarrow> string list \<Rightarrow> (nat \<Rightarrow> string) \<Rightarrow> schedule \<Rightarrow> state_bucket \<Rightarrow> state_bucket \<times> bool" where
  "pruneEdgeConfig aws edgeId removedDomains stamp interfere s =
     (if removedDomains = [] then (s, False)
      else case cas_loop getJson putJson deleteObject (edgeConfigKey (aws_clusterId aws) edgeId)
                  (\<lambda>i. prune_decision edgeId removedDomains (stamp i)) interfere 0 MAX_PUBLISH_RETRIES s of
             (s', Some (Inr b)) \<Rightarrow> (s', b)
           | (s', _) \<Rightarrow> (s', False))"

definition baseline_decision :: "string list \<Rightarrow> document option \<Rightarrow> (document, unit, bool) decision" where
  "baseline_decision removedServices existing =
     (case existing of
        None \<Rightarrow> Finish False
      | Some raw \<Rightarrow>
          (case parseConfigBaseline raw of
             None \<Rightarrow> Delete True
           | Some b \<Rightarrow>
               (case removeServicesFromBaseline b removedServices of
                  None \<Rightarrow> Delete True
                | Some b' \<Rightarrow> Write (BaselineJson b') False)))"

text \<open>Removing the whole footprint makes one attempt and leaves a baseline that changed under it in place.\<close>

definition updateBaseline ::
  "aws_env \<Rightarrow> string \<Rightarrow> bool \<Rightarrow> string list \<Rightarrow> schedule \<Rightarrow> state_bucket \<Rightarrow> state_bucket \<times> bool" where
  "updateBaseline aws ownerProject removeWholeFootprint removedServices interfere s =
     (let key = configBaselineKey (aws_clusterId aws) ownerProject
      in case (if removeWholeFootprint
               then cas_loop getJson putJson deleteObject key
                      (\<lambda>_ existing. if existing = None then Finish True else Delete True :: (document, unit, bool) decision)
                      interfere 0 1 s
               else cas_loop getJson putJson deleteObject key (\<lambda>_. baseline_decision removedServices)
                      interfere 0 MAX_PUBLISH_RETRIES s) of
           (s', Some (Inr b)) \<Rightarrow> (s', b)
         | (s', _) \<Rightarrow> (s', False))"

record undeploy_result =
  ur_nodes :: "string list"
  ur_removedServices :: "string list"
  ur_baselineCleared :: bool
  ur_prunedEdges :: "string list"

text \<open>\<open>interfere k\<close> is the schedule of the others during the operation of number \<open>k\<close>.\<close>

fun removals ::
  "aws_env \<Rightarrow> string \<Rightarrow> string list option \<Rightarrow> (nat \<Rightarrow> string) \<Rightarrow> (nat \<Rightarrow> schedule) \<Rightarrow> nat \<Rightarrow> string list \<Rightarrow> state_bucket
   \<Rightarrow> state_bucket \<times> (publish_error + unit)" where
  "removals aws owner rs stamp interfere k [] s = (s, Inr ())"
| "removals aws owner rs stamp interfere k (n # ns) s =
     (case publishRemoval aws n owner rs stamp (interfere k) s of
        (s', Inl e) \<Rightarrow> (s', Inl e)
      | (s', Inr _) \<Rightarrow> removals aws owner rs stamp interfere (k + 1) ns s')"

fun prunings ::
  "aws_env \<Rightarrow> string list \<Rightarrow> (nat \<Rightarrow> string) \<Rightarrow> (nat \<Rightarrow> schedule) \<Rightarrow> nat \<Rightarrow> string list \<Rightarrow> state_bucket
   \<Rightarrow> state_bucket \<times> string list" where
  "prunings aws domains stamp interfere k [] s = (s, [])"
| "prunings aws domains stamp interfere k (e # es) s =
     (let (s', b) = pruneEdgeConfig aws e domains stamp (interfere k) s;
          (s'', ps) = prunings aws domains stamp interfere (k + 1) es s'
      in (s'', if b then e # ps else ps))"

definition applyUndeploy ::
  "aws_env \<Rightarrow> string \<Rightarrow> string list option \<Rightarrow> undeploy_plan \<Rightarrow> (nat \<Rightarrow> string) \<Rightarrow> (nat \<Rightarrow> schedule) \<Rightarrow> state_bucket
   \<Rightarrow> state_bucket \<times> (publish_error + undeploy_result)" where
  "applyUndeploy aws ownerProject servicesToRemove plan stamp interfere s =
     (let nodes = map nup_nodeId (up_nodes plan)
      in case removals aws ownerProject servicesToRemove stamp interfere 0 nodes s of
           (s1, Inl e) \<Rightarrow> (s1, Inl e)
         | (s1, Inr _) \<Rightarrow>
             (let (s2, pruned) = prunings aws (up_removedDomains plan) stamp interfere (length nodes) (up_affectedEdges plan) s1;
                  (s3, cleared) = updateBaseline aws ownerProject (servicesToRemove = None) (up_removedServices plan)
                                    (interfere (length nodes + length (up_affectedEdges plan))) s2
              in (s3, Inr \<lparr>ur_nodes = nodes, ur_removedServices = up_removedServices plan,
                           ur_baselineCleared = cleared, ur_prunedEdges = pruned\<rparr>)))"

section \<open>Job runs\<close>

definition toJobServiceConfig ::
  "aws_env \<Rightarrow> string \<Rightarrow> job_decl \<Rightarrow> string \<Rightarrow> string \<Rightarrow> string \<Rightarrow> string option \<Rightarrow> service_config" where
  "toJobServiceConfig aws ownerProject job img runId requestedAt env =
     \<lparr>sc_project = ownerProject, sc_service = jd_name job, sc_image = img, sc_cpu = jd_cpu job,
      sc_memory = jd_memory job, sc_replicas = 1, sc_env = containerEnvForDeploy (jd_env job) env,
      sc_secretRefs = secretRefsForService (jd_secrets job) (aws_clusterId aws) ownerProject (jd_name job),
      sc_restartAt = None, sc_cron = None, sc_ingress = None, sc_healthCheck = None,
      sc_rollout = \<lparr>ro_maxSurge = 1, ro_drainTimeout = ''20s'', ro_stopGrace = ''30s''\<rparr>, sc_volumes = [],
      sc_database = None, sc_backup = None, sc_jobRun = Some \<lparr>jr_id = runId, jr_requestedAt = requestedAt\<rparr>\<rparr>"

definition job_decision ::
  "string \<Rightarrow> service_config \<Rightarrow> string \<Rightarrow> string \<Rightarrow> document option \<Rightarrow> (document, publish_error, unit) decision" where
  "job_decision nodeId incoming now stamp existing =
     (let state = current_state nodeId existing now;
          running = Option.bind (find (\<lambda>s. sc_project s = sc_project incoming \<and> sc_service s = sc_service incoming)
                      (ds_services state)) sc_jobRun
      in case running of
           Some r \<Rightarrow>
             if Some (jr_id r) \<noteq> map_option jr_id (sc_jobRun incoming)
             then Fail (JobAlreadyRunning (sc_service incoming) (jr_id r))
             else (case mergeProjectServicesPartial (ds_services state) (sc_project incoming) [incoming] of
                     Inl e \<Rightarrow> Fail (MergeRefused e)
                   | Inr ss \<Rightarrow> Write (DesiredJson \<lparr>ds_version = ds_version state, ds_nodeId = nodeId,
                                 ds_updatedAt = stamp, ds_services = ss\<rparr>) ())
         | None \<Rightarrow>
             (case mergeProjectServicesPartial (ds_services state) (sc_project incoming) [incoming] of
                Inl e \<Rightarrow> Fail (MergeRefused e)
              | Inr ss \<Rightarrow> Write (DesiredJson \<lparr>ds_version = ds_version state, ds_nodeId = nodeId,
                            ds_updatedAt = stamp, ds_services = ss\<rparr>) ()))"

definition publishJobRun ::
  "aws_env \<Rightarrow> string \<Rightarrow> service_config \<Rightarrow> (nat \<Rightarrow> string) \<Rightarrow> (nat \<Rightarrow> string) \<Rightarrow> schedule \<Rightarrow> state_bucket
   \<Rightarrow> state_bucket \<times> (publish_error + unit)" where
  "publishJobRun aws nodeId incoming clock stamp interfere s =
     retry_or_fail nodeId (desiredKey (aws_clusterId aws) nodeId)
       (\<lambda>i. job_decision nodeId incoming (clock i) (stamp i)) interfere s"

definition job_removal_decision ::
  "string \<Rightarrow> string \<Rightarrow> string \<Rightarrow> string \<Rightarrow> string \<Rightarrow> string \<Rightarrow> document option \<Rightarrow> (document, publish_error, unit) decision" where
  "job_removal_decision nodeId ownerProject jobName runId now stamp existing =
     (case existing of
        None \<Rightarrow> Finish ()
      | Some raw \<Rightarrow>
          (let state = parseDesiredStateOrEmpty nodeId (parseDesiredState raw) now;
               services = filter (\<lambda>s. \<not> (sc_project s = ownerProject \<and> sc_service s = jobName
                            \<and> map_option jr_id (sc_jobRun s) = Some runId)) (ds_services state)
           in if length services = length (ds_services state) then Finish ()
              else Write (DesiredJson \<lparr>ds_version = ds_version state, ds_nodeId = nodeId, ds_updatedAt = stamp,
                     ds_services = services\<rparr>) ()))"

definition removeJobRun ::
  "aws_env \<Rightarrow> string \<Rightarrow> string \<Rightarrow> string \<Rightarrow> string \<Rightarrow> (nat \<Rightarrow> string) \<Rightarrow> (nat \<Rightarrow> string) \<Rightarrow> schedule \<Rightarrow> state_bucket
   \<Rightarrow> state_bucket \<times> (publish_error + unit)" where
  "removeJobRun aws nodeId ownerProject jobName runId clock stamp interfere s =
     retry_or_fail nodeId (desiredKey (aws_clusterId aws) nodeId)
       (\<lambda>i. job_removal_decision nodeId ownerProject jobName runId (clock i) (stamp i)) interfere s"

section \<open>What publishing promises\<close>

definition services_of :: "document option \<Rightarrow> service_config list" where
  "services_of doc = (case Option.bind doc parseDesiredState of None \<Rightarrow> [] | Some d \<Rightarrow> ds_services d)"

lemma current_state_services [simp]: "ds_services (current_state n doc now) = services_of doc"
  by (auto simp: current_state_def services_of_def parseDesiredStateOrEmpty_def emptyDesiredState_def
      split: option.splits)

text \<open>A successful operation acted on what the bucket held at one instant and changed only its document.\<close>

definition acted :: "(document, 'e, 'r) decision \<Rightarrow> string \<Rightarrow> state_bucket \<Rightarrow> state_bucket \<Rightarrow> 'r \<Rightarrow> bool" where
  "acted dec key s1 s' x \<longleftrightarrow>
     (case dec of Finish y \<Rightarrow> y = x \<and> s' = s1 | Fail e \<Rightarrow> False
      | Write d y \<Rightarrow> y = x \<and> s' = s1(key := Some d) | Delete y \<Rightarrow> y = x \<and> s' = s1(key := None))"

lemma acted_simps [simp]:
  "acted (Finish y) key s1 s' x \<longleftrightarrow> y = x \<and> s' = s1"
  "acted (Fail e) key s1 s' x \<longleftrightarrow> False"
  "acted (Write d y) key s1 s' x \<longleftrightarrow> y = x \<and> s' = s1(key := Some d)"
  "acted (Delete y) key s1 s' x \<longleftrightarrow> y = x \<and> s' = s1(key := None)"
  by (simp_all add: acted_def)

lemma cas_loop_acted:
  assumes "cas_loop getJson putJson deleteObject key decide interfere 0 n s = (s', Some (Inr x))"
  shows "\<exists>a j s1. s1 = drifted interfere 0 j s \<and> acted (decide a (s1 key)) key s1 s' x"
  using s3.cas_loop_linearizable [OF assms] unfolding acted_def by auto

lemma retry_or_fail_ok:
  assumes "retry_or_fail n key decide interfere s = (s', Inr x)"
  shows "\<exists>a j s1. s1 = drifted interfere 0 j s \<and> acted (decide a (s1 key)) key s1 s' x"
proof -
  from assms have "cas_loop getJson putJson deleteObject key decide interfere 0 MAX_PUBLISH_RETRIES s = (s', Some (Inr x))"
    by (auto simp: retry_or_fail_def split: prod.splits option.splits)
  then show ?thesis by (rule cas_loop_acted)
qed

lemma assertCapacity_ok:
  "assertCapacity nodeId node ds = None \<longleftrightarrow>
     cr_ok (checkCapacity \<lparr>ci_totalCpu = ne_totalCpu node, ci_totalMemory = ne_totalMemory node,
       ci_reservedCpu = ne_reservedCpu node, ci_reservedMemory = ne_reservedMemory node, ci_services = ds\<rparr>)"
  by (simp add: assertCapacity_def Let_def)

definition merge_for :: "bool \<Rightarrow> service_config list \<Rightarrow> string \<Rightarrow> service_config list \<Rightarrow> merge_error + service_config list" where
  "merge_for partial ex p inc = (if partial then mergeProjectServicesPartial ex p inc else mergeProjectServices ex p inc)"

lemma merge_for_simps:
  "merge_for True ex p inc = mergeProjectServicesPartial ex p inc"
  "merge_for False ex p inc = mergeProjectServices ex p inc"
  by (simp_all add: merge_for_def)

interpretation publish_merge: footprint_update p "\<lambda>ex. merge_for partial ex p inc" for p inc partial
proof (cases partial)
  case True
  then have t: "partial = True" by simp
  show "footprint_update p (\<lambda>ex. merge_for partial ex p inc)"
    unfolding t merge_for_simps by (rule partial_merge.footprint_update_axioms)
next
  case False
  then have f: "partial = False" by simp
  show "footprint_update p (\<lambda>ex. merge_for partial ex p inc)"
    unfolding f merge_for_simps by (rule full_merge.footprint_update_axioms)
qed

lemma publish_decision_cases:
  "publish_decision nodeId node project incoming partial now stamp existing =
     (case merge_for partial (services_of existing) project incoming of
        Inl e \<Rightarrow> Fail (MergeRefused e)
      | Inr ss \<Rightarrow> (case assertCapacity nodeId node (demandsOf ss) of Some e \<Rightarrow> Fail e
          | None \<Rightarrow> Write (DesiredJson \<lparr>ds_version = PROTOCOL_VERSION, ds_nodeId = nodeId, ds_updatedAt = stamp, ds_services = ss\<rparr>) ()))"
  by (simp add: publish_decision_def merge_for_def)

lemma publish_decision_writes:
  "publish_decision nodeId node project incoming partial now stamp existing \<noteq> Finish u"
  "publish_decision nodeId node project incoming partial now stamp existing \<noteq> Delete u"
  "publish_decision nodeId node project incoming partial now stamp existing = Write doc u \<longleftrightarrow>
     (\<exists>ss. merge_for partial (services_of existing) project incoming = Inr ss
        \<and> assertCapacity nodeId node (demandsOf ss) = None
        \<and> doc = DesiredJson \<lparr>ds_version = PROTOCOL_VERSION, ds_nodeId = nodeId, ds_updatedAt = stamp, ds_services = ss\<rparr>)"
  unfolding publish_decision_cases by (auto split: sum.splits option.splits)

text \<open>
  C2. No deploy is lost: whatever other writers do to the bucket while \<open>publishDesired\<close> runs, when it
  succeeds there was an instant at which it replaced the node's services by their merge with its own,
  changed nothing else, kept every service of the other projects as that instant had it, and left a node
  that passes the capacity gate.
\<close>

theorem publish_no_lost_update:
  assumes "publishDesired aws nodeId node project incoming partial clock stamp interfere s = (s', Inr ())"
  shows "\<exists>j s1 d. s1 = drifted interfere 0 j s
    \<and> s' = s1(desiredKey (aws_clusterId aws) nodeId := Some (DesiredJson d))
    \<and> ds_version d = PROTOCOL_VERSION \<and> ds_nodeId d = nodeId
    \<and> merge_for partial (services_of (s1 (desiredKey (aws_clusterId aws) nodeId))) project incoming = Inr (ds_services d)
    \<and> others project (ds_services d) = others project (services_of (s1 (desiredKey (aws_clusterId aws) nodeId)))
    \<and> cr_ok (checkCapacity \<lparr>ci_totalCpu = ne_totalCpu node, ci_totalMemory = ne_totalMemory node,
        ci_reservedCpu = ne_reservedCpu node, ci_reservedMemory = ne_reservedMemory node,
        ci_services = demandsOf (ds_services d)\<rparr>)"
proof -
  let ?key = "desiredKey (aws_clusterId aws) nodeId"
  from retry_or_fail_ok [OF assms [unfolded publishDesired_def]] obtain a j s1
    where s1: "s1 = drifted interfere 0 j s"
      and c: "acted (publish_decision nodeId node project incoming partial (clock a) (stamp a) (s1 ?key)) ?key s1 s' ()"
    by blast
  from c obtain doc u where w: "publish_decision nodeId node project incoming partial (clock a) (stamp a) (s1 ?key) = Write doc u"
    and s': "s' = s1(?key := Some doc)"
    by (cases "publish_decision nodeId node project incoming partial (clock a) (stamp a) (s1 ?key)")
      (simp_all add: publish_decision_writes(1,2))
  from w [unfolded publish_decision_writes(3)] obtain ss where m: "merge_for partial (services_of (s1 ?key)) project incoming = Inr ss"
    and cap: "assertCapacity nodeId node (demandsOf ss) = None"
    and doc: "doc = DesiredJson \<lparr>ds_version = PROTOCOL_VERSION, ds_nodeId = nodeId, ds_updatedAt = stamp a, ds_services = ss\<rparr>"
    by blast
  show ?thesis
    by (rule exI [of _ j], rule exI [of _ s1], rule exI, intro conjI, rule s1, rule s' [unfolded doc])
      (simp_all add: m publish_merge.others_kept [OF m] cap [unfolded assertCapacity_ok])
qed

text \<open>Without other writers an operation is its decision on the document.\<close>

lemma cas_alone:
  assumes "0 < n"
  shows "cas_loop getJson putJson deleteObject key decide (\<lambda>_ t. t) 0 n s =
    (case decide 0 (s key) of Finish y \<Rightarrow> (s, Some (Inr y)) | Fail e \<Rightarrow> (s, Some (Inl e))
     | Write d y \<Rightarrow> (s(key := Some d), Some (Inr y)) | Delete y \<Rightarrow> (s(key := None), Some (Inr y)))"
proof -
  have del: "getJson s key = Some (d, t) \<Longrightarrow> deleteObject s key t \<noteq> None" for t d
    by (auto simp: getJson_def deleteObject_def etag_of_def)
  from s3.cas_loop_alone [of "\<lambda>_ t. t" n s key decide 0, OF _ assms del] show ?thesis
    by (cases "decide 0 (s key)") auto
qed

lemma retry_alone:
  "retry_or_fail n key decide (\<lambda>_ t. t) s =
    (case decide 0 (s key) of Finish y \<Rightarrow> (s, Inr y) | Fail e \<Rightarrow> (s, Inl e)
     | Write d y \<Rightarrow> (s(key := Some d), Inr y) | Delete y \<Rightarrow> (s(key := None), Inr y))"
  unfolding retry_or_fail_def by (subst cas_alone) (simp_all add: MAX_PUBLISH_RETRIES_def split: decision.split)

lemma publish_alone:
  "publishDesired aws nodeId node project incoming partial clock stamp (\<lambda>_ t. t) s =
    (case merge_for partial (services_of (s (desiredKey (aws_clusterId aws) nodeId))) project incoming of
       Inl e \<Rightarrow> (s, Inl (MergeRefused e))
     | Inr ss \<Rightarrow>
         (case assertCapacity nodeId node (demandsOf ss) of
            Some e \<Rightarrow> (s, Inl e)
          | None \<Rightarrow> (s(desiredKey (aws_clusterId aws) nodeId := Some (DesiredJson \<lparr>ds_version = PROTOCOL_VERSION,
                       ds_nodeId = nodeId, ds_updatedAt = stamp 0, ds_services = ss\<rparr>)), Inr ())))"
  unfolding publishDesired_def retry_alone publish_decision_cases
  by (simp split: sum.split option.split)

text \<open>
  A deploy that nobody disturbs succeeds exactly when the merge is allowed and the merged services
  fit the node; otherwise it says why and leaves the bucket as it was.
\<close>

theorem publish_undisturbed:
  "publishDesired aws nodeId node project incoming partial clock stamp (\<lambda>_ t. t) s =
    (case merge_for partial (services_of (s (desiredKey (aws_clusterId aws) nodeId))) project incoming of
       Inl e \<Rightarrow> (s, Inl (MergeRefused e))
     | Inr ss \<Rightarrow>
         (case assertCapacity nodeId node (demandsOf ss) of
            Some e \<Rightarrow> (s, Inl e)
          | None \<Rightarrow> (s(desiredKey (aws_clusterId aws) nodeId := Some (DesiredJson \<lparr>ds_version = PROTOCOL_VERSION,
                       ds_nodeId = nodeId, ds_updatedAt = stamp 0, ds_services = ss\<rparr>)), Inr ())))"
  by (rule publish_alone)

section \<open>Undeploying\<close>

lemma suffix_differs: "take k (rev x) \<noteq> take k (rev y) \<Longrightarrow> k \<le> length x \<Longrightarrow> k \<le> length y \<Longrightarrow> a @ x \<noteq> b @ y"
proof
  assume h: "take k (rev x) \<noteq> take k (rev y)" "k \<le> length x" "k \<le> length y" and "a @ x = b @ y"
  then have "take k (rev (a @ x)) = take k (rev (b @ y))" by (rule_tac arg_cong) simp
  with h show False by simp
qed

lemma node_keys:
  "desiredKey c n = desiredKey c m \<longleftrightarrow> n = m"
  "edgeConfigKey c n = edgeConfigKey c m \<longleftrightarrow> n = m"
  "desiredKey c n \<noteq> edgeConfigKey c e"
  "desiredKey c n \<noteq> configBaselineKey c p"
  "edgeConfigKey c e \<noteq> configBaselineKey c p"
  using suffix_differs [of 7 "''/desired.json''" "''/edge.json''" "clusterNodesPrefix c @ n" "clusterNodesPrefix c @ e"]
    suffix_differs [of 7 "''/desired.json''" "''/config-baseline.json''" "clusterNodesPrefix c @ n" "projectsPrefix c @ p"]
    suffix_differs [of 7 "''/edge.json''" "''/config-baseline.json''" "clusterNodesPrefix c @ e" "projectsPrefix c @ p"]
  by (simp_all add: desiredKey_def nodePrefix_def edgeConfigKey_def configBaselineKey_def projectStatePrefix_def)

lemma after_removal_length:
  "length (servicesAfterRemoval ss p rs) = length ss \<longleftrightarrow> servicesAfterRemoval ss p rs = ss"
  by (simp only: servicesAfterRemoval_def filter_length_eq)

lemma removal_alone:
  "publishRemoval aws n owner rs stamp (\<lambda>_ t. t) s =
    (case s (desiredKey (aws_clusterId aws) n) of
       None \<Rightarrow> (s, Inr ())
     | Some raw \<Rightarrow>
         (case parseDesiredState raw of
            None \<Rightarrow> (s, Inl UnparseableDesired)
          | Some state \<Rightarrow>
              (let ss = servicesAfterRemoval (ds_services state) owner rs
               in if ss = ds_services state then (s, Inr ())
                  else (s(desiredKey (aws_clusterId aws) n := Some (DesiredJson \<lparr>ds_version = PROTOCOL_VERSION,
                          ds_nodeId = n, ds_updatedAt = stamp 0, ds_services = ss\<rparr>)), Inr ()))))"
  unfolding publishRemoval_def retry_alone removal_decision_def Let_def after_removal_length
  by (simp add: Let_def split: option.split)

text \<open>What a bucket holds of a node can be read: its document is absent or valid.\<close>

definition readable :: "string \<Rightarrow> state_bucket \<Rightarrow> string \<Rightarrow> bool" where
  "readable c s n \<longleftrightarrow> n \<noteq> []
     \<and> (case s (desiredKey c n) of None \<Rightarrow> True | Some raw \<Rightarrow> parseDesiredState raw \<noteq> None)"

lemma valid_after_removal:
  "parseDesiredState raw = Some d \<Longrightarrow> n \<noteq> [] \<Longrightarrow>
   parseDesiredState (DesiredJson \<lparr>ds_version = PROTOCOL_VERSION, ds_nodeId = n, ds_updatedAt = t,
      ds_services = servicesAfterRemoval (ds_services d) p rs\<rparr>)
   = Some \<lparr>ds_version = PROTOCOL_VERSION, ds_nodeId = n, ds_updatedAt = t,
      ds_services = servicesAfterRemoval (ds_services d) p rs\<rparr>"
  by (auto simp: parseDesiredState_def valid_desired_state_def servicesAfterRemoval_def list_all_iff
      split: document.splits if_splits)

lemma removal_alone_effect:
  assumes "readable (aws_clusterId aws) s n"
  shows "\<exists>s'. publishRemoval aws n owner rs stamp (\<lambda>_ t. t) s = (s', Inr ())
    \<and> services_of (s' (desiredKey (aws_clusterId aws) n)) =
        servicesAfterRemoval (services_of (s (desiredKey (aws_clusterId aws) n))) owner rs
    \<and> (\<forall>k. k \<noteq> desiredKey (aws_clusterId aws) n \<longrightarrow> s' k = s k)"
proof (cases "s (desiredKey (aws_clusterId aws) n)")
  case None
  then show ?thesis by (simp add: removal_alone services_of_def servicesAfterRemoval_def)
next
  case (Some raw)
  with assms obtain d where d: "parseDesiredState raw = Some d" and n: "n \<noteq> []"
    by (auto simp: readable_def)
  show ?thesis
    using Some d valid_after_removal [OF d n] by (simp add: removal_alone services_of_def Let_def)
qed

lemma removals_alone:
  assumes "distinct ns" and "\<And>n. n \<in> set ns \<Longrightarrow> readable (aws_clusterId aws) s n"
  shows "\<exists>s'. removals aws owner rs stamp (\<lambda>_ _ t. t) k ns s = (s', Inr ())
    \<and> (\<forall>n \<in> set ns. services_of (s' (desiredKey (aws_clusterId aws) n)) =
          servicesAfterRemoval (services_of (s (desiredKey (aws_clusterId aws) n))) owner rs)
    \<and> (\<forall>x. x \<notin> desiredKey (aws_clusterId aws) ` set ns \<longrightarrow> s' x = s x)"
  using assms
proof (induction ns arbitrary: s k)
  case (Cons n ns)
  from removal_alone_effect [of aws s n owner rs stamp] Cons.prems(2) [of n] obtain s1
    where r: "publishRemoval aws n owner rs stamp (\<lambda>_ t. t) s = (s1, Inr ())"
      and e: "services_of (s1 (desiredKey (aws_clusterId aws) n)) =
        servicesAfterRemoval (services_of (s (desiredKey (aws_clusterId aws) n))) owner rs"
      and f: "\<And>x. x \<noteq> desiredKey (aws_clusterId aws) n \<Longrightarrow> s1 x = s x" by auto
  have same: "s1 (desiredKey (aws_clusterId aws) m) = s (desiredKey (aws_clusterId aws) m)" if "m \<noteq> n" for m
    using that f by (simp add: node_keys)
  have "readable (aws_clusterId aws) s1 m" if "m \<in> set ns" for m
  proof -
    have "m \<noteq> n" using that Cons.prems(1) by auto
    then show ?thesis using Cons.prems(2) [of m] that same [of m] by (simp add: readable_def)
  qed
  with Cons.IH [of s1 "k + 1"] Cons.prems(1) obtain s2
    where r2: "removals aws owner rs stamp (\<lambda>_ _ t. t) (k + 1) ns s1 = (s2, Inr ())"
      and e2: "\<forall>m \<in> set ns. services_of (s2 (desiredKey (aws_clusterId aws) m)) =
          servicesAfterRemoval (services_of (s1 (desiredKey (aws_clusterId aws) m))) owner rs"
      and f2: "\<forall>x. x \<notin> desiredKey (aws_clusterId aws) ` set ns \<longrightarrow> s2 x = s1 x" by auto
  have n2: "s2 (desiredKey (aws_clusterId aws) n) = s1 (desiredKey (aws_clusterId aws) n)"
  proof -
    have "desiredKey (aws_clusterId aws) n \<notin> desiredKey (aws_clusterId aws) ` set ns"
      using Cons.prems(1) by (auto simp: node_keys)
    with f2 show ?thesis by blast
  qed
  have "services_of (s2 (desiredKey (aws_clusterId aws) m)) =
      servicesAfterRemoval (services_of (s (desiredKey (aws_clusterId aws) m))) owner rs" if "m \<in> set (n # ns)" for m
    using that e e2 n2 same [of m] Cons.prems(1) by (cases "m = n") auto
  moreover have "s2 x = s x" if "x \<notin> desiredKey (aws_clusterId aws) ` set (n # ns)" for x
    using that f2 f by simp
  ultimately show ?case using r r2 by (intro exI [of _ s2]) simp
qed simp

text \<open>Pruning touches the edges' documents only, and leaves none of the dropped domains in them.\<close>

lemma prune_alone:
  "pruneEdgeConfig aws e domains stamp (\<lambda>_ t. t) s = (s', b) \<Longrightarrow>
     (\<forall>x. x \<noteq> edgeConfigKey (aws_clusterId aws) e \<longrightarrow> s' x = s x)
     \<and> edge_domains (s' (edgeConfigKey (aws_clusterId aws) e)) =
         filter (\<lambda>d. d \<notin> set domains) (edge_domains (s (edgeConfigKey (aws_clusterId aws) e)))"
  unfolding pruneEdgeConfig_def
  by (subst (asm) cas_alone)
    (auto simp: prune_decision_def MAX_PUBLISH_RETRIES_def Let_def edge_domains_def filter_length_eq
      split: if_splits option.splits document.splits)

lemma prunings_alone:
  "distinct es \<Longrightarrow> prunings aws domains stamp (\<lambda>_ _ t. t) k es s = (s', ps) \<Longrightarrow>
     (\<forall>x. x \<notin> edgeConfigKey (aws_clusterId aws) ` set es \<longrightarrow> s' x = s x)
     \<and> (\<forall>e \<in> set es. edge_domains (s' (edgeConfigKey (aws_clusterId aws) e)) =
         filter (\<lambda>d. d \<notin> set domains) (edge_domains (s (edgeConfigKey (aws_clusterId aws) e))))"
proof (induction es arbitrary: s k s' ps)
  case (Cons e es)
  obtain s1 b where 1: "pruneEdgeConfig aws e domains stamp (\<lambda>_ t. t) s = (s1, b)" by (metis prod.exhaust)
  obtain s2 qs where 2: "prunings aws domains stamp (\<lambda>_ _ t. t) (k + 1) es s1 = (s2, qs)" by (metis prod.exhaust)
  have s': "s' = s2" using Cons.prems(2) 1 2 by simp
  from Cons.IH [OF _ 2] Cons.prems(1) have ih: "\<forall>x. x \<notin> edgeConfigKey (aws_clusterId aws) ` set es \<longrightarrow> s2 x = s1 x"
    "\<forall>m \<in> set es. edge_domains (s2 (edgeConfigKey (aws_clusterId aws) m)) =
         filter (\<lambda>d. d \<notin> set domains) (edge_domains (s1 (edgeConfigKey (aws_clusterId aws) m)))" by auto
  note p = prune_alone [OF 1]
  have n: "s2 (edgeConfigKey (aws_clusterId aws) e) = s1 (edgeConfigKey (aws_clusterId aws) e)"
  proof -
    have "edgeConfigKey (aws_clusterId aws) e \<notin> edgeConfigKey (aws_clusterId aws) ` set es"
      using Cons.prems(1) by (auto simp: node_keys)
    with ih(1) show ?thesis by blast
  qed
  have m: "m \<noteq> e \<Longrightarrow> s1 (edgeConfigKey (aws_clusterId aws) m) = s (edgeConfigKey (aws_clusterId aws) m)" for m
    using p by (simp add: node_keys)
  have "edge_domains (s2 (edgeConfigKey (aws_clusterId aws) x)) =
      filter (\<lambda>d. d \<notin> set domains) (edge_domains (s (edgeConfigKey (aws_clusterId aws) x)))" if "x \<in> set (e # es)" for x
  proof (cases "x = e")
    case True
    then show ?thesis using n p by simp
  next
    case False
    with that ih(2) m [OF False] show ?thesis by simp
  qed
  moreover have "s2 x = s x" if "x \<notin> edgeConfigKey (aws_clusterId aws) ` set (e # es)" for x
    using that ih(1) p by simp
  ultimately show ?case unfolding s' by blast
qed simp

lemma baseline_frame:
  "updateBaseline aws owner whole removed (\<lambda>_ t. t) s = (s', b) \<Longrightarrow>
     x \<noteq> configBaselineKey (aws_clusterId aws) owner \<Longrightarrow> s' x = s x"
  unfolding updateBaseline_def Let_def
  by (subst (asm) cas_alone, simp, subst (asm) cas_alone, simp add: MAX_PUBLISH_RETRIES_def)
    (auto simp: baseline_decision_def split: if_splits option.splits)

lemma baseline_cleared:
  "updateBaseline aws owner True removed (\<lambda>_ t. t) s = (s', b) \<Longrightarrow>
     b \<and> s' (configBaselineKey (aws_clusterId aws) owner) = None"
  unfolding updateBaseline_def Let_def
  by (subst (asm) cas_alone, simp, subst (asm) cas_alone, simp add: MAX_PUBLISH_RETRIES_def)
    (auto split: if_splits option.splits)

text \<open>What the removal plans from (\<open>deploy/deployed-footprint.ts\<close>): nodes without a valid document are skipped.\<close>

definition loadNodeDesiredStates :: "string \<Rightarrow> string list \<Rightarrow> state_bucket \<Rightarrow> node_services list" where
  "loadNodeDesiredStates clusterId nodeIds s =
     List.map_filter (\<lambda>n. map_option (\<lambda>d. (n, ds_services d))
        (Option.bind (s (desiredKey clusterId n)) parseDesiredState)) nodeIds"

lemma loaded:
  "(n, ss) \<in> set (loadNodeDesiredStates c ids s) \<longleftrightarrow>
     n \<in> set ids \<and> (\<exists>raw d. s (desiredKey c n) = Some raw \<and> parseDesiredState raw = Some d \<and> ss = ds_services d)"
  by (auto simp: loadNodeDesiredStates_def set_map_filter_Some bind_eq_Some_conv)

lemma loaded_distinct: "distinct ids \<Longrightarrow> distinct (map fst (loadNodeDesiredStates c ids s))"
proof (induction ids)
  case (Cons n ids)
  then show ?case
    using loaded [of n _ c ids s] by (auto simp: loadNodeDesiredStates_def List.map_filter_simps image_iff split: option.splits)
qed (simp add: loadNodeDesiredStates_def List.map_filter_simps)

lemma distinct_map_insert_by:
  "distinct (map f (insert_by le x xs)) \<longleftrightarrow> f x \<notin> f ` set xs \<and> distinct (map f xs)"
  by (induction xs) auto

lemma distinct_map_sort_by: "distinct (map f (sort_by le xs)) \<longleftrightarrow> distinct (map f xs)"
proof (induction xs)
  case (Cons x xs)
  have "sort_by le (x # xs) = insert_by le x (sort_by le xs)" by (simp add: sort_by_def)
  with Cons show ?case by (simp add: distinct_map_insert_by)
qed (simp add: sort_by_def)

lemma nup_ids: "map nup_nodeId (map (\<lambda>(n, ss). \<lparr>nup_nodeId = n, nup_removed = f ss, nup_kept = g ss\<rparr>) xs) = map fst xs"
  by (induction xs) auto

lemma fst_filter: "fst ` set (filter (\<lambda>(n, ss). P ss) xs) = {n. \<exists>ss. (n, ss) \<in> set xs \<and> P ss}"
  by force

lemma removal_hits:
  "filter (\<lambda>s. sc_project s = owner \<and> should_remove rs (sc_service s)) ss \<noteq> [] \<longleftrightarrow> servicesAfterRemoval ss owner rs \<noteq> ss"
  by (simp add: servicesAfterRemoval_def filter_id_conv filter_empty_conv)

text \<open>The nodes of the plan are those that lose a service, each once.\<close>

lemma plan_nodes:
  "set (map nup_nodeId (up_nodes (planUndeploy states owner rs))) =
     {n. \<exists>ss. (n, ss) \<in> set states \<and> servicesAfterRemoval ss owner rs \<noteq> ss}"
proof -
  have m: "set (map nup_nodeId (sort_by le xs)) = set (map nup_nodeId xs)" for le xs by simp
  show ?thesis
    unfolding planUndeploy_def Let_def undeploy_plan.select_convs m nup_ids removal_hits
    unfolding set_map fst_filter
    by (rule refl)
qed

lemma plan_nodes_distinct:
  assumes "distinct (map fst states)"
  shows "distinct (map nup_nodeId (up_nodes (planUndeploy states owner rs)))"
  unfolding planUndeploy_def Let_def undeploy_plan.select_convs distinct_map_sort_by nup_ids
  by (rule distinct_map_filter_key [OF assms])

lemma undeploy_exact:
  assumes "distinct nodeIds" and "[] \<notin> set nodeIds"
    and "plan = planUndeploy (loadNodeDesiredStates (aws_clusterId aws) nodeIds s) owner rs"
  shows "\<exists>s' r. applyUndeploy aws owner rs plan stamp (\<lambda>_ _ t. t) s = (s', Inr r)
    \<and> (\<forall>n \<in> set nodeIds. services_of (s' (desiredKey (aws_clusterId aws) n)) =
          servicesAfterRemoval (services_of (s (desiredKey (aws_clusterId aws) n))) owner rs)
    \<and> (\<forall>e \<in> set (up_affectedEdges plan). \<forall>d \<in> set (up_removedDomains plan).
          d \<notin> set (edge_domains (s' (edgeConfigKey (aws_clusterId aws) e))))
    \<and> (rs = None \<longrightarrow> ur_baselineCleared r \<and> s' (configBaselineKey (aws_clusterId aws) owner) = None)
    \<and> (\<forall>k. k \<notin> desiredKey (aws_clusterId aws) ` set nodeIds \<and> k \<notin> edgeConfigKey (aws_clusterId aws) ` set (up_affectedEdges plan)
          \<and> k \<noteq> configBaselineKey (aws_clusterId aws) owner \<longrightarrow> s' k = s k)"
proof -
  let ?c = "aws_clusterId aws"
  let ?states = "loadNodeDesiredStates ?c nodeIds s"
  let ?ns = "map nup_nodeId (up_nodes plan)"
  have ns: "set ?ns = {n. \<exists>ss. (n, ss) \<in> set ?states \<and> servicesAfterRemoval ss owner rs \<noteq> ss}"
    unfolding assms(3) by (rule plan_nodes)
  have dn: "distinct ?ns" unfolding assms(3) by (intro plan_nodes_distinct loaded_distinct assms(1))
  have rd: "readable ?c s n" if "n \<in> set ?ns" for n
    using that assms(2) unfolding ns readable_def by (auto simp: loaded)
  from removals_alone [OF dn rd, of owner rs stamp 0] obtain s1 where r1: "removals aws owner rs stamp (\<lambda>_ _ t. t) 0 ?ns s = (s1, Inr ())"
    and e1: "\<forall>n \<in> set ?ns. services_of (s1 (desiredKey ?c n)) = servicesAfterRemoval (services_of (s (desiredKey ?c n))) owner rs"
    and f1: "\<forall>x. x \<notin> desiredKey ?c ` set ?ns \<longrightarrow> s1 x = s x" by blast
  obtain s2 ps where 2: "prunings aws (up_removedDomains plan) stamp (\<lambda>_ _ t. t) (length ?ns) (up_affectedEdges plan) s1 = (s2, ps)"
    by (metis prod.exhaust)
  obtain s3 b where 3: "updateBaseline aws owner (rs = None) (up_removedServices plan) (\<lambda>_ t. t) s2 = (s3, b)"
    by (metis prod.exhaust)
  have de: "distinct (up_affectedEdges plan)" unfolding assms(3) by (simp add: planUndeploy_def Let_def)
  note p2 = prunings_alone [OF de 2]
  note f3 = baseline_frame [OF 3]
  have run: "applyUndeploy aws owner rs plan stamp (\<lambda>_ _ t. t) s = (s3, Inr \<lparr>ur_nodes = ?ns,
      ur_removedServices = up_removedServices plan, ur_baselineCleared = b, ur_prunedEdges = ps\<rparr>)"
    using r1 2 3 by (simp add: applyUndeploy_def Let_def)
  have sub: "set ?ns \<subseteq> set nodeIds" unfolding ns by (auto simp: loaded)
  have same: "s3 (desiredKey ?c n) = s1 (desiredKey ?c n)" for n
    using p2 f3 [of "desiredKey ?c n"] by (auto simp: node_keys image_iff)
  have nodes: "services_of (s3 (desiredKey ?c n)) = servicesAfterRemoval (services_of (s (desiredKey ?c n))) owner rs"
    if n: "n \<in> set nodeIds" for n
  proof (cases "n \<in> set ?ns")
    case True
    with bspec [OF e1 True] same show ?thesis by simp
  next
    case False
    then have "desiredKey ?c n \<notin> desiredKey ?c ` set ?ns" by (auto simp: node_keys)
    with f1 same have "s3 (desiredKey ?c n) = s (desiredKey ?c n)" by simp
    moreover have "servicesAfterRemoval (services_of (s (desiredKey ?c n))) owner rs = services_of (s (desiredKey ?c n))"
    proof (cases "Option.bind (s (desiredKey ?c n)) parseDesiredState")
      case None
      then show ?thesis by (simp add: services_of_def servicesAfterRemoval_def)
    next
      case (Some d)
      then have "(n, ds_services d) \<in> set ?states" using n by (auto simp: loaded bind_eq_Some_conv)
      with False show ?thesis unfolding ns using Some by (simp add: services_of_def)
    qed
    ultimately show ?thesis by simp
  qed
  have edges: "d \<notin> set (edge_domains (s3 (edgeConfigKey ?c e)))"
    if "e \<in> set (up_affectedEdges plan)" "d \<in> set (up_removedDomains plan)" for e d
    using p2 that f3 [of "edgeConfigKey ?c e"] by (simp add: node_keys)
  have base: "b \<and> s3 (configBaselineKey ?c owner) = None" if "rs = None"
    by (rule baseline_cleared [of aws owner "up_removedServices plan" s2]) (use 3 that in simp)
  have frame: "s3 k = s k" if "k \<notin> desiredKey ?c ` set nodeIds" "k \<notin> edgeConfigKey ?c ` set (up_affectedEdges plan)"
    "k \<noteq> configBaselineKey ?c owner" for k
  proof -
    have "k \<notin> desiredKey ?c ` set ?ns" using that(1) sub by blast
    with f1 p2 that(2) f3 [OF that(3)] show ?thesis by simp
  qed
  show ?thesis
    by (rule exI [of _ s3], rule exI, intro conjI, rule run) (use nodes edges base frame in auto)
qed


section \<open>Baselines and the lock\<close>

definition writeConfigBaseline :: "aws_env \<Rightarrow> launch_pad_config \<Rightarrow> string \<Rightarrow> string \<Rightarrow> state_bucket \<Rightarrow> state_bucket option" where
  "writeConfigBaseline aws config ownerProject now s =
     putJson s (configBaselineKey (aws_clusterId aws) ownerProject) (BaselineJson (snapshotConfigBaseline config now)) Always"

record lock_baseline =
  lk_baseline :: config_baseline
  lk_fromDesired :: bool

datatype lock_error =
    CannotReadBaseline string
  | CannotReadDesired string
  | CorruptBaseline string
  | LockViolated "lock_violation list"

text \<open>\<open>Inl ()\<close> is a read of S3 that failed for a reason other than an absent object.\<close>

definition loadLockBaseline ::
  "string \<Rightarrow> string \<Rightarrow> string option \<Rightarrow> string \<Rightarrow> unit + document option \<Rightarrow> unit + deployed_footprint list
   \<Rightarrow> lock_error + lock_baseline option" where
  "loadLockBaseline ownerProject project component now baselineFile footprints =
     (case baselineFile of
        Inl _ \<Rightarrow> Inl (CannotReadBaseline ownerProject)
      | Inr file \<Rightarrow>
          (case Option.bind file parseConfigBaseline of
             Some b \<Rightarrow> Inr (Some \<lparr>lk_baseline = b, lk_fromDesired = False\<rparr>)
           | None \<Rightarrow>
               (case footprints of
                  Inl _ \<Rightarrow> Inl (CannotReadDesired ownerProject)
                | Inr fps \<Rightarrow>
                    if fps \<noteq> []
                    then Inr (Some \<lparr>lk_baseline = baselineFromDeployedFootprints project component fps now, lk_fromDesired = True\<rparr>)
                    else if file \<noteq> None then Inl (CorruptBaseline ownerProject) else Inr None)))"

datatype lock_outcome = FirstDeploy | Clean

definition resolveConfigLockOutcome ::
  "launch_pad_config \<Rightarrow> string \<Rightarrow> bool \<Rightarrow> string \<Rightarrow> unit + document option \<Rightarrow> unit + deployed_footprint list
   \<Rightarrow> lock_error + lock_outcome" where
  "resolveConfigLockOutcome config ownerProject allowNewServices now baselineFile footprints =
     res_bind (loadLockBaseline ownerProject (lc_project config) (lc_component config) now baselineFile footprints) (\<lambda>deployed.
       case deployed of
         None \<Rightarrow> Inr FirstDeploy
       | Some d \<Rightarrow>
           (case assertConfigLockAllowed (lk_baseline d) (snapshotConfigBaseline config now)
                   \<lparr>lo_baselineFromDesired = lk_fromDesired d, lo_allowNewServices = allowNewServices\<rparr> of
              Inl vs \<Rightarrow> Inl (LockViolated vs)
            | Inr _ \<Rightarrow> Inr Clean))"

text \<open>
  The lock fails closed. A deploy counts as the first one exactly when both the baseline and the
  published services could be read and neither exists; it counts as clean exactly when a baseline, the
  recorded one or else the one reconstructed from what is published, was compared and nothing locked
  differs. In every other case (unreadable, corrupt, contradicted) the deploy stops.
\<close>

theorem lock_fails_closed:
  "(resolveConfigLockOutcome config owner allowNew now baselineFile footprints = Inr FirstDeploy \<longleftrightarrow>
      baselineFile = Inr None \<and> footprints = Inr [])
   \<and> (resolveConfigLockOutcome config owner allowNew now baselineFile footprints = Inr Clean \<longleftrightarrow>
      (\<exists>file b fromDesired. baselineFile = Inr file
         \<and> (if fromDesired
            then Option.bind file parseConfigBaseline = None
              \<and> (\<exists>f fs. footprints = Inr (f # fs)
                   \<and> b = baselineFromDeployedFootprints (lc_project config) (lc_component config) (f # fs) now)
            else Option.bind file parseConfigBaseline = Some b)
         \<and> findConfigLockViolations b (snapshotConfigBaseline config now)
             \<lparr>lo_baselineFromDesired = fromDesired, lo_allowNewServices = allowNew\<rparr> = []))"
proof (cases baselineFile)
  case (Inl u)
  then show ?thesis by (simp add: resolveConfigLockOutcome_def loadLockBaseline_def)
next
  case (Inr doc)
  show ?thesis
  proof (cases "Option.bind doc parseConfigBaseline")
    case (Some b)
    then have "doc \<noteq> None" by (cases doc) auto
    with Inr Some show ?thesis
      by (simp add: resolveConfigLockOutcome_def loadLockBaseline_def assertConfigLockAllowed_def Let_def ex_bool_eq)
  next
    case None
    note nofile = this
    show ?thesis
    proof (cases footprints)
      case (Inl u)
      with Inr None show ?thesis
        by (simp add: resolveConfigLockOutcome_def loadLockBaseline_def)
    next
      case (Inr fps)
      with \<open>baselineFile = Inr doc\<close> nofile show ?thesis
        by (cases fps)
          (auto simp: resolveConfigLockOutcome_def loadLockBaseline_def assertConfigLockAllowed_def Let_def ex_bool_eq)
    qed
  qed
qed

section \<open>Examples\<close>

definition example_small_node :: node_entry where
  "example_small_node =
     \<lparr>ne_nodeId = ''a'', ne_clusterId = ''default'', ne_instanceId = None, ne_instanceType = ''t4g.small'',
      ne_architecture = Arm64, ne_region = ''us-east-1'', ne_availabilityZone = None, ne_role = RoleApp,
      ne_privateIp = None, ne_totalCpu = 2048, ne_totalMemory = 2048, ne_reservedCpu = 256, ne_reservedMemory = 512,
      ne_publicIp = None, ne_eipAllocationId = None, ne_securityGroupId = None, ne_iamInstanceProfile = None,
      ne_provisioning = Ec2, ne_advertiseIp = None, ne_iamUserName = None, ne_agentId = ''agent-a'',
      ne_agentVersion = None, ne_agentType = AgentRust, ne_createdAt = ''2026-01-01T00:00:00.000Z'',
      ne_createdBy = ''me'', ne_state = Ready\<rparr>"

definition example_env :: aws_env where
  "example_env = \<lparr>aws_accountId = ''1'', aws_region = ''us-east-1'', aws_clusterId = ''default''\<rparr>"

definition hosted :: "string \<Rightarrow> service_config list \<Rightarrow> document" where
  "hosted n ss = DesiredJson \<lparr>ds_version = 3, ds_nodeId = n, ds_updatedAt = ''t'', ds_services = ss\<rparr>"

text \<open>Another deploy publishes to the node between this one's first read and its first write.\<close>

definition racing_deploy :: schedule where
  "racing_deploy i s =
     (if i = 1 then s(desiredKey ''default'' ''a'' := Some (hosted ''a'' [plain_service ''blog'' ''web'' 128 128 1])) else s)"

definition raced_publish :: "state_bucket \<times> (publish_error + unit)" where
  "raced_publish = publishDesired example_env ''a'' example_small_node ''shop'' [plain_service ''shop'' ''api'' 512 256 1]
     False (\<lambda>_. ''t'') (\<lambda>_. ''t'') racing_deploy (\<lambda>_. None)"

lemma raced_publish_result:
  "snd raced_publish = Inr ()"
  "services_of (fst raced_publish (desiredKey ''default'' ''a'')) =
     [plain_service ''blog'' ''web'' 128 128 1, plain_service ''shop'' ''api'' 512 256 1]"
proof -
  have "snd raced_publish = Inr () \<and> services_of (fst raced_publish (desiredKey ''default'' ''a'')) =
     [plain_service ''blog'' ''web'' 128 128 1, plain_service ''shop'' ''api'' 512 256 1]" by code_simp
  then show "snd raced_publish = Inr ()" "services_of (fst raced_publish (desiredKey ''default'' ''a'')) =
     [plain_service ''blog'' ''web'' 128 128 1, plain_service ''shop'' ''api'' 512 256 1]" by (rule conjunct1, rule conjunct2)
qed

lemma publish_no_lost_update_witness:
  "\<exists>j s1 d. s1 = drifted racing_deploy 0 j (\<lambda>_. None)
    \<and> fst raced_publish = s1(desiredKey ''default'' ''a'' := Some (DesiredJson d))
    \<and> others ''shop'' (ds_services d) = others ''shop'' (services_of (s1 (desiredKey ''default'' ''a'')))"
proof -
  have "publishDesired example_env ''a'' example_small_node ''shop'' [plain_service ''shop'' ''api'' 512 256 1]
     False (\<lambda>_. ''t'') (\<lambda>_. ''t'') racing_deploy (\<lambda>_. None) = (fst raced_publish, Inr ())"
    using raced_publish_result(1) by (simp add: raced_publish_def prod_eq_iff)
  from publish_no_lost_update [OF this] show ?thesis by (simp add: example_env_def) blast
qed


end
