(* ===== verification/Node_Names.thy ===== *)
theory Node_Names
  imports Names
begin

text \<open>
  Generated node names (\<open>packages/shared/src/node-names.ts\<close>, \<open>commands/node/create-names.ts\<close>): a noun,
  a verb and an adverb drawn at random, redrawn on a collision, with a numeric suffix as fallback.
  The random generator is a stream of draws, each the integer \<open>floor(rng() * length)\<close> the code computes
  from it; \<open>pick\<close> clamps it, so any stream gives a word.
\<close>

definition NOUNS :: "string list" where
  "NOUNS =
     [''ant'', ''badger'', ''bat'', ''bear'', ''bee'', ''bison'', ''camel'', ''cat'',
      ''colt'', ''crab'', ''crane'', ''crow'', ''deer'', ''dog'', ''dove'', ''duck'',
      ''eagle'', ''elk'', ''falcon'', ''fawn'', ''ferret'', ''finch'', ''fish'', ''fox'',
      ''frog'', ''gecko'', ''goat'', ''goose'', ''hare'', ''hawk'', ''heron'', ''horse'',
      ''hound'', ''husky'', ''ibis'', ''koala'', ''lamb'', ''lemur'', ''lion'', ''llama'',
      ''lynx'', ''mole'', ''moose'', ''moth'', ''mouse'', ''newt'', ''otter'', ''owl'',
      ''panda'', ''pony'', ''puma'', ''quail'', ''raven'', ''robin'', ''seal'', ''shark'',
      ''sloth'', ''snail'', ''swan'', ''tiger'', ''toad'', ''trout'', ''whale'', ''wren'']"

definition VERBS :: "string list" where
  "VERBS =
     [''bounds'', ''calls'', ''climbs'', ''crawls'', ''darts'', ''dashes'', ''digs'', ''dives'',
      ''dreams'', ''drifts'', ''files'', ''flies'', ''floats'', ''flips'', ''gazes'', ''glides'',
      ''grins'', ''hides'', ''hikes'', ''hops'', ''howls'', ''hums'', ''hunts'', ''jumps'',
      ''kicks'', ''leaps'', ''lopes'', ''marches'', ''naps'', ''paces'', ''paints'', ''plays'',
      ''prowls'', ''races'', ''rests'', ''rises'', ''roams'', ''rolls'', ''runs'', ''sails'',
      ''sings'', ''skips'', ''sleeps'', ''slides'', ''sneaks'', ''sniffs'', ''soars'', ''spins'',
      ''sprints'', ''stands'', ''strolls'', ''struts'', ''surfs'', ''sways'', ''swims'', ''treks'',
      ''trots'', ''twirls'', ''waits'', ''walks'', ''wanders'', ''waves'', ''yawns'', ''zooms'']"

definition ADVERBS :: "string list" where
  "ADVERBS =
     [''ably'', ''afar'', ''ahead'', ''alone'', ''aloud'', ''away'', ''badly'', ''barely'',
      ''boldly'', ''bravely'', ''briskly'', ''calmly'', ''clearly'', ''coolly'', ''daily'', ''dearly'',
      ''deeply'', ''deftly'', ''dimly'', ''early'', ''easily'', ''fast'', ''fiercely'', ''fondly'',
      ''freely'', ''gently'', ''gladly'', ''grandly'', ''high'', ''hourly'', ''keenly'', ''kindly'',
      ''late'', ''lightly'', ''lively'', ''loudly'', ''low'', ''madly'', ''neatly'', ''nicely'',
      ''nightly'', ''nimbly'', ''oddly'', ''often'', ''plainly'', ''proudly'', ''quickly'', ''quietly'',
      ''rarely'', ''safely'', ''sharply'', ''shyly'', ''simply'', ''slowly'', ''softly'', ''soon'',
      ''swiftly'', ''warmly'', ''weekly'', ''well'', ''wildly'', ''wisely'', ''yearly'', ''zestily'']"

definition MAX_RANDOM_ATTEMPTS :: nat where "MAX_RANDOM_ATTEMPTS = 100"

definition pick :: "string list \<Rightarrow> int \<Rightarrow> string" where
  "pick xs draw = xs ! nat (min (int (length xs) - 1) (max 0 draw))"

text \<open>The draws: the code's generator is asked three times per attempt.\<close>

type_synonym draws = "nat \<Rightarrow> int"

definition candidate_name :: "draws \<Rightarrow> nat \<Rightarrow> string" where
  "candidate_name rng k =
     pick NOUNS (rng k) @ ''-'' @ pick VERBS (rng (k + 1)) @ ''-'' @ pick ADVERBS (rng (k + 2))"

text \<open>
  The random attempts: the name found, or the last candidate, and the number of draws consumed.
\<close>

fun random_attempts :: "string list \<Rightarrow> draws \<Rightarrow> nat \<Rightarrow> nat \<Rightarrow> string \<Rightarrow> (bool \<times> string) \<times> nat" where
  "random_attempts used rng k 0 candidate = ((False, candidate), k)"
| "random_attempts used rng k (Suc n) candidate =
     (let c = candidate_name rng k
      in if c \<notin> set used then ((True, c), k + 3) else random_attempts used rng (k + 3) n c)"

text \<open>
  The numeric suffixes from 2 on. The loop of the code has no bound; its fuel here is one more than the
  number of used ids, and \<open>generateNodeName_fresh\<close> shows that it is enough.
\<close>

fun suffix_search :: "string list \<Rightarrow> string \<Rightarrow> nat \<Rightarrow> nat \<Rightarrow> string option" where
  "suffix_search used candidate n 0 = None"
| "suffix_search used candidate n (Suc fuel) =
     (let f = candidate @ ''-'' @ show_nat n
      in if f \<notin> set used \<and> NODE_ID_REGEX f then Some f else suffix_search used candidate (n + 1) fuel)"

definition generateNodeName :: "string list \<Rightarrow> draws \<Rightarrow> nat \<Rightarrow> (string \<times> nat) option" where
  "generateNodeName used rng k =
     (case random_attempts used rng k MAX_RANDOM_ATTEMPTS [] of
        ((found, c), k') \<Rightarrow>
          if found then Some (c, k')
          else map_option (\<lambda>f. (f, k')) (suffix_search used c 2 (Suc (length used))))"

fun generateNodeNames :: "nat \<Rightarrow> string list \<Rightarrow> draws \<Rightarrow> nat \<Rightarrow> (string list \<times> nat) option" where
  "generateNodeNames 0 used rng k = Some ([], k)"
| "generateNodeNames (Suc n) used rng k =
     (case generateNodeName used rng k of None \<Rightarrow> None
      | Some (name, k') \<Rightarrow>
          (case generateNodeNames n (name # used) rng k' of None \<Rightarrow> None
           | Some (names, k'') \<Rightarrow> Some (name # names, k'')))"

section \<open>Names given on the command line\<close>

datatype create_names_error = InvalidAmount int | InvalidAmountText string | GeneratedNameInvalid string

text \<open>\<open>/^(.+)-(\d+)$/\<close>: digits hold no dash, so the match is at the last one.\<close>

definition numeric_suffix :: "string \<Rightarrow> (string \<times> nat) option" where
  "numeric_suffix s =
     (case last_index_of CHR ''-'' s of None \<Rightarrow> None
      | Some i \<Rightarrow>
          (let p = take i s; d = drop (Suc i) s
           in if p \<noteq> [] \<and> all_digits d \<and> CHR 0x0A \<notin> set p \<and> CHR 0x0D \<notin> set p
              then Some (p, digits_val d) else None))"

fun create_names_from :: "string \<Rightarrow> nat \<Rightarrow> nat \<Rightarrow> create_names_error + string list" where
  "create_names_from base start 0 = Inr []"
| "create_names_from base start (Suc n) =
     (let name = base @ ''-'' @ show_nat start
      in if nodeIdError name \<noteq> None then Inl (GeneratedNameInvalid name)
         else res_bind (create_names_from base (start + 1) n) (\<lambda>ns. Inr (name # ns)))"

text \<open>Numbers of nodes stay far below \<open>2 ^ 53\<close>, where counting up is exact.\<close>

definition planNodeCreateNames :: "string \<Rightarrow> int \<Rightarrow> create_names_error + string list" where
  "planNodeCreateNames baseName amount =
     (if amount < 1 then Inl (InvalidAmount amount)
      else if amount = 1 then Inr [baseName]
      else (case numeric_suffix baseName of
              Some (base, start) \<Rightarrow> create_names_from base start (nat amount)
            | None \<Rightarrow> create_names_from baseName 1 (nat amount)))"

definition parseCreateAmount :: "string option \<Rightarrow> create_names_error + int" where
  "parseCreateAmount raw =
     (case raw of None \<Rightarrow> Inr 1
      | Some s \<Rightarrow> if s = [] then Inr 1
          else (case parse_int10 s of
                  Some n \<Rightarrow> if n < 1 then Inl (InvalidAmountText s) else Inr n
                | None \<Rightarrow> Inl (InvalidAmountText s)))"

lemma create_names_from_ok:
  "create_names_from p k n = Inr ns \<Longrightarrow>
   ns = map (\<lambda>i. p @ ''-'' @ show_nat (k + i)) [0..<n] \<and> list_all NODE_ID_REGEX ns"
proof (induction n arbitrary: k ns)
  case (Suc n)
  then obtain ms where ms: "create_names_from p (k + 1) n = Inr ms" "ns = (p @ ''-'' @ show_nat k) # ms"
    "nodeIdError (p @ ''-'' @ show_nat k) = None"
    by (auto simp: Let_def res_bind_eq_Inr split: if_splits)
  from Suc.IH [OF ms(1)] ms(2,3) show ?case
    by (auto simp: upt_rec [of 0 "Suc n"] map_Suc_upt [symmetric] nodeIdError_def simp del: upt_Suc split: if_splits)
qed simp

section \<open>Generated names are fresh and well formed\<close>

lemma pick_in: "xs \<noteq> [] \<Longrightarrow> pick xs d \<in> set xs"
proof -
  assume "xs \<noteq> []"
  then have "nat (min (int (length xs) - 1) (max 0 d)) < length xs" by (cases xs) auto
  then show ?thesis by (simp add: pick_def)
qed

definition node_word :: "string \<Rightarrow> bool" where
  "node_word w \<longleftrightarrow> w \<noteq> [] \<and> length w \<le> 8 \<and> list_all is_lower w"

lemma words_ok: "list_all node_word NOUNS" "list_all node_word VERBS" "list_all node_word ADVERBS"
  by (simp_all add: NOUNS_def VERBS_def ADVERBS_def node_word_def is_lower_def in_range_def)

lemma words_ne: "NOUNS \<noteq> []" "VERBS \<noteq> []" "ADVERBS \<noteq> []"
  by (simp_all add: NOUNS_def VERBS_def ADVERBS_def)

definition word_triple :: "string \<Rightarrow> bool" where
  "word_triple s \<longleftrightarrow> s \<noteq> [] \<and> is_alnum (hd s) \<and> length s \<le> 26 \<and> list_all node_id_char s"

lemma node_id_chars: "is_lower c \<Longrightarrow> node_id_char c" "is_lower c \<Longrightarrow> is_alnum c" "is_digit c \<Longrightarrow> node_id_char c"
  "node_id_char CHR ''-''"
  by (simp_all add: node_id_char_def is_alnum_def)

lemma candidate_triple: "word_triple (candidate_name rng k)"
proof -
  define a b c where "a = pick NOUNS (rng k)" and "b = pick VERBS (rng (k + 1))" and "c = pick ADVERBS (rng (k + 2))"
  have w: "node_word a" "node_word b" "node_word c"
    using words_ok pick_in words_ne unfolding a_def b_def c_def by (auto simp: list_all_iff)
  then obtain h t where a: "a = h # t" "is_lower h" by (cases a) (auto simp: node_word_def)
  have "list_all node_id_char (a @ ''-'' @ b @ ''-'' @ c)"
    using w by (auto simp: node_word_def list_all_iff node_id_chars)
  moreover have "length (a @ ''-'' @ b @ ''-'' @ c) \<le> 26" using w by (simp add: node_word_def)
  ultimately show ?thesis
    using a unfolding candidate_name_def a_def [symmetric] b_def [symmetric] c_def [symmetric]
    by (simp add: word_triple_def node_id_chars)
qed

lemma word_triple_node_id: "word_triple s \<Longrightarrow> NODE_ID_REGEX s"
  by (cases s) (auto simp: word_triple_def NODE_ID_REGEX_def)

lemma show_nat_length: "n < 10 ^ k \<Longrightarrow> 0 < k \<Longrightarrow> length (show_nat n) \<le> k"
proof (induction n arbitrary: k rule: show_nat.induct)
  case (1 n)
  show ?case
  proof (cases "n < 10")
    case True
    with 1(3) show ?thesis by (subst show_nat.simps) simp
  next
    case False
    have "k \<noteq> 1" using False 1(2) by auto
    with 1(3) obtain j where j: "k = Suc j" "0 < j" by (cases k) auto
    have "n div 10 < 10 ^ j" using 1(2) j(1) by (simp add: less_mult_imp_div_less mult.commute)
    from 1(1) [OF False this j(2)] show ?thesis using False j by (subst show_nat.simps) simp
  qed
qed

lemma suffixed_node_id: "word_triple s \<Longrightarrow> n < 10 ^ 30 \<Longrightarrow> NODE_ID_REGEX (s @ ''-'' @ show_nat n)"
  using show_nat_length [of n 30] show_nat_digits [of n]
  by (cases s) (auto simp: word_triple_def NODE_ID_REGEX_def list_all_iff node_id_chars)

lemma random_attempts_ok:
  assumes "random_attempts used rng k n c = ((found, d), k')"
  shows "if found then d \<notin> set used \<and> word_triple d else d = c \<or> word_triple d"
    and "0 < n \<Longrightarrow> word_triple d"
proof -
  have "(if found then d \<notin> set used \<and> word_triple d else d = c \<or> word_triple d) \<and> (0 < n \<longrightarrow> word_triple d)"
    using assms
  proof (induction n arbitrary: k c)
    case (Suc n)
    show ?case
    proof (cases "candidate_name rng k \<in> set used")
      case False
      with Suc.prems show ?thesis using candidate_triple by (auto simp: Let_def)
    next
      case True
      with Suc.prems have r: "random_attempts used rng (k + 3) n (candidate_name rng k) = ((found, d), k')"
        by (simp add: Let_def)
      from Suc.IH [OF this] candidate_triple [of rng k] show ?thesis by (auto split: if_splits)
    qed
  qed auto
  then show "if found then d \<notin> set used \<and> word_triple d else d = c \<or> word_triple d" "0 < n \<Longrightarrow> word_triple d"
    by auto
qed

lemma suffix_search_Some:
  "suffix_search used c n fuel = Some f \<Longrightarrow> f \<notin> set used \<and> NODE_ID_REGEX f"
  by (induction used c n fuel rule: suffix_search.induct) (auto simp: Let_def split: if_splits)

lemma suffix_search_None:
  "suffix_search used c n fuel = None \<Longrightarrow> i < fuel \<Longrightarrow>
   c @ ''-'' @ show_nat (n + i) \<in> set used \<or> \<not> NODE_ID_REGEX (c @ ''-'' @ show_nat (n + i))"
proof (induction used c n fuel arbitrary: i rule: suffix_search.induct)
  case (2 used c n fuel)
  then show ?case by (cases i) (auto simp: Let_def split: if_splits)
qed simp

lemma suffix_search_finds:
  assumes "word_triple c" "length used + 2 < 10 ^ 30"
  shows "suffix_search used c 2 (Suc (length used)) \<noteq> None"
proof
  assume n: "suffix_search used c 2 (Suc (length used)) = None"
  let ?f = "\<lambda>i. c @ ''-'' @ show_nat (2 + i)"
  have "?f i \<in> set used" if "i < Suc (length used)" for i
    using suffix_search_None [OF n that] suffixed_node_id [OF assms(1), of "2 + i"] assms(2) that by force
  then have "?f ` {..<Suc (length used)} \<subseteq> set used" by auto
  moreover have "inj_on ?f {..<Suc (length used)}" by (auto simp: inj_on_def show_nat_inj)
  ultimately have "Suc (length used) \<le> card (set used)"
    using card_mono [of "set used" "?f ` {..<Suc (length used)}"] by (simp add: card_image)
  with card_length [of used] show False by simp
qed

lemma generateNodeName_fresh:
  assumes "length used + 2 < 10 ^ 30"
  shows "\<exists>name k'. generateNodeName used rng k = Some (name, k') \<and> name \<notin> set used \<and> NODE_ID_REGEX name"
proof -
  obtain found c k' where r: "random_attempts used rng k MAX_RANDOM_ATTEMPTS [] = ((found, c), k')"
    by (metis prod.collapse)
  have c: "word_triple c" using random_attempts_ok(2) [OF r] by (simp add: MAX_RANDOM_ATTEMPTS_def)
  show ?thesis
  proof (cases found)
    case True
    with r random_attempts_ok(1) [OF r] c show ?thesis
      by (auto simp: generateNodeName_def word_triple_node_id)
  next
    case False
    then obtain f where "suffix_search used c 2 (Suc (length used)) = Some f"
      using suffix_search_finds [OF c assms] by auto
    with r False suffix_search_Some [OF this] show ?thesis by (auto simp: generateNodeName_def)
  qed
qed

lemma generateNodeName_Some:
  "generateNodeName used rng k = Some (name, k') \<Longrightarrow> name \<notin> set used"
proof -
  assume g: "generateNodeName used rng k = Some (name, k')"
  obtain found c k1 where r: "random_attempts used rng k MAX_RANDOM_ATTEMPTS [] = ((found, c), k1)"
    by (metis prod.collapse)
  with g random_attempts_ok(1) [OF r] show ?thesis
    by (auto simp: generateNodeName_def simp del: suffix_search.simps split: if_splits dest: suffix_search_Some)
qed

text \<open>
  Whatever the random generator returns, generating \<open>count\<close> names ends and gives \<open>count\<close> distinct,
  well-formed node ids, none of them already used.
\<close>

theorem generateNodeNames_fresh:
  "length used + count + 2 < 10 ^ 30 \<Longrightarrow>
   \<exists>names k'. generateNodeNames count used rng k = Some (names, k') \<and> length names = count
     \<and> distinct names \<and> set names \<inter> set used = {} \<and> list_all NODE_ID_REGEX names"
proof (induction count arbitrary: used k)
  case (Suc n)
  from Suc.prems obtain name k1 where 1: "generateNodeName used rng k = Some (name, k1)"
    "name \<notin> set used" "NODE_ID_REGEX name"
    using generateNodeName_fresh [of used rng k] by auto
  from Suc.prems have "length (name # used) + n + 2 < 10 ^ 30" by simp
  from Suc.IH [OF this, of k1] obtain names k2 where 2: "generateNodeNames n (name # used) rng k1 = Some (names, k2)"
    "length names = n" "distinct names" "set names \<inter> set (name # used) = {}" "list_all NODE_ID_REGEX names"
    by blast
  from 1 2 show ?case by auto
qed simp

lemma generateNodeNames_fresh_witness:
  "\<exists>names k'. generateNodeNames 2 [''ant-bounds-ably''] (\<lambda>_. 0) 0 = Some (names, k') \<and> length names = 2
     \<and> distinct names \<and> set names \<inter> set [''ant-bounds-ably''] = {} \<and> list_all NODE_ID_REGEX names"
  by (rule generateNodeNames_fresh) simp

end
