(* ===== verification/Placement.thy ===== *)
theory Placement
  imports Capacity Node_Names Js_Numbers
begin

text \<open>
  The cluster placement planner (\<open>packages/cli/src/deploy/placement.ts\<close>): replicas are bin-packed onto
  the app nodes by free headroom, volume services stay on one node, and a deploy may add nodes until
  the services fit. A node's tally is the demand committed so far with the largest rollout surge.
\<close>

section \<open>Nodes, services, tallies\<close>

record placement =
  pl_nodeId :: string
  pl_replicas :: int

record candidate_node =
  cn_nodeId :: string
  cn_architecture :: architecture
  cn_allocatableCpu :: int
  cn_allocatableMemory :: int
  cn_steadyCpu :: int
  cn_steadyMemory :: int
  cn_maxSurgeCpu :: int
  cn_maxSurgeMemory :: int

record cluster_service_input =
  cs_name :: string
  cs_replicas :: int
  cs_cpu :: int
  cs_memory :: int
  cs_maxSurge :: int
  cs_isWeb :: bool
  cs_hasVolumes :: bool
  cs_stickyNodeId :: "string option"

record cluster_service_plan =
  cp_service :: string
  cp_placements :: "placement list"
  cp_pool :: "string list"

record node_tally =
  nt_node :: candidate_node
  nt_steadyCpu :: int
  nt_steadyMemory :: int
  nt_maxSurgeCpu :: int
  nt_maxSurgeMemory :: int

definition UNBOUNDED :: int where "UNBOUNDED = 2 ^ 53 - 1"

definition bootstrapCandidateNode :: "string \<Rightarrow> architecture \<Rightarrow> candidate_node" where
  "bootstrapCandidateNode nodeId a =
     \<lparr>cn_nodeId = nodeId, cn_architecture = a, cn_allocatableCpu = UNBOUNDED,
      cn_allocatableMemory = UNBOUNDED, cn_steadyCpu = 0, cn_steadyMemory = 0,
      cn_maxSurgeCpu = 0, cn_maxSurgeMemory = 0\<rparr>"

definition initial_tally :: "candidate_node \<Rightarrow> node_tally" where
  "initial_tally n =
     \<lparr>nt_node = n, nt_steadyCpu = cn_steadyCpu n, nt_steadyMemory = cn_steadyMemory n,
      nt_maxSurgeCpu = cn_maxSurgeCpu n, nt_maxSurgeMemory = cn_maxSurgeMemory n\<rparr>"

abbreviation nt_id :: "node_tally \<Rightarrow> string" where
  "nt_id t \<equiv> cn_nodeId (nt_node t)"

section \<open>Feasibility and preference\<close>

definition fits :: "node_tally \<Rightarrow> cluster_service_input \<Rightarrow> int \<Rightarrow> bool" where
  "fits t s here \<longleftrightarrow>
     (let surgeCpu = max (nt_maxSurgeCpu t) (cs_cpu s * min (cs_maxSurge s) here);
          surgeMemory = max (nt_maxSurgeMemory t) (cs_memory s * min (cs_maxSurge s) here)
      in nt_steadyCpu t + cs_cpu s * here + surgeCpu \<le> cn_allocatableCpu (nt_node t)
         \<and> nt_steadyMemory t + cs_memory s * here + surgeMemory \<le> cn_allocatableMemory (nt_node t))"

definition freeCpuAfter :: "node_tally \<Rightarrow> cluster_service_input \<Rightarrow> int \<Rightarrow> int" where
  "freeCpuAfter t s here = cn_allocatableCpu (nt_node t) - (nt_steadyCpu t + cs_cpu s * here)"

definition freeMemoryAfter :: "node_tally \<Rightarrow> cluster_service_input \<Rightarrow> int \<Rightarrow> int" where
  "freeMemoryAfter t s here = cn_allocatableMemory (nt_node t) - (nt_steadyMemory t + cs_memory s * here)"

text \<open>The smaller of two doubles, \<open>None\<close> being \<open>NaN\<close>.\<close>

definition scoreAfter :: "node_tally \<Rightarrow> cluster_service_input \<Rightarrow> int \<Rightarrow> rat option" where
  "scoreAfter t s here =
     (case (fdiv (of_int (freeCpuAfter t s here)) (of_int (cn_allocatableCpu (nt_node t))),
            fdiv (of_int (freeMemoryAfter t s here)) (of_int (cn_allocatableMemory (nt_node t)))) of
        (Some x, Some y) \<Rightarrow> Some (min x y)
      | _ \<Rightarrow> None)"

type_synonym counts = "(string, int) assoc"

text \<open>
  Whether a node is preferred to the best one so far: more headroom, then more free CPU, then more free
  memory, then the smaller id. The difference of two doubles has the sign of their comparison.
\<close>

definition preferred ::
  "cluster_service_input \<Rightarrow> counts \<Rightarrow> int \<Rightarrow> node_tally \<Rightarrow> node_tally \<Rightarrow> bool" where
  "preferred s counts add t best =
     (let here = assoc_get_or 0 counts (nt_id t) + add;
          bestHere = assoc_get_or 0 counts (nt_id best) + add
      in case (scoreAfter t s here, scoreAfter best s bestHere) of
           (Some x, Some y) \<Rightarrow>
             if x > y then True
             else if x = y then
               (let dCpu = freeCpuAfter t s here - freeCpuAfter best s bestHere;
                    dMem = freeMemoryAfter t s here - freeMemoryAfter best s bestHere
                in dCpu > 0 \<or> (dCpu = 0 \<and> dMem > 0) \<or> (dCpu = 0 \<and> dMem = 0 \<and> nt_id t < nt_id best))
             else False
         | _ \<Rightarrow> False)"

fun best_loop ::
  "cluster_service_input \<Rightarrow> counts \<Rightarrow> int \<Rightarrow> node_tally option \<Rightarrow> node_tally list \<Rightarrow> node_tally option" where
  "best_loop s counts add best [] = best"
| "best_loop s counts add best (t # ts) =
     (if \<not> fits t s (assoc_get_or 0 counts (nt_id t) + add) then best_loop s counts add best ts
      else (case best of
              None \<Rightarrow> best_loop s counts add (Some t) ts
            | Some b \<Rightarrow> best_loop s counts add (Some (if preferred s counts add t b then t else b)) ts))"

definition bestNode :: "node_tally list \<Rightarrow> cluster_service_input \<Rightarrow> counts \<Rightarrow> int \<Rightarrow> node_tally option" where
  "bestNode tallies s counts add = best_loop s counts add None tallies"

section \<open>The planner\<close>

text \<open>Only \<open>NoFit\<close> is a capacity error, the one adding nodes can help with.\<close>

datatype placement_error = NoFit string int | StickyNodeFull string string

definition commit_one :: "cluster_service_input \<Rightarrow> int \<Rightarrow> node_tally \<Rightarrow> node_tally" where
  "commit_one s r t =
     t\<lparr>nt_steadyCpu := nt_steadyCpu t + cs_cpu s * r,
       nt_steadyMemory := nt_steadyMemory t + cs_memory s * r,
       nt_maxSurgeCpu := max (nt_maxSurgeCpu t) (cs_cpu s * min (cs_maxSurge s) r),
       nt_maxSurgeMemory := max (nt_maxSurgeMemory t) (cs_memory s * min (cs_maxSurge s) r)\<rparr>"

text \<open>The first tally of the placement's node is updated in place.\<close>

fun commit_at :: "cluster_service_input \<Rightarrow> placement \<Rightarrow> node_tally list \<Rightarrow> node_tally list" where
  "commit_at s p [] = []"
| "commit_at s p (t # ts) =
     (if nt_id t = pl_nodeId p then commit_one s (pl_replicas p) t # ts else t # commit_at s p ts)"

definition commit :: "node_tally list \<Rightarrow> cluster_service_input \<Rightarrow> placement list \<Rightarrow> node_tally list" where
  "commit tallies s ps = fold (commit_at s) ps tallies"

fun pack_loop ::
  "node_tally list \<Rightarrow> cluster_service_input \<Rightarrow> int \<Rightarrow> nat \<Rightarrow> counts \<Rightarrow> placement_error + counts" where
  "pack_loop pool s i 0 counts = Inr counts"
| "pack_loop pool s i (Suc n) counts =
     (case bestNode pool s counts 1 of
        None \<Rightarrow> Inl (NoFit (cs_name s) i)
      | Some b \<Rightarrow>
          pack_loop pool s (i + 1) n (assoc_set (nt_id b) (assoc_get_or 0 counts (nt_id b) + 1) counts))"

definition packByCapacity ::
  "node_tally list \<Rightarrow> cluster_service_input \<Rightarrow> placement_error + placement list" where
  "packByCapacity pool s =
     res_bind (pack_loop pool s 1 (nat (cs_replicas s)) []) (\<lambda>counts.
       Inr (filter (\<lambda>p. pl_replicas p > 0)
         (map (\<lambda>t. \<lparr>pl_nodeId = nt_id t, pl_replicas = assoc_get_or 0 counts (nt_id t)\<rparr>) pool)))"

definition placeVolumeService ::
  "node_tally list \<Rightarrow> cluster_service_input \<Rightarrow> placement_error + placement list" where
  "placeVolumeService tallies s =
     (let fresh = (case bestNode tallies s [] (cs_replicas s) of
             None \<Rightarrow> Inl (NoFit (cs_name s) 1)
           | Some b \<Rightarrow> Inr [\<lparr>pl_nodeId = nt_id b, pl_replicas = cs_replicas s\<rparr>])
      in case cs_stickyNodeId s of
           None \<Rightarrow> fresh
         | Some n \<Rightarrow>
             (case find (\<lambda>t. nt_id t = n) tallies of
                None \<Rightarrow> fresh
              | Some t \<Rightarrow>
                  if \<not> fits t s (cs_replicas s) then Inl (StickyNodeFull (cs_name s) n)
                  else Inr [\<lparr>pl_nodeId = nt_id t, pl_replicas = cs_replicas s\<rparr>]))"

fun plan_services ::
  "node_tally list \<Rightarrow> cluster_service_input list \<Rightarrow> placement_error + cluster_service_plan list" where
  "plan_services tallies [] = Inr []"
| "plan_services tallies (s # ss) =
     res_bind (if cs_hasVolumes s then placeVolumeService tallies s else packByCapacity tallies s) (\<lambda>ps.
     res_bind (plan_services (commit tallies s ps) ss) (\<lambda>plans.
       Inr (\<lparr>cp_service = cs_name s, cp_placements = ps, cp_pool = map nt_id tallies\<rparr> # plans)))"

definition planClusterPlacement ::
  "candidate_node list \<Rightarrow> cluster_service_input list \<Rightarrow> placement_error + cluster_service_plan list" where
  "planClusterPlacement nodes services = plan_services (map initial_tally nodes) services"

section \<open>Adding nodes\<close>

definition templateCandidateNode :: "string \<Rightarrow> candidate_node list \<Rightarrow> candidate_node" where
  "templateCandidateNode nodeId existing =
     (case existing of
        [] \<Rightarrow> bootstrapCandidateNode nodeId Arm64
      | e # es \<Rightarrow>
          \<lparr>cn_nodeId = nodeId, cn_architecture = cn_architecture e,
           cn_allocatableCpu = fold (\<lambda>n m. max m (cn_allocatableCpu n)) es (cn_allocatableCpu e),
           cn_allocatableMemory = fold (\<lambda>n m. max m (cn_allocatableMemory n)) es (cn_allocatableMemory e),
           cn_steadyCpu = 0, cn_steadyMemory = 0, cn_maxSurgeCpu = 0, cn_maxSurgeMemory = 0\<rparr>)"

text \<open>
  The loop of the code, with the number of nodes it may still add. A generated name is never missing
  (\<open>Node_Names.generateNodeName_fresh\<close>); were it, the error would stand.
\<close>

fun auto_add ::
  "candidate_node list \<Rightarrow> cluster_service_input list \<Rightarrow> draws \<Rightarrow> nat \<Rightarrow> nat \<Rightarrow> string list
   \<Rightarrow> candidate_node list \<Rightarrow> placement_error + (cluster_service_plan list \<times> candidate_node list)" where
  "auto_add base services rng budget k used added =
     (case planClusterPlacement (base @ added) services of
        Inr plans \<Rightarrow> Inr (plans, added)
      | Inl (StickyNodeFull a b) \<Rightarrow> Inl (StickyNodeFull a b)
      | Inl (NoFit a i) \<Rightarrow>
          (case budget of 0 \<Rightarrow> Inl (NoFit a i)
           | Suc budget' \<Rightarrow>
               (case generateNodeName used rng k of None \<Rightarrow> Inl (NoFit a i)
                | Some (nid, k') \<Rightarrow>
                    auto_add base services rng budget' k' (nid # used)
                      (added @ [templateCandidateNode nid base]))))"

declare auto_add.simps [simp del]

definition planClusterPlacementAutoAdd ::
  "candidate_node list \<Rightarrow> cluster_service_input list \<Rightarrow> nat \<Rightarrow> string list \<Rightarrow> draws
   \<Rightarrow> placement_error + (cluster_service_plan list \<times> candidate_node list)" where
  "planClusterPlacementAutoAdd nodes services maxAdd existingNodeIds rng =
     auto_add nodes services rng maxAdd 0 existingNodeIds []"

section \<open>The best node is feasible and preferred\<close>

lemma best_loop_Some:
  "best_loop s c a best ts = Some b \<Longrightarrow>
   (best = Some b \<or> b \<in> set ts \<and> fits b s (assoc_get_or 0 c (nt_id b) + a))"
  by (induction s c a best ts rule: best_loop.induct) (auto split: if_splits option.splits)

lemma bestNode_Some:
  "bestNode ts s c a = Some b \<Longrightarrow> b \<in> set ts \<and> fits b s (assoc_get_or 0 c (nt_id b) + a)"
  using best_loop_Some [of s c a None ts b] by (simp add: bestNode_def)

lemma best_loop_None:
  "best_loop s c a best ts = None \<longleftrightarrow> best = None \<and> (\<forall>t \<in> set ts. \<not> fits t s (assoc_get_or 0 c (nt_id t) + a))"
  by (induction s c a best ts rule: best_loop.induct) (auto split: if_splits option.splits)

lemma bestNode_None: "bestNode ts s c a = None \<longleftrightarrow> (\<forall>t \<in> set ts. \<not> fits t s (assoc_get_or 0 c (nt_id t) + a))"
  by (simp add: bestNode_def best_loop_None)

section \<open>Counting replicas\<close>

definition total_count :: "node_tally list \<Rightarrow> counts \<Rightarrow> int" where
  "total_count pool counts = sum_by (\<lambda>t. assoc_get_or 0 counts (nt_id t)) pool"

lemma get_or_set: "assoc_get_or 0 (assoc_set k v m) k' = (if k' = k then v else assoc_get_or 0 m k')"
  by (simp add: assoc_get_or_def map_of_assoc_set)

lemma total_count_set:
  assumes "distinct (map nt_id pool)" "b \<in> set pool"
  shows "total_count pool (assoc_set (nt_id b) (assoc_get_or 0 c (nt_id b) + 1) c) = total_count pool c + 1"
  using assms
proof (induction pool)
  case (Cons t ts)
  have skip: "sum_by (\<lambda>t. assoc_get_or 0 (assoc_set (nt_id b) v c) (nt_id t)) us = sum_by (\<lambda>t. assoc_get_or 0 c (nt_id t)) us"
    if "nt_id b \<notin> nt_id ` set us" for us v
    using that by (induction us) (auto simp: get_or_set)
  show ?case
  proof (cases "b = t")
    case True
    with Cons.prems skip [of ts] show ?thesis by (simp add: total_count_def get_or_set)
  next
    case False
    with Cons.prems have "b \<in> set ts" "nt_id t \<noteq> nt_id b" by auto
    with Cons show ?thesis by (simp add: total_count_def get_or_set)
  qed
qed simp

lemma pack_loop_ok:
  assumes "pack_loop pool s i n c = Inr c'" and "distinct (map nt_id pool)"
    and "\<forall>t \<in> set pool. 0 \<le> assoc_get_or 0 c (nt_id t)
      \<and> (assoc_get_or 0 c (nt_id t) = 0 \<or> fits t s (assoc_get_or 0 c (nt_id t)))"
  shows "total_count pool c' = total_count pool c + int n
    \<and> (\<forall>t \<in> set pool. 0 \<le> assoc_get_or 0 c' (nt_id t)
      \<and> (assoc_get_or 0 c' (nt_id t) = 0 \<or> fits t s (assoc_get_or 0 c' (nt_id t))))"
  using assms
proof (induction n arbitrary: i c)
  case (Suc n)
  from Suc.prems(1) obtain b where b: "bestNode pool s c 1 = Some b"
    and r: "pack_loop pool s (i + 1) n (assoc_set (nt_id b) (assoc_get_or 0 c (nt_id b) + 1) c) = Inr c'"
    by (auto split: option.splits)
  let ?c = "assoc_set (nt_id b) (assoc_get_or 0 c (nt_id b) + 1) c"
  from bestNode_Some [OF b] have bm: "b \<in> set pool" and bf: "fits b s (assoc_get_or 0 c (nt_id b) + 1)" by auto
  have same: "t = b" if "t \<in> set pool" "nt_id t = nt_id b" for t
    using that bm Suc.prems(2) by (metis distinct_map inj_on_eq_iff)
  have "\<forall>t \<in> set pool. 0 \<le> assoc_get_or 0 ?c (nt_id t)
      \<and> (assoc_get_or 0 ?c (nt_id t) = 0 \<or> fits t s (assoc_get_or 0 ?c (nt_id t)))"
  proof
    fix t assume t: "t \<in> set pool"
    show "0 \<le> assoc_get_or 0 ?c (nt_id t) \<and> (assoc_get_or 0 ?c (nt_id t) = 0 \<or> fits t s (assoc_get_or 0 ?c (nt_id t)))"
    proof (cases "nt_id t = nt_id b")
      case True
      with same t have "t = b" by blast
      moreover have "0 \<le> assoc_get_or 0 c (nt_id b)" using Suc.prems(3) bm by blast
      ultimately show ?thesis using bf by (simp add: get_or_set)
    next
      case False
      with Suc.prems(3) t show ?thesis by (simp add: get_or_set)
    qed
  qed
  from Suc.IH [OF r Suc.prems(2) this] total_count_set [OF Suc.prems(2) bm, of c] show ?case by simp
qed simp

text \<open>What a placement of one service satisfies, whichever way it was found.\<close>

definition good_placements :: "node_tally list \<Rightarrow> cluster_service_input \<Rightarrow> placement list \<Rightarrow> bool" where
  "good_placements tallies s ps \<longleftrightarrow>
     distinct (map pl_nodeId ps) \<and> sum_by pl_replicas ps = cs_replicas s
   \<and> (\<forall>p \<in> set ps. 0 < pl_replicas p
        \<and> (\<exists>t \<in> set tallies. nt_id t = pl_nodeId p \<and> fits t s (pl_replicas p)))"

lemma sum_by_filter_pos:
  "(\<forall>x \<in> set xs. 0 \<le> f x) \<Longrightarrow> sum_by f (filter (\<lambda>x. f x > 0) xs) = sum_by f xs"
  by (induction xs) auto

lemma packByCapacity_good:
  assumes "packByCapacity pool s = Inr ps" "distinct (map nt_id pool)" "1 \<le> cs_replicas s"
  shows "good_placements pool s ps"
proof -
  from assms(1) obtain c where c: "pack_loop pool s 1 (nat (cs_replicas s)) [] = Inr c"
    and ps: "ps = filter (\<lambda>p. pl_replicas p > 0)
         (map (\<lambda>t. \<lparr>pl_nodeId = nt_id t, pl_replicas = assoc_get_or 0 c (nt_id t)\<rparr>) pool)"
    by (auto simp: packByCapacity_def res_bind_eq_Inr)
  let ?all = "map (\<lambda>t. \<lparr>pl_nodeId = nt_id t, pl_replicas = assoc_get_or 0 c (nt_id t)\<rparr>) pool"
  have "total_count pool [] = 0"
    by (induction pool) (simp_all add: total_count_def assoc_get_or_def)
  with pack_loop_ok [OF c assms(2)] assms(3) have t: "total_count pool c = cs_replicas s"
    and ok: "\<forall>t \<in> set pool. 0 \<le> assoc_get_or 0 c (nt_id t)
      \<and> (assoc_get_or 0 c (nt_id t) = 0 \<or> fits t s (assoc_get_or 0 c (nt_id t)))"
    by (auto simp: assoc_get_or_def)
  have "sum_by pl_replicas ?all = cs_replicas s" using t by (simp add: total_count_def o_def)
  then have "sum_by pl_replicas ps = cs_replicas s"
    using ok unfolding ps by (subst sum_by_filter_pos) auto
  moreover have "distinct (map pl_nodeId ?all)" using assms(2) by (simp add: o_def)
  then have "distinct (map pl_nodeId ps)" unfolding ps by (rule distinct_map_filter_key)
  moreover have "\<exists>t \<in> set pool. nt_id t = pl_nodeId p \<and> fits t s (pl_replicas p)" if "p \<in> set ps" for p
  proof -
    from that obtain t where "t \<in> set pool" "p = \<lparr>pl_nodeId = nt_id t, pl_replicas = assoc_get_or 0 c (nt_id t)\<rparr>"
      "pl_replicas p > 0" by (auto simp: ps)
    with ok show ?thesis by (intro bexI [of _ t]) auto
  qed
  moreover have "0 < pl_replicas p" if "p \<in> set ps" for p using that by (auto simp: ps)
  ultimately show ?thesis by (simp add: good_placements_def)
qed

lemma placeVolumeService_good:
  assumes "placeVolumeService tallies s = Inr ps" "1 \<le> cs_replicas s"
  shows "good_placements tallies s ps \<and> length ps = 1"
proof -
  have fresh: "good_placements tallies s ps \<and> length ps = 1"
    if "bestNode tallies s [] (cs_replicas s) = Some b" "ps = [\<lparr>pl_nodeId = nt_id b, pl_replicas = cs_replicas s\<rparr>]" for b
    using bestNode_Some [OF that(1)] that(2) assms(2) by (auto simp: good_placements_def assoc_get_or_def)
  show ?thesis
    using assms fresh by (auto simp: placeVolumeService_def Let_def good_placements_def
        split: option.splits if_splits dest: find_SomeD)
qed

section \<open>Committing a service\<close>

text \<open>What the commit of a service does to one tally.\<close>

definition commit_node :: "cluster_service_input \<Rightarrow> placement list \<Rightarrow> node_tally \<Rightarrow> node_tally" where
  "commit_node s ps t =
     (case find (\<lambda>p. pl_nodeId p = nt_id t) ps of None \<Rightarrow> t | Some p \<Rightarrow> commit_one s (pl_replicas p) t)"

lemma commit_one_id [simp]: "nt_node (commit_one s r t) = nt_node t"
  by (simp add: commit_one_def)

lemma commit_node_id [simp]: "nt_node (commit_node s ps t) = nt_node t"
  by (simp add: commit_node_def split: option.splits)

lemma commit_at_map:
  "distinct (map nt_id ts) \<Longrightarrow>
   commit_at s p ts = map (\<lambda>t. if nt_id t = pl_nodeId p then commit_one s (pl_replicas p) t else t) ts"
proof (induction ts)
  case (Cons t ts)
  have "map (\<lambda>t. if nt_id t = pl_nodeId p then commit_one s (pl_replicas p) t else t) ts = ts"
    if "nt_id t = pl_nodeId p"
    using Cons.prems that by (intro map_idI) (force simp: image_iff)
  with Cons show ?case by auto
qed simp

lemma commit_map:
  "distinct (map nt_id ts) \<Longrightarrow> distinct (map pl_nodeId ps) \<Longrightarrow> commit ts s ps = map (commit_node s ps) ts"
proof (induction ps arbitrary: ts)
  case Nil
  then show ?case by (simp add: commit_def commit_node_def)
next
  case (Cons p ps)
  let ?f = "\<lambda>t. if nt_id t = pl_nodeId p then commit_one s (pl_replicas p) t else t"
  have d: "distinct (map nt_id (map ?f ts))"
  proof -
    have e: "map nt_id (map ?f ts) = map nt_id ts" by simp
    show ?thesis unfolding e by (rule Cons.prems(1))
  qed
  have n: "find (\<lambda>q. pl_nodeId q = pl_nodeId p) ps = None"
    using Cons.prems(2) by (auto simp: find_None_iff) (metis image_eqI)
  have "commit ts s (p # ps) = commit (map ?f ts) s ps"
    using commit_at_map [OF Cons.prems(1)] by (simp add: commit_def)
  also have "\<dots> = map (commit_node s ps) (map ?f ts)"
    using Cons.IH [OF d] Cons.prems(2) by simp
  also have "\<dots> = map (commit_node s (p # ps)) ts"
    using n by (auto simp: commit_node_def)
  finally show ?case .
qed

definition tally_ok :: "node_tally \<Rightarrow> bool" where
  "tally_ok t \<longleftrightarrow> nt_steadyCpu t + nt_maxSurgeCpu t \<le> cn_allocatableCpu (nt_node t)
     \<and> nt_steadyMemory t + nt_maxSurgeMemory t \<le> cn_allocatableMemory (nt_node t)"

lemma fits_tally_ok: "fits t s r \<Longrightarrow> tally_ok (commit_one s r t)"
  by (simp add: fits_def tally_ok_def commit_one_def Let_def)

section \<open>The whole plan\<close>

fun replay :: "node_tally \<Rightarrow> cluster_service_input list \<Rightarrow> cluster_service_plan list \<Rightarrow> node_tally" where
  "replay t (s # ss) (p # ps) = replay (commit_node s (cp_placements p) t) ss ps"
| "replay t _ _ = t"

definition receives :: "string \<Rightarrow> cluster_service_plan list \<Rightarrow> bool" where
  "receives n plans \<longleftrightarrow> (\<exists>p \<in> set plans. n \<in> pl_nodeId ` set (cp_placements p))"

lemma find_placement: "n \<notin> pl_nodeId ` set ps \<Longrightarrow> find (\<lambda>p. pl_nodeId p = n) ps = None"
  by (auto simp: find_None_iff)

lemma replay_none: "\<not> receives (nt_id t) plans \<Longrightarrow> replay t ss plans = t"
proof (induction t ss plans rule: replay.induct)
  case (1 t s ss p ps)
  then have "commit_node s (cp_placements p) t = t"
    by (auto simp: receives_def commit_node_def find_placement)
  with 1 show ?case by (auto simp: receives_def)
qed auto

lemma plan_services_step:
  assumes "plan_services ts (s # ss) = Inr plans" "distinct (map nt_id ts)" "1 \<le> cs_replicas s"
  obtains ps plans' where "plans = \<lparr>cp_service = cs_name s, cp_placements = ps, cp_pool = map nt_id ts\<rparr> # plans'"
    "good_placements ts s ps" "plan_services (map (commit_node s ps) ts) ss = Inr plans'"
    "cs_hasVolumes s \<Longrightarrow> placeVolumeService ts s = Inr ps"
proof -
  from assms(1) obtain ps plans' where
    ps: "(if cs_hasVolumes s then placeVolumeService ts s else packByCapacity ts s) = Inr ps"
    and r: "plan_services (commit ts s ps) ss = Inr plans'"
    and p: "plans = \<lparr>cp_service = cs_name s, cp_placements = ps, cp_pool = map nt_id ts\<rparr> # plans'"
    by (auto simp: res_bind_eq_Inr)
  have g: "good_placements ts s ps"
    using ps packByCapacity_good [of ts s ps] placeVolumeService_good [of ts s ps] assms(2,3)
    by (auto split: if_splits)
  moreover from g have "distinct (map pl_nodeId ps)" by (simp add: good_placements_def)
  then have "commit ts s ps = map (commit_node s ps) ts" by (rule commit_map [OF assms(2)])
  moreover have "placeVolumeService ts s = Inr ps" if "cs_hasVolumes s" using ps that by simp
  ultimately show ?thesis using that p r by metis
qed

lemma ids_commit [simp]: "map nt_id (map (commit_node s ps) ts) = map nt_id ts"
  by simp

lemma plan_services_tally_ok:
  assumes "plan_services ts ss = Inr plans" "distinct (map nt_id ts)" "\<forall>s \<in> set ss. 1 \<le> cs_replicas s"
    and "t \<in> set ts" "receives (nt_id t) plans"
  shows "tally_ok (replay t ss plans)"
  using assms
proof (induction ss arbitrary: ts plans t)
  case Nil
  then show ?case by (simp add: receives_def)
next
  case (Cons s ss)
  from Cons.prems(3) have "1 \<le> cs_replicas s" by simp
  from plan_services_step [OF Cons.prems(1,2) this] obtain ps plans' where
    pl: "plans = \<lparr>cp_service = cs_name s, cp_placements = ps, cp_pool = map nt_id ts\<rparr> # plans'"
    and g: "good_placements ts s ps" and r: "plan_services (map (commit_node s ps) ts) ss = Inr plans'"
    by metis
  let ?t = "commit_node s ps t"
  have rt: "replay t (s # ss) plans = replay ?t ss plans'" by (simp add: pl)
  show ?case
  proof (cases "receives (nt_id t) plans'")
    case True
    have d: "distinct (map nt_id (map (commit_node s ps) ts))"
      unfolding ids_commit by (rule Cons.prems(2))
    have m: "?t \<in> set (map (commit_node s ps) ts)" using Cons.prems(4) by simp
    show ?thesis unfolding rt
      using Cons.IH [OF r d _ m] Cons.prems(3) True by simp
  next
    case False
    then have "replay ?t ss plans' = ?t" by (intro replay_none) simp
    moreover from False Cons.prems(5) have "nt_id t \<in> pl_nodeId ` set ps"
      by (auto simp: receives_def pl)
    then obtain p where p: "find (\<lambda>p. pl_nodeId p = nt_id t) ps = Some p"
      by (cases "find (\<lambda>p. pl_nodeId p = nt_id t) ps") (auto simp: find_None_iff)
    from find_SomeD [OF p] g obtain t' where t': "t' \<in> set ts" "nt_id t' = nt_id t" "fits t' s (pl_replicas p)"
      by (auto simp: good_placements_def)
    have "inj_on nt_id (set ts)" using Cons.prems(2) by (simp add: distinct_map)
    from inj_onD [OF this t'(2,1) Cons.prems(4)] t'(3) have "fits t s (pl_replicas p)" by simp
    then have "tally_ok ?t" using p fits_tally_ok by (simp add: commit_node_def)
    ultimately show ?thesis by (simp add: rt)
  qed
qed

text \<open>The demands a plan puts on a node, as the admission check counts them.\<close>

definition placement_demand :: "string \<Rightarrow> cluster_service_input \<Rightarrow> int \<Rightarrow> capacity_demand" where
  "placement_demand project s r =
     \<lparr>cd_project = project, cd_service = cs_name s, cd_cpu = cs_cpu s * r, cd_memory = cs_memory s * r,
      cd_surgeCpu = Some (cs_cpu s * min (cs_maxSurge s) r),
      cd_surgeMemory = Some (cs_memory s * min (cs_maxSurge s) r)\<rparr>"

fun planned_demands ::
  "string \<Rightarrow> string \<Rightarrow> cluster_service_input list \<Rightarrow> cluster_service_plan list \<Rightarrow> capacity_demand list" where
  "planned_demands project n (s # ss) (p # ps) =
     (case find (\<lambda>q. pl_nodeId q = n) (cp_placements p) of
        None \<Rightarrow> [] | Some q \<Rightarrow> [placement_demand project s (pl_replicas q)])
     @ planned_demands project n ss ps"
| "planned_demands project n _ _ = []"

abbreviation surgeCpuOf :: "capacity_demand list \<Rightarrow> int" where
  "surgeCpuOf ds \<equiv> max_by (\<lambda>d. or0 (cd_surgeCpu d)) ds"

abbreviation surgeMemoryOf :: "capacity_demand list \<Rightarrow> int" where
  "surgeMemoryOf ds \<equiv> max_by (\<lambda>d. or0 (cd_surgeMemory d)) ds"

lemma replay_demands:
  assumes "0 \<le> nt_maxSurgeCpu t" "0 \<le> nt_maxSurgeMemory t"
  shows "nt_steadyCpu (replay t ss ps) = nt_steadyCpu t + sum_by cd_cpu (planned_demands pr (nt_id t) ss ps)
   \<and> nt_steadyMemory (replay t ss ps) = nt_steadyMemory t + sum_by cd_memory (planned_demands pr (nt_id t) ss ps)
   \<and> nt_maxSurgeCpu (replay t ss ps) = max (nt_maxSurgeCpu t) (surgeCpuOf (planned_demands pr (nt_id t) ss ps))
   \<and> nt_maxSurgeMemory (replay t ss ps) = max (nt_maxSurgeMemory t) (surgeMemoryOf (planned_demands pr (nt_id t) ss ps))
   \<and> nt_node (replay t ss ps) = nt_node t"
  using assms
proof (induction t ss ps rule: replay.induct)
  case (1 t s ss p ps)
  show ?case
  proof (cases "find (\<lambda>q. pl_nodeId q = nt_id t) (cp_placements p)")
    case None
    with 1 show ?thesis by (simp add: commit_node_def)
  next
    case (Some q)
    then have c: "commit_node s (cp_placements p) t = commit_one s (pl_replicas q) t"
      by (simp add: commit_node_def)
    have pos: "0 \<le> nt_maxSurgeCpu (commit_one s (pl_replicas q) t)" "0 \<le> nt_maxSurgeMemory (commit_one s (pl_replicas q) t)"
      using 1(2,3) by (simp_all add: commit_one_def)
    note IH = 1(1) [unfolded c, OF pos]
    show ?thesis using IH Some
      by (simp add: c) (simp add: commit_one_def placement_demand_def or0_def max.assoc)
  qed
qed auto

lemma placement_fits_gate:
  assumes plan: "planClusterPlacement nodes services = Inr plans"
    and d: "distinct (map cn_nodeId nodes)" and reps: "\<forall>s \<in> set services. 1 \<le> cs_replicas s"
    and n: "n \<in> set nodes" and r: "receives (cn_nodeId n) plans"
    and base: "cn_steadyCpu n = sum_by cd_cpu base" "cn_steadyMemory n = sum_by cd_memory base"
      "cn_maxSurgeCpu n = surgeCpuOf base" "cn_maxSurgeMemory n = surgeMemoryOf base"
    and alloc: "cn_allocatableCpu n = ci_totalCpu i - ci_reservedCpu i"
      "cn_allocatableMemory n = ci_totalMemory i - ci_reservedMemory i"
  shows "cr_ok (checkCapacity (i\<lparr>ci_services := base @ planned_demands project (cn_nodeId n) services plans\<rparr>))"
proof -
  let ?t = "initial_tally n"
  have id: "nt_id (initial_tally m) = cn_nodeId m" for m by (simp add: initial_tally_def)
  have "distinct (map nt_id (map initial_tally nodes))" using d by (simp add: id o_def)
  moreover have "?t \<in> set (map initial_tally nodes)" using n by simp
  ultimately have ok: "tally_ok (replay ?t services plans)"
    using plan_services_tally_ok [of "map initial_tally nodes" services plans ?t] plan reps r
    by (simp add: planClusterPlacement_def id)
  have "0 \<le> nt_maxSurgeCpu ?t" "0 \<le> nt_maxSurgeMemory ?t" using base by (simp_all add: initial_tally_def)
  from replay_demands [OF this, of services plans project] ok
  show ?thesis
    by (simp add: tally_ok_def checkCapacity_ok id) (simp add: initial_tally_def base alloc)
qed

text \<open>
  C13. What the planner accepts the admission check admits: on every node that receives a replica, the
  demand already there together with everything planned for the node passes \<open>checkCapacity\<close>, rollout
  surge included.
\<close>

theorem accepted_placement_passes_check:
  assumes plan: "planClusterPlacement nodes services = Inr plans"
    and d: "distinct (map cn_nodeId nodes)" and reps: "\<forall>s \<in> set services. 1 \<le> cs_replicas s"
    and n: "n \<in> set nodes" and r: "receives (cn_nodeId n) plans"
    and base: "cn_steadyCpu n = sum_by cd_cpu base" "cn_steadyMemory n = sum_by cd_memory base"
      "cn_maxSurgeCpu n = surgeCpuOf base" "cn_maxSurgeMemory n = surgeMemoryOf base"
    and alloc: "cn_allocatableCpu n = ci_totalCpu i - ci_reservedCpu i"
      "cn_allocatableMemory n = ci_totalMemory i - ci_reservedMemory i"
  shows "cr_ok (checkCapacity (i\<lparr>ci_services := base @ planned_demands project (cn_nodeId n) services plans\<rparr>))"
  by (rule placement_fits_gate [OF assms])

lemma plan_services_complete:
  assumes "plan_services ts ss = Inr plans" "distinct (map nt_id ts)" "\<forall>s \<in> set ss. 1 \<le> cs_replicas s"
  shows "map cp_service plans = map cs_name ss
    \<and> list_all2 (\<lambda>s p. sum_by pl_replicas (cp_placements p) = cs_replicas s
        \<and> distinct (map pl_nodeId (cp_placements p))
        \<and> list_all (\<lambda>q. 0 < pl_replicas q \<and> pl_nodeId q \<in> set (map nt_id ts)) (cp_placements p)
        \<and> (cs_hasVolumes s \<longrightarrow> length (cp_placements p) = 1)
        \<and> (cs_hasVolumes s \<and> (\<exists>n \<in> set (map nt_id ts). cs_stickyNodeId s = Some n) \<longrightarrow>
             map Some (map pl_nodeId (cp_placements p)) = [cs_stickyNodeId s])) ss plans"
  using assms
proof (induction ss arbitrary: ts plans)
  case (Cons s ss)
  from Cons.prems(3) have one: "1 \<le> cs_replicas s" by simp
  from plan_services_step [OF Cons.prems(1,2) one] obtain ps plans' where
    pl: "plans = \<lparr>cp_service = cs_name s, cp_placements = ps, cp_pool = map nt_id ts\<rparr> # plans'"
    and g: "good_placements ts s ps" and r: "plan_services (map (commit_node s ps) ts) ss = Inr plans'"
    and v: "cs_hasVolumes s \<Longrightarrow> placeVolumeService ts s = Inr ps" by metis
  have ids: "map nt_id (map (commit_node s ps) ts) = map nt_id ts" by (rule ids_commit)
  have d: "distinct (map nt_id (map (commit_node s ps) ts))" unfolding ids by (rule Cons.prems(2))
  have tail: "\<forall>s \<in> set ss. 1 \<le> cs_replicas s" using Cons.prems(3) by simp
  note IH = Cons.IH [OF r d tail, unfolded ids]
  have "sum_by pl_replicas ps = cs_replicas s \<and> distinct (map pl_nodeId ps)
      \<and> list_all (\<lambda>q. 0 < pl_replicas q \<and> pl_nodeId q \<in> set (map nt_id ts)) ps"
    using g by (auto simp: good_placements_def list_all_iff) (metis image_eqI)
  moreover have "length ps = 1" if "cs_hasVolumes s"
    using placeVolumeService_good [OF v [OF that] one] by blast
  moreover have "map Some (map pl_nodeId ps) = [cs_stickyNodeId s]"
    if h: "cs_hasVolumes s" and st: "\<exists>n \<in> set (map nt_id ts). cs_stickyNodeId s = Some n"
  proof -
    from st obtain n where n: "n \<in> set (map nt_id ts)" "cs_stickyNodeId s = Some n" by blast
    then obtain t where t: "find (\<lambda>t. nt_id t = n) ts = Some t"
      by (cases "find (\<lambda>t. nt_id t = n) ts") (auto simp: find_None_iff)
    with find_SomeD [OF t] v [OF h] n(2) show ?thesis
      by (auto simp: placeVolumeService_def split: if_splits)
  qed
  ultimately show ?case using IH by (simp add: pl)
qed simp

text \<open>
  An accepted plan is complete: every service is planned in order, exactly its replicas are placed,
  on distinct nodes of the pool with at least one replica each; a volume service is on one node, and on
  the node that holds its data when that node is in the pool.
\<close>

theorem accepted_placement_complete:
  assumes "planClusterPlacement nodes services = Inr plans"
    and "distinct (map cn_nodeId nodes)" and "\<forall>s \<in> set services. 1 \<le> cs_replicas s"
  shows "map cp_service plans = map cs_name services
    \<and> list_all2 (\<lambda>s p. sum_by pl_replicas (cp_placements p) = cs_replicas s
        \<and> distinct (map pl_nodeId (cp_placements p))
        \<and> list_all (\<lambda>q. 0 < pl_replicas q \<and> pl_nodeId q \<in> set (map cn_nodeId nodes)) (cp_placements p)
        \<and> (cs_hasVolumes s \<longrightarrow> length (cp_placements p) = 1)
        \<and> (cs_hasVolumes s \<and> (\<exists>n \<in> set (map cn_nodeId nodes). cs_stickyNodeId s = Some n) \<longrightarrow>
             map Some (map pl_nodeId (cp_placements p)) = [cs_stickyNodeId s])) services plans"
proof -
  have ids: "map nt_id (map initial_tally nodes) = map cn_nodeId nodes"
    by (simp add: initial_tally_def)
  show ?thesis
    using plan_services_complete [of "map initial_tally nodes" services plans, unfolded ids] assms
    by (simp add: planClusterPlacement_def)
qed

section \<open>The chosen node has the most headroom\<close>

lemma fits_score:
  assumes "fits t s here" "1 \<le> cs_cpu s" "1 \<le> cs_memory s" "1 \<le> here"
    "0 \<le> nt_steadyCpu t" "0 \<le> nt_steadyMemory t" "0 \<le> nt_maxSurgeCpu t" "0 \<le> nt_maxSurgeMemory t"
  shows "scoreAfter t s here \<noteq> None"
proof -
  have "1 \<le> cs_cpu s * here" "1 \<le> cs_memory s * here"
    using assms(2-4) mult_mono [of 1 "cs_cpu s" 1 here] mult_mono [of 1 "cs_memory s" 1 here] by simp_all
  then have "0 < cn_allocatableCpu (nt_node t)" "0 < cn_allocatableMemory (nt_node t)"
    using assms by (auto simp: fits_def Let_def)
  then show ?thesis by (simp add: scoreAfter_def fdiv_def)
qed

lemma preferred_score:
  assumes "scoreAfter t s (assoc_get_or 0 c (nt_id t) + a) = Some x"
    and "scoreAfter b s (assoc_get_or 0 c (nt_id b) + a) = Some y"
  shows "if preferred s c a t b then y \<le> x else x \<le> y"
  using assms by (auto simp: preferred_def Let_def)

lemma best_loop_max:
  assumes "best_loop s c a best ts = Some b"
    and "\<And>t. t \<in> set ts \<Longrightarrow> fits t s (assoc_get_or 0 c (nt_id t) + a) \<Longrightarrow>
      scoreAfter t s (assoc_get_or 0 c (nt_id t) + a) \<noteq> None"
    and "\<And>t. best = Some t \<Longrightarrow> scoreAfter t s (assoc_get_or 0 c (nt_id t) + a) \<noteq> None"
    and "t \<in> set ts \<and> fits t s (assoc_get_or 0 c (nt_id t) + a) \<or> best = Some t"
  shows "the (scoreAfter t s (assoc_get_or 0 c (nt_id t) + a)) \<le> the (scoreAfter b s (assoc_get_or 0 c (nt_id b) + a))"
  using assms
proof (induction s c a best ts arbitrary: t rule: best_loop.induct)
  case (1 s c a best)
  then show ?case by auto
next
  case (2 s c a best u us)
  let ?sc = "\<lambda>v. scoreAfter v s (assoc_get_or 0 c (nt_id v) + a)"
  show ?case
  proof (cases "fits u s (assoc_get_or 0 c (nt_id u) + a)")
    case False
    with 2(4) have run: "best_loop s c a best us = Some b" by simp
    from 2(7) False have "t \<in> set us \<and> fits t s (assoc_get_or 0 c (nt_id t) + a) \<or> best = Some t" by auto
    with 2(1) [OF _ run] 2(5,6) False show ?thesis by simp
  next
    case True
    show ?thesis
    proof (cases best)
      case None
      with 2(4) True have run: "best_loop s c a (Some u) us = Some b" by simp
      from 2(7) None have "t \<in> set us \<and> fits t s (assoc_get_or 0 c (nt_id t) + a) \<or> Some u = Some t" by auto
      with 2(2) [OF _ None run] 2(5) True show ?thesis by auto
    next
      case (Some d)
      let ?w = "if preferred s c a u d then u else d"
      have run: "best_loop s c a (Some ?w) us = Some b" using 2(4) True Some by simp
      have su: "?sc u \<noteq> None" using 2(5) True by simp
      have sd: "?sc d \<noteq> None" using 2(6) Some by simp
      obtain x y where xy: "?sc u = Some x" "?sc d = Some y" using su sd by auto
      have w: "the (?sc u) \<le> the (?sc ?w)" "the (?sc d) \<le> the (?sc ?w)" "?sc ?w \<noteq> None"
        using preferred_score [OF xy] xy by (auto split: if_splits)
      note IH = 2(3) [OF _ Some run]
      have wb: "the (?sc ?w) \<le> the (?sc b)" using IH [of ?w] 2(5) w(3) True by auto
      from 2(7) Some consider "t = u" | "t = d" | "t \<in> set us \<and> fits t s (assoc_get_or 0 c (nt_id t) + a)" by auto
      then show ?thesis
      proof cases
        case 1
        with w wb show ?thesis by simp
      next
        case 2
        with w wb show ?thesis by simp
      next
        case 3
        with IH [of t] 2(5) w(3) True show ?thesis by auto
      qed
    qed
  qed
qed

definition sane_tally :: "node_tally \<Rightarrow> bool" where
  "sane_tally t \<longleftrightarrow> 0 \<le> nt_steadyCpu t \<and> 0 \<le> nt_steadyMemory t \<and> 0 \<le> nt_maxSurgeCpu t \<and> 0 \<le> nt_maxSurgeMemory t"

text \<open>
  A replica goes to a feasible node with the most headroom: the chosen node has capacity for it,
  and no other node with capacity would keep a larger free share of its scarcer resource; no node is
  chosen only when none has capacity.
\<close>

theorem bestNode_most_headroom:
  assumes "1 \<le> cs_cpu s" "1 \<le> cs_memory s" "1 \<le> add" "list_all sane_tally tallies"
    and "list_all (\<lambda>t. 0 \<le> assoc_get_or 0 counts (nt_id t)) tallies"
  shows "case bestNode tallies s counts add of
      None \<Rightarrow> list_all (\<lambda>t. \<not> fits t s (assoc_get_or 0 counts (nt_id t) + add)) tallies
    | Some b \<Rightarrow> b \<in> set tallies \<and> fits b s (assoc_get_or 0 counts (nt_id b) + add)
        \<and> list_all (\<lambda>t. \<not> fits t s (assoc_get_or 0 counts (nt_id t) + add)
             \<or> the (scoreAfter t s (assoc_get_or 0 counts (nt_id t) + add))
               \<le> the (scoreAfter b s (assoc_get_or 0 counts (nt_id b) + add))) tallies"
proof (cases "bestNode tallies s counts add")
  case None
  then show ?thesis using bestNode_None [of tallies s counts add] by (simp add: list_all_iff)
next
  case (Some b)
  have sc: "scoreAfter t s (assoc_get_or 0 counts (nt_id t) + add) \<noteq> None"
    if "t \<in> set tallies" "fits t s (assoc_get_or 0 counts (nt_id t) + add)" for t
  proof (rule fits_score [OF that(2)])
    show "1 \<le> assoc_get_or 0 counts (nt_id t) + add" using assms(3,5) that(1) by (auto simp: list_all_iff)
  qed (use assms that(1) in \<open>auto simp: list_all_iff sane_tally_def\<close>)
  have "the (scoreAfter t s (assoc_get_or 0 counts (nt_id t) + add))
      \<le> the (scoreAfter b s (assoc_get_or 0 counts (nt_id b) + add))"
    if "t \<in> set tallies" "fits t s (assoc_get_or 0 counts (nt_id t) + add)" for t
    using best_loop_max [of s counts add None tallies b t] Some sc that by (simp add: bestNode_def)
  with Some bestNode_Some [OF Some] show ?thesis by (auto simp: list_all_iff)
qed

section \<open>Adding nodes ends and adds no more than needed\<close>

lemma template_id [simp]: "cn_nodeId (templateCandidateNode nid base) = nid"
  by (simp add: templateCandidateNode_def bootstrapCandidateNode_def split: list.splits)

text \<open>One round of the loop: it ends with the planner's answer, or adds one fresh node and goes on.\<close>

lemma auto_add_cases:
  assumes "auto_add base services rng budget k used added = r"
  obtains (planned) plans where "planClusterPlacement (base @ added) services = Inr plans" "r = Inr (plans, added)"
  | (sticky) a b where "r = Inl (StickyNodeFull a b)"
  | (full) a i where "planClusterPlacement (base @ added) services = Inl (NoFit a i)" "r = Inl (NoFit a i)"
      "budget = 0 \<or> generateNodeName used rng k = None"
  | (grow) a i budget' nid k' where "planClusterPlacement (base @ added) services = Inl (NoFit a i)"
      "budget = Suc budget'" "nid \<notin> set used"
      "auto_add base services rng budget' k' (nid # used) (added @ [templateCandidateNode nid base]) = r"
proof (cases "planClusterPlacement (base @ added) services")
  case (Inr plans)
  with assms have "r = Inr (plans, added)" by (subst (asm) auto_add.simps) simp
  with Inr show ?thesis by (rule planned)
next
  case (Inl e)
  show ?thesis
  proof (cases e)
    case (StickyNodeFull a b)
    with Inl assms have "r = Inl (StickyNodeFull a b)" by (subst (asm) auto_add.simps) simp
    then show ?thesis by (rule sticky)
  next
    case (NoFit a i)
    note p = Inl [unfolded NoFit]
    show ?thesis
    proof (cases budget)
      case 0
      with p assms have "r = Inl (NoFit a i)" by (subst (asm) auto_add.simps) simp
      with p 0 show ?thesis by (intro full) auto
    next
      case (Suc b)
      show ?thesis
      proof (cases "generateNodeName used rng k")
        case None
        with p Suc assms have "r = Inl (NoFit a i)" by (subst (asm) auto_add.simps) simp
        with p None show ?thesis by (intro full) auto
      next
        case (Some nk)
        obtain nid k' where nk: "nk = (nid, k')" by (cases nk)
        with p Suc Some assms
        have "auto_add base services rng b k' (nid # used) (added @ [templateCandidateNode nid base]) = r"
          by (subst (asm) auto_add.simps) simp
        with p Suc generateNodeName_Some [OF Some [unfolded nk]] show ?thesis by (rule grow)
      qed
    qed
  qed
qed

lemma auto_add_Inr:
  assumes "auto_add base services rng budget k used added = Inr (plans, final)"
  shows "\<exists>extra. final = added @ extra \<and> length extra \<le> budget
    \<and> planClusterPlacement (base @ final) services = Inr plans
    \<and> (\<forall>j < length extra. \<not> (\<exists>ps. planClusterPlacement (base @ added @ take j extra) services = Inr ps))
    \<and> distinct (map cn_nodeId extra) \<and> set (map cn_nodeId extra) \<inter> set used = {}"
  using assms
proof (induction budget arbitrary: k used added)
  case 0
  from 0 show ?case by (cases rule: auto_add_cases) auto
next
  case (Suc budget)
  from Suc.prems show ?case
  proof (cases rule: auto_add_cases)
    case (grow a i budget' nid k')
    let ?x = "templateCandidateNode nid base"
    from grow(2) have "auto_add base services rng budget k' (nid # used) (added @ [?x]) = Inr (plans, final)"
      using grow(4) by simp
    from Suc.IH [OF this] obtain extra where e: "final = added @ ?x # extra" "length extra \<le> budget"
      "planClusterPlacement (base @ final) services = Inr plans"
      "\<forall>j < length extra. \<not> (\<exists>ps. planClusterPlacement (base @ added @ ?x # take j extra) services = Inr ps)"
      "distinct (map cn_nodeId extra)" "set (map cn_nodeId extra) \<inter> set (nid # used) = {}" by auto
    have "\<not> (\<exists>ps. planClusterPlacement (base @ added @ take j (?x # extra)) services = Inr ps)"
      if "j < length (?x # extra)" for j
      using that grow(1) e(4) by (cases j) auto
    moreover have "distinct (map cn_nodeId (?x # extra))" "set (map cn_nodeId (?x # extra)) \<inter> set used = {}"
      using e(5,6) grow(3) by auto
    ultimately show ?thesis
      using e(1-3) by (intro exI [of _ "?x # extra"]) auto
  qed auto
qed

lemma auto_add_NoFit:
  assumes "auto_add base services rng budget k used added = Inl (NoFit a i)"
    and "length used + budget + 2 < 10 ^ 30"
  shows "\<exists>extra. length extra = budget \<and> planClusterPlacement (base @ added @ extra) services = Inl (NoFit a i)"
  using assms
proof (induction budget arbitrary: k used added)
  case 0
  from 0(1) show ?case by (cases rule: auto_add_cases) auto
next
  case (Suc budget)
  from Suc.prems(1) show ?case
  proof (cases rule: auto_add_cases)
    case (full a' i')
    then show ?thesis using generateNodeName_fresh [of used rng k] Suc.prems(2) by auto
  next
    case (grow a' i' budget' nid k')
    then have "auto_add base services rng budget k' (nid # used) (added @ [templateCandidateNode nid base]) = Inl (NoFit a i)"
      by simp
    from Suc.IH [OF this] Suc.prems(2) obtain extra where "length extra = budget"
      "planClusterPlacement (base @ added @ templateCandidateNode nid base # extra) services = Inl (NoFit a i)" by auto
    then show ?thesis by (intro exI [of _ "templateCandidateNode nid base # extra"]) simp
  qed auto
qed

text \<open>
  Adding nodes ends, and adds no more than needed: an accepted plan is a plan of the given nodes and
  at most \<open>maxAdd\<close> new ones with fresh distinct ids, and with any fewer of those the services did not
  fit; a capacity error is reported only after \<open>maxAdd\<close> nodes were added in vain.
\<close>

theorem autoAdd_least:
  assumes "length existingNodeIds + maxAdd + 2 < 10 ^ 30"
  shows "case planClusterPlacementAutoAdd nodes services maxAdd existingNodeIds rng of
      Inr (plans, added) \<Rightarrow>
        planClusterPlacement (nodes @ added) services = Inr plans \<and> length added \<le> maxAdd
        \<and> distinct (map cn_nodeId added) \<and> set (map cn_nodeId added) \<inter> set existingNodeIds = {}
        \<and> list_all (\<lambda>j. \<not> (\<exists>ps. planClusterPlacement (nodes @ take j added) services = Inr ps)) [0..<length added]
    | Inl (NoFit a i) \<Rightarrow>
        (\<exists>extra. length extra = maxAdd \<and> planClusterPlacement (nodes @ extra) services = Inl (NoFit a i))
    | Inl (StickyNodeFull a n) \<Rightarrow> True"
proof (cases "planClusterPlacementAutoAdd nodes services maxAdd existingNodeIds rng")
  case (Inl e)
  then show ?thesis
    using auto_add_NoFit [of nodes services rng maxAdd 0 existingNodeIds "[]"] assms
    by (cases e) (auto simp: planClusterPlacementAutoAdd_def)
next
  case (Inr r)
  obtain plans added where r: "r = (plans, added)" by (cases r)
  from auto_add_Inr [of nodes services rng maxAdd 0 existingNodeIds "[]" plans added] Inr r show ?thesis
    by (auto simp: planClusterPlacementAutoAdd_def list_all_iff)
qed

section \<open>Witnesses\<close>

definition small_node :: "string \<Rightarrow> candidate_node" where
  "small_node n =
     \<lparr>cn_nodeId = n, cn_architecture = Arm64, cn_allocatableCpu = 1792, cn_allocatableMemory = 1536,
      cn_steadyCpu = 256, cn_steadyMemory = 256, cn_maxSurgeCpu = 256, cn_maxSurgeMemory = 256\<rparr>"

definition api_input :: cluster_service_input where
  "api_input =
     \<lparr>cs_name = ''api'', cs_replicas = 3, cs_cpu = 256, cs_memory = 256, cs_maxSurge = 1, cs_isWeb = True,
      cs_hasVolumes = False, cs_stickyNodeId = None\<rparr>"

definition db_input :: cluster_service_input where
  "db_input =
     \<lparr>cs_name = ''db'', cs_replicas = 1, cs_cpu = 512, cs_memory = 512, cs_maxSurge = 1, cs_isWeb = False,
      cs_hasVolumes = True, cs_stickyNodeId = Some ''b''\<rparr>"

definition example_plans :: "cluster_service_plan list" where
  "example_plans =
     (case planClusterPlacement [small_node ''a'', small_node ''b''] [db_input, api_input] of Inr ps \<Rightarrow> ps)"

lemma example_plans: "planClusterPlacement [small_node ''a'', small_node ''b''] [db_input, api_input] = Inr example_plans"
proof -
  have "\<not> isl (planClusterPlacement [small_node ''a'', small_node ''b''] [db_input, api_input])" by code_simp
  then show ?thesis
    by (cases "planClusterPlacement [small_node ''a'', small_node ''b''] [db_input, api_input]")
      (simp_all add: example_plans_def)
qed

definition other_demand :: capacity_demand where
  "other_demand = \<lparr>cd_project = ''blog'', cd_service = ''web'', cd_cpu = 256, cd_memory = 256,
     cd_surgeCpu = Some 256, cd_surgeMemory = Some 256\<rparr>"

definition small_node_input :: capacity_check_input where
  "small_node_input = \<lparr>ci_totalCpu = 2048, ci_totalMemory = 2048, ci_reservedCpu = 256, ci_reservedMemory = 512,
     ci_services = []\<rparr>"

lemma accepted_placement_passes_check_witness:
  "cr_ok (checkCapacity (small_node_input\<lparr>ci_services := [other_demand]
     @ planned_demands ''shop'' ''a'' [db_input, api_input] example_plans\<rparr>))"
proof -
  have "receives ''a'' example_plans" by code_simp
  then have r: "receives (cn_nodeId (small_node ''a'')) example_plans" by (simp add: small_node_def)
  have "cr_ok (checkCapacity (small_node_input\<lparr>ci_services := [other_demand]
     @ planned_demands ''shop'' (cn_nodeId (small_node ''a'')) [db_input, api_input] example_plans\<rparr>))"
    by (rule accepted_placement_passes_check [OF example_plans _ _ _ r])
      (simp_all add: small_node_def other_demand_def or0_def small_node_input_def api_input_def db_input_def)
  then show ?thesis by (simp add: small_node_def)
qed

lemma accepted_placement_complete_witness:
  "map cp_service example_plans = [''db'', ''api'']
   \<and> list_all2 (\<lambda>s p. sum_by pl_replicas (cp_placements p) = cs_replicas s) [db_input, api_input] example_plans"
proof -
  have d: "distinct (map cn_nodeId [small_node ''a'', small_node ''b''])"
    "\<forall>s \<in> set [db_input, api_input]. 1 \<le> cs_replicas s"
    by (simp_all add: small_node_def db_input_def api_input_def)
  from accepted_placement_complete [OF example_plans d]
  show ?thesis by (auto simp: db_input_def api_input_def elim!: list_all2_mono)
qed

lemma bestNode_most_headroom_witness:
  "case bestNode [initial_tally (small_node ''a''), initial_tally (small_node ''b'')] api_input [(''a'', 1)] 1 of
     None \<Rightarrow> False | Some b \<Rightarrow> fits b api_input (assoc_get_or 0 [(''a'', 1)] (nt_id b) + 1)"
proof -
  let ?ts = "[initial_tally (small_node ''a''), initial_tally (small_node ''b'')]"
  have h: "1 \<le> cs_cpu api_input" "1 \<le> cs_memory api_input" "(1::int) \<le> 1" "list_all sane_tally ?ts"
    "list_all (\<lambda>t. 0 \<le> assoc_get_or 0 [(''a'', 1 :: int)] (nt_id t)) ?ts"
    by (simp_all add: api_input_def sane_tally_def initial_tally_def small_node_def assoc_get_or_def)
  have "bestNode ?ts api_input [(''a'', 1)] 1 \<noteq> None" by code_simp
  with bestNode_most_headroom [OF h] show ?thesis by (auto split: option.splits)
qed

lemma autoAdd_least_witness:
  "case planClusterPlacementAutoAdd [] [api_input] 3 [''edge-1''] (\<lambda>_. 0) of
     Inr (plans, added) \<Rightarrow> planClusterPlacement ([] @ added) [api_input] = Inr plans \<and> length added \<le> 3
   | Inl e \<Rightarrow> False"
proof -
  have b: "length [''edge-1''] + 3 + 2 < 10 ^ 30" by simp
  have "\<not> isl (planClusterPlacementAutoAdd [] [api_input] 3 [''edge-1''] (\<lambda>_. 0))" by code_simp
  with autoAdd_least [OF b, of "[]" "[api_input]" "\<lambda>_. 0"] show ?thesis
    by (auto split: sum.splits prod.splits)
qed

end
