(* ===== verification/Candidates.thy ===== *)
theory Candidates
  imports Publish Placement
begin

text \<open>
  The planner's view of the schedulable pool: \<open>buildCandidateNodes\<close> of
  \<open>packages/cli/src/deploy/candidate-nodes.ts\<close>, shared by \<open>deploy\<close>, \<open>rebalance\<close> and \<open>autoscale\<close>. \<open>ids\<close> is the
  listing of the cluster's node prefix, in its order; \<open>date_parse\<close> is \<open>Date.parse\<close>.
\<close>

section \<open>The snapshot\<close>

datatype candidate_error = RegistryInvalid string

record candidate_nodes =
  cns_nodes :: "(string, node_entry) assoc"
  cns_clusterAppNodeIds :: "string list"
  cns_candidateNodes :: "candidate_node list"

definition externalNodeHasFreshHeartbeat ::
  "(string \<Rightarrow> int option) \<Rightarrow> string \<Rightarrow> state_bucket \<Rightarrow> string \<Rightarrow> int \<Rightarrow> bool" where
  "externalNodeHasFreshHeartbeat date_parse clusterId s nodeId nowMs =
     (case Option.bind (s (statusKey clusterId nodeId)) parseNodeStatus of
        None \<Rightarrow> False
      | Some st \<Rightarrow> \<not> isHeartbeatStale date_parse (ns_lastSeen st) nowMs HEARTBEAT_STALE_MS)"

definition schedulable ::
  "(string \<Rightarrow> int option) \<Rightarrow> string \<Rightarrow> state_bucket \<Rightarrow> int \<Rightarrow> string \<Rightarrow> node_entry \<Rightarrow> bool" where
  "schedulable date_parse clusterId s nowMs nodeId e \<longleftrightarrow>
     nodeHostsContainers (ne_role e)
     \<and> \<not> (ne_provisioning e = External \<and> ne_state e \<noteq> Ready \<and> ne_state e \<noteq> Provisioning)
     \<and> \<not> (ne_provisioning e = External \<and> \<not> externalNodeHasFreshHeartbeat date_parse clusterId s nodeId nowMs)"

definition candidate_of :: "string \<Rightarrow> node_entry \<Rightarrow> capacity_demand list \<Rightarrow> candidate_node" where
  "candidate_of nodeId e ds =
     \<lparr>cn_nodeId = nodeId, cn_architecture = ne_architecture e, cn_allocatableCpu = allocatableCpu e,
      cn_allocatableMemory = allocatableMemory e, cn_steadyCpu = sum_by cd_cpu ds, cn_steadyMemory = sum_by cd_memory ds,
      cn_maxSurgeCpu = max_by (\<lambda>d. or0 (cd_surgeCpu d)) ds,
      cn_maxSurgeMemory = max_by (\<lambda>d. or0 (cd_surgeMemory d)) ds\<rparr>"

text \<open>The demand of the services that the caller's publish will not replace.\<close>

definition committed_demands :: "string \<Rightarrow> document option \<Rightarrow> string \<Rightarrow> string \<Rightarrow> capacity_demand list" where
  "committed_demands nodeId doc ownerProject now =
     demandsOf (filter (\<lambda>s. sc_project s \<noteq> ownerProject)
       (case doc of None \<Rightarrow> [] | Some raw \<Rightarrow> ds_services (parseDesiredStateOrEmpty nodeId (parseDesiredState raw) now)))"

fun buildCandidateNodes ::
  "(string \<Rightarrow> int option) \<Rightarrow> string \<Rightarrow> state_bucket \<Rightarrow> string \<Rightarrow> bool \<Rightarrow> int \<Rightarrow> string \<Rightarrow> string list \<Rightarrow> candidate_nodes
   \<Rightarrow> candidate_error + candidate_nodes" where
  "buildCandidateNodes date_parse clusterId s ownerProject needsSnapshot nowMs now [] acc = Inr acc"
| "buildCandidateNodes date_parse clusterId s ownerProject needsSnapshot nowMs now (n # ns) acc =
     (case s (nodeRegistryKey clusterId n) of
        None \<Rightarrow> buildCandidateNodes date_parse clusterId s ownerProject needsSnapshot nowMs now ns acc
      | Some raw \<Rightarrow>
          (case parseNodeRegistryEntry raw of
             None \<Rightarrow> Inl (RegistryInvalid n)
           | Some e \<Rightarrow>
               (let acc1 = acc\<lparr>cns_nodes := assoc_set n e (cns_nodes acc)\<rparr>;
                    ds = (if needsSnapshot then committed_demands n (s (desiredKey clusterId n)) ownerProject now else [])
                in buildCandidateNodes date_parse clusterId s ownerProject needsSnapshot nowMs now ns
                     (if schedulable date_parse clusterId s nowMs n e
                      then acc1\<lparr>cns_clusterAppNodeIds := cns_clusterAppNodeIds acc @ [n],
                                cns_candidateNodes := cns_candidateNodes acc @ [candidate_of n e ds]\<rparr>
                      else acc1))))"

definition no_candidates :: candidate_nodes where
  "no_candidates = \<lparr>cns_nodes = [], cns_clusterAppNodeIds = [], cns_candidateNodes = []\<rparr>"

section \<open>What the snapshot holds\<close>

lemma committed_demands_others:
  "committed_demands n doc owner now = demandsOf (others owner (services_of doc))"
  by (auto simp: committed_demands_def others_def services_of_def parseDesiredStateOrEmpty_def emptyDesiredState_def
      split: option.splits)

definition registered :: "string \<Rightarrow> state_bucket \<Rightarrow> string \<Rightarrow> node_entry option" where
  "registered clusterId s n = Option.bind (s (nodeRegistryKey clusterId n)) parseNodeRegistryEntry"

text \<open>Every candidate is a registered, schedulable node of the listing, with the demand committed to it.\<close>

definition describes ::
  "(string \<Rightarrow> int option) \<Rightarrow> string \<Rightarrow> state_bucket \<Rightarrow> string \<Rightarrow> bool \<Rightarrow> int \<Rightarrow> candidate_node \<Rightarrow> node_entry \<Rightarrow> bool" where
  "describes date_parse c s owner needs nowMs k e \<longleftrightarrow>
     registered c s (cn_nodeId k) = Some e \<and> schedulable date_parse c s nowMs (cn_nodeId k) e
     \<and> k = candidate_of (cn_nodeId k) e
         (if needs then demandsOf (others owner (services_of (s (desiredKey c (cn_nodeId k))))) else [])"

lemma candidates_sound:
  assumes "buildCandidateNodes date_parse c s owner needs nowMs now ids acc = Inr r" and "k \<in> set (cns_candidateNodes r)"
  shows "k \<in> set (cns_candidateNodes acc) \<or> cn_nodeId k \<in> set ids \<and> (\<exists>e. describes date_parse c s owner needs nowMs k e)"
  using assms
proof (induction date_parse c s owner needs nowMs now ids acc rule: buildCandidateNodes.induct)
  case (2 date_parse c s owner needs nowMs now n ns acc)
  show ?case
  proof (cases "s (nodeRegistryKey c n)")
    case None
    with 2 show ?thesis by auto
  next
    case (Some raw)
    with 2(3) obtain e where e: "parseNodeRegistryEntry raw = Some e" by (auto split: option.splits)
    let ?ds = "if needs then committed_demands n (s (desiredKey c n)) owner now else []"
    let ?acc = "if schedulable date_parse c s nowMs n e
      then acc\<lparr>cns_nodes := assoc_set n e (cns_nodes acc), cns_clusterAppNodeIds := cns_clusterAppNodeIds acc @ [n],
               cns_candidateNodes := cns_candidateNodes acc @ [candidate_of n e ?ds]\<rparr>
      else acc\<lparr>cns_nodes := assoc_set n e (cns_nodes acc)\<rparr>"
    have step: "buildCandidateNodes date_parse c s owner needs nowMs now ns ?acc = Inr r"
      using 2(3) Some e by (simp add: Let_def)
    have "k \<in> set (cns_candidateNodes ?acc) \<or> cn_nodeId k \<in> set ns \<and> (\<exists>e. describes date_parse c s owner needs nowMs k e)"
      using 2(2) [OF Some e refl refl] step 2(4) by (simp add: Let_def)
    moreover have "k \<in> set (cns_candidateNodes acc) \<or> schedulable date_parse c s nowMs n e \<and> k = candidate_of n e ?ds"
      if "k \<in> set (cns_candidateNodes ?acc)" using that by (auto split: if_splits)
    moreover have "cn_nodeId k = n \<and> describes date_parse c s owner needs nowMs k e"
      if "schedulable date_parse c s nowMs n e" "k = candidate_of n e ?ds"
    proof -
      have id: "cn_nodeId k = n" by (simp add: that(2) candidate_of_def)
      have "?ds = (if needs then demandsOf (others owner (services_of (s (desiredKey c n)))) else [])"
        by (simp add: committed_demands_others)
      with that Some e show ?thesis unfolding describes_def id by (simp add: registered_def)
    qed
    ultimately show ?thesis by auto
  qed
qed simp

lemma candidates_distinct:
  assumes "buildCandidateNodes date_parse c s owner needs nowMs now ids acc = Inr r"
    and "distinct (map cn_nodeId (cns_candidateNodes acc) @ ids)"
  shows "distinct (map cn_nodeId (cns_candidateNodes r))"
  using assms
proof (induction date_parse c s owner needs nowMs now ids acc rule: buildCandidateNodes.induct)
  case (2 date_parse c s owner needs nowMs now n ns acc)
  show ?case
  proof (cases "s (nodeRegistryKey c n)")
    case None
    with 2 show ?thesis by simp
  next
    case (Some raw)
    with 2(3) obtain e where e: "parseNodeRegistryEntry raw = Some e" by (auto split: option.splits)
    have id: "cn_nodeId (candidate_of n e ds) = n" for ds by (simp add: candidate_of_def)
    show ?thesis
      by (rule 2(2) [OF Some e refl refl]) (use 2(3,4) Some e id in \<open>simp_all add: Let_def split: if_splits\<close>)
  qed
qed simp

section \<open>From the plan to the publish\<close>

lemma plan_services_on_nodes:
  assumes "planClusterPlacement nodes services = Inr plans" and "distinct (map cn_nodeId nodes)"
    and "\<forall>s \<in> set services. 1 \<le> cs_replicas s" and "receives n plans"
  shows "\<exists>k \<in> set nodes. cn_nodeId k = n"
proof -
  have ids: "map nt_id (map initial_tally nodes) = map cn_nodeId nodes" by (simp add: initial_tally_def)
  from assms(4) obtain p where p: "p \<in> set plans" "n \<in> pl_nodeId ` set (cp_placements p)"
    by (auto simp: receives_def)
  have "list_all2 (\<lambda>s p. list_all (\<lambda>q. pl_nodeId q \<in> set (map cn_nodeId nodes)) (cp_placements p)) services plans"
    using plan_services_complete [of "map initial_tally nodes" services plans, unfolded ids] assms(1-3)
    by (auto simp: planClusterPlacement_def list_all_iff elim!: list_all2_mono)
  with p(1) obtain s where "list_all (\<lambda>q. pl_nodeId q \<in> set (map cn_nodeId nodes)) (cp_placements p)"
    by (auto simp: list_all2_conv_all_nth in_set_conv_nth)
  with p(2) have "n \<in> set (map cn_nodeId nodes)" by (auto simp: list_all_iff)
  then show ?thesis by auto
qed


section \<open>Examples\<close>

definition example_pool_bucket :: state_bucket where
  "example_pool_bucket = [nodeRegistryKey ''default'' ''a'' \<mapsto> NodeJson example_small_node,
     desiredKey ''default'' ''a'' \<mapsto> hosted ''a'' [plain_service ''blog'' ''web'' 256 256 1]]"

definition example_snapshot :: candidate_nodes where
  "example_snapshot =
     (case buildCandidateNodes iso_parse ''default'' example_pool_bucket ''shop'' True 0 ''t'' [''a''] no_candidates of
        Inr c \<Rightarrow> c)"

definition web_input :: cluster_service_input where
  "web_input =
     \<lparr>cs_name = ''api'', cs_replicas = 2, cs_cpu = 512, cs_memory = 256, cs_maxSurge = 1, cs_isWeb = True,
      cs_hasVolumes = False, cs_stickyNodeId = None\<rparr>"

definition snapshot_plans :: "cluster_service_plan list" where
  "snapshot_plans = (case planClusterPlacement (cns_candidateNodes example_snapshot) [web_input] of Inr ps \<Rightarrow> ps)"

lemma case_Inr: "\<not> isl r \<Longrightarrow> r = Inr (case r of Inr x \<Rightarrow> x)"
  by (cases r) simp_all


end
