(* ===== verification/Polling.thy ===== *)
theory Polling
  imports Prelude
begin

text \<open>
  The loops that poll the nodes' documents (\<open>waitForConvergence\<close>, \<open>waitForDrain\<close>, \<open>waitForJob\<close> of
  \<open>packages/cli/src\<close>) have one shape: read, decide, and sleep unless something was decided. \<open>poll\<close> is that
  shape; what the poll of number \<open>i\<close> decides is \<open>step i\<close>. A loop that never decides has the value \<open>None\<close>.
\<close>

partial_function (option) poll :: "(nat \<Rightarrow> 'r option) \<Rightarrow> nat \<Rightarrow> 'r option" where
  "poll step i = (case step i of Some r \<Rightarrow> Some r | None \<Rightarrow> poll step (i + 1))"

lemma poll_hit: "step i = Some r \<Longrightarrow> poll step i = Some r"
  by (simp add: poll.simps [of step i])

lemma poll_miss: "step i = None \<Longrightarrow> poll step i = poll step (Suc i)"
  by (simp add: poll.simps [of step i])

lemma poll_skip: "(\<And>k. i \<le> k \<Longrightarrow> k < i + n \<Longrightarrow> step k = None) \<Longrightarrow> poll step i = poll step (i + n)"
proof (induction n arbitrary: i)
  case (Suc n)
  have "poll step i = poll step (Suc i)" using Suc.prems [of i] by (intro poll_miss) simp
  also have "\<dots> = poll step (Suc i + n)" using Suc.prems by (intro Suc.IH) simp
  finally show ?case by simp
qed simp

text \<open>The loop ends with the first decision.\<close>

lemma poll_first:
  "step j = Some r \<Longrightarrow> i \<le> j \<Longrightarrow> (\<And>k. i \<le> k \<Longrightarrow> k < j \<Longrightarrow> step k = None) \<Longrightarrow> poll step i = Some r"
  using poll_skip [of i "j - i" step] poll_hit [of step j r] by simp

lemma poll_SomeD:
  assumes "poll step i = Some r"
  shows "\<exists>j\<ge>i. step j = Some r \<and> (\<forall>k. i \<le> k \<and> k < j \<longrightarrow> step k = None)"
proof (rule poll.raw_induct [OF _ assms])
  fix self :: "(nat \<Rightarrow> 'a option) \<Rightarrow> nat \<Rightarrow> 'a option" and step i r
  assume IH: "\<And>step i r. self step i = Some r \<Longrightarrow> \<exists>j\<ge>i. step j = Some r \<and> (\<forall>k. i \<le> k \<and> k < j \<longrightarrow> step k = None)"
    and eq: "(case step i of None \<Rightarrow> self step (i + 1) | Some r \<Rightarrow> Some r) = Some r"
  show "\<exists>j\<ge>i. step j = Some r \<and> (\<forall>k. i \<le> k \<and> k < j \<longrightarrow> step k = None)"
  proof (cases "step i")
    case None
    with eq IH [of step "i + 1" r] obtain j where j: "i + 1 \<le> j" "step j = Some r" "\<forall>k. i + 1 \<le> k \<and> k < j \<longrightarrow> step k = None"
      by auto
    have "step k = None" if "i \<le> k" "k < j" for k
      using that j(3) None by (cases "k = i") auto
    with j show ?thesis by (intro exI [of _ j]) auto
  next
    case (Some x)
    with eq show ?thesis by (intro exI [of _ i]) auto
  qed
qed

lemma poll_decides: "step j \<noteq> None \<Longrightarrow> i \<le> j \<Longrightarrow> \<exists>k r. i \<le> k \<and> k \<le> j \<and> step k = Some r \<and> poll step i = Some r"
proof -
  assume j: "step j \<noteq> None" "i \<le> j"
  define k where "k = (LEAST k. i \<le> k \<and> step k \<noteq> None)"
  have k: "i \<le> k \<and> step k \<noteq> None" unfolding k_def by (rule LeastI [of _ j]) (use j in simp)
  have le: "k \<le> j" unfolding k_def by (rule Least_le) (use j in simp)
  have "step m = None" if "i \<le> m" "m < k" for m
    using not_less_Least [of m "\<lambda>k. i \<le> k \<and> step k \<noteq> None"] that unfolding k_def by auto
  with k obtain r where "step k = Some r" "poll step i = Some r" using poll_first [of step k _ i] by auto
  with k le show ?thesis by blast
qed

text \<open>With a clock that moves on by at least one between polls, a deadline passes.\<close>

lemma clock_passes:
  fixes clock :: "nat \<Rightarrow> int"
  assumes "\<And>i. clock i + d \<le> clock (Suc i)" and "0 < d"
  shows "clock 0 + d * int n \<le> clock n"
proof (induction n)
  case (Suc n)
  with assms(1) [of n] show ?case by (simp add: algebra_simps)
qed simp

text \<open>
  The contract of a loop with a deadline: a poll past the deadline decides. Such a loop returns, and what
  it returns was decided by a poll that came at most one interval after the deadline.
\<close>

locale deadline_loop =
  fixes step :: "nat \<Rightarrow> 'r option" and deadline :: int and clock :: "nat \<Rightarrow> int"
  assumes late: "deadline < clock i \<Longrightarrow> step i \<noteq> None"
begin

lemma returns:
  assumes "\<And>i. clock i + d \<le> clock (Suc i)" and "0 < d" and "start \<le> clock 0" and "start \<le> deadline"
  shows "\<exists>k r. int k \<le> (deadline - start) div d + 1 \<and> step k = Some r \<and> poll step 0 = Some r"
proof -
  let ?n = "nat ((deadline - start) div d + 1)"
  have q: "0 \<le> (deadline - start) div d" using assms(2,4) by (simp add: pos_imp_zdiv_nonneg_iff)
  have "deadline - start < d * ((deadline - start) div d) + d"
    using assms(2) mult_div_mod_eq [of d "deadline - start"] pos_mod_bound [of d "deadline - start"] by linarith
  also have "\<dots> = d * int ?n" using q by (simp add: algebra_simps)
  finally have "deadline < clock ?n"
    using clock_passes [of clock d ?n, OF assms(1,2)] assms(3) by linarith
  from poll_decides [of step ?n 0] late [OF this] obtain k r where "k \<le> ?n" "step k = Some r" "poll step 0 = Some r" by auto
  with q show ?thesis by (intro exI [of _ k] exI [of _ r]) auto
qed

lemma result_decided:
  assumes "poll step 0 = Some r"
  obtains k where "step k = Some r" and "\<And>j. j < k \<Longrightarrow> step j = None" and "\<And>j. j < k \<Longrightarrow> clock j \<le> deadline"
proof -
  from poll_SomeD [OF assms] obtain k where k: "step k = Some r" "\<forall>j. 0 \<le> j \<and> j < k \<longrightarrow> step j = None" by auto
  have "clock j \<le> deadline" if "j < k" for j
    using late [of j] k(2) that by (cases "deadline < clock j") auto
  with k that show thesis by auto
qed

end

end
