(* ===== verification/Cluster_Store.thy ===== *)
theory Cluster_Store
  imports Publish
begin

text \<open>
  Reading and writing \<open>cluster.json\<close> (\<open>packages/cli/src/cluster/store.ts\<close> and \<open>cluster set-edge\<close> of
  \<open>commands/cluster/index.ts\<close>). These writes carry no condition.
\<close>

datatype cluster_store_error = ClusterInvalid | ClusterGone string | NodeGone string | NodeInvalid | NotAnEdge string | DefaultCluster

definition getClusterConfig :: "string \<Rightarrow> state_bucket \<Rightarrow> cluster_store_error + cluster_config option" where
  "getClusterConfig clusterId s =
     (case getJson s (clusterConfigKey clusterId) of
        None \<Rightarrow> Inr None
      | Some (raw, _) \<Rightarrow> (case parseClusterConfig raw of None \<Rightarrow> Inl ClusterInvalid | Some c \<Rightarrow> Inr (Some c)))"

definition putClusterConfig :: "cluster_config \<Rightarrow> state_bucket \<Rightarrow> state_bucket" where
  "putClusterConfig c s =
     (case putJson s (clusterConfigKey (cc_clusterId c)) (ClusterJson c) Always of Some s' \<Rightarrow> s' | None \<Rightarrow> s)"

definition ensureClusterConfig ::
  "string \<Rightarrow> string \<Rightarrow> string \<Rightarrow> string \<Rightarrow> (state_bucket \<Rightarrow> state_bucket) \<Rightarrow> state_bucket
   \<Rightarrow> state_bucket \<times> (cluster_store_error + cluster_config)" where
  "ensureClusterConfig region callerArn now clusterId interfere s =
     (case getClusterConfig clusterId s of
        Inl e \<Rightarrow> (s, Inl e)
      | Inr (Some c) \<Rightarrow> (s, Inr c)
      | Inr None \<Rightarrow>
          (let c = \<lparr>cc_clusterId = clusterId, cc_defaultEdge = None, cc_region = region, cc_createdAt = now,
                    cc_createdBy = callerArn, cc_autoscale = None, cc_snsTopicArn = None\<rparr>
           in (putClusterConfig c (interfere s), Inr c)))"

definition adoptEdgeIfUnset ::
  "string \<Rightarrow> string \<Rightarrow> (state_bucket \<Rightarrow> state_bucket) \<Rightarrow> state_bucket \<Rightarrow> state_bucket \<times> (cluster_store_error + unit)" where
  "adoptEdgeIfUnset clusterId edgeNodeId interfere s =
     (case getClusterConfig clusterId s of
        Inl e \<Rightarrow> (s, Inl e)
      | Inr (Some c) \<Rightarrow>
          (if cc_defaultEdge c = None \<or> cc_defaultEdge c = Some []
           then (putClusterConfig (c\<lparr>cc_defaultEdge := Some edgeNodeId\<rparr>) (interfere s), Inr ()) else (s, Inr ()))
      | Inr None \<Rightarrow> (s, Inr ()))"

definition runSetEdge ::
  "string \<Rightarrow> string \<Rightarrow> (state_bucket \<Rightarrow> state_bucket) \<Rightarrow> state_bucket \<Rightarrow> state_bucket \<times> (cluster_store_error + unit)" where
  "runSetEdge name nodeId interfere s =
     (if name = DEFAULT_CLUSTER then (s, Inl DefaultCluster)
      else case getClusterConfig name s of
        Inl e \<Rightarrow> (s, Inl e)
      | Inr None \<Rightarrow> (s, Inl (ClusterGone name))
      | Inr (Some c) \<Rightarrow>
          (case s (nodeRegistryKey name nodeId) of
             None \<Rightarrow> (s, Inl (NodeGone nodeId))
           | Some raw \<Rightarrow>
               (case parseNodeRegistryEntry raw of
                  None \<Rightarrow> (s, Inl NodeInvalid)
                | Some e \<Rightarrow>
                    (if nodeFrontsIngress (ne_role e)
                     then (putClusterConfig (c\<lparr>cc_defaultEdge := Some nodeId\<rparr>) (interfere s), Inr ())
                     else (s, Inl (NotAnEdge nodeId))))))"

lemma put_cluster: "putClusterConfig c s = s(clusterConfigKey (cc_clusterId c) := Some (ClusterJson c))"
  by (simp add: putClusterConfig_def putJson_def)

lemma ensure_cluster_idempotent:
  assumes "ensureClusterConfig region arn now cid (\<lambda>t. t) s = (s', Inr c)" and "valid_cluster_config c"
    and "cc_clusterId c = cid"
  shows "ensureClusterConfig region' arn' now' cid (\<lambda>t. t) s' = (s', Inr c)"
  using assms
  by (auto simp: ensureClusterConfig_def getClusterConfig_def getJson_def put_cluster parseClusterConfig_def Let_def
      split: option.splits sum.splits)

end
