(* ===== verification/Autoscale.thy ===== *)
theory Autoscale
  imports Candidates Polling Cluster_Store
begin

text \<open>
  The reactive autoscaler: the planner of \<open>packages/shared/src/autoscale.ts\<close>, and the pass of
  \<open>packages/cli/src/commands/autoscale.ts\<close> that reads the policy in \<open>cluster.json\<close>, plans, claims the action by
  stamping \<open>lastScaleAt\<close>, and acts. Percentages are numbers of the language: rationals, with its rounding
  in the averages.
\<close>

section \<open>Observations\<close>

record node_reservation =
  nr_steadyCpu :: int
  nr_steadyMemory :: int
  nr_surgeCpu :: int
  nr_surgeMemory :: int
  nr_allocatableCpu :: int
  nr_allocatableMemory :: int

record node_observation =
  no_nodeId :: string
  no_role :: node_role
  no_state :: node_state
  no_protected :: bool
  no_provisioning :: provisioning_mode
  no_cpuPercent :: "rat option"
  no_memoryPercent :: "rat option"
  no_reserved :: "node_reservation option"

datatype none_reason =
    InCooldown int
  | NoMetrics
  | HotAtMax
  | EveryNodeProtected
  | CannotAbsorb
  | InRange

datatype autoscale_decision =
    NoAction none_reason
  | ScaleOut
  | ScaleIn string

section \<open>The planner\<close>

definition down_state :: "node_state \<Rightarrow> bool" where
  "down_state s \<longleftrightarrow> s = Stopped \<or> s = Terminating \<or> s = Terminated"

definition pool_of :: "node_observation list \<Rightarrow> node_observation list" where
  "pool_of nodes = filter (\<lambda>n. nodeHostsContainers (no_role n) \<and> \<not> down_state (no_state n)) nodes"

definition has_metrics :: "node_observation \<Rightarrow> bool" where
  "has_metrics n \<longleftrightarrow> no_cpuPercent n \<noteq> None \<and> no_memoryPercent n \<noteq> None"

definition average :: "rat list \<Rightarrow> rat option" where
  "average xs = fdiv (fold (\<lambda>x s. fadd s x) xs 0) (of_nat (length xs))"

text \<open>The largest surge is taken over the victim and the survivors.\<close>

definition survivorsCanAbsorb :: "node_observation \<Rightarrow> node_observation list \<Rightarrow> bool" where
  "survivorsCanAbsorb victim pool =
     (case no_reserved victim of
        None \<Rightarrow> True
      | Some v \<Rightarrow>
          (let survivors = filter (\<lambda>n. no_nodeId n \<noteq> no_nodeId victim) pool
           in if list_ex (\<lambda>n. no_reserved n = None) survivors then True
              else let rs = map (\<lambda>n. the (no_reserved n)) survivors;
                       maxSurge = (\<lambda>f. fold (\<lambda>r m. max m (f r)) rs (f v))
                   in sum_by nr_steadyCpu rs + nr_steadyCpu v + maxSurge nr_surgeCpu \<le> sum_by nr_allocatableCpu rs
                    \<and> sum_by nr_steadyMemory rs + nr_steadyMemory v + maxSurge nr_surgeMemory \<le> sum_by nr_allocatableMemory rs))"

definition load_of :: "node_observation \<Rightarrow> rat" where
  "load_of n = max (the (no_cpuPercent n)) (the (no_memoryPercent n))"

definition colder :: "node_observation \<Rightarrow> node_observation \<Rightarrow> bool" where
  "colder a b \<longleftrightarrow> load_of a < load_of b \<or> load_of a = load_of b \<and> locale_le (no_nodeId b) (no_nodeId a)"

definition in_cooldown :: "(string \<Rightarrow> int option) \<Rightarrow> autoscale_policy \<Rightarrow> int \<Rightarrow> int option" where
  "in_cooldown date_parse policy nowMs =
     (case Option.bind (ap_lastScaleAt policy) date_parse of
        None \<Rightarrow> None
      | Some prev \<Rightarrow>
          (if nowMs - prev < ap_cooldownSeconds policy * 1000
           then Some (- ((- (ap_cooldownSeconds policy * 1000 - (nowMs - prev))) div 1000)) else None))"

definition is_cold :: "autoscale_policy \<Rightarrow> node_observation \<Rightarrow> bool" where
  "is_cold policy n \<longleftrightarrow> the (no_cpuPercent n) < ap_scaleInPercent policy \<and> the (no_memoryPercent n) < ap_scaleInPercent policy"

definition drainable :: "node_observation \<Rightarrow> bool" where
  "drainable n \<longleftrightarrow> \<not> no_protected n \<and> no_provisioning n \<noteq> External"

definition planAutoscale ::
  "(string \<Rightarrow> int option) \<Rightarrow> autoscale_policy \<Rightarrow> node_observation list \<Rightarrow> int \<Rightarrow> autoscale_decision" where
  "planAutoscale date_parse policy nodes nowMs =
     (let pool = pool_of nodes; size = int (length pool)
      in if size < ap_minNodes policy then ScaleOut
         else case in_cooldown date_parse policy nowMs of
           Some left \<Rightarrow> NoAction (InCooldown left)
         | None \<Rightarrow>
             (let fresh = filter has_metrics pool
              in if fresh = [] then NoAction NoMetrics
                 else let avgCpu = the (average (map (\<lambda>n. the (no_cpuPercent n)) fresh));
                          avgMemory = the (average (map (\<lambda>n. the (no_memoryPercent n)) fresh))
                      in if ap_scaleOutPercent policy \<le> avgCpu \<or> ap_scaleOutPercent policy \<le> avgMemory
                         then (if ap_maxNodes policy \<le> size then NoAction HotAtMax else ScaleOut)
                         else if ap_minNodes policy < size \<and> length fresh = length pool \<and> list_all (is_cold policy) pool
                         then (let candidates = filter drainable pool
                               in if candidates = [] then NoAction EveryNodeProtected
                                  else case find (\<lambda>v. survivorsCanAbsorb v pool) (sort_by colder candidates) of
                                         None \<Rightarrow> NoAction CannotAbsorb
                                       | Some v \<Rightarrow> ScaleIn (no_nodeId v))
                         else NoAction InRange))"

section \<open>The node a scale-out creates\<close>

record scale_out_spec =
  sp_nodeId :: string
  sp_instanceType :: string
  sp_architecture :: architecture
  sp_edgeNodeId :: string

record pool_node =
  pn_instanceType :: string
  pn_architecture :: "architecture option"

definition larger :: "instance_capacity \<Rightarrow> instance_capacity option \<Rightarrow> bool" where
  "larger c best = (case best of None \<Rightarrow> True
     | Some b \<Rightarrow> ic_totalCpu b < ic_totalCpu c \<or> ic_totalCpu c = ic_totalCpu b \<and> ic_totalMemory b < ic_totalMemory c)"

definition pick_type :: "architecture \<Rightarrow> pool_node \<Rightarrow> string \<times> instance_capacity option \<Rightarrow> string \<times> instance_capacity option" where
  "pick_type a n acc =
     (if (case pn_architecture n of None \<Rightarrow> X86_64 | Some x \<Rightarrow> x) \<noteq> a then acc
      else case lookupInstanceCapacity (pn_instanceType n) of
             None \<Rightarrow> acc
           | Some c \<Rightarrow> if larger c (snd acc) then (pn_instanceType n, Some c) else acc)"

text \<open>\<open>None\<close> only when the name search of the model ran out of fuel.\<close>

definition scaleOutNodeSpec ::
  "string list \<Rightarrow> pool_node list \<Rightarrow> string \<Rightarrow> draws \<Rightarrow> scale_out_spec option" where
  "scaleOutNodeSpec existingNodeIds pool defaultEdge rng =
     (let a = (case pool of [] \<Rightarrow> Arm64 | n # _ \<Rightarrow> (case pn_architecture n of None \<Rightarrow> Arm64 | Some x \<Rightarrow> x));
          start = (if a = Arm64 then ''t4g.micro'' else ''t3.small'')
      in map_option (\<lambda>(nodeId, _). \<lparr>sp_nodeId = nodeId,
             sp_instanceType = fst (fold (pick_type a) pool (start, lookupInstanceCapacity start)),
             sp_architecture = a, sp_edgeNodeId = defaultEdge\<rparr>)
           (generateNodeName existingNodeIds rng 0))"

section \<open>The pass\<close>

definition AUTOSCALE_SAMPLE_STALE_MS :: int where "AUTOSCALE_SAMPLE_STALE_MS = 5 * 60000"

datatype autoscale_error =
    NamedClusterNeeded
  | ClusterMissing
  | ClusterUnparseable
  | InvalidNumber string string
  | InvalidPolicy
  | ClusterChanged
  | NoPolicy
  | PolicyRemoved
  | AnotherPassInFlight
  | PoolUnreadable candidate_error
  | NoEdgeNode
  | VictimVanished
  | EvacuationFailed
  | VictimUnreadable
  | StillHosts "(string \<times> string) list"

text \<open>The configuration and the ETag it was read at.\<close>

definition requireCluster :: "aws_env \<Rightarrow> state_bucket \<Rightarrow> autoscale_error + cluster_config \<times> document" where
  "requireCluster aws s =
     (if aws_clusterId aws = DEFAULT_CLUSTER then Inl NamedClusterNeeded
      else case getJson s (clusterConfigKey (aws_clusterId aws)) of
             None \<Rightarrow> Inl ClusterMissing
           | Some (raw, etag) \<Rightarrow>
               (case parseClusterConfig raw of None \<Rightarrow> Inl ClusterUnparseable | Some c \<Rightarrow> Inr (c, etag)))"

definition putClusterConfigCas ::
  "aws_env \<Rightarrow> cluster_config \<Rightarrow> document \<Rightarrow> state_bucket \<Rightarrow> state_bucket \<times> (autoscale_error + unit)" where
  "putClusterConfigCas aws c etag s =
     (case putJson s (clusterConfigKey (aws_clusterId aws)) (ClusterJson c) (IfMatch etag) of
        None \<Rightarrow> (s, Inl ClusterChanged) | Some s' \<Rightarrow> (s', Inr ()))"

definition parseIntOpt :: "string option \<Rightarrow> string \<Rightarrow> autoscale_error + int option" where
  "parseIntOpt raw flag =
     (case raw of
        None \<Rightarrow> Inr None
      | Some r \<Rightarrow> (case parse_int10 r of
                    None \<Rightarrow> Inl (InvalidNumber flag r)
                  | Some n \<Rightarrow> if n < 0 then Inl (InvalidNumber flag r) else Inr (Some n)))"

record set_options =
  so_min :: string
  so_max :: string
  so_scaleOutPercent :: "string option"
  so_scaleInPercent :: "string option"
  so_cooldown :: "string option"

text \<open>Every failure of a flag is reported as an invalid policy; unset flags take the schema's defaults.\<close>

definition policy_of_options :: "set_options \<Rightarrow> autoscale_policy option" where
  "policy_of_options o' =
     (case (parseIntOpt (Some (so_min o')) ''--min'', parseIntOpt (Some (so_max o')) ''--max'',
            parseIntOpt (so_scaleOutPercent o') ''--scale-out-percent'', parseIntOpt (so_scaleInPercent o') ''--scale-in-percent'',
            parseIntOpt (so_cooldown o') ''--cooldown'') of
        (Inr (Some mn), Inr (Some mx), Inr out, Inr inn, Inr cool) \<Rightarrow>
          (let p = \<lparr>ap_minNodes = mn, ap_maxNodes = mx,
                 ap_scaleOutPercent = (case out of None \<Rightarrow> 80 | Some n \<Rightarrow> of_int n),
                 ap_scaleInPercent = (case inn of None \<Rightarrow> 30 | Some n \<Rightarrow> of_int n),
                 ap_cooldownSeconds = (case cool of None \<Rightarrow> 300 | Some n \<Rightarrow> n), ap_lastScaleAt = None\<rparr>
           in if valid_policy p then Some p else None)
      | _ \<Rightarrow> None)"

definition runSet :: "aws_env \<Rightarrow> set_options \<Rightarrow> schedule \<Rightarrow> state_bucket \<Rightarrow> state_bucket \<times> (autoscale_error + unit)" where
  "runSet aws opts interfere s =
     (case requireCluster aws s of
        Inl e \<Rightarrow> (s, Inl e)
      | Inr (c, etag) \<Rightarrow>
          (case policy_of_options opts of
             None \<Rightarrow> (s, Inl InvalidPolicy)
           | Some p \<Rightarrow> putClusterConfigCas aws (c\<lparr>cc_autoscale := Some p\<rparr>) etag (interfere 0 s)))"

definition runOff :: "aws_env \<Rightarrow> schedule \<Rightarrow> state_bucket \<Rightarrow> state_bucket \<times> (autoscale_error + unit)" where
  "runOff aws interfere s =
     (case requireCluster aws s of
        Inl e \<Rightarrow> (s, Inl e)
      | Inr (c, etag) \<Rightarrow> putClusterConfigCas aws (c\<lparr>cc_autoscale := None\<rparr>) etag (interfere 0 s))"

definition sample_of ::
  "(string \<Rightarrow> int option) \<Rightarrow> int \<Rightarrow> document option \<Rightarrow> (rat \<times> rat) option" where
  "sample_of date_parse nowMs doc =
     (case Option.bind doc parseNodeStatus of
        None \<Rightarrow> None
      | Some st \<Rightarrow>
          (case ns_host st of
             None \<Rightarrow> None
           | Some sample \<Rightarrow>
               (case date_parse (hs_sampledAt sample) of
                  None \<Rightarrow> None
                | Some sampleMs \<Rightarrow>
                    (if \<not> isHeartbeatStale date_parse (ns_lastSeen st) nowMs HEARTBEAT_STALE_MS
                        \<and> nowMs - sampleMs \<le> AUTOSCALE_SAMPLE_STALE_MS
                     then Some (hs_cpuPercent sample, hostMemoryPercent sample) else None))))"

definition reservation_of :: "candidate_node \<Rightarrow> node_reservation" where
  "reservation_of c =
     \<lparr>nr_steadyCpu = cn_steadyCpu c, nr_steadyMemory = cn_steadyMemory c, nr_surgeCpu = cn_maxSurgeCpu c,
      nr_surgeMemory = cn_maxSurgeMemory c, nr_allocatableCpu = cn_allocatableCpu c,
      nr_allocatableMemory = cn_allocatableMemory c\<rparr>"

definition observation_of ::
  "string option \<Rightarrow> (rat \<times> rat) option \<Rightarrow> candidate_node option \<Rightarrow> node_entry \<Rightarrow> node_observation" where
  "observation_of defaultEdge sample reserved e =
     \<lparr>no_nodeId = ne_nodeId e, no_role = ne_role e, no_state = ne_state e,
      no_protected = (Some (ne_nodeId e) = defaultEdge), no_provisioning = ne_provisioning e,
      no_cpuPercent = map_option fst sample, no_memoryPercent = map_option snd sample,
      no_reserved = map_option reservation_of reserved\<rparr>"

text \<open>\<open>snapMs\<close> and \<open>now\<close> are the clock readings of the snapshot; no footprint has the owner of the empty name.\<close>

definition observePool ::
  "(string \<Rightarrow> int option) \<Rightarrow> aws_env \<Rightarrow> string option \<Rightarrow> int \<Rightarrow> int \<Rightarrow> string \<Rightarrow> string list \<Rightarrow> state_bucket
   \<Rightarrow> autoscale_error + (node_entry \<times> node_observation) list" where
  "observePool date_parse aws defaultEdge nowMs snapMs now ids s =
     (case buildCandidateNodes date_parse (aws_clusterId aws) s [] True snapMs now ids no_candidates of
        Inl e \<Rightarrow> Inl (PoolUnreadable e)
      | Inr c \<Rightarrow>
          (let byId = assoc_of (map (\<lambda>k. (cn_nodeId k, k)) (cns_candidateNodes c))
           in Inr (map (\<lambda>(n, e). (e, observation_of defaultEdge
                 (sample_of date_parse nowMs (s (statusKey (aws_clusterId aws) n))) (map_of byId n) e)) (cns_nodes c))))"

definition specForScaleOut ::
  "(node_entry \<times> node_observation) list \<Rightarrow> string option \<Rightarrow> draws \<Rightarrow> autoscale_error + scale_out_spec option" where
  "specForScaleOut pool defaultEdge rng =
     (case (case defaultEdge of Some e \<Rightarrow> Some e
            | None \<Rightarrow> map_option (\<lambda>p. ne_nodeId (fst p)) (find (\<lambda>p. nodeFrontsIngress (ne_role (fst p))) pool)) of
        None \<Rightarrow> Inl NoEdgeNode
      | Some edge \<Rightarrow>
          Inr (scaleOutNodeSpec (map (\<lambda>p. ne_nodeId (fst p)) pool)
            (map (\<lambda>p. \<lparr>pn_instanceType = ne_instanceType (fst p), pn_architecture = Some (ne_architecture (fst p))\<rparr>)
               (filter (\<lambda>p. nodeHostsContainers (no_role (snd p))) pool)) edge rng))"

text \<open>The claim: a stamp on the document, on the condition that it is the one read just before.\<close>

definition claimScaleAction ::
  "aws_env \<Rightarrow> int \<Rightarrow> schedule \<Rightarrow> state_bucket \<Rightarrow> state_bucket \<times> (autoscale_error + unit)" where
  "claimScaleAction aws nowMs interfere s =
     (let key = clusterConfigKey (aws_clusterId aws); s0 = interfere 0 s
      in case getJson s0 key of
           None \<Rightarrow> (s0, Inl ClusterMissing)
         | Some (raw, etag) \<Rightarrow>
             (case parseClusterConfig raw of
                None \<Rightarrow> (s0, Inl ClusterUnparseable)
              | Some c \<Rightarrow>
                  (case cc_autoscale c of
                     None \<Rightarrow> (s0, Inl PolicyRemoved)
                   | Some p \<Rightarrow>
                       (let s1 = interfere 1 s0
                        in case putJson s1 key (ClusterJson (c\<lparr>cc_autoscale := Some (p\<lparr>ap_lastScaleAt := Some (toISOString nowMs)\<rparr>)\<rparr>))
                                  (IfMatch etag) of
                             None \<Rightarrow> (s1, Inl AnotherPassInFlight) | Some s2 \<Rightarrow> (s2, Inr ())))))"

text \<open>What the pass decides from what it reads.\<close>

definition plan_pass ::
  "(string \<Rightarrow> int option) \<Rightarrow> aws_env \<Rightarrow> int \<Rightarrow> int \<Rightarrow> string \<Rightarrow> string list \<Rightarrow> state_bucket
   \<Rightarrow> autoscale_error + autoscale_decision \<times> (node_entry \<times> node_observation) list" where
  "plan_pass date_parse aws nowMs snapMs now ids s =
     res_bind (requireCluster aws s) (\<lambda>(c, _).
       case cc_autoscale c of
         None \<Rightarrow> Inl NoPolicy
       | Some policy \<Rightarrow>
           res_bind (observePool date_parse aws (cc_defaultEdge c) nowMs snapMs now ids s) (\<lambda>pool.
             Inr (planAutoscale date_parse policy (map snd pool) nowMs, pool)))"

text \<open>The gate in front of a teardown: what is still scheduled on the victim.\<close>

definition orphan_gate :: "aws_env \<Rightarrow> string \<Rightarrow> state_bucket \<Rightarrow> autoscale_error + unit" where
  "orphan_gate aws victim s =
     (case s (desiredKey (aws_clusterId aws) victim) of
        None \<Rightarrow> Inr ()
      | Some raw \<Rightarrow>
          (case parseDesiredState raw of
             None \<Rightarrow> Inl VictimUnreadable
           | Some d \<Rightarrow> (if ds_services d = [] then Inr ()
                        else Inl (StillHosts (map (\<lambda>x. (sc_project x, sc_service x)) (ds_services d))))))"

definition victim_step :: "int \<Rightarrow> (nat \<Rightarrow> document option) \<Rightarrow> (nat \<Rightarrow> int) \<Rightarrow> nat \<Rightarrow> bool option" where
  "victim_step deadline obs clock i =
     (if (case Option.bind (obs i) parseNodeStatus of None \<Rightarrow> False
          | Some st \<Rightarrow> list_all (\<lambda>x. ss_runningReplicas x = 0) (ns_services st))
      then Some True else if deadline < clock i then Some False else None)"

definition waitForVictimDrained :: "int \<Rightarrow> int \<Rightarrow> (nat \<Rightarrow> document option) \<Rightarrow> (nat \<Rightarrow> int) \<Rightarrow> bool option" where
  "waitForVictimDrained startMs timeoutMs obs clock = poll (victim_step (startMs + timeoutMs) obs clock) 0"

text \<open>
  \<open>drain\<close> is \<open>runRebalance --drain --wait\<close>, \<open>teardown\<close> the destruction of the instance and of its state; between
  the steps other writers act. \<open>obs\<close> and \<open>clock\<close> are what the wait reads.
\<close>

definition applyScaleIn ::
  "aws_env \<Rightarrow> (node_entry \<times> node_observation) list \<Rightarrow> string \<Rightarrow> (state_bucket \<Rightarrow> state_bucket option)
   \<Rightarrow> (node_entry \<Rightarrow> state_bucket \<Rightarrow> state_bucket) \<Rightarrow> int \<Rightarrow> (nat \<Rightarrow> document option) \<Rightarrow> (nat \<Rightarrow> int) \<Rightarrow> schedule
   \<Rightarrow> state_bucket \<Rightarrow> (state_bucket \<times> (autoscale_error + unit)) option" where
  "applyScaleIn aws pool victim drain teardown startMs obs clock interfere s =
     (case find (\<lambda>p. ne_nodeId (fst p) = victim) pool of
        None \<Rightarrow> Some (s, Inl VictimVanished)
      | Some target \<Rightarrow>
          (case drain s of
             None \<Rightarrow> Some (s, Inl EvacuationFailed)
           | Some s1 \<Rightarrow>
               (let s2 = interfere 0 s1
                in case orphan_gate aws victim s2 of
                     Inl e \<Rightarrow> Some (s2, Inl e)
                   | Inr _ \<Rightarrow>
                       (case waitForVictimDrained startMs 120000 obs clock of
                          None \<Rightarrow> None
                        | Some _ \<Rightarrow>
                            (let s3 = interfere 1 s2
                             in case orphan_gate aws victim s3 of
                                  Inl e \<Rightarrow> Some (s3, Inl e)
                                | Inr _ \<Rightarrow> Some (teardown (fst target) s3, Inr ()))))))"

section \<open>What the planner decides\<close>

lemma find_first_le:
  assumes "sorted_wrt le ys" "find P ys = Some v" "m \<in> set ys" "P m"
  shows "m = v \<or> le v m"
  using assms by (induction ys) (auto split: if_splits)

lemma colder_total: "colder a b \<or> colder b a"
  using locale_le_total [of "no_nodeId a" "no_nodeId b"] by (auto simp: colder_def)

lemma colder_trans: "colder a b \<Longrightarrow> colder b c \<Longrightarrow> colder a c"
  using locale_le_trans [of "no_nodeId c" "no_nodeId b" "no_nodeId a"] by (auto simp: colder_def)

lemma coldest_first:
  assumes "find P (sort_by colder xs) = Some v" "m \<in> set xs" "P m"
  shows "load_of v \<le> load_of m"
proof -
  have "sorted_wrt colder (sort_by colder xs)" using colder_total colder_trans by (rule sorted_sort_by)
  from find_first_le [OF this assms(1) _ assms(3)] assms(2) have "m = v \<or> colder v m" by simp
  then show ?thesis by (auto simp: colder_def)
qed

lemma all_fresh: "length (filter P xs) = length xs \<Longrightarrow> x \<in> set xs \<Longrightarrow> P x"
  using filter_length_eq [of P xs] by (metis filter_id_conv)

definition hot :: "autoscale_policy \<Rightarrow> node_observation list \<Rightarrow> bool" where
  "hot policy pool =
     (let fresh = filter has_metrics pool
      in fresh \<noteq> [] \<and> (ap_scaleOutPercent policy \<le> the (average (map (\<lambda>n. the (no_cpuPercent n)) fresh))
           \<or> ap_scaleOutPercent policy \<le> the (average (map (\<lambda>n. the (no_memoryPercent n)) fresh))))"

lemma plan_scale_out:
  assumes "planAutoscale date_parse policy nodes now = ScaleOut"
  shows "int (length (pool_of nodes)) < ap_minNodes policy
    \<or> int (length (pool_of nodes)) < ap_maxNodes policy \<and> in_cooldown date_parse policy now = None \<and> hot policy (pool_of nodes)"
  using assms by (auto simp: planAutoscale_def Let_def hot_def split: if_splits option.splits)

lemma plan_scale_in:
  assumes "planAutoscale date_parse policy nodes now = ScaleIn v"
  obtains n where "n \<in> set (pool_of nodes)" "no_nodeId n = v" "drainable n" "survivorsCanAbsorb n (pool_of nodes)"
    "ap_minNodes policy < int (length (pool_of nodes))" "in_cooldown date_parse policy now = None"
    "\<And>m. m \<in> set (pool_of nodes) \<Longrightarrow> has_metrics m \<and> is_cold policy m"
    "\<And>m. m \<in> set (pool_of nodes) \<Longrightarrow> drainable m \<Longrightarrow> survivorsCanAbsorb m (pool_of nodes) \<Longrightarrow> load_of n \<le> load_of m"
proof -
  let ?pool = "pool_of nodes"
  have c: "in_cooldown date_parse policy now = None"
    using assms by (auto simp: planAutoscale_def Let_def split: if_splits option.splits)
  obtain n where n: "find (\<lambda>v. survivorsCanAbsorb v ?pool) (sort_by colder (filter drainable ?pool)) = Some n" "no_nodeId n = v"
    and g: "ap_minNodes policy < int (length ?pool)" "length (filter has_metrics ?pool) = length ?pool"
      "list_all (is_cold policy) ?pool"
    using assms c by (auto simp: planAutoscale_def Let_def split: if_splits option.splits)
  from find_SomeD [OF n(1)] have "n \<in> set ?pool" "drainable n" "survivorsCanAbsorb n ?pool" by auto
  moreover have "has_metrics m \<and> is_cold policy m" if "m \<in> set ?pool" for m
    using all_fresh [OF g(2) that] g(3) that by (auto simp: list_all_iff)
  moreover have "load_of n \<le> load_of m" if "m \<in> set ?pool" "drainable m" "survivorsCanAbsorb m ?pool" for m
    using coldest_first [OF n(1), of m] that by auto
  ultimately show thesis using that n(2) g(1) c by blast
qed

lemma plan_none:
  assumes "planAutoscale date_parse policy nodes now = NoAction r"
  shows "ap_minNodes policy \<le> int (length (pool_of nodes))
    \<and> (in_cooldown date_parse policy now \<noteq> None \<or> \<not> hot policy (pool_of nodes)
        \<or> ap_maxNodes policy \<le> int (length (pool_of nodes)))"
  using assms by (auto simp: planAutoscale_def Let_def hot_def split: if_splits option.splits)

text \<open>
  C18. Every decision is justified. The pool grows exactly when it is below the floor, or when it is hot
  (an average of the nodes that report reaches the threshold), the cooldown has passed and the ceiling
  is not reached. It shrinks only above the floor, after the cooldown, when every node of the pool
  reports and is cold; the victim is a node of the pool that is neither protected nor external, whose
  reserved footprint the survivors can hold, and no other such node is less loaded.
\<close>

theorem autoscale_decision_safe:
  "case planAutoscale date_parse policy nodes now of
      NoAction r \<Rightarrow> ap_minNodes policy \<le> int (length (pool_of nodes))
        \<and> (in_cooldown date_parse policy now \<noteq> None \<or> \<not> hot policy (pool_of nodes)
            \<or> ap_maxNodes policy \<le> int (length (pool_of nodes)))
    | ScaleOut \<Rightarrow> int (length (pool_of nodes)) < ap_minNodes policy
        \<or> int (length (pool_of nodes)) < ap_maxNodes policy \<and> in_cooldown date_parse policy now = None \<and> hot policy (pool_of nodes)
    | ScaleIn v \<Rightarrow> ap_minNodes policy < int (length (pool_of nodes)) \<and> in_cooldown date_parse policy now = None
        \<and> list_all (\<lambda>m. has_metrics m \<and> is_cold policy m) (pool_of nodes)
        \<and> (\<exists>n. n \<in> set (pool_of nodes) \<and> no_nodeId n = v
             \<and> \<not> no_protected n \<and> no_provisioning n \<noteq> External \<and> survivorsCanAbsorb n (pool_of nodes)
             \<and> list_all (\<lambda>m. load_of n \<le> load_of m)
                 (filter (\<lambda>m. drainable m \<and> survivorsCanAbsorb m (pool_of nodes)) (pool_of nodes)))"
proof (cases "planAutoscale date_parse policy nodes now")
  case (NoAction r)
  with plan_none [OF NoAction] show ?thesis by simp
next
  case ScaleOut
  with plan_scale_out [OF ScaleOut] show ?thesis by simp
next
  case (ScaleIn v)
  from plan_scale_in [OF ScaleIn] obtain n where n: "n \<in> set (pool_of nodes)" "no_nodeId n = v" "drainable n"
    "survivorsCanAbsorb n (pool_of nodes)" "ap_minNodes policy < int (length (pool_of nodes))"
    "in_cooldown date_parse policy now = None"
    "\<And>m. m \<in> set (pool_of nodes) \<Longrightarrow> has_metrics m \<and> is_cold policy m"
    "\<And>m. m \<in> set (pool_of nodes) \<Longrightarrow> drainable m \<Longrightarrow> survivorsCanAbsorb m (pool_of nodes) \<Longrightarrow> load_of n \<le> load_of m"
    by metis
  then have "\<not> no_protected n \<and> no_provisioning n \<noteq> External" by (simp add: drainable_def)
  moreover have "list_all (\<lambda>m. load_of n \<le> load_of m)
      (filter (\<lambda>m. drainable m \<and> survivorsCanAbsorb m (pool_of nodes)) (pool_of nodes))"
    using n(8) by (simp add: list_all_iff)
  moreover have "list_all (\<lambda>m. has_metrics m \<and> is_cold policy m) (pool_of nodes)"
    using n(7) by (simp add: list_all_iff)
  ultimately show ?thesis using ScaleIn n(1,2,4,5,6) by auto
qed

section \<open>Sequences of passes\<close>

text \<open>
  Passes that run one after another: between them the metrics change, and a pass that acts stamps the
  policy and adds a node that is still provisioning, removes its victim, or fails after the claim.
\<close>

record fleet =
  fl_policy :: autoscale_policy
  fl_nodes :: "node_observation list"

definition place :: "node_observation \<Rightarrow> string \<times> node_role \<times> node_state \<times> bool \<times> provisioning_mode" where
  "place n = (no_nodeId n, no_role n, no_state n, no_protected n, no_provisioning n)"

definition stamp_policy :: "int \<Rightarrow> autoscale_policy \<Rightarrow> autoscale_policy" where
  "stamp_policy now p = p\<lparr>ap_lastScaleAt := Some (toISOString now)\<rparr>"

inductive autoscale_pass :: "(string \<Rightarrow> int option) \<Rightarrow> fleet \<Rightarrow> fleet \<Rightarrow> bool" for date_parse where
  observe: "map place ns = map place (fl_nodes f) \<Longrightarrow> autoscale_pass date_parse f (f\<lparr>fl_nodes := ns\<rparr>)"
| out: "planAutoscale date_parse (fl_policy f) (fl_nodes f) now = ScaleOut \<Longrightarrow> no_role n = RoleApp
    \<Longrightarrow> no_state n = Provisioning \<Longrightarrow> no_nodeId n \<notin> no_nodeId ` set (fl_nodes f)
    \<Longrightarrow> autoscale_pass date_parse f (f\<lparr>fl_policy := stamp_policy now (fl_policy f), fl_nodes := fl_nodes f @ [n]\<rparr>)"
| inn: "planAutoscale date_parse (fl_policy f) (fl_nodes f) now = ScaleIn v
    \<Longrightarrow> autoscale_pass date_parse f (f\<lparr>fl_policy := stamp_policy now (fl_policy f),
          fl_nodes := filter (\<lambda>n. no_nodeId n \<noteq> v) (fl_nodes f)\<rparr>)"
| failed: "autoscale_pass date_parse f (f\<lparr>fl_policy := stamp_policy now (fl_policy f)\<rparr>)"

abbreviation pool_size :: "fleet \<Rightarrow> int" where
  "pool_size f \<equiv> int (length (pool_of (fl_nodes f)))"

definition in_pool :: "string \<times> node_role \<times> node_state \<times> bool \<times> provisioning_mode \<Rightarrow> bool" where
  "in_pool q = (case q of (_, r, st, _, _) \<Rightarrow> nodeHostsContainers r \<and> \<not> down_state st)"

lemma pool_of_place: "map place (pool_of ns) = filter in_pool (map place ns)"
  by (induction ns) (auto simp: pool_of_def in_pool_def place_def)

lemma pool_size_place: "map place ns = map place ms \<Longrightarrow> length (pool_of ns) = length (pool_of ms)"
  using pool_of_place [of ns] pool_of_place [of ms] by (metis length_map)

lemma ids_place: "map no_nodeId ns = map fst (map place ns)"
  by (simp add: place_def)

lemma pool_snoc: "no_role n = RoleApp \<Longrightarrow> no_state n = Provisioning \<Longrightarrow> pool_of (ns @ [n]) = pool_of ns @ [n]"
  by (simp add: pool_of_def nodeHostsContainers_def down_state_def)

lemma pool_remove:
  assumes "distinct (map no_nodeId ns)" and "n \<in> set (pool_of ns)" and "no_nodeId n = v"
  shows "Suc (length (pool_of (filter (\<lambda>m. no_nodeId m \<noteq> v) ns))) = length (pool_of ns)"
proof -
  have swap: "pool_of (filter (\<lambda>m. no_nodeId m \<noteq> v) ns) = filter (\<lambda>m. no_nodeId m \<noteq> v) (pool_of ns)"
    by (simp add: pool_of_def conj_commute)
  have d: "distinct (map no_nodeId (pool_of ns))" using assms(1) by (simp add: pool_of_def distinct_map_filter_key)
  have "length (filter (\<lambda>m. no_nodeId m \<noteq> no_nodeId x) xs) + 1 = length xs"
    if "distinct (map no_nodeId xs)" "x \<in> set xs" for x :: node_observation and xs
    using that
  proof (induction xs)
    case (Cons y ys)
    show ?case
    proof (cases "y = x")
      case True
      with Cons.prems(1) have "filter (\<lambda>m. no_nodeId m \<noteq> no_nodeId x) ys = ys"
        by (auto simp: filter_id_conv image_iff)
      with True show ?thesis by simp
    next
      case False
      with Cons.prems have "x \<in> set ys" "no_nodeId y \<noteq> no_nodeId x" by (auto simp: image_iff)
      with Cons show ?thesis by simp
    qed
  qed simp
  from this [OF d assms(2)] show ?thesis by (simp add: swap assms(3))
qed

definition anchored :: "node_observation \<Rightarrow> bool" where
  "anchored n \<longleftrightarrow> no_protected n \<or> no_provisioning n = External"

definition anchors :: "fleet \<Rightarrow> string set" where
  "anchors f = no_nodeId ` set (filter anchored (fl_nodes f))"

lemma anchors_place: "map place ns = map place (fl_nodes f) \<Longrightarrow> anchors (f\<lparr>fl_nodes := ns\<rparr>) = anchors f"
proof -
  assume e: "map place ns = map place (fl_nodes f)"
  have "no_nodeId ` set (filter anchored ms) = (\<lambda>q. fst q) ` {q \<in> set (map place ms). (case q of (_, _, _, p, x) \<Rightarrow> p \<or> x = External)}" for ms
    by (force simp: place_def anchored_def image_iff)
  from this [of ns] this [of "fl_nodes f"] show ?thesis by (simp add: anchors_def e del: set_map)
qed

definition range_ok :: "fleet \<Rightarrow> fleet \<Rightarrow> bool" where
  "range_ok f f' \<longleftrightarrow> distinct (map no_nodeId (fl_nodes f')) \<and> pool_size f' \<le> ap_maxNodes (fl_policy f')
     \<and> min (ap_minNodes (fl_policy f)) (pool_size f) \<le> pool_size f'
     \<and> ap_minNodes (fl_policy f') = ap_minNodes (fl_policy f) \<and> ap_maxNodes (fl_policy f') = ap_maxNodes (fl_policy f)
     \<and> anchors f \<subseteq> anchors f'"

lemma pass_keeps_range:
  assumes "autoscale_pass date_parse f f'" and "distinct (map no_nodeId (fl_nodes f))"
    and "pool_size f \<le> ap_maxNodes (fl_policy f)" and "ap_minNodes (fl_policy f) \<le> ap_maxNodes (fl_policy f)"
  shows "range_ok f f'"
  using assms(1)
proof cases
  case (observe ns)
  then show ?thesis
    using assms(2,3) pool_size_place [OF observe(2)] anchors_place [OF observe(2)]
    by (simp add: range_ok_def ids_place del: map_map)
next
  case (out now n)
  have "pool_size f < ap_maxNodes (fl_policy f)"
    using plan_scale_out [OF out(2)] assms(4) by auto
  with out assms(2) show ?thesis
    by (auto simp: range_ok_def pool_snoc stamp_policy_def anchors_def)
next
  case (inn now v)
  from plan_scale_in [OF inn(2)] obtain n where n: "n \<in> set (pool_of (fl_nodes f))" "no_nodeId n = v" "drainable n"
    "ap_minNodes (fl_policy f) < pool_size f" by metis
  have size: "Suc (length (pool_of (filter (\<lambda>m. no_nodeId m \<noteq> v) (fl_nodes f)))) = length (pool_of (fl_nodes f))"
    by (rule pool_remove [OF assms(2) n(1,2)])
  have "m = n" if "m \<in> set (fl_nodes f)" "no_nodeId m = v" for m
    using that n(1,2) assms(2) by (auto simp: pool_of_def distinct_map dest: inj_onD)
  then have "anchors f \<subseteq> anchors f'"
    using n(3) by (auto simp: inn(1) anchors_def anchored_def drainable_def)
  then show ?thesis
    using assms(2,3) n(4) size by (simp add: inn(1) range_ok_def stamp_policy_def distinct_map_filter_key)
next
  case (failed now)
  then show ?thesis using assms(2,3) by (simp add: range_ok_def stamp_policy_def anchors_def)
qed

text \<open>
  Passes that run one after another keep the pool within the policy: it never grows past
  \<open>maxNodes\<close>, it never shrinks below \<open>minNodes\<close> (or below where it started), and the cluster's routing
  anchor and the operator's own hosts are never removed.
\<close>

theorem autoscale_stays_in_range:
  assumes "(autoscale_pass date_parse)\<^sup>*\<^sup>* f f'" and "valid_policy (fl_policy f)"
    and "distinct (map no_nodeId (fl_nodes f))" and "pool_size f \<le> ap_maxNodes (fl_policy f)"
  shows "pool_size f' \<le> ap_maxNodes (fl_policy f) \<and> min (ap_minNodes (fl_policy f)) (pool_size f) \<le> pool_size f'
    \<and> anchors f \<subseteq> anchors f'"
proof -
  have "range_ok f f'"
    using assms(1)
  proof (induction rule: rtranclp_induct)
    case base
    then show ?case using assms(3,4) by (simp add: range_ok_def)
  next
    case (step g h)
    have "range_ok g h"
      by (rule pass_keeps_range [OF step(2)]) (use step(3) assms(2) in \<open>auto simp: range_ok_def valid_policy_def\<close>)
    with step(3) show ?case by (auto simp: range_ok_def)
  qed
  then show ?thesis by (simp add: range_ok_def)
qed

section \<open>The claim\<close>

definition stamped :: "int \<Rightarrow> cluster_config \<Rightarrow> autoscale_policy \<Rightarrow> cluster_config" where
  "stamped now c p = c\<lparr>cc_autoscale := Some (stamp_policy now p)\<rparr>"

lemma stamped_valid: "valid_cluster_config c \<Longrightarrow> cc_autoscale c = Some p \<Longrightarrow> valid_cluster_config (stamped now c p)"
  by (simp add: valid_cluster_config_def stamped_def stamp_policy_def valid_policy_def)

lemma claim_cases:
  "claimScaleAction aws now interfere s = (s', Inr ()) \<longleftrightarrow>
     (\<exists>raw c p. interfere 0 s (clusterConfigKey (aws_clusterId aws)) = Some raw \<and> parseClusterConfig raw = Some c
        \<and> cc_autoscale c = Some p
        \<and> interfere 1 (interfere 0 s) (clusterConfigKey (aws_clusterId aws)) = Some raw
        \<and> s' = (interfere 1 (interfere 0 s))(clusterConfigKey (aws_clusterId aws) := Some (ClusterJson (stamped now c p))))"
  by (auto simp: claimScaleAction_def getJson_def putJson_def etag_of_def stamped_def stamp_policy_def Let_def
      split: option.splits)

text \<open>A claim that succeeds replaced the document it read: an edit made in between is not overwritten.\<close>

lemma claim_keeps_edits:
  assumes "claimScaleAction aws now interfere s = (s', Inr ())"
  obtains c p where "interfere 1 (interfere 0 s) (clusterConfigKey (aws_clusterId aws)) = Some (ClusterJson c)"
    "cc_autoscale c = Some p" "s' (clusterConfigKey (aws_clusterId aws)) = Some (ClusterJson (stamped now c p))"
  using assms that unfolding claim_cases by (auto simp: parse_Some)

lemma plan_pass_config:
  assumes "plan_pass date_parse aws now snapMs stamp ids s = Inr r"
  obtains c p where "s (clusterConfigKey (aws_clusterId aws)) = Some (ClusterJson c)" "valid_cluster_config c"
    "cc_autoscale c = Some p"
  using assms that
  by (auto simp: plan_pass_def requireCluster_def res_bind_eq_Inr getJson_def parse_Some
      split: if_splits option.splits)

text \<open>
  The claim does not exclude an overlapping pass. Two passes that planned from the same state both
  claim, one after the other: the second reads the document and its ETag again and does not look at the
  cooldown the first one started, however little time separates them.
\<close>

theorem overlapping_claims_succeed:
  assumes "plan_pass date_parse aws t1 m1 d1 ids s = Inr r1" and "plan_pass date_parse aws t2 m2 d2 ids s = Inr r2"
  shows "\<exists>s1 s2. claimScaleAction aws t1 (\<lambda>_ u. u) s = (s1, Inr ()) \<and> claimScaleAction aws t2 (\<lambda>_ u. u) s1 = (s2, Inr ())"
proof -
  from plan_pass_config [OF assms(1)] obtain c p where c: "s (clusterConfigKey (aws_clusterId aws)) = Some (ClusterJson c)"
    "valid_cluster_config c" "cc_autoscale c = Some p" by metis
  let ?s1 = "s(clusterConfigKey (aws_clusterId aws) := Some (ClusterJson (stamped t1 c p)))"
  let ?s2 = "?s1(clusterConfigKey (aws_clusterId aws) := Some (ClusterJson (stamped t2 (stamped t1 c p) (stamp_policy t1 p))))"
  have 1: "claimScaleAction aws t1 (\<lambda>_ u. u) s = (?s1, Inr ())"
    unfolding claim_cases using c by (auto simp: parseClusterConfig_def)
  have "cc_autoscale (stamped t1 c p) = Some (stamp_policy t1 p)" by (simp add: stamped_def)
  then have "claimScaleAction aws t2 (\<lambda>_ u. u) ?s1 = (?s2, Inr ())"
    unfolding claim_cases using stamped_valid [OF c(2,3), of t1] by (auto simp: parseClusterConfig_def)
  with 1 show ?thesis by blast
qed

text \<open>
  Nor does an edge adoption or \<open>cluster set-edge\<close> that read the document before the claim lose to it: its
  unconditional write takes the stamp away again.
\<close>

lemma set_edge_undoes_claim:
  assumes "s (clusterConfigKey cid) = Some (ClusterJson c)" "valid_cluster_config c" "cc_clusterId c = cid"
    "cc_autoscale c = Some p" "cc_defaultEdge c = None" "aws_clusterId aws = cid"
  shows "fst (adoptEdgeIfUnset cid e (\<lambda>u. fst (claimScaleAction aws now (\<lambda>_ v. v) u)) s) (clusterConfigKey cid) =
    Some (ClusterJson (c\<lparr>cc_defaultEdge := Some e\<rparr>))"
  using assms by (simp add: adoptEdgeIfUnset_def getClusterConfig_def getJson_def parseClusterConfig_def put_cluster)

section \<open>Tearing the victim down\<close>

interpretation victim: deadline_loop "victim_step deadline obs clock" deadline clock for deadline obs clock
  by unfold_locales (auto simp: victim_step_def)

lemma victim_wait_returns:
  assumes "\<And>i. clock i + 3000 \<le> clock (Suc i)" and "startMs \<le> clock 0"
  shows "\<exists>b. waitForVictimDrained startMs 120000 obs clock = Some b"
  using victim.returns [of clock 3000 startMs "startMs + 120000" obs] assms by (auto simp: waitForVictimDrained_def)

lemma orphan_gate_open:
  "orphan_gate aws victim s = Inr () \<longleftrightarrow>
     (case s (desiredKey (aws_clusterId aws) victim) of None \<Rightarrow> True
      | Some raw \<Rightarrow> (\<exists>d. parseDesiredState raw = Some d \<and> ds_services d = []))"
  by (auto simp: orphan_gate_def split: option.splits)


section \<open>Examples\<close>

definition example_policy :: autoscale_policy where
  "example_policy = \<lparr>ap_minNodes = 1, ap_maxNodes = 2, ap_scaleOutPercent = 80, ap_scaleInPercent = 30,
     ap_cooldownSeconds = 300, ap_lastScaleAt = None\<rparr>"

definition observed :: "string \<Rightarrow> rat \<Rightarrow> rat \<Rightarrow> node_observation" where
  "observed n cpu memory = \<lparr>no_nodeId = n, no_role = RoleApp, no_state = Ready, no_protected = False,
     no_provisioning = Ec2, no_cpuPercent = Some cpu, no_memoryPercent = Some memory, no_reserved = None\<rparr>"

lemma autoscale_decision_safe_witness:
  "planAutoscale iso_parse example_policy [observed ''a'' 20 10, observed ''b'' 5 10] 0 = ScaleIn ''b''
   \<and> (\<exists>n. n \<in> set (pool_of [observed ''a'' 20 10, observed ''b'' 5 10]) \<and> no_nodeId n = ''b'' \<and> \<not> no_protected n)"
proof -
  have d: "planAutoscale iso_parse example_policy [observed ''a'' 20 10, observed ''b'' 5 10] 0 = ScaleIn ''b''"
    by code_simp
  from autoscale_decision_safe [where date_parse = iso_parse and policy = example_policy
      and nodes = "[observed ''a'' 20 10, observed ''b'' 5 10]" and now = 0] d
  show ?thesis by auto
qed

definition example_fleet :: fleet where
  "example_fleet = \<lparr>fl_policy = example_policy, fl_nodes = [observed ''a'' 20 10, observed ''b'' 5 10]\<rparr>"

lemma autoscale_stays_in_range_witness:
  "\<exists>f'. (autoscale_pass iso_parse)\<^sup>*\<^sup>* example_fleet f' \<and> pool_size f' \<le> 2 \<and> 1 \<le> pool_size f'
    \<and> map no_nodeId (fl_nodes f') = [''a'']"
proof -
  have d: "planAutoscale iso_parse (fl_policy example_fleet) (fl_nodes example_fleet) 0 = ScaleIn ''b''" by code_simp
  let ?f = "example_fleet\<lparr>fl_policy := stamp_policy 0 (fl_policy example_fleet),
     fl_nodes := filter (\<lambda>n. no_nodeId n \<noteq> ''b'') (fl_nodes example_fleet)\<rparr>"
  have r: "(autoscale_pass iso_parse)\<^sup>*\<^sup>* example_fleet ?f" using inn [OF d] by blast
  have "pool_size ?f \<le> ap_maxNodes (fl_policy example_fleet)
      \<and> min (ap_minNodes (fl_policy example_fleet)) (pool_size example_fleet) \<le> pool_size ?f \<and> anchors example_fleet \<subseteq> anchors ?f"
    by (rule autoscale_stays_in_range [OF r])
      (simp_all add: valid_policy_def example_fleet_def example_policy_def observed_def pool_of_def
        nodeHostsContainers_def down_state_def)
  with r show ?thesis
    by (intro exI [of _ ?f])
      (simp add: example_fleet_def example_policy_def observed_def pool_of_def nodeHostsContainers_def down_state_def)
qed

definition prod_env :: aws_env where
  "prod_env = \<lparr>aws_accountId = ''1'', aws_region = ''us-east-1'', aws_clusterId = ''prod''\<rparr>"

definition prod_cluster :: cluster_config where
  "prod_cluster = \<lparr>cc_clusterId = ''prod'', cc_defaultEdge = Some ''edge'', cc_region = ''us-east-1'', cc_createdAt = ''t'',
     cc_createdBy = ''me'', cc_autoscale = Some example_policy, cc_snsTopicArn = None\<rparr>"

definition epoch_text :: string where "epoch_text = ''1970-01-01T00:00:00.000Z''"

definition epoch :: "string \<Rightarrow> int option" where "epoch t = (if t = epoch_text then Some 0 else None)"

definition hot_status :: node_status where
  "hot_status = (quiet_status ''a'' epoch_text [])\<lparr>ns_host := Some \<lparr>hs_cpuPercent = 90, hs_memoryUsedMb = 512,
     hs_memoryTotalMb = 1024, hs_sampledAt = epoch_text\<rparr>\<rparr>"

definition prod_bucket :: state_bucket where
  "prod_bucket = [clusterConfigKey ''prod'' \<mapsto> ClusterJson prod_cluster,
     nodeRegistryKey ''prod'' ''a'' \<mapsto> NodeJson (example_small_node\<lparr>ne_clusterId := ''prod''\<rparr>),
     statusKey ''prod'' ''a'' \<mapsto> StatusJson hot_status]"

definition prod_pool :: "int \<Rightarrow> (node_entry \<times> node_observation) list" where
  "prod_pool now = (case observePool epoch prod_env (Some ''edge'') now now ''t'' [''a''] prod_bucket of Inr r \<Rightarrow> r)"

lemma prod_plan:
  assumes "\<not> isl (observePool epoch prod_env (Some ''edge'') now now ''t'' [''a''] prod_bucket)"
  shows "plan_pass epoch prod_env now now ''t'' [''a''] prod_bucket =
    Inr (planAutoscale epoch example_policy (map snd (prod_pool now)) now, prod_pool now)"
proof -
  have "requireCluster prod_env prod_bucket = Inr (prod_cluster, ClusterJson prod_cluster)" by code_simp
  moreover have "observePool epoch prod_env (Some ''edge'') now now ''t'' [''a''] prod_bucket = Inr (prod_pool now)"
    unfolding prod_pool_def using assms by (rule case_Inr)
  ultimately show ?thesis by (simp add: plan_pass_def prod_cluster_def)
qed

text \<open>One node, hot, and room for one more: both passes decide to add it and both claim.\<close>

lemma overlapping_claims_succeed_witness:
  "planAutoscale epoch example_policy (map snd (prod_pool 1000)) 1000 = ScaleOut
   \<and> planAutoscale epoch example_policy (map snd (prod_pool 2000)) 2000 = ScaleOut
   \<and> (\<exists>s1 s2. claimScaleAction prod_env 1000 (\<lambda>_ u. u) prod_bucket = (s1, Inr ())
        \<and> claimScaleAction prod_env 2000 (\<lambda>_ u. u) s1 = (s2, Inr ()))"
proof -
  have o1: "isl (observePool epoch prod_env (Some ''edge'') 1000 1000 ''t'' [''a''] prod_bucket) = False" by code_simp
  have o2: "isl (observePool epoch prod_env (Some ''edge'') 2000 2000 ''t'' [''a''] prod_bucket) = False" by code_simp
  note p = prod_plan [OF o1 [simplified]] prod_plan [OF o2 [simplified]]
  have d1: "planAutoscale epoch example_policy (map snd (prod_pool 1000)) 1000 = ScaleOut" by code_simp
  have d2: "planAutoscale epoch example_policy (map snd (prod_pool 2000)) 2000 = ScaleOut" by code_simp
  from overlapping_claims_succeed [OF p] d1 d2 show ?thesis by blast
qed


end
