(* ===== verification/Backup.thy ===== *)
theory Backup
  imports Capacity Documents S3_Keys
begin

text \<open>
  Backup and restore of a cluster's state: \<open>packages/cli/src/backup/plan.ts\<close> and \<open>packages/cli/src/commands/backup.ts\<close>.
  A directory is its manifest, if it has one that can be read, and its other files in the order a walk meets them.
  The listing of keys, the bucket as each read finds it, what reading a body as text makes of it, and the size of a body
  are parameters.
\<close>

section \<open>The plan\<close>

definition BACKUP_MANIFEST_VERSION :: int where "BACKUP_MANIFEST_VERSION = 1"
definition BACKUP_MANIFEST_FILE :: string where "BACKUP_MANIFEST_FILE = ''manifest.json''"
definition MAX_RESTORE_OBJECT_BYTES :: int where "MAX_RESTORE_OBJECT_BYTES = 5 * 1024 * 1024"

record backup_manifest =
  mf_version :: int
  mf_cluster :: string
  mf_bucket :: string
  mf_prefixes :: "string list"
  mf_keys :: "string list option"

definition backupPrefixesForCluster :: "string \<Rightarrow> string list" where
  "backupPrefixesForCluster clusterId =
     (if clusterId = DEFAULT_CLUSTER then [NODES_PREFIX, ''projects/''] else [CLUSTERS_PREFIX @ clusterId @ ''/''])"

definition isSafeBackupKey :: "string \<Rightarrow> bool" where
  "isSafeBackupKey key \<longleftrightarrow>
     key \<noteq> [] \<and> key \<noteq> BACKUP_MANIFEST_FILE
     \<and> \<not> starts_with key ''/'' \<and> CHR 0x5C \<notin> set key \<and> CHR 0x00 \<notin> set key
     \<and> list_all (\<lambda>seg. seg \<noteq> [] \<and> seg \<noteq> ''.'' \<and> seg \<noteq> ''..'') (split_char CHR ''/'' key)"

definition keyUnderPrefixes :: "string \<Rightarrow> string list \<Rightarrow> bool" where
  "keyUnderPrefixes key roots \<longleftrightarrow> list_ex (\<lambda>p. key = p \<or> starts_with key p) roots"

section \<open>Backup\<close>

type_synonym backup_files = "(string, document) assoc"
type_synonym backup_dir = "backup_manifest option \<times> backup_files"

text \<open>\<open>view i\<close> is the bucket as the read number i finds it; an object that is gone by then is passed over.\<close>

fun capture :: "(nat \<Rightarrow> state_bucket) \<Rightarrow> (document \<Rightarrow> document) \<Rightarrow> nat \<Rightarrow> string list \<Rightarrow> backup_files \<times> string list \<Rightarrow> backup_files \<times> string list" where
  "capture view as_text i [] acc = acc"
| "capture view as_text i (key # keys) (files, captured) =
     (if \<not> isSafeBackupKey key then capture view as_text i keys (files, captured)
      else case view i key of
        None \<Rightarrow> capture view as_text (i + 1) keys (files, captured)
      | Some body \<Rightarrow> capture view as_text (i + 1) keys (assoc_set key (as_text body) files, captured @ [key]))"

record backup_world =
  bk_cluster :: string
  bk_bucket :: string
  bk_list :: "string \<Rightarrow> string list"
  bk_view :: "nat \<Rightarrow> state_bucket"
  bk_asText :: "document \<Rightarrow> document"

definition runBackup :: "backup_world \<Rightarrow> backup_files \<Rightarrow> backup_dir" where
  "runBackup w existing =
     (let roots = backupPrefixesForCluster (bk_cluster w);
          (files, captured) = capture (bk_view w) (bk_asText w) 0 (concat (map (bk_list w) roots)) (existing, [])
      in (Some \<lparr>mf_version = BACKUP_MANIFEST_VERSION, mf_cluster = bk_cluster w, mf_bucket = bk_bucket w,
                mf_prefixes = roots, mf_keys = Some captured\<rparr>, files))"

section \<open>Restore\<close>

datatype restore_error =
    NoManifest
  | UnsupportedBackup int
  | UnsafeKey string
  | OutsideCluster string
  | NotRecorded string
  | TooLarge string
  | NothingToRestore
  | RestoreAwsFailed
  | PutFailed string

datatype restore_outcome = NotConfirmed | Restored nat

fun upload_set ::
  "string list \<Rightarrow> string list \<Rightarrow> (document \<Rightarrow> int) \<Rightarrow> backup_files \<Rightarrow> restore_error + backup_files" where
  "upload_set roots recorded bytes [] = Inr []"
| "upload_set roots recorded bytes ((key, body) # files) =
     (if \<not> isSafeBackupKey key then Inl (UnsafeKey key)
      else if \<not> keyUnderPrefixes key roots then Inl (OutsideCluster key)
      else if key \<notin> set recorded then Inl (NotRecorded key)
      else if MAX_RESTORE_OBJECT_BYTES < bytes body then Inl (TooLarge key)
      else res_bind (upload_set roots recorded bytes files) (\<lambda>us. Inr ((key, body) # us)))"

fun put_objects :: "(string \<Rightarrow> bool) \<Rightarrow> backup_files \<Rightarrow> state_bucket \<Rightarrow> state_bucket \<times> string option" where
  "put_objects ok [] s = (s, None)"
| "put_objects ok ((key, body) # us) s = (if ok key then put_objects ok us (s(key \<mapsto> body)) else (s, Some key))"

record restore_world =
  rs_bytes :: "document \<Rightarrow> int"
  rs_aws :: bool
  rs_json :: bool
  rs_confirm :: bool
  rs_putOk :: "string \<Rightarrow> bool"

definition runRestore ::
  "restore_world \<Rightarrow> string option \<Rightarrow> bool \<Rightarrow> backup_dir \<Rightarrow> state_bucket \<Rightarrow> state_bucket \<times> (restore_error + restore_outcome)" where
  "runRestore w cluster_flag yes dir s =
     (case fst dir of
        None \<Rightarrow> (s, Inl NoManifest)
      | Some m \<Rightarrow>
          if mf_version m \<noteq> BACKUP_MANIFEST_VERSION then (s, Inl (UnsupportedBackup (mf_version m)))
          else let cluster = option_or cluster_flag (mf_cluster m)
               in case upload_set (backupPrefixesForCluster cluster) (option_or (mf_keys m) []) (rs_bytes w) (snd dir) of
                    Inl e \<Rightarrow> (s, Inl e)
                  | Inr uploads \<Rightarrow>
                      if uploads = [] then (s, Inl NothingToRestore)
                      else if \<not> rs_aws w then (s, Inl RestoreAwsFailed)
                      else if \<not> (yes \<or> \<not> rs_json w \<and> rs_confirm w) then (s, Inr NotConfirmed)
                      else case put_objects (rs_putOk w) uploads s of
                             (s1, None) \<Rightarrow> (s1, Inr (Restored (length uploads)))
                           | (s1, Some key) \<Rightarrow> (s1, Inl (PutFailed key)))"

section \<open>What a restore may touch\<close>

definition may_upload :: "string list \<Rightarrow> string list \<Rightarrow> (document \<Rightarrow> int) \<Rightarrow> string \<times> document \<Rightarrow> bool" where
  "may_upload roots recorded bytes = (\<lambda>(k, b). isSafeBackupKey k \<and> keyUnderPrefixes k roots \<and> k \<in> set recorded
     \<and> bytes b \<le> MAX_RESTORE_OBJECT_BYTES)"

lemma upload_set_ok:
  "upload_set roots recorded bytes files = Inr us \<longleftrightarrow> us = files \<and> (\<forall>x \<in> set files. may_upload roots recorded bytes x)"
proof (induction files arbitrary: us)
  case (Cons x files)
  obtain k b where x: "x = (k, b)" by (cases x)
  show ?case using Cons.IH by (cases "may_upload roots recorded bytes x") (auto simp: x may_upload_def res_bind_eq_Inr)
qed auto

lemma put_objects_reach:
  "put_objects ok us s = (s1, r) \<Longrightarrow> s1 k \<noteq> s k \<Longrightarrow> \<exists>b. (k, b) \<in> set us \<and> s1 k = Some b"
proof (induction us arbitrary: s)
  case (Cons x us)
  obtain j b where x: "x = (j, b)" by (cases x)
  from Cons.prems have r: "ok j" "put_objects ok us (s(j \<mapsto> b)) = (s1, r)" by (auto simp: x split: if_splits)
  show ?case
  proof (cases "s1 k = (s(j \<mapsto> b)) k")
    case True
    with Cons.prems(2) show ?thesis by (auto simp: x split: if_splits)
  next
    case False
    from Cons.IH [OF r(2) False] show ?thesis by auto
  qed
qed simp

lemma put_objects_all:
  assumes "\<forall>(k, b) \<in> set us. ok k" "distinct (map fst us)"
  shows "put_objects ok us s = (s ++ map_of us, None)"
  using assms
proof (induction us arbitrary: s)
  case (Cons x us)
  obtain j b where x: "x = (j, b)" by (cases x)
  have "map_of us j = None" using Cons.prems(2) by (simp add: x map_of_eq_None_iff)
  then have "s(j \<mapsto> b) ++ map_of us = (s ++ map_of us)(j \<mapsto> b)"
    by (auto simp: map_add_def fun_eq_iff split: option.splits)
  moreover have "put_objects ok us (s(j \<mapsto> b)) = (s(j \<mapsto> b) ++ map_of us, None)"
    using Cons.IH Cons.prems by (auto simp: x)
  moreover have "s ++ map_of (x # us) = (s ++ map_of us)(j \<mapsto> b)" by (auto simp: x map_add_def fun_eq_iff)
  moreover have "put_objects ok (x # us) s = put_objects ok us (s(j \<mapsto> b))" using Cons.prems(1) by (simp add: x)
  ultimately show ?case by metis
qed simp

text \<open>
  A restore, whatever is in the directory, writes only keys that the manifest records, that lie in the cluster's own part
  of the bucket and stay in the directory as paths, with the file's content; and unless a write fails or every file
  passed, the bucket is as it was.
\<close>

theorem restore_confined:
  assumes "runRestore w flag yes (Some m, files) s = (s1, r)"
  shows "(\<forall>k. s1 k \<noteq> s k \<longrightarrow> isSafeBackupKey k \<and> keyUnderPrefixes k (backupPrefixesForCluster (option_or flag (mf_cluster m)))
        \<and> k \<in> set (option_or (mf_keys m) []) \<and> (\<exists>b. (k, b) \<in> set files \<and> s1 k = Some b))
    \<and> (case r of Inl (PutFailed _) \<Rightarrow> True | Inr (Restored n) \<Rightarrow> n = length files | _ \<Rightarrow> s1 = s)"
proof (cases "s1 = s")
  case True
  with assms show ?thesis
    by (auto simp: runRestore_def Let_def upload_set_ok split: if_splits sum.splits prod.splits option.splits restore_error.splits)
next
  case False
  with assms obtain us where u: "upload_set (backupPrefixesForCluster (option_or flag (mf_cluster m))) (option_or (mf_keys m) []) (rs_bytes w) files = Inr us"
    and p: "\<exists>x. put_objects (rs_putOk w) us s = (s1, x) \<and> (case x of None \<Rightarrow> r = Inr (Restored (length us)) | Some k \<Rightarrow> r = Inl (PutFailed k))"
    by (auto simp: runRestore_def Let_def split: if_splits sum.splits prod.splits option.splits)
  from u have f: "us = files" unfolding upload_set_ok by simp
  with p put_objects_reach [of "rs_putOk w" us s s1] u show ?thesis
    unfolding upload_set_ok may_upload_def by (fastforce split: option.splits)
qed

section \<open>A backup restores\<close>

text \<open>The part of the bucket that is a cluster's, and the documents kept there.\<close>

definition in_cluster :: "string \<Rightarrow> string \<Rightarrow> bool" where
  "in_cluster c k \<longleftrightarrow> (if c = ''default'' then starts_with k ''nodes/'' \<or> starts_with k ''projects/''
     else starts_with k (''clusters/'' @ c @ ''/''))"

fun doc_cluster :: "state_key \<Rightarrow> string" where
  "doc_cluster (NodeDoc c n) = c"
| "doc_cluster (DesiredDoc c n) = c"
| "doc_cluster (StatusDoc c n) = c"
| "doc_cluster (EdgeDoc c n) = c"
| "doc_cluster (UpstreamDoc c e a) = c"
| "doc_cluster (ClusterDoc c) = c"
| "doc_cluster (BaselineDoc c p) = c"
| "doc_cluster (PreviewDoc c p) = c"
| "doc_cluster (IndexDoc c p) = c"
| "doc_cluster (EventDoc c p ts i) = c"
| "doc_cluster (BuildDoc c p s t) = c"

lemma under_prefix: "keyUnderPrefixes k ps \<longleftrightarrow> (\<exists>p \<in> set ps. starts_with k p)"
  by (force simp: keyUnderPrefixes_def list_ex_iff starts_with_def)

lemma roots_exact: "keyUnderPrefixes k (backupPrefixesForCluster c) \<longleftrightarrow> in_cluster c k"
  by (auto simp: under_prefix backupPrefixesForCluster_def in_cluster_def DEFAULT_CLUSTER_def NODES_PREFIX_def CLUSTERS_PREFIX_def)

text \<open>Every document of a cluster lies in its part; the default cluster has no document of its own configuration.\<close>

lemma documents_in_cluster:
  assumes "d \<noteq> ClusterDoc ''default''"
  shows "in_cluster (doc_cluster d) (key_of d)"
  using assms by (cases d) (auto simp: in_cluster_def key_defs starts_with_def DEFAULT_CLUSTER_def)

definition covered :: "string \<Rightarrow> state_bucket \<Rightarrow> string \<Rightarrow> bool" where
  "covered c s k \<longleftrightarrow> in_cluster c k \<and> s k \<noteq> None"

text \<open>The store lists the keys of the objects under a prefix, each once.\<close>

definition lists :: "(string \<Rightarrow> string list) \<Rightarrow> state_bucket \<Rightarrow> bool" where
  "lists ls s \<longleftrightarrow> (\<forall>p. distinct (ls p) \<and> set (ls p) = {k. s k \<noteq> None \<and> starts_with k p})"

lemma captured:
  assumes "\<forall>k \<in> set keys. isSafeBackupKey k \<and> s k \<noteq> None"
  shows "capture (\<lambda>_. s) as_text i keys (files, got) = (fold (\<lambda>k m. assoc_set k (as_text (the (s k))) m) keys files, got @ keys)"
  using assms by (induction keys arbitrary: i files got) auto

lemma fold_captured:
  "map_of (fold (\<lambda>k m. assoc_set k (f k) m) keys m) k = (if k \<in> set keys then Some (f k) else map_of m k)"
  "distinct (map fst m) \<Longrightarrow> distinct (map fst (fold (\<lambda>k m. assoc_set k (f k) m) keys m))"
  by (induction keys arbitrary: m) (auto simp: map_of_assoc_set)

text \<open>
  C8. A backup gives back what it took: restored into any bucket, a backup of a cluster taken while nobody writes puts
  every object of the cluster's part of the bucket back as it was, every kind of document the program keeps there among
  them, and leaves every other key alone, as long as the keys are plain paths, the objects are text and none is larger
  than a restore accepts.
\<close>

theorem backup_restores:
  assumes "bk_view w = (\<lambda>_. s)" "lists (bk_list w) s" "runBackup w [] = (m, files)"
    and "\<forall>k. covered (bk_cluster w) s k \<longrightarrow> isSafeBackupKey k \<and> bk_asText w (the (s k)) = the (s k)
           \<and> rs_bytes v (the (s k)) \<le> MAX_RESTORE_OBJECT_BYTES \<and> rs_putOk v k"
    and "\<exists>k. covered (bk_cluster w) s k" and "set walked = set files" "distinct (map fst walked)" "rs_aws v"
  shows "\<exists>t' n. runRestore v None True (m, walked) t = (t', Inr (Restored n))
    \<and> (\<forall>k. t' k = (if covered (bk_cluster w) s k then s k else t k))
    \<and> (\<forall>d. doc_cluster d = bk_cluster w \<and> d \<noteq> ClusterDoc ''default'' \<and> s (key_of d) \<noteq> None \<longrightarrow> t' (key_of d) = s (key_of d))"
proof -
  let ?ps = "backupPrefixesForCluster (bk_cluster w)"
  let ?keys = "concat (map (bk_list w) ?ps)"
  have keys: "k \<in> set ?keys \<longleftrightarrow> covered (bk_cluster w) s k" for k
    using assms(2) by (auto simp: covered_def roots_exact [symmetric] under_prefix lists_def)
  have "\<forall>k \<in> set ?keys. isSafeBackupKey k \<and> s k \<noteq> None" using keys assms(4) by (auto simp: covered_def)
  note cap = captured [OF this, of "bk_asText w" 0 "[]" "[]"]
  have m: "m = Some \<lparr>mf_version = BACKUP_MANIFEST_VERSION, mf_cluster = bk_cluster w, mf_bucket = bk_bucket w, mf_prefixes = ?ps, mf_keys = Some ?keys\<rparr>"
    and files: "files = fold (\<lambda>k m. assoc_set k (bk_asText w (the (s k))) m) ?keys []"
    using assms(3) by (auto simp: runBackup_def assms(1) cap Let_def)
  have fd: "distinct (map fst files)" unfolding files by (rule fold_captured(2)) simp
  have f: "map_of files k = (if covered (bk_cluster w) s k then s k else None)" for k
    unfolding files fold_captured(1) keys using assms(4) by (auto simp: covered_def)
  have w: "map_of walked = map_of files"
    using map_of_inject_set [OF assms(7) fd] assms(6) by simp
  have ok: "upload_set ?ps ?keys (rs_bytes v) walked = Inr walked"
    unfolding upload_set_ok
  proof (intro conjI refl ballI, unfold may_upload_def, clarify)
    fix k b assume "(k, b) \<in> set walked"
    then have "map_of files k = Some b" using assms(7) w by (metis map_of_is_SomeI)
    then have c: "covered (bk_cluster w) s k" "s k = Some b" using f [of k] by (auto split: if_splits)
    with assms(4) keys [of k] show "isSafeBackupKey k \<and> keyUnderPrefixes k ?ps \<and> k \<in> set ?keys \<and> rs_bytes v b \<le> MAX_RESTORE_OBJECT_BYTES"
      by (auto simp: covered_def roots_exact)
  qed
  have ne: "walked \<noteq> []"
  proof
    assume "walked = []"
    with w f assms(5) show False by (metis covered_def map_of.simps(1) option.distinct(1))
  qed
  have "\<forall>(k, b) \<in> set walked. rs_putOk v k"
  proof clarify
    fix k b assume "(k, b) \<in> set walked"
    then have "map_of files k = Some b" using assms(7) w by (metis map_of_is_SomeI)
    then show "rs_putOk v k" using assms(4) f [of k] by (auto split: if_splits)
  qed
  note p = put_objects_all [OF this assms(7), of t]
  have "t ++ map_of walked = (\<lambda>k. if covered (bk_cluster w) s k then s k else t k)"
    unfolding w by (auto simp: fun_eq_iff map_add_def f covered_def split: option.splits)
  then have "runRestore v None True (m, walked) t
      = ((\<lambda>k. if covered (bk_cluster w) s k then s k else t k), Inr (Restored (length walked)))"
    by (simp add: runRestore_def m ok ne assms(8) p option_or_def)
  moreover have "covered (bk_cluster w) s (key_of d)"
    if "doc_cluster d = bk_cluster w" "d \<noteq> ClusterDoc ''default''" "s (key_of d) \<noteq> None" for d
    using documents_in_cluster [OF that(2)] that by (simp add: covered_def)
  ultimately show ?thesis by (intro exI conjI) auto
qed

section \<open>Clusters apart\<close>

text \<open>No key belongs to two clusters, so that a backup restores into the cluster it was taken from only.\<close>

lemma starts_with_slash: "no_slash a \<Longrightarrow> no_slash b \<Longrightarrow> starts_with k (a @ ''/'') \<Longrightarrow> starts_with k (b @ ''/'') \<Longrightarrow> a = b"
proof -
  assume a: "no_slash a" and b: "no_slash b" and k: "starts_with k (a @ ''/'')" "starts_with k (b @ ''/'')"
  have "takeWhile (\<lambda>c. c \<noteq> CHR ''/'') k = x" if "no_slash x" "starts_with k (x @ ''/'')" for x
  proof -
    from that(2) obtain r where "k = (x @ ''/'') @ r" unfolding starts_with_def by (metis append_take_drop_id)
    with that(1) show ?thesis by (auto simp: takeWhile_append2 takeWhile_tail)
  qed
  from this [OF a k(1)] this [OF b k(2)] show ?thesis by simp
qed

lemma drop_prefix: "starts_with k (p @ q) \<Longrightarrow> starts_with k p \<and> starts_with (drop (length p) k) q"
proof -
  assume "starts_with k (p @ q)"
  then obtain r where "k = p @ q @ r" unfolding starts_with_def by (metis append_assoc append_take_drop_id)
  then show ?thesis by (simp add: starts_with_def)
qed

theorem clusters_apart:
  assumes "no_slash c" "no_slash d" "keyUnderPrefixes k (backupPrefixesForCluster c)" "keyUnderPrefixes k (backupPrefixesForCluster d)"
  shows "c = d"
proof -
  have root: "\<exists>r. no_slash r \<and> starts_with k (r @ ''/'') \<and> (e = DEFAULT_CLUSTER \<longleftrightarrow> r \<noteq> ''clusters'')
      \<and> (e \<noteq> DEFAULT_CLUSTER \<longrightarrow> starts_with (drop (length CLUSTERS_PREFIX) k) (e @ ''/''))"
    if "keyUnderPrefixes k (backupPrefixesForCluster e)" for e
  proof (cases "e = DEFAULT_CLUSTER")
    case True
    with that have "starts_with k (''nodes'' @ ''/'') \<or> starts_with k (''projects'' @ ''/'')"
      by (auto simp: under_prefix backupPrefixesForCluster_def NODES_PREFIX_def)
    then show ?thesis using True by (elim disjE) (rule exI [of _ "''nodes''"], simp, rule exI [of _ "''projects''"], simp)
  next
    case False
    with that have "starts_with k (CLUSTERS_PREFIX @ e @ ''/'')"
      by (simp add: under_prefix backupPrefixesForCluster_def)
    from drop_prefix [OF this] have "starts_with k (''clusters'' @ ''/'')" "starts_with (drop (length CLUSTERS_PREFIX) k) (e @ ''/'')"
      by (simp_all add: CLUSTERS_PREFIX_def)
    with False show ?thesis by (intro exI [of _ "''clusters''"]) simp
  qed
  from root [OF assms(3)] obtain r where r: "no_slash r" "starts_with k (r @ ''/'')" "c = DEFAULT_CLUSTER \<longleftrightarrow> r \<noteq> ''clusters''"
    "c \<noteq> DEFAULT_CLUSTER \<longrightarrow> starts_with (drop (length CLUSTERS_PREFIX) k) (c @ ''/'')" by blast
  from root [OF assms(4)] obtain q where q: "no_slash q" "starts_with k (q @ ''/'')" "d = DEFAULT_CLUSTER \<longleftrightarrow> q \<noteq> ''clusters''"
    "d \<noteq> DEFAULT_CLUSTER \<longrightarrow> starts_with (drop (length CLUSTERS_PREFIX) k) (d @ ''/'')" by blast
  have "r = q" by (rule starts_with_slash) (use r q in auto)
  with r q show ?thesis using starts_with_slash [OF assms(1,2)] by (cases "c = DEFAULT_CLUSTER") auto
qed

lemma retargeted_restore_refused:
  assumes "no_slash (mf_cluster m)" "no_slash c" "c \<noteq> mf_cluster m" "mf_version m = BACKUP_MANIFEST_VERSION"
    and "files \<noteq> []" "\<forall>(k, b) \<in> set files. keyUnderPrefixes k (backupPrefixesForCluster (mf_cluster m))"
  shows "\<exists>e. runRestore w (Some c) yes (Some m, files) s = (s, Inl e)"
proof -
  have "upload_set (backupPrefixesForCluster c) (option_or (mf_keys m) []) (rs_bytes w) files \<noteq> Inr us" for us
  proof
    assume "upload_set (backupPrefixesForCluster c) (option_or (mf_keys m) []) (rs_bytes w) files = Inr us"
    with assms(5,6) obtain k b where "(k, b) \<in> set files" "keyUnderPrefixes k (backupPrefixesForCluster c)"
      "keyUnderPrefixes k (backupPrefixesForCluster (mf_cluster m))"
      unfolding upload_set_ok may_upload_def by (cases files) auto
    with clusters_apart [OF assms(1,2)] assms(3) show False by blast
  qed
  then show ?thesis using assms(4) by (auto simp: runRestore_def option_or_def Let_def split: sum.splits)
qed

text \<open>One large object, such as the agent's program under its node's prefix, and nothing at all is restored.\<close>

lemma large_object_blocks_restore:
  assumes "(k, b) \<in> set files" "MAX_RESTORE_OBJECT_BYTES < rs_bytes w b"
  shows "\<exists>e. runRestore w flag yes (m, files) s = (s, Inl e)"
proof -
  have "upload_set roots recorded (rs_bytes w) files \<noteq> Inr us" for roots recorded us
    using assms unfolding upload_set_ok may_upload_def by fastforce
  then show ?thesis by (auto simp: runRestore_def Let_def split: sum.splits option.splits)
qed

section \<open>The keys of the program are covered\<close>

definition plain_name :: "string \<Rightarrow> bool" where
  "plain_name n \<longleftrightarrow> n \<noteq> [] \<and> n \<noteq> ''.'' \<and> n \<noteq> ''..'' \<and> CHR 0x5C \<notin> set n \<and> CHR 0x00 \<notin> set n"

lemma state_key_safe:
  assumes "wf_key k" "\<forall>n \<in> set (path_of k). plain_name n"
  shows "isSafeBackupKey (key_of k)"
proof -
  have sp: "split_char CHR ''/'' (key_of k) = path_of k" by (rule path_of_key [OF assms(1)])
  have plain: "plain_name n" if "n \<in> set (split_char CHR ''/'' (key_of k))" for n using assms(2) that unfolding sp by blast
  have "key_of k \<noteq> []" using plain [of "[]"] by (auto simp: plain_name_def)
  moreover have "\<not> starts_with (key_of k) ''/''"
    using plain [of "[]"] by (cases "key_of k") (auto simp: plain_name_def starts_with_def)
  moreover have "key_of k \<noteq> BACKUP_MANIFEST_FILE"
  proof
    assume "key_of k = BACKUP_MANIFEST_FILE"
    then have "path_of k = [BACKUP_MANIFEST_FILE]" using sp by (simp add: BACKUP_MANIFEST_FILE_def)
    then show False by (cases k) (auto simp: scope_def split: if_splits)
  qed
  moreover have "c \<notin> set (key_of k)" if "c \<noteq> CHR ''/''" "\<forall>n \<in> set (path_of k). c \<notin> set n" for c
  proof -
    have "c \<notin> set (join_str [CHR ''/''] ps)" if "\<forall>n \<in> set ps. c \<notin> set n" for ps
      using that \<open>c \<noteq> CHR ''/''\<close> by (induction "[CHR ''/'']" ps rule: join_str.induct) auto
    with that(2) show ?thesis unfolding key_of_path by blast
  qed
  ultimately show ?thesis
    using assms(2) unfolding isSafeBackupKey_def sp by (simp add: plain_name_def list_all_iff)
qed

section \<open>An example\<close>

definition one_object :: state_bucket where
  "one_object = [''nodes/a/node.json'' \<mapsto> UnreadableJson ''x'', ''clusters/prod/cluster.json'' \<mapsto> UnreadableJson ''y'']"

definition small_backup :: backup_world where
  "small_backup = \<lparr>bk_cluster = ''default'', bk_bucket = ''b'', bk_list = (\<lambda>p. filter (\<lambda>k. starts_with k p) [''nodes/a/node.json'', ''clusters/prod/cluster.json'']),
     bk_view = (\<lambda>_. one_object), bk_asText = id\<rparr>"

definition small_restore :: restore_world where
  "small_restore = \<lparr>rs_bytes = (\<lambda>_. 10), rs_aws = True, rs_json = True, rs_confirm = False, rs_putOk = (\<lambda>_. True)\<rparr>"

lemma one_object_covered: "covered (bk_cluster small_backup) one_object k \<longleftrightarrow> k = ''nodes/a/node.json''"
proof -
  have "in_cluster ''default'' ''nodes/a/node.json''" "\<not> in_cluster ''default'' ''clusters/prod/cluster.json''"
    by (simp_all add: in_cluster_def starts_with_def)
  then show ?thesis unfolding covered_def small_backup_def one_object_def by (auto simp del: One_nat_def)
qed

lemma backup_restores_witness:
  "\<exists>n. fst (runRestore small_restore None True (runBackup small_backup []) (\<lambda>_. None)) ''nodes/a/node.json'' = Some (UnreadableJson ''x'')
     \<and> snd (runRestore small_restore None True (runBackup small_backup []) (\<lambda>_. None)) = Inr (Restored n)"
proof -
  obtain m files where b: "runBackup small_backup [] = (m, files)" by (cases "runBackup small_backup []")
  have v: "bk_view small_backup = (\<lambda>_. one_object)" by (simp add: small_backup_def)
  have l: "lists (bk_list small_backup) one_object"
    by (auto simp: lists_def small_backup_def one_object_def split: if_splits)
  have safe: "isSafeBackupKey ''nodes/a/node.json''" by code_simp
  have ok: "\<forall>k. covered (bk_cluster small_backup) one_object k \<longrightarrow> isSafeBackupKey k \<and> bk_asText small_backup (the (one_object k)) = the (one_object k)
      \<and> rs_bytes small_restore (the (one_object k)) \<le> MAX_RESTORE_OBJECT_BYTES \<and> rs_putOk small_restore k"
    using safe by (auto simp: one_object_covered) (simp_all add: small_backup_def small_restore_def MAX_RESTORE_OBJECT_BYTES_def)
  have ne: "\<exists>k. covered (bk_cluster small_backup) one_object k" by (simp add: one_object_covered)
  have d: "distinct (map fst files)"
  proof -
    have "distinct (map fst (snd (runBackup small_backup [])))" by code_simp
    then show ?thesis unfolding b by simp
  qed
  have aws: "rs_aws small_restore" by (simp add: small_restore_def)
  from backup_restores [OF v l b ok ne refl d aws, of "\<lambda>_. None"] obtain t' n where
    "runRestore small_restore None True (m, files) (\<lambda>_. None) = (t', Inr (Restored n))"
    "t' ''nodes/a/node.json'' = (if covered (bk_cluster small_backup) one_object ''nodes/a/node.json'' then one_object ''nodes/a/node.json'' else None)"
    by (elim exE conjE) simp
  moreover have "one_object ''nodes/a/node.json'' = Some (UnreadableJson ''x'')" by (simp add: one_object_def)
  ultimately show ?thesis unfolding b by (simp add: one_object_covered)
qed

end
