(* ===== verification/Provision.thy ===== *)
theory Provision
  imports Cluster_Store Capacity
begin

text \<open>
  Bringing nodes into being and back to health: the plan of the nodes a deploy needs
  (\<open>packages/cli/src/deploy/provision-plan.ts\<close>), drift between the registry and EC2 and its repair
  (\<open>drift-plan.ts\<close>, \<open>drift-apply.ts\<close>), and \<open>provisionNode\<close>, \<open>resumeNode\<close>, \<open>resizeNode\<close> and
  \<open>replaceInstance\<close> of \<open>provision/provision-node.ts\<close>. The calls to EC2 and IAM are parameters; what they
  change is recorded as a list of effects.
\<close>

section \<open>Planning the nodes of a deploy\<close>

record node_demand =
  nd_nodeId :: string
  nd_architecture :: architecture
  nd_cpu :: int
  nd_memory :: int
  nd_surgeCpu :: "int option"
  nd_surgeMemory :: "int option"

record create_action =
  ca_nodeId :: string
  ca_role :: node_role
  ca_edgeNodeId :: "string option"
  ca_instanceType :: string
  ca_architecture :: architecture
  ca_capacity :: instance_capacity

datatype node_action =
    ActReady string node_entry
  | ActResume string node_entry
  | ActCreate create_action

fun action_node :: "node_action \<Rightarrow> string" where
  "action_node (ActReady n _) = n"
| "action_node (ActResume n _) = n"
| "action_node (ActCreate c) = ca_nodeId c"

datatype provision_error =
    NodeMissing string
  | NotAnEdgeRole string
  | UnknownInstanceType string
  | NoTypeFits string int int
  | LoadFailed

text \<open>An existing node: external hosts are never resumed.\<close>

definition existing_action :: "string \<Rightarrow> node_entry \<Rightarrow> node_action" where
  "existing_action nodeId e =
     (if ne_provisioning e = External then ActReady nodeId e
      else if ne_state e = Stopped then ActResume nodeId e else ActReady nodeId e)"

definition planEdgeAction ::
  "string \<Rightarrow> (string \<Rightarrow> provision_error + node_entry option) \<Rightarrow> bool \<Rightarrow> provision_error + node_action" where
  "planEdgeAction edgeNodeId load allowCreate =
     res_bind (load edgeNodeId) (\<lambda>r. case r of
       Some e \<Rightarrow>
         (if \<not> nodeFrontsIngress (ne_role e) then Inl (NotAnEdgeRole edgeNodeId) else Inr (existing_action edgeNodeId e))
     | None \<Rightarrow>
         (if \<not> allowCreate then Inl (NodeMissing edgeNodeId)
          else case lookupInstanceCapacity DEFAULT_EDGE_INSTANCE_TYPE of
                 None \<Rightarrow> Inl (UnknownInstanceType DEFAULT_EDGE_INSTANCE_TYPE)
               | Some c \<Rightarrow> Inr (ActCreate \<lparr>ca_nodeId = edgeNodeId, ca_role = RoleEdge, ca_edgeNodeId = None,
                    ca_instanceType = DEFAULT_EDGE_INSTANCE_TYPE, ca_architecture = ic_architecture c, ca_capacity = c\<rparr>)))"

text \<open>A missing node is sized for the steady demand and the largest surge.\<close>

definition create_for :: "string \<Rightarrow> string option \<Rightarrow> node_demand \<Rightarrow> provision_error + node_action" where
  "create_for edgeNodeId floor' d =
     (let peakCpu = nd_cpu d + or0 (nd_surgeCpu d); peakMemory = nd_memory d + or0 (nd_surgeMemory d)
      in case smallestInstanceTypeFor peakCpu peakMemory
                \<lparr>so_reservedCpu = None, so_reservedMemory = None, so_floor = floor', so_architecture = Some (nd_architecture d)\<rparr> of
           None \<Rightarrow> Inl (NoTypeFits (nd_nodeId d) peakCpu peakMemory)
         | Some (ty, cap) \<Rightarrow> Inr (ActCreate \<lparr>ca_nodeId = nd_nodeId d, ca_role = RoleApp, ca_edgeNodeId = Some edgeNodeId,
              ca_instanceType = ty, ca_architecture = ic_architecture cap, ca_capacity = cap\<rparr>))"

fun buildProvisionPlan ::
  "node_demand list \<Rightarrow> string \<Rightarrow> (string \<Rightarrow> provision_error + node_entry option) \<Rightarrow> bool \<Rightarrow> string option
   \<Rightarrow> provision_error + node_action list" where
  "buildProvisionPlan [] edgeNodeId load allowCreate floor' = Inr []"
| "buildProvisionPlan (d # ds) edgeNodeId load allowCreate floor' =
     res_bind (load (nd_nodeId d)) (\<lambda>r.
     res_bind (case r of
         Some e \<Rightarrow> Inr (existing_action (nd_nodeId d) e)
       | None \<Rightarrow> if \<not> allowCreate then Inl (NodeMissing (nd_nodeId d)) else create_for edgeNodeId floor' d) (\<lambda>a.
     res_bind (buildProvisionPlan ds edgeNodeId load allowCreate floor') (\<lambda>as'. Inr (a # as'))))"

text \<open>The registry entry a node to be created will have (\<open>synthesizeEntry\<close> of \<open>commands/deploy.ts\<close>).\<close>

definition synthesizeEntry :: "aws_env \<Rightarrow> string \<Rightarrow> string \<Rightarrow> create_action \<Rightarrow> node_entry" where
  "synthesizeEntry aws callerArn now a =
     \<lparr>ne_nodeId = ca_nodeId a, ne_clusterId = aws_clusterId aws, ne_instanceId = None, ne_instanceType = ca_instanceType a,
      ne_architecture = ca_architecture a, ne_region = aws_region aws, ne_availabilityZone = None, ne_role = ca_role a,
      ne_privateIp = None, ne_totalCpu = ic_totalCpu (ca_capacity a), ne_totalMemory = ic_totalMemory (ca_capacity a),
      ne_reservedCpu = DEFAULT_RESERVED_CPU, ne_reservedMemory = DEFAULT_RESERVED_MEMORY, ne_publicIp = None,
      ne_eipAllocationId = None, ne_securityGroupId = None, ne_iamInstanceProfile = None, ne_provisioning = Ec2,
      ne_advertiseIp = None, ne_iamUserName = None, ne_agentId = agentIdForNode (ca_nodeId a), ne_agentVersion = None,
      ne_agentType = AgentRust, ne_createdAt = now, ne_createdBy = callerArn, ne_state = Provisioning\<rparr>"

section \<open>Drift\<close>

record network =
  nw_publicIp :: "string option"
  nw_privateIp :: "string option"
  nw_availabilityZone :: "string option"

definition no_network :: network where
  "no_network = \<lparr>nw_publicIp = None, nw_privateIp = None, nw_availabilityZone = None\<rparr>"

datatype ec2_observation = ORunning network | OStopped | OTransitional string | OMissing

record ec2_instance =
  ei_state :: "string option"
  ei_network :: network

definition observationFromInstance :: "ec2_instance \<Rightarrow> ec2_observation" where
  "observationFromInstance i =
     (let state = (case ei_state i of None \<Rightarrow> ''unknown'' | Some x \<Rightarrow> x)
      in if state = ''running'' then ORunning (ei_network i)
         else if state = ''stopped'' then OStopped
         else if state = ''terminated'' then OMissing else OTransitional state)"

datatype drift_class = DriftNone | DriftStopped | DriftRunning | DriftTransitional | DriftGone

datatype blocked_reason = NotStable string | InstanceGone

datatype drift_action = Noop | Sync network | Resume | Recreate | Blocked blocked_reason

definition planNodeDrift :: "node_state \<Rightarrow> ec2_observation \<Rightarrow> bool \<Rightarrow> drift_class \<times> drift_action" where
  "planNodeDrift state ec2 allowRecreate =
     (case ec2 of
        ORunning nw \<Rightarrow> if state = Stopped then (DriftRunning, Sync nw) else (DriftNone, Noop)
      | OStopped \<Rightarrow> if state = Stopped then (DriftNone, Resume) else (DriftStopped, Resume)
      | OTransitional st \<Rightarrow> (DriftTransitional, Blocked (NotStable st))
      | OMissing \<Rightarrow> if allowRecreate then (DriftGone, Recreate) else (DriftGone, Blocked InstanceGone))"

section \<open>Operations on instances\<close>

datatype ec2_effect =
    Launch string
  | Start string
  | Stop string
  | Terminate string
  | AllocateEip string
  | ReleaseEip string

datatype node_op_error =
    NoInstance string
  | StartFailed
  | StopFailed
  | RetypeFailed
  | NeedsEdge string
  | EdgeMissing string
  | EdgeUnreadable
  | EdgeWrongRole string
  | EdgeNoSecurityGroup string
  | LaunchFailed
  | EipFailed
  | AlreadyExists string
  | WiringFailed cluster_store_error
  | CrossArchitecture
  | InstanceIsGone string
  | SupportGone string
  | DriftBlocked blocked_reason

type_synonym 'a node_op = "(state_bucket \<times> ec2_effect list) \<times> (node_op_error + 'a)"

definition opt_or :: "'a option \<Rightarrow> 'a option \<Rightarrow> 'a option" where
  "opt_or a b = (case a of None \<Rightarrow> b | Some x \<Rightarrow> Some x)"

text \<open>\<open>start\<close> is \<open>startInstance\<close>: the network the instance comes up with, or a failure.\<close>

definition resumed_entry :: "node_entry \<Rightarrow> network \<Rightarrow> node_entry" where
  "resumed_entry e nw =
     e\<lparr>ne_state := Ready,
       ne_publicIp := (if nodeUsesElasticIp (ne_role e)
          then (if ne_eipAllocationId e \<noteq> None \<and> ne_eipAllocationId e \<noteq> Some [] then ne_publicIp e else nw_publicIp nw) else None),
       ne_privateIp := opt_or (nw_privateIp nw) (ne_privateIp e), ne_availabilityZone := nw_availabilityZone nw\<rparr>"

definition put_entry :: "string \<Rightarrow> node_entry \<Rightarrow> state_bucket \<Rightarrow> state_bucket" where
  "put_entry clusterId e s =
     (case putJson s (nodeRegistryKey clusterId (ne_nodeId e)) (NodeJson e) Always of Some s' \<Rightarrow> s' | None \<Rightarrow> s)"

definition resumeNode :: "(string \<Rightarrow> network option) \<Rightarrow> node_entry \<Rightarrow> state_bucket \<Rightarrow> node_entry node_op" where
  "resumeNode start e s =
     (case ne_instanceId e of
        None \<Rightarrow> ((s, []), Inl (NoInstance (ne_nodeId e)))
      | Some i \<Rightarrow>
          (if i = [] then ((s, []), Inl (NoInstance (ne_nodeId e)))
           else case start i of
             None \<Rightarrow> ((s, [Start i]), Inl StartFailed)
           | Some nw \<Rightarrow> ((put_entry (ne_clusterId e) (resumed_entry e nw) s, [Start i]), Inr (resumed_entry e nw))))"

definition planResizedEntry :: "node_entry \<Rightarrow> string \<Rightarrow> instance_capacity \<Rightarrow> bool \<Rightarrow> network option \<Rightarrow> node_entry" where
  "planResizedEntry node instanceType cap restarted nw =
     (let eip = (ne_eipAllocationId node \<noteq> None \<and> ne_eipAllocationId node \<noteq> Some []);
          base = node\<lparr>ne_instanceType := instanceType, ne_architecture := ic_architecture cap,
                      ne_totalCpu := ic_totalCpu cap, ne_totalMemory := ic_totalMemory cap\<rparr>
      in if \<not> restarted then base\<lparr>ne_publicIp := (if eip then ne_publicIp node else None), ne_state := Stopped\<rparr>
         else (let net = (case nw of None \<Rightarrow> no_network | Some n \<Rightarrow> n)
               in base\<lparr>ne_publicIp := (if nodeUsesElasticIp (ne_role node) then (if eip then ne_publicIp node else nw_publicIp net)
                                       else None),
                       ne_privateIp := opt_or (nw_privateIp net) (ne_privateIp node),
                       ne_availabilityZone := nw_availabilityZone net, ne_state := Ready\<rparr>))"

text \<open>\<open>observe\<close> is the description of the instance, which may be absent; \<open>stopOk\<close> and \<open>retypeOk\<close> say whether EC2 obeys.\<close>

definition resizeNode ::
  "(string \<Rightarrow> ec2_observation option) \<Rightarrow> bool \<Rightarrow> bool \<Rightarrow> (string \<Rightarrow> network option) \<Rightarrow> string \<Rightarrow> instance_capacity
   \<Rightarrow> node_entry \<Rightarrow> state_bucket \<Rightarrow> node_entry node_op" where
  "resizeNode observe stopOk retypeOk start instanceType cap node s =
     (case ne_instanceId node of
        None \<Rightarrow> ((s, []), Inl (NoInstance (ne_nodeId node)))
      | Some i \<Rightarrow>
          (if i = [] then ((s, []), Inl (NoInstance (ne_nodeId node)))
           else if ne_architecture node \<noteq> ic_architecture cap then ((s, []), Inl CrossArchitecture)
           else if observe i = Some OMissing then ((s, []), Inl (InstanceIsGone i))
           else if \<not> stopOk then ((s, [Stop i]), Inl StopFailed)
           else if \<not> retypeOk then ((s, [Stop i]), Inl RetypeFailed)
           else if observe i = Some OStopped
           then (let e = planResizedEntry node instanceType cap False None in ((put_entry (ne_clusterId node) e s, [Stop i]), Inr e))
           else case start i of
             None \<Rightarrow> ((s, [Stop i, Start i]), Inl StartFailed)
           | Some nw \<Rightarrow> (let e = planResizedEntry node instanceType cap True (Some nw)
                        in ((put_entry (ne_clusterId node) e s, [Stop i, Start i]), Inr e))))"

text \<open>
  What the cloud answers while a node is launched: the instance that starts, the network it comes up
  with in time, and the address that is allocated or found for it.
\<close>

record launch_env =
  le_instance :: "string option"
  le_network :: "network option"
  le_eip :: "(string \<times> string) option"

definition launch_network :: "launch_env \<Rightarrow> network" where
  "launch_network env = (case le_network env of None \<Rightarrow> no_network | Some n \<Rightarrow> n)"

definition replaceInstance ::
  "launch_env \<Rightarrow> string \<Rightarrow> string \<Rightarrow> node_entry \<Rightarrow> state_bucket \<Rightarrow> node_entry node_op" where
  "replaceInstance env agentVersion clusterId node s =
     (if ne_securityGroupId node \<in> {None, Some []} \<or> ne_iamInstanceProfile node \<in> {None, Some []}
      then ((s, []), Inl (SupportGone (ne_nodeId node)))
      else case le_instance env of
        None \<Rightarrow> ((s, []), Inl LaunchFailed)
      | Some i \<Rightarrow>
          (let nw = launch_network env;
               done = (\<lambda>ip eip fx. let e = node\<lparr>ne_instanceId := Some i, ne_availabilityZone := nw_availabilityZone nw,
                   ne_privateIp := nw_privateIp nw, ne_publicIp := ip, ne_eipAllocationId := eip,
                   ne_agentVersion := Some agentVersion, ne_agentType := AgentRust, ne_state := Ready\<rparr>
                 in ((put_entry clusterId e s, Launch i # fx), Inr e))
           in if nodeUsesElasticIp (ne_role node)
              then (case le_eip env of
                      None \<Rightarrow> ((s, [Launch i]), Inl EipFailed)
                    | Some (ip, alloc) \<Rightarrow> done (Some ip) (Some alloc) [AllocateEip alloc])
              else done None None (case ne_eipAllocationId node of
                     None \<Rightarrow> [] | Some a \<Rightarrow> if a = [] then [] else [ReleaseEip a])))"

text \<open>Carrying out the repair of a drift (\<open>applyNodeDrift\<close>).\<close>

definition synced_entry :: "node_entry \<Rightarrow> network \<Rightarrow> node_entry" where
  "synced_entry e nw =
     e\<lparr>ne_state := Ready,
       ne_publicIp := (if nodeUsesElasticIp (ne_role e) then opt_or (nw_publicIp nw) (ne_publicIp e) else None),
       ne_privateIp := opt_or (nw_privateIp nw) (ne_privateIp e),
       ne_availabilityZone := opt_or (nw_availabilityZone nw) (ne_availabilityZone e)\<rparr>"

definition applyNodeDrift ::
  "(string \<Rightarrow> network option) \<Rightarrow> launch_env \<Rightarrow> string \<Rightarrow> string \<Rightarrow> node_entry \<Rightarrow> drift_action \<Rightarrow> state_bucket \<Rightarrow> node_entry node_op" where
  "applyNodeDrift start env agentVersion clusterId e action s =
     (case action of
        Noop \<Rightarrow> ((s, []), Inr e)
      | Sync nw \<Rightarrow> ((put_entry (ne_clusterId e) (synced_entry e nw) s, []), Inr (synced_entry e nw))
      | Resume \<Rightarrow> resumeNode start e s
      | Recreate \<Rightarrow> replaceInstance env agentVersion clusterId e s
      | Blocked r \<Rightarrow> ((s, []), Inl (DriftBlocked r)))"

section \<open>Provisioning a node\<close>

record provision_params =
  pp_nodeId :: string
  pp_role :: node_role
  pp_instanceType :: string
  pp_agentVersion :: string
  pp_capacity :: instance_capacity
  pp_edgeNodeId :: "string option"

text \<open>The security group of the edge, which an app node needs.\<close>

definition edge_group :: "string \<Rightarrow> provision_params \<Rightarrow> state_bucket \<Rightarrow> node_op_error + string option" where
  "edge_group clusterId p s =
     (if pp_role p \<noteq> RoleApp then Inr None
      else case pp_edgeNodeId p of
        None \<Rightarrow> Inl (NeedsEdge (pp_nodeId p))
      | Some edge \<Rightarrow>
          (if edge = [] then Inl (NeedsEdge (pp_nodeId p))
           else case s (nodeRegistryKey clusterId edge) of
             None \<Rightarrow> Inl (EdgeMissing edge)
           | Some raw \<Rightarrow>
               (case parseNodeRegistryEntry raw of
                  None \<Rightarrow> Inl EdgeUnreadable
                | Some e \<Rightarrow>
                    (if \<not> nodeFrontsIngress (ne_role e) then Inl (EdgeWrongRole edge)
                     else case ne_securityGroupId e of
                            None \<Rightarrow> Inl (EdgeNoSecurityGroup edge)
                          | Some g \<Rightarrow> if g = [] then Inl (EdgeNoSecurityGroup edge) else Inr (Some g)))))"

definition provisioned_entry ::
  "aws_env \<Rightarrow> string \<Rightarrow> string \<Rightarrow> string \<Rightarrow> string \<Rightarrow> provision_params \<Rightarrow> string \<Rightarrow> network \<Rightarrow> (string \<times> string) option \<Rightarrow> node_entry" where
  "provisioned_entry aws callerArn now sg profile' p i nw eip =
     \<lparr>ne_nodeId = pp_nodeId p, ne_clusterId = aws_clusterId aws, ne_instanceId = Some i,
      ne_instanceType = pp_instanceType p, ne_architecture = ic_architecture (pp_capacity p), ne_region = aws_region aws,
      ne_availabilityZone = nw_availabilityZone nw, ne_role = pp_role p, ne_privateIp = nw_privateIp nw,
      ne_totalCpu = ic_totalCpu (pp_capacity p), ne_totalMemory = ic_totalMemory (pp_capacity p),
      ne_reservedCpu = DEFAULT_RESERVED_CPU, ne_reservedMemory = DEFAULT_RESERVED_MEMORY,
      ne_publicIp = map_option fst eip, ne_eipAllocationId = map_option snd eip, ne_securityGroupId = Some sg,
      ne_iamInstanceProfile = Some profile', ne_provisioning = Ec2, ne_advertiseIp = None, ne_iamUserName = None,
      ne_agentId = agentIdForNode (pp_nodeId p), ne_agentVersion = Some (pp_agentVersion p), ne_agentType = AgentRust,
      ne_createdAt = now, ne_createdBy = callerArn, ne_state = Provisioning\<rparr>"

text \<open>Wiring a node into a named cluster.\<close>

definition wire_cluster ::
  "aws_env \<Rightarrow> string \<Rightarrow> string \<Rightarrow> provision_params \<Rightarrow> schedule \<Rightarrow> state_bucket \<Rightarrow> state_bucket \<times> cluster_store_error option" where
  "wire_cluster aws callerArn now p interfere s =
     (if aws_clusterId aws = DEFAULT_CLUSTER then (s, None)
      else case ensureClusterConfig (aws_region aws) callerArn now (aws_clusterId aws) (interfere 0) s of
        (s1, Inl e) \<Rightarrow> (s1, Some e)
      | (s1, Inr _) \<Rightarrow>
          (if pp_role p = RoleApp then (s1, None)
           else case adoptEdgeIfUnset (aws_clusterId aws) (pp_nodeId p) (interfere 1) s1 of
             (s2, Inl e) \<Rightarrow> (s2, Some e) | (s2, Inr _) \<Rightarrow> (s2, None)))"

text \<open>
  \<open>sg\<close> and \<open>profile'\<close> are the security group and the instance profile that were ensured; everything after the
  launch is undone when it fails.
\<close>

definition provisionNode ::
  "aws_env \<Rightarrow> string \<Rightarrow> string \<Rightarrow> string \<Rightarrow> string \<Rightarrow> launch_env \<Rightarrow> provision_params \<Rightarrow> schedule \<Rightarrow> state_bucket \<Rightarrow> node_entry node_op" where
  "provisionNode aws callerArn now sg profile' env p interfere s =
     (case edge_group (aws_clusterId aws) p s of
        Inl e \<Rightarrow> ((s, []), Inl e)
      | Inr _ \<Rightarrow>
          (case le_instance env of
             None \<Rightarrow> ((s, []), Inl LaunchFailed)
           | Some i \<Rightarrow>
               (if nodeUsesElasticIp (pp_role p) \<and> le_eip env = None
                then ((s, [Launch i, Terminate i]), Inl EipFailed)
                else
                  (let eip = (if nodeUsesElasticIp (pp_role p) then le_eip env else None);
                       got = (case eip of None \<Rightarrow> [] | Some (_, a) \<Rightarrow> [AllocateEip a]);
                       undo = Terminate i # (case eip of None \<Rightarrow> [] | Some (_, a) \<Rightarrow> if a = [] then [] else [ReleaseEip a]);
                       e = provisioned_entry aws callerArn now sg profile' p i (launch_network env) eip;
                       s1 = interfere 0 s
                   in case putJson s1 (nodeRegistryKey (aws_clusterId aws) (pp_nodeId p)) (NodeJson e) IfNoneMatch of
                        None \<Rightarrow> ((s1, Launch i # got @ undo), Inl (AlreadyExists (pp_nodeId p)))
                      | Some s2 \<Rightarrow>
                          (case wire_cluster aws callerArn now p (\<lambda>k. interfere (Suc k)) s2 of
                             (s3, Some err) \<Rightarrow> ((s3, Launch i # got @ undo), Inl (WiringFailed err))
                           | (s3, None) \<Rightarrow> ((s3, Launch i # got), Inr e))))))"

section \<open>The edge of an app node, and evacuating before a resize\<close>

datatype edge_choice_error = SeveralEdges "string list" | NoEdge

definition nonempty :: "string option \<Rightarrow> string option" where
  "nonempty x = (if x = Some [] then None else x)"

text \<open>\<open>planEdgeForAppNode\<close> of \<open>commands/node/resolve-edge.ts\<close>.\<close>

definition planEdgeForAppNode :: "string option \<Rightarrow> string option \<Rightarrow> string list \<Rightarrow> edge_choice_error + string" where
  "planEdgeForAppNode explicitEdge defaultEdge edgeRoleNodeIds =
     (case nonempty explicitEdge of
        Some e \<Rightarrow> Inr e
      | None \<Rightarrow>
          (case nonempty defaultEdge of
             Some e \<Rightarrow> Inr e
           | None \<Rightarrow>
               (case edgeRoleNodeIds of
                  [] \<Rightarrow> Inl NoEdge
                | e # es \<Rightarrow> if es \<noteq> [] then Inl (SeveralEdges edgeRoleNodeIds) else if e = [] then Inl NoEdge else Inr e)))"

section \<open>The plan covers the demand\<close>

text \<open>What an action has to do with the demand it was planned for.\<close>

fun serves :: "aws_env \<Rightarrow> string \<Rightarrow> (string \<Rightarrow> provision_error + node_entry option) \<Rightarrow> node_demand \<Rightarrow> node_action \<Rightarrow> bool" where
  "serves aws edge load d (ActReady n e) \<longleftrightarrow> load n = Inr (Some e) \<and> (ne_state e \<noteq> Stopped \<or> ne_provisioning e = External)"
| "serves aws edge load d (ActResume n e) \<longleftrightarrow> load n = Inr (Some e) \<and> ne_state e = Stopped \<and> ne_provisioning e = Ec2"
| "serves aws edge load d (ActCreate c) \<longleftrightarrow> load (ca_nodeId c) = Inr None \<and> ca_role c = RoleApp \<and> ca_edgeNodeId c = Some edge
     \<and> lookupInstanceCapacity (ca_instanceType c) = Some (ca_capacity c) \<and> ca_architecture c = nd_architecture d
     \<and> nd_cpu d + or0 (nd_surgeCpu d) \<le> allocatableCpu (synthesizeEntry aws [] [] c)
     \<and> nd_memory d + or0 (nd_surgeMemory d) \<le> allocatableMemory (synthesizeEntry aws [] [] c)"

lemma table_lookup:
  assumes "c \<in> set (type_candidates opts)"
  shows "lookupInstanceCapacity (fst c) = Some (snd c)"
    and "so_architecture opts = Some a \<Longrightarrow> ic_architecture (snd c) = a"
proof -
  have d: "distinct (map fst INSTANCE_CAPACITY_TABLE)" by (simp add: INSTANCE_CAPACITY_TABLE_def)
  from assms show "lookupInstanceCapacity (fst c) = Some (snd c)"
    by (auto simp: type_candidates_def lookupInstanceCapacity_def map_of_eq_Some_iff [OF d] intro: map_of_is_SomeI [OF d])
  show "so_architecture opts = Some a \<Longrightarrow> ic_architecture (snd c) = a"
    using assms by (auto simp: type_candidates_def target_architecture_def split: option.splits)
qed

lemma create_serves:
  assumes "create_for edge fl d = Inr a" and "load (nd_nodeId d) = Inr None"
  shows "action_node a = nd_nodeId d \<and> serves aws edge load d a"
proof -
  let ?opts = "\<lparr>so_reservedCpu = None, so_reservedMemory = None, so_floor = fl, so_architecture = Some (nd_architecture d)\<rparr>"
  from assms(1) obtain ty cap where sz: "smallestInstanceTypeFor (nd_cpu d + or0 (nd_surgeCpu d)) (nd_memory d + or0 (nd_surgeMemory d)) ?opts = Some (ty, cap)"
    and a: "a = ActCreate \<lparr>ca_nodeId = nd_nodeId d, ca_role = RoleApp, ca_edgeNodeId = Some edge,
              ca_instanceType = ty, ca_architecture = ic_architecture cap, ca_capacity = cap\<rparr>"
    by (auto simp: create_for_def Let_def split: option.splits)
  from find_SomeD [OF sz [unfolded smallestInstanceTypeFor_def]]
  have c: "(ty, cap) \<in> set (type_candidates ?opts)"
    and fit: "type_fits ?opts (nd_cpu d + or0 (nd_surgeCpu d)) (nd_memory d + or0 (nd_surgeMemory d)) (ty, cap)" by auto
  from table_lookup [OF c] fit assms(2) show ?thesis
    by (simp add: a type_fits_def option_or_def allocatableCpu_def allocatableMemory_def synthesizeEntry_def)
qed

lemma existing_serves:
  assumes "load n = Inr (Some e)"
  shows "action_node (existing_action n e) = n \<and> serves aws edge load d (existing_action n e)"
  using assms by (cases "ne_provisioning e") (auto simp: existing_action_def)

text \<open>
  A provision plan serves every demand, in order, with one action each: a node that exists is kept (and
  started when it is a paused EC2 node), and a node is created only where none exists, as an app node
  behind the cluster's edge, of the demanded architecture, with room beyond the host's reservation for the
  steady demand and the largest rollout surge.
\<close>

theorem provision_plan_serves:
  assumes "buildProvisionPlan ds edge load allowCreate fl = Inr as'"
  shows "map action_node as' = map nd_nodeId ds \<and> list_all2 (serves aws edge load) ds as'"
  using assms
proof (induction ds arbitrary: as')
  case (Cons d ds)
  then obtain r a rest where l: "load (nd_nodeId d) = Inr r"
    and a: "(case r of Some e \<Rightarrow> Inr (existing_action (nd_nodeId d) e)
       | None \<Rightarrow> if \<not> allowCreate then Inl (NodeMissing (nd_nodeId d)) else create_for edge fl d) = Inr a"
    and rest: "buildProvisionPlan ds edge load allowCreate fl = Inr rest" "as' = a # rest"
    by (auto simp: res_bind_eq_Inr)
  have "action_node a = nd_nodeId d \<and> serves aws edge load d a"
  proof (cases r)
    case None
    with a have "create_for edge fl d = Inr a" by (simp split: if_splits)
    with create_serves l None show ?thesis by blast
  next
    case (Some e)
    with a l existing_serves [of load "nd_nodeId d" e aws edge d] show ?thesis by simp
  qed
  with Cons.IH [OF rest(1)] rest(2) show ?case by simp
qed simp

section \<open>No instance is stranded\<close>

definition running_instances :: "ec2_effect list \<Rightarrow> string set" where
  "running_instances fx = {i. Launch i \<in> set fx \<and> Terminate i \<notin> set fx}"

definition held_addresses :: "ec2_effect list \<Rightarrow> string set" where
  "held_addresses fx = {a. AllocateEip a \<in> set fx \<and> ReleaseEip a \<notin> set fx \<and> a \<noteq> []}"

lemma provision_accounts:
  assumes "provisionNode aws callerArn now sg profile' env p interfere s = ((s', fx), r)"
  shows "case r of
      Inl _ \<Rightarrow> running_instances fx = {} \<and> held_addresses fx = {}
    | Inr e \<Rightarrow> running_instances fx = set_option (ne_instanceId e)
        \<and> held_addresses fx = set_option (ne_eipAllocationId e) - {[]}
        \<and> ne_nodeId e = pp_nodeId p \<and> ne_state e = Provisioning"
proof (cases "edge_group (aws_clusterId aws) p s")
  case (Inl err)
  with assms show ?thesis by (auto simp: provisionNode_def running_instances_def held_addresses_def)
next
  case (Inr g)
  note grp = this
  show ?thesis
  proof (cases "le_instance env")
    case None
    with assms grp show ?thesis by (auto simp: provisionNode_def running_instances_def held_addresses_def)
  next
    case (Some i)
    note inst = this
    show ?thesis
    proof (cases "nodeUsesElasticIp (pp_role p) \<and> le_eip env = None")
      case True
      with assms grp inst show ?thesis by (auto simp: provisionNode_def running_instances_def held_addresses_def)
    next
      case False
      define eip where "eip = (if nodeUsesElasticIp (pp_role p) then le_eip env else None)"
      define e where "e = provisioned_entry aws callerArn now sg profile' p i (launch_network env) eip"
      let ?got = "case eip of None \<Rightarrow> [] | Some (_, a) \<Rightarrow> [AllocateEip a]"
      let ?undo = "Terminate i # (case eip of None \<Rightarrow> [] | Some (_, a) \<Rightarrow> if a = [] then [] else [ReleaseEip a])"
      have ids: "ne_instanceId e = Some i" "ne_eipAllocationId e = map_option snd eip" "ne_nodeId e = pp_nodeId p" "ne_state e = Provisioning"
        by (simp_all add: e_def provisioned_entry_def)
      have undone: "running_instances (Launch i # ?got @ ?undo) = {} \<and> held_addresses (Launch i # ?got @ ?undo) = {}"
        by (auto simp: running_instances_def held_addresses_def split: option.splits)
      have kept: "running_instances (Launch i # ?got) = {i} \<and> held_addresses (Launch i # ?got) = set_option (map_option snd eip) - {[]}"
        by (auto simp: running_instances_def held_addresses_def split: option.splits)
      show ?thesis
      proof (cases "putJson (interfere 0 s) (nodeRegistryKey (aws_clusterId aws) (pp_nodeId p)) (NodeJson e) IfNoneMatch")
        case None
        with assms grp inst False undone show ?thesis
          by (auto simp: provisionNode_def Let_def eip_def [symmetric] e_def [symmetric])
      next
        case (Some s2)
        obtain s3 w where wire: "wire_cluster aws callerArn now p (\<lambda>k. interfere (Suc k)) s2 = (s3, w)" by force
        show ?thesis
        proof (cases w)
          case None
          with assms grp inst False Some wire kept ids show ?thesis
            by (auto simp: provisionNode_def Let_def eip_def [symmetric] e_def [symmetric])
        next
          case (Some err)
          with assms grp inst False \<open>putJson _ _ _ _ = Some s2\<close> wire undone show ?thesis
            by (auto simp: provisionNode_def Let_def eip_def [symmetric] e_def [symmetric])
        qed
      qed
    qed
  qed
qed


text \<open>
  Replacing an instance has no such care: when no address can be had, the new instance stays behind,
  unknown to the registry.
\<close>

lemma replace_strands:
  assumes "nodeUsesElasticIp (ne_role e)" "ne_securityGroupId e = Some ''sg''" "ne_iamInstanceProfile e = Some ''p''"
    "le_instance env = Some i" "le_eip env = None"
  shows "\<exists>fx err. replaceInstance env v c e s = ((s, fx), Inl err) \<and> running_instances fx = {i}"
  using assms by (auto simp: replaceInstance_def running_instances_def)

section \<open>Repairs converge\<close>

definition same_node :: "node_entry \<Rightarrow> node_entry \<Rightarrow> bool" where
  "same_node e e' \<longleftrightarrow> ne_nodeId e' = ne_nodeId e \<and> ne_clusterId e' = ne_clusterId e \<and> ne_role e' = ne_role e
     \<and> ne_instanceType e' = ne_instanceType e \<and> ne_architecture e' = ne_architecture e
     \<and> ne_totalCpu e' = ne_totalCpu e \<and> ne_totalMemory e' = ne_totalMemory e
     \<and> ne_reservedCpu e' = ne_reservedCpu e \<and> ne_reservedMemory e' = ne_reservedMemory e
     \<and> ne_securityGroupId e' = ne_securityGroupId e \<and> ne_iamInstanceProfile e' = ne_iamInstanceProfile e
     \<and> ne_createdAt e' = ne_createdAt e"

lemma drift_repaired:
  assumes "applyNodeDrift start env version (ne_clusterId e) e (snd (planNodeDrift (ne_state e) obs allow)) s = ((s', fx), r)"
  shows "case r of
      Inl _ \<Rightarrow> s' = s
    | Inr e' \<Rightarrow> same_node e e' \<and> planNodeDrift (ne_state e') (ORunning nw) allow' = (DriftNone, Noop)
        \<and> (s' = s(nodeRegistryKey (ne_clusterId e) (ne_nodeId e) := Some (NodeJson e')) \<or> s' = s \<and> e' = e \<and> fx = [])"
proof -
  have put: "put_entry c x t = t(nodeRegistryKey c (ne_nodeId x) := Some (NodeJson x))" for c x t
    by (simp add: put_entry_def putJson_def)
  show ?thesis
  proof (cases obs)
    case (ORunning n)
    with assms show ?thesis
      by (auto simp: planNodeDrift_def applyNodeDrift_def put synced_entry_def same_node_def split: if_splits)
  next
    case OStopped
    then have "snd (planNodeDrift (ne_state e) obs allow) = Resume" by (simp add: planNodeDrift_def)
    with assms show ?thesis
      by (auto simp: applyNodeDrift_def resumeNode_def resumed_entry_def put same_node_def planNodeDrift_def
          split: option.splits if_splits)
  next
    case (OTransitional st)
    with assms show ?thesis by (auto simp: planNodeDrift_def applyNodeDrift_def)
  next
    case OMissing
    with assms show ?thesis
      by (auto simp: planNodeDrift_def applyNodeDrift_def replaceInstance_def put same_node_def Let_def
          split: option.splits if_splits)
  qed
qed


section \<open>Examples\<close>

definition small_demand :: node_demand where
  "small_demand = \<lparr>nd_nodeId = ''n1'', nd_architecture = Arm64, nd_cpu = 1024, nd_memory = 1024,
     nd_surgeCpu = Some 512, nd_surgeMemory = Some 512\<rparr>"

definition small_plan :: "node_action list" where
  "small_plan = (case buildProvisionPlan [small_demand] ''edge'' (\<lambda>_. Inr None) True None of Inr as' \<Rightarrow> as')"

lemma provision_plan_serves_witness:
  "buildProvisionPlan [small_demand] ''edge'' (\<lambda>_. Inr None) True None = Inr small_plan
   \<and> map action_node small_plan = [''n1''] \<and> list_all2 (serves example_env ''edge'' (\<lambda>_. Inr None)) [small_demand] small_plan"
proof -
  have "\<not> isl (buildProvisionPlan [small_demand] ''edge'' (\<lambda>_. Inr None) True None)" by code_simp
  then have p: "buildProvisionPlan [small_demand] ''edge'' (\<lambda>_. Inr None) True None = Inr small_plan"
    by (cases "buildProvisionPlan [small_demand] ''edge'' (\<lambda>_. Inr None) True None") (simp_all add: small_plan_def)
  from provision_plan_serves [OF p, of example_env] p show ?thesis by (simp add: small_demand_def)
qed

definition edge_params :: provision_params where
  "edge_params = \<lparr>pp_nodeId = ''a'', pp_role = RoleEdge, pp_instanceType = ''t4g.nano'', pp_agentVersion = ''1'',
     pp_capacity = \<lparr>ic_totalCpu = 2048, ic_totalMemory = 512, ic_architecture = Arm64\<rparr>, pp_edgeNodeId = None\<rparr>"

definition edge_launch :: launch_env where
  "edge_launch = \<lparr>le_instance = Some ''i-1'', le_network = None, le_eip = Some (''1.2.3.4'', ''eip-1'')\<rparr>"



end
