(* ===== verification/Local_Config.thy ===== *)
theory Local_Config
  imports Provision
begin

text \<open>
  The local preferences (\<open>packages/cli/src/config/local.ts\<close>): the AWS targets of the clusters and the default cluster;
  and the resolution of a command's cluster, region and profile (\<open>prepareAws\<close> and \<open>createClients\<close> of
  \<open>packages/cli/src/aws\<close>). The file is the document the TOML library reads; a property present with the value
  undefined is \<open>Some None\<close> in a partial target.
\<close>

section \<open>The file\<close>

record cluster_target =
  ct_region :: "string option"
  ct_profile :: "string option"
  ct_roleArn :: "string option"
  ct_externalId :: "string option"
  ct_sessionName :: "string option"

record local_config =
  lp_defaultCluster :: "string option"
  lp_clusters :: "(string, cluster_target) assoc"

datatype local_file = NoLocalFile | UnreadableLocalFile | LocalFile local_config

datatype local_error = LocalUnreadable | BadClusterName string

definition empty_target :: cluster_target where
  "empty_target = \<lparr>ct_region = None, ct_profile = None, ct_roleArn = None, ct_externalId = None, ct_sessionName = None\<rparr>"

definition opt_filled :: "string option \<Rightarrow> bool" where
  "opt_filled x \<longleftrightarrow> x \<noteq> Some []"

definition valid_target :: "cluster_target \<Rightarrow> bool" where
  "valid_target t \<longleftrightarrow> opt_filled (ct_region t) \<and> opt_filled (ct_profile t) \<and> opt_filled (ct_roleArn t)
     \<and> opt_filled (ct_externalId t) \<and> opt_filled (ct_sessionName t)"

definition valid_local_config :: "local_config \<Rightarrow> bool" where
  "valid_local_config c \<longleftrightarrow> opt_all LABEL_REGEX (lp_defaultCluster c)
     \<and> list_all (\<lambda>(n, t). LABEL_REGEX n \<and> valid_target t) (lp_clusters c)"

definition loadLocalConfig :: "local_file \<Rightarrow> local_error + local_config" where
  "loadLocalConfig f =
     (case f of
        NoLocalFile \<Rightarrow> Inr \<lparr>lp_defaultCluster = None, lp_clusters = []\<rparr>
      | UnreadableLocalFile \<Rightarrow> Inl LocalUnreadable
      | LocalFile c \<Rightarrow> if valid_local_config c then Inr c else Inl LocalUnreadable)"

definition assertValidClusterId :: "string \<Rightarrow> local_error + unit" where
  "assertValidClusterId c = (if LABEL_REGEX c then Inr () else Inl (BadClusterName c))"

definition resolveClusterTarget :: "local_file \<Rightarrow> string \<Rightarrow> local_error + cluster_target option" where
  "resolveClusterTarget f c = map_sum id (\<lambda>l. map_of (lp_clusters l) c) (loadLocalConfig f)"

section \<open>Its updates\<close>

text \<open>A partial target: a property that is absent keeps the old value, a present one replaces it, also by undefined.\<close>

record target_patch =
  tp_region :: "string option option"
  tp_profile :: "string option option"
  tp_roleArn :: "string option option"

definition patched :: "'a option \<Rightarrow> 'a \<Rightarrow> 'a" where
  "patched p old = (case p of None \<Rightarrow> old | Some x \<Rightarrow> x)"

definition merge_target :: "cluster_target option \<Rightarrow> target_patch \<Rightarrow> cluster_target" where
  "merge_target old p =
     (let t = (case old of None \<Rightarrow> empty_target | Some t \<Rightarrow> t)
      in t\<lparr>ct_region := patched (tp_region p) (ct_region t), ct_profile := patched (tp_profile p) (ct_profile t),
           ct_roleArn := patched (tp_roleArn p) (ct_roleArn t)\<rparr>)"

definition upsertClusterTarget ::
  "string \<Rightarrow> target_patch \<Rightarrow> bool \<Rightarrow> local_file \<Rightarrow> local_error + local_file" where
  "upsertClusterTarget c p setDefaultIfFirst f =
     res_bind (assertValidClusterId c) (\<lambda>_. res_bind (loadLocalConfig f) (\<lambda>l.
       let clusters = assoc_set c (merge_target (map_of (lp_clusters l) c) p) (lp_clusters l);
           def = (if setDefaultIfFirst \<and> lp_defaultCluster l = None \<and> length clusters = 1 then Some c else lp_defaultCluster l)
       in Inr (LocalFile \<lparr>lp_defaultCluster = def, lp_clusters = clusters\<rparr>)))"

definition rememberClusterTarget :: "string \<Rightarrow> string option \<Rightarrow> string option \<Rightarrow> local_file \<Rightarrow> local_error + local_file" where
  "rememberClusterTarget c region profile f =
     (if c = DEFAULT_CLUSTER then Inr f
      else res_bind (resolveClusterTarget f c) (\<lambda>t.
        if t \<noteq> None then Inr f
        else let given = (\<lambda>x. if x = None \<or> x = Some [] then None else Some x)
             in upsertClusterTarget c \<lparr>tp_region = given region, tp_profile = given profile, tp_roleArn = None\<rparr> False f))"

definition setDefaultCluster :: "string \<Rightarrow> local_file \<Rightarrow> local_error + local_file" where
  "setDefaultCluster c f =
     res_bind (assertValidClusterId c) (\<lambda>_. map_sum id (\<lambda>l. LocalFile (l\<lparr>lp_defaultCluster := Some c\<rparr>)) (loadLocalConfig f))"

definition clearDefaultCluster :: "local_file \<Rightarrow> local_error + local_file" where
  "clearDefaultCluster f =
     map_sum id (\<lambda>l. if lp_defaultCluster l = None then f else LocalFile (l\<lparr>lp_defaultCluster := None\<rparr>)) (loadLocalConfig f)"

definition removeClusterTarget :: "string \<Rightarrow> local_file \<Rightarrow> local_error + local_file" where
  "removeClusterTarget c f =
     map_sum id (\<lambda>l. if map_of (lp_clusters l) c = None then f
       else LocalFile \<lparr>lp_defaultCluster = (if lp_defaultCluster l = Some c then None else lp_defaultCluster l),
                       lp_clusters = filter (\<lambda>x. fst x \<noteq> c) (lp_clusters l)\<rparr>) (loadLocalConfig f)"

section \<open>The cluster of a command\<close>

record cluster_flags =
  cf_cluster :: "string option"
  cf_region :: "string option"
  cf_profile :: "string option"

record effective_cluster =
  ef_cluster :: string
  ef_persistedDefault :: string
  ef_isImplicitDefault :: bool
  ef_overridden :: bool
  ef_region :: "string option"
  ef_profile :: "string option"
  ef_roleArn :: "string option"

definition effectiveCluster :: "cluster_flags \<Rightarrow> local_config \<Rightarrow> local_error + effective_cluster" where
  "effectiveCluster opts local =
     (let persisted = option_or (lp_defaultCluster local) DEFAULT_CLUSTER;
          cluster = option_or (cf_cluster opts) persisted;
          target = map_of (lp_clusters local) cluster
      in res_bind (assertValidClusterId cluster) (\<lambda>_. Inr
           \<lparr>ef_cluster = cluster, ef_persistedDefault = persisted, ef_isImplicitDefault = (cluster = DEFAULT_CLUSTER),
            ef_overridden = (cf_cluster opts \<noteq> None \<and> cluster \<noteq> persisted),
            ef_region = opt_or (cf_region opts) (Option.bind target ct_region),
            ef_profile = opt_or (cf_profile opts) (Option.bind target ct_profile),
            ef_roleArn = Option.bind target ct_roleArn\<rparr>))"

datatype aws_error = AwsLocal local_error | RoleArnUnsupported string | NoRegion

text \<open>The environment of the process: \<open>AWS_PROFILE\<close>, \<open>AWS_REGION\<close>, \<open>AWS_DEFAULT_REGION\<close>, and the region of the AWS files.\<close>

record process_env =
  pv_profile :: "string option"
  pv_region :: "string option"
  pv_defaultRegion :: "string option"
  pv_fileRegion :: "string option \<Rightarrow> string option"

definition createClients :: "string option \<Rightarrow> string option \<Rightarrow> process_env \<Rightarrow> process_env \<times> (aws_error + string \<times> string option)" where
  "createClients region profile env =
     (let env1 = (if profile \<noteq> None \<and> profile \<noteq> Some [] then env\<lparr>pv_profile := profile\<rparr> else env);
          direct = opt_or region (opt_or (pv_region env1) (pv_defaultRegion env1));
          found = (if direct = None \<or> direct = Some [] then pv_fileRegion env1 (pv_profile env1) else direct)
      in (env1, if found = None \<or> found = Some [] then Inl NoRegion else Inr (the found, pv_profile env1)))"

text \<open>The cluster, the region and the profile that the clients of a command use.\<close>

definition prepareAws ::
  "cluster_flags \<Rightarrow> local_file \<Rightarrow> process_env \<Rightarrow> process_env \<times> (aws_error + string \<times> string \<times> string option)" where
  "prepareAws opts f env =
     (case loadLocalConfig f of
        Inl e \<Rightarrow> (env, Inl (AwsLocal e))
      | Inr local \<Rightarrow>
          (let cluster = option_or (cf_cluster opts) (option_or (lp_defaultCluster local) DEFAULT_CLUSTER);
               target = map_of (lp_clusters local) cluster
           in case assertValidClusterId cluster of
                Inl e \<Rightarrow> (env, Inl (AwsLocal e))
              | Inr _ \<Rightarrow>
                  if \<not> (Option.bind target ct_roleArn = None \<or> Option.bind target ct_roleArn = Some [])
                  then (env, Inl (RoleArnUnsupported cluster))
                  else (case createClients (opt_or (cf_region opts) (Option.bind target ct_region))
                              (opt_or (cf_profile opts) (Option.bind target ct_profile)) env of
                          (env1, r) \<Rightarrow> (env1, map_sum id (\<lambda>(region, profile). (cluster, region, profile)) r))))"

section \<open>The default cluster has a target\<close>

text \<open>What the commands do with the file; \<open>cluster use\<close> sets a default only after it has found its target.\<close>

inductive local_step :: "local_file \<Rightarrow> local_file \<Rightarrow> bool" where
  created: "upsertClusterTarget c p True f = Inr f' \<Longrightarrow> local_step f f'"
| remembered: "rememberClusterTarget c region profile f = Inr f' \<Longrightarrow> local_step f f'"
| used: "resolveClusterTarget f c = Inr (Some t) \<Longrightarrow> setDefaultCluster c f = Inr f' \<Longrightarrow> local_step f f'"
| cleared: "clearDefaultCluster f = Inr f' \<Longrightarrow> local_step f f'"
| removed: "removeClusterTarget c f = Inr f' \<Longrightarrow> local_step f f'"

inductive_cases local_stepE: "local_step f f'"

definition default_known :: "local_config \<Rightarrow> bool" where
  "default_known l \<longleftrightarrow> (case lp_defaultCluster l of None \<Rightarrow> True | Some c \<Rightarrow> map_of (lp_clusters l) c \<noteq> None)"

definition default_has_target :: "local_file \<Rightarrow> bool" where
  "default_has_target f \<longleftrightarrow> (case f of LocalFile l \<Rightarrow> default_known l | _ \<Rightarrow> True)"

lemma map_sum_Inr: "map_sum id f r = Inr y \<longleftrightarrow> (\<exists>x. r = Inr x \<and> y = f x)"
  by (cases r) auto

lemma map_of_without: "map_of (filter (\<lambda>x. fst x \<noteq> c) xs) d = (if d = c then None else map_of xs d)"
  by (induction xs) auto

lemma loaded_default: "loadLocalConfig f = Inr l \<Longrightarrow> default_has_target f \<Longrightarrow> default_known l"
  by (auto simp: loadLocalConfig_def default_has_target_def default_known_def split: local_file.splits if_splits)

lemma upsert_keeps_default:
  assumes "upsertClusterTarget c p b f = Inr f'" "default_has_target f"
  shows "default_has_target f'"
proof -
  obtain l where l: "loadLocalConfig f = Inr l"
    and f': "f' = LocalFile \<lparr>lp_defaultCluster = (if b \<and> lp_defaultCluster l = None
         \<and> length (assoc_set c (merge_target (map_of (lp_clusters l) c) p) (lp_clusters l)) = 1 then Some c else lp_defaultCluster l),
       lp_clusters = assoc_set c (merge_target (map_of (lp_clusters l) c) p) (lp_clusters l)\<rparr>"
    using assms(1) by (auto simp: upsertClusterTarget_def res_bind_eq_Inr Let_def)
  from loaded_default [OF l assms(2)] show ?thesis
    unfolding f' default_has_target_def default_known_def by (auto simp: map_of_assoc_set split: option.splits)
qed

lemma step_keeps_default: "local_step f f' \<Longrightarrow> default_has_target f \<Longrightarrow> default_has_target f'"
proof (induction rule: local_step.induct)
  case (created c p f f')
  then show ?case using upsert_keeps_default by blast
next
  case (remembered c region profile f f')
  then show ?case
    by (auto simp: rememberClusterTarget_def res_bind_eq_Inr Let_def split: if_splits dest: upsert_keeps_default)
next
  case (used f c t f')
  then obtain l where "loadLocalConfig f = Inr l" "map_of (lp_clusters l) c = Some t" "f' = LocalFile (l\<lparr>lp_defaultCluster := Some c\<rparr>)"
    by (auto simp: setDefaultCluster_def resolveClusterTarget_def res_bind_eq_Inr map_sum_Inr)
  then show ?case by (simp add: default_has_target_def default_known_def)
next
  case (cleared f f')
  then obtain l where "loadLocalConfig f = Inr l" "f' = (if lp_defaultCluster l = None then f else LocalFile (l\<lparr>lp_defaultCluster := None\<rparr>))"
    by (auto simp: clearDefaultCluster_def map_sum_Inr)
  with cleared(2) show ?case by (auto simp: default_has_target_def [of "LocalFile _"] default_known_def)
next
  case (removed c f f')
  then obtain l where l: "loadLocalConfig f = Inr l" and f': "f' = (if map_of (lp_clusters l) c = None then f
      else LocalFile \<lparr>lp_defaultCluster = (if lp_defaultCluster l = Some c then None else lp_defaultCluster l),
                      lp_clusters = filter (\<lambda>x. fst x \<noteq> c) (lp_clusters l)\<rparr>)"
    by (auto simp: removeClusterTarget_def map_sum_Inr)
  from loaded_default [OF l removed(2)] removed(2) show ?case
    unfolding f' by (auto simp: default_has_target_def [of "LocalFile _"] default_known_def map_of_without split: option.splits)
qed

text \<open>
  C24. Whatever commands are run on the local preferences, from no file on, the default cluster always has a target
  there.
\<close>

theorem default_cluster_has_target:
  assumes "local_step\<^sup>*\<^sup>* NoLocalFile f"
  shows "default_has_target f"
  using assms by (induction rule: rtranclp_induct) (auto simp: default_has_target_def [of NoLocalFile] intro: step_keeps_default)

section \<open>Examples\<close>

definition no_patch :: target_patch where
  "no_patch = \<lparr>tp_region = Some None, tp_profile = Some None, tp_roleArn = Some None\<rparr>"

definition prod_file :: local_file where
  "prod_file = LocalFile \<lparr>lp_defaultCluster = Some ''prod'',
     lp_clusters = [(''prod'', empty_target\<lparr>ct_region := Some ''eu-west-1'', ct_profile := Some ''acme''\<rparr>), (''lab'', empty_target)]\<rparr>"

text \<open>Creating a cluster again without its flags forgets its profile and region.\<close>

lemma create_again_forgets_profile:
  "map_sum id (\<lambda>f. case f of LocalFile l \<Rightarrow> map_of (lp_clusters l) ''prod'' | _ \<Rightarrow> None) (upsertClusterTarget ''prod'' no_patch True prod_file)
   = Inr (Some empty_target)"
  by code_simp

text \<open>The profile of one cluster is still set when the clients of the next one are made in the same process.\<close>

definition bare_env :: process_env where
  "bare_env = \<lparr>pv_profile = None, pv_region = None, pv_defaultRegion = None, pv_fileRegion = (\<lambda>_. Some ''us-east-1'')\<rparr>"

lemma profile_outlives_its_cluster:
  "snd (prepareAws \<lparr>cf_cluster = Some ''lab'', cf_region = None, cf_profile = None\<rparr> prod_file
     (fst (prepareAws \<lparr>cf_cluster = Some ''prod'', cf_region = None, cf_profile = None\<rparr> prod_file bare_env)))
   = Inr (''lab'', ''us-east-1'', Some ''acme'')"
  "snd (prepareAws \<lparr>cf_cluster = Some ''lab'', cf_region = None, cf_profile = None\<rparr> prod_file bare_env) = Inr (''lab'', ''us-east-1'', None)"
  by code_simp+

lemma default_cluster_has_target_witness:
  "default_has_target (LocalFile \<lparr>lp_defaultCluster = Some ''prod'', lp_clusters = [(''prod'', empty_target)]\<rparr>)"
proof (rule default_cluster_has_target)
  have "upsertClusterTarget ''prod'' no_patch True NoLocalFile
      = Inr (LocalFile \<lparr>lp_defaultCluster = Some ''prod'', lp_clusters = [(''prod'', empty_target)]\<rparr>)" by code_simp
  from local_step.created [OF this] show "local_step\<^sup>*\<^sup>* NoLocalFile (LocalFile \<lparr>lp_defaultCluster = Some ''prod'', lp_clusters = [(''prod'', empty_target)]\<rparr>)"
    by blast
qed

end
