(* ===== verification/Watch.thy ===== *)
theory Watch
  imports Status Polling Merge
begin

text \<open>
  Waiting for the agents (\<open>packages/cli/src\<close>): \<open>waitForConvergence\<close> after a deploy (\<open>deploy/watch.ts\<close>),
  \<open>waitForDrain\<close> after a removal (\<open>commands/destroy.ts\<close>) and \<open>waitForJob\<close> (\<open>commands/job.ts\<close>). The argument
  \<open>obs i n\<close> is what the poll of number \<open>i\<close> reads of node \<open>n\<close>'s status and \<open>clock i\<close> is the time at which it
  compares with the deadline.
\<close>

section \<open>Convergence of a deploy\<close>

record watch_target =
  wt_nodeId :: string
  wt_project :: string
  wt_service :: string
  wt_image :: string
  wt_expectedReplicas :: int
  wt_previousContainerIds :: "string list"

datatype watch_message =
  NoAgentStatus | NotYetReported | ErrorMessage string
| ReplicasOnImage int int | OldContainersRunning int int | OnNewImage int int int

record watch_result =
  wr_target :: watch_target
  wr_state :: service_state
  wr_ok :: bool
  wr_message :: watch_message

definition on_image :: "watch_target \<Rightarrow> service_status \<Rightarrow> replica_status list" where
  "on_image t svc = filter (\<lambda>r. rs_image r = wt_image t \<and> rs_state r = SRunning) (ss_replicas svc)"

definition truthy :: "string option \<Rightarrow> bool" where
  "truthy x \<longleftrightarrow> x \<noteq> None \<and> x \<noteq> Some []"

definition old_still_running :: "watch_target \<Rightarrow> service_status \<Rightarrow> string list" where
  "old_still_running t svc =
     filter (\<lambda>i. i \<in> set (wt_previousContainerIds t))
       (map (\<lambda>r. the (rs_containerId r)) (filter (\<lambda>r. truthy (rs_containerId r)) (on_image t svc)))"

definition evaluate :: "node_status option \<Rightarrow> watch_target \<Rightarrow> watch_result" where
  "evaluate status t =
     (case Option.bind status (\<lambda>st. find (\<lambda>s. ss_project s = wt_project t \<and> ss_service s = wt_service t) (ns_services st)) of
        None \<Rightarrow> \<lparr>wr_target = t, wr_state = SPending, wr_ok = False,
                 wr_message = if status = None then NoAgentStatus else NotYetReported\<rparr>
      | Some svc \<Rightarrow>
          if ss_state svc = SError
          then \<lparr>wr_target = t, wr_state = SError, wr_ok = False,
                wr_message = ErrorMessage (if ss_message svc = [] then ''error'' else ss_message svc)\<rparr>
          else let onImage = int (length (on_image t svc)); old = old_still_running t svc in
            if wt_expectedReplicas t \<le> ss_runningReplicas svc \<and> wt_expectedReplicas t \<le> onImage \<and> old = []
            then \<lparr>wr_target = t, wr_state = SRunning, wr_ok = True,
                  wr_message = ReplicasOnImage onImage (wt_expectedReplicas t)\<rparr>
            else if old \<noteq> []
            then \<lparr>wr_target = t, wr_state = ss_state svc, wr_ok = False,
                  wr_message = OldContainersRunning (int (length old)) (ss_runningReplicas svc)\<rparr>
            else \<lparr>wr_target = t, wr_state = ss_state svc, wr_ok = False,
                  wr_message = OnNewImage onImage (wt_expectedReplicas t) (ss_runningReplicas svc)\<rparr>)"

definition mismatches :: "(string \<Rightarrow> node_status option) \<Rightarrow> watch_target list \<Rightarrow> protocol_mismatch list" where
  "mismatches status targets =
     List.map_filter (\<lambda>i. detectProtocolMismatch i (status i)) (js_dedup (map wt_nodeId targets))"

definition watch_step ::
  "watch_target list \<Rightarrow> int \<Rightarrow> (nat \<Rightarrow> string \<Rightarrow> node_status option) \<Rightarrow> (nat \<Rightarrow> int) \<Rightarrow> nat \<Rightarrow> watch_result list option" where
  "watch_step targets deadline obs clock i =
     (let results = map (\<lambda>t. evaluate (obs i (wt_nodeId t)) t) targets
      in if list_all wr_ok results then Some results
         else if mismatches (obs i) targets \<noteq> [] then Some results
         else if list_ex (\<lambda>r. wr_state r = SError) results then Some results
         else if deadline < clock i then Some results else None)"

definition waitForConvergence ::
  "watch_target list \<Rightarrow> int \<Rightarrow> int \<Rightarrow> (nat \<Rightarrow> string \<Rightarrow> node_status option) \<Rightarrow> (nat \<Rightarrow> int) \<Rightarrow> watch_result list option" where
  "waitForConvergence targets startMs timeoutMs obs clock =
     poll (watch_step targets (startMs + timeoutMs) obs clock) 0"

section \<open>Draining a removed footprint\<close>

text \<open>\<open>removed\<close> is \<open>None\<close> when the whole footprint goes.\<close>

definition drained :: "node_status option \<Rightarrow> string \<Rightarrow> string set option \<Rightarrow> bool" where
  "drained status ownerProject removed =
     (case status of None \<Rightarrow> False
      | Some st \<Rightarrow> \<not> list_ex (\<lambda>s. ss_project s = ownerProject
          \<and> (case removed of None \<Rightarrow> True | Some r \<Rightarrow> ss_service s \<in> r)
          \<and> (0 < ss_runningReplicas s \<or> list_ex (\<lambda>r. rs_state r = SRunning) (ss_replicas s))) (ns_services st))"

definition heartbeatStale :: "(string \<Rightarrow> int option) \<Rightarrow> int \<Rightarrow> node_status option \<Rightarrow> bool" where
  "heartbeatStale date_parse nowMs status =
     (case status of None \<Rightarrow> True | Some st \<Rightarrow> isHeartbeatStale date_parse (ns_lastSeen st) nowMs HEARTBEAT_STALE_MS)"

record drain_result =
  dr_drained :: bool
  dr_unreachable :: "string list"

text \<open>
  A poll reads a document or none; \<open>Some None\<close> is a document the schema rejects. \<open>stale_clock i n\<close> is the
  time at which the staleness of node \<open>n\<close> is judged, after the deadline has passed.
\<close>

definition drain_step ::
  "(string \<Rightarrow> int option) \<Rightarrow> string list \<Rightarrow> string \<Rightarrow> string set option \<Rightarrow> int
   \<Rightarrow> (nat \<Rightarrow> string \<Rightarrow> node_status option option) \<Rightarrow> (nat \<Rightarrow> int) \<Rightarrow> (nat \<Rightarrow> string \<Rightarrow> int) \<Rightarrow> nat \<Rightarrow> drain_result option" where
  "drain_step date_parse nodeIds ownerProject removed deadline obs clock stale_clock i =
     (if list_all (\<lambda>n. case obs i n of None \<Rightarrow> False | Some raw \<Rightarrow> drained raw ownerProject removed) nodeIds
      then Some \<lparr>dr_drained = True, dr_unreachable = []\<rparr>
      else if deadline \<le> clock i
      then Some \<lparr>dr_drained = False,
             dr_unreachable = filter (\<lambda>n. case obs i n of None \<Rightarrow> True
               | Some raw \<Rightarrow> heartbeatStale date_parse (stale_clock i n) raw) nodeIds\<rparr>
      else None)"

definition waitForDrain ::
  "(string \<Rightarrow> int option) \<Rightarrow> string list \<Rightarrow> string \<Rightarrow> string set option \<Rightarrow> int \<Rightarrow> int
   \<Rightarrow> (nat \<Rightarrow> string \<Rightarrow> node_status option option) \<Rightarrow> (nat \<Rightarrow> int) \<Rightarrow> (nat \<Rightarrow> string \<Rightarrow> int) \<Rightarrow> drain_result option" where
  "waitForDrain date_parse nodeIds ownerProject removed startMs timeoutMs obs clock stale_clock =
     poll (drain_step date_parse nodeIds ownerProject removed (startMs + timeoutMs) obs clock stale_clock) 0"

section \<open>Waiting for a job run\<close>

definition jobStatus :: "node_status option \<Rightarrow> string \<Rightarrow> string \<Rightarrow> string \<Rightarrow> job_run_status option" where
  "jobStatus status ownerProject jobName runId =
     Option.bind status (\<lambda>st.
       Option.bind (find (\<lambda>s. ss_project s = ownerProject \<and> ss_service s = jobName
           \<and> map_option jrs_id (ss_jobRun s) = Some runId) (ns_services st)) ss_jobRun)"

record job_wait_outcome =
  jw_ok :: bool
  jw_exitCode :: "int option"
  jw_message :: string

datatype job_wait_error = JobTimedOut string

definition job_step ::
  "string \<Rightarrow> string \<Rightarrow> string \<Rightarrow> int \<Rightarrow> (nat \<Rightarrow> node_status option) \<Rightarrow> (nat \<Rightarrow> int) \<Rightarrow> nat
   \<Rightarrow> (job_wait_error + job_wait_outcome) option" where
  "job_step ownerProject jobName runId deadline obs clock i =
     (let late = (if deadline < clock i then Some (Inl (JobTimedOut jobName)) else None)
      in case jobStatus (obs i) ownerProject jobName runId of
           None \<Rightarrow> late
         | Some run \<Rightarrow>
             if jrs_state run = JSucceeded
             then Some (Inr \<lparr>jw_ok = True, jw_exitCode = jrs_exitCode run, jw_message = jrs_message run\<rparr>)
             else if jrs_state run = JFailed
             then Some (Inr \<lparr>jw_ok = False, jw_exitCode = jrs_exitCode run, jw_message = jrs_message run\<rparr>)
             else late)"

definition waitForJob ::
  "string \<Rightarrow> string \<Rightarrow> string \<Rightarrow> int \<Rightarrow> int \<Rightarrow> (nat \<Rightarrow> node_status option) \<Rightarrow> (nat \<Rightarrow> int)
   \<Rightarrow> (job_wait_error + job_wait_outcome) option" where
  "waitForJob ownerProject jobName runId startMs timeoutMs obs clock =
     poll (job_step ownerProject jobName runId (startMs + timeoutMs) obs clock) 0"

section \<open>The loops return, and their reports are true\<close>

interpretation watch: deadline_loop "watch_step targets deadline obs clock" deadline clock
  for targets deadline obs clock
  by unfold_locales (auto simp: watch_step_def Let_def)

interpretation drain: deadline_loop "drain_step date_parse nodeIds owner removed deadline obs clock stale_clock" deadline clock
  for date_parse nodeIds owner removed deadline obs clock stale_clock
  by unfold_locales (auto simp: drain_step_def)

interpretation job: deadline_loop "job_step owner name run deadline obs clock" deadline clock
  for owner name run deadline obs clock
  by unfold_locales (auto simp: job_step_def Let_def split: option.splits)

lemma evaluate_target [simp]: "wr_target (evaluate status t) = t"
  by (simp add: evaluate_def Let_def split: option.splits)

text \<open>What a target that is reported as converged runs.\<close>

definition converged :: "node_status option \<Rightarrow> watch_target \<Rightarrow> bool" where
  "converged status t \<longleftrightarrow> (\<exists>st svc. status = Some st \<and> svc \<in> set (ns_services st)
     \<and> ss_project svc = wt_project t \<and> ss_service svc = wt_service t \<and> ss_state svc \<noteq> SError
     \<and> wt_expectedReplicas t \<le> ss_runningReplicas svc
     \<and> wt_expectedReplicas t \<le> int (length (on_image t svc))
     \<and> (\<forall>c. c \<noteq> [] \<and> c \<in> set (wt_previousContainerIds t) \<longrightarrow> Some c \<notin> rs_containerId ` set (on_image t svc)))"

lemma evaluate_ok:
  assumes "wr_ok (evaluate status t)"
  shows "converged status t"
proof -
  from assms obtain st svc where st: "status = Some st"
    and f: "find (\<lambda>s. ss_project s = wt_project t \<and> ss_service s = wt_service t) (ns_services st) = Some svc"
    and ne: "ss_state svc \<noteq> SError"
    and r: "wt_expectedReplicas t \<le> ss_runningReplicas svc" "wt_expectedReplicas t \<le> int (length (on_image t svc))"
    and old: "old_still_running t svc = []"
    by (auto simp: evaluate_def Let_def split: option.splits if_splits bind_splits)
  have "Some c \<notin> rs_containerId ` set (on_image t svc)" if "c \<noteq> []" "c \<in> set (wt_previousContainerIds t)" for c
  proof
    assume "Some c \<in> rs_containerId ` set (on_image t svc)"
    then obtain x where x: "x \<in> set (on_image t svc)" "rs_containerId x = Some c" by (metis imageE)
    with that have "c \<in> set (old_still_running t svc)"
      by (force simp: old_still_running_def truthy_def image_iff)
    with old show False by simp
  qed
  with st find_SomeD [OF f] ne r show ?thesis unfolding converged_def by blast
qed

lemma converged_at:
  assumes "waitForConvergence targets startMs timeoutMs obs clock = Some rs" and "list_all wr_ok rs"
  shows "\<exists>i. rs = map (\<lambda>t. evaluate (obs i (wt_nodeId t)) t) targets \<and> (\<forall>t \<in> set targets. converged (obs i (wt_nodeId t)) t)"
proof -
  from watch.result_decided [OF assms(1) [unfolded waitForConvergence_def]] obtain k
    where "watch_step targets (startMs + timeoutMs) obs clock k = Some rs" .
  then have rs: "rs = map (\<lambda>t. evaluate (obs k (wt_nodeId t)) t) targets"
    by (auto simp: watch_step_def Let_def split: if_splits)
  with assms(2) evaluate_ok show ?thesis by (intro exI [of _ k]) (auto simp: list_all_iff)
qed

text \<open>
  C34. A deploy that reports success has converged: when the wait returns with every result good, one
  poll read, for every target, a status in which the service is reported without error with at least
  the expected number of replicas running the deployed image, none of them a container that was to be
  replaced.
\<close>

theorem convergence_honest:
  assumes "waitForConvergence targets startMs timeoutMs obs clock = Some rs" and "list_all wr_ok rs"
  shows "\<exists>i. rs = map (\<lambda>t. evaluate (obs i (wt_nodeId t)) t) targets \<and> (\<forall>t \<in> set targets. converged (obs i (wt_nodeId t)) t)"
  by (rule converged_at [OF assms])

text \<open>
  C35. The wait for convergence always returns, at the latest with the first poll after the deadline
  (polls are at least three seconds apart), and it does not wait for the deadline when it is hopeless: the
  first poll that reads an agent behind the protocol or a failed service ends it.
\<close>

theorem convergence_returns:
  assumes "\<And>i. clock i + 3000 \<le> clock (Suc i)" and "startMs \<le> clock 0" and "0 \<le> timeoutMs"
  shows "\<exists>k rs. int k \<le> timeoutMs div 3000 + 1 \<and> waitForConvergence targets startMs timeoutMs obs clock = Some rs
      \<and> rs = map (\<lambda>t. evaluate (obs k (wt_nodeId t)) t) targets
      \<and> (\<forall>j<k. mismatches (obs j) targets = []
           \<and> (\<forall>t \<in> set targets. wr_state (evaluate (obs j (wt_nodeId t)) t) \<noteq> SError))"
proof -
  let ?step = "watch_step targets (startMs + timeoutMs) obs clock"
  from watch.returns [of clock 3000 startMs "startMs + timeoutMs" targets obs] assms
  obtain k r where k: "int k \<le> timeoutMs div 3000 + 1" and r: "?step k = Some r" "poll ?step 0 = Some r" by auto
  obtain m where m: "?step m = Some r" "\<And>j. j < m \<Longrightarrow> ?step j = None"
    by (rule watch.result_decided [OF r(2)]) (rule that)
  have "m \<le> k" using m(2) [of k] r(1) by (cases "k < m") auto
  with k have mb: "int m \<le> timeoutMs div 3000 + 1" by simp
  have rs: "r = map (\<lambda>t. evaluate (obs m (wt_nodeId t)) t) targets"
    using m(1) by (auto simp: watch_step_def Let_def split: if_splits)
  have "mismatches (obs j) targets = [] \<and> (\<forall>t \<in> set targets. wr_state (evaluate (obs j (wt_nodeId t)) t) \<noteq> SError)"
    if "j < m" for j
    using m(2) [OF that] by (auto simp: watch_step_def Let_def list_ex_iff split: if_splits)
  with mb rs r(2) show ?thesis
    unfolding waitForConvergence_def by (intro exI [of _ m] exI [of _ r]) blast
qed

text \<open>
  A drain that reports success is one: every affected node's status was read and none reports a
  removed service with a running replica. When it gives up, it names as unreachable exactly the nodes
  whose status is missing, unreadable or stale. And it always returns (polls are four seconds apart).
\<close>

theorem drain_honest:
  assumes "\<And>i. clock i + 4000 \<le> clock (Suc i)" and "startMs \<le> clock 0" and "0 \<le> timeoutMs"
  shows "\<exists>i r. waitForDrain date_parse nodeIds owner removed startMs timeoutMs obs clock stale_clock = Some r
    \<and> (if dr_drained r
       then list_all (\<lambda>n. \<exists>st. obs i n = Some (Some st) \<and> list_all (\<lambda>s.
              \<not> (ss_project s = owner \<and> (removed = None \<or> ss_service s \<in> the removed))
              \<or> ss_runningReplicas s \<le> 0 \<and> list_all (\<lambda>r. rs_state r \<noteq> SRunning) (ss_replicas s)) (ns_services st)) nodeIds
       else startMs + timeoutMs \<le> clock i
         \<and> dr_unreachable r = filter (\<lambda>n. case obs i n of Some (Some st) \<Rightarrow>
              isHeartbeatStale date_parse (ns_lastSeen st) (stale_clock i n) HEARTBEAT_STALE_MS | _ \<Rightarrow> True) nodeIds)"
proof -
  let ?step = "drain_step date_parse nodeIds owner removed (startMs + timeoutMs) obs clock stale_clock"
  from drain.returns [of clock 4000 startMs "startMs + timeoutMs" date_parse nodeIds owner removed obs stale_clock] assms
  obtain k r where r: "?step k = Some r" "poll ?step 0 = Some r" by auto
  have d: "drained raw owner removed \<Longrightarrow> \<exists>st. raw = Some st \<and> list_all (\<lambda>s.
              \<not> (ss_project s = owner \<and> (removed = None \<or> ss_service s \<in> the removed))
              \<or> ss_runningReplicas s \<le> 0 \<and> list_all (\<lambda>r. rs_state r \<noteq> SRunning) (ss_replicas s)) (ns_services st)" for raw
    unfolding drained_def list_all_iff list_ex_iff by (cases removed) (fastforce split: option.splits)+
  have f: "(case x of None \<Rightarrow> True | Some raw \<Rightarrow> heartbeatStale date_parse c raw)
      = (case x of Some (Some st) \<Rightarrow> isHeartbeatStale date_parse (ns_lastSeen st) c HEARTBEAT_STALE_MS | _ \<Rightarrow> True)" for x c
    by (auto simp: heartbeatStale_def split: option.splits)
  show ?thesis
  proof (cases "list_all (\<lambda>n. case obs k n of None \<Rightarrow> False | Some raw \<Rightarrow> drained raw owner removed) nodeIds")
    case True
    then have "list_all (\<lambda>n. \<exists>st. obs k n = Some (Some st) \<and> list_all (\<lambda>s.
              \<not> (ss_project s = owner \<and> (removed = None \<or> ss_service s \<in> the removed))
              \<or> ss_runningReplicas s \<le> 0 \<and> list_all (\<lambda>r. rs_state r \<noteq> SRunning) (ss_replicas s)) (ns_services st)) nodeIds"
      by (rule list.pred_mono_strong) (auto split: option.splits dest: d)
    with True r show ?thesis
      unfolding waitForDrain_def by (intro exI [of _ k] exI [of _ r]) (auto simp: drain_step_def)
  next
    case False
    with r show ?thesis
      unfolding waitForDrain_def drain_step_def f by (intro exI [of _ k] exI [of _ r]) (auto split: if_splits)
  qed
qed

text \<open>
  The wait for a job run returns, and it answers for this run only: it reports success exactly as the
  agent does for the run with the requested id, failure likewise, and times out only past the deadline.
\<close>

theorem job_wait_honest:
  assumes "\<And>i. clock i + 3000 \<le> clock (Suc i)" and "startMs \<le> clock 0" and "0 \<le> timeoutMs"
  shows "\<exists>i r. waitForJob owner jobName runId startMs timeoutMs obs clock = Some r
    \<and> (case r of
         Inl _ \<Rightarrow> startMs + timeoutMs < clock i
           \<and> map_option jrs_state (jobStatus (obs i) owner jobName runId) \<notin> {Some JSucceeded, Some JFailed}
       | Inr w \<Rightarrow> (\<exists>st s run. obs i = Some st \<and> s \<in> set (ns_services st) \<and> ss_project s = owner
           \<and> ss_service s = jobName \<and> ss_jobRun s = Some run \<and> jrs_id run = runId
           \<and> jrs_state run = (if jw_ok w then JSucceeded else JFailed) \<and> jw_exitCode w = jrs_exitCode run))"
proof -
  let ?step = "job_step owner jobName runId (startMs + timeoutMs) obs clock"
  from job.returns [of clock 3000 startMs "startMs + timeoutMs" owner jobName runId obs] assms
  obtain k r where r: "?step k = Some r" "poll ?step 0 = Some r" by auto
  have j: "\<exists>st s. obs k = Some st \<and> s \<in> set (ns_services st) \<and> ss_project s = owner
      \<and> ss_service s = jobName \<and> ss_jobRun s = Some run \<and> jrs_id run = runId"
    if "jobStatus (obs k) owner jobName runId = Some run" for run
    using that find_SomeD by (fastforce simp: jobStatus_def bind_eq_Some_conv)
  have "case r of
      Inl _ \<Rightarrow> startMs + timeoutMs < clock k
        \<and> map_option jrs_state (jobStatus (obs k) owner jobName runId) \<notin> {Some JSucceeded, Some JFailed}
    | Inr w \<Rightarrow> (\<exists>st s run. obs k = Some st \<and> s \<in> set (ns_services st) \<and> ss_project s = owner
        \<and> ss_service s = jobName \<and> ss_jobRun s = Some run \<and> jrs_id run = runId
        \<and> jrs_state run = (if jw_ok w then JSucceeded else JFailed) \<and> jw_exitCode w = jrs_exitCode run)"
  proof (cases "jobStatus (obs k) owner jobName runId")
    case None
    with r(1) show ?thesis by (auto simp: job_step_def Let_def split: if_splits)
  next
    case (Some run)
    from j [OF Some] obtain st s where s: "obs k = Some st" "s \<in> set (ns_services st)" "ss_project s = owner"
      "ss_service s = jobName" "ss_jobRun s = Some run" "jrs_id run = runId" by blast
    show ?thesis
    proof (cases "jrs_state run = JSucceeded \<or> jrs_state run = JFailed")
      case True
      with r(1) Some obtain w where w: "r = Inr w" "jrs_state run = (if jw_ok w then JSucceeded else JFailed)"
        "jw_exitCode w = jrs_exitCode run" by (auto simp: job_step_def Let_def)
      with s show ?thesis unfolding w(1) sum.case by blast
    next
      case False
      with r(1) Some show ?thesis by (auto simp: job_step_def Let_def split: if_splits)
    qed
  qed
  with r(2) show ?thesis unfolding waitForJob_def by blast
qed

section \<open>Examples\<close>

definition steady_clock :: "nat \<Rightarrow> int" where
  "steady_clock i = 1000 + 5000 * int i"

definition example_target :: watch_target where
  "example_target = \<lparr>wt_nodeId = ''a'', wt_project = ''shop'', wt_service = ''web'', wt_image = ''img:2'',
     wt_expectedReplicas = 1, wt_previousContainerIds = [''old'']\<rparr>"

definition example_obs :: "nat \<Rightarrow> string \<Rightarrow> node_status option" where
  "example_obs i n = Some (quiet_status n ''t'' [running_service ''shop'' ''web'' [running_replica ''new'' ''img:2'']])"

lemma steady_clock_steps: "steady_clock i + 3000 \<le> steady_clock (Suc i)" "steady_clock i + 4000 \<le> steady_clock (Suc i)"
  by (simp_all add: steady_clock_def)

lemma example_converges:
  "waitForConvergence [example_target] 0 1000 example_obs steady_clock
   = Some [evaluate (example_obs 0 ''a'') example_target]" (is ?w)
  "wr_ok (evaluate (example_obs 0 ''a'') example_target)" (is ?ok)
proof -
  have n: "wt_nodeId example_target = ''a''" by (simp add: example_target_def)
  show ok: ?ok by code_simp
  show ?w unfolding waitForConvergence_def
    by (rule poll_hit) (simp add: watch_step_def n ok)
qed

lemma convergence_honest_witness:
  "\<exists>i. converged (example_obs i ''a'') example_target"
proof -
  have n: "wt_nodeId example_target = ''a''" by (simp add: example_target_def)
  from convergence_honest [OF example_converges(1)] example_converges(2) show ?thesis
    by (auto simp: n)
qed

lemma convergence_returns_witness:
  "\<exists>k rs. int k \<le> 1 \<and> waitForConvergence [example_target] 0 1000 (\<lambda>_ _. None) steady_clock = Some rs"
proof -
  have "0 \<le> steady_clock 0" "(0::int) \<le> 1000" by (simp_all add: steady_clock_def)
  from convergence_returns [OF steady_clock_steps(1) this, of "[example_target]" "\<lambda>_ _. None"]
  show ?thesis by auto
qed

lemma drain_honest_witness:
  "\<exists>i r. waitForDrain iso_parse [''a''] ''shop'' None 0 1000 (\<lambda>_ _. Some (Some (quiet_status ''a'' ''t'' []))) steady_clock
     (\<lambda>_ _. 0) = Some r"
proof -
  have "0 \<le> steady_clock 0" "(0::int) \<le> 1000" by (simp_all add: steady_clock_def)
  from drain_honest [OF steady_clock_steps(2) this, of iso_parse "[''a'']" "''shop''" None
    "\<lambda>_ _. Some (Some (quiet_status ''a'' ''t'' []))" "\<lambda>_ _. 0"]
  show ?thesis by blast
qed

lemma job_wait_honest_witness:
  "\<exists>i r. waitForJob ''shop'' ''migrate'' ''r1'' 0 1000 (\<lambda>_. None) steady_clock = Some (Inl r) \<and> 1000 < steady_clock i"
proof -
  have "0 \<le> steady_clock 0" "(0::int) \<le> 1000" by (simp_all add: steady_clock_def)
  from job_wait_honest [OF steady_clock_steps(1) this, of "''shop''" "''migrate''" "''r1''" "\<lambda>_. None"]
  obtain k r where w: "waitForJob ''shop'' ''migrate'' ''r1'' 0 1000 (\<lambda>_. None) steady_clock = Some r"
    "case r of Inl _ \<Rightarrow> 1000 < steady_clock k | Inr w \<Rightarrow> False"
    by (fastforce split: sum.splits)
  then obtain e where "r = Inl e" by (cases r) auto
  with w show ?thesis by auto
qed

end
