(* ===== verification/Rebalance.thy ===== *)
theory Rebalance
  imports Placement Publish Watch
begin

text \<open>
  Moving a footprint over the current nodes: the difference of two placements
  (\<open>packages/cli/src/deploy/rebalance-plan.ts\<close>) and the publication of the new one in the order gainers,
  reducers, vacated nodes (\<open>applyRebalance\<close> of \<open>commands/rebalance.ts\<close>).
\<close>

section \<open>Placements and their difference\<close>

text \<open>A service and its replicas per node; JS maps keep insertion order.\<close>

type_synonym service_placement = "string \<times> (string, int) assoc"

definition add_occupancy_cell ::
  "string \<Rightarrow> node_occupancy \<Rightarrow> (string, (string, int) assoc) assoc \<Rightarrow> (string, (string, int) assoc) assoc" where
  "add_occupancy_cell nodeId occ m =
     assoc_set (no_service occ) (assoc_set nodeId (no_replicas occ) (assoc_get_or [] m (no_service occ))) m"

definition currentPlacement :: "deployed_placement \<Rightarrow> service_placement list" where
  "currentPlacement snapshot =
     fold (\<lambda>(nodeId, occs) m. fold (add_occupancy_cell nodeId) occs m) (dp_byNode snapshot) []"

record rebalance_change =
  rc_service :: string
  rc_node :: string
  rc_from :: int
  rc_to :: int

record rebalance_diff =
  rd_changed :: bool
  rd_changes :: "rebalance_change list"
  rd_vacatedNodes :: "string list"

definition occupancyByNode :: "service_placement list \<Rightarrow> (string, int) assoc" where
  "occupancyByNode placement =
     fold (\<lambda>(_, byNode) total. fold (\<lambda>(node, replicas) t.
        if replicas \<le> 0 then t else assoc_set node (assoc_get_or 0 t node + replicas) t) byNode total) placement []"

definition bySvc :: "service_placement list \<Rightarrow> (string, (string, int) assoc) assoc" where
  "bySvc placement =
     fold (\<lambda>(service, byNode) m.
        assoc_set service (fold (\<lambda>(node, replicas) c. if 0 < replicas then assoc_set node replicas c else c) byNode []) m)
       placement []"

definition service_changes ::
  "(string, (string, int) assoc) assoc \<Rightarrow> (string, (string, int) assoc) assoc \<Rightarrow> string \<Rightarrow> rebalance_change list" where
  "service_changes cur planned service =
     (let a = assoc_get_or [] cur service; b = assoc_get_or [] planned service
      in List.map_filter (\<lambda>node.
           let x = assoc_get_or 0 a node; y = assoc_get_or 0 b node
           in if x \<noteq> y then Some \<lparr>rc_service = service, rc_node = node, rc_from = x, rc_to = y\<rparr> else None)
         (js_dedup (map fst a @ map fst b)))"

definition diffPlacement :: "service_placement list \<Rightarrow> service_placement list \<Rightarrow> rebalance_diff" where
  "diffPlacement current planned =
     (let cur = bySvc current; pl = bySvc planned;
          changes = concat (map (service_changes cur pl) (js_dedup (map fst cur @ map fst pl)));
          before = occupancyByNode current; after = occupancyByNode planned
      in \<lparr>rd_changed = (changes \<noteq> []),
          rd_changes = sort_key (\<lambda>c. (coll_key (rc_service c), coll_key (rc_node c))) changes,
          rd_vacatedNodes = sort (filter (\<lambda>n. n \<notin> set (map fst after)) (map fst before))\<rparr>)"

text \<open>How many replicas of a service a placement puts on a node; not positive counts as none.\<close>

definition replicas_at :: "service_placement list \<Rightarrow> string \<Rightarrow> string \<Rightarrow> int" where
  "replicas_at p service node = assoc_get_or 0 (assoc_get_or [] (bySvc p) service) node"

section \<open>The difference is exact\<close>

lemma sort_key_eq_Nil [simp]: "sort_key f xs = [] \<longleftrightarrow> xs = []"
  using length_sort [of f xs] by (metis length_0_conv)

lemma assoc_get_or_None: "map_of m k = None \<Longrightarrow> assoc_get_or d m k = d"
  by (simp add: assoc_get_or_def)

lemma assoc_get_or_key: "assoc_get_or d m k \<noteq> d \<Longrightarrow> k \<in> set (map fst m)"
  by (cases "map_of m k") (auto simp: assoc_get_or_def dest!: map_of_SomeD intro: rev_image_eqI)

lemma service_changes_set:
  "c \<in> set (service_changes cur pl s) \<longleftrightarrow>
     rc_service c = s \<and> rc_from c = assoc_get_or 0 (assoc_get_or [] cur s) (rc_node c)
     \<and> rc_to c = assoc_get_or 0 (assoc_get_or [] pl s) (rc_node c) \<and> rc_from c \<noteq> rc_to c"
    (is "?l \<longleftrightarrow> ?r")
proof
  assume ?l
  then show ?r by (auto simp: service_changes_def Let_def set_map_filter_Some split: if_splits)
next
  assume r: ?r
  let ?a = "assoc_get_or [] cur s" and ?b = "assoc_get_or [] pl s"
  have "assoc_get_or 0 ?a (rc_node c) \<noteq> 0 \<or> assoc_get_or 0 ?b (rc_node c) \<noteq> 0" using r by auto
  then have "rc_node c \<in> set (js_dedup (map fst ?a @ map fst ?b))"
    using assoc_get_or_key [of 0 ?a "rc_node c"] assoc_get_or_key [of 0 ?b "rc_node c"] by auto
  moreover have "c = \<lparr>rc_service = s, rc_node = rc_node c, rc_from = rc_from c, rc_to = rc_to c\<rparr>" using r by simp
  ultimately show ?l using r
    unfolding service_changes_def Let_def set_map_filter_Some by (intro CollectI bexI [of _ "rc_node c"]) auto
qed

lemma diff_changes_set:
  "c \<in> set (rd_changes (diffPlacement current planned)) \<longleftrightarrow>
     rc_from c = replicas_at current (rc_service c) (rc_node c) \<and> rc_to c = replicas_at planned (rc_service c) (rc_node c)
     \<and> rc_from c \<noteq> rc_to c"
proof -
  let ?c = "bySvc current" and ?p = "bySvc planned"
  have k: "rc_service c \<in> set (map fst ?c @ map fst ?p)" if "c \<in> set (service_changes ?c ?p (rc_service c))"
  proof (rule ccontr)
    assume n: "\<not> ?thesis"
    then have "assoc_get_or [] ?c (rc_service c) = []" "assoc_get_or [] ?p (rc_service c) = []"
      using assoc_get_or_key [of "[]" ?c "rc_service c"] assoc_get_or_key [of "[]" ?p "rc_service c"] by auto
    with that show False by (auto simp: service_changes_set assoc_get_or_def)
  qed
  have "c \<in> set (rd_changes (diffPlacement current planned)) \<longleftrightarrow>
      (\<exists>s \<in> set (map fst ?c @ map fst ?p). c \<in> set (service_changes ?c ?p s))"
    by (simp only: diffPlacement_def Let_def rebalance_diff.select_convs set_sort set_concat set_map set_js_dedup set_append) blast
  also have "\<dots> \<longleftrightarrow> c \<in> set (service_changes ?c ?p (rc_service c))"
  proof
    assume "\<exists>s \<in> set (map fst ?c @ map fst ?p). c \<in> set (service_changes ?c ?p s)"
    then obtain s where s: "c \<in> set (service_changes ?c ?p s)" by blast
    then have "rc_service c = s" by (simp add: service_changes_set)
    with s show "c \<in> set (service_changes ?c ?p (rc_service c))" by simp
  qed (use k in blast)
  finally show ?thesis by (simp add: service_changes_set replicas_at_def)
qed

lemma service_changes_nodes: "distinct (map rc_node (service_changes cur pl s))"
proof -
  have "distinct (map rc_node (List.map_filter (\<lambda>n. if P n then Some \<lparr>rc_service = s, rc_node = n, rc_from = f n, rc_to = g n\<rparr> else None) ns))"
    if "distinct ns" for P f g ns
    using that by (induction ns) (auto simp: List.map_filter_simps set_map_filter_Some split: if_splits)
  then show ?thesis unfolding service_changes_def Let_def by simp
qed

lemma diff_cells_distinct: "distinct (map (\<lambda>c. (rc_service c, rc_node c)) (rd_changes (diffPlacement current planned)))"
proof -
  let ?ch = "service_changes (bySvc current) (bySvc planned)"
  have one: "distinct (map (\<lambda>c. (rc_service c, rc_node c)) (?ch s))" for s
    using service_changes_nodes [of "bySvc current" "bySvc planned" s]
    by (simp add: distinct_map inj_on_def)
  have "distinct ss \<Longrightarrow> distinct (map (\<lambda>c. (rc_service c, rc_node c)) (concat (map ?ch ss)))" for ss
  proof (induction ss)
    case (Cons s ss)
    have "(rc_service c, rc_node c) \<noteq> (rc_service d, rc_node d)"
      if "c \<in> set (?ch s)" "d \<in> set (concat (map ?ch ss))" for c d
      using that Cons.prems by (auto simp: service_changes_set)
    with Cons one [of s] show ?case by (auto simp: image_iff)
  qed simp
  then show ?thesis by (simp add: diffPlacement_def Let_def distinct_map_sort_key)
qed

definition wf_placement :: "service_placement list \<Rightarrow> bool" where
  "wf_placement p \<longleftrightarrow> distinct (map fst p) \<and> list_all (\<lambda>(_, byNode). distinct (map fst byNode)) p"

lemma positive_cells:
  "distinct (map fst bn) \<Longrightarrow>
   map_of (fold (\<lambda>(node, replicas) c. if 0 < replicas then assoc_set node replicas c else c) bn acc) n =
     (if n \<in> fst ` set (filter (\<lambda>(_, r). 0 < r) bn) then map_of bn n else map_of acc n)"
  for acc :: "(string, int) assoc"
proof (induction bn arbitrary: acc)
  case (Cons x bn)
  obtain m r where x: "x = (m, r)" by (cases x)
  show ?case
    using Cons.IH [of "if 0 < r then assoc_set m r acc else acc"] Cons.prems
    by (auto simp: x map_of_assoc_set image_iff)
qed simp

lemma bySvc_lookup:
  assumes "distinct (map fst p)"
  shows "map_of (fold (\<lambda>(service, byNode) m. assoc_set service (f byNode) m) p acc) s =
    (case map_of p s of Some bn \<Rightarrow> Some (f bn) | None \<Rightarrow> map_of acc s)"
  using assms
proof (induction p arbitrary: acc)
  case (Cons x p)
  obtain t bn where x: "x = (t, bn)" by (cases x)
  have "map_of p t = None" using Cons.prems x by (auto simp: map_of_eq_None_iff)
  with Cons show ?case by (auto simp: x map_of_assoc_set split: option.splits)
qed simp

text \<open>What a placement says of a cell.\<close>

lemma replicas_at_eq:
  assumes "wf_placement p"
  shows "replicas_at p s n = (case map_of p s of None \<Rightarrow> 0
    | Some bn \<Rightarrow> (case map_of bn n of None \<Rightarrow> 0 | Some r \<Rightarrow> max 0 r))"
proof (cases "map_of p s")
  case None
  with assms show ?thesis
    by (simp add: replicas_at_def bySvc_def assoc_get_or_def bySvc_lookup wf_placement_def)
next
  case (Some bn)
  have d: "distinct (map fst p)" "distinct (map fst bn)"
    using assms map_of_SomeD [OF Some] by (auto simp: wf_placement_def list_all_iff)
  have m: "n \<in> fst ` set (filter (\<lambda>(_, r). 0 < r) bn) \<longleftrightarrow> (\<exists>r. map_of bn n = Some r \<and> 0 < r)"
    using d(2) by (force simp: map_of_eq_Some_iff)
  show ?thesis
    unfolding replicas_at_def bySvc_def assoc_get_or_def bySvc_lookup [OF d(1)] Some option.case
      positive_cells [OF d(2)] m by (auto split: option.splits)
qed

lemma occupancy_keys:
  "set (map fst (occupancyByNode p)) = {n. \<exists>s bn r. (s, bn) \<in> set p \<and> (n, r) \<in> set bn \<and> 0 < r}"
proof -
  have inner: "set (map fst (fold (\<lambda>(node, replicas) t. if replicas \<le> 0 then t
        else assoc_set node (assoc_get_or 0 t node + replicas) t) bn acc)) =
      set (map fst acc) \<union> {n. \<exists>r. (n, r) \<in> set bn \<and> 0 < r}" for bn :: "(string \<times> int) list" and acc
  proof (induction bn arbitrary: acc)
    case (Cons x bn)
    obtain m r where x: "x = (m, r)" by (cases x)
    show ?case
      by (cases "r \<le> 0") (use Cons.IH in \<open>auto simp: x keys_assoc_set simp del: set_map\<close>)
  qed simp
  have "set (map fst (fold (\<lambda>(_, byNode) total. fold (\<lambda>(node, replicas) t. if replicas \<le> 0 then t
        else assoc_set node (assoc_get_or 0 t node + replicas) t) byNode total) p acc)) =
      set (map fst acc) \<union> {n. \<exists>s bn r. (s, bn) \<in> set p \<and> (n, r) \<in> set bn \<and> 0 < r}" for acc
  proof (induction p arbitrary: acc)
    case (Cons x p)
    obtain t bn where x: "x = (t, bn)" by (cases x)
    have "{n. \<exists>s bn r. (s, bn) \<in> set (x # p) \<and> (n, r) \<in> set bn \<and> 0 < r} =
        {n. \<exists>r. (n, r) \<in> set bn \<and> 0 < r} \<union> {n. \<exists>s bn r. (s, bn) \<in> set p \<and> (n, r) \<in> set bn \<and> 0 < r}"
      by (auto simp: x)
    then show ?case using Cons.IH by (simp add: x inner Un_assoc del: set_map)
  qed simp
  from this [of "[]"] show ?thesis by (simp add: occupancyByNode_def)
qed

lemma occupancy_keys_replicas:
  assumes "wf_placement p"
  shows "n \<in> set (map fst (occupancyByNode p)) \<longleftrightarrow> (\<exists>s. 0 < replicas_at p s n)"
proof -
  have d: "distinct (map fst p)" using assms by (simp add: wf_placement_def)
  have b: "distinct (map fst bn)" if "(s, bn) \<in> set p" for s bn
    using assms that by (auto simp: wf_placement_def list_all_iff)
  have "0 < replicas_at p s n \<longleftrightarrow> (\<exists>bn r. (s, bn) \<in> set p \<and> (n, r) \<in> set bn \<and> 0 < r)" for s
  proof (cases "map_of p s")
    case None
    then have "(s, bn) \<notin> set p" for bn by (auto simp: map_of_eq_None_iff rev_image_eqI)
    with None show ?thesis by (simp add: replicas_at_eq [OF assms])
  next
    case (Some bn)
    have u: "(s, bn') \<in> set p \<longleftrightarrow> bn' = bn" for bn'
      using map_of_eq_Some_iff [OF d, of s bn'] Some by auto
    then have "distinct (map fst bn)" using b [of s bn] by simp
    then have "(n, r) \<in> set bn \<longleftrightarrow> map_of bn n = Some r" for r by simp
    with Some u show ?thesis by (auto simp: replicas_at_eq [OF assms] split: option.splits)
  qed
  then show ?thesis unfolding occupancy_keys by auto
qed

text \<open>
  The plan of a rebalance is the exact difference of two placements: a cell is listed, once, exactly
  when its replica counts differ, with both counts; the plan is empty exactly when nothing moves; and the
  vacated nodes are those that hosted something before and host nothing after.
\<close>

theorem diff_exact:
  assumes "wf_placement current" and "wf_placement planned"
  shows "(\<forall>c. c \<in> set (rd_changes (diffPlacement current planned)) \<longleftrightarrow>
        rc_from c = replicas_at current (rc_service c) (rc_node c) \<and> rc_to c = replicas_at planned (rc_service c) (rc_node c)
        \<and> rc_from c \<noteq> rc_to c)
    \<and> distinct (map (\<lambda>c. (rc_service c, rc_node c)) (rd_changes (diffPlacement current planned)))
    \<and> (rd_changed (diffPlacement current planned) \<longleftrightarrow> (\<exists>s n. replicas_at current s n \<noteq> replicas_at planned s n))
    \<and> (\<forall>n. n \<in> set (rd_vacatedNodes (diffPlacement current planned)) \<longleftrightarrow>
        (\<exists>s. 0 < replicas_at current s n) \<and> \<not> (\<exists>s. 0 < replicas_at planned s n))"
proof -
  let ?d = "diffPlacement current planned"
  have "rd_changed ?d \<longleftrightarrow> rd_changes ?d \<noteq> []"
    by (simp only: diffPlacement_def Let_def rebalance_diff.select_convs sort_key_eq_Nil)
  then have "rd_changed ?d \<longleftrightarrow> set (rd_changes ?d) \<noteq> {}" by simp
  also have "\<dots> \<longleftrightarrow> (\<exists>c. c \<in> set (rd_changes ?d))" by (simp only: ex_in_conv)
  also have "\<dots> \<longleftrightarrow> (\<exists>s n. replicas_at current s n \<noteq> replicas_at planned s n)"
    unfolding diff_changes_set
  proof (intro iffI; elim exE conjE)
    fix s n assume "replicas_at current s n \<noteq> replicas_at planned s n"
    then show "\<exists>c :: rebalance_change. rc_from c = replicas_at current (rc_service c) (rc_node c) \<and>
        rc_to c = replicas_at planned (rc_service c) (rc_node c) \<and> rc_from c \<noteq> rc_to c"
      by (intro exI [of _ "\<lparr>rc_service = s, rc_node = n, rc_from = replicas_at current s n, rc_to = replicas_at planned s n\<rparr>"]) simp
  qed auto
  finally have c: "rd_changed ?d \<longleftrightarrow> (\<exists>s n. replicas_at current s n \<noteq> replicas_at planned s n)" .
  have v: "n \<in> set (rd_vacatedNodes ?d) \<longleftrightarrow>
      n \<in> set (map fst (occupancyByNode current)) \<and> n \<notin> set (map fst (occupancyByNode planned))" for n
    by (simp add: diffPlacement_def Let_def)
  show ?thesis
    using diff_changes_set diff_cells_distinct c v occupancy_keys_replicas [OF assms(1)] occupancy_keys_replicas [OF assms(2)]
    by blast
qed

section \<open>Publishing the new placement\<close>

record resolved =
  rs_placements :: "placement list"
  rs_edge :: "string option"
  rs_domain :: "string option"

definition resolveDrainSet :: "string option \<Rightarrow> string list option \<Rightarrow> string set" where
  "resolveDrainSet drain drainNodes =
     (case drain of None \<Rightarrow> {} | Some d \<Rightarrow> {d}) \<union> (case drainNodes of None \<Rightarrow> {} | Some ns \<Rightarrow> set ns)"

definition plannedPlacement :: "(string, resolved) assoc \<Rightarrow> service_placement list" where
  "plannedPlacement rs =
     map (\<lambda>(service, r). (service, assoc_of (map (\<lambda>p. (pl_nodeId p, pl_replicas p)) (rs_placements r)))) rs"

text \<open>The net change of a node, over all services.\<close>

definition nodeDelta :: "rebalance_change list \<Rightarrow> (string, int) assoc" where
  "nodeDelta changes =
     fold (\<lambda>c m. assoc_set (rc_node c) (assoc_get_or 0 m (rc_node c) + (rc_to c - rc_from c)) m) changes []"

definition gainers_first :: "rebalance_change list \<Rightarrow> (string, 'a) assoc \<Rightarrow> (string, 'a) assoc" where
  "gainers_first changes nodePlacements =
     sort_by (\<lambda>x y. assoc_get_or 0 (nodeDelta changes) (fst y) \<le> assoc_get_or 0 (nodeDelta changes) (fst x)) nodePlacements"

datatype rebalance_error =
    NodeGone string
  | ConfigFailed deploy_error
  | PublishFailed publish_error
  | RegistryUnreadable string

text \<open>The service configurations of every node, in the order the nodes are first met.\<close>

fun place_on ::
  "(placement \<Rightarrow> rebalance_error + service_config) \<Rightarrow> placement list \<Rightarrow> (string, service_config list) assoc
   \<Rightarrow> rebalance_error + (string, service_config list) assoc" where
  "place_on mk [] m = Inr m"
| "place_on mk (p # ps) m =
     res_bind (mk p) (\<lambda>c. place_on mk ps (assoc_set (pl_nodeId p) (assoc_get_or [] m (pl_nodeId p) @ [c]) m))"

fun group_by_node ::
  "(string \<Rightarrow> resolved \<Rightarrow> placement \<Rightarrow> rebalance_error + service_config) \<Rightarrow> (string, resolved) assoc
   \<Rightarrow> (string, service_config list) assoc \<Rightarrow> rebalance_error + (string, service_config list) assoc" where
  "group_by_node mk [] m = Inr m"
| "group_by_node mk ((name, r) # rs) m = res_bind (place_on (mk name r) (rs_placements r) m) (group_by_node mk rs)"

definition service_for ::
  "aws_env \<Rightarrow> string \<Rightarrow> string option \<Rightarrow> service_decl list \<Rightarrow> (string, string) assoc \<Rightarrow> string \<Rightarrow> resolved \<Rightarrow> placement
   \<Rightarrow> rebalance_error + service_config" where
  "service_for aws owner env decls images name r p =
     (case toServiceConfig aws owner (the (map_of (rev (map (\<lambda>d. (sd_name d, d)) decls)) name)) (the (map_of images name)) (rs_domain r)
             (pl_replicas p) (rs_edge r) env None of
        Inl e \<Rightarrow> Inl (ConfigFailed e) | Inr c \<Rightarrow> Inr c)"

definition entryFor :: "aws_env \<Rightarrow> (string, node_entry) assoc \<Rightarrow> state_bucket \<Rightarrow> string \<Rightarrow> rebalance_error + node_entry option" where
  "entryFor aws nodes s n =
     (case map_of nodes n of
        Some e \<Rightarrow> Inr (Some e)
      | None \<Rightarrow>
          (case s (nodeRegistryKey (aws_clusterId aws) n) of
             None \<Rightarrow> Inr None
           | Some raw \<Rightarrow> (case parseNodeRegistryEntry raw of Some e \<Rightarrow> Inr (Some e) | None \<Rightarrow> Inl (RegistryUnreadable n))))"

fun resolve_entries ::
  "(string \<Rightarrow> rebalance_error + node_entry option) \<Rightarrow> string list \<Rightarrow> rebalance_error + node_entry list" where
  "resolve_entries look [] = Inr []"
| "resolve_entries look (n # ns) =
     res_bind (look n) (\<lambda>e. case e of None \<Rightarrow> Inl (NodeGone n)
       | Some x \<Rightarrow> res_bind (resolve_entries look ns) (\<lambda>xs. Inr (x # xs)))"

fun publish_all ::
  "aws_env \<Rightarrow> string \<Rightarrow> (nat \<Rightarrow> string) \<Rightarrow> (nat \<Rightarrow> string) \<Rightarrow> (nat \<Rightarrow> schedule) \<Rightarrow> nat
   \<Rightarrow> (string \<times> node_entry \<times> service_config list) list \<Rightarrow> state_bucket \<Rightarrow> state_bucket \<times> (rebalance_error + unit)" where
  "publish_all aws owner clock stamp interfere k [] s = (s, Inr ())"
| "publish_all aws owner clock stamp interfere k ((n, e, ss) # rest) s =
     (case publishDesired aws n e owner ss False clock stamp (interfere k) s of
        (s', Inl err) \<Rightarrow> (s', Inl (PublishFailed err))
      | (s', Inr _) \<Rightarrow> publish_all aws owner clock stamp interfere (k + 1) rest s')"

text \<open>A vacated node that is gone is skipped.\<close>

fun clean_vacated ::
  "aws_env \<Rightarrow> string \<Rightarrow> (state_bucket \<Rightarrow> string \<Rightarrow> rebalance_error + node_entry option) \<Rightarrow> (nat \<Rightarrow> string) \<Rightarrow> (nat \<Rightarrow> string)
   \<Rightarrow> (nat \<Rightarrow> schedule) \<Rightarrow> nat \<Rightarrow> string list \<Rightarrow> state_bucket \<Rightarrow> state_bucket \<times> (rebalance_error + unit)" where
  "clean_vacated aws owner look clock stamp interfere k [] s = (s, Inr ())"
| "clean_vacated aws owner look clock stamp interfere k (n # ns) s =
     (case look s n of
        Inl err \<Rightarrow> (s, Inl err)
      | Inr None \<Rightarrow> clean_vacated aws owner look clock stamp interfere k ns s
      | Inr (Some e) \<Rightarrow>
          (case publishDesired aws n e owner [] False clock stamp (interfere k) s of
             (s', Inl err) \<Rightarrow> (s', Inl (PublishFailed err))
           | (s', Inr _) \<Rightarrow> clean_vacated aws owner look clock stamp interfere (k + 1) ns s'))"

definition edge_domain_lists :: "(string, resolved) assoc \<Rightarrow> (string \<times> string list) list" where
  "edge_domain_lists rs =
     map (\<lambda>e. (e, List.map_filter (\<lambda>(_, r). if rs_edge r = Some e \<and> rs_domain r \<noteq> None \<and> rs_domain r \<noteq> Some []
                     then rs_domain r else None) rs))
       (js_dedup (List.map_filter (\<lambda>(_, r). if rs_edge r = Some [] then None else rs_edge r) rs))"

fun publish_edges ::
  "aws_env \<Rightarrow> (nat \<Rightarrow> string) \<Rightarrow> (nat \<Rightarrow> schedule) \<Rightarrow> nat \<Rightarrow> (string \<times> string list) list \<Rightarrow> state_bucket \<Rightarrow> state_bucket" where
  "publish_edges aws stamp interfere k [] s = s"
| "publish_edges aws stamp interfere k ((e, ds) # es) s =
     publish_edges aws stamp interfere (k + 1) es (publishEdgeConfig aws e ds stamp (interfere k) s)"

definition applyRebalance ::
  "aws_env \<Rightarrow> string \<Rightarrow> string option \<Rightarrow> service_decl list \<Rightarrow> (string, resolved) assoc \<Rightarrow> rebalance_diff
   \<Rightarrow> (string, node_entry) assoc \<Rightarrow> (string, string) assoc \<Rightarrow> (nat \<Rightarrow> string) \<Rightarrow> (nat \<Rightarrow> string) \<Rightarrow> (nat \<Rightarrow> schedule)
   \<Rightarrow> state_bucket \<Rightarrow> state_bucket \<times> (rebalance_error + unit)" where
  "applyRebalance aws owner env decls rs diff nodes images clock stamp interfere s =
     (case group_by_node (service_for aws owner env decls images) rs [] of
        Inl err \<Rightarrow> (s, Inl err)
      | Inr placed \<Rightarrow>
          (let ordered = gainers_first (rd_changes diff) placed
           in case resolve_entries (entryFor aws nodes s) (map fst ordered) of
                Inl err \<Rightarrow> (s, Inl err)
              | Inr entries \<Rightarrow>
                  (case publish_all aws owner clock stamp interfere 0
                          (map (\<lambda>((n, ss), e). (n, e, ss)) (zip ordered entries)) s of
                     (s1, Inl err) \<Rightarrow> (s1, Inl err)
                   | (s1, Inr _) \<Rightarrow>
                       (case clean_vacated aws owner (entryFor aws nodes) clock stamp interfere (length ordered)
                               (rd_vacatedNodes diff) s1 of
                          (s2, Inl err) \<Rightarrow> (s2, Inl err)
                        | (s2, Inr _) \<Rightarrow>
                            (publish_edges aws stamp interfere (length ordered + length (rd_vacatedNodes diff))
                               (edge_domain_lists rs) s2, Inr ())))))"

section \<open>Gainers first: the footprint never shrinks on the way\<close>

text \<open>The order in which \<open>applyRebalance\<close> publishes, and the replicas of the footprint on a node.\<close>

definition publication_order :: "rebalance_diff \<Rightarrow> (string, 'a) assoc \<Rightarrow> string list" where
  "publication_order diff placed = map fst (gainers_first (rd_changes diff) placed) @ rd_vacatedNodes diff"

definition footprint_on :: "service_placement list \<Rightarrow> string \<Rightarrow> int" where
  "footprint_on p n = assoc_get_or 0 (occupancyByNode p) n"

lemma falling_prefix:
  "sorted_wrt (\<lambda>a b. b \<le> a) zs \<Longrightarrow> min 0 (sum_list zs) \<le> sum_list (take k zs)" for zs :: "int list"
proof (induction zs arbitrary: k)
  case (Cons z zs)
  show ?case
  proof (cases k)
    case (Suc j)
    show ?thesis
    proof (cases "0 \<le> z")
      case True
      have "min 0 (sum_list zs) \<le> sum_list (take j zs)" using Cons by simp
      with True show ?thesis by (auto simp: Suc)
    next
      case False
      then have "\<forall>x \<in> set zs. x \<le> 0" using Cons.prems by fastforce
      then have "sum_list (drop j zs) \<le> 0" by (intro sum_list_nonpos) (auto dest: in_set_dropD)
      moreover have "sum_list zs = sum_list (take j zs) + sum_list (drop j zs)"
        by (metis append_take_drop_id sum_list_append)
      ultimately show ?thesis by (simp add: Suc)
    qed
  qed simp
qed simp

lemma falling_then_negative:
  fixes zs :: "int list"
  assumes "sorted_wrt (\<lambda>a b. b \<le> a) zs" and "\<forall>y \<in> set ys. y \<le> 0"
  shows "min 0 (sum_list (zs @ ys)) \<le> sum_list (take k (zs @ ys))"
proof -
  have y: "sum_list ys \<le> 0" "sum_list (drop j ys) \<le> 0" for j
    using assms(2) by (auto intro!: sum_list_nonpos dest: in_set_dropD)
  show ?thesis
  proof (cases "k \<le> length zs")
    case True
    then show ?thesis using falling_prefix [OF assms(1), of k] y(1) by simp
  next
    case False
    then obtain j where j: "k = length zs + j" by (metis le_add_diff_inverse nat_le_linear)
    have "sum_list ys = sum_list (take j ys) + sum_list (drop j ys)"
      by (metis append_take_drop_id sum_list_append)
    with y(2) [of j] show ?thesis by (simp add: j)
  qed
qed

lemma occupancy_value:
  assumes "wf_placement p"
  shows "footprint_on p n = sum_by (\<lambda>(s, bn). max 0 (assoc_get_or 0 bn n)) p"
proof -
  have inner: "distinct (map fst bn) \<Longrightarrow>
      assoc_get_or 0 (fold (\<lambda>(node, replicas) t. if replicas \<le> 0 then t
        else assoc_set node (assoc_get_or 0 t node + replicas) t) bn acc) n =
      assoc_get_or 0 acc n + max 0 (assoc_get_or 0 bn n)" for bn :: "(string \<times> int) list" and acc
  proof (induction bn arbitrary: acc)
    case (Cons x bn)
    obtain m r where x: "x = (m, r)" by (cases x)
    have "map_of bn m = None" using Cons.prems x by (simp add: map_of_eq_None_iff)
    with Cons show ?case
      by (cases "r \<le> 0"; cases "m = n") (auto simp: x assoc_get_or_def map_of_assoc_set)
  qed (simp add: assoc_get_or_def)
  have "wf_placement p \<Longrightarrow> assoc_get_or 0 (fold (\<lambda>(_, byNode) total. fold (\<lambda>(node, replicas) t. if replicas \<le> 0 then t
        else assoc_set node (assoc_get_or 0 t node + replicas) t) byNode total) p acc) n =
      assoc_get_or 0 acc n + sum_by (\<lambda>(s, bn). max 0 (assoc_get_or 0 bn n)) p" for acc
  proof (induction p arbitrary: acc)
    case (Cons x p)
    obtain t bn where x: "x = (t, bn)" by (cases x)
    from Cons.prems have "wf_placement p" "distinct (map fst bn)" by (auto simp: wf_placement_def x)
    with Cons.IH inner show ?case by (simp add: x)
  qed simp
  from this [OF assms, of "[]"] show ?thesis
    by (simp add: footprint_on_def occupancyByNode_def assoc_get_or_def)
qed

lemma unplaced: "wf_placement p \<Longrightarrow> s \<notin> set (map fst p) \<Longrightarrow> replicas_at p s n = 0"
  using map_of_eq_None_iff [of p s] by (simp add: replicas_at_eq)

lemma footprint_on_sum:
  assumes "wf_placement p" and "finite S" and "set (map fst p) \<subseteq> S"
  shows "footprint_on p n = (\<Sum>s\<in>S. replicas_at p s n)"
proof -
  have d: "distinct (map fst p)" using assms(1) by (simp add: wf_placement_def)
  have r: "replicas_at p s n = max 0 (assoc_get_or 0 bn n)" if "(s, bn) \<in> set p" for s bn
    using that d by (auto simp: replicas_at_eq [OF assms(1)] assoc_get_or_def map_of_eq_Some_iff split: option.splits)
  have "footprint_on p n = (\<Sum>x\<leftarrow>p. replicas_at p (fst x) n)"
    unfolding occupancy_value [OF assms(1)] sum_by_eq using r by (intro arg_cong [where f = sum_list] map_cong) auto
  also have "\<dots> = (\<Sum>s\<leftarrow>map fst p. replicas_at p s n)" by (simp add: comp_def)
  also have "\<dots> = (\<Sum>s\<in>set (map fst p). replicas_at p s n)" by (rule sum_list_distinct_conv_sum_set [OF d])
  also have "\<dots> = (\<Sum>s\<in>S. replicas_at p s n)"
    using unplaced [OF assms(1)] by (intro sum.mono_neutral_left [OF assms(2,3)]) auto
  finally show ?thesis .
qed

lemma nodeDelta_value:
  "assoc_get_or 0 (nodeDelta cs) n = sum_by (\<lambda>c. rc_to c - rc_from c) (filter (\<lambda>c. rc_node c = n) cs)"
proof -
  have "assoc_get_or 0 (fold (\<lambda>c m. assoc_set (rc_node c) (assoc_get_or 0 m (rc_node c) + (rc_to c - rc_from c)) m) cs acc) n =
      assoc_get_or 0 acc n + sum_by (\<lambda>c. rc_to c - rc_from c) (filter (\<lambda>c. rc_node c = n) cs)" for acc
    by (induction cs arbitrary: acc) (auto simp: assoc_get_or_def map_of_assoc_set)
  from this [of "[]"] show ?thesis by (simp add: nodeDelta_def assoc_get_or_def)
qed

lemma nodeDelta_diff:
  assumes "wf_placement current" and "wf_placement planned"
  shows "assoc_get_or 0 (nodeDelta (rd_changes (diffPlacement current planned))) n =
    footprint_on planned n - footprint_on current n"
proof -
  let ?cs = "filter (\<lambda>c. rc_node c = n) (rd_changes (diffPlacement current planned))"
  let ?S = "set (map fst current) \<union> set (map fst planned)"
  let ?f = "\<lambda>s. replicas_at planned s n - replicas_at current s n"
  have d: "distinct (map (\<lambda>c. (rc_service c, rc_node c)) ?cs)"
    by (rule distinct_map_filter_key [OF diff_cells_distinct])
  then have ds: "distinct (map rc_service ?cs)"
    unfolding distinct_map by (fastforce simp: inj_on_def)
  have "sum_by (\<lambda>c. rc_to c - rc_from c) ?cs = (\<Sum>c\<leftarrow>?cs. ?f (rc_service c))"
    unfolding sum_by_eq by (intro arg_cong [where f = sum_list] map_cong) (auto simp: diff_changes_set)
  also have "\<dots> = (\<Sum>s\<leftarrow>map rc_service ?cs. ?f s)" by (simp add: comp_def)
  also have "\<dots> = (\<Sum>s\<in>set (map rc_service ?cs). ?f s)" by (rule sum_list_distinct_conv_sum_set [OF ds])
  also have "\<dots> = (\<Sum>s\<in>?S. ?f s)"
  proof (rule sum.mono_neutral_left)
    show "set (map rc_service ?cs) \<subseteq> ?S"
    proof
      fix s assume "s \<in> set (map rc_service ?cs)"
      then have "replicas_at current s n \<noteq> replicas_at planned s n" by (auto simp: diff_changes_set)
      then show "s \<in> ?S"
        using unplaced [OF assms(1), of s n] unplaced [OF assms(2), of s n] by (metis UnI1 UnI2)
    qed
    show "\<forall>s \<in> ?S - set (map rc_service ?cs). ?f s = 0"
    proof
      fix s assume s: "s \<in> ?S - set (map rc_service ?cs)"
      show "?f s = 0"
      proof (rule ccontr)
        assume "?f s \<noteq> 0"
        then have "\<lparr>rc_service = s, rc_node = n, rc_from = replicas_at current s n, rc_to = replicas_at planned s n\<rparr> \<in> set ?cs"
          by (simp add: diff_changes_set)
        then have "s \<in> set (map rc_service ?cs)" by force
        with s show False by blast
      qed
    qed
  qed simp
  also have "\<dots> = footprint_on planned n - footprint_on current n"
    using footprint_on_sum [OF assms(1), of ?S n] footprint_on_sum [OF assms(2), of ?S n] by (simp add: sum_subtractf)
  finally show ?thesis by (simp add: nodeDelta_value)
qed

lemma footprint_on_nonneg: "wf_placement p \<Longrightarrow> 0 \<le> footprint_on p n"
  by (auto simp: occupancy_value intro!: sum_by_nonneg)

text \<open>
  C29. A rebalance never shrinks the footprint on the way: after any number of its publications the
  replicas that the nodes' desired states ask for, over all services together, are at least as many as
  before the rebalance or as after it, whichever is less. The order gainers, reducers, vacated nodes
  brings this about.
\<close>

theorem rebalance_never_dips:
  assumes "wf_placement current" and "wf_placement planned"
    and "order = publication_order (diffPlacement current planned) placed"
  shows "min (sum_by (footprint_on current) order) (sum_by (footprint_on planned) order)
    \<le> sum_by (footprint_on planned) (take k order) + sum_by (footprint_on current) (drop k order)"
proof -
  let ?diff = "diffPlacement current planned"
  let ?d = "\<lambda>n. footprint_on planned n - footprint_on current n"
  let ?xs = "map fst (gainers_first (rd_changes ?diff) placed)" and ?ys = "rd_vacatedNodes ?diff"
  let ?le = "\<lambda>x y. assoc_get_or 0 (nodeDelta (rd_changes ?diff)) (fst y) \<le> assoc_get_or 0 (nodeDelta (rd_changes ?diff)) (fst x)"
  have "sorted_wrt ?le (sort_by ?le placed)"
    by (rule sorted_sort_by) auto
  then have "sorted_wrt (\<lambda>a b. ?d b \<le> ?d a) ?xs"
    unfolding gainers_first_def sorted_wrt_map nodeDelta_diff [OF assms(1,2)] .
  then have falls: "sorted_wrt (\<lambda>a b. b \<le> a) (map ?d ?xs)" by (simp add: sorted_wrt_map)
  have "?d n \<le> 0" if "n \<in> set ?ys" for n
  proof -
    have "n \<notin> set (map fst (occupancyByNode planned))"
      using that by (simp add: diffPlacement_def Let_def)
    then have "footprint_on planned n = 0"
      unfolding footprint_on_def set_map map_of_eq_None_iff [symmetric] by (simp add: assoc_get_or_def)
    with footprint_on_nonneg [OF assms(1), of n] show ?thesis by simp
  qed
  then have neg: "\<forall>y \<in> set (map ?d ?ys). y \<le> 0" by auto
  have "min 0 (sum_list (map ?d order)) \<le> sum_list (take k (map ?d order))"
    using falling_then_negative [OF falls neg, of k] by (simp add: assms(3) publication_order_def)
  moreover have "sum_list (map ?d zs) = sum_by (footprint_on planned) zs - sum_by (footprint_on current) zs" for zs
    by (simp add: sum_by_eq sum_list_subtractf)
  moreover have "sum_by (footprint_on current) order =
      sum_by (footprint_on current) (take k order) + sum_by (footprint_on current) (drop k order)"
    by (metis append_take_drop_id sum_by_append)
  ultimately show ?thesis by (simp add: take_map)
qed

text \<open>
  Of a single service that is not so, although the code's comment says a moved replica exists somewhere
  at all times: nodes are ordered by their net change over all services. Here two services swap nodes;
  the node that gains is published first and drops the only replica of \<open>db\<close> before another node has it.
\<close>

definition swap_current :: "service_placement list" where
  "swap_current = [(''db'', [(''n1'', 1)]), (''api'', [(''n2'', 2)])]"

definition swap_planned :: "service_placement list" where
  "swap_planned = [(''db'', [(''n2'', 1)]), (''api'', [(''n1'', 2)])]"

lemma swap_order: "publication_order (diffPlacement swap_current swap_planned) [(''n2'', ()), (''n1'', ())] = [''n1'', ''n2'']"
  by code_simp

lemma swap_loses_service:
  "sum_by (replicas_at swap_current ''db'') [''n1'', ''n2''] = 1"
  "sum_by (replicas_at swap_planned ''db'') [''n1'', ''n2''] = 1"
  "sum_by (replicas_at swap_planned ''db'') (take 1 [''n1'', ''n2'']) + sum_by (replicas_at swap_current ''db'') (drop 1 [''n1'', ''n2'']) = 0"
  by code_simp+

lemma diff_exact_witness:
  "set (rd_vacatedNodes (diffPlacement [(''api'', [(''a'', 2 :: int)])] [(''api'', [(''b'', 2)])])) = {''a''}"
proof -
  let ?c = "[(''api'', [(''a'', 2 :: int)])]" and ?p = "[(''api'', [(''b'', 2 :: int)])]"
  have w: "wf_placement ?c" "wf_placement ?p" by (simp_all add: wf_placement_def)
  have "replicas_at ?c s n = (if s = ''api'' \<and> n = ''a'' then 2 else 0)"
    "replicas_at ?p s n = (if s = ''api'' \<and> n = ''b'' then 2 else 0)" for s n
    by (simp_all add: replicas_at_eq [OF w(1)] replicas_at_eq [OF w(2)])
  with diff_exact [OF w] show ?thesis by (auto split: if_splits)
qed

lemma rebalance_never_dips_witness:
  "min 3 3 \<le> sum_by (footprint_on swap_planned) (take 1 [''n1'', ''n2'']) + sum_by (footprint_on swap_current) (drop 1 [''n1'', ''n2''])"
proof -
  have w: "wf_placement swap_current" "wf_placement swap_planned"
    by (simp_all add: wf_placement_def swap_current_def swap_planned_def)
  have "sum_by (footprint_on swap_current) [''n1'', ''n2''] = 3" "sum_by (footprint_on swap_planned) [''n1'', ''n2''] = 3"
    by code_simp+
  with rebalance_never_dips [OF w swap_order [symmetric], of 1] show ?thesis by simp
qed

end
