(* ===== verification/Node_Path.thy ===== *)
theory Node_Path
  imports Js_Strings "HOL-Library.Sublist"
begin

text \<open>
  The two functions of \<open>node:path\<close> the program uses, on POSIX paths: \<open>resolve(dir, p)\<close> with an absolute
  \<open>dir\<close>, and \<open>relative(a, b)\<close> between absolute paths. A path is worked on as its list of segments.
\<close>

definition path_parts :: "string \<Rightarrow> string list" where
  "path_parts s = filter (\<lambda>p. p \<noteq> [] \<and> p \<noteq> ''.'') (split_char CHR ''/'' s)"

text \<open>\<open>..\<close> pops a segment; at the root it stays there. The accumulator is reversed.\<close>

fun norm_parts :: "string list \<Rightarrow> string list \<Rightarrow> string list" where
  "norm_parts acc [] = rev acc"
| "norm_parts acc (p # ps) = (if p = ''..'' then norm_parts (tl acc) ps else norm_parts (p # acc) ps)"

definition abs_parts :: "string \<Rightarrow> string list" where
  "abs_parts s = norm_parts [] (path_parts s)"

definition abs_path :: "string list \<Rightarrow> string" where
  "abs_path ps = CHR ''/'' # join_str ''/'' ps"

definition path_resolve :: "string \<Rightarrow> string \<Rightarrow> string" where
  "path_resolve dir p =
     (if starts_with p ''/'' then abs_path (abs_parts p) else abs_path (abs_parts (dir @ ''/'' @ p)))"

fun common_prefix :: "'a list \<Rightarrow> 'a list \<Rightarrow> nat" where
  "common_prefix (x # xs) (y # ys) = (if x = y then Suc (common_prefix xs ys) else 0)"
| "common_prefix _ _ = 0"

definition relative_parts :: "string list \<Rightarrow> string list \<Rightarrow> string list" where
  "relative_parts a b = (let k = common_prefix a b in replicate (length a - k) ''..'' @ drop k b)"

definition path_relative :: "string \<Rightarrow> string \<Rightarrow> string" where
  "path_relative a b = join_str ''/'' (relative_parts (abs_parts a) (abs_parts b))"

section \<open>Clean segments\<close>

definition clean_segment :: "string \<Rightarrow> bool" where
  "clean_segment p \<longleftrightarrow> p \<noteq> [] \<and> p \<noteq> ''.'' \<and> p \<noteq> ''..'' \<and> CHR ''/'' \<notin> set p"

definition clean_parts :: "string list \<Rightarrow> bool" where
  "clean_parts ps \<longleftrightarrow> list_all clean_segment ps"

lemma clean_parts_simps [simp]:
  "clean_parts []" "clean_parts (p # ps) \<longleftrightarrow> clean_segment p \<and> clean_parts ps"
  "clean_parts (ps @ qs) \<longleftrightarrow> clean_parts ps \<and> clean_parts qs"
  by (simp_all add: clean_parts_def)

lemma path_parts_segment: "p \<in> set (path_parts s) \<Longrightarrow> p \<noteq> [] \<and> p \<noteq> ''.'' \<and> CHR ''/'' \<notin> set p"
  using split_char_no_sep by (auto simp: path_parts_def)

lemma clean_norm_parts:
  "clean_parts acc \<Longrightarrow> (\<forall>p \<in> set ps. p \<noteq> [] \<and> p \<noteq> ''.'' \<and> CHR ''/'' \<notin> set p) \<Longrightarrow> clean_parts (norm_parts acc ps)"
proof (induction ps arbitrary: acc)
  case Nil
  then show ?case by (simp add: clean_parts_def list_all_iff)
next
  case (Cons p ps)
  have "clean_parts (tl acc)" using Cons.prems(1) by (cases acc) auto
  with Cons show ?case by (simp add: clean_segment_def)
qed

lemma clean_abs_parts [simp]: "clean_parts (abs_parts s)"
  unfolding abs_parts_def by (rule clean_norm_parts) (use path_parts_segment in auto)

lemma norm_clean: "clean_parts ps \<Longrightarrow> norm_parts acc ps = rev acc @ ps"
  by (induction ps arbitrary: acc) (auto simp: clean_segment_def)

lemma split_join_clean:
  "clean_parts ps \<Longrightarrow> ps \<noteq> [] \<Longrightarrow> split_char CHR ''/'' (join_str ''/'' ps) = ps"
  by (rule split_join_char) (auto simp: clean_parts_def list_all_iff clean_segment_def)

lemma path_parts_join [simp]: "clean_parts ps \<Longrightarrow> path_parts (join_str ''/'' ps) = ps"
proof (cases "ps = []")
  case False
  assume c: "clean_parts ps"
  then show ?thesis
    by (auto simp: path_parts_def split_join_clean [OF c False] filter_id_conv clean_parts_def list_all_iff clean_segment_def)
qed (simp add: path_parts_def)

lemma path_parts_slash: "path_parts (CHR ''/'' # s) = path_parts s"
  by (simp add: path_parts_def)

lemma split_char_sep_append: "split_char c (a @ c # b) = split_char c a @ split_char c b"
  by (induction a) (auto split: list.splits)

lemma path_parts_append: "path_parts (a @ CHR ''/'' # b) = path_parts a @ path_parts b"
  by (simp add: path_parts_def split_char_sep_append)

lemma abs_parts_abs_path [simp]: "clean_parts ps \<Longrightarrow> abs_parts (abs_path ps) = ps"
  by (simp add: abs_parts_def abs_path_def path_parts_slash norm_clean)

lemma norm_parts_append: "norm_parts acc (ps @ qs) = norm_parts (rev (norm_parts acc ps)) qs"
  by (induction ps arbitrary: acc) auto

lemma join_clean_inj:
  "clean_parts ps \<Longrightarrow> clean_parts qs \<Longrightarrow> join_str ''/'' ps = join_str ''/'' qs \<longleftrightarrow> ps = qs"
  by (metis path_parts_join)

lemma resolve_parts: "abs_parts (path_resolve dir p) = (if starts_with p ''/'' then abs_parts p else norm_parts (rev (abs_parts dir)) (path_parts p))"
  by (simp add: path_resolve_def) (simp add: abs_parts_def path_parts_append norm_parts_append)

section \<open>Relative paths\<close>

lemma common_prefix_append [simp]: "common_prefix a (a @ b) = length a"
  by (induction a) auto

lemma common_prefix_full: "common_prefix a b = length a \<longleftrightarrow> prefix a b"
  by (induction a b rule: common_prefix.induct) auto

lemma common_prefix_le: "common_prefix a b \<le> length a" "common_prefix a b \<le> length b"
  by (induction a b rule: common_prefix.induct) auto

lemma take_common_prefix: "take (common_prefix a b) a = take (common_prefix a b) b"
  by (induction a b rule: common_prefix.induct) auto

lemma relative_inside: "relative_parts a (a @ b) = b"
  by (simp add: relative_parts_def)

lemma relative_outside:
  assumes "\<not> prefix a b"
  shows "\<exists>r. relative_parts a b = ''..'' # r"
proof -
  have "common_prefix a b < length a"
    using assms common_prefix_full [of a b] common_prefix_le(1) [of a b] by linarith
  then obtain n where "length a - common_prefix a b = Suc n" by (metis Suc_diff_Suc)
  then show ?thesis by (simp add: relative_parts_def Let_def)
qed

text \<open>Resolving a relative path from where it starts leads where it points.\<close>

lemma norm_ups: "norm_parts acc (replicate n ''..'' @ ps) = norm_parts (drop n acc) ps"
  by (induction n arbitrary: acc) (simp_all add: drop_Suc)

lemma relative_resolves:
  assumes "clean_parts a" "clean_parts b"
  shows "norm_parts (rev a) (relative_parts a b) = b"
proof -
  let ?k = "common_prefix a b"
  have "clean_parts (drop ?k b)"
    using assms(2) by (auto simp: clean_parts_def list_all_iff dest: in_set_dropD)
  then have "norm_parts (rev a) (relative_parts a b) = rev (drop (length a - ?k) (rev a)) @ drop ?k b"
    unfolding relative_parts_def Let_def norm_ups by (rule norm_clean)
  also have "rev (drop (length a - ?k) (rev a)) = take ?k b"
    using common_prefix_le(1) [of a b] take_common_prefix [of a b] by (simp add: rev_drop)
  finally show ?thesis by simp
qed

end
