(* ===== verification/Changed_Services.thy ===== *)
theory Changed_Services
  imports Node_Path Prelude
begin

text \<open>
  \<open>deploy --changed <ref>\<close>: \<open>packages/cli/src/deploy/changed-services.ts\<close>. The version control program is the
  parameter \<open>git\<close>, from an argument list to its output, \<open>None\<close> when it exits with an error; the calls made are
  returned with the result.
\<close>

record service_build_paths =
  bp_name :: string
  bp_contextDir :: string
  bp_dockerfile :: string

definition toSlash :: "string \<Rightarrow> string" where
  "toSlash p = map (\<lambda>c. if c = CHR 0x5C then CHR ''/'' else c) p"

definition toRepoRel :: "string \<Rightarrow> string \<Rightarrow> string" where
  "toRepoRel repoRoot p = (let rel = path_relative repoRoot p in if rel = ''.'' then [] else toSlash rel)"

definition isWithin :: "string \<Rightarrow> string \<Rightarrow> bool" where
  "isWithin path dir \<longleftrightarrow> dir = [] \<or> path = dir \<or> starts_with path (dir @ ''/'')"

definition buildServiceBuildPaths ::
  "(string \<times> string \<times> string) list \<Rightarrow> string \<Rightarrow> string \<Rightarrow> service_build_paths list" where
  "buildServiceBuildPaths services configDir repoRoot =
     map (\<lambda>(name, ctx, dockerfile). \<lparr>bp_name = name, bp_contextDir = toRepoRel repoRoot (path_resolve configDir ctx),
            bp_dockerfile = toRepoRel repoRoot (path_resolve configDir dockerfile)\<rparr>) services"

definition selectChangedServices :: "service_build_paths list \<Rightarrow> string list \<Rightarrow> string list" where
  "selectChangedServices services changedPaths =
     (let paths = filter (\<lambda>p. 0 < length p) (map toSlash changedPaths)
      in map bp_name (filter (\<lambda>s. list_ex (\<lambda>p. p = bp_dockerfile s \<or> isWithin p (bp_contextDir s)) paths) services))"

definition splitLines :: "string \<Rightarrow> string list" where
  "splitLines out = filter (\<lambda>l. 0 < length l) (map trim (split_char CHR 0x0A out))"

definition is_hex :: "char \<Rightarrow> bool" where
  "is_hex c \<longleftrightarrow> is_digit c \<or> in_range CHR ''a'' CHR ''f'' c"

definition SHA_RE :: "string \<Rightarrow> bool" where
  "SHA_RE s \<longleftrightarrow> list_all is_hex s \<and> (length s = 40 \<or> length s = 64)"

datatype changed_error = RefLooksLikeOption string | RefUnresolved string | GitFailed

definition collectChangedPaths ::
  "(string list \<Rightarrow> string option) \<Rightarrow> string \<Rightarrow> string list list \<times> (changed_error + string list)" where
  "collectChangedPaths git ref =
     (if starts_with ref ''-'' then ([], Inl (RefLooksLikeOption ref))
      else
        (let verify = [''rev-parse'', ''--verify'', ''--quiet'', ref @ ''^{commit}'']
         in case git verify of
              None \<Rightarrow> ([verify], Inl (RefUnresolved ref))
            | Some out \<Rightarrow>
                (let sha = trim out
                 in if \<not> SHA_RE sha then ([verify], Inl (RefUnresolved ref))
                    else
                      (let diff = [''diff'', ''--name-only'', sha, ''--''];
                           others = [''ls-files'', ''--others'', ''--exclude-standard'', ''--'']
                       in case git diff of
                            None \<Rightarrow> ([verify, diff], Inl GitFailed)
                          | Some d \<Rightarrow>
                              (case git others of
                                 None \<Rightarrow> ([verify, diff, others], Inl GitFailed)
                               | Some u \<Rightarrow> ([verify, diff, others],
                                   Inr (js_dedup (map toSlash (splitLines d @ splitLines u)))))))))"

section \<open>Which services a change selects\<close>

lemma toSlash_id: "CHR 0x5C \<notin> set p \<Longrightarrow> toSlash p = p"
  by (induction p) (auto simp: toSlash_def)

lemma length_toSlash [simp]: "length (toSlash p) = length p"
  by (simp add: toSlash_def)

lemma join_starts_with:
  assumes "clean_parts ps" "clean_parts qs" "qs \<noteq> []" "starts_with (join_str ''/'' ps) (join_str ''/'' qs @ ''/'')"
  shows "prefix qs ps"
proof -
  obtain t where t: "join_str ''/'' ps = join_str ''/'' qs @ CHR ''/'' # t"
    using assms(4) by (auto simp: starts_with_iff)
  then have "path_parts (join_str ''/'' ps) = path_parts (join_str ''/'' qs) @ path_parts t"
    by (simp add: path_parts_append)
  with assms(1,2) have "ps = qs @ path_parts t" by simp
  then show ?thesis by simp
qed

lemma join_append: "ps \<noteq> [] \<Longrightarrow> qs \<noteq> [] \<Longrightarrow> join_str s (ps @ qs) = join_str s ps @ s @ join_str s qs"
proof (induction s ps rule: join_str.induct)
  case (2 sep p)
  then show ?case by (cases qs) auto
qed auto

lemma isWithin_parts:
  assumes "clean_parts ps" "clean_parts qs"
  shows "isWithin (join_str ''/'' ps) (join_str ''/'' qs) \<longleftrightarrow> prefix qs ps"
proof (cases "qs = []")
  case False
  then have ne: "join_str ''/'' qs \<noteq> []"
    using assms(2) by (metis join_clean_inj clean_parts_simps(1) join_str.simps(1))
  show ?thesis
  proof
    assume "isWithin (join_str ''/'' ps) (join_str ''/'' qs)"
    then show "prefix qs ps"
      using ne join_starts_with [OF assms False] join_clean_inj [OF assms] by (auto simp: isWithin_def)
  next
    assume "prefix qs ps"
    then obtain r where r: "ps = qs @ r" by (auto simp: prefix_def)
    show "isWithin (join_str ''/'' ps) (join_str ''/'' qs)"
      using False by (cases "r = []") (simp_all add: r isWithin_def join_append starts_with_def)
  qed
qed (simp add: isWithin_def)

lemma join_no_char: "c \<noteq> CHR ''/'' \<Longrightarrow> (\<forall>p \<in> set ps. c \<notin> set p) \<Longrightarrow> c \<notin> set (join_str ''/'' ps)"
  by (induction "''/''" ps rule: join_str.induct) auto

text \<open>Inside the repository a path's relative form is its segments after those of the root.\<close>

lemma toRepoRel_inside:
  assumes "abs_parts p = abs_parts root @ r" and "\<forall>x \<in> set r. CHR 0x5C \<notin> set x"
  shows "toRepoRel root p = join_str ''/'' r"
proof -
  have rel: "path_relative root p = join_str ''/'' r"
    by (simp add: path_relative_def assms(1) relative_inside)
  have c: "clean_parts r" using clean_abs_parts [of p] assms(1) by simp
  have "join_str ''/'' r \<noteq> ''.''"
  proof
    assume e: "join_str ''/'' r = ''.''"
    have "path_parts (join_str ''/'' r) = []" unfolding e by code_simp
    with path_parts_join [OF c] have "r = []" unfolding e by simp
    with e show False by simp
  qed
  moreover have "CHR 0x5C \<notin> set (join_str ''/'' r)" by (rule join_no_char) (use assms(2) in simp_all)
  ultimately show ?thesis by (simp add: toRepoRel_def rel toSlash_id)
qed

definition inside_repo :: "string \<Rightarrow> string \<Rightarrow> bool" where
  "inside_repo root p \<longleftrightarrow> prefix (abs_parts root) (abs_parts p)
     \<and> list_all (\<lambda>x. CHR 0x5C \<notin> set x) (drop (length (abs_parts root)) (abs_parts p))"

lemma inside_repo_rel:
  assumes "inside_repo root p"
  obtains r where "abs_parts p = abs_parts root @ r" "toRepoRel root p = join_str ''/'' r" "clean_parts r"
proof -
  obtain r where r: "abs_parts p = abs_parts root @ r" using assms by (auto simp: inside_repo_def prefix_def)
  have "\<forall>x \<in> set r. CHR 0x5C \<notin> set x" using assms by (simp add: inside_repo_def r list_all_iff)
  from that [OF r toRepoRel_inside [OF r this]] show ?thesis
    using clean_abs_parts [of p] by (simp add: r)
qed

text \<open>A changed file, as the version control program names it: its segments below the root.\<close>

definition repo_file :: "string \<Rightarrow> bool" where
  "repo_file p \<longleftrightarrow> path_parts p \<noteq> [] \<and> clean_parts (path_parts p) \<and> join_str ''/'' (path_parts p) = p \<and> CHR 0x5C \<notin> set p"

lemma selects_iff:
  assumes "inside_repo root (path_resolve dir ctx)" "inside_repo root (path_resolve dir df)" "repo_file p"
  shows "p = toRepoRel root (path_resolve dir df) \<or> isWithin p (toRepoRel root (path_resolve dir ctx)) \<longleftrightarrow>
    abs_parts root @ path_parts p = abs_parts (path_resolve dir df)
      \<or> prefix (abs_parts (path_resolve dir ctx)) (abs_parts root @ path_parts p)"
proof -
  obtain r where r: "abs_parts (path_resolve dir ctx) = abs_parts root @ r"
    "toRepoRel root (path_resolve dir ctx) = join_str ''/'' r" "clean_parts r"
    by (rule inside_repo_rel [OF assms(1)])
  obtain f where f: "abs_parts (path_resolve dir df) = abs_parts root @ f"
    "toRepoRel root (path_resolve dir df) = join_str ''/'' f" "clean_parts f"
    by (rule inside_repo_rel [OF assms(2)])
  have c: "clean_parts (path_parts p)" and j: "join_str ''/'' (path_parts p) = p"
    using assms(3) by (simp_all add: repo_file_def)
  have 1: "p = join_str ''/'' f \<longleftrightarrow> path_parts p = f"
    using join_clean_inj [OF c f(3)] j by simp
  have 2: "isWithin p (join_str ''/'' r) \<longleftrightarrow> prefix r (path_parts p)"
    using isWithin_parts [OF c r(3)] j by simp
  show ?thesis unfolding r(2) f(2) 1 2 unfolding r(1) f(1) by auto
qed



text \<open>A path the version control program prints in quotes lies in no context below the root.\<close>

lemma quoted_path_unseen:
  "dir \<noteq> [] \<Longrightarrow> hd dir \<noteq> CHR 0x22 \<Longrightarrow> \<not> isWithin (CHR 0x22 # p) dir"
  by (cases dir) (auto simp: isWithin_def starts_with_def)

section \<open>What reaches the version control program\<close>

text \<open>
  The reference given by the user never is an option or a diff base: nothing runs when it starts with
  a dash, it is only handed to the resolution of a commit, and the diff is taken against the 40 or 64
  hexadecimal digits that came back.
\<close>

theorem changed_ref_contained:
  "(starts_with ref ''-'' \<longrightarrow> collectChangedPaths git ref = ([], Inl (RefLooksLikeOption ref)))
   \<and> (\<forall>c \<in> set (fst (collectChangedPaths git ref)).
        c = [''rev-parse'', ''--verify'', ''--quiet'', ref @ ''^{commit}'']
        \<or> c = [''ls-files'', ''--others'', ''--exclude-standard'', ''--'']
        \<or> (\<exists>sha. c = [''diff'', ''--name-only'', sha, ''--''] \<and> SHA_RE sha))"
  by (auto simp: collectChangedPaths_def Let_def split: option.splits if_splits)

theorem changed_ref_contained_witness:
  "collectChangedPaths (\<lambda>_. Some []) ''--output=x'' = ([], Inl (RefLooksLikeOption ''--output=x''))"
  using changed_ref_contained [of "''--output=x''" "\<lambda>_. Some []"] by (simp add: starts_with_def)

end
