(* ===== verification/Build_Context.thy ===== *)
theory Build_Context
  imports Changed_Services
begin

text \<open>
  What a remote build uploads: \<open>packages/cli/src/deploy/remote-build.ts\<close> (names, Dockerfile containment and
  the subset of \<open>.dockerignore\<close> it honors), the filter of \<open>deploy/context-pack.ts\<close>, and the image tag and the
  build environment of \<open>deploy/build.ts\<close> and \<open>aws/codebuild.ts\<close>. Paths are relative to the context, with slashes.
\<close>

section \<open>Patterns\<close>

definition is_glob :: "string \<Rightarrow> bool" where
  "is_glob p \<longleftrightarrow> list_ex (\<lambda>c. c \<in> {CHR ''*'', CHR ''?'', CHR ''['', CHR '']''}) p"

fun drop_trailing_slashes :: "string \<Rightarrow> string" where
  "drop_trailing_slashes p = rev (dropWhile (\<lambda>c. c = CHR ''/'') (rev p))"

definition normalizePattern :: "string \<Rightarrow> string" where
  "normalizePattern line =
     (let a = (if starts_with line ''./'' then drop 2 line else line);
          b = (if starts_with a ''/'' then drop 1 a else a)
      in drop_trailing_slashes b)"

definition name_char :: "char \<Rightarrow> bool" where
  "name_char c \<longleftrightarrow> is_lower c \<or> is_upper c \<or> is_digit c \<or> c \<in> {CHR ''.'', CHR ''_'', CHR ''-''}"

definition plain_name :: "string \<Rightarrow> bool" where
  "plain_name p \<longleftrightarrow> p \<noteq> [] \<and> list_all name_char p"

function isSupportedPattern :: "string \<Rightarrow> bool" where
  "isSupportedPattern p =
     (if \<not> is_glob p then True
      else if p \<noteq> [] \<and> hd p = CHR ''*'' \<and> plain_name (tl p) then True
      else if p \<noteq> [] \<and> last p = CHR ''*'' \<and> plain_name (butlast p) then True
      else if starts_with p ''**/'' then isSupportedPattern (drop 3 p) \<and> CHR ''/'' \<notin> set (drop 3 p)
      else False)"
  by pat_completeness auto
termination by (relation "measure length") (auto simp: starts_with_iff)

declare isSupportedPattern.simps [simp del]

definition matchesSimpleGlob :: "string \<Rightarrow> string \<Rightarrow> bool" where
  "matchesSimpleGlob name pattern =
     (if starts_with pattern ''*'' then ends_with name (drop 1 pattern)
      else if ends_with pattern ''*'' then starts_with name (butlast pattern)
      else name = pattern)"

definition excluded_by :: "string \<Rightarrow> string \<Rightarrow> bool" where
  "excluded_by relPath pattern =
     (let segments = split_char CHR ''/'' relPath
      in if starts_with pattern ''**/''
         then (let base = drop 3 pattern
               in if is_glob base then matchesSimpleGlob (last segments) base else base \<in> set segments)
         else if is_glob pattern then matchesSimpleGlob (hd segments) pattern \<and> length segments = 1
         else relPath = pattern \<or> starts_with relPath (pattern @ ''/''))"

definition shouldExcludeFromContext :: "string \<Rightarrow> string list \<Rightarrow> bool" where
  "shouldExcludeFromContext relPath patterns = list_ex (excluded_by relPath) (''.git'' # patterns)"

section \<open>The ignore file\<close>

datatype ignore_line = Skip | Pattern string | Negation string | WildcardNegation

definition ignore_line :: "string \<Rightarrow> ignore_line" where
  "ignore_line rawLine =
     (let line = trim rawLine
      in if line = [] \<or> starts_with line ''#'' then Skip
         else if starts_with line ''!''
         then (let target = normalizePattern (drop 1 line)
               in if is_glob target then WildcardNegation else if target \<noteq> [] then Negation target else Skip)
         else (let n = normalizePattern line
               in if n = [] \<or> \<not> isSupportedPattern n then Skip else Pattern n))"

definition parseDockerignore :: "string \<Rightarrow> string list" where
  "parseDockerignore content =
     (let lines = map ignore_line (split_char CHR 0x0A content);
          patterns = List.map_filter (\<lambda>l. case l of Pattern p \<Rightarrow> Some p | _ \<Rightarrow> None) lines;
          negations = List.map_filter (\<lambda>l. case l of Negation n \<Rightarrow> Some n | _ \<Rightarrow> None) lines
      in if WildcardNegation \<in> set lines then []
         else filter (\<lambda>p. \<not> (negations \<noteq> [] \<and> is_glob p)
                \<and> \<not> list_ex (\<lambda>n. shouldExcludeFromContext n [p]) negations) patterns)"

section \<open>Packing\<close>

text \<open>The filter of the archive: \<open>path\<close> is what the archiver passes, with a leading \<open>./\<close>.\<close>

definition pack_rel :: "string \<Rightarrow> string" where
  "pack_rel path =
     (let a = (if starts_with path ''./'' then drop 2 path else if starts_with path ''.'' then drop 1 path else path)
      in drop_trailing_slashes a)"

definition pack_filter :: "string list \<Rightarrow> string option \<Rightarrow> string \<Rightarrow> bool" where
  "pack_filter alwaysInclude ignoreFile path =
     (let patterns = (case ignoreFile of None \<Rightarrow> [] | Some c \<Rightarrow> parseDockerignore c);
          keep = ''.dockerignore'' # alwaysInclude;
          rel = pack_rel path
      in rel = [] \<or> rel \<in> set keep \<or> list_ex (\<lambda>k. starts_with k (rel @ ''/'')) keep
         \<or> \<not> shouldExcludeFromContext rel patterns)"

definition dockerfileInContext :: "string \<Rightarrow> string \<Rightarrow> string option" where
  "dockerfileInContext contextDir dockerfilePath =
     (let rel = path_relative contextDir dockerfilePath
      in if rel = [] \<or> starts_with rel ''..'' then None else Some rel)"

section \<open>Names and build parameters\<close>

definition slug :: "(char \<Rightarrow> bool) \<Rightarrow> string \<Rightarrow> string" where
  "slug ok s = map (\<lambda>c. if ok c then c else CHR ''-'') s"

definition alnum :: "char \<Rightarrow> bool" where
  "alnum c \<longleftrightarrow> is_lower c \<or> is_upper c \<or> is_digit c"

definition remoteBuildProjectName :: "string \<Rightarrow> string" where
  "remoteBuildProjectName clusterId =
     take 255 (''launch-pad-build-'' @ slug (\<lambda>c. alnum c \<or> c \<in> {CHR ''_'', CHR ''-''}) clusterId)"

definition remoteBuildRoleName :: "string \<Rightarrow> string" where
  "remoteBuildRoleName clusterId =
     take 64 (''launch-pad-codebuild-''
       @ slug (\<lambda>c. alnum c \<or> c \<in> {CHR ''+'', CHR ''='', CHR '','', CHR ''.'', CHR ''@'', CHR ''_'', CHR ''-''}) clusterId)"

record build_overrides =
  bo_environmentType :: "string option"
  bo_image :: "string option"
  bo_computeType :: "string option"
  bo_privileged :: "bool option"

definition buildEnvironmentOverrides :: "string \<Rightarrow> build_overrides" where
  "buildEnvironmentOverrides platform =
     (if platform \<noteq> ''linux/arm64''
      then \<lparr>bo_environmentType = None, bo_image = None, bo_computeType = None, bo_privileged = None\<rparr>
      else \<lparr>bo_environmentType = Some ''ARM_CONTAINER'',
             bo_image = Some ''aws/codebuild/amazonlinux2-aarch64-standard:3.0'',
             bo_computeType = Some ''BUILD_GENERAL1_SMALL'', bo_privileged = Some True\<rparr>)"

text \<open>
  The tag of an image: \<open>git\<close> runs the version control program in the context, \<open>None\<close> when it fails;
  \<open>nowBase36\<close> is the current time in base 36.
\<close>

definition computeImageTag :: "(string list \<Rightarrow> string option) \<Rightarrow> string \<Rightarrow> string" where
  "computeImageTag git nowBase36 =
     (case git [''rev-parse'', ''--short=12'', ''HEAD''] of
        None \<Rightarrow> ''dev-'' @ nowBase36
      | Some out \<Rightarrow>
          (case git [''status'', ''--porcelain''] of
             None \<Rightarrow> ''dev-'' @ nowBase36
           | Some st \<Rightarrow> if length (trim st) = 0 then trim out else trim out @ ''-dev-'' @ nowBase36))"

section \<open>Containment of the Dockerfile\<close>

lemma starts_with_dotdot: "starts_with (join_str ''/'' (''..'' # r)) ''..''"
  by (cases r) (simp_all add: starts_with_def)

lemma dockerfileInContext_iff:
  "dockerfileInContext ctx df = Some r \<longleftrightarrow>
     (\<exists>rest. abs_parts df = abs_parts ctx @ rest \<and> rest \<noteq> [] \<and> \<not> starts_with r ''..'' \<and> r = join_str ''/'' rest)"
proof (cases "prefix (abs_parts ctx) (abs_parts df)")
  case True
  then obtain rest where rest: "abs_parts df = abs_parts ctx @ rest" by (auto simp: prefix_def)
  have c: "clean_parts rest" using clean_abs_parts [of df] by (simp add: rest)
  have rel: "path_relative ctx df = join_str ''/'' rest" by (simp add: path_relative_def rest relative_inside)
  have "join_str ''/'' rest = [] \<longleftrightarrow> rest = []"
    using join_clean_inj [OF c, of "[]"] by simp
  then show ?thesis by (auto simp: dockerfileInContext_def Let_def rel rest)
next
  case False
  from relative_outside [OF this] obtain q where "path_relative ctx df = join_str ''/'' (''..'' # q)"
    by (auto simp: path_relative_def)
  with False starts_with_dotdot [of q] show ?thesis by (auto simp: dockerfileInContext_def prefix_def)
qed

section \<open>What stays out of the upload\<close>

lemma excluded_simps:
  "shouldExcludeFromContext p [] \<longleftrightarrow> p = ''.git'' \<or> starts_with p ''.git/''"
  "shouldExcludeFromContext p (q # qs) \<longleftrightarrow> excluded_by p q \<or> shouldExcludeFromContext p qs"
proof -
  have "\<not> starts_with ''.git'' ''**/''" "\<not> is_glob ''.git''" by code_simp+
  then have "excluded_by p ''.git'' \<longleftrightarrow> p = ''.git'' \<or> starts_with p ''.git/''" by (simp add: excluded_by_def)
  then show "shouldExcludeFromContext p [] \<longleftrightarrow> p = ''.git'' \<or> starts_with p ''.git/''"
    by (simp add: shouldExcludeFromContext_def)
  show "shouldExcludeFromContext p (q # qs) \<longleftrightarrow> excluded_by p q \<or> shouldExcludeFromContext p qs"
    by (auto simp: shouldExcludeFromContext_def)
qed

lemma excluded_iff:
  "shouldExcludeFromContext p qs \<longleftrightarrow> p = ''.git'' \<or> starts_with p ''.git/'' \<or> (\<exists>q \<in> set qs. excluded_by p q)"
  by (induction qs) (auto simp: excluded_simps)

definition ignore_lines :: "string \<Rightarrow> ignore_line list" where
  "ignore_lines content = map ignore_line (split_char CHR 0x0A content)"

lemma parse_members:
  "p \<in> set (parseDockerignore content) \<longleftrightarrow>
     WildcardNegation \<notin> set (ignore_lines content) \<and> Pattern p \<in> set (ignore_lines content)
     \<and> (\<forall>n. Negation n \<in> set (ignore_lines content) \<longrightarrow> \<not> is_glob p \<and> \<not> shouldExcludeFromContext n [p])"
proof -
  let ?neg = "List.map_filter (\<lambda>l. case l of Negation n \<Rightarrow> Some n | _ \<Rightarrow> None) (ignore_lines content)"
  let ?pat = "List.map_filter (\<lambda>l. case l of Pattern n \<Rightarrow> Some n | _ \<Rightarrow> None) (ignore_lines content)"
  have n: "set ?neg = {n. Negation n \<in> set (ignore_lines content)}"
    by (auto simp: map_filter_def image_iff split: ignore_line.splits)
  have q: "set ?pat = {n. Pattern n \<in> set (ignore_lines content)}"
    by (auto simp: map_filter_def image_iff split: ignore_line.splits)
  have e: "?neg = [] \<longleftrightarrow> (\<forall>n. Negation n \<notin> set (ignore_lines content))"
    using n by auto
  show ?thesis
    unfolding parseDockerignore_def Let_def ignore_lines_def [symmetric]
    using n q e by (auto simp: list_ex_iff)
qed

text \<open>A file below the root, as the archiver names it.\<close>

definition context_file :: "string \<Rightarrow> bool" where
  "context_file p \<longleftrightarrow> p \<noteq> [] \<and> last p \<noteq> CHR ''/''"

lemma pack_rel_file [simp]: "context_file p \<Longrightarrow> pack_rel (''./'' @ p) = p"
  by (cases p rule: rev_cases) (simp_all add: context_file_def pack_rel_def starts_with_def)

definition kept_for :: "string list \<Rightarrow> string \<Rightarrow> bool" where
  "kept_for alwaysInclude p \<longleftrightarrow> list_ex (\<lambda>k. p = k \<or> starts_with k (p @ ''/'')) (''.dockerignore'' # alwaysInclude)"

lemma pack_filter_file:
  "context_file p \<Longrightarrow> pack_filter keep (Some content) (''./'' @ p)
     \<longleftrightarrow> kept_for keep p \<or> \<not> shouldExcludeFromContext p (parseDockerignore content)"
  unfolding pack_filter_def Let_def pack_rel_file option.case
  by (auto simp: context_file_def kept_for_def list_ex_iff)

text \<open>
  The upload of a remote build honors the ignore file. The Dockerfile and every directory on the way to
  it are packed whatever the file says; when the file has no negation, a path that one of its readable
  patterns excludes is not packed; what a negation names is packed, unless it lies in \<open>.git\<close>.
\<close>

theorem upload_honors_ignore_file:
  assumes "context_file p"
  shows "(k \<in> set keep \<and> (p = k \<or> starts_with k (p @ ''/'')) \<longrightarrow> pack_filter keep (Some content) (''./'' @ p))
    \<and> (list_all (\<lambda>l. l \<noteq> WildcardNegation \<and> (\<forall>n. l \<noteq> Negation n)) (ignore_lines content)
         \<and> Pattern q \<in> set (ignore_lines content) \<and> excluded_by p q \<and> \<not> kept_for keep p
         \<longrightarrow> \<not> pack_filter keep (Some content) (''./'' @ p))
    \<and> (Negation p \<in> set (ignore_lines content) \<and> p \<noteq> ''.git'' \<and> \<not> starts_with p ''.git/''
         \<longrightarrow> pack_filter keep (Some content) (''./'' @ p))"
proof (intro conjI impI)
  assume "k \<in> set keep \<and> (p = k \<or> starts_with k (p @ ''/''))"
  then show "pack_filter keep (Some content) (''./'' @ p)"
    unfolding pack_filter_file [OF assms] by (auto simp: kept_for_def list_ex_iff)
next
  assume h: "list_all (\<lambda>l. l \<noteq> WildcardNegation \<and> (\<forall>n. l \<noteq> Negation n)) (ignore_lines content)
    \<and> Pattern q \<in> set (ignore_lines content) \<and> excluded_by p q \<and> \<not> kept_for keep p"
  then have "q \<in> set (parseDockerignore content)" unfolding parse_members by (auto simp: list_all_iff)
  with h show "\<not> pack_filter keep (Some content) (''./'' @ p)"
    unfolding pack_filter_file [OF assms] excluded_iff by auto
next
  assume h: "Negation p \<in> set (ignore_lines content) \<and> p \<noteq> ''.git'' \<and> \<not> starts_with p ''.git/''"
  have "\<not> excluded_by p q" if "q \<in> set (parseDockerignore content)" for q
    using that h unfolding parse_members by (auto simp: excluded_iff)
  with h show "pack_filter keep (Some content) (''./'' @ p)"
    unfolding pack_filter_file [OF assms] excluded_iff by auto
qed

text \<open>An ignore file: a comment, a root glob and a directory.\<close>

definition ignore_example :: string where
  "ignore_example = ''# keys'' @ [CHR 0x0A] @ ''*.pem'' @ [CHR 0x0A] @ ''/secrets/''"

theorem upload_honors_ignore_file_witness:
  "\<not> pack_filter [''Dockerfile''] (Some ignore_example) ''./key.pem''
   \<and> \<not> pack_filter [''Dockerfile''] (Some ignore_example) ''./secrets/prod''"
proof -
  have "context_file ''key.pem''" "context_file ''secrets/prod''"
    "list_all (\<lambda>l. l \<noteq> WildcardNegation \<and> (\<forall>n. l \<noteq> Negation n)) (ignore_lines ignore_example)"
    "Pattern ''*.pem'' \<in> set (ignore_lines ignore_example)" "excluded_by ''key.pem'' ''*.pem''"
    "Pattern ''secrets'' \<in> set (ignore_lines ignore_example)" "excluded_by ''secrets/prod'' ''secrets''"
    "\<not> kept_for [''Dockerfile''] ''key.pem''" "\<not> kept_for [''Dockerfile''] ''secrets/prod''"
  proof -
    have l: "ignore_lines ignore_example = [Skip, Pattern ''*.pem'', Pattern ''secrets'']" by code_simp
    show "list_all (\<lambda>l. l \<noteq> WildcardNegation \<and> (\<forall>n. l \<noteq> Negation n)) (ignore_lines ignore_example)"
      "Pattern ''*.pem'' \<in> set (ignore_lines ignore_example)" "Pattern ''secrets'' \<in> set (ignore_lines ignore_example)"
      by (simp_all add: l)
    show "context_file ''key.pem''" "context_file ''secrets/prod''" "excluded_by ''key.pem'' ''*.pem''"
      "excluded_by ''secrets/prod'' ''secrets''" "\<not> kept_for [''Dockerfile''] ''key.pem''"
      "\<not> kept_for [''Dockerfile''] ''secrets/prod''" by code_simp+
  qed
  then show ?thesis
    using upload_honors_ignore_file [of "''key.pem''" "[]" "[''Dockerfile'']" ignore_example "''*.pem''"]
      upload_honors_ignore_file [of "''secrets/prod''" "[]" "[''Dockerfile'']" ignore_example "''secrets''"] by simp
qed

text \<open>A negation inside \<open>.git\<close> drops every exclusion, although none of them covers it.\<close>

lemma negation_below_git_uploads_all:
  "parseDockerignore (''secrets'' @ [CHR 0x0A] @ ''!.git/HEAD'') = []"
  by code_simp

end
