(* ===== verification/Ecr.thy ===== *)
theory Ecr
  imports Js_Strings
begin

text \<open>
  Image references: \<open>packages/shared/src/ecr.ts\<close>.
\<close>

section \<open>Parsing a reference\<close>

record parsed_image =
  pi_registry :: string
  pi_repository :: string
  pi_tag :: string

text \<open>\<open>[a-z0-9-]+\<close> followed by the fixed tail; the class has no dot, so the match is unique.\<close>

definition region_char :: "char \<Rightarrow> bool" where
  "region_char c \<longleftrightarrow> is_lower c \<or> is_digit c \<or> c = CHR ''-''"

definition ECR_REGISTRY_RE :: "string \<Rightarrow> bool" where
  "ECR_REGISTRY_RE s \<longleftrightarrow>
     (let rest = drop 12 s; mid = takeWhile region_char (drop 9 rest)
      in length (take 12 s) = 12 \<and> list_all is_digit (take 12 s) \<and> starts_with rest ''.dkr.ecr.'' \<and> mid \<noteq> []
         \<and> drop (length mid) (drop 9 rest) = ''.amazonaws.com'')"

definition parseEcrImageUri :: "string \<Rightarrow> parsed_image option" where
  "parseEcrImageUri uri =
     (if CHR ''@'' \<in> set uri then None
      else case index_of CHR ''/'' uri of
        None \<Rightarrow> None
      | Some firstSlash \<Rightarrow>
          (if firstSlash = 0 then None
           else let registry = take firstSlash uri; rest = drop (firstSlash + 1) uri
                in if \<not> ECR_REGISTRY_RE registry then None
                   else case last_index_of CHR '':'' rest of
                     None \<Rightarrow> None
                   | Some lastColon \<Rightarrow>
                       (if lastColon = 0 then None
                        else let repository = take lastColon rest; tag = drop (lastColon + 1) rest
                             in if length repository = 0 \<or> length tag = 0 then None
                                else Some \<lparr>pi_registry = registry, pi_repository = repository, pi_tag = tag\<rparr>)))"

section \<open>The previous image\<close>

record pushed_tag =
  pt_tag :: string
  pt_pushedAt :: int

fun newest_older :: "string \<Rightarrow> int \<Rightarrow> pushed_tag list \<Rightarrow> pushed_tag option \<Rightarrow> pushed_tag option" where
  "newest_older cur curMs [] best = best"
| "newest_older cur curMs (i # is') best =
     newest_older cur curMs is'
       (if pt_tag i = cur then best
        else if curMs \<le> pt_pushedAt i then best
        else case best of None \<Rightarrow> Some i
               | Some b \<Rightarrow> if pt_pushedAt b < pt_pushedAt i then Some i else best)"

definition findPreviousImageTag :: "pushed_tag list \<Rightarrow> string \<Rightarrow> string option" where
  "findPreviousImageTag images currentTag =
     (case find (\<lambda>i. pt_tag i = currentTag) images of
        None \<Rightarrow> None
      | Some cur \<Rightarrow> map_option pt_tag (newest_older currentTag (pt_pushedAt cur) images None))"

section \<open>What they promise\<close>

lemma takeWhile_region: "mid \<noteq> [] \<Longrightarrow> list_all region_char mid \<Longrightarrow> takeWhile region_char (mid @ ''.amazonaws.com'') = mid"
proof -
  assume "list_all region_char mid"
  moreover have "\<not> region_char CHR ''.''" by code_simp
  ultimately show ?thesis by (simp add: takeWhile_append2 list_all_iff)
qed

lemma registry_form:
  assumes "length acct = 12" "list_all is_digit acct" "region \<noteq> []" "list_all region_char region"
  shows "ECR_REGISTRY_RE (acct @ ''.dkr.ecr.'' @ region @ ''.amazonaws.com'')"
  unfolding ECR_REGISTRY_RE_def Let_def using assms by (simp add: starts_with_def takeWhile_region)

lemma registry_chars:
  assumes "ECR_REGISTRY_RE r"
  shows "CHR ''/'' \<notin> set r" "CHR ''@'' \<notin> set r" "r \<noteq> []"
proof -
  let ?mid = "takeWhile region_char (drop 9 (drop 12 r))"
  have parts: "r = take 12 r @ ''.dkr.ecr.'' @ ?mid @ ''.amazonaws.com''"
    and d: "list_all is_digit (take 12 r)" and l: "length (take 12 r) = 12"
  proof -
    have "drop 12 r = take 9 (drop 12 r) @ drop 9 (drop 12 r)" by (rule append_take_drop_id [symmetric])
    moreover have "take 9 (drop 12 r) = ''.dkr.ecr.''"
    proof -
      have "starts_with (drop 12 r) ''.dkr.ecr.''" using assms unfolding ECR_REGISTRY_RE_def Let_def by blast
      moreover have "length ''.dkr.ecr.'' = 9" by simp
      ultimately show ?thesis unfolding starts_with_def by metis
    qed
    moreover have "drop 9 (drop 12 r) = ?mid @ ''.amazonaws.com''"
      using assms takeWhile_dropWhile_id [of region_char "drop 9 (drop 12 r)"]
      unfolding ECR_REGISTRY_RE_def Let_def by (metis dropWhile_eq_drop)
    ultimately show "r = take 12 r @ ''.dkr.ecr.'' @ ?mid @ ''.amazonaws.com''"
      by (metis append_assoc append_take_drop_id)
    show "list_all is_digit (take 12 r)" "length (take 12 r) = 12"
      using assms by (simp_all add: ECR_REGISTRY_RE_def Let_def)
  qed
  have m: "c \<in> set ?mid \<Longrightarrow> region_char c" for c by (auto dest: set_takeWhileD)
  have nd: "c \<notin> set (take 12 r)" if "\<not> is_digit c" for c
    using d that by (auto simp: list_all_iff)
  have no: "\<not> region_char CHR ''/''" "\<not> region_char CHR ''@''" "\<not> is_digit CHR ''/''" "\<not> is_digit CHR ''@''"
    by code_simp+
  show "CHR ''/'' \<notin> set r"
    by (subst parts) (use m nd no in auto)
  show "CHR ''@'' \<notin> set r"
    by (subst parts) (use m nd no in auto)
  show "r \<noteq> []" using l by auto
qed

lemma image_reference_iff:
  "parseEcrImageUri uri = Some p \<longleftrightarrow>
     uri = pi_registry p @ ''/'' @ pi_repository p @ '':'' @ pi_tag p
     \<and> ECR_REGISTRY_RE (pi_registry p) \<and> pi_repository p \<noteq> [] \<and> pi_tag p \<noteq> [] \<and> CHR '':'' \<notin> set (pi_tag p)
     \<and> CHR ''@'' \<notin> set uri"
    (is "?l \<longleftrightarrow> ?r")
proof
  assume l: ?l
  then obtain i where i: "index_of CHR ''/'' uri = Some i" and at: "CHR ''@'' \<notin> set uri"
    by (auto simp: parseEcrImageUri_def split: if_splits option.splits)
  let ?rest = "drop (i + 1) uri"
  have re: "ECR_REGISTRY_RE (take i uri)"
    using l i at by (auto simp: parseEcrImageUri_def Let_def split: if_splits option.splits)
  obtain j where j: "last_index_of CHR '':'' ?rest = Some j"
    using l i at re by (auto simp: parseEcrImageUri_def Let_def split: if_splits option.splits)
  have p: "p = \<lparr>pi_registry = take i uri, pi_repository = take j ?rest, pi_tag = drop (j + 1) ?rest\<rparr>"
    and ne: "take j ?rest \<noteq> []" "drop (j + 1) ?rest \<noteq> []"
    using l i at re j by (auto simp: parseEcrImageUri_def Let_def split: if_splits)
  have "uri = take i uri @ CHR ''/'' # ?rest"
    using i id_take_nth_drop [of i uri] by (simp add: index_of_Some)
  moreover have "?rest = take j ?rest @ CHR '':'' # drop (j + 1) ?rest" "CHR '':'' \<notin> set (drop (j + 1) ?rest)"
    using last_index_of_Some [OF j] by auto
  ultimately have "uri = take i uri @ CHR ''/'' # take j ?rest @ CHR '':'' # drop (j + 1) ?rest" by metis
  then show ?r using p re ne at \<open>CHR '':'' \<notin> set (drop (j + 1) ?rest)\<close> by simp
next
  assume r: ?r
  let ?rest = "pi_repository p @ CHR '':'' # pi_tag p"
  have i: "index_of CHR ''/'' uri = Some (length (pi_registry p))"
    using r registry_chars(1) [of "pi_registry p"] by (auto simp: index_of_Some nth_append)
  have u: "take (length (pi_registry p)) uri = pi_registry p" "drop (length (pi_registry p) + 1) uri = ?rest"
    using r by simp_all
  have j: "last_index_of CHR '':'' ?rest = Some (length (pi_repository p))"
    using r by (intro last_index_of_split) simp
  show ?l
    unfolding parseEcrImageUri_def i option.case Let_def u j
    using r registry_chars(3) [of "pi_registry p"] by auto
qed

text \<open>
  Parsing an image reference inverts printing it: a reference parses to a registry, a repository and a
  tag exactly when it is \<open>registry/repository:tag\<close> for an ECR registry, a nonempty repository and a nonempty
  tag without a colon, and no digest sign anywhere.
\<close>

theorem image_reference_roundtrip:
  "parseEcrImageUri uri = Some p \<longleftrightarrow>
     uri = pi_registry p @ ''/'' @ pi_repository p @ '':'' @ pi_tag p
     \<and> ECR_REGISTRY_RE (pi_registry p) \<and> pi_repository p \<noteq> [] \<and> pi_tag p \<noteq> [] \<and> CHR '':'' \<notin> set (pi_tag p)
     \<and> CHR ''@'' \<notin> set uri"
  by (rule image_reference_iff)

lemma image_reference_form:
  assumes "parseEcrImageUri uri = Some p"
  shows "uri = pi_registry p @ ''/'' @ pi_repository p @ '':'' @ pi_tag p" "pi_tag p \<noteq> []" "CHR '':'' \<notin> set (pi_tag p)"
  using assms unfolding image_reference_iff by blast+

text \<open>
  The rollback target is an older image than the current one, and no image between the two exists.
\<close>

definition older :: "string \<Rightarrow> int \<Rightarrow> pushed_tag \<Rightarrow> bool" where
  "older cur ms i \<longleftrightarrow> pt_tag i \<noteq> cur \<and> pt_pushedAt i < ms"

definition newest_among :: "string \<Rightarrow> int \<Rightarrow> pushed_tag set \<Rightarrow> pushed_tag option \<Rightarrow> bool" where
  "newest_among cur ms S best \<longleftrightarrow>
     (case best of None \<Rightarrow> \<forall>i \<in> S. \<not> older cur ms i
      | Some b \<Rightarrow> b \<in> S \<and> older cur ms b \<and> (\<forall>i \<in> S. older cur ms i \<longrightarrow> pt_pushedAt i \<le> pt_pushedAt b))"

lemma newest_older_spec:
  "newest_among cur ms S best \<Longrightarrow> newest_among cur ms (S \<union> set images) (newest_older cur ms images best)"
proof (induction images arbitrary: S best)
  case (Cons i images)
  let ?best = "if pt_tag i = cur then best else if ms \<le> pt_pushedAt i then best
     else case best of None \<Rightarrow> Some i | Some b \<Rightarrow> if pt_pushedAt b < pt_pushedAt i then Some i else best"
  have "newest_among cur ms (insert i S) ?best"
  proof (cases "older cur ms i")
    case True
    with Cons.prems show ?thesis by (cases best) (auto simp: newest_among_def older_def)
  next
    case False
    then have "?best = best" by (auto simp: older_def)
    with False Cons.prems show ?thesis by (cases best) (auto simp: newest_among_def)
  qed
  from Cons.IH [OF this] show ?case by simp
qed simp

lemma previous_image:
  assumes "distinct (map pt_tag images)"
  shows "case findPreviousImageTag images cur of
      None \<Rightarrow> (\<forall>c \<in> set images. pt_tag c = cur \<longrightarrow> (\<forall>i \<in> set images. pt_pushedAt c \<le> pt_pushedAt i))
    | Some t \<Rightarrow> \<exists>c \<in> set images. \<exists>b \<in> set images. pt_tag c = cur \<and> pt_tag b = t \<and> pt_pushedAt b < pt_pushedAt c
        \<and> (\<forall>i \<in> set images. pt_pushedAt i < pt_pushedAt c \<longrightarrow> pt_pushedAt i \<le> pt_pushedAt b)"
proof (cases "find (\<lambda>i. pt_tag i = cur) images")
  case None
  then show ?thesis using find_None_iff [of "\<lambda>i. pt_tag i = cur" images] by (auto simp: findPreviousImageTag_def)
next
  case (Some c)
  then have c: "c \<in> set images" "pt_tag c = cur" by (auto dest: find_SomeD)
  have u: "d = c" if "d \<in> set images" "pt_tag d = cur" for d
    using assms that c by (auto simp: distinct_map inj_on_def)
  have n: "newest_among cur (pt_pushedAt c) (set images) (newest_older cur (pt_pushedAt c) images None)"
    using newest_older_spec [of cur "pt_pushedAt c" "{}" None images] by (simp add: newest_among_def)
  show ?thesis
  proof (cases "newest_older cur (pt_pushedAt c) images None")
    case None
    have "pt_pushedAt c \<le> pt_pushedAt i" if "i \<in> set images" for i
    proof (cases "pt_tag i = cur")
      case False
      with n None that show ?thesis by (auto simp: newest_among_def older_def)
    qed (use u [OF that] in simp)
    with u show ?thesis by (simp add: findPreviousImageTag_def Some None) blast
  next
    case b: (Some b)
    have "pt_pushedAt i \<le> pt_pushedAt b" if "i \<in> set images" "pt_pushedAt i < pt_pushedAt c" for i
    proof -
      have "pt_tag i \<noteq> cur" using u [OF that(1)] that(2) by auto
      with n b that show ?thesis by (auto simp: newest_among_def older_def)
    qed
    with n b c show ?thesis by (auto simp: findPreviousImageTag_def Some newest_among_def older_def)
  qed
qed

end
