(* ===== verification/Project_Registry.thy ===== *)
theory Project_Registry
  imports Publish
begin

text \<open>
  The advisory documents of a project: the component index of \<open>packages/cli/src/project/registry.ts\<close>, the
  environment markers of \<open>preview/markers.ts\<close>, and \<open>recordPreviewState\<close> and \<open>recordDeployEvent\<close> of
  \<open>commands/deploy.ts\<close>. A listing of keys or owners is a parameter.
\<close>

section \<open>The component index\<close>

definition MAX_INDEX_RETRIES :: nat where "MAX_INDEX_RETRIES = 5"

definition loadProjectIndex :: "string \<Rightarrow> string \<Rightarrow> state_bucket \<Rightarrow> project_index option" where
  "loadProjectIndex clusterId project s =
     (case getJson s (projectIndexKey clusterId project) of None \<Rightarrow> None | Some (raw, _) \<Rightarrow> parseProjectIndex raw)"

definition loadProjectIndexes :: "string list \<Rightarrow> state_bucket \<Rightarrow> project_index list" where
  "loadProjectIndexes keys s =
     List.map_filter (\<lambda>k. case getJson s k of None \<Rightarrow> None | Some (raw, _) \<Rightarrow> parseProjectIndex raw) keys"

definition index_upsert_decision ::
  "upsert_component_input \<Rightarrow> document option \<Rightarrow> (document, unit, unit) decision" where
  "index_upsert_decision i existing =
     Write (IndexJson (upsertComponentEntry (Option.bind existing parseProjectIndex) i)) ()"

definition upsertProjectIndex ::
  "string \<Rightarrow> upsert_component_input \<Rightarrow> schedule \<Rightarrow> state_bucket \<Rightarrow> state_bucket" where
  "upsertProjectIndex clusterId i interfere s =
     fst (cas_loop getJson putJson deleteObject (projectIndexKey clusterId (uc_project i))
       (\<lambda>_. index_upsert_decision i) interfere 0 MAX_INDEX_RETRIES s)"

definition index_removal_decision ::
  "string option \<Rightarrow> string \<Rightarrow> document option \<Rightarrow> (document, unit, unit) decision" where
  "index_removal_decision component now existing =
     (case existing of
        None \<Rightarrow> Finish ()
      | Some raw \<Rightarrow>
          (case parseProjectIndex raw of
             None \<Rightarrow> Finish ()
           | Some x \<Rightarrow>
               (case removeComponentEntry x component now of
                  None \<Rightarrow> Delete ()
                | Some x' \<Rightarrow> Write (IndexJson x') ())))"

definition removeFromProjectIndex ::
  "string \<Rightarrow> string \<Rightarrow> string option \<Rightarrow> (nat \<Rightarrow> string) \<Rightarrow> schedule \<Rightarrow> state_bucket \<Rightarrow> state_bucket" where
  "removeFromProjectIndex clusterId project component clock interfere s =
     fst (cas_loop getJson putJson deleteObject (projectIndexKey clusterId project)
       (\<lambda>i. index_removal_decision component (clock i)) interfere 0 MAX_INDEX_RETRIES s)"

section \<open>Markers and history\<close>

definition loadEnvMarkers :: "string \<Rightarrow> string list \<Rightarrow> state_bucket \<Rightarrow> preview_marker list" where
  "loadEnvMarkers clusterId owners s =
     List.map_filter (\<lambda>o'. case getJson s (previewMarkerKey clusterId o') of
        None \<Rightarrow> None | Some (raw, _) \<Rightarrow> parsePreviewMarker raw) owners"

text \<open>The domains of the whole configuration; one that cannot be projected makes the record fail.\<close>

definition projected_domains :: "launch_pad_config \<Rightarrow> string option \<Rightarrow> domain_error + string list" where
  "projected_domains config env =
     foldr (\<lambda>s r. res_bind (resolveServiceDomain (sd_domain s)
          (case sd_domainPattern s of Some p \<Rightarrow> Some p | None \<Rightarrow> lc_domainPattern config) (sd_name s) env)
        (\<lambda>d. res_bind r (\<lambda>ds. Inr (case d of None \<Rightarrow> ds | Some x \<Rightarrow> x # ds)))) (lc_service config) (Inr [])"

text \<open>Best effort: whatever fails, the deploy goes on and the bucket is as it was.\<close>

definition recordPreviewState ::
  "(string \<Rightarrow> int option) \<Rightarrow> aws_env \<Rightarrow> launch_pad_config \<Rightarrow> string \<Rightarrow> int option \<Rightarrow> string \<Rightarrow> state_bucket \<Rightarrow> state_bucket" where
  "recordPreviewState date_parse aws config env ttlMs now s =
     (let owner = footprintOwner (lc_project config) (lc_component config) (Some env);
          key = previewMarkerKey (aws_clusterId aws) owner;
          prior = Option.bind (s key) parsePreviewMarker
      in case projected_domains config (Some env) of
           Inl _ \<Rightarrow> s
         | Inr ds \<Rightarrow>
             (case buildPreviewMarker date_parse \<lparr>bm_project = lc_project config, bm_component = lc_component config,
                     bm_env = env, bm_now = now, bm_ttlMs = ttlMs, bm_domains = ds, bm_prior = prior\<rparr> of
                None \<Rightarrow> s
              | Some m \<Rightarrow> (case putJson s key (PreviewJson m) Always of None \<Rightarrow> s | Some s' \<Rightarrow> s')))"

definition recordDeployEvent ::
  "aws_env \<Rightarrow> string \<Rightarrow> string \<Rightarrow> string \<Rightarrow> string option \<Rightarrow> deploy_kind \<Rightarrow> event_service list \<Rightarrow> bool option \<Rightarrow> string
   \<Rightarrow> state_bucket \<Rightarrow> state_bucket" where
  "recordDeployEvent aws callerArn stamp ownerProject env kind services converged eid s =
     (case putJson s (deployEventKey (aws_clusterId aws) ownerProject stamp eid)
             (EventJson (buildDeployEvent stamp callerArn (aws_clusterId aws) ownerProject env kind services converged)) Always of
        None \<Rightarrow> s | Some s' \<Rightarrow> s')"

section \<open>What they promise\<close>

definition index_at :: "string \<Rightarrow> string \<Rightarrow> state_bucket \<Rightarrow> project_index option" where
  "index_at c project s = Option.bind (s (projectIndexKey c project)) parseProjectIndex"

lemma loadProjectIndex_at: "loadProjectIndex c p s = index_at c p s"
  by (auto simp: loadProjectIndex_def index_at_def getJson_def split: option.splits)

text \<open>
  The pre-flight check and the registration are two steps: the registration keeps the names of the
  components apart when no one registered a conflicting component in between.
\<close>

lemma upsert_index_alone:
  "upsertProjectIndex c i (\<lambda>_ t. t) s =
     s(projectIndexKey c (uc_project i) := Some (IndexJson (upsertComponentEntry (index_at c (uc_project i) s) i)))"
  unfolding upsertProjectIndex_def
  by (subst cas_alone) (simp_all add: MAX_INDEX_RETRIES_def index_upsert_decision_def index_at_def)

lemma registered_components_apart:
  assumes "names_apart (index_at c (uc_project i) s)"
    and "findCrossComponentServiceConflicts (loadProjectIndex c (uc_project i) s) (uc_component i) (uc_services i) = []"
    and "index_at c (uc_project i) (upsertProjectIndex c i (\<lambda>_ t. t) s) = Some x"
  shows "names_apart (Some x)"
proof -
  have "x = upsertComponentEntry (index_at c (uc_project i) s) i"
    using assms(3) unfolding upsert_index_alone by (auto simp: index_at_def parse_Some)
  with upsert_apart assms(1,2) show ?thesis by (simp add: loadProjectIndex_at)
qed

lemma removed_components_apart:
  assumes "names_apart (index_at c project s)"
  shows "names_apart (index_at c project (removeFromProjectIndex c project component clock (\<lambda>_ t. t) s))"
proof -
  let ?k = "projectIndexKey c project"
  have alone: "removeFromProjectIndex c project component clock (\<lambda>_ t. t) s =
      (case index_removal_decision component (clock 0) (s ?k) of Finish _ \<Rightarrow> s | Fail _ \<Rightarrow> s
       | Write d _ \<Rightarrow> s(?k := Some d) | Delete _ \<Rightarrow> s(?k := None))"
    unfolding removeFromProjectIndex_def
    by (subst cas_alone) (simp_all add: MAX_INDEX_RETRIES_def split: decision.split)
  have none: "names_apart None" by (simp add: names_apart_def claimed_def)
  show ?thesis
  proof (cases "index_at c project s")
    case None
    then show ?thesis using none
      by (auto simp: alone index_removal_decision_def index_at_def split: option.splits)
  next
    case (Some x)
    then obtain raw where raw: "s ?k = Some raw" "parseProjectIndex raw = Some x" by (auto simp: index_at_def split: option.splits bind_splits)
    have r: "names_apart (removeComponentEntry x component (clock 0))"
      using remove_apart assms by (simp add: Some)
    show ?thesis
    proof (cases "removeComponentEntry x component (clock 0)")
      case None
      then show ?thesis using none by (simp add: alone index_removal_decision_def raw index_at_def)
    next
      case (Some x')
      then have "index_at c project (removeFromProjectIndex c project component clock (\<lambda>_ t. t) s) = parseProjectIndex (IndexJson x')"
        by (simp add: alone index_removal_decision_def raw index_at_def)
      with r none Some show ?thesis by (simp add: parseProjectIndex_def)
    qed
  qed
qed

end
