(* ===== verification/Deploy_Request.thy ===== *)
theory Deploy_Request
  imports Build_Context Ecr Project_Registry
begin

text \<open>
  The first part of \<open>runDeploy\<close> (\<open>packages/cli/src/commands/deploy.ts\<close>), before any call to the cloud: the
  options, the services they select and the checks on the selection. \<open>changedPaths\<close> is what the version
  control program reports for a reference, \<open>Inl\<close> when the repository or the reference does not resolve.
\<close>

record deploy_options =
  do_service :: "string option"
  do_changed :: "string option"
  do_env :: "string option"
  do_ttl :: "string option"
  do_wait :: bool
  do_yes :: bool
  do_dryRun :: bool
  do_create :: bool
  do_repair :: bool
  do_recreate :: bool
  do_restart :: bool
  do_image :: "string option"
  do_remoteBuild :: bool
  do_allowNewServices :: bool
  do_timeout :: "string option"

datatype request_error =
    InvalidEnv string
  | TtlWithoutEnv
  | InvalidTtl string
  | ServiceAndChanged
  | NoSuchService string
  | ChangedCombined
  | NotInRepository
  | ChangedFailed changed_error
  | EnvSecretConflict string "string list"
  | ImageWithRestart
  | ImageNeedsOneService
  | InvalidImage string
  | RemoteBuildCombined
  | DockerfileOutsideContext string

definition request_ttl :: "deploy_options \<Rightarrow> request_error + int option" where
  "request_ttl opts =
     (case do_ttl opts of
        None \<Rightarrow> Inr None
      | Some t \<Rightarrow>
          (if do_env opts = None then Inl TtlWithoutEnv
           else case parsePreviewTtlMs t of None \<Rightarrow> Inl (InvalidTtl t) | Some ms \<Rightarrow> Inr (Some ms)))"

definition named_services :: "deploy_options \<Rightarrow> service_decl list \<Rightarrow> service_decl list" where
  "named_services opts declared =
     (case do_service opts of Some n \<Rightarrow> if n = [] then declared else filter (\<lambda>s. sd_name s = n) declared
      | None \<Rightarrow> declared)"

text \<open>\<open>Inr None\<close>: nothing changed, a clean end before any call to the cloud.\<close>

definition select_services ::
  "deploy_options \<Rightarrow> service_decl list \<Rightarrow> string \<Rightarrow> string option \<Rightarrow> (string \<Rightarrow> changed_error + string list)
   \<Rightarrow> request_error + service_decl list option" where
  "select_services opts declared dir repoRoot changedPaths =
     (if do_service opts \<noteq> None \<and> do_changed opts \<noteq> None then Inl ServiceAndChanged
      else
        (let named = named_services opts declared
         in if named = [] \<and> do_service opts \<notin> {None, Some []} then Inl (NoSuchService (the (do_service opts)))
            else case do_changed opts of
              None \<Rightarrow> Inr (Some named)
            | Some ref \<Rightarrow>
                (if do_image opts \<noteq> None \<or> do_restart opts then Inl ChangedCombined
                 else case repoRoot of
                   None \<Rightarrow> Inl NotInRepository
                 | Some repo \<Rightarrow>
                     (case changedPaths ref of
                        Inl e \<Rightarrow> Inl (ChangedFailed e)
                      | Inr paths \<Rightarrow>
                          (let buildable = filter (\<lambda>s. \<not> isDatabaseService s) declared;
                               changed = selectChangedServices (buildServiceBuildPaths
                                 (map (\<lambda>s. (sd_name s, sd_context s, sd_dockerfile s)) buildable) dir repo) paths;
                               services = filter (\<lambda>s. sd_name s \<in> set changed) named
                           in Inr (if services = [] then None else Some services))))))"

definition first_conflict :: "service_decl list \<Rightarrow> request_error option" where
  "first_conflict services =
     (case find (\<lambda>s. findEnvSecretConflicts (sd_env s) (sd_secrets s) \<noteq> []) services of
        None \<Rightarrow> None
      | Some s \<Rightarrow> Some (EnvSecretConflict (sd_name s) (findEnvSecretConflicts (sd_env s) (sd_secrets s))))"

definition image_option :: "deploy_options \<Rightarrow> service_decl list \<Rightarrow> request_error option" where
  "image_option opts services =
     (case do_image opts of
        None \<Rightarrow> None
      | Some uri \<Rightarrow>
          (if do_restart opts then Some ImageWithRestart
           else if length services \<noteq> 1 then Some ImageNeedsOneService
           else if parseEcrImageUri uri = None then Some (InvalidImage uri) else None))"

definition reuses_images :: "deploy_options \<Rightarrow> bool" where
  "reuses_images opts \<longleftrightarrow> do_restart opts \<or> do_image opts \<noteq> None"

definition remote_build_option :: "deploy_options \<Rightarrow> service_decl list \<Rightarrow> string \<Rightarrow> request_error option" where
  "remote_build_option opts services dir =
     (if \<not> do_remoteBuild opts then None
      else if reuses_images opts then Some RemoteBuildCombined
      else map_option (\<lambda>s. DockerfileOutsideContext (sd_name s))
             (find (\<lambda>s. \<not> isDatabaseService s
                \<and> dockerfileInContext (path_resolve dir (sd_context s)) (path_resolve dir (sd_dockerfile s)) = None) services))"

record deploy_request =
  rq_owner :: string
  rq_ttlMs :: "int option"
  rq_services :: "service_decl list"
  rq_partial :: bool
  rq_reuse :: bool

definition is_partial :: "deploy_options \<Rightarrow> bool" where
  "is_partial opts \<longleftrightarrow> do_service opts \<noteq> None \<or> do_changed opts \<noteq> None"

definition deploy_request ::
  "deploy_options \<Rightarrow> launch_pad_config \<Rightarrow> string \<Rightarrow> string option \<Rightarrow> (string \<Rightarrow> changed_error + string list)
   \<Rightarrow> request_error + deploy_request option" where
  "deploy_request opts config dir repoRoot changedPaths =
     (if (case do_env opts of None \<Rightarrow> False | Some e \<Rightarrow> \<not> LABEL_REGEX e) then Inl (InvalidEnv (the (do_env opts)))
      else res_bind (request_ttl opts) (\<lambda>ttl.
        res_bind (select_services opts (lc_service config) dir repoRoot changedPaths) (\<lambda>sel.
          case sel of
            None \<Rightarrow> Inr None
          | Some services \<Rightarrow>
              (case first_conflict services of
                 Some e \<Rightarrow> Inl e
               | None \<Rightarrow>
                   (case image_option opts services of
                      Some e \<Rightarrow> Inl e
                    | None \<Rightarrow>
                        (case remote_build_option opts services dir of
                           Some e \<Rightarrow> Inl e
                         | None \<Rightarrow> Inr (Some \<lparr>rq_owner = footprintOwner (lc_project config) (lc_component config) (do_env opts),
                             rq_ttlMs = ttl, rq_services = services, rq_partial = is_partial opts,
                             rq_reuse = reuses_images opts\<rparr>)))))))"

section \<open>Images of earlier builds\<close>

datatype image_error =
    ImageMalformed string
  | ImageOtherRegistry string
  | ImageOtherRepository string
  | ImageTagMissing string string
  | NoPublishedImage "string list"
  | DesiredUnreadable string

text \<open>\<open>imageExists repo tag\<close> asks the account's own registry.\<close>

definition loadOverrideImage ::
  "aws_env \<Rightarrow> (string \<Rightarrow> string \<Rightarrow> bool) \<Rightarrow> string \<Rightarrow> string \<Rightarrow> string \<Rightarrow> image_error + (string, string) assoc" where
  "loadOverrideImage aws imageExists project service uri =
     (case parseEcrImageUri uri of
        None \<Rightarrow> Inl (ImageMalformed uri)
      | Some p \<Rightarrow>
          (if pi_registry p \<noteq> aws_accountId aws @ ''.dkr.ecr.'' @ aws_region aws @ ''.amazonaws.com''
           then Inl (ImageOtherRegistry (pi_registry p))
           else if pi_repository p \<noteq> ecrRepositoryName project service then Inl (ImageOtherRepository (pi_repository p))
           else if \<not> imageExists (pi_repository p) (pi_tag p) then Inl (ImageTagMissing (pi_repository p) (pi_tag p))
           else Inr [(service, uri)]))"

fun published_images ::
  "aws_env \<Rightarrow> string \<Rightarrow> state_bucket \<Rightarrow> string list \<Rightarrow> (string, string) assoc \<Rightarrow> image_error + (string, string) assoc" where
  "published_images aws owner s [] images = Inr images"
| "published_images aws owner s (n # ns) images =
     (case s (desiredKey (aws_clusterId aws) n) of
        None \<Rightarrow> published_images aws owner s ns images
      | Some raw \<Rightarrow>
          (case parseDesiredState raw of
             None \<Rightarrow> Inl (DesiredUnreadable n)
           | Some d \<Rightarrow>
               published_images aws owner s ns
                 (fold (\<lambda>x m. if sc_project x = owner \<and> map_of m (sc_service x) = None
                              then m @ [(sc_service x, sc_image x)] else m) (ds_services d) images)))"

definition loadRestartImages ::
  "aws_env \<Rightarrow> service_decl list \<Rightarrow> string \<Rightarrow> string list \<Rightarrow> state_bucket \<Rightarrow> image_error + (string, string) assoc" where
  "loadRestartImages aws services owner nodeIds s =
     res_bind (published_images aws owner s nodeIds []) (\<lambda>images.
       let missing = map sd_name (filter (\<lambda>x. map_of images (sd_name x) = None) services)
       in if missing = [] then Inr images else Inl (NoPublishedImage missing))"

section \<open>What a request promises\<close>

lemma selected_changed:
  assumes "select_services opts declared dir repoRoot changedPaths = Inr (Some services)" and "do_changed opts = Some ref"
  obtains P where "services = filter P (named_services opts declared)"
proof -
  obtain repo where "repoRoot = Some repo"
    using assms by (cases repoRoot) (simp_all add: select_services_def Let_def split: if_splits)
  moreover from this obtain paths where "changedPaths ref = Inr paths"
    using assms by (cases "changedPaths ref") (simp_all add: select_services_def Let_def split: if_splits)
  ultimately have "\<exists>P. filter P (named_services opts declared) = services"
    using assms by (simp add: select_services_def Let_def split: if_splits) blast
  with that show ?thesis by blast
qed

text \<open>
  An accepted request is coherent: its services are declared ones, in their order; the whole
  configuration is deployed unless a subset was asked for; a subset never comes without the upserting merge; no
  secret is shadowed by a plain variable; an override names one service and a well-formed image; and what is
  built remotely has its Dockerfile inside its context.
\<close>

theorem accepted_request_coherent:
  assumes "deploy_request opts config dir repoRoot changedPaths = Inr (Some r)"
  shows "subseq (rq_services r) (lc_service config)
    \<and> (rq_services r \<noteq> lc_service config \<longrightarrow> rq_partial r)
    \<and> (\<forall>s \<in> set (rq_services r). findEnvSecretConflicts (sd_env s) (sd_secrets s) = [])
    \<and> (\<forall>uri. do_image opts = Some uri \<longrightarrow> rq_reuse r \<and> \<not> do_restart opts \<and> length (rq_services r) = 1 \<and> parseEcrImageUri uri \<noteq> None)
    \<and> (rq_ttlMs r \<noteq> None \<longrightarrow> do_env opts \<noteq> None)
    \<and> (do_remoteBuild opts \<longrightarrow> \<not> rq_reuse r \<and> (\<forall>s \<in> set (rq_services r). \<not> isDatabaseService s \<longrightarrow>
         dockerfileInContext (path_resolve dir (sd_context s)) (path_resolve dir (sd_dockerfile s)) \<noteq> None))"
proof -
  obtain ttl where ttl: "request_ttl opts = Inr ttl"
    using assms by (auto simp: deploy_request_def res_bind_eq_Inr split: if_splits)
  have env: "\<not> (case do_env opts of None \<Rightarrow> False | Some e \<Rightarrow> \<not> LABEL_REGEX e)"
    using assms by (auto simp: deploy_request_def split: if_splits)
  obtain services where sel: "select_services opts (lc_service config) dir repoRoot changedPaths = Inr (Some services)"
    and c: "first_conflict services = None" and i: "image_option opts services = None"
    and b: "remote_build_option opts services dir = None"
    and r: "r = \<lparr>rq_owner = footprintOwner (lc_project config) (lc_component config) (do_env opts),
        rq_ttlMs = ttl, rq_services = services, rq_partial = is_partial opts, rq_reuse = reuses_images opts\<rparr>"
    using assms env by (auto simp: deploy_request_def ttl res_bind_eq_Inr split: option.splits)
  have sub: "subseq services (lc_service config)" and part: "services \<noteq> lc_service config \<longrightarrow> is_partial opts"
  proof -
    let ?named = "named_services opts (lc_service config)"
    have n: "subseq ?named (lc_service config)" by (auto simp: named_services_def split: option.splits)
    show "subseq services (lc_service config)"
    proof (cases "do_changed opts")
      case None
      with sel n show ?thesis by (auto simp: select_services_def Let_def split: if_splits)
    next
      case (Some ref)
      with sel obtain P where "services = filter P ?named" by (rule selected_changed)
      then have "subseq services ?named" by simp
      with n show ?thesis by (rule subseq_order.trans [rotated])
    qed
    show "services \<noteq> lc_service config \<longrightarrow> is_partial opts"
    proof (rule ccontr)
      assume "\<not> (services \<noteq> lc_service config \<longrightarrow> is_partial opts)"
      then have "do_service opts = None" "do_changed opts = None" "services \<noteq> lc_service config"
        by (simp_all add: is_partial_def)
      with sel show False by (simp add: select_services_def named_services_def Let_def)
    qed
  qed
  have "findEnvSecretConflicts (sd_env s) (sd_secrets s) = []" if "s \<in> set services" for s
    using c that by (auto simp: first_conflict_def find_None_iff split: option.splits)
  moreover have "do_image opts = Some uri \<Longrightarrow> \<not> do_restart opts \<and> length services = 1 \<and> parseEcrImageUri uri \<noteq> None" for uri
    using i by (auto simp: image_option_def split: if_splits)
  moreover have "do_remoteBuild opts \<Longrightarrow> \<not> reuses_images opts \<and> (\<forall>s \<in> set services. \<not> isDatabaseService s \<longrightarrow>
      dockerfileInContext (path_resolve dir (sd_context s)) (path_resolve dir (sd_dockerfile s)) \<noteq> None)"
    using b by (auto simp: remote_build_option_def find_None_iff split: if_splits)
  moreover have "ttl \<noteq> None \<Longrightarrow> do_env opts \<noteq> None"
    using ttl by (auto simp: request_ttl_def split: option.splits if_splits)
  ultimately show ?thesis
    using sub part by (simp add: r) (auto simp: reuses_images_def)
qed

text \<open>An override only ever names an existing tag of the service's own repository in the account's own registry.\<close>

theorem override_is_own_build:
  assumes "loadOverrideImage aws imageExists project service uri = Inr images"
  shows "\<exists>tag. images = [(service, uri)] \<and> tag \<noteq> [] \<and> CHR '':'' \<notin> set tag \<and> imageExists (ecrRepositoryName project service) tag
    \<and> uri = aws_accountId aws @ ''.dkr.ecr.'' @ aws_region aws @ ''.amazonaws.com/'' @ project @ ''/'' @ service @ '':'' @ tag"
proof -
  obtain p where p: "parseEcrImageUri uri = Some p"
    using assms by (auto simp: loadOverrideImage_def split: option.splits)
  then show ?thesis
    using assms image_reference_form [OF p] by (auto simp: loadOverrideImage_def ecrRepositoryName_def split: if_splits)
qed

end
