(* ===== verification/Deploy_Plan.thy ===== *)
theory Deploy_Plan
  imports Deploy_Request Candidates Provision
begin

text \<open>
  The second part of \<open>runDeploy\<close> (\<open>packages/cli/src/commands/deploy.ts\<close>): from an accepted request and the
  state of the bucket to the placement of every replica and the nodes to create or repair. It only reads.
  \<open>rng\<close> and \<open>rng'\<close> are the random draws for names, \<open>observe\<close> the state of an instance at the provider.
\<close>

section \<open>The edge and the pool\<close>

definition EDGE_BOOTSTRAP_NODE_ID :: string where "EDGE_BOOTSTRAP_NODE_ID = ''edge-1''"

datatype plan_error =
    ClusterUnreadable cluster_store_error
  | PoolUnreadable candidate_error
  | EdgesAmbiguous "string list"
  | NoAppNodes bool
  | DomainInvalid domain_error
  | NotPublished string
  | NoPlacement placement_error
  | DomainClash string string string
  | ProvisionPlanFailed provision_error
  | UnrepairedDrift "(string \<times> drift_class) list"
  | NodesBlocked "(string \<times> blocked_reason) list"

definition edge_node_for :: "cluster_config option \<Rightarrow> (string, node_entry) assoc \<Rightarrow> plan_error + string" where
  "edge_node_for clusterCfg nodes =
     (case Option.bind clusterCfg cc_defaultEdge of
        Some e \<Rightarrow> Inr e
      | None \<Rightarrow>
          (let edges = map ne_nodeId (filter (\<lambda>n. nodeFrontsIngress (ne_role n)) (map snd nodes))
           in if 1 < length edges then Inl (EdgesAmbiguous edges)
              else Inr (case edges of [] \<Rightarrow> EDGE_BOOTSTRAP_NODE_ID | e # _ \<Rightarrow> e)))"

text \<open>An empty pool gets one unbounded candidate, to be created for real. A generated name is never missing.\<close>

definition bootstrap_pool ::
  "bool \<Rightarrow> bool \<Rightarrow> (string, node_entry) assoc \<Rightarrow> string \<Rightarrow> draws \<Rightarrow> string list \<times> candidate_node list
   \<Rightarrow> string list \<times> candidate_node list" where
  "bootstrap_pool reuse create nodes edge rng pool =
     (if fst pool = [] \<and> \<not> reuse \<and> create
      then (case generateNodeName (map fst nodes @ [edge]) rng 0 of
              None \<Rightarrow> pool
            | Some (name, _) \<Rightarrow> (fst pool @ [name], snd pool @ [bootstrapCandidateNode name Arm64]))
      else pool)"

section \<open>Where the replicas go\<close>

record deploy_resolved =
  dr_placements :: "placement list"
  dr_pool :: "string list"
  dr_edge :: "string option"
  dr_domain :: "string option"

definition publishedNodeOf :: "deployed_placement \<Rightarrow> string \<Rightarrow> string option" where
  "publishedNodeOf prior serviceName =
     map_option fst (find (\<lambda>(_, occs). list_ex (\<lambda>o'. no_service o' = serviceName) occs) (dp_byNode prior))"

definition pinned_placements :: "deployed_placement \<Rightarrow> string \<Rightarrow> placement list" where
  "pinned_placements prior serviceName =
     sort_key (\<lambda>p. coll_key (pl_nodeId p))
       (List.map_filter (\<lambda>(n, occs).
          map_option (\<lambda>o'. \<lparr>pl_nodeId = n, pl_replicas = no_replicas o'\<rparr>) (find (\<lambda>o'. no_service o' = serviceName) occs))
        (dp_byNode prior))"

definition service_domain :: "launch_pad_config \<Rightarrow> string option \<Rightarrow> service_decl \<Rightarrow> plan_error + string option" where
  "service_domain config env s =
     (case resolveServiceDomain (sd_domain s)
             (case sd_domainPattern s of Some p \<Rightarrow> Some p | None \<Rightarrow> lc_domainPattern config) (sd_name s) env of
        Inl e \<Rightarrow> Inl (DomainInvalid e) | Inr d \<Rightarrow> Inr d)"

text \<open>Reused images are pinned to where they run.\<close>

fun resolve_pinned ::
  "launch_pad_config \<Rightarrow> string option \<Rightarrow> string \<Rightarrow> deployed_placement \<Rightarrow> service_decl list
   \<Rightarrow> (string, deploy_resolved) assoc \<Rightarrow> plan_error + (string, deploy_resolved) assoc" where
  "resolve_pinned config env edge prior [] acc = Inr acc"
| "resolve_pinned config env edge prior (s # ss) acc =
     res_bind (service_domain config env s) (\<lambda>domain.
       let ps = pinned_placements prior (sd_name s)
       in if ps = [] then Inl (NotPublished (sd_name s))
          else resolve_pinned config env edge prior ss
                 (assoc_set (sd_name s) \<lparr>dr_placements = ps, dr_pool = map pl_nodeId ps,
                    dr_edge = (if serviceHasIngress s then Some edge else None), dr_domain = domain\<rparr> acc))"

definition cluster_input :: "deployed_placement \<Rightarrow> service_decl \<Rightarrow> cluster_service_input" where
  "cluster_input prior s =
     \<lparr>cs_name = sd_name s, cs_replicas = sd_replicas s, cs_cpu = sd_cpu s, cs_memory = sd_memory s,
      cs_maxSurge = ro_maxSurge (sd_rollout s), cs_isWeb = serviceHasIngress s, cs_hasVolumes = (0 < length (sd_volumes s)),
      cs_stickyNodeId = (if 0 < length (sd_volumes s) then publishedNodeOf prior (sd_name s) else None)\<rparr>"

fun service_domains ::
  "launch_pad_config \<Rightarrow> string option \<Rightarrow> service_decl list \<Rightarrow> plan_error + (string, string option) assoc" where
  "service_domains config env [] = Inr []"
| "service_domains config env (s # ss) =
     res_bind (service_domain config env s) (\<lambda>d. res_bind (service_domains config env ss) (\<lambda>ds. Inr ((sd_name s, d) # ds)))"

definition resolved_of_plan ::
  "service_decl list \<Rightarrow> string \<Rightarrow> (string, string option) assoc \<Rightarrow> cluster_service_plan \<Rightarrow> string \<times> deploy_resolved" where
  "resolved_of_plan services edge domains p =
     (cp_service p, \<lparr>dr_placements = cp_placements p, dr_pool = cp_pool p,
        dr_edge = (case find (\<lambda>s. sd_name s = cp_service p) services of
                     Some s \<Rightarrow> if serviceHasIngress s then Some edge else None | None \<Rightarrow> None),
        dr_domain = (case map_of domains (cp_service p) of Some d \<Rightarrow> d | None \<Rightarrow> None)\<rparr>)"

text \<open>The candidates, those added included, come back with the placements.\<close>

definition resolve_planned ::
  "launch_pad_config \<Rightarrow> string option \<Rightarrow> string \<Rightarrow> bool \<Rightarrow> (string, node_entry) assoc \<Rightarrow> deployed_placement \<Rightarrow> draws
   \<Rightarrow> string list \<times> candidate_node list \<Rightarrow> service_decl list
   \<Rightarrow> plan_error + (string, deploy_resolved) assoc \<times> candidate_node list" where
  "resolve_planned config env edge autoAdd nodes prior rng pool services =
     res_bind (service_domains config env services) (\<lambda>domains.
       let inputs = map (cluster_input prior) services;
           maxAdd = (if autoAdd then nat (sum_by cs_replicas inputs) else 0)
       in case planClusterPlacementAutoAdd (snd pool) inputs maxAdd
                 (js_dedup (map fst nodes @ fst pool @ [edge])) rng of
            Inl e \<Rightarrow> Inl (NoPlacement e)
          | Inr (plans, added) \<Rightarrow>
              Inr (assoc_of (map (resolved_of_plan services edge domains) plans), snd pool @ added))"

section \<open>Checks and demands\<close>

definition app_node_ids :: "(string, deploy_resolved) assoc \<Rightarrow> string list" where
  "app_node_ids rs = js_dedup (concat (map (dr_pool \<circ> snd) rs))"

definition domain_of :: "(string, deploy_resolved) assoc \<Rightarrow> string \<Rightarrow> string option" where
  "domain_of rs name = Option.bind (map_of rs name) dr_domain"

fun domain_clash ::
  "(string, deploy_resolved) assoc \<Rightarrow> service_decl list \<Rightarrow> (string, string) assoc \<Rightarrow> plan_error option" where
  "domain_clash rs [] owners = None"
| "domain_clash rs (s # ss) owners =
     (case domain_of rs (sd_name s) of
        None \<Rightarrow> domain_clash rs ss owners
      | Some d \<Rightarrow>
          (case map_of owners d of
             Some prior \<Rightarrow> Some (DomainClash prior (sd_name s) d)
           | None \<Rightarrow> domain_clash rs ss ((d, sd_name s) # owners)))"

record load =
  ld_cpu :: int
  ld_memory :: int
  ld_surgeCpu :: int
  ld_surgeMemory :: int

definition no_load :: load where
  "no_load = \<lparr>ld_cpu = 0, ld_memory = 0, ld_surgeCpu = 0, ld_surgeMemory = 0\<rparr>"

definition add_load :: "service_decl \<Rightarrow> placement \<Rightarrow> (string, load) assoc \<Rightarrow> (string, load) assoc" where
  "add_load s p m =
     (let d = assoc_get_or no_load m (pl_nodeId p); surge = min (ro_maxSurge (sd_rollout s)) (pl_replicas p)
      in assoc_set (pl_nodeId p)
           \<lparr>ld_cpu = ld_cpu d + sd_cpu s * pl_replicas p, ld_memory = ld_memory d + sd_memory s * pl_replicas p,
            ld_surgeCpu = max (ld_surgeCpu d) (sd_cpu s * surge),
            ld_surgeMemory = max (ld_surgeMemory d) (sd_memory s * surge)\<rparr> m)"

definition placements_of :: "(string, deploy_resolved) assoc \<Rightarrow> string \<Rightarrow> placement list" where
  "placements_of rs name = (case map_of rs name of None \<Rightarrow> [] | Some r \<Rightarrow> dr_placements r)"

definition demand_by_node :: "(string, deploy_resolved) assoc \<Rightarrow> service_decl list \<Rightarrow> (string, load) assoc" where
  "demand_by_node rs services = fold (\<lambda>s m. fold (add_load s) (placements_of rs (sd_name s)) m) services []"

definition node_demands ::
  "(string, deploy_resolved) assoc \<Rightarrow> service_decl list \<Rightarrow> candidate_node list \<Rightarrow> (string, node_entry) assoc \<Rightarrow> node_demand list" where
  "node_demands rs services candidates nodes =
     map (\<lambda>n. let d = assoc_get_or no_load (demand_by_node rs services) n
              in \<lparr>nd_nodeId = n,
                  nd_architecture = (case map_of (rev (map (\<lambda>c. (cn_nodeId c, cn_architecture c)) candidates)) n of
                     Some a \<Rightarrow> a
                   | None \<Rightarrow> (case map_of nodes n of Some e \<Rightarrow> ne_architecture e | None \<Rightarrow> Arm64)),
                  nd_cpu = ld_cpu d, nd_memory = ld_memory d, nd_surgeCpu = Some (ld_surgeCpu d),
                  nd_surgeMemory = Some (ld_surgeMemory d)\<rparr>) (app_node_ids rs)"

section \<open>The nodes\<close>

definition load_entry :: "aws_env \<Rightarrow> (string, node_entry) assoc \<Rightarrow> state_bucket \<Rightarrow> string \<Rightarrow> provision_error + node_entry option" where
  "load_entry aws nodes s n =
     (case map_of nodes n of
        Some e \<Rightarrow> Inr (Some e)
      | None \<Rightarrow>
          (case s (nodeRegistryKey (aws_clusterId aws) n) of
             None \<Rightarrow> Inr None
           | Some raw \<Rightarrow> (case parseNodeRegistryEntry raw of None \<Rightarrow> Inl LoadFailed | Some e \<Rightarrow> Inr (Some e))))"

definition existing_entry :: "node_action \<Rightarrow> node_entry option" where
  "existing_entry a = (case a of ActReady _ e \<Rightarrow> Some e | ActResume _ e \<Rightarrow> Some e | ActCreate _ \<Rightarrow> None)"

definition known_nodes :: "node_action list \<Rightarrow> (string, node_entry) assoc \<Rightarrow> (string, node_entry) assoc" where
  "known_nodes plan nodes =
     fold (\<lambda>a m. case existing_entry a of None \<Rightarrow> m | Some e \<Rightarrow> assoc_set (action_node a) e m) plan nodes"

type_synonym repair = "node_entry \<times> drift_class \<times> drift_action"

definition plan_repairs :: "(string \<Rightarrow> ec2_observation) \<Rightarrow> bool \<Rightarrow> node_action list \<Rightarrow> repair list" where
  "plan_repairs observe allowRecreate plan =
     filter (\<lambda>(_, _, a). a \<noteq> Noop)
       (map (\<lambda>e. (e, planNodeDrift (ne_state e) (observe (the (ne_instanceId e))) allowRecreate))
         (filter (\<lambda>e. ne_instanceId e \<notin> {None, Some []}) (List.map_filter existing_entry plan)))"

definition repair_refused :: "bool \<Rightarrow> repair list \<Rightarrow> plan_error option" where
  "repair_refused repairEnabled repairs =
     (let drifted = filter (\<lambda>(_, d, _). d \<noteq> DriftNone) repairs;
          blocked = List.map_filter (\<lambda>(e, _, a). case a of Blocked r \<Rightarrow> Some (ne_nodeId e, r) | _ \<Rightarrow> None) repairs
      in if \<not> repairEnabled \<and> drifted \<noteq> [] then Some (UnrepairedDrift (map (\<lambda>(e, d, _). (ne_nodeId e, d)) drifted))
         else if blocked \<noteq> [] then Some (NodesBlocked blocked) else None)"

record deploy_plan =
  pn_edge :: string
  pn_nodes :: "(string, node_entry) assoc"
  pn_resolved :: "(string, deploy_resolved) assoc"
  pn_create :: "create_action list"
  pn_repairs :: "repair list"
  pn_prior :: deployed_placement

section \<open>The plan\<close>

definition loadDeployedPlacement :: "aws_env \<Rightarrow> string list \<Rightarrow> string \<Rightarrow> state_bucket \<Rightarrow> deployed_placement" where
  "loadDeployedPlacement aws ids owner s = buildPlacementSnapshot (loadNodeDesiredStates (aws_clusterId aws) ids s) owner"

definition resolve_services ::
  "launch_pad_config \<Rightarrow> deploy_options \<Rightarrow> deploy_request \<Rightarrow> string \<Rightarrow> (string, node_entry) assoc \<Rightarrow> deployed_placement
   \<Rightarrow> draws \<Rightarrow> string list \<times> candidate_node list
   \<Rightarrow> plan_error + (string, deploy_resolved) assoc \<times> candidate_node list" where
  "resolve_services config opts rq edge nodes prior rng pool =
     (if rq_reuse rq
      then res_bind (resolve_pinned config (do_env opts) edge prior (rq_services rq) []) (\<lambda>rs. Inr (rs, snd pool))
      else resolve_planned config (do_env opts) edge (do_create opts) nodes prior rng pool (rq_services rq))"

definition node_plan ::
  "aws_env \<Rightarrow> deploy_options \<Rightarrow> string \<Rightarrow> (string, node_entry) assoc \<Rightarrow> node_demand list \<Rightarrow> state_bucket
   \<Rightarrow> plan_error + node_action list" where
  "node_plan aws opts edge nodes demands s =
     (case res_bind (planEdgeAction edge (load_entry aws nodes s) (do_create opts)) (\<lambda>e.
             res_bind (buildProvisionPlan demands edge (load_entry aws nodes s) (do_create opts) None) (\<lambda>as'. Inr (e # as'))) of
        Inl e \<Rightarrow> Inl (ProvisionPlanFailed e) | Inr as' \<Rightarrow> Inr as')"

definition plan_deploy ::
  "aws_env \<Rightarrow> (string \<Rightarrow> int option) \<Rightarrow> int \<Rightarrow> string \<Rightarrow> draws \<Rightarrow> draws \<Rightarrow> (string \<Rightarrow> ec2_observation) \<Rightarrow> string list
   \<Rightarrow> launch_pad_config \<Rightarrow> deploy_options \<Rightarrow> deploy_request \<Rightarrow> cluster_config option \<Rightarrow> state_bucket
   \<Rightarrow> plan_error + deploy_plan" where
  "plan_deploy aws date_parse nowMs now rng rng' observe ids config opts rq clusterCfg s =
     (case buildCandidateNodes date_parse (aws_clusterId aws) s (rq_owner rq) (\<not> rq_reuse rq) nowMs now ids no_candidates of
        Inl e \<Rightarrow> Inl (PoolUnreadable e)
      | Inr c \<Rightarrow>
          res_bind (edge_node_for clusterCfg (cns_nodes c)) (\<lambda>edge.
            let pool = bootstrap_pool (rq_reuse rq) (do_create opts) (cns_nodes c) edge rng
                         (cns_clusterAppNodeIds c, cns_candidateNodes c);
                prior = loadDeployedPlacement aws ids (rq_owner rq) s
            in if fst pool = [] then Inl (NoAppNodes (rq_reuse rq))
               else res_bind (resolve_services config opts rq edge (cns_nodes c) prior rng' pool) (\<lambda>(rs, candidates).
                 case domain_clash rs (rq_services rq) [] of
                   Some e \<Rightarrow> Inl e
                 | None \<Rightarrow>
                     res_bind (node_plan aws opts edge (cns_nodes c)
                                 (node_demands rs (rq_services rq) candidates (cns_nodes c)) s) (\<lambda>acts.
                       let repairs = plan_repairs observe (do_repair opts \<and> do_recreate opts) acts
                       in case repair_refused (do_repair opts) repairs of
                            Some e \<Rightarrow> Inl e
                          | None \<Rightarrow> Inr \<lparr>pn_edge = edge, pn_nodes = known_nodes acts (cns_nodes c), pn_resolved = rs,
                              pn_create = List.map_filter (\<lambda>a. case a of ActCreate x \<Rightarrow> Some x | _ \<Rightarrow> None) acts,
                              pn_repairs = repairs, pn_prior = prior\<rparr>))))"

end
