(* ===== verification/Deploy.thy ===== *)
theory Deploy
  imports Deploy_Plan Watch
begin

text \<open>
  \<open>runDeploy\<close> of \<open>packages/cli/src/commands/deploy.ts\<close> as a whole: the request, the configuration lock, the
  plan, provisioning and repair, images, the capacity gate, publication, the advisory documents and the wait.
  What lies outside the program is a record of parameters, \<open>deploy_world\<close>; other writers act during every
  read-modify-write (\<open>w_interfere\<close>, by phase) and between the phases (\<open>w_meanwhile\<close>).
\<close>

section \<open>The world\<close>

datatype phase = AtProvision nat | AtAdopt | AtPublish nat | AtClean nat | AtIndex | AtRoute

record deploy_world =
  w_aws :: aws_env
  w_callerArn :: string
  w_readable :: bool
  w_repoRoot :: "string option"
  w_changed :: "string \<Rightarrow> changed_error + string list"
  w_ids :: "state_bucket \<Rightarrow> string list"
  w_dateParse :: "string \<Rightarrow> int option"
  w_nowMs :: int
  w_now :: string
  w_clock :: "nat \<Rightarrow> string"
  w_stamp :: "nat \<Rightarrow> string"
  w_rng :: draws
  w_rng' :: draws
  w_topic :: "string option"
  w_observe :: "string \<Rightarrow> ec2_observation"
  w_confirm :: bool
  w_launch :: "string \<Rightarrow> launch_env"
  w_start :: "string \<Rightarrow> network option"
  w_group :: "string \<Rightarrow> string"
  w_profile :: "string \<Rightarrow> string"
  w_agentVersion :: string
  w_secretExists :: "string \<Rightarrow> bool"
  w_imageExists :: "string \<Rightarrow> string \<Rightarrow> bool"
  w_repository :: "string \<Rightarrow> string option"
  w_tag :: "service_decl \<Rightarrow> string"
  w_buildOk :: bool
  w_backupsOk :: bool
  w_eventId :: string
  w_waitStart :: int
  w_statuses :: "nat \<Rightarrow> string \<Rightarrow> node_status option"
  w_waitClock :: "nat \<Rightarrow> int"
  w_interfere :: "phase \<Rightarrow> schedule"
  w_meanwhile :: "nat \<Rightarrow> state_bucket \<Rightarrow> state_bucket"

datatype run_error =
    RequestRejected request_error
  | LockRefused lock_error
  | NamesTaken "(string \<times> string) list"
  | PlanRefused plan_error
  | Aborted
  | ProvisioningFailed node_op_error
  | EdgeNotAdopted cluster_store_error
  | SecretsMissing "(string \<times> string) list"
  | ImagesRefused image_error
  | RepositoryFailed string
  | UnknownNode string string
  | MixedArchitectures string
  | CapacityRefused publish_error
  | BuildFailed
  | BackupsFailed
  | StatusUnreadable string
  | ServiceRefused deploy_error
  | PublishRefused publish_error
  | RegistryBroken string
  | BadTimeout string

datatype deploy_outcome = NothingChanged | DryRun | Published | Waited bool

type_synonym 'a run = "(state_bucket \<times> ec2_effect list) \<times> (run_error + 'a)"

section \<open>Provisioning and repair\<close>

definition app_last :: "('a \<Rightarrow> node_role) \<Rightarrow> 'a list \<Rightarrow> 'a list" where
  "app_last role xs = sort_key (\<lambda>x. if role x = RoleApp then 1 else 0 :: int) xs"

definition params_of :: "deploy_world \<Rightarrow> create_action \<Rightarrow> provision_params" where
  "params_of w a =
     \<lparr>pp_nodeId = ca_nodeId a, pp_role = ca_role a, pp_instanceType = ca_instanceType a,
      pp_agentVersion = w_agentVersion w, pp_capacity = ca_capacity a, pp_edgeNodeId = ca_edgeNodeId a\<rparr>"

fun provision_all ::
  "deploy_world \<Rightarrow> nat \<Rightarrow> create_action list \<Rightarrow> (string, node_entry) assoc \<Rightarrow> state_bucket \<times> ec2_effect list
   \<Rightarrow> (string, node_entry) assoc run" where
  "provision_all w k [] nodes (s, fx) = ((s, fx), Inr nodes)"
| "provision_all w k (a # as') nodes (s, fx) =
     (case provisionNode (w_aws w) (w_callerArn w) (w_now w) (w_group w (ca_nodeId a)) (w_profile w (ca_nodeId a))
             (w_launch w (ca_nodeId a)) (params_of w a) (w_interfere w (AtProvision k)) s of
        ((s', fx'), Inl e) \<Rightarrow> ((s', fx @ fx'), Inl (ProvisioningFailed e))
      | ((s', fx'), Inr e) \<Rightarrow> provision_all w (k + 1) as' (assoc_set (ca_nodeId a) e nodes) (s', fx @ fx'))"

fun repair_all ::
  "deploy_world \<Rightarrow> repair list \<Rightarrow> (string, node_entry) assoc \<Rightarrow> state_bucket \<times> ec2_effect list
   \<Rightarrow> (string, node_entry) assoc run" where
  "repair_all w [] nodes (s, fx) = ((s, fx), Inr nodes)"
| "repair_all w ((e, _, a) # rs) nodes (s, fx) =
     (case applyNodeDrift (w_start w) (w_launch w (ne_nodeId e)) (w_agentVersion w) (aws_clusterId (w_aws w)) e a s of
        ((s', fx'), Inl err) \<Rightarrow> ((s', fx @ fx'), Inl (ProvisioningFailed err))
      | ((s', fx'), Inr e') \<Rightarrow> repair_all w rs (assoc_set (ne_nodeId e) e' nodes) (s', fx @ fx'))"

definition boots :: "deploy_plan \<Rightarrow> nat" where
  "boots p = length (pn_create p) + length (filter (\<lambda>(_, _, a). a = Resume \<or> a = Recreate) (pn_repairs p))"

definition bring_up :: "deploy_world \<Rightarrow> deploy_options \<Rightarrow> deploy_plan \<Rightarrow> state_bucket \<Rightarrow> (string, node_entry) assoc run" where
  "bring_up w opts p s =
     (if pn_create p = [] \<and> pn_repairs p = [] then ((s, []), Inr (pn_nodes p))
      else if do_dryRun opts
      then ((s, []), Inr (fold (\<lambda>a m. assoc_set (ca_nodeId a) (synthesizeEntry (w_aws w) (w_callerArn w) (w_now w) a) m)
              (pn_create p) (pn_nodes p)))
      else if 0 < boots p \<and> \<not> do_yes opts \<and> \<not> w_confirm w then ((s, []), Inl Aborted)
      else case provision_all w 0 (app_last ca_role (pn_create p)) (pn_nodes p) (s, []) of
             (st, Inl e) \<Rightarrow> (st, Inl e)
           | (st, Inr nodes) \<Rightarrow> repair_all w (app_last (\<lambda>(e, _). ne_role e) (pn_repairs p)) nodes st)"

section \<open>Images\<close>

definition missing_secrets :: "deploy_world \<Rightarrow> string \<Rightarrow> service_decl list \<Rightarrow> (string \<times> string) list" where
  "missing_secrets w owner services =
     concat (map (\<lambda>s. map (\<lambda>k. (sd_name s, k))
       (filter (\<lambda>k. \<not> w_secretExists w (secretParameterPath (aws_clusterId (w_aws w)) owner (sd_name s) k)) (sd_secrets s)))
       services)"

record built_service =
  bs_decl :: service_decl
  bs_repoName :: string
  bs_tag :: string
  bs_image :: string
  bs_domain :: "string option"

definition build_service ::
  "deploy_world \<Rightarrow> string \<Rightarrow> (string, deploy_resolved) assoc \<Rightarrow> (string, string) assoc option \<Rightarrow> service_decl
   \<Rightarrow> run_error + built_service" where
  "build_service w project rs reuse d =
     (let repo = ecrRepositoryName project (sd_name d); domain = domain_of rs (sd_name d)
      in case sd_database d of
           Some db \<Rightarrow> Inr \<lparr>bs_decl = d, bs_repoName = [], bs_tag = [], bs_image = databaseImage (db_version db), bs_domain = domain\<rparr>
         | None \<Rightarrow>
             (case reuse of
                Some images \<Rightarrow> Inr \<lparr>bs_decl = d, bs_repoName = repo, bs_tag = [], bs_image = the (map_of images (sd_name d)), bs_domain = domain\<rparr>
              | None \<Rightarrow>
                  (case w_repository w repo of
                     None \<Rightarrow> Inl (RepositoryFailed repo)
                   | Some uri \<Rightarrow> Inr \<lparr>bs_decl = d, bs_repoName = repo, bs_tag = w_tag w d,
                       bs_image = uri @ '':'' @ w_tag w d, bs_domain = domain\<rparr>)))"

fun map_res :: "('a \<Rightarrow> 'e + 'b) \<Rightarrow> 'a list \<Rightarrow> 'e + 'b list" where
  "map_res f [] = Inr []"
| "map_res f (x # xs) = res_bind (f x) (\<lambda>y. res_bind (map_res f xs) (\<lambda>ys. Inr (y # ys)))"

definition images_to_reuse ::
  "deploy_world \<Rightarrow> deploy_options \<Rightarrow> launch_pad_config \<Rightarrow> deploy_request \<Rightarrow> (string, deploy_resolved) assoc \<Rightarrow> state_bucket
   \<Rightarrow> run_error + (string, string) assoc option" where
  "images_to_reuse w opts config rq rs s =
     (if do_restart opts
      then (case loadRestartImages (w_aws w) (rq_services rq) (rq_owner rq) (app_node_ids rs) s of
              Inl e \<Rightarrow> Inl (ImagesRefused e) | Inr m \<Rightarrow> Inr (Some m))
      else case do_image opts of
        Some uri \<Rightarrow> (case loadOverrideImage (w_aws w) (w_imageExists w) (lc_project config) (sd_name (hd (rq_services rq))) uri of
                       Inl e \<Rightarrow> Inl (ImagesRefused e) | Inr m \<Rightarrow> Inr (Some m))
      | None \<Rightarrow> Inr None)"

section \<open>Placements per node\<close>

type_synonym node_service = "built_service \<times> int"

definition node_placements ::
  "(string, deploy_resolved) assoc \<Rightarrow> built_service list \<Rightarrow> (string, node_service list) assoc" where
  "node_placements rs built =
     fold (\<lambda>b m. fold (\<lambda>p m. assoc_set (pl_nodeId p) (assoc_get_or [] m (pl_nodeId p) @ [(b, pl_replicas p)]) m)
       (placements_of rs (sd_name (bs_decl b))) m) built []"

definition service_platform ::
  "(string, node_entry) assoc \<Rightarrow> (string, deploy_resolved) assoc \<Rightarrow> built_service \<Rightarrow> run_error + string" where
  "service_platform nodes rs b =
     (let ps = placements_of rs (sd_name (bs_decl b))
      in case find (\<lambda>p. map_of nodes (pl_nodeId p) = None) ps of
           Some p \<Rightarrow> Inl (UnknownNode (sd_name (bs_decl b)) (pl_nodeId p))
         | None \<Rightarrow>
             (let archs = js_dedup (map (\<lambda>p. ne_architecture (the (map_of nodes (pl_nodeId p)))) ps)
              in if 1 < length archs then Inl (MixedArchitectures (sd_name (bs_decl b)))
                 else Inr (dockerPlatformForArchitecture (case archs of [] \<Rightarrow> Arm64 | a # _ \<Rightarrow> a))))"

definition vacated_nodes :: "deploy_request \<Rightarrow> deployed_placement \<Rightarrow> (string, 'a) assoc \<Rightarrow> string list" where
  "vacated_nodes rq prior placed =
     (if rq_partial rq then [] else filter (\<lambda>n. n \<notin> set (map fst placed)) (dp_occupiedNodeIds prior))"

text \<open>The demand of everything a node will carry, before it is published.\<close>

definition capacityDemands ::
  "string \<Rightarrow> service_config list \<Rightarrow> node_service list \<Rightarrow> bool \<Rightarrow> capacity_demand list" where
  "capacityDemands project existing placed partial =
     demandsOf (filter (\<lambda>s. sc_project s \<noteq> project) existing)
     @ (if partial then demandsOf (filter (\<lambda>s. sc_project s = project
          \<and> sc_service s \<notin> set (map (\<lambda>(b, _). sd_name (bs_decl b)) placed)) existing) else [])
     @ map (\<lambda>(b, n). let d = bs_decl b; surge = min (ro_maxSurge (sd_rollout d)) n
          in \<lparr>cd_project = project, cd_service = sd_name d, cd_cpu = sd_cpu d * n, cd_memory = sd_memory d * n,
              cd_surgeCpu = Some (sd_cpu d * surge), cd_surgeMemory = Some (sd_memory d * surge)\<rparr>) placed"

definition preflight ::
  "deploy_world \<Rightarrow> deploy_request \<Rightarrow> (string, node_entry) assoc \<Rightarrow> state_bucket \<Rightarrow> (string, node_service list) assoc
   \<Rightarrow> publish_error option" where
  "preflight w rq nodes s placed =
     List.find (\<lambda>_. True) (List.map_filter (\<lambda>(n, ns).
       assertCapacity n (the (map_of nodes n))
         (capacityDemands (rq_owner rq)
           (ds_services (current_state n (s (desiredKey (aws_clusterId (w_aws w)) n)) (w_now w))) ns (rq_partial rq))) placed)"

section \<open>Everything before the first publication\<close>

record deploy_ready =
  ry_plan :: deploy_plan
  ry_nodes :: "(string, node_entry) assoc"
  ry_built :: "built_service list"
  ry_placed :: "(string, node_service list) assoc"
  ry_vacated :: "string list"

definition prepare ::
  "deploy_world \<Rightarrow> deploy_options \<Rightarrow> launch_pad_config \<Rightarrow> deploy_request \<Rightarrow> deploy_plan \<Rightarrow> (string, node_entry) assoc
   \<Rightarrow> state_bucket \<Rightarrow> run_error + deploy_ready" where
  "prepare w opts config rq p nodes s =
     (let missing = missing_secrets w (rq_owner rq) (rq_services rq); rs = pn_resolved p
      in if missing \<noteq> [] then Inl (SecretsMissing missing)
         else res_bind (images_to_reuse w opts config rq rs s) (\<lambda>reuse.
           res_bind (map_res (build_service w (lc_project config) rs reuse) (rq_services rq)) (\<lambda>built.
             let placed = node_placements rs built
             in res_bind (map_res (service_platform nodes rs) built) (\<lambda>_.
                  case preflight w rq nodes s placed of
                    Some e \<Rightarrow> Inl (CapacityRefused e)
                  | None \<Rightarrow> Inr \<lparr>ry_plan = p, ry_nodes = nodes, ry_built = built, ry_placed = placed,
                      ry_vacated = vacated_nodes rq (pn_prior p) placed\<rparr>))))"

section \<open>Publication\<close>

definition restart_time :: "deploy_world \<Rightarrow> deploy_options \<Rightarrow> string option" where
  "restart_time w opts = (if do_restart opts then Some (w_now w) else None)"

definition edge_of_service :: "(string, deploy_resolved) assoc \<Rightarrow> string \<Rightarrow> string option" where
  "edge_of_service rs name = Option.bind (map_of rs name) dr_edge"

definition incoming_services ::
  "deploy_world \<Rightarrow> deploy_options \<Rightarrow> deploy_request \<Rightarrow> (string, deploy_resolved) assoc \<Rightarrow> node_service list
   \<Rightarrow> run_error + service_config list" where
  "incoming_services w opts rq rs placed =
     map_res (\<lambda>(b, n).
       case toServiceConfig (w_aws w) (rq_owner rq) (bs_decl b) (bs_image b) (bs_domain b) n
              (edge_of_service rs (sd_name (bs_decl b))) (do_env opts) (restart_time w opts) of
         Inl e \<Rightarrow> Inl (ServiceRefused e) | Inr c \<Rightarrow> Inr c) placed"

fun publish_placed ::
  "deploy_world \<Rightarrow> deploy_options \<Rightarrow> deploy_request \<Rightarrow> deploy_ready \<Rightarrow> nat \<Rightarrow> (string, node_service list) assoc
   \<Rightarrow> state_bucket \<Rightarrow> state_bucket \<times> (run_error + unit)" where
  "publish_placed w opts rq r k [] s = (s, Inr ())"
| "publish_placed w opts rq r k ((n, placed) # rest) s =
     (case incoming_services w opts rq (pn_resolved (ry_plan r)) placed of
        Inl e \<Rightarrow> (s, Inl e)
      | Inr incoming \<Rightarrow>
          (case publishDesired (w_aws w) n (the (map_of (ry_nodes r) n)) (rq_owner rq) incoming (rq_partial rq)
                  (w_clock w) (w_stamp w) (w_interfere w (AtPublish k)) s of
             (s', Inl e) \<Rightarrow> (s', Inl (PublishRefused e))
           | (s', Inr _) \<Rightarrow> publish_placed w opts rq r (k + 1) rest s'))"

definition known_entry ::
  "deploy_world \<Rightarrow> (string, node_entry) assoc \<Rightarrow> state_bucket \<Rightarrow> string \<Rightarrow> run_error + node_entry option" where
  "known_entry w nodes s n =
     (case map_of nodes n of
        Some e \<Rightarrow> Inr (Some e)
      | None \<Rightarrow>
          (case s (nodeRegistryKey (aws_clusterId (w_aws w)) n) of
             None \<Rightarrow> Inr None
           | Some raw \<Rightarrow> (case parseNodeRegistryEntry raw of None \<Rightarrow> Inl (RegistryBroken n) | Some e \<Rightarrow> Inr (Some e))))"

fun clean_up ::
  "deploy_world \<Rightarrow> deploy_request \<Rightarrow> deploy_ready \<Rightarrow> nat \<Rightarrow> string list \<Rightarrow> state_bucket \<Rightarrow> state_bucket \<times> (run_error + unit)" where
  "clean_up w rq r k [] s = (s, Inr ())"
| "clean_up w rq r k (n # ns) s =
     (case known_entry w (ry_nodes r) s n of
        Inl e \<Rightarrow> (s, Inl e)
      | Inr None \<Rightarrow> clean_up w rq r k ns s
      | Inr (Some e) \<Rightarrow>
          (case publishDesired (w_aws w) n e (rq_owner rq) [] False (w_clock w) (w_stamp w) (w_interfere w (AtClean k)) s of
             (s', Inl err) \<Rightarrow> (s', Inl (PublishRefused err))
           | (s', Inr _) \<Rightarrow> clean_up w rq r (k + 1) ns s'))"

definition publish_footprint ::
  "deploy_world \<Rightarrow> deploy_options \<Rightarrow> deploy_request \<Rightarrow> deploy_ready \<Rightarrow> state_bucket \<Rightarrow> state_bucket \<times> (run_error + unit)" where
  "publish_footprint w opts rq r s =
     (case publish_placed w opts rq r 0 (ry_placed r) s of
        (s1, Inl e) \<Rightarrow> (s1, Inl e)
      | (s1, Inr _) \<Rightarrow> clean_up w rq r 0 (ry_vacated r) s1)"

section \<open>Records and the wait\<close>

definition record_footprint ::
  "deploy_world \<Rightarrow> launch_pad_config \<Rightarrow> deploy_options \<Rightarrow> deploy_request \<Rightarrow> deploy_ready \<Rightarrow> state_bucket \<Rightarrow> state_bucket" where
  "record_footprint w config opts rq r s =
     (let s1 = (case writeConfigBaseline (w_aws w) config (rq_owner rq) (w_now w) s of None \<Rightarrow> s | Some s' \<Rightarrow> s');
          s2 = upsertProjectIndex (aws_clusterId (w_aws w))
                 \<lparr>uc_project = lc_project config, uc_component = lc_component config,
                  uc_services = map sd_name (lc_service config), uc_now = w_now w\<rparr> (w_interfere w AtIndex) s1;
          rs = pn_resolved (ry_plan r); edge = pn_edge (ry_plan r);
          domains = List.map_filter (\<lambda>(_, x). if dr_edge x = Some edge \<and> dr_domain x \<noteq> Some [] then dr_domain x else None) rs;
          s3 = (if domains = [] then s2
                else publishEdgeConfig (w_aws w) edge domains (w_stamp w) (w_interfere w AtRoute) s2)
      in case do_env opts of
           None \<Rightarrow> s3
         | Some env \<Rightarrow> recordPreviewState (w_dateParse w) (w_aws w) config env (rq_ttlMs rq) (w_now w) s3)"

definition loadRunningContainerIds ::
  "aws_env \<Rightarrow> state_bucket \<Rightarrow> string \<Rightarrow> string \<Rightarrow> string \<Rightarrow> run_error + string list" where
  "loadRunningContainerIds aws s nodeId project service =
     (case s (statusKey (aws_clusterId aws) nodeId) of
        None \<Rightarrow> Inr []
      | Some raw \<Rightarrow>
          (case parseNodeStatus raw of
             None \<Rightarrow> Inl (StatusUnreadable nodeId)
           | Some st \<Rightarrow>
               Inr (case find (\<lambda>x. ss_project x = project \<and> ss_service x = service) (ns_services st) of
                      None \<Rightarrow> []
                    | Some svc \<Rightarrow> sort (map (\<lambda>x. the (rs_containerId x))
                        (filter (\<lambda>x. rs_state x = SRunning \<and> truthy (rs_containerId x)) (ss_replicas svc))))))"

definition previous_containers ::
  "deploy_world \<Rightarrow> deploy_options \<Rightarrow> deploy_request \<Rightarrow> deploy_ready \<Rightarrow> state_bucket
   \<Rightarrow> run_error + ((string \<times> string), string list) assoc" where
  "previous_containers w opts rq r s =
     (if \<not> do_restart opts then Inr []
      else map_res (\<lambda>(n, b). res_bind (loadRunningContainerIds (w_aws w) s n (rq_owner rq) (sd_name (bs_decl b)))
             (\<lambda>cs. Inr ((n, sd_name (bs_decl b)), cs)))
           (concat (map (\<lambda>(n, placed). map (\<lambda>(b, _). (n, b)) placed) (ry_placed r))))"

definition watch_targets ::
  "deploy_request \<Rightarrow> deploy_ready \<Rightarrow> ((string \<times> string), string list) assoc \<Rightarrow> watch_target list" where
  "watch_targets rq r previous =
     concat (map (\<lambda>(n, placed). map (\<lambda>(b, k).
       \<lparr>wt_nodeId = n, wt_project = rq_owner rq, wt_service = sd_name (bs_decl b), wt_image = bs_image b,
        wt_expectedReplicas = (if sd_cron (bs_decl b) \<noteq> None then 0 else k),
        wt_previousContainerIds = assoc_get_or [] previous (n, sd_name (bs_decl b))\<rparr>) placed) (ry_placed r))"

definition deploy_kind_of :: "deploy_options \<Rightarrow> deploy_kind" where
  "deploy_kind_of opts = (if do_image opts \<noteq> None then KImage else if do_restart opts then KRestart else KBuild)"

definition event_services :: "deploy_ready \<Rightarrow> event_service list" where
  "event_services r =
     map (\<lambda>b. \<lparr>es_service = sd_name (bs_decl b), es_image = bs_image b,
                es_replicas = sum_by pl_replicas (placements_of (pn_resolved (ry_plan r)) (sd_name (bs_decl b)))\<rparr>) (ry_built r)"

text \<open>Exact below \<open>2 ^ 53\<close> milliseconds.\<close>

definition parseTimeoutSeconds :: "string option \<Rightarrow> int \<Rightarrow> run_error + int" where
  "parseTimeoutSeconds raw defaultSeconds =
     (case raw of
        None \<Rightarrow> Inr (defaultSeconds * 1000)
      | Some t \<Rightarrow>
          (case parse_int10 t of
             None \<Rightarrow> Inl (BadTimeout t)
           | Some n \<Rightarrow> if n < 1 then Inl (BadTimeout t) else Inr (n * 1000)))"

definition DEFAULT_CONVERGE_TIMEOUT_SECONDS :: int where "DEFAULT_CONVERGE_TIMEOUT_SECONDS = 180"

text \<open>What the last tick of the wait reported: every target converged and no agent behind the protocol.\<close>

definition watchAndReport ::
  "watch_target list \<Rightarrow> int \<Rightarrow> int \<Rightarrow> (nat \<Rightarrow> string \<Rightarrow> node_status option) \<Rightarrow> (nat \<Rightarrow> int) \<Rightarrow> bool option" where
  "watchAndReport targets startMs timeoutMs obs clock =
     map_option (\<lambda>(results, mm). list_all wr_ok results \<and> mm = [])
       (poll (\<lambda>i. map_option (\<lambda>rs. (rs, mismatches (obs i) targets)) (watch_step targets (startMs + timeoutMs) obs clock i)) 0)"

text \<open>\<open>None\<close>: the wait does not end. The clock passes every deadline, so it does (\<open>convergence_returns\<close>).\<close>

definition wait_and_record ::
  "deploy_world \<Rightarrow> deploy_options \<Rightarrow> deploy_request \<Rightarrow> deploy_ready \<Rightarrow> ((string \<times> string), string list) assoc
   \<Rightarrow> state_bucket \<Rightarrow> state_bucket \<times> (run_error + deploy_outcome option)" where
  "wait_and_record w opts rq r previous s =
     (let record = (\<lambda>c. recordDeployEvent (w_aws w) (w_callerArn w) (w_now w) (rq_owner rq) (do_env opts)
                      (deploy_kind_of opts) (event_services r) c (w_eventId w) s);
          targets = watch_targets rq r previous
      in if \<not> do_wait opts then (record None, Inr (Some Published))
         else case parseTimeoutSeconds (do_timeout opts) DEFAULT_CONVERGE_TIMEOUT_SECONDS of
           Inl e \<Rightarrow> (s, Inl e)
         | Inr timeoutMs \<Rightarrow>
             (case watchAndReport targets (w_waitStart w) timeoutMs (w_statuses w) (w_waitClock w) of
                None \<Rightarrow> (s, Inr None)
              | Some ok \<Rightarrow> (record (Some ok), Inr (Some (Waited ok)))))"

section \<open>The whole command\<close>

definition lock_check ::
  "deploy_world \<Rightarrow> launch_pad_config \<Rightarrow> deploy_options \<Rightarrow> deploy_request \<Rightarrow> state_bucket \<Rightarrow> run_error option" where
  "lock_check w config opts rq s =
     (let c = aws_clusterId (w_aws w)
      in case resolveConfigLockOutcome config (rq_owner rq) (do_allowNewServices opts) (w_now w)
                (if w_readable w then Inr (s (configBaselineKey c (rq_owner rq))) else Inl ())
                (if w_readable w then Inr (dp_footprints (loadDeployedPlacement (w_aws w) (w_ids w s) (rq_owner rq) s)) else Inl ()) of
           Inl e \<Rightarrow> Some (LockRefused e)
         | Inr _ \<Rightarrow>
             (let taken = findCrossComponentServiceConflicts (loadProjectIndex c (lc_project config) s) (lc_component config)
                            (map sd_name (lc_service config))
              in if taken = [] then None else Some (NamesTaken taken)))"

definition cluster_of :: "deploy_world \<Rightarrow> state_bucket \<Rightarrow> run_error + cluster_config option" where
  "cluster_of w s =
     (if aws_clusterId (w_aws w) = DEFAULT_CLUSTER then Inr None
      else case getClusterConfig (aws_clusterId (w_aws w)) s of
        Inl e \<Rightarrow> Inl (PlanRefused (ClusterUnreadable e)) | Inr c \<Rightarrow> Inr c)"

text \<open>The notification topic is created once and remembered in the cluster's document.\<close>

definition adopt_topic ::
  "deploy_world \<Rightarrow> deploy_options \<Rightarrow> cluster_config option \<Rightarrow> state_bucket \<Rightarrow> state_bucket" where
  "adopt_topic w opts clusterCfg s =
     (case clusterCfg of
        None \<Rightarrow> s
      | Some c \<Rightarrow>
          (if do_dryRun opts \<or> cc_snsTopicArn c \<noteq> None then s
           else case w_topic w of None \<Rightarrow> s | Some t \<Rightarrow> putClusterConfig (c\<lparr>cc_snsTopicArn := Some t\<rparr>) s))"

definition adopt_edge ::
  "deploy_world \<Rightarrow> deploy_options \<Rightarrow> cluster_config option \<Rightarrow> string \<Rightarrow> state_bucket \<Rightarrow> state_bucket \<times> (run_error + unit)" where
  "adopt_edge w opts clusterCfg edge s =
     (if do_dryRun opts \<or> (case clusterCfg of None \<Rightarrow> True | Some c \<Rightarrow> cc_defaultEdge c \<noteq> None) then (s, Inr ())
      else case adoptEdgeIfUnset (aws_clusterId (w_aws w)) edge (w_interfere w AtAdopt 0) s of
             (s', Inl e) \<Rightarrow> (s', Inl (EdgeNotAdopted e)) | (s', Inr _) \<Rightarrow> (s', Inr ()))"

definition after_plan ::
  "deploy_world \<Rightarrow> launch_pad_config \<Rightarrow> deploy_options \<Rightarrow> deploy_request \<Rightarrow> cluster_config option \<Rightarrow> deploy_plan
   \<Rightarrow> state_bucket \<Rightarrow> deploy_ready run" where
  "after_plan w config opts rq clusterCfg p s =
     (case bring_up w opts p s of
        (st, Inl e) \<Rightarrow> (st, Inl e)
      | ((s1, fx), Inr nodes) \<Rightarrow>
          (case adopt_edge w opts clusterCfg (pn_edge p) s1 of
             (s2, Inl e) \<Rightarrow> ((s2, fx), Inl e)
           | (s2, Inr _) \<Rightarrow>
               (let s3 = w_meanwhile w 1 s2 in ((s3, fx), prepare w opts config rq p nodes s3))))"

definition build_step :: "deploy_world \<Rightarrow> deploy_request \<Rightarrow> deploy_ready \<Rightarrow> run_error option" where
  "build_step w rq r =
     (if \<not> rq_reuse rq \<and> \<not> w_buildOk w then Some BuildFailed
      else if list_ex (\<lambda>b. sd_backup (bs_decl b) \<noteq> None) (ry_built r) \<and> \<not> w_backupsOk w then Some BackupsFailed
      else None)"

definition publish_and_wait ::
  "deploy_world \<Rightarrow> launch_pad_config \<Rightarrow> deploy_options \<Rightarrow> deploy_request \<Rightarrow> deploy_ready \<Rightarrow> state_bucket
   \<Rightarrow> state_bucket \<times> (run_error + deploy_outcome option)" where
  "publish_and_wait w config opts rq r s =
     (case build_step w rq r of
        Some e \<Rightarrow> (s, Inl e)
      | None \<Rightarrow>
          (let s1 = w_meanwhile w 2 s
           in case previous_containers w opts rq r s1 of
                Inl e \<Rightarrow> (s1, Inl e)
              | Inr previous \<Rightarrow>
                  (case publish_footprint w opts rq r s1 of
                     (s2, Inl e) \<Rightarrow> (s2, Inl e)
                   | (s2, Inr _) \<Rightarrow>
                       wait_and_record w opts rq r previous (record_footprint w config opts rq r s2))))"

definition runDeploy ::
  "deploy_world \<Rightarrow> launch_pad_config \<Rightarrow> string \<Rightarrow> deploy_options \<Rightarrow> state_bucket \<Rightarrow> deploy_outcome option run" where
  "runDeploy w config dir opts s0 =
     (case deploy_request opts config dir (w_repoRoot w) (w_changed w) of
        Inl e \<Rightarrow> ((s0, []), Inl (RequestRejected e))
      | Inr None \<Rightarrow> ((s0, []), Inr (Some NothingChanged))
      | Inr (Some rq) \<Rightarrow>
          (let s = w_meanwhile w 0 s0
           in case lock_check w config opts rq s of
                Some e \<Rightarrow> ((s, []), Inl e)
              | None \<Rightarrow>
                  (case cluster_of w s of
                     Inl e \<Rightarrow> ((s, []), Inl e)
                   | Inr clusterCfg \<Rightarrow>
                       (let s1 = adopt_topic w opts clusterCfg s
                        in case plan_deploy (w_aws w) (w_dateParse w) (w_nowMs w) (w_now w) (w_rng w) (w_rng' w) (w_observe w)
                                  (w_ids w s1) config opts rq clusterCfg s1 of
                             Inl e \<Rightarrow> ((s1, []), Inl (PlanRefused e))
                           | Inr p \<Rightarrow>
                               (case after_plan w config opts rq clusterCfg p s1 of
                                  (st, Inl e) \<Rightarrow> (st, Inl e)
                                | ((s2, fx), Inr r) \<Rightarrow>
                                    (if do_dryRun opts then ((s2, fx), Inr (Some DryRun))
                                     else case publish_and_wait w config opts rq r s2 of
                                            (s3, out) \<Rightarrow> ((s3, fx), out)))))))"

end
