(* ===== verification/Deploy_Correct.thy ===== *)
theory Deploy_Correct
  imports Deploy
begin

text \<open>
  What a deploy does to the published services. The frame lemmas say which steps of \<open>runDeploy\<close> can touch a
  desired state; the theorems say that only the publication does, and what it leaves.
\<close>

section \<open>Who writes desired states\<close>

definition same_desired :: "string \<Rightarrow> state_bucket \<Rightarrow> state_bucket \<Rightarrow> bool" where
  "same_desired c s s' \<longleftrightarrow> (\<forall>n. s' (desiredKey c n) = s (desiredKey c n))"

named_theorems frame

lemma same_refl [simp]: "same_desired c s s"
  by (simp add: same_desired_def)

lemma same_trans: "same_desired c s t \<Longrightarrow> same_desired c t u \<Longrightarrow> same_desired c s u"
  by (simp add: same_desired_def)

lemma same_put: "(\<And>n. k \<noteq> desiredKey c n) \<Longrightarrow> same_desired c s (s(k := v))"
  by (auto simp: same_desired_def)

lemma nodes_projects_apart: "clusterNodesPrefix c @ x \<noteq> projectsPrefix c @ y"
  by (simp add: clusterNodesPrefix_def projectsPrefix_def NODES_PREFIX_def)

lemma desired_key_shape: "desiredKey c n = clusterNodesPrefix c @ n @ ''/desired.json''"
  by (simp add: desiredKey_def nodePrefix_def)

lemma below_projects: "k = projectsPrefix c @ y \<Longrightarrow> k \<noteq> desiredKey c n"
  using nodes_projects_apart [of c "n @ ''/desired.json''" y] by (auto simp: desired_key_shape)

lemma project_keys_apart:
  "projectIndexKey c p \<noteq> desiredKey c n" "previewMarkerKey c p \<noteq> desiredKey c n" "configBaselineKey c p \<noteq> desiredKey c n"
  "deployEventKey c p ts i \<noteq> desiredKey c n"
  unfolding projectIndexKey_def previewMarkerKey_def configBaselineKey_def deployEventKey_def deployEventsPrefix_def
    projectStatePrefix_def append_assoc
  by (rule below_projects, rule refl)+

lemma other_keys_apart:
  "nodeRegistryKey d m \<noteq> desiredKey c n" "clusterConfigKey d \<noteq> desiredKey c n" "edgeConfigKey c e \<noteq> desiredKey c n"
  using suffix_differs [of 7 "''/desired.json''" "''/node.json''" "clusterNodesPrefix c @ n" "clusterNodesPrefix d @ m"]
    suffix_differs [of 8 "''/desired.json''" "''/cluster.json''" "clusterNodesPrefix c @ n" "CLUSTERS_PREFIX @ d"]
    node_keys(3) [of c n e]
  by (auto simp: desired_key_shape nodeRegistryKey_def nodePrefix_def clusterConfigKey_def)

lemma edge_clusters_apart: "edgeConfigKey d e \<noteq> desiredKey c n"
  using suffix_differs [of 7 "''/desired.json''" "''/edge.json''" "clusterNodesPrefix c @ n" "clusterNodesPrefix d @ e"]
  by (auto simp: desired_key_shape edgeConfigKey_def nodePrefix_def)

lemma putJson_frame: "putJson s k d w = Some s' \<Longrightarrow> (\<And>n. k \<noteq> desiredKey c n) \<Longrightarrow> same_desired c s s'"
  by (auto simp: putJson_def same_put split: write_condition.splits option.splits if_splits)

lemma put_cluster_frame [frame]: "same_desired c s (putClusterConfig x s)"
  unfolding put_cluster by (rule same_put) (rule other_keys_apart)

lemma put_entry_frame [frame]: "same_desired c s (put_entry d e s)"
  unfolding put_entry_def using putJson_frame [of s "nodeRegistryKey d (ne_nodeId e)" "NodeJson e" Always]
  by (auto simp: other_keys_apart split: option.splits)

lemma ensure_frame:
  "ensureClusterConfig region arn now c (\<lambda>t. t) s = (s', r) \<Longrightarrow> same_desired d s s'"
  by (auto simp: ensureClusterConfig_def Let_def put_cluster_frame split: sum.splits option.splits)

lemma adopt_frame: "adoptEdgeIfUnset c e (\<lambda>t. t) s = (s', r) \<Longrightarrow> same_desired d s s'"
  by (auto simp: adoptEdgeIfUnset_def put_cluster_frame split: sum.splits option.splits if_splits)

lemma wire_frame: "wire_cluster aws arn now p (\<lambda>_ t. t) s = (s', r) \<Longrightarrow> same_desired d s s'"
proof (cases "aws_clusterId aws = DEFAULT_CLUSTER")
  case False
  assume w: "wire_cluster aws arn now p (\<lambda>_ t. t) s = (s', r)"
  obtain s1 r1 where 1: "ensureClusterConfig (aws_region aws) arn now (aws_clusterId aws) (\<lambda>t. t) s = (s1, r1)"
    by (metis prod.exhaust)
  obtain s2 r2 where 2: "adoptEdgeIfUnset (aws_clusterId aws) (pp_nodeId p) (\<lambda>t. t) s1 = (s2, r2)" by (metis prod.exhaust)
  have "s' = s1 \<or> s' = s2" using w False by (auto simp: wire_cluster_def 1 2 split: sum.splits if_splits)
  with ensure_frame [OF 1] adopt_frame [OF 2] show ?thesis by (auto intro: same_trans)
qed (simp add: wire_cluster_def)

lemma provision_frame:
  assumes "provisionNode aws arn now sg pr env p (\<lambda>_ t. t) s = ((s', fx), r)"
  shows "same_desired d s s'"
proof (cases "s' = s")
  case False
  let ?k = "nodeRegistryKey (aws_clusterId aws) (pp_nodeId p)"
  obtain e s2 where put: "putJson s ?k (NodeJson e) IfNoneMatch = Some s2" and w: "s' = fst (wire_cluster aws arn now p (\<lambda>_ t. t) s2)"
    using assms False
    by (auto simp: provisionNode_def Let_def split: sum.splits option.splits if_splits prod.splits)
  obtain r2 where "wire_cluster aws arn now p (\<lambda>_ t. t) s2 = (s', r2)" using w by (metis prod.collapse)
  from wire_frame [OF this] have "same_desired d s2 s'" .
  moreover have "same_desired d s s2" by (rule putJson_frame [OF put]) (rule other_keys_apart)
  ultimately show ?thesis by (rule same_trans [rotated])
qed simp

lemma resume_frame: "resumeNode start e s = ((s', fx), r) \<Longrightarrow> same_desired d s s'"
  by (auto simp: resumeNode_def put_entry_frame split: option.splits if_splits)

lemma replace_frame: "replaceInstance env v c e s = ((s', fx), r) \<Longrightarrow> same_desired d s s'"
  by (auto simp: replaceInstance_def Let_def put_entry_frame split: option.splits if_splits)

lemma drift_frame: "applyNodeDrift start env v c e a s = ((s', fx), r) \<Longrightarrow> same_desired d s s'"
  by (cases a) (auto simp: applyNodeDrift_def put_entry_frame dest: resume_frame replace_frame)

definition undisturbed :: "deploy_world \<Rightarrow> bool" where
  "undisturbed w \<longleftrightarrow> (\<forall>p. w_interfere w p = (\<lambda>_ t. t)) \<and> (\<forall>k. w_meanwhile w k = (\<lambda>t. t))"

lemma undisturbedD [simp]: "undisturbed w \<Longrightarrow> w_interfere w p = (\<lambda>_ t. t)" "undisturbed w \<Longrightarrow> w_meanwhile w k = (\<lambda>t. t)"
  by (simp_all add: undisturbed_def)

lemma provision_all_frame:
  "undisturbed w \<Longrightarrow> provision_all w k as nodes st = ((s', fx), r) \<Longrightarrow> same_desired d (fst st) s'"
proof (induction w k as nodes st rule: provision_all.induct)
  case (2 w k a as nodes s fx0)
  obtain s1 fx1 r1 where p: "provisionNode (w_aws w) (w_callerArn w) (w_now w) (w_group w (ca_nodeId a)) (w_profile w (ca_nodeId a))
      (w_launch w (ca_nodeId a)) (params_of w a) (\<lambda>_ t. t) s = ((s1, fx1), r1)" by (metis prod.exhaust)
  from provision_frame [OF p] have f: "same_desired d s s1" .
  show ?case
  proof (cases r1)
    case (Inl e)
    with 2(2,3) p f show ?thesis by simp
  next
    case (Inr e)
    with 2 p have "same_desired d s1 s'" by simp
    with f show ?thesis by (auto intro: same_trans)
  qed
qed simp

lemma repair_all_frame:
  "repair_all w rs nodes st = ((s', fx), r) \<Longrightarrow> same_desired d (fst st) s'"
proof (induction w rs nodes st rule: repair_all.induct)
  case (2 w e c a rs nodes s fx0)
  obtain s1 fx1 r1 where p: "applyNodeDrift (w_start w) (w_launch w (ne_nodeId e)) (w_agentVersion w) (aws_clusterId (w_aws w)) e a s
      = ((s1, fx1), r1)" by (metis prod.exhaust)
  from drift_frame [OF p] have f: "same_desired d s s1" .
  show ?case
  proof (cases r1)
    case (Inl x)
    with 2(2) p f show ?thesis by simp
  next
    case (Inr x)
    with 2 p have "same_desired d s1 s'" by simp
    with f show ?thesis by (auto intro: same_trans)
  qed
qed simp

lemma bring_up_frame:
  assumes "undisturbed w" "bring_up w opts p s = ((s', fx), r)"
  shows "same_desired d s s'"
proof -
  obtain s1 fx1 r1 where 1: "provision_all w 0 (app_last ca_role (pn_create p)) (pn_nodes p) (s, []) = ((s1, fx1), r1)"
    by (metis prod.exhaust)
  have f: "same_desired d s s1" using provision_all_frame [OF assms(1) 1] by simp
  show ?thesis
  proof (cases r1)
    case (Inl e)
    with assms(2) 1 f show ?thesis by (auto simp: bring_up_def split: if_splits)
  next
    case (Inr nodes)
    obtain s2 fx2 r2 where 2: "repair_all w (app_last (\<lambda>(e, _). ne_role e) (pn_repairs p)) nodes (s1, fx1) = ((s2, fx2), r2)"
      by (metis prod.exhaust)
    have "same_desired d s1 s2" using repair_all_frame [OF 2] by simp
    with assms(2) 1 2 f Inr show ?thesis by (auto simp: bring_up_def intro: same_trans split: if_splits)
  qed
qed

lemma after_plan_frame:
  assumes "undisturbed w" "after_plan w config opts rq cfg p s = ((s', fx), r)"
  shows "same_desired d s s'"
proof -
  obtain s1 fx1 r1 where 1: "bring_up w opts p s = ((s1, fx1), r1)" by (metis prod.exhaust)
  have f: "same_desired d s s1" by (rule bring_up_frame [OF assms(1) 1])
  obtain s2 r2 where 2: "adopt_edge w opts cfg (pn_edge p) s1 = (s2, r2)" by (metis prod.exhaust)
  have g: "same_desired d s1 s2"
  proof (cases "s2 = s1")
    case False
    obtain x y where a: "adoptEdgeIfUnset (aws_clusterId (w_aws w)) (pn_edge p) (\<lambda>t. t) s1 = (x, y)" by (metis prod.exhaust)
    with 2 False assms(1) have "x = s2" by (auto simp: adopt_edge_def split: if_splits sum.splits)
    with adopt_frame [OF a] show ?thesis by simp
  qed simp
  have "s' = s1 \<or> s' = s2" using assms 1 2 by (auto simp: after_plan_def split: sum.splits)
  with f g show ?thesis by (auto intro: same_trans)
qed

section \<open>Nothing is published before the gates\<close>

definition published_already :: "run_error \<Rightarrow> bool" where
  "published_already e \<longleftrightarrow> (case e of ServiceRefused _ \<Rightarrow> True | PublishRefused _ \<Rightarrow> True | RegistryBroken _ \<Rightarrow> True
     | BadTimeout _ \<Rightarrow> True | _ \<Rightarrow> False)"

lemma publish_placed_error:
  "publish_placed w opts rq r k placed s = (s', Inl e) \<Longrightarrow> published_already e"
proof (induction w opts rq r k placed s rule: publish_placed.induct)
  case (2 w opts rq r k n placed rest s)
  have "published_already e'" if "incoming_services w opts rq rs xs = Inl e'" for e' rs xs
    using that unfolding incoming_services_def
    by (induction xs) (auto simp: res_bind_eq_Inl published_already_def split: sum.splits)
  with 2 show ?case by (auto simp: published_already_def split: sum.splits prod.splits)
qed simp

lemma clean_up_error: "clean_up w rq r k ns s = (s', Inl e) \<Longrightarrow> published_already e"
proof (induction w rq r k ns s rule: clean_up.induct)
  case (2 w rq r k n ns s)
  have "published_already e'" if "known_entry w nodes t m = Inl e'" for e' nodes t m
    using that by (auto simp: known_entry_def published_already_def split: option.splits)
  with 2 show ?case
    by (auto simp: published_already_def split: sum.splits option.splits prod.splits)
qed simp

lemma publish_and_wait_error:
  assumes "undisturbed w" "publish_and_wait w config opts rq r s = (s', Inl e)" "\<not> published_already e"
  shows "s' = s"
proof (cases "build_step w rq r")
  case None
  show ?thesis
  proof (cases "previous_containers w opts rq r s")
    case (Inr prev)
    obtain s2 r2 where pf: "publish_footprint w opts rq r s = (s2, r2)" by (metis prod.exhaust)
    have "published_already e'" if "r2 = Inl e'" for e'
      using pf that publish_placed_error clean_up_error
      by (auto simp: publish_footprint_def split: prod.splits sum.splits)
    moreover have "published_already e'" if "wait_and_record w opts rq r prev t = (t', Inl e')" for t t' e'
      using that by (auto simp: wait_and_record_def Let_def parseTimeoutSeconds_def published_already_def
          split: if_splits option.splits sum.splits)
    ultimately show ?thesis
      using assms None Inr pf by (auto simp: publish_and_wait_def split: sum.splits)
  qed (use assms None in \<open>simp add: publish_and_wait_def\<close>)
qed (use assms in \<open>simp add: publish_and_wait_def\<close>)

lemma adopt_topic_frame: "same_desired d s (adopt_topic w opts cfg s)"
  by (auto simp: adopt_topic_def put_cluster_frame split: option.splits)

text \<open>A deploy either stops before it has a plan, or it carries one out.\<close>

definition plan_for ::
  "deploy_world \<Rightarrow> launch_pad_config \<Rightarrow> deploy_options \<Rightarrow> deploy_request \<Rightarrow> cluster_config option \<Rightarrow> state_bucket
   \<Rightarrow> plan_error + deploy_plan" where
  "plan_for w config opts rq cfg s =
     (let s1 = adopt_topic w opts cfg s
      in plan_deploy (w_aws w) (w_dateParse w) (w_nowMs w) (w_now w) (w_rng w) (w_rng' w) (w_observe w) (w_ids w s1) config opts rq cfg s1)"

lemma runDeploy_cases:
  assumes "undisturbed w" and "runDeploy w config dir opts s = (st, r)"
  obtains (stopped) "st = (s, []) \<or> (\<exists>cfg e. st = (adopt_topic w opts cfg s, []) \<and> r = Inl e)"
      "r = Inr (Some NothingChanged) \<or> (\<exists>e. r = Inl e)"
  | (ran) rq cfg p s2 fx r2 where "deploy_request opts config dir (w_repoRoot w) (w_changed w) = Inr (Some rq)"
      "lock_check w config opts rq s = None" "cluster_of w s = Inr cfg" "plan_for w config opts rq cfg s = Inr p"
      "after_plan w config opts rq cfg p (adopt_topic w opts cfg s) = ((s2, fx), r2)"
      "(st, r) = (case r2 of Inl e \<Rightarrow> ((s2, fx), Inl e)
         | Inr y \<Rightarrow> if do_dryRun opts then ((s2, fx), Inr (Some DryRun))
            else (case publish_and_wait w config opts rq y s2 of (s3, out) \<Rightarrow> ((s3, fx), out)))"
proof (cases "deploy_request opts config dir (w_repoRoot w) (w_changed w)")
  case (Inr sel)
  note request = this
  show ?thesis
  proof (cases sel)
    case (Some rq)
    note rq = this
    show ?thesis
    proof (cases "lock_check w config opts rq s")
      case None
      note lock = this
      show ?thesis
      proof (cases "cluster_of w s")
        case (Inr cfg)
        note cfg = this
        obtain s2 fx r2 where ap: "after_plan w config opts rq cfg (projr (plan_for w config opts rq cfg s)) (adopt_topic w opts cfg s)
            = ((s2, fx), r2)" by (metis prod.exhaust)
        show ?thesis
        proof (cases "plan_for w config opts rq cfg s")
          case (Inl e)
          with assms request rq lock cfg show ?thesis by (intro stopped) (auto simp: runDeploy_def plan_for_def Let_def)
        next
          case (Inr p)
          with assms request rq lock cfg ap show ?thesis
            by (intro ran) (auto simp: runDeploy_def plan_for_def Let_def split: sum.split)
        qed
      qed (use assms request rq lock in \<open>intro stopped, auto simp: runDeploy_def\<close>)
    qed (use assms request rq in \<open>intro stopped, auto simp: runDeploy_def\<close>)
  qed (use assms request in \<open>intro stopped, auto simp: runDeploy_def\<close>)
qed (use assms in \<open>intro stopped, auto simp: runDeploy_def\<close>)

lemma dry_run_keeps:
  assumes "undisturbed w" "do_dryRun opts" "after_plan w config opts rq cfg p (adopt_topic w opts cfg s) = ((s2, fx), r2)"
  shows "s2 = s \<and> fx = []"
proof -
  have t: "adopt_topic w opts cfg s = s" using assms(2) by (simp add: adopt_topic_def split: option.split)
  have "\<exists>x. bring_up w opts p s = ((s, []), x)" using assms(2) by (simp add: bring_up_def)
  with assms t show ?thesis by (auto simp: after_plan_def adopt_edge_def Let_def split: sum.splits)
qed

lemma wait_outcome:
  "publish_and_wait w config opts rq y s = (s', Inr out) \<Longrightarrow> out \<noteq> Some DryRun \<and> out \<noteq> Some NothingChanged"
  by (auto simp: publish_and_wait_def wait_and_record_def Let_def split: option.splits sum.splits prod.splits if_splits)


section \<open>What a node is sent\<close>

definition planned_at :: "(string, deploy_resolved) assoc \<Rightarrow> service_decl list \<Rightarrow> string \<Rightarrow> (string \<times> int) list" where
  "planned_at rs services n =
     concat (map (\<lambda>s. map (\<lambda>q. (sd_name s, pl_replicas q)) (filter (\<lambda>q. pl_nodeId q = n) (placements_of rs (sd_name s)))) services)"

definition sent_to :: "(string, deploy_resolved) assoc \<Rightarrow> built_service list \<Rightarrow> string \<Rightarrow> node_service list" where
  "sent_to rs built n =
     concat (map (\<lambda>b. map (\<lambda>q. (b, pl_replicas q)) (filter (\<lambda>q. pl_nodeId q = n) (placements_of rs (sd_name (bs_decl b))))) built)"

lemma place_fold:
  fixes b :: built_service
  shows "assoc_get_or [] (fold (\<lambda>p m. assoc_set (pl_nodeId p) (assoc_get_or [] m (pl_nodeId p) @ [(b, pl_replicas p)]) m) ps m) n
    = assoc_get_or [] m n @ map (\<lambda>q. (b, pl_replicas q)) (filter (\<lambda>q. pl_nodeId q = n) ps)"
    "set (map fst (fold (\<lambda>p m. assoc_set (pl_nodeId p) (assoc_get_or [] m (pl_nodeId p) @ [(b, pl_replicas p)]) m) ps m))
     = set (map fst m) \<union> pl_nodeId ` set ps"
    "distinct (map fst m) \<Longrightarrow>
     distinct (map fst (fold (\<lambda>p m. assoc_set (pl_nodeId p) (assoc_get_or [] m (pl_nodeId p) @ [(b, pl_replicas p)]) m) ps m))"
proof (induction ps arbitrary: m)
  case (Cons p ps)
  { case 1 then show ?case by (subst fold_Cons, subst o_apply, subst Cons.IH(1)) (simp add: assoc_get_or_def map_of_assoc_set) }
  { case 2 then show ?case by (subst fold_Cons, subst o_apply, subst Cons.IH(2)) (simp only: keys_assoc_set list.simps, auto) }
  { case 3 then show ?case by (subst fold_Cons, subst o_apply, intro Cons.IH(3) distinct_assoc_set) }
qed simp_all

lemma node_placements_at:
  "assoc_get_or [] (node_placements rs built) n = sent_to rs built n"
  "set (map fst (node_placements rs built)) = {n. sent_to rs built n \<noteq> []}"
  "distinct (map fst (node_placements rs built))"
proof -
  let ?f = "\<lambda>b m. fold (\<lambda>p m. assoc_set (pl_nodeId p) (assoc_get_or [] m (pl_nodeId p) @ [(b, pl_replicas p)]) m)
       (placements_of rs (sd_name (bs_decl b))) m"
  have g: "assoc_get_or [] (fold ?f built m) n = assoc_get_or [] m n @ sent_to rs built n" for m n
  proof (induction built arbitrary: m)
    case (Cons b built)
    then show ?case by (subst fold_Cons, subst o_apply, subst Cons.IH, subst place_fold(1)) (simp add: sent_to_def)
  qed (simp add: sent_to_def)
  have k: "set (map fst (fold ?f built m)) = set (map fst m) \<union> {n. sent_to rs built n \<noteq> []}" for m
  proof (induction built arbitrary: m)
    case (Cons b built)
    then show ?case
      by (subst fold_Cons, subst o_apply, subst Cons.IH, subst place_fold(2))
        (auto simp: sent_to_def filter_empty_conv simp del: set_map)
  qed (simp add: sent_to_def)
  have d: "distinct (map fst m) \<Longrightarrow> distinct (map fst (fold ?f built m))" for m
    by (induction built arbitrary: m) (simp_all add: place_fold(3))
  show "assoc_get_or [] (node_placements rs built) n = sent_to rs built n"
    using g [of "[]"] by (simp add: node_placements_def assoc_get_or_def)
  show "set (map fst (node_placements rs built)) = {n. sent_to rs built n \<noteq> []}"
    using k [of "[]"] by (simp add: node_placements_def)
  show "distinct (map fst (node_placements rs built))"
    using d [of "[]"] by (simp add: node_placements_def)
qed

lemma map_res_Inr: "map_res f xs = Inr ys \<longleftrightarrow> list_all2 (\<lambda>x y. f x = Inr y) xs ys"
proof (induction xs arbitrary: ys)
  case (Cons x xs)
  then show ?case by (cases ys) (auto simp: res_bind_eq_Inr list_all2_Cons1)
qed auto

lemma list_all2_map_eq: "list_all2 (\<lambda>x y. f x = g y) xs ys \<Longrightarrow> map f xs = map g ys"
  by (induction rule: list_all2_induct) auto

lemma incoming_shape:
  assumes "incoming_services w opts rq rs placed = Inr inc"
  shows "map (\<lambda>x. (sc_service x, sc_replicas x)) inc = map (\<lambda>(b, k). (sd_name (bs_decl b), k)) placed"
    and "\<forall>x \<in> set inc. sc_project x = rq_owner rq"
proof -
  let ?f = "\<lambda>(b, k). (sd_name (bs_decl b), k)"
  have l: "list_all2 (\<lambda>p x. (sc_service x, sc_replicas x) = ?f p \<and> sc_project x = rq_owner rq) placed inc"
    using assms unfolding incoming_services_def map_res_Inr
    by (rule list_all2_mono) (auto simp: toServiceConfig_def Let_def split: sum.splits if_splits prod.splits)
  have "list_all2 (\<lambda>p x. ?f p = (sc_service x, sc_replicas x)) placed inc"
    using l by (rule list_all2_mono) auto
  from list_all2_map_eq [OF this] show "map (\<lambda>x. (sc_service x, sc_replicas x)) inc = map ?f placed" by simp
  show "\<forall>x \<in> set inc. sc_project x = rq_owner rq"
    using l by (induction rule: list_all2_induct) auto
qed

lemma built_decls:
  "map_res (build_service w project rs reuse) ds = Inr built \<Longrightarrow> map bs_decl built = ds"
proof -
  assume "map_res (build_service w project rs reuse) ds = Inr built"
  then have "list_all2 (\<lambda>d b. d = bs_decl b) ds built"
    unfolding map_res_Inr by (rule list_all2_mono) (auto simp: build_service_def Let_def split: option.splits)
  from list_all2_map_eq [of id bs_decl, simplified, OF this] show ?thesis by simp
qed

lemma sent_planned:
  "map (\<lambda>(b, k). (sd_name (bs_decl b), k)) (sent_to rs built n) = planned_at rs (map bs_decl built) n"
  by (simp add: sent_to_def planned_at_def map_concat comp_def)

section \<open>What publication leaves\<close>

text \<open>A node holds exactly the given services of the owner, and everybody else's as before.\<close>

definition node_holds :: "string \<Rightarrow> string \<Rightarrow> string \<Rightarrow> state_bucket \<Rightarrow> state_bucket \<Rightarrow> (string \<times> int) list \<Rightarrow> bool" where
  "node_holds c owner n s s' want \<longleftrightarrow>
     (\<exists>d. s' (desiredKey c n) = Some (DesiredJson d)
        \<and> map (\<lambda>x. (sc_service x, sc_replicas x)) (owned_by owner (ds_services d)) = want
        \<and> others owner (ds_services d) = others owner (services_of (s (desiredKey c n))))"

lemma published_full:
  assumes "publishDesired aws n e owner inc False clock stamp (\<lambda>_ t. t) s = (s', Inr u)"
  shows "node_holds (aws_clusterId aws) owner n s s' (map (\<lambda>x. (sc_service x, sc_replicas x)) inc)
    \<and> (\<forall>k. k \<noteq> desiredKey (aws_clusterId aws) n \<longrightarrow> s' k = s k)"
proof -
  let ?k = "desiredKey (aws_clusterId aws) n"
  obtain ss where m: "mergeProjectServices (services_of (s ?k)) owner inc = Inr ss"
    and s': "s' = s(?k := Some (DesiredJson \<lparr>ds_version = PROTOCOL_VERSION, ds_nodeId = n, ds_updatedAt = stamp 0, ds_services = ss\<rparr>))"
    using assms unfolding publish_alone merge_for_simps by (auto split: sum.splits option.splits)
  have ss: "ss = others owner (services_of (s ?k)) @ inc" and p: "\<forall>x \<in> set inc. sc_project x = owner"
    using m by (auto simp: full_merge_cases)
  have "owned_by owner ss = inc" using p by (auto simp: ss owned_by_def others_def filter_empty_conv filter_id_conv)
  moreover have "others owner ss = others owner (services_of (s ?k))"
    by (rule full_merge.others_kept [OF m])
  ultimately show ?thesis by (simp add: s' node_holds_def)
qed

lemma publish_placed_full:
  assumes "undisturbed w" "\<not> rq_partial rq"
    and "publish_placed w opts rq r k placed s = (s', Inr u)" "distinct (map fst placed)"
  shows "(\<forall>(n, ns) \<in> set placed. node_holds (aws_clusterId (w_aws w)) (rq_owner rq) n s s' (map (\<lambda>(b, k). (sd_name (bs_decl b), k)) ns))
    \<and> (\<forall>x. x \<notin> desiredKey (aws_clusterId (w_aws w)) ` fst ` set placed \<longrightarrow> s' x = s x)"
  using assms(3,4)
proof (induction placed arbitrary: k s)
  case (Cons p placed)
  obtain n ns where p: "p = (n, ns)" by (cases p)
  let ?c = "aws_clusterId (w_aws w)"
  obtain inc s1 where inc: "incoming_services w opts rq (pn_resolved (ry_plan r)) ns = Inr inc"
    and pub: "publishDesired (w_aws w) n (the (map_of (ry_nodes r) n)) (rq_owner rq) inc False (w_clock w) (w_stamp w) (\<lambda>_ t. t) s = (s1, Inr ())"
    and rest: "publish_placed w opts rq r (k + 1) placed s1 = (s', Inr u)"
    using Cons.prems(1) assms(1,2) by (auto simp: p split: sum.splits prod.splits)
  note one = published_full [OF pub]
  note IH = Cons.IH [OF rest]
  have n: "n \<notin> fst ` set placed" and d: "distinct (map fst placed)" using Cons.prems(2) by (simp_all add: p)
  have kept: "s' (desiredKey ?c n) = s1 (desiredKey ?c n)" using IH d n by (auto simp: node_keys image_iff)
  have "node_holds ?c (rq_owner rq) n s s' (map (\<lambda>(b, k). (sd_name (bs_decl b), k)) ns)"
    using one kept by (simp add: node_holds_def incoming_shape(1) [OF inc])
  moreover have "node_holds ?c (rq_owner rq) m s s' want" if "node_holds ?c (rq_owner rq) m s1 s' want" "m \<noteq> n" for m want
    using that one by (auto simp: node_holds_def node_keys)
  ultimately show ?case
    using IH d n one by (fastforce simp: p node_keys image_iff)
qed simp

lemma clean_up_full:
  assumes "undisturbed w" and "clean_up w rq r k ns s = (s', Inr u)" "distinct ns"
  shows "(\<forall>n \<in> set ns. (\<exists>e. known_entry w (ry_nodes r) s n = Inr (Some e)) \<longrightarrow> node_holds (aws_clusterId (w_aws w)) (rq_owner rq) n s s' [])
    \<and> (\<forall>x. x \<notin> desiredKey (aws_clusterId (w_aws w)) ` set ns \<longrightarrow> s' x = s x)"
  using assms(2,3)
proof (induction ns arbitrary: k s)
  case (Cons n ns)
  let ?c = "aws_clusterId (w_aws w)"
  have registry: "known_entry w (ry_nodes r) t m = known_entry w (ry_nodes r) s m"
    if "\<forall>x. x \<noteq> desiredKey ?c n \<longrightarrow> t x = s x" for t m
  proof -
    have "t (nodeRegistryKey ?c m) = s (nodeRegistryKey ?c m)" using that other_keys_apart(1) [of ?c m ?c n] by blast
    then show ?thesis by (simp add: known_entry_def split: option.split)
  qed
  obtain oe where oe: "known_entry w (ry_nodes r) s n = Inr oe" using Cons.prems(1) by (auto split: sum.splits)
  show ?case
  proof (cases oe)
    case None
    with Cons.prems oe have "clean_up w rq r k ns s = (s', Inr u)" by simp
    from Cons.IH [OF this] Cons.prems(2) None oe show ?thesis by auto
  next
    case (Some e)
    obtain s1 where pub: "publishDesired (w_aws w) n e (rq_owner rq) [] False (w_clock w) (w_stamp w) (\<lambda>_ t. t) s = (s1, Inr ())"
      and rest: "clean_up w rq r (k + 1) ns s1 = (s', Inr u)"
      using Cons.prems(1) assms(1) oe Some by (auto split: sum.splits prod.splits)
    note one = published_full [OF pub]
    note IH = Cons.IH [OF rest]
    have n: "n \<notin> set ns" and d: "distinct ns" using Cons.prems(2) by simp_all
    have "desiredKey ?c n \<notin> desiredKey ?c ` set ns" using n by (auto simp: node_keys)
    with IH [OF d] have kept: "s' (desiredKey ?c n) = s1 (desiredKey ?c n)" by blast
    have "node_holds ?c (rq_owner rq) n s s' []" using one kept by (simp add: node_holds_def)
    moreover have "node_holds ?c (rq_owner rq) m s s' want" if "node_holds ?c (rq_owner rq) m s1 s' want" "m \<noteq> n" for m want
      using that one by (auto simp: node_holds_def node_keys)
    moreover have "\<forall>m. known_entry w (ry_nodes r) s1 m = known_entry w (ry_nodes r) s m" using registry one by blast
    ultimately show ?thesis using IH d n one by (fastforce simp: node_keys image_iff)
  qed
qed simp

section \<open>From end to end\<close>

lemma cas_frame:
  assumes "\<And>n. key \<noteq> desiredKey c n" "0 < m"
  shows "same_desired c s (fst (cas_loop getJson putJson deleteObject key decide (\<lambda>_ t. t) 0 m s))"
  using assms by (subst cas_alone) (auto simp: same_put split: decision.split)

lemma record_frame:
  assumes "undisturbed w"
  shows "same_desired (aws_clusterId (w_aws w)) s (record_footprint w config opts rq r s)"
proof -
  let ?c = "aws_clusterId (w_aws w)"
  have 1: "same_desired ?c t (case writeConfigBaseline (w_aws w) config (rq_owner rq) (w_now w) t of None \<Rightarrow> t | Some t' \<Rightarrow> t')" for t
    using putJson_frame project_keys_apart(3) by (auto simp: writeConfigBaseline_def split: option.split)
  have 2: "same_desired ?c t (upsertProjectIndex ?c i (w_interfere w AtIndex) t)" for t i
    using assms by (simp add: upsertProjectIndex_def cas_frame project_keys_apart(1) MAX_INDEX_RETRIES_def)
  have 3: "same_desired ?c t (publishEdgeConfig (w_aws w) e ds (w_stamp w) (w_interfere w AtRoute) t)" for t e ds
    using assms by (simp add: publishEdgeConfig_def cas_frame other_keys_apart(3) MAX_PUBLISH_RETRIES_def)
  have 4: "same_desired ?c t (recordPreviewState dp (w_aws w) config env ttl now t)" for t dp env ttl now
    using putJson_frame project_keys_apart(2) by (auto simp: recordPreviewState_def Let_def split: option.split sum.split)
  define s1 where "s1 = (case writeConfigBaseline (w_aws w) config (rq_owner rq) (w_now w) s of None \<Rightarrow> s | Some s' \<Rightarrow> s')"
  define s2 where "s2 = upsertProjectIndex ?c \<lparr>uc_project = lc_project config, uc_component = lc_component config,
      uc_services = map sd_name (lc_service config), uc_now = w_now w\<rparr> (w_interfere w AtIndex) s1"
  have s2: "same_desired ?c s s2" unfolding s2_def s1_def by (rule same_trans [OF 1 2])
  have "\<exists>s3. same_desired ?c s2 s3 \<and> record_footprint w config opts rq r s = (case do_env opts of None \<Rightarrow> s3
      | Some env \<Rightarrow> recordPreviewState (w_dateParse w) (w_aws w) config env (rq_ttlMs rq) (w_now w) s3)"
    unfolding record_footprint_def Let_def s1_def [symmetric] s2_def [symmetric]
    by (rule exI, rule conjI [rotated], rule refl) (simp add: 3)
  then obtain s3 where s3: "same_desired ?c s2 s3"
    and run: "record_footprint w config opts rq r s = (case do_env opts of None \<Rightarrow> s3
      | Some env \<Rightarrow> recordPreviewState (w_dateParse w) (w_aws w) config env (rq_ttlMs rq) (w_now w) s3)" by blast
  show ?thesis using same_trans [OF s2 s3] same_trans [OF same_trans [OF s2 s3] 4] by (simp add: run split: option.split)
qed

lemma wait_frame: "wait_and_record w opts rq r prev s = (s', out) \<Longrightarrow> same_desired (aws_clusterId (w_aws w)) s s'"
proof -
  assume "wait_and_record w opts rq r prev s = (s', out)"
  moreover have "same_desired (aws_clusterId (w_aws w)) s (recordDeployEvent (w_aws w) a b p e k ss x i s)" for a b p e k ss x i
    using putJson_frame project_keys_apart(4) by (auto simp: recordDeployEvent_def split: option.split)
  ultimately show ?thesis
    by (auto simp: wait_and_record_def Let_def split: if_splits sum.splits option.splits)
qed

text \<open>The nodes a footprint occupies, and the registry entries a deploy knows.\<close>

lemma occupied_iff:
  assumes "distinct ids"
  shows "n \<in> set (dp_occupiedNodeIds (loadDeployedPlacement aws ids owner s)) \<longleftrightarrow>
    n \<in> set ids \<and> owned_by owner (services_of (s (desiredKey (aws_clusterId aws) n))) \<noteq> []"
    and "distinct (dp_occupiedNodeIds (loadDeployedPlacement aws ids owner s))"
proof -
  let ?ps = "footprint_services (loadNodeDesiredStates (aws_clusterId aws) ids s) owner"
  have k: "set (map fst (fold add_occupancy ps m)) = set (map fst m) \<union> fst ` set ps" for ps m
  proof (induction ps arbitrary: m)
    case (Cons p ps)
    have "set (map fst (add_occupancy p m)) = insert (fst p) (set (map fst m))"
      by (cases p) (simp add: add_occupancy_def keys_assoc_set del: set_map)
    with Cons show ?case by (auto simp del: set_map)
  qed simp
  have d: "distinct (map fst m) \<Longrightarrow> distinct (map fst (fold add_occupancy ps m))" for ps m
    by (induction ps arbitrary: m) (auto simp: add_occupancy_def distinct_assoc_set split: prod.splits)
  have "n \<in> fst ` set ?ps \<longleftrightarrow> (\<exists>ss. (n, ss) \<in> set (loadNodeDesiredStates (aws_clusterId aws) ids s) \<and> owned_by owner ss \<noteq> [])"
  proof -
    have "set ?ps = {(m, x). \<exists>ss. (m, ss) \<in> set (loadNodeDesiredStates (aws_clusterId aws) ids s) \<and> x \<in> set (owned_by owner ss)}"
      by (auto simp: footprint_services_def)
    moreover have "owned_by owner ss \<noteq> [] \<longleftrightarrow> (\<exists>x. x \<in> set (owned_by owner ss))" for ss by (cases "owned_by owner ss") auto
    ultimately show ?thesis by (simp add: image_iff) blast
  qed
  also have "\<dots> \<longleftrightarrow> n \<in> set ids \<and> owned_by owner (services_of (s (desiredKey (aws_clusterId aws) n))) \<noteq> []"
  proof (cases "Option.bind (s (desiredKey (aws_clusterId aws) n)) parseDesiredState")
    case None
    then have "services_of (s (desiredKey (aws_clusterId aws) n)) = []" by (simp add: services_of_def)
    with None show ?thesis by (auto simp: loaded owned_by_def)
  next
    case (Some d)
    then have "services_of (s (desiredKey (aws_clusterId aws) n)) = ds_services d" by (simp add: services_of_def)
    with Some show ?thesis by (auto simp: loaded bind_eq_Some_conv)
  qed
  finally show "n \<in> set (dp_occupiedNodeIds (loadDeployedPlacement aws ids owner s)) \<longleftrightarrow>
      n \<in> set ids \<and> owned_by owner (services_of (s (desiredKey (aws_clusterId aws) n))) \<noteq> []"
    using k [of ?ps "[]"] by (simp add: loadDeployedPlacement_def buildPlacementSnapshot_def Let_def)
  show "distinct (dp_occupiedNodeIds (loadDeployedPlacement aws ids owner s))"
    using d [of "[]"] by (simp add: loadDeployedPlacement_def buildPlacementSnapshot_def Let_def)
qed

lemma candidates_know:
  "buildCandidateNodes dp c s owner needs nowMs now ids acc = Inr r \<Longrightarrow>
   fst ` set (cns_nodes acc) \<subseteq> fst ` set (cns_nodes r) \<and>
   (\<forall>n \<in> set ids. s (nodeRegistryKey c n) \<noteq> None \<longrightarrow> n \<in> fst ` set (cns_nodes r))"
proof (induction dp c s owner needs nowMs now ids acc rule: buildCandidateNodes.induct)
  case (2 dp c s owner needs nowMs now n ns acc)
  show ?case
  proof (cases "s (nodeRegistryKey c n)")
    case None
    with 2 show ?thesis by simp
  next
    case (Some raw)
    with 2(3) obtain e where e: "parseNodeRegistryEntry raw = Some e" by (auto split: option.splits)
    let ?acc = "acc\<lparr>cns_nodes := assoc_set n e (cns_nodes acc)\<rparr>"
    have k: "fst ` set (assoc_set n e (cns_nodes acc)) = insert n (fst ` set (cns_nodes acc))"
      using keys_assoc_set [of n e "cns_nodes acc"] by simp
    show ?thesis
      using 2(2) [OF Some e refl refl] 2(3) Some e by (auto simp: Let_def k split: if_splits)
  qed
qed simp

lemma keys_fold_known: "fst ` set nodes \<subseteq> fst ` set (known_nodes plan nodes)"
proof -
  have "fst ` set m \<subseteq> fst ` set (fold (\<lambda>a m. case existing_entry a of None \<Rightarrow> m | Some e \<Rightarrow> assoc_set (action_node a) e m) plan m)" for m
  proof (induction plan arbitrary: m)
    case (Cons a plan)
    have "fst ` set m \<subseteq> fst ` set (case existing_entry a of None \<Rightarrow> m | Some e \<Rightarrow> assoc_set (action_node a) e m)"
      using keys_assoc_set [of "action_node a" _ m] by (auto split: option.split)
    from subset_trans [OF this Cons] show ?case by simp
  qed simp
  then show ?thesis by (simp add: known_nodes_def)
qed

lemma keys_provision:
  "provision_all w k as nodes st = (st', Inr nodes') \<Longrightarrow> fst ` set nodes \<subseteq> fst ` set nodes'"
proof (induction w k as nodes st rule: provision_all.induct)
  case (2 w k a as nodes s fx)
  have k: "fst ` set nodes \<subseteq> fst ` set (assoc_set (ca_nodeId a) e nodes)" for e
    using keys_assoc_set [of "ca_nodeId a" e nodes] by auto
  show ?case using 2 subset_trans [OF k] by (auto split: sum.splits prod.splits simp del: subsetI)
qed simp

lemma keys_repair:
  "repair_all w rs nodes st = (st', Inr nodes') \<Longrightarrow> fst ` set nodes \<subseteq> fst ` set nodes'"
proof (induction w rs nodes st rule: repair_all.induct)
  case (2 w e c a rs nodes s fx)
  have k: "fst ` set nodes \<subseteq> fst ` set (assoc_set (ne_nodeId e) x nodes)" for x
    using keys_assoc_set [of "ne_nodeId e" x nodes] by auto
  show ?case using 2 subset_trans [OF k] by (auto split: sum.splits prod.splits simp del: subsetI)
qed simp

lemma keys_bring_up:
  assumes "\<not> do_dryRun opts" "bring_up w opts p s = (st, Inr nodes)"
  shows "fst ` set (pn_nodes p) \<subseteq> fst ` set nodes"
proof (cases "pn_create p = [] \<and> pn_repairs p = []")
  case False
  obtain s1 n1 where 1: "provision_all w 0 (app_last ca_role (pn_create p)) (pn_nodes p) (s, []) = (s1, Inr n1)"
    and 2: "repair_all w (app_last (\<lambda>(e, _). ne_role e) (pn_repairs p)) n1 s1 = (st, Inr nodes)"
    using assms False by (auto simp: bring_up_def split: if_splits sum.splits prod.splits)
  show ?thesis by (rule subset_trans [OF keys_provision [OF 1] keys_repair [OF 2]])
qed (use assms in \<open>simp add: bring_up_def\<close>)

lemma registry_keys_apart: "clusterConfigKey d \<noteq> nodeRegistryKey c n"
  using suffix_differs [of 8 "''/node.json''" "''/cluster.json''" "clusterNodesPrefix c @ n" "CLUSTERS_PREFIX @ d"]
  by (auto simp: nodeRegistryKey_def nodePrefix_def clusterConfigKey_def)

lemma adopt_topic_registry: "adopt_topic w opts cfg s (nodeRegistryKey c n) = s (nodeRegistryKey c n)"
  by (simp add: adopt_topic_def put_cluster registry_keys_apart [symmetric] split: option.split)

lemma res_bind_InrE:
  assumes "res_bind x f = Inr z"
  obtains y where "x = Inr y" "f y = Inr z"
  using assms by (auto simp: res_bind_eq_Inr)

lemma plan_deploy_parts:
  assumes "plan_deploy aws dp nowMs now rng rng' observe ids config opts rq cfg s = Inr p"
  shows "\<exists>c acts. buildCandidateNodes dp (aws_clusterId aws) s (rq_owner rq) (\<not> rq_reuse rq) nowMs now ids no_candidates = Inr c
    \<and> pn_nodes p = known_nodes acts (cns_nodes c) \<and> pn_prior p = loadDeployedPlacement aws ids (rq_owner rq) s"
  using assms unfolding plan_deploy_def Let_def
  apply -
  apply (split sum.split_asm, blast)
  apply (erule res_bind_InrE)
  apply (split if_split_asm, blast)
  apply (erule res_bind_InrE)
  apply (split prod.split_asm)
  apply (split option.split_asm)
   apply (erule res_bind_InrE)
   apply (split option.split_asm)
    apply (clarsimp simp del: buildCandidateNodes.simps)
    apply (rule exI, rule refl)
   apply blast
  apply blast
  done

lemma plan_knows:
  assumes "plan_for w config opts rq cfg s = Inr p" "n \<in> set (w_ids w (adopt_topic w opts cfg s))"
    and "s (nodeRegistryKey (aws_clusterId (w_aws w)) n) \<noteq> None"
  shows "n \<in> fst ` set (pn_nodes p)"
    "pn_prior p = loadDeployedPlacement (w_aws w) (w_ids w (adopt_topic w opts cfg s)) (rq_owner rq) (adopt_topic w opts cfg s)"
proof -
  let ?s = "adopt_topic w opts cfg s" and ?c = "aws_clusterId (w_aws w)"
  have "plan_deploy (w_aws w) (w_dateParse w) (w_nowMs w) (w_now w) (w_rng w) (w_rng' w) (w_observe w)
      (w_ids w ?s) config opts rq cfg ?s = Inr p" using assms(1) unfolding plan_for_def Let_def .
  from plan_deploy_parts [OF this] obtain c acts
    where c: "buildCandidateNodes (w_dateParse w) ?c ?s (rq_owner rq) (\<not> rq_reuse rq) (w_nowMs w) (w_now w)
      (w_ids w ?s) no_candidates = Inr c"
    and "pn_nodes p = known_nodes acts (cns_nodes c)"
    and prior: "pn_prior p = loadDeployedPlacement (w_aws w) (w_ids w ?s) (rq_owner rq) ?s" by blast
  then have "fst ` set (cns_nodes c) \<subseteq> fst ` set (pn_nodes p)" using keys_fold_known by simp
  moreover have "n \<in> fst ` set (cns_nodes c)"
    using candidates_know [OF c] assms(2,3) by (simp add: adopt_topic_registry)
  ultimately show "n \<in> fst ` set (pn_nodes p)" by blast
  show "pn_prior p = loadDeployedPlacement (w_aws w) (w_ids w ?s) (rq_owner rq) ?s" by (rule prior)
qed

lemma prepare_ready:
  assumes "prepare w opts config rq p nodes s = Inr r"
  shows "\<exists>built. map bs_decl built = rq_services rq \<and> ry_plan r = p \<and> ry_nodes r = nodes
    \<and> ry_placed r = node_placements (pn_resolved p) built \<and> ry_vacated r = vacated_nodes rq (pn_prior p) (ry_placed r)"
  using assms unfolding prepare_def Let_def
  apply -
  apply (split if_split_asm, blast)
  apply (erule res_bind_InrE)
  apply (erule res_bind_InrE)
  apply (erule res_bind_InrE)
  apply (split option.split_asm)
   apply (drule built_decls, clarsimp, blast)
  apply blast
  done

lemma after_plan_ready:
  assumes "undisturbed w" "\<not> do_dryRun opts" "after_plan w config opts rq cfg p s = ((s', fx), Inr r)"
  shows "\<exists>built. map bs_decl built = rq_services rq \<and> ry_plan r = p \<and> fst ` set (pn_nodes p) \<subseteq> fst ` set (ry_nodes r)
    \<and> ry_placed r = node_placements (pn_resolved p) built \<and> ry_vacated r = vacated_nodes rq (pn_prior p) (ry_placed r)"
proof -
  obtain s1 fx1 nodes where up: "bring_up w opts p s = ((s1, fx1), Inr nodes)"
    and r: "\<exists>t. prepare w opts config rq p nodes t = Inr r"
    using assms by (auto simp: after_plan_def split: sum.splits prod.splits)
  from r obtain t where "prepare w opts config rq p nodes t = Inr r" by blast
  from prepare_ready [OF this] keys_bring_up [OF assms(2) up] show ?thesis by auto
qed

lemma holds_same:
  "same_desired c s t \<Longrightarrow> same_desired c t' s' \<Longrightarrow> node_holds c owner n t t' want \<Longrightarrow> node_holds c owner n s s' want"
  by (simp add: node_holds_def same_desired_def)

lemma publish_and_wait_full:
  assumes "undisturbed w" "\<not> rq_partial rq" "publish_and_wait w config opts rq r s = (s', Inr out)"
    and placed: "distinct (map fst (ry_placed r))" and vacated: "distinct (ry_vacated r)"
    and apart: "set (ry_vacated r) \<inter> fst ` set (ry_placed r) = {}"
  shows "\<forall>(n, ns) \<in> set (ry_placed r). node_holds (aws_clusterId (w_aws w)) (rq_owner rq) n s s' (map (\<lambda>(b, k). (sd_name (bs_decl b), k)) ns)"
    and "\<forall>n \<in> set (ry_vacated r). n \<in> fst ` set (ry_nodes r) \<longrightarrow> node_holds (aws_clusterId (w_aws w)) (rq_owner rq) n s s' []"
    and "\<forall>n. n \<notin> set (ry_vacated r) \<union> fst ` set (ry_placed r) \<longrightarrow>
      s' (desiredKey (aws_clusterId (w_aws w)) n) = s (desiredKey (aws_clusterId (w_aws w)) n)"
proof -
  let ?c = "aws_clusterId (w_aws w)"
  obtain prev where prev: "previous_containers w opts rq r s = Inr prev" and b: "build_step w rq r = None"
    using assms(1,3) by (auto simp: publish_and_wait_def split: option.splits sum.splits)
  obtain s1 where 1: "publish_placed w opts rq r 0 (ry_placed r) s = (s1, Inr ())"
    and s2: "\<exists>s2. clean_up w rq r 0 (ry_vacated r) s1 = (s2, Inr ())
        \<and> wait_and_record w opts rq r prev (record_footprint w config opts rq r s2) = (s', Inr out)"
    using assms(1,3) prev b
    by (auto simp: publish_and_wait_def publish_footprint_def split: sum.splits prod.splits)
  from s2 obtain s2 where 2: "clean_up w rq r 0 (ry_vacated r) s1 = (s2, Inr ())"
    and 3: "wait_and_record w opts rq r prev (record_footprint w config opts rq r s2) = (s', Inr out)" by blast
  have kept: "same_desired ?c s2 s'" by (rule same_trans [OF record_frame [OF assms(1)] wait_frame [OF 3]])
  note pub = publish_placed_full [OF assms(1,2) 1 placed] and clean = clean_up_full [OF assms(1) 2 vacated]
  have at: "s2 (desiredKey ?c n) = s1 (desiredKey ?c n)" if "n \<notin> set (ry_vacated r)" for n
  proof -
    have "desiredKey ?c n \<notin> desiredKey ?c ` set (ry_vacated r)" using that by (auto simp: node_keys)
    with clean show ?thesis by blast
  qed
  have before: "s1 (desiredKey ?c n) = s (desiredKey ?c n)" if "n \<notin> fst ` set (ry_placed r)" for n
  proof -
    have "desiredKey ?c n \<notin> desiredKey ?c ` fst ` set (ry_placed r)" using that by (force simp: node_keys)
    with pub show ?thesis by blast
  qed
  show "\<forall>(n, ns) \<in> set (ry_placed r). node_holds ?c (rq_owner rq) n s s' (map (\<lambda>(b, k). (sd_name (bs_decl b), k)) ns)"
  proof (intro ballI, clarify)
    fix n ns assume n: "(n, ns) \<in> set (ry_placed r)"
    then have "n \<notin> set (ry_vacated r)" using apart by force
    moreover have "node_holds ?c (rq_owner rq) n s s1 (map (\<lambda>(b, k). (sd_name (bs_decl b), k)) ns)" using pub n by blast
    ultimately show "node_holds ?c (rq_owner rq) n s s' (map (\<lambda>(b, k). (sd_name (bs_decl b), k)) ns)"
      using at kept by (simp add: node_holds_def same_desired_def)
  qed
  show "\<forall>n \<in> set (ry_vacated r). n \<in> fst ` set (ry_nodes r) \<longrightarrow> node_holds ?c (rq_owner rq) n s s' []"
  proof (intro ballI impI)
    fix n assume n: "n \<in> set (ry_vacated r)" "n \<in> fst ` set (ry_nodes r)"
    then obtain e where "map_of (ry_nodes r) n = Some e" by (metis map_of_eq_None_iff not_None_eq)
    then have "known_entry w (ry_nodes r) s1 n = Inr (Some e)" by (simp add: known_entry_def)
    with clean n have "node_holds ?c (rq_owner rq) n s1 s2 []" by blast
    moreover have "s1 (desiredKey ?c n) = s (desiredKey ?c n)" using before apart n by blast
    ultimately show "node_holds ?c (rq_owner rq) n s s' []"
      using kept by (simp add: node_holds_def same_desired_def)
  qed
  show "\<forall>n. n \<notin> set (ry_vacated r) \<union> fst ` set (ry_placed r) \<longrightarrow> s' (desiredKey ?c n) = s (desiredKey ?c n)"
    using at before kept by (simp add: same_desired_def)
qed

text \<open>What a full deploy of a plan leaves at one node.\<close>

definition as_planned ::
  "string \<Rightarrow> deploy_request \<Rightarrow> deploy_plan \<Rightarrow> string list \<Rightarrow> state_bucket \<Rightarrow> state_bucket \<Rightarrow> string \<Rightarrow> bool" where
  "as_planned c rq p ids s s' n \<longleftrightarrow>
     (if planned_at (pn_resolved p) (rq_services rq) n \<noteq> []
      then node_holds c (rq_owner rq) n s s' (planned_at (pn_resolved p) (rq_services rq) n)
      else if n \<in> set ids \<and> owned_by (rq_owner rq) (services_of (s (desiredKey c n))) \<noteq> []
      then node_holds c (rq_owner rq) n s s' []
      else s' (desiredKey c n) = s (desiredKey c n))"

lemma deploy_effect:
  assumes w: "undisturbed w" "w_ids w = (\<lambda>_. ids)" "distinct ids"
    and run: "runDeploy w config dir opts s = ((s', fx), Inr (Some out))" "out \<noteq> NothingChanged" "out \<noteq> DryRun"
    and rq: "deploy_request opts config dir (w_repoRoot w) (w_changed w) = Inr (Some rq)" "\<not> rq_partial rq"
  shows "\<exists>cfg p. cluster_of w s = Inr cfg \<and> plan_for w config opts rq cfg s = Inr p \<and> (\<forall>n. (n \<in> set ids \<longrightarrow> s (nodeRegistryKey (aws_clusterId (w_aws w)) n) \<noteq> None) \<longrightarrow>
     as_planned (aws_clusterId (w_aws w)) rq p ids s s' n)"
  using w(1) run(1)
proof (cases rule: runDeploy_cases)
  case (ran rq' cfg p s2 fx' r2)
  let ?c = "aws_clusterId (w_aws w)" and ?s = "adopt_topic w opts cfg s"
  have [simp]: "rq' = rq" using ran(1) rq(1) by simp
  have dry: "\<not> do_dryRun opts" using ran(6) run(3) by (auto split: sum.splits)
  obtain r where r2: "r2 = Inr r" and pw: "publish_and_wait w config opts rq r s2 = (s', Inr (Some out))"
    using ran(6) dry by (auto split: sum.splits prod.splits)
  obtain built where d: "map bs_decl built = rq_services rq" and p: "ry_plan r = p"
    and nodes: "fst ` set (pn_nodes p) \<subseteq> fst ` set (ry_nodes r)"
    and placed: "ry_placed r = node_placements (pn_resolved p) built"
    and vac: "ry_vacated r = vacated_nodes rq (pn_prior p) (ry_placed r)"
    using after_plan_ready [OF w(1) dry ran(5) [unfolded r2]] by auto
  have same: "same_desired ?c s s2"
    by (rule same_trans [OF adopt_topic_frame after_plan_frame [OF w(1) ran(5)]])
  have prior: "pn_prior p = loadDeployedPlacement (w_aws w) ids (rq_owner rq) ?s"
    using plan_deploy_parts ran(4) w(2) by (fastforce simp: plan_for_def Let_def)
  have occ: "n \<in> set (ry_vacated r) \<longleftrightarrow> planned_at (pn_resolved p) (rq_services rq) n = [] \<and> n \<in> set ids
      \<and> owned_by (rq_owner rq) (services_of (s (desiredKey ?c n))) \<noteq> []" for n
  proof -
    have "planned_at (pn_resolved p) (rq_services rq) n = [] \<longleftrightarrow> sent_to (pn_resolved p) built n = []"
      using sent_planned [of "pn_resolved p" built n] d by (metis map_is_Nil_conv)
    then show ?thesis
      using rq(2) occupied_iff(1) [OF w(3), of n "w_aws w" "rq_owner rq" ?s] adopt_topic_frame [of ?c s w opts cfg]
      by (auto simp: vac vacated_nodes_def placed node_placements_at(2) prior same_desired_def simp del: set_map)
  qed
  have dv: "distinct (ry_vacated r)"
    using rq(2) occupied_iff(2) [OF w(3), of "w_aws w" "rq_owner rq" ?s] by (simp add: vac vacated_nodes_def prior)
  have dp: "distinct (map fst (ry_placed r))" by (simp only: placed node_placements_at(3))
  have keys: "fst ` set (ry_placed r) = {n. planned_at (pn_resolved p) (rq_services rq) n \<noteq> []}"
    using node_placements_at(2) [of "pn_resolved p" built] sent_planned [of "pn_resolved p" built] d
    by (metis (mono_tags, lifting) Collect_cong map_is_Nil_conv placed set_map)
  have apart: "set (ry_vacated r) \<inter> fst ` set (ry_placed r) = {}" using occ keys by blast
  note whole = publish_and_wait_full [OF w(1) rq(2) pw dp dv apart]
  show ?thesis
  proof (intro exI conjI allI impI)
    show "cluster_of w s = Inr cfg" by (rule ran(3))
    show "plan_for w config opts rq cfg s = Inr p" using ran(4) by simp
    fix n assume reg: "n \<in> set ids \<longrightarrow> s (nodeRegistryKey ?c n) \<noteq> None"
    have "node_holds ?c (rq_owner rq) n s s' (planned_at (pn_resolved p) (rq_services rq) n)"
      if "planned_at (pn_resolved p) (rq_services rq) n \<noteq> []"
    proof -
      from that keys obtain ns where ns: "(n, ns) \<in> set (ry_placed r)" by force
      then have "ns = sent_to (pn_resolved p) built n"
        using node_placements_at(1) [of "pn_resolved p" built n] dp by (simp add: placed assoc_get_or_def)
      then have "map (\<lambda>(b, k). (sd_name (bs_decl b), k)) ns = planned_at (pn_resolved p) (rq_services rq) n"
        using sent_planned [of "pn_resolved p" built n] d by simp
      with whole(1) ns have "node_holds ?c (rq_owner rq) n s2 s' (planned_at (pn_resolved p) (rq_services rq) n)" by fastforce
      then show ?thesis by (rule holds_same [OF same same_refl])
    qed
    moreover have "node_holds ?c (rq_owner rq) n s s' []" if "n \<in> set (ry_vacated r)"
    proof -
      have "n \<in> fst ` set (pn_nodes p)"
        using plan_knows(1) [OF ran(4) _ , of n] that reg occ w(2) by auto
      with nodes whole(2) that have "node_holds ?c (rq_owner rq) n s2 s' []" by blast
      then show ?thesis by (rule holds_same [OF same same_refl])
    qed
    moreover have "s' (desiredKey ?c n) = s (desiredKey ?c n)" if "n \<notin> set (ry_vacated r) \<union> fst ` set (ry_placed r)"
      using whole(3) that same by (simp add: same_desired_def)
    ultimately show "as_planned ?c rq p ids s s' n" unfolding as_planned_def using occ keys by simp
  qed
qed (use run rq in \<open>auto\<close>)


section \<open>Examples\<close>

definition shop_config :: launch_pad_config where
  "shop_config = \<lparr>lc_project = ''shop'', lc_component = None, lc_domainPattern = None, lc_service = [example_decl ''api''],
     lc_database = None, lc_job = None\<rparr>"

definition shop_options :: deploy_options where
  "shop_options = \<lparr>do_service = None, do_changed = None, do_env = None, do_ttl = None, do_wait = False, do_yes = True,
     do_dryRun = False, do_create = True, do_repair = True, do_recreate = False, do_restart = False, do_image = None,
     do_remoteBuild = False, do_allowNewServices = True, do_timeout = None\<rparr>"

definition quiet_world :: deploy_world where
  "quiet_world = \<lparr>w_aws = example_env, w_callerArn = ''arn'', w_readable = True, w_repoRoot = None, w_changed = (\<lambda>_. Inr []),
     w_ids = (\<lambda>_. [''a'']), w_dateParse = iso_parse, w_nowMs = 0, w_now = ''t'', w_clock = (\<lambda>_. ''t''), w_stamp = (\<lambda>_. ''t''),
     w_rng = (\<lambda>_. 0), w_rng' = (\<lambda>_. 0), w_topic = None, w_observe = (\<lambda>_. ORunning no_network), w_confirm = False,
     w_launch = (\<lambda>_. \<lparr>le_instance = None, le_network = None, le_eip = None\<rparr>), w_start = (\<lambda>_. None), w_group = (\<lambda>_. ''sg''),
     w_profile = (\<lambda>_. ''p''), w_agentVersion = ''1'', w_secretExists = (\<lambda>_. True), w_imageExists = (\<lambda>_ _. True),
     w_repository = (\<lambda>r. Some r), w_tag = (\<lambda>_. ''t1''), w_buildOk = True, w_backupsOk = True, w_eventId = ''e'',
     w_waitStart = 0, w_statuses = (\<lambda>_ _. None), w_waitClock = int, w_interfere = (\<lambda>_ _ t. t), w_meanwhile = (\<lambda>_ t. t)\<rparr>"

definition shop_bucket :: state_bucket where
  "shop_bucket = [nodeRegistryKey ''default'' ''a'' \<mapsto> NodeJson (example_small_node\<lparr>ne_role := RoleBoth\<rparr>),
     desiredKey ''default'' ''a'' \<mapsto> hosted ''a'' [plain_service ''blog'' ''web'' 256 256 1]]"

definition shop_plan :: deploy_plan where
  "shop_plan = (case plan_for quiet_world shop_config shop_options
      \<lparr>rq_owner = ''shop'', rq_ttlMs = None, rq_services = [example_decl ''api''], rq_partial = False, rq_reuse = False\<rparr>
      None shop_bucket of Inr p \<Rightarrow> p)"

lemma shop_runs:
  "deploy_request shop_options shop_config ''/'' None (\<lambda>_. Inr []) = Inr (Some \<lparr>rq_owner = ''shop'', rq_ttlMs = None, rq_services = [example_decl ''api''], rq_partial = False, rq_reuse = False\<rparr>)
   \<and> snd (runDeploy quiet_world shop_config ''/'' shop_options shop_bucket) = Inr (Some Published)
   \<and> snd (runDeploy quiet_world shop_config ''/'' (shop_options\<lparr>do_dryRun := True\<rparr>) shop_bucket) = Inr (Some DryRun)
   \<and> \<not> isl (plan_for quiet_world shop_config shop_options \<lparr>rq_owner = ''shop'', rq_ttlMs = None, rq_services = [example_decl ''api''], rq_partial = False, rq_reuse = False\<rparr> None shop_bucket)
   \<and> planned_at (pn_resolved shop_plan) [example_decl ''api''] ''a'' = [(''api'', 2)]
   \<and> shop_bucket (nodeRegistryKey ''default'' ''a'') \<noteq> None"
  by code_simp

lemma quiet_undisturbed: "undisturbed quiet_world"
  by (simp add: undisturbed_def quiet_world_def)

text \<open>
  C1. A full deploy publishes exactly its plan. When it succeeds and nobody else writes, every node the plan names
  carries exactly the planned services with the planned replicas, every other registered node that carried the
  project carries none of it, and no other node is touched; other projects' services are as they were, in order.
\<close>

theorem deploy_publishes_the_plan:
  assumes "undisturbed w" "w_ids w = (\<lambda>_. ids)" "distinct ids"
    and "runDeploy w config dir opts s = ((s', fx), Inr (Some out))" "out \<noteq> NothingChanged" "out \<noteq> DryRun"
    and "deploy_request opts config dir (w_repoRoot w) (w_changed w) = Inr (Some rq)" "\<not> rq_partial rq"
  shows "\<exists>cfg p. cluster_of w s = Inr cfg \<and> plan_for w config opts rq cfg s = Inr p
    \<and> (\<forall>n. (n \<in> set ids \<longrightarrow> s (nodeRegistryKey (aws_clusterId (w_aws w)) n) \<noteq> None) \<longrightarrow>
     as_planned (aws_clusterId (w_aws w)) rq p ids s s' n)"
  by (rule deploy_effect [OF assms])

lemma deploy_publishes_the_plan_witness:
  "\<exists>s' fx. runDeploy quiet_world shop_config ''/'' shop_options shop_bucket = ((s', fx), Inr (Some Published))
    \<and> node_holds ''default'' ''shop'' ''a'' shop_bucket s' [(''api'', 2)]"
proof -
  let ?rq = "\<lparr>rq_owner = ''shop'', rq_ttlMs = None, rq_services = [example_decl ''api''], rq_partial = False, rq_reuse = False\<rparr>"
  obtain s' fx where run: "runDeploy quiet_world shop_config ''/'' shop_options shop_bucket = ((s', fx), Inr (Some Published))"
    using shop_runs by (metis prod.collapse)
  have sel: "w_ids quiet_world = (\<lambda>_. [''a''])" "w_repoRoot quiet_world = None" "w_changed quiet_world = (\<lambda>_. Inr [])"
    "aws_clusterId (w_aws quiet_world) = ''default''"
    by (simp_all add: quiet_world_def example_env_def)
  have rq: "deploy_request shop_options shop_config ''/'' (w_repoRoot quiet_world) (w_changed quiet_world) = Inr (Some ?rq)"
    unfolding sel using shop_runs by (elim conjE)
  have cluster: "cluster_of quiet_world shop_bucket = Inr None"
    by (simp add: cluster_of_def sel DEFAULT_CLUSTER_def)
  have plan: "plan_for quiet_world shop_config shop_options ?rq None shop_bucket = Inr shop_plan"
    unfolding shop_plan_def using shop_runs by (elim conjE) (rule case_Inr)
  have at: "planned_at (pn_resolved shop_plan) [example_decl ''api''] ''a'' = [(''api'', 2)]" using shop_runs by (elim conjE)
  have reg: "shop_bucket (nodeRegistryKey ''default'' ''a'') \<noteq> None" using shop_runs by (elim conjE)
  have side: "distinct [''a'']" "Published \<noteq> NothingChanged" "Published \<noteq> DryRun" "\<not> rq_partial ?rq" by simp_all
  from deploy_publishes_the_plan [OF quiet_undisturbed sel(1) side(1) run side(2,3) rq side(4)]
  obtain cfg p where p: "cluster_of quiet_world shop_bucket = Inr cfg" "plan_for quiet_world shop_config shop_options ?rq cfg shop_bucket = Inr p"
    and n: "as_planned ''default'' ?rq p [''a''] shop_bucket s' ''a''"
    unfolding sel using reg by blast
  have "p = shop_plan" using p cluster plan by simp
  with n at have "node_holds ''default'' ''shop'' ''a'' shop_bucket s' [(''api'', 2)]" by (simp add: as_planned_def)
  with run show ?thesis by blast
qed


end
