(* ===== verification/Rebalance_Run.thy ===== *)
theory Rebalance_Run
  imports Rebalance Deploy_Correct
begin

text \<open>
  The rebalance command (\<open>runRebalance\<close> of \<open>packages/cli/src/commands/rebalance.ts\<close>): the checks, the plan
  over the pool without the drained nodes, the publication and the wait. It is also the evacuation of
  \<open>node destroy\<close> and \<open>node resize\<close>. Everything outside the program is one record of parameters; the answer
  \<open>bw_confirm\<close> to the prompt is yes when the output is JSON, which asks nothing.
\<close>

section \<open>Options, parameters and outcomes\<close>

record rebalance_options =
  ro_env :: "string option"
  ro_drain :: "string option"
  ro_drainNodes :: "string list option"
  ro_dryRun :: bool
  ro_yes :: bool
  ro_wait :: bool
  ro_timeout :: "int option"

record rebalance_world =
  bw_aws :: aws_env
  bw_readable :: bool
  bw_ids :: "state_bucket \<Rightarrow> string list"
  bw_dateParse :: "string \<Rightarrow> int option"
  bw_nowMs :: int
  bw_now :: string
  bw_clock :: "nat \<Rightarrow> string"
  bw_stamp :: "nat \<Rightarrow> string"
  bw_confirm :: bool
  bw_interfere :: "nat \<Rightarrow> schedule"
  bw_waitStart :: int
  bw_statuses :: "nat \<Rightarrow> string \<Rightarrow> node_status option"
  bw_waitClock :: "nat \<Rightarrow> int"

datatype rebalance_run_error =
    RebalanceBadEnv string
  | RebalanceLocked lock_error
  | RebalanceClusterUnreadable cluster_store_error
  | RebalancePoolUnreadable candidate_error
  | RebalanceEdgesAmbiguous "string list"
  | DrainUnknownNode string
  | DrainLeavesNoNodes "string list"
  | RebalanceNoAppNodes
  | NothingDeployed string
  | VolumesStuck "string list"
  | RebalanceNoPlacement placement_error
  | RebalanceNeedsEdge string
  | RebalanceDomainInvalid plan_error
  | ImagesUnpublished "string list"
  | RebalanceAborted
  | RebalanceFailed rebalance_error
  | RebalanceNotConverged "watch_result list"

text \<open>\<open>EvacuationBlockedError\<close>: an evacuation that cannot be done, as opposed to one that failed.\<close>

definition evacuation_blocked :: "rebalance_run_error \<Rightarrow> bool" where
  "evacuation_blocked e \<longleftrightarrow> (case e of DrainLeavesNoNodes _ \<Rightarrow> True | VolumesStuck _ \<Rightarrow> True | _ \<Rightarrow> False)"

datatype rebalance_outcome = AlreadyBalanced | RebalancePreview | Rebalanced

section \<open>The plan\<close>

definition rebalance_edge :: "cluster_config option \<Rightarrow> (string, node_entry) assoc \<Rightarrow> rebalance_run_error + string option" where
  "rebalance_edge clusterCfg nodes =
     (case Option.bind clusterCfg cc_defaultEdge of
        Some e \<Rightarrow> Inr (Some e)
      | None \<Rightarrow>
          (let edges = map ne_nodeId (filter (\<lambda>n. nodeFrontsIngress (ne_role n)) (map snd nodes))
           in if 1 < length edges then Inl (RebalanceEdgesAmbiguous edges)
              else Inr (case edges of [] \<Rightarrow> None | e # _ \<Rightarrow> Some e)))"

text \<open>The pool without the drained nodes.\<close>

definition undrained ::
  "string set \<Rightarrow> candidate_nodes \<Rightarrow> rebalance_run_error + string list \<times> candidate_node list" where
  "undrained drain c =
     (case find (\<lambda>n. map_of (cns_nodes c) n = None) (sorted_list_of_set drain) of
        Some n \<Rightarrow> Inl (DrainUnknownNode n)
      | None \<Rightarrow>
          (let ids = filter (\<lambda>n. n \<notin> drain) (cns_clusterAppNodeIds c)
           in if ids = []
              then Inl (if drain \<noteq> {} then DrainLeavesNoNodes (sorted_list_of_set drain) else RebalanceNoAppNodes)
              else Inr (ids, filter (\<lambda>k. cn_nodeId k \<notin> drain) (cns_candidateNodes c))))"

definition images_in_use :: "string \<Rightarrow> node_services list \<Rightarrow> (string, string) assoc" where
  "images_in_use owner states =
     assoc_of (concat (map (\<lambda>(_, ss). map (\<lambda>x. (sc_service x, sc_image x)) (filter (\<lambda>x. sc_project x = owner) ss)) states))"

definition stuck_volumes :: "string set \<Rightarrow> deployed_placement \<Rightarrow> service_decl list \<Rightarrow> string list" where
  "stuck_volumes drain prior decls =
     map sd_name (filter (\<lambda>s. sd_volumes s \<noteq> []
       \<and> (case publishedNodeOf prior (sd_name s) of None \<Rightarrow> False | Some n \<Rightarrow> n \<in> drain)) decls)"

fun resolve_rebalance ::
  "launch_pad_config \<Rightarrow> string option \<Rightarrow> string option \<Rightarrow> cluster_service_plan list \<Rightarrow> (string, resolved) assoc
   \<Rightarrow> rebalance_run_error + (string, resolved) assoc" where
  "resolve_rebalance config env edge [] acc = Inr acc"
| "resolve_rebalance config env edge (p # ps) acc =
     (case find (\<lambda>s. sd_name s = cp_service p) (lc_service config) of
        None \<Rightarrow> resolve_rebalance config env edge ps acc
      | Some d \<Rightarrow>
          if serviceHasIngress d \<and> edge = None then Inl (RebalanceNeedsEdge (sd_name d))
          else (case service_domain config env d of
             Inl e \<Rightarrow> Inl (RebalanceDomainInvalid e)
           | Inr domain \<Rightarrow>
               resolve_rebalance config env edge ps
                 (assoc_set (cp_service p)
                    \<lparr>rs_placements = cp_placements p, rs_edge = (if serviceHasIngress d then edge else None),
                     rs_domain = domain\<rparr> acc)))"

record rebalance_plan =
  rp_resolved :: "(string, resolved) assoc"
  rp_diff :: rebalance_diff
  rp_nodes :: "(string, node_entry) assoc"
  rp_images :: "(string, string) assoc"
  rp_prior :: deployed_placement

definition plan_rebalance ::
  "rebalance_world \<Rightarrow> rebalance_options \<Rightarrow> launch_pad_config \<Rightarrow> cluster_config option \<Rightarrow> state_bucket
   \<Rightarrow> rebalance_run_error + rebalance_plan" where
  "plan_rebalance w opts config clusterCfg s =
     (let c = aws_clusterId (bw_aws w); owner = footprintOwner (lc_project config) (lc_component config) (ro_env opts);
          drain = resolveDrainSet (ro_drain opts) (ro_drainNodes opts)
      in case buildCandidateNodes (bw_dateParse w) c s owner True (bw_nowMs w) (bw_now w) (bw_ids w s) no_candidates of
           Inl e \<Rightarrow> Inl (RebalancePoolUnreadable e)
         | Inr pool \<Rightarrow>
             res_bind (rebalance_edge clusterCfg (cns_nodes pool)) (\<lambda>edge.
             res_bind (undrained drain pool) (\<lambda>(ids, candidates).
               let states = loadNodeDesiredStates c (bw_ids w s) s; prior = buildPlacementSnapshot states owner;
                   stuck = (if drain = {} then [] else stuck_volumes drain prior (lc_service config))
               in if dp_footprints prior = [] then Inl (NothingDeployed owner)
                  else if stuck \<noteq> [] then Inl (VolumesStuck stuck)
                  else case planClusterPlacement candidates (map (cluster_input prior) (lc_service config)) of
                    Inl e \<Rightarrow> Inl (RebalanceNoPlacement e)
                  | Inr plans \<Rightarrow>
                      res_bind (resolve_rebalance config (ro_env opts) edge plans []) (\<lambda>rs.
                        Inr \<lparr>rp_resolved = rs, rp_diff = diffPlacement (currentPlacement prior) (plannedPlacement rs),
                             rp_nodes = cns_nodes pool, rp_images = images_in_use owner states, rp_prior = prior\<rparr>))))"

section \<open>The wait\<close>

definition DEFAULT_REBALANCE_TIMEOUT_SECONDS :: int where "DEFAULT_REBALANCE_TIMEOUT_SECONDS = 300"

text \<open>A service that runs on a schedule idles at no replicas.\<close>

definition rebalance_targets ::
  "string \<Rightarrow> service_decl list \<Rightarrow> (string, string) assoc \<Rightarrow> (string, resolved) assoc \<Rightarrow> watch_target list" where
  "rebalance_targets owner decls images rs =
     concat (map (\<lambda>(service, r).
       case map_of images service of
         None \<Rightarrow> []
       | Some img \<Rightarrow>
           map (\<lambda>p. \<lparr>wt_nodeId = pl_nodeId p, wt_project = owner, wt_service = service, wt_image = img,
                     wt_expectedReplicas = (if list_ex (\<lambda>d. sd_name d = service \<and> sd_cron d \<noteq> None) decls then 0 else pl_replicas p),
                     wt_previousContainerIds = []\<rparr>)
             (filter (\<lambda>p. 0 < pl_replicas p) (rs_placements r))) rs)"

text \<open>\<open>None\<close>: the wait does not return.\<close>

definition waitForRebalanceConvergence ::
  "rebalance_world \<Rightarrow> rebalance_options \<Rightarrow> watch_target list \<Rightarrow> (rebalance_run_error + unit) option" where
  "waitForRebalanceConvergence w opts targets =
     (if targets = [] then Some (Inr ())
      else map_option (\<lambda>rs. if list_all wr_ok rs then Inr () else Inl (RebalanceNotConverged (filter (\<lambda>r. \<not> wr_ok r) rs)))
        (waitForConvergence targets (bw_waitStart w)
           ((case ro_timeout opts of Some t \<Rightarrow> t | None \<Rightarrow> DEFAULT_REBALANCE_TIMEOUT_SECONDS) * 1000)
           (bw_statuses w) (bw_waitClock w)))"

section \<open>The command\<close>

definition rebalance_lock :: "rebalance_world \<Rightarrow> launch_pad_config \<Rightarrow> string \<Rightarrow> state_bucket \<Rightarrow> lock_error + lock_outcome" where
  "rebalance_lock w config owner s =
     (let c = aws_clusterId (bw_aws w)
      in resolveConfigLockOutcome config owner False (bw_now w)
           (if bw_readable w then Inr (s (configBaselineKey c owner)) else Inl ())
           (if bw_readable w then Inr (dp_footprints (loadDeployedPlacement (bw_aws w) (bw_ids w s) owner s)) else Inl ()))"

definition rebalance_cluster :: "string \<Rightarrow> state_bucket \<Rightarrow> cluster_store_error + cluster_config option" where
  "rebalance_cluster c s = (if c = DEFAULT_CLUSTER then Inr None else getClusterConfig c s)"

definition publish_rebalance ::
  "rebalance_world \<Rightarrow> rebalance_options \<Rightarrow> launch_pad_config \<Rightarrow> rebalance_plan \<Rightarrow> state_bucket
   \<Rightarrow> state_bucket \<times> (rebalance_error + unit)" where
  "publish_rebalance w opts config p s =
     applyRebalance (bw_aws w) (footprintOwner (lc_project config) (lc_component config) (ro_env opts)) (ro_env opts)
       (lc_service config) (rp_resolved p) (rp_diff p) (rp_nodes p) (rp_images p) (bw_clock w) (bw_stamp w) (bw_interfere w) s"

definition runRebalance ::
  "rebalance_world \<Rightarrow> rebalance_options \<Rightarrow> launch_pad_config \<Rightarrow> state_bucket
   \<Rightarrow> (state_bucket \<times> (rebalance_run_error + rebalance_outcome)) option" where
  "runRebalance w opts config s =
     (let owner = footprintOwner (lc_project config) (lc_component config) (ro_env opts)
      in if \<not> opt_all LABEL_REGEX (ro_env opts) then Some (s, Inl (RebalanceBadEnv (the (ro_env opts))))
         else case rebalance_lock w config owner s of
           Inl e \<Rightarrow> Some (s, Inl (RebalanceLocked e))
         | Inr _ \<Rightarrow>
             (case rebalance_cluster (aws_clusterId (bw_aws w)) s of
                Inl e \<Rightarrow> Some (s, Inl (RebalanceClusterUnreadable e))
              | Inr clusterCfg \<Rightarrow>
                  (case plan_rebalance w opts config clusterCfg s of
                     Inl e \<Rightarrow> Some (s, Inl e)
                   | Inr p \<Rightarrow>
                       (let missing = filter (\<lambda>n. map_of (rp_images p) n = None) (map fst (rp_resolved p))
                        in if \<not> rd_changed (rp_diff p) then Some (s, Inr AlreadyBalanced)
                           else if ro_dryRun opts then Some (s, Inr RebalancePreview)
                           else if missing \<noteq> [] then Some (s, Inl (ImagesUnpublished missing))
                           else if \<not> ro_yes opts \<and> \<not> bw_confirm w then Some (s, Inl RebalanceAborted)
                           else (case publish_rebalance w opts config p s of
                             (s', Inl e) \<Rightarrow> Some (s', Inl (RebalanceFailed e))
                           | (s', Inr _) \<Rightarrow>
                               if \<not> ro_wait opts then Some (s', Inr Rebalanced)
                               else map_option (\<lambda>r. (s', case r of Inl e \<Rightarrow> Inl e | Inr _ \<Rightarrow> Inr Rebalanced))
                                 (waitForRebalanceConvergence w opts
                                    (rebalance_targets owner (lc_service config) (rp_images p) (rp_resolved p))))))))"

section \<open>What a node is sent\<close>

definition sent_by :: "(string, resolved) assoc \<Rightarrow> string \<Rightarrow> (string \<times> int) list" where
  "sent_by rs n =
     concat (map (\<lambda>(name, r). map (\<lambda>q. (name, pl_replicas q)) (filter (\<lambda>q. pl_nodeId q = n) (rs_placements r))) rs)"

lemma place_on_at:
  assumes "place_on mk ps m = Inr m'"
    and "\<And>q c. mk q = Inr c \<Longrightarrow> sc_project c = owner \<and> sc_service c = name \<and> sc_replicas c = pl_replicas q"
  shows "\<exists>cs. assoc_get_or [] m' n = assoc_get_or [] m n @ cs \<and> (\<forall>c \<in> set cs. sc_project c = owner)
      \<and> map (\<lambda>c. (sc_service c, sc_replicas c)) cs = map (\<lambda>q. (name, pl_replicas q)) (filter (\<lambda>q. pl_nodeId q = n) ps)"
    and "set (map fst m') = set (map fst m) \<union> pl_nodeId ` set ps"
    and "distinct (map fst m) \<Longrightarrow> distinct (map fst m')"
  using assms(1)
proof (induction ps arbitrary: m)
  case (Cons q ps)
  { case 1
    then obtain c where c: "mk q = Inr c"
      and r: "place_on mk ps (assoc_set (pl_nodeId q) (assoc_get_or [] m (pl_nodeId q) @ [c]) m) = Inr m'"
      by (auto simp: res_bind_eq_Inr)
    obtain cs where "assoc_get_or [] m' n = assoc_get_or [] (assoc_set (pl_nodeId q) (assoc_get_or [] m (pl_nodeId q) @ [c]) m) n @ cs"
      "\<forall>c \<in> set cs. sc_project c = owner"
      "map (\<lambda>c. (sc_service c, sc_replicas c)) cs = map (\<lambda>q. (name, pl_replicas q)) (filter (\<lambda>q. pl_nodeId q = n) ps)"
      using Cons.IH(1) [OF r] by blast
    with assms(2) [OF c] show ?case
      by (cases "pl_nodeId q = n") (auto simp: assoc_get_or_def map_of_assoc_set intro: exI [of _ "c # cs"]) }
  { case 2
    then obtain c where "place_on mk ps (assoc_set (pl_nodeId q) (assoc_get_or [] m (pl_nodeId q) @ [c]) m) = Inr m'"
      by (auto simp: res_bind_eq_Inr)
    from Cons.IH(2) [OF this] show ?case unfolding keys_assoc_set by auto }
  { case 3
    then obtain c where "place_on mk ps (assoc_set (pl_nodeId q) (assoc_get_or [] m (pl_nodeId q) @ [c]) m) = Inr m'"
      by (auto simp: res_bind_eq_Inr)
    from Cons.IH(3) [OF distinct_assoc_set [OF 3(1)] this] show ?case . }
qed simp_all

definition sent_fits :: "string \<Rightarrow> service_config list \<Rightarrow> service_config list \<Rightarrow> (string \<times> int) list \<Rightarrow> bool" where
  "sent_fits owner old new want \<longleftrightarrow>
     (\<exists>cs. new = old @ cs \<and> (\<forall>c \<in> set cs. sc_project c = owner) \<and> map (\<lambda>c. (sc_service c, sc_replicas c)) cs = want)"

lemma sent_fits_trans: "sent_fits owner a b x \<Longrightarrow> sent_fits owner b c y \<Longrightarrow> sent_fits owner a c (x @ y)"
  unfolding sent_fits_def by (elim exE conjE, rule exI [where x="_ @ _"]) auto

lemma group_by_node_at:
  assumes "group_by_node mk rs m = Inr m'"
    and "\<And>name r q c. (name, r) \<in> set rs \<Longrightarrow> mk name r q = Inr c \<Longrightarrow>
      sc_project c = owner \<and> sc_service c = name \<and> sc_replicas c = pl_replicas q"
  shows "(\<forall>n. sent_fits owner (assoc_get_or [] m n) (assoc_get_or [] m' n) (sent_by rs n))
    \<and> set (map fst m') = set (map fst m) \<union> {n. sent_by rs n \<noteq> []}
    \<and> (distinct (map fst m) \<longrightarrow> distinct (map fst m'))"
  using assms
proof (induction rs arbitrary: m)
  case Nil
  then show ?case by (simp add: sent_by_def sent_fits_def)
next
  case (Cons x rs)
  obtain name r where x: "x = (name, r)" by (cases x)
  note mk = Cons.prems(2)
  obtain m1 where p: "place_on (mk name r) (rs_placements r) m = Inr m1" and g: "group_by_node mk rs m1 = Inr m'"
    using Cons.prems(1) by (auto simp: x res_bind_eq_Inr)
  have mk1: "sc_project c = owner \<and> sc_service c = name \<and> sc_replicas c = pl_replicas q" if "mk name r q = Inr c" for q c
    by (rule mk [OF _ that]) (simp add: x)
  note at = place_on_at [OF p mk1]
  have IH: "(\<forall>n. sent_fits owner (assoc_get_or [] m1 n) (assoc_get_or [] m' n) (sent_by rs n))
    \<and> set (map fst m') = set (map fst m1) \<union> {n. sent_by rs n \<noteq> []}
    \<and> (distinct (map fst m1) \<longrightarrow> distinct (map fst m'))"
    by (rule Cons.IH [OF g]) (rule mk, simp_all)
  have "sent_fits owner (assoc_get_or [] m n) (assoc_get_or [] m' n) (sent_by (x # rs) n)" for n
  proof -
    have "sent_fits owner (assoc_get_or [] m n) (assoc_get_or [] m1 n)
        (map (\<lambda>q. (name, pl_replicas q)) (filter (\<lambda>q. pl_nodeId q = n) (rs_placements r)))"
      using at(1) [of n] by (auto simp: sent_fits_def)
    from sent_fits_trans [OF this spec [OF conjunct1 [OF IH], of n]] show ?thesis by (simp add: x sent_by_def)
  qed
  moreover have "{n. sent_by (x # rs) n \<noteq> []} = pl_nodeId ` set (rs_placements r) \<union> {n. sent_by rs n \<noteq> []}"
    by (auto simp: x sent_by_def filter_empty_conv)
  ultimately show ?case using IH at(2,3) by auto
qed

section \<open>Nodes the footprint left\<close>

definition cell_nodes :: "service_placement list \<Rightarrow> string set" where
  "cell_nodes p = (\<Union>(s, bn) \<in> set p. fst ` set bn)"

definition positive_placement :: "service_placement list \<Rightarrow> bool" where
  "positive_placement p \<longleftrightarrow> (\<forall>s bn n r. (s, bn) \<in> set p \<longrightarrow> (n, r) \<in> set bn \<longrightarrow> 0 < r)"

lemma set_assoc_set: "x \<in> set (assoc_set k v m) \<Longrightarrow> x = (k, v) \<or> x \<in> set m"
  by (induction k v m rule: assoc_set.induct) (auto split: if_splits)

lemma cell_nodes_set: "cell_nodes (assoc_set s (assoc_set n r (assoc_get_or [] m s)) m) = insert n (cell_nodes m)"
proof (induction m)
  case Nil
  then show ?case by (simp add: cell_nodes_def assoc_get_or_def)
next
  case (Cons x m)
  obtain s' bn where x: "x = (s', bn)" by (cases x)
  show ?case
  proof (cases "s' = s")
    case True
    then show ?thesis using keys_assoc_set [of n r bn] by (auto simp: x cell_nodes_def assoc_get_or_def)
  next
    case False
    then have "assoc_get_or [] (x # m) s = assoc_get_or [] m s" by (simp add: x assoc_get_or_def)
    with Cons False show ?thesis by (auto simp: x cell_nodes_def)
  qed
qed

lemma positive_set:
  assumes "positive_placement m" "0 < r"
  shows "positive_placement (assoc_set s (assoc_set n r (assoc_get_or [] m s)) m)"
proof -
  have old: "0 < r'" if "(n', r') \<in> set (assoc_get_or [] m s)" for n' r'
  proof (cases "map_of m s")
    case (Some b)
    then show ?thesis using assms(1) map_of_SomeD [OF Some] that unfolding positive_placement_def assoc_get_or_def by auto
  qed (use that in \<open>simp add: assoc_get_or_def\<close>)
  have cell: "0 < r'" if "(n', r') \<in> set (assoc_set n r (assoc_get_or [] m s))" for n' r'
    using set_assoc_set [OF that] old assms(2) by auto
  show ?thesis
    unfolding positive_placement_def
  proof (intro allI impI)
    fix s' bn n' r'
    assume "(s', bn) \<in> set (assoc_set s (assoc_set n r (assoc_get_or [] m s)) m)" "(n', r') \<in> set bn"
    then show "0 < r'" using set_assoc_set cell assms(1) unfolding positive_placement_def by fastforce
  qed
qed

definition positive_occupancies :: "(string, node_occupancy list) assoc \<Rightarrow> bool" where
  "positive_occupancies b \<longleftrightarrow> (\<forall>(n, occs) \<in> set b. occs \<noteq> [] \<and> (\<forall>x \<in> set occs. 0 < no_replicas x))"

lemma fold_cells:
  assumes "\<forall>x \<in> set occs. 0 < no_replicas x" "positive_placement m"
  shows "positive_placement (fold (add_occupancy_cell n) occs m)
    \<and> cell_nodes (fold (add_occupancy_cell n) occs m) = (if occs = [] then cell_nodes m else insert n (cell_nodes m))"
  using assms
proof (induction occs arbitrary: m)
  case (Cons x occs)
  have "positive_placement (add_occupancy_cell n x m)" "cell_nodes (add_occupancy_cell n x m) = insert n (cell_nodes m)"
    using Cons.prems by (simp_all add: add_occupancy_cell_def positive_set cell_nodes_set)
  with Cons show ?case by auto
qed simp

lemma currentPlacement_nodes:
  assumes "positive_occupancies (dp_byNode d)"
  shows "set (map fst (occupancyByNode (currentPlacement d))) = fst ` set (dp_byNode d)"
proof -
  have "positive_occupancies b \<Longrightarrow> positive_placement m \<Longrightarrow>
      positive_placement (fold (\<lambda>(n, occs) m. fold (add_occupancy_cell n) occs m) b m)
      \<and> cell_nodes (fold (\<lambda>(n, occs) m. fold (add_occupancy_cell n) occs m) b m) = cell_nodes m \<union> fst ` set b" for b m
  proof (induction b arbitrary: m)
    case (Cons x b)
    obtain n occs where x: "x = (n, occs)" by (cases x)
    have "positive_placement (fold (add_occupancy_cell n) occs m)
      \<and> cell_nodes (fold (add_occupancy_cell n) occs m) = insert n (cell_nodes m)"
      using Cons.prems fold_cells [of occs m n] by (simp add: x positive_occupancies_def)
    with Cons show ?case by (auto simp: x positive_occupancies_def)
  qed simp
  from this [OF assms, of "[]"] have pos: "positive_placement (currentPlacement d)"
    and nodes: "cell_nodes (currentPlacement d) = fst ` set (dp_byNode d)"
    by (simp_all add: currentPlacement_def positive_placement_def cell_nodes_def)
  have "set (map fst (occupancyByNode (currentPlacement d))) = cell_nodes (currentPlacement d)"
  proof -
    have "cell_nodes p = {n. \<exists>s bn r. (s, bn) \<in> set p \<and> (n, r) \<in> set bn}" for p by (force simp: cell_nodes_def)
    then show ?thesis using pos unfolding occupancy_keys positive_placement_def by blast
  qed
  with nodes show ?thesis by simp
qed

section \<open>What a rebalance publishes\<close>

abbreviation alone :: "nat \<Rightarrow> schedule" where "alone \<equiv> \<lambda>_ _ t. t"

lemma publish_all_full:
  assumes "publish_all aws owner clock stamp alone k ts s = (s', Inr u)" "distinct (map fst ts)"
  shows "(\<forall>(n, e, ss) \<in> set ts. node_holds (aws_clusterId aws) owner n s s' (map (\<lambda>x. (sc_service x, sc_replicas x)) ss))
    \<and> (\<forall>x. x \<notin> desiredKey (aws_clusterId aws) ` fst ` set ts \<longrightarrow> s' x = s x)"
  using assms
proof (induction ts arbitrary: k s)
  case (Cons t ts)
  let ?c = "aws_clusterId aws"
  obtain n e ss where t: "t = (n, e, ss)" by (cases t)
  obtain s1 where pub: "publishDesired aws n e owner ss False clock stamp (\<lambda>_ t. t) s = (s1, Inr ())"
    and rest: "publish_all aws owner clock stamp alone (k + 1) ts s1 = (s', Inr u)"
    using Cons.prems(1) by (auto simp: t split: sum.splits prod.splits)
  note one = published_full [OF pub]
  have d: "distinct (map fst ts)" and n: "n \<notin> fst ` set ts" using Cons.prems(2) by (simp_all add: t)
  note IH = Cons.IH [OF rest d]
  have kept: "s' (desiredKey ?c n) = s1 (desiredKey ?c n)" using IH n by (auto simp: node_keys image_iff)
  have "node_holds ?c owner n s s' (map (\<lambda>x. (sc_service x, sc_replicas x)) ss)"
    using one kept by (simp add: node_holds_def)
  moreover have "node_holds ?c owner m s s' want" if "node_holds ?c owner m s1 s' want" "m \<noteq> n" for m want
    using that one by (auto simp: node_holds_def node_keys)
  ultimately show ?case
    using IH n one by (fastforce simp: t node_keys image_iff)
qed simp

lemma clean_vacated_full:
  assumes "clean_vacated aws owner (entryFor aws nodes) clock stamp alone k ns s = (s', Inr u)" "distinct ns"
  shows "(\<forall>n \<in> set ns. n \<in> fst ` set nodes \<longrightarrow> node_holds (aws_clusterId aws) owner n s s' [])
    \<and> (\<forall>x. x \<notin> desiredKey (aws_clusterId aws) ` set ns \<longrightarrow> s' x = s x)"
  using assms
proof (induction ns arbitrary: k s)
  case (Cons n ns)
  let ?c = "aws_clusterId aws"
  have d: "distinct ns" "n \<notin> set ns" using Cons.prems(2) by simp_all
  have known: "\<exists>e. entryFor aws nodes s n = Inr (Some e)" if "n \<in> fst ` set nodes"
  proof -
    have "map_of nodes n \<noteq> None" using that by (simp add: map_of_eq_None_iff)
    then show ?thesis by (auto simp: entryFor_def)
  qed
  show ?case
  proof (cases "entryFor aws nodes s n")
    case (Inr e)
    show ?thesis
    proof (cases e)
      case None
      then have "clean_vacated aws owner (entryFor aws nodes) clock stamp alone k ns s = (s', Inr u)"
        using Cons.prems(1) Inr by simp
      from Cons.IH [OF this d(1)] known Inr None show ?thesis by auto
    next
      case (Some x)
      then obtain s1 where pub: "publishDesired aws n x owner [] False clock stamp (\<lambda>_ t. t) s = (s1, Inr ())"
        and rest: "clean_vacated aws owner (entryFor aws nodes) clock stamp alone (k + 1) ns s1 = (s', Inr u)"
        using Cons.prems(1) Inr by (auto split: sum.splits prod.splits)
      note one = published_full [OF pub] and IH = Cons.IH [OF rest d(1)]
      have "desiredKey ?c n \<notin> desiredKey ?c ` set ns" using d(2) by (auto simp: node_keys)
      with IH have kept: "s' (desiredKey ?c n) = s1 (desiredKey ?c n)" by blast
      have "node_holds ?c owner n s s' []" using one kept by (simp add: node_holds_def)
      moreover have "node_holds ?c owner m s s' want" if "node_holds ?c owner m s1 s' want" "m \<noteq> n" for m want
        using that one by (auto simp: node_holds_def node_keys)
      ultimately show ?thesis using IH d(2) one by (auto simp: node_keys image_iff)
    qed
  qed (use Cons.prems in auto)
qed simp

lemma publish_edges_frame: "same_desired (aws_clusterId aws) s (publish_edges aws stamp alone k es s)"
proof (induction es arbitrary: k s)
  case (Cons x es)
  obtain e ds where x: "x = (e, ds)" by (cases x)
  have "same_desired (aws_clusterId aws) s (publishEdgeConfig aws e ds stamp (\<lambda>_ t. t) s)"
    unfolding publishEdgeConfig_def by (rule cas_frame) (simp_all add: node_keys(3) [symmetric] MAX_PUBLISH_RETRIES_def)
  from same_trans [OF this Cons.IH] show ?case by (simp add: x)
qed simp

lemma service_for_named:
  assumes "service_for aws owner env decls images name r q = Inr c" and "\<exists>d \<in> set decls. sd_name d = name"
  shows "sc_project c = owner \<and> sc_service c = name \<and> sc_replicas c = pl_replicas q"
proof -
  have "map_of (rev (map (\<lambda>d. (sd_name d, d)) decls)) name \<noteq> None"
    using assms(2) by (auto simp: map_of_eq_None_iff image_iff)
  then obtain d where d: "map_of (rev (map (\<lambda>d. (sd_name d, d)) decls)) name = Some d" by blast
  then have "sd_name d = name" by (auto dest!: map_of_SomeD)
  with assms(1) d show ?thesis
    by (auto simp: service_for_def toServiceConfig_def Let_def split: sum.splits if_splits)
qed

lemma resolve_entries_length: "resolve_entries look ns = Inr es \<Longrightarrow> length es = length ns"
  by (induction ns arbitrary: es) (auto simp: res_bind_eq_Inr split: option.splits)

definition rebalanced_node ::
  "string \<Rightarrow> string \<Rightarrow> (string, resolved) assoc \<Rightarrow> string list \<Rightarrow> state_bucket \<Rightarrow> state_bucket \<Rightarrow> string \<Rightarrow> bool" where
  "rebalanced_node c owner rs vacated s s' n \<longleftrightarrow>
     (if sent_by rs n \<noteq> [] then node_holds c owner n s s' (sent_by rs n)
      else if n \<in> set vacated then node_holds c owner n s s' []
      else s' (desiredKey c n) = s (desiredKey c n))"

lemma apply_effect:
  assumes run: "applyRebalance aws owner env decls rs diff nodes images clock stamp alone s = (s', Inr u)"
    and decls: "\<forall>(name, r) \<in> set rs. \<exists>d \<in> set decls. sd_name d = name"
    and vac: "distinct (rd_vacatedNodes diff)" "\<forall>n \<in> set (rd_vacatedNodes diff). sent_by rs n = [] \<and> n \<in> fst ` set nodes"
  shows "rebalanced_node (aws_clusterId aws) owner rs (rd_vacatedNodes diff) s s' n"
proof -
  let ?c = "aws_clusterId aws" and ?mk = "service_for aws owner env decls images"
  obtain placed where g: "group_by_node ?mk rs [] = Inr placed"
    using run by (auto simp: applyRebalance_def split: sum.splits)
  define ordered where "ordered = gainers_first (rd_changes diff) placed"
  obtain entries where es: "resolve_entries (entryFor aws nodes s) (map fst ordered) = Inr entries"
    using run g by (auto simp: applyRebalance_def ordered_def Let_def split: sum.splits)
  define ts where "ts = map (\<lambda>((n, ss), e). (n, e, ss)) (zip ordered entries)"
  obtain s1 where s1: "publish_all aws owner clock stamp alone 0 ts s = (s1, Inr ())"
    using run g es by (auto simp: applyRebalance_def ordered_def ts_def Let_def split: sum.splits prod.splits)
  obtain s2 where s2: "clean_vacated aws owner (entryFor aws nodes) clock stamp alone (length ordered) (rd_vacatedNodes diff) s1 = (s2, Inr ())"
    and s': "s' = publish_edges aws stamp alone (length ordered + length (rd_vacatedNodes diff)) (edge_domain_lists rs) s2"
    using run g es s1 by (auto simp: applyRebalance_def ordered_def ts_def Let_def split: sum.splits prod.splits)
  have mk: "sc_project x = owner \<and> sc_service x = name \<and> sc_replicas x = pl_replicas q"
    if "(name, r) \<in> set rs" "?mk name r q = Inr x" for name r q x
    using service_for_named [OF that(2)] decls that(1) by auto
  have "(\<forall>n. sent_fits owner (assoc_get_or [] m0 n) (assoc_get_or [] placed n) (sent_by rs n))
    \<and> set (map fst placed) = set (map fst m0) \<union> {n. sent_by rs n \<noteq> []} \<and> (distinct (map fst m0) \<longrightarrow> distinct (map fst placed))"
    if "m0 = []" for m0
    unfolding that by (rule group_by_node_at [OF g]) (rule mk)
  from this [OF refl] have at: "\<forall>n. sent_fits owner [] (assoc_get_or [] placed n) (sent_by rs n)"
    "fst ` set placed = {n. sent_by rs n \<noteq> []}" "distinct (map fst placed)"
    by (simp_all add: assoc_get_or_def [of _ "[]"])
  have so: "set ordered = set placed" "distinct (map fst ordered)"
    using at(3) unfolding ordered_def gainers_first_def by (simp_all add: distinct_map_sort_by)
  have len: "length entries = length ordered" using resolve_entries_length [OF es] by simp
  have fst_ts: "map fst ts = map fst ordered"
    using len unfolding ts_def by (induction ordered entries rule: list_induct2') auto
  have pairs: "map (\<lambda>(n, e, ss). (n, ss)) ts = ordered"
    using len unfolding ts_def by (induction ordered entries rule: list_induct2') auto
  have in_ts: "\<exists>e. (m, e, ss) \<in> set ts" if "(m, ss) \<in> set ordered" for m ss
    using that unfolding pairs [symmetric] by auto
  have d: "distinct (map fst ts)" unfolding fst_ts by (rule so(2))
  note pub = publish_all_full [OF s1 d] and cl = clean_vacated_full [OF s2 vac(1)]
  have edges: "s' (desiredKey ?c m) = s2 (desiredKey ?c m)" for m
    using publish_edges_frame [of aws s2 stamp _ "edge_domain_lists rs"] unfolding s' same_desired_def by blast
  have "fst ` set ts = fst ` set placed" using arg_cong [OF fst_ts, of set] so(1) by simp
  then have keys: "m \<in> fst ` set ts \<longleftrightarrow> sent_by rs m \<noteq> []" for m using at(2) by simp
  have vk: "desiredKey ?c n \<in> desiredKey ?c ` set (rd_vacatedNodes diff) \<longleftrightarrow> n \<in> set (rd_vacatedNodes diff)"
    "desiredKey ?c n \<in> desiredKey ?c ` fst ` set ts \<longleftrightarrow> sent_by rs n \<noteq> []"
    using keys by (auto simp: node_keys image_iff)
  show ?thesis
  proof (cases "sent_by rs n = []")
    case False
    then obtain ss where ss: "(n, ss) \<in> set placed" using at(2) by fastforce
    have "sent_fits owner [] ss (sent_by rs n)"
    proof -
      have "map_of placed n = Some ss" using ss at(3) by (simp add: map_of_is_SomeI)
      then show ?thesis using spec [OF at(1), of n] by (simp add: assoc_get_or_def)
    qed
    then have want: "map (\<lambda>x. (sc_service x, sc_replicas x)) ss = sent_by rs n" by (auto simp: sent_fits_def)
    obtain e where "(n, e, ss) \<in> set ts" using in_ts [of n ss] ss so(1) by blast
    then have "node_holds ?c owner n s s1 (sent_by rs n)" using pub want by fastforce
    moreover have "n \<notin> set (rd_vacatedNodes diff)" using vac(2) False by blast
    then have "s2 (desiredKey ?c n) = s1 (desiredKey ?c n)" using cl vk(1) by blast
    ultimately show ?thesis using False edges by (simp add: rebalanced_node_def node_holds_def)
  next
    case True
    then have before: "s1 (desiredKey ?c n) = s (desiredKey ?c n)" using pub vk(2) by blast
    show ?thesis
    proof (cases "n \<in> set (rd_vacatedNodes diff)")
      case True
      then have "node_holds ?c owner n s1 s2 []" using cl vac(2) by blast
      with True \<open>sent_by rs n = []\<close> before edges show ?thesis by (simp add: rebalanced_node_def node_holds_def)
    next
      case False
      then have "s2 (desiredKey ?c n) = s1 (desiredKey ?c n)" using cl vk(1) by blast
      with False True before edges show ?thesis by (simp add: rebalanced_node_def)
    qed
  qed
qed

section \<open>What the plan promises\<close>

lemma resolve_rebalance_all:
  assumes "resolve_rebalance config env edge ps acc = Inr rs"
    and "\<forall>p \<in> set ps. \<exists>d \<in> set (lc_service config). sd_name d = cp_service p"
    and "distinct (map fst acc @ map cp_service ps)"
  shows "\<exists>rs'. rs = acc @ rs' \<and> list_all2 (\<lambda>p x. fst x = cp_service p \<and> rs_placements (snd x) = cp_placements p) ps rs'"
  using assms
proof (induction ps arbitrary: acc)
  case (Cons p ps)
  obtain d where d: "find (\<lambda>s. sd_name s = cp_service p) (lc_service config) = Some d"
    using Cons.prems(2) by (cases "find (\<lambda>s. sd_name s = cp_service p) (lc_service config)") (auto simp: find_None_iff)
  obtain domain where "resolve_rebalance config env edge ps
      (assoc_set (cp_service p) \<lparr>rs_placements = cp_placements p, rs_edge = (if serviceHasIngress d then edge else None),
         rs_domain = domain\<rparr> acc) = Inr rs"
    using Cons.prems(1) d by (auto split: if_splits sum.splits)
  then obtain r where r: "rs_placements r = cp_placements p"
    and step: "resolve_rebalance config env edge ps (assoc_set (cp_service p) r acc) = Inr rs"
    by (metis resolved.select_convs(1))
  have new: "assoc_set (cp_service p) r acc = acc @ [(cp_service p, r)]"
    by (rule assoc_set_new) (use Cons.prems(3) in auto)
  have dis: "distinct (map fst (acc @ [(cp_service p, r)]) @ map cp_service ps)" using Cons.prems(3) by auto
  obtain rs' where "rs = (acc @ [(cp_service p, r)]) @ rs'"
    "list_all2 (\<lambda>p x. fst x = cp_service p \<and> rs_placements (snd x) = cp_placements p) ps rs'"
    using Cons.IH [OF step [unfolded new] _ dis] Cons.prems(2) by auto
  with r show ?case by (intro exI [of _ "(cp_service p, r) # rs'"]) simp
qed simp

lemma occupancy_distinct: "distinct (map fst (occupancyByNode p))"
proof -
  have inner: "distinct (map fst acc) \<Longrightarrow> distinct (map fst (fold (\<lambda>(node, replicas) t. if replicas \<le> 0 then t
        else assoc_set node (assoc_get_or 0 t node + replicas) t) bn acc))" for bn :: "(string \<times> int) list" and acc
  proof (induction bn arbitrary: acc)
    case (Cons x bn)
    obtain m r where x: "x = (m, r)" by (cases x)
    show ?case
      by (cases "r \<le> 0") (simp_all add: x Cons.IH Cons.prems distinct_assoc_set)
  qed simp
  have "distinct (map fst acc) \<Longrightarrow> distinct (map fst (fold (\<lambda>(_, byNode) total. fold (\<lambda>(node, replicas) t. if replicas \<le> 0 then t
        else assoc_set node (assoc_get_or 0 t node + replicas) t) byNode total) p acc))" for acc
  proof (induction p arbitrary: acc)
    case (Cons x p)
    show ?case using Cons.IH [OF inner [OF Cons.prems, of "snd x"]] by (cases x) simp
  qed simp
  then show ?thesis by (simp add: occupancyByNode_def)
qed

text \<open>What is published has replicas.\<close>

lemma snapshot_positive: "positive_occupancies (dp_byNode (buildPlacementSnapshot (loadNodeDesiredStates c ids s) owner))"
proof -
  have pos: "0 < sc_replicas x" if placed: "(n, x) \<in> set (footprint_services (loadNodeDesiredStates c ids s) owner)" for n x
  proof -
    obtain ss where ss: "(n, ss) \<in> set (loadNodeDesiredStates c ids s)" "x \<in> set ss"
      using placed by (auto simp: footprint_services_def owned_by_def)
    obtain raw d where "parseDesiredState raw = Some d" "ss = ds_services d"
      using iffD1 [OF loaded ss(1)] by blast
    with ss(2) have "x \<in> set (ds_services d)" "parseDesiredState raw = Some d" by simp_all
    then have "valid_service_config x" by (auto simp: parse_Some valid_desired_state_def list_all_iff)
    then show ?thesis by (simp add: valid_service_config_def)
  qed
  have "(\<forall>(n, x) \<in> set ps. 0 < sc_replicas x) \<Longrightarrow> positive_occupancies m \<Longrightarrow> positive_occupancies (fold add_occupancy ps m)" for ps m
  proof (induction ps arbitrary: m)
    case (Cons y ps)
    obtain n x where y: "y = (n, x)" by (cases y)
    have "\<forall>o' \<in> set (assoc_get_or [] m n). 0 < no_replicas o'"
    proof (cases "map_of m n")
      case (Some b)
      then show ?thesis using Cons.prems(2) map_of_SomeD [OF Some] by (auto simp: positive_occupancies_def assoc_get_or_def)
    qed (simp add: assoc_get_or_def)
    then have "positive_occupancies (add_occupancy y m)"
      using Cons.prems by (auto simp: y add_occupancy_def positive_occupancies_def dest!: set_assoc_set)
    then show ?case using Cons by (simp add: y)
  qed simp
  from this [of "footprint_services (loadNodeDesiredStates c ids s) owner" "[]"] pos show ?thesis
    by (auto simp: buildPlacementSnapshot_def Let_def positive_occupancies_def)
qed

lemma planned_nodes:
  assumes "\<forall>(name, r) \<in> set rs. \<forall>q \<in> set (rs_placements r). 0 < pl_replicas q"
  shows "n \<in> set (map fst (occupancyByNode (plannedPlacement rs))) \<longleftrightarrow> sent_by rs n \<noteq> []"
proof -
  have mem: "(n, r) \<in> set (assoc_of (map (\<lambda>p. (pl_nodeId p, pl_replicas p)) ps)) \<Longrightarrow> \<exists>q \<in> set ps. pl_nodeId q = n \<and> pl_replicas q = r" for r ps
    by (drule map_of_is_SomeI [rotated], simp) (auto simp: map_of_assoc_of dest!: map_of_SomeD)
  have key: "q \<in> set ps \<Longrightarrow> \<exists>r. (pl_nodeId q, r) \<in> set (assoc_of (map (\<lambda>p. (pl_nodeId p, pl_replicas p)) ps))" for q ps
  proof -
    assume "q \<in> set ps"
    then have "pl_nodeId q \<in> set (map fst (assoc_of (map (\<lambda>p. (pl_nodeId p, pl_replicas p)) ps)))"
      unfolding keys_assoc_of by (auto simp: image_iff)
    then show ?thesis by auto
  qed
  have "sent_by rs n \<noteq> [] \<longleftrightarrow> (\<exists>name r q. (name, r) \<in> set rs \<and> q \<in> set (rs_placements r) \<and> pl_nodeId q = n)"
    unfolding sent_by_def concat_eq_Nil_conv by (force simp: filter_empty_conv split: prod.splits)
  also have "\<dots> \<longleftrightarrow> n \<in> set (map fst (occupancyByNode (plannedPlacement rs)))"
  proof
    assume "\<exists>name r q. (name, r) \<in> set rs \<and> q \<in> set (rs_placements r) \<and> pl_nodeId q = n"
    then obtain name r q where q: "(name, r) \<in> set rs" "q \<in> set (rs_placements r)" "pl_nodeId q = n" by blast
    obtain k where k: "(n, k) \<in> set (assoc_of (map (\<lambda>p. (pl_nodeId p, pl_replicas p)) (rs_placements r)))"
      using key [OF q(2)] q(3) by auto
    moreover have "0 < k" using mem [OF k] assms q(1) by auto
    moreover have "(name, assoc_of (map (\<lambda>p. (pl_nodeId p, pl_replicas p)) (rs_placements r))) \<in> set (plannedPlacement rs)"
      using q(1) by (force simp: plannedPlacement_def)
    ultimately show "n \<in> set (map fst (occupancyByNode (plannedPlacement rs)))" unfolding occupancy_keys by blast
  next
    assume "n \<in> set (map fst (occupancyByNode (plannedPlacement rs)))"
    then obtain name bn k where "(name, bn) \<in> set (plannedPlacement rs)" and k: "(n, k) \<in> set bn" unfolding occupancy_keys by blast
    then obtain r where r: "(name, r) \<in> set rs" "bn = assoc_of (map (\<lambda>p. (pl_nodeId p, pl_replicas p)) (rs_placements r))"
      by (auto simp: plannedPlacement_def)
    obtain q where "q \<in> set (rs_placements r)" "pl_nodeId q = n" using mem k r(2) by blast
    with r(1) show "\<exists>name r q. (name, r) \<in> set rs \<and> q \<in> set (rs_placements r) \<and> pl_nodeId q = n" by blast
  qed
  finally show ?thesis by simp
qed

definition placed_as_declared ::
  "launch_pad_config \<Rightarrow> string list \<Rightarrow> string set \<Rightarrow> (string, resolved) assoc \<Rightarrow> bool" where
  "placed_as_declared config ids drain rs \<longleftrightarrow>
     list_all2 (\<lambda>d x. fst x = sd_name d \<and> sum_by pl_replicas (rs_placements (snd x)) = sd_replicas d
       \<and> list_all (\<lambda>q. 0 < pl_replicas q \<and> pl_nodeId q \<in> set ids \<and> pl_nodeId q \<notin> drain) (rs_placements (snd x)))
       (lc_service config) rs"

lemma placed_as_declaredD:
  assumes "placed_as_declared config ids drain rs" and x: "(name, r) \<in> set rs"
  shows "\<exists>d \<in> set (lc_service config). sd_name d = name"
    and "q \<in> set (rs_placements r) \<Longrightarrow> 0 < pl_replicas q \<and> pl_nodeId q \<in> set ids \<and> pl_nodeId q \<notin> drain"
proof -
  obtain i where i: "i < length rs" "rs ! i = (name, r)" using x by (auto simp: in_set_conv_nth)
  let ?d = "lc_service config ! i"
  have l: "i < length (lc_service config)" and p: "fst (rs ! i) = sd_name ?d"
    "list_all (\<lambda>q. 0 < pl_replicas q \<and> pl_nodeId q \<in> set ids \<and> pl_nodeId q \<notin> drain) (rs_placements (snd (rs ! i)))"
    using assms(1) i(1) unfolding placed_as_declared_def list_all2_conv_all_nth by simp_all
  from p(1) i(2) have "sd_name ?d = name" by simp
  with nth_mem [OF l] show "\<exists>d \<in> set (lc_service config). sd_name d = name" by blast
  show "q \<in> set (rs_placements r) \<Longrightarrow> 0 < pl_replicas q \<and> pl_nodeId q \<in> set ids \<and> pl_nodeId q \<notin> drain"
    using p(2) i(2) by (simp add: list_all_iff)
qed

lemma sent_byE:
  assumes "sent_by rs n \<noteq> []"
  obtains name r q where "(name, r) \<in> set rs" "q \<in> set (rs_placements r)" "pl_nodeId q = n"
proof -
  obtain x where x: "x \<in> set rs" "map (\<lambda>q. (fst x, pl_replicas q)) (filter (\<lambda>q. pl_nodeId q = n) (rs_placements (snd x))) \<noteq> []"
    using assms unfolding sent_by_def concat_eq_Nil_conv by (auto split: prod.splits)
  then obtain q where "q \<in> set (rs_placements (snd x))" "pl_nodeId q = n" by (auto simp: filter_empty_conv)
  with x(1) show ?thesis by (intro that [of "fst x" "snd x" q]) simp_all
qed

lemma plan_rebalance_parts:
  assumes "plan_rebalance w opts config cfg s = Inr p" and ids: "bw_ids w s = ids"
  obtains pool edge kept candidates plans where
    "buildCandidateNodes (bw_dateParse w) (aws_clusterId (bw_aws w)) s (footprintOwner (lc_project config) (lc_component config) (ro_env opts))
       True (bw_nowMs w) (bw_now w) ids no_candidates = Inr pool"
    and "undrained (resolveDrainSet (ro_drain opts) (ro_drainNodes opts)) pool = Inr (kept, candidates)"
    and "planClusterPlacement candidates (map (cluster_input (rp_prior p)) (lc_service config)) = Inr plans"
    and "resolve_rebalance config (ro_env opts) edge plans [] = Inr (rp_resolved p)"
    and "rp_diff p = diffPlacement (currentPlacement (rp_prior p)) (plannedPlacement (rp_resolved p))"
    and "rp_prior p = loadDeployedPlacement (bw_aws w) ids (footprintOwner (lc_project config) (lc_component config) (ro_env opts)) s"
    and "rp_nodes p = cns_nodes pool"
proof -
  let ?c = "aws_clusterId (bw_aws w)" and ?owner = "footprintOwner (lc_project config) (lc_component config) (ro_env opts)"
  let ?drain = "resolveDrainSet (ro_drain opts) (ro_drainNodes opts)"
  let ?states = "loadNodeDesiredStates ?c ids s" and ?prior = "buildPlacementSnapshot (loadNodeDesiredStates ?c ids s) ?owner"
  note run = assms(1) [unfolded plan_rebalance_def Let_def ids(1)]
  obtain pool where pool: "buildCandidateNodes (bw_dateParse w) ?c s ?owner True (bw_nowMs w) (bw_now w) ids no_candidates = Inr pool"
    using run by (cases "buildCandidateNodes (bw_dateParse w) ?c s ?owner True (bw_nowMs w) (bw_now w) ids no_candidates") simp_all
  obtain edge where edge: "rebalance_edge cfg (cns_nodes pool) = Inr edge"
    using run pool by (cases "rebalance_edge cfg (cns_nodes pool)") simp_all
  obtain kept candidates where un: "undrained ?drain pool = Inr (kept, candidates)"
    using run pool edge by (cases "undrained ?drain pool") auto
  obtain plans where plans: "planClusterPlacement candidates (map (cluster_input ?prior) (lc_service config)) = Inr plans"
    using run pool edge un
    by (cases "planClusterPlacement candidates (map (cluster_input ?prior) (lc_service config))") (simp_all split: if_splits)
  obtain rs where rs: "resolve_rebalance config (ro_env opts) edge plans [] = Inr rs"
    using run pool edge un plans by (cases "resolve_rebalance config (ro_env opts) edge plans []") (simp_all split: if_splits)
  have p: "p = \<lparr>rp_resolved = rs, rp_diff = diffPlacement (currentPlacement ?prior) (plannedPlacement rs),
      rp_nodes = cns_nodes pool, rp_images = images_in_use ?owner ?states, rp_prior = ?prior\<rparr>"
    using run pool edge un plans rs by (simp split: if_splits)
  show ?thesis
    by (rule that [OF pool un, of plans edge]) (use plans rs in \<open>simp_all add: p loadDeployedPlacement_def\<close>)
qed

lemma plan_rebalance_placed:
  assumes plan: "plan_rebalance w opts config cfg s = Inr p"
    and acc: "accepted_config now config" and ids: "bw_ids w s = ids" "distinct ids"
  shows "placed_as_declared config ids (resolveDrainSet (ro_drain opts) (ro_drainNodes opts)) (rp_resolved p)"
    and "rp_diff p = diffPlacement (currentPlacement (rp_prior p)) (plannedPlacement (rp_resolved p))"
    and "rp_prior p = loadDeployedPlacement (bw_aws w) ids (footprintOwner (lc_project config) (lc_component config) (ro_env opts)) s"
    and "\<forall>n \<in> set ids. s (nodeRegistryKey (aws_clusterId (bw_aws w)) n) \<noteq> None \<longrightarrow> n \<in> fst ` set (rp_nodes p)"
proof -
  let ?c = "aws_clusterId (bw_aws w)" and ?owner = "footprintOwner (lc_project config) (lc_component config) (ro_env opts)"
  let ?drain = "resolveDrainSet (ro_drain opts) (ro_drainNodes opts)" and ?in = "map (cluster_input (rp_prior p)) (lc_service config)"
  obtain pool edge kept candidates plans where
    pool: "buildCandidateNodes (bw_dateParse w) ?c s ?owner True (bw_nowMs w) (bw_now w) ids no_candidates = Inr pool"
    and un: "undrained ?drain pool = Inr (kept, candidates)"
    and plans: "planClusterPlacement candidates ?in = Inr plans"
    and rs: "resolve_rebalance config (ro_env opts) edge plans [] = Inr (rp_resolved p)"
    and p: "rp_diff p = diffPlacement (currentPlacement (rp_prior p)) (plannedPlacement (rp_resolved p))"
      "rp_prior p = loadDeployedPlacement (bw_aws w) ids ?owner s" "rp_nodes p = cns_nodes pool"
    by (rule plan_rebalance_parts [OF plan ids(1)])
  show "rp_diff p = diffPlacement (currentPlacement (rp_prior p)) (plannedPlacement (rp_resolved p))"
    "rp_prior p = loadDeployedPlacement (bw_aws w) ids ?owner s"
    by (rule p)+
  show "\<forall>n \<in> set ids. s (nodeRegistryKey ?c n) \<noteq> None \<longrightarrow> n \<in> fst ` set (rp_nodes p)"
    using candidates_know [OF pool] p(3) by auto
  have cand: "candidates = filter (\<lambda>k. cn_nodeId k \<notin> ?drain) (cns_candidateNodes pool)"
    using un by (auto simp: undrained_def Let_def split: option.splits if_splits)
  have d: "distinct (map cn_nodeId candidates)"
    unfolding cand by (rule distinct_map_filter_key) (rule candidates_distinct [OF pool], simp add: no_candidates_def ids(2))
  have on: "cn_nodeId k \<in> set ids \<and> cn_nodeId k \<notin> ?drain" if "k \<in> set candidates" for k
    using candidates_sound [OF pool, of k] that by (auto simp: cand no_candidates_def)
  have v: "valid_config_fields config" and names: "distinct (map sd_name (lc_service config))"
    using acc by (auto simp: accepted_config_def config_issues_def config_root_issues_Nil)
  then have reps: "\<forall>x \<in> set ?in. 1 \<le> cs_replicas x"
    by (auto simp: valid_config_fields_def valid_service_decl_def list_all_iff cluster_input_def SERVICE_NUMERIC_FIELD_MIN_def)
  have nt: "map nt_id (map initial_tally candidates) = map cn_nodeId candidates" by (simp add: initial_tally_def)
  have plans': "plan_services (map initial_tally candidates) ?in = Inr plans"
    using plans by (simp add: planClusterPlacement_def)
  note complete = plan_services_complete [OF plans' _ reps, unfolded nt, OF d]
  have cp: "map cp_service plans = map sd_name (lc_service config)"
    using complete by (simp add: cluster_input_def o_def)
  have l2: "list_all2 (\<lambda>d p. sum_by pl_replicas (cp_placements p) = sd_replicas d
      \<and> list_all (\<lambda>q. 0 < pl_replicas q \<and> pl_nodeId q \<in> set (map cn_nodeId candidates)) (cp_placements p)) (lc_service config) plans"
    using conjunct2 [OF complete] unfolding list_all2_map1
    by (rule list_all2_mono) (simp add: cluster_input_def)
  have known: "\<forall>q \<in> set plans. \<exists>d \<in> set (lc_service config). sd_name d = cp_service q"
    using cp by (metis (no_types, lifting) image_iff list.set_map)
  obtain rs' where rs': "rp_resolved p = rs'"
    and l3: "list_all2 (\<lambda>q x. fst x = cp_service q \<and> rs_placements (snd x) = cp_placements q) plans rs'"
    using resolve_rebalance_all [OF rs known] cp names by auto
  have l4: "list_all2 (\<lambda>d q. cp_service q = sd_name d) (lc_service config) plans"
  proof (rule list_all2_all_nthI)
    show len: "length (lc_service config) = length plans" using arg_cong [OF cp, of length] by simp
    show "cp_service (plans ! i) = sd_name (lc_service config ! i)" if "i < length (lc_service config)" for i
      using arg_cong [OF cp, of "\<lambda>l. l ! i"] that len by simp
  qed
  have l5: "list_all2 (\<lambda>d q. cp_service q = sd_name d \<and> sum_by pl_replicas (cp_placements q) = sd_replicas d
      \<and> list_all (\<lambda>q. 0 < pl_replicas q \<and> pl_nodeId q \<in> set ids \<and> pl_nodeId q \<notin> ?drain) (cp_placements q)) (lc_service config) plans"
  proof (rule list_all2_all_nthI)
    show "length (lc_service config) = length plans" using l2 by (rule list_all2_lengthD)
    fix i assume i: "i < length (lc_service config)"
    show "cp_service (plans ! i) = sd_name (lc_service config ! i) \<and> sum_by pl_replicas (cp_placements (plans ! i)) = sd_replicas (lc_service config ! i)
      \<and> list_all (\<lambda>q. 0 < pl_replicas q \<and> pl_nodeId q \<in> set ids \<and> pl_nodeId q \<notin> ?drain) (cp_placements (plans ! i))"
      using list_all2_nthD [OF l2 i] list_all2_nthD [OF l4 i] on by (auto simp: list_all_iff)
  qed
  show "placed_as_declared config ids ?drain (rp_resolved p)"
    unfolding placed_as_declared_def rs'
    by (rule list_all2_trans [OF _ l5 l3]) auto
qed

lemma snapshot_nodes: "fst ` set (dp_byNode (buildPlacementSnapshot states owner)) = fst ` set (footprint_services states owner)"
proof -
  have "fst ` set (fold add_occupancy ps m) = fst ` set m \<union> fst ` set ps" for ps m
  proof (induction ps arbitrary: m)
    case (Cons x ps)
    have "fst ` set (add_occupancy x m) = insert (fst x) (fst ` set m)"
      by (cases x) (simp add: add_occupancy_def keys_assoc_set [simplified])
    with Cons show ?case by auto
  qed simp
  then show ?thesis by (simp add: buildPlacementSnapshot_def Let_def)
qed

lemma snapshot_misses:
  assumes "n \<in> set ids" "n \<notin> fst ` set (dp_byNode (buildPlacementSnapshot (loadNodeDesiredStates c ids s) owner))"
  shows "owned_by owner (services_of (s (desiredKey c n))) = []"
proof (rule ccontr)
  assume some: "owned_by owner (services_of (s (desiredKey c n))) \<noteq> []"
  then obtain raw d where raw: "s (desiredKey c n) = Some raw" "parseDesiredState raw = Some d"
    by (cases "s (desiredKey c n)") (auto simp: services_of_def owned_by_def split: option.splits)
  then obtain x where "x \<in> set (owned_by owner (ds_services d))"
    using some by (cases "owned_by owner (ds_services d)") (auto simp: services_of_def)
  with raw have "(n, ds_services d) \<in> set (loadNodeDesiredStates c ids s)" and x: "x \<in> set (owned_by owner (ds_services d))"
    using assms(1) by (auto simp: loaded)
  then have "(n, x) \<in> set (footprint_services (loadNodeDesiredStates c ids s) owner)"
    by (force simp: footprint_services_def)
  then show False using assms(2) unfolding snapshot_nodes by force
qed

lemma publish_rebalance_effect:
  assumes plan: "plan_rebalance w opts config cfg s = Inr p" and acc: "accepted_config now config"
    and quiet: "bw_interfere w = alone" and ids: "bw_ids w s = ids" "distinct ids" "n \<in> set ids"
    and known: "\<forall>n \<in> set ids. s (nodeRegistryKey (aws_clusterId (bw_aws w)) n) \<noteq> None"
    and run: "publish_rebalance w opts config p s = (s', Inr u)"
  shows "let owner = footprintOwner (lc_project config) (lc_component config) (ro_env opts); c = aws_clusterId (bw_aws w)
    in node_holds c owner n s s' (sent_by (rp_resolved p) n)
       \<or> sent_by (rp_resolved p) n = [] \<and> owned_by owner (services_of (s (desiredKey c n))) = [] \<and> s' (desiredKey c n) = s (desiredKey c n)"
proof -
  let ?c = "aws_clusterId (bw_aws w)" and ?owner = "footprintOwner (lc_project config) (lc_component config) (ro_env opts)"
  let ?prior = "buildPlacementSnapshot (loadNodeDesiredStates ?c ids s) ?owner" and ?rs = "rp_resolved p"
  note P = plan_rebalance_placed [OF plan acc ids(1,2)]
  have prior: "rp_prior p = ?prior" using P(3) by (simp add: loadDeployedPlacement_def)
  have before: "set (map fst (occupancyByNode (currentPlacement ?prior))) = fst ` set (dp_byNode ?prior)"
    by (rule currentPlacement_nodes [OF snapshot_positive])
  have after: "m \<in> set (map fst (occupancyByNode (plannedPlacement ?rs))) \<longleftrightarrow> sent_by ?rs m \<noteq> []" for m
    by (rule planned_nodes) (use placed_as_declaredD(2) [OF P(1)] in blast)
  have vac: "m \<in> set (rd_vacatedNodes (rp_diff p)) \<longleftrightarrow> m \<in> fst ` set (dp_byNode ?prior) \<and> sent_by ?rs m = []" for m
    using before after [of m] unfolding P(2) prior by (auto simp: diffPlacement_def Let_def)
  have vd: "distinct (rd_vacatedNodes (rp_diff p))"
    unfolding P(2) by (simp add: diffPlacement_def Let_def occupancy_distinct distinct_map_filter_key)
  have "m \<in> set ids" if "m \<in> fst ` set (dp_byNode ?prior)" for m
    using that unfolding snapshot_nodes by (auto simp: footprint_services_def loaded)
  then have reg: "\<forall>m \<in> set (rd_vacatedNodes (rp_diff p)). sent_by ?rs m = [] \<and> m \<in> fst ` set (rp_nodes p)"
  proof -
    have "m \<in> fst ` set (rp_nodes p)" if "m \<in> set ids" for m using P(4) known that by blast
    with vac \<open>\<And>m. m \<in> fst ` set (dp_byNode ?prior) \<Longrightarrow> m \<in> set ids\<close> show ?thesis by simp
  qed
  have decls: "\<forall>(name, r) \<in> set ?rs. \<exists>d \<in> set (lc_service config). sd_name d = name"
    using placed_as_declaredD(1) [OF P(1)] by blast
  have "rebalanced_node ?c ?owner ?rs (rd_vacatedNodes (rp_diff p)) s s' n"
    by (rule apply_effect [OF run [unfolded publish_rebalance_def quiet] decls vd reg])
  then show ?thesis
    using vac [of n] snapshot_misses [OF ids(3), of ?c s ?owner] unfolding rebalanced_node_def Let_def
    by (auto split: if_splits)
qed

lemma rebalanced_cases:
  assumes "runRebalance w opts config s = Some (s', Inr Rebalanced)"
  obtains cfg p u where "rebalance_cluster (aws_clusterId (bw_aws w)) s = Inr cfg" "plan_rebalance w opts config cfg s = Inr p" "rd_changed (rp_diff p)" "\<not> ro_dryRun opts"
    "publish_rebalance w opts config p s = (s', Inr u)"
    "ro_wait opts \<Longrightarrow> waitForRebalanceConvergence w opts (rebalance_targets (footprintOwner (lc_project config) (lc_component config) (ro_env opts))
       (lc_service config) (rp_images p) (rp_resolved p)) = Some (Inr ())"
proof -
  let ?owner = "footprintOwner (lc_project config) (lc_component config) (ro_env opts)"
  note run = assms [unfolded runRebalance_def Let_def]
  obtain lo where lo: "rebalance_lock w config ?owner s = Inr lo"
    using run by (cases "rebalance_lock w config ?owner s") (simp_all split: if_splits)
  obtain cfg where cfg: "rebalance_cluster (aws_clusterId (bw_aws w)) s = Inr cfg"
    using run lo by (cases "rebalance_cluster (aws_clusterId (bw_aws w)) s") (simp_all split: if_splits)
  obtain p where p: "plan_rebalance w opts config cfg s = Inr p"
    using run lo cfg by (cases "plan_rebalance w opts config cfg s") (simp_all split: if_splits)
  obtain s1 u where pub: "publish_rebalance w opts config p s = (s1, Inr u)"
  proof (cases "publish_rebalance w opts config p s")
    case (Pair s1 r)
    then show ?thesis using run lo cfg p that by (cases r) (simp_all split: if_splits)
  qed
  let ?wait = "waitForRebalanceConvergence w opts (rebalance_targets ?owner (lc_service config) (rp_images p) (rp_resolved p))"
  have "?wait = Some (Inr ())" if wait: "ro_wait opts"
  proof -
    obtain r where r: "?wait = Some r" using run lo cfg p pub wait by (cases ?wait) (simp_all split: if_splits)
    then show ?thesis using run lo cfg p pub wait by (cases r) (simp_all split: if_splits)
  qed
  moreover have "s1 = s'" "rd_changed (rp_diff p)" "\<not> ro_dryRun opts"
    using run lo cfg p pub by (auto split: if_splits)
  ultimately show ?thesis using that cfg p pub by simp
qed

lemma rebalance_wait_honest:
  assumes "waitForRebalanceConvergence w opts targets = Some (Inr ())"
  shows "\<exists>i. \<forall>t \<in> set targets. converged (bw_statuses w i (wt_nodeId t)) t"
proof (cases "targets = []")
  case False
  then obtain rs ms where rs: "waitForConvergence targets (bw_waitStart w) ms (bw_statuses w) (bw_waitClock w) = Some rs"
    "list_all wr_ok rs"
    using assms by (auto simp: waitForRebalanceConvergence_def split: if_splits)
  then show ?thesis using converged_at [OF rs] by blast
qed simp

text \<open>What a rebalance that is alone leaves: every node carries exactly what the plan sends it, and nothing else moved.\<close>

definition moved_as_planned ::
  "rebalance_world \<Rightarrow> rebalance_options \<Rightarrow> launch_pad_config \<Rightarrow> rebalance_plan \<Rightarrow> string list \<Rightarrow> state_bucket \<Rightarrow> state_bucket \<Rightarrow> bool" where
  "moved_as_planned w opts config p ids s s' \<longleftrightarrow>
     (let owner = footprintOwner (lc_project config) (lc_component config) (ro_env opts); c = aws_clusterId (bw_aws w)
      in placed_as_declared config ids (resolveDrainSet (ro_drain opts) (ro_drainNodes opts)) (rp_resolved p)
       \<and> (\<forall>n \<in> set ids. node_holds c owner n s s' (sent_by (rp_resolved p) n)
            \<or> sent_by (rp_resolved p) n = [] \<and> owned_by owner (services_of (s (desiredKey c n))) = []
              \<and> s' (desiredKey c n) = s (desiredKey c n))
       \<and> (if ro_wait opts
          then \<exists>i. \<forall>t \<in> set (rebalance_targets owner (lc_service config) (rp_images p) (rp_resolved p)).
                 converged (bw_statuses w i (wt_nodeId t)) t
          else True))"

lemma rebalance_moves:
  assumes acc: "accepted_config now config" and alone: "bw_interfere w = (\<lambda>_ _ t. t)"
    and ids: "bw_ids w = (\<lambda>_. ids)" "distinct ids"
    and known: "\<forall>n \<in> set ids. s (nodeRegistryKey (aws_clusterId (bw_aws w)) n) \<noteq> None"
    and run: "runRebalance w opts config s = Some (s', Inr Rebalanced)"
  shows "\<exists>cfg p. rebalance_cluster (aws_clusterId (bw_aws w)) s = Inr cfg \<and> plan_rebalance w opts config cfg s = Inr p \<and> moved_as_planned w opts config p ids s s'"
proof -
  obtain cfg p u where cl: "rebalance_cluster (aws_clusterId (bw_aws w)) s = Inr cfg" and plan: "plan_rebalance w opts config cfg s = Inr p"
    and pub: "publish_rebalance w opts config p s = (s', Inr u)"
    and wait: "ro_wait opts \<Longrightarrow> waitForRebalanceConvergence w opts
       (rebalance_targets (footprintOwner (lc_project config) (lc_component config) (ro_env opts))
         (lc_service config) (rp_images p) (rp_resolved p)) = Some (Inr ())"
    by (rule rebalanced_cases [OF run], rule that) assumption+
  have i: "bw_ids w s = ids" using ids(1) by simp
  have "moved_as_planned w opts config p ids s s'"
    unfolding moved_as_planned_def Let_def
    using plan_rebalance_placed(1) [OF plan acc i ids(2)] rebalance_wait_honest [OF wait]
      publish_rebalance_effect [OF plan acc alone i ids(2) _ known pub, unfolded Let_def] by auto
  with cl plan show ?thesis by blast
qed

text \<open>Until it publishes, a rebalance changes nothing.\<close>

lemma rebalance_untouched:
  assumes "runRebalance w opts config s = Some (s', r)"
    and "r \<noteq> Inr Rebalanced" "\<And>e. r \<noteq> Inl (RebalanceFailed e)" "\<And>rs. r \<noteq> Inl (RebalanceNotConverged rs)"
  shows "s' = s"
proof -
  have w: "waitForRebalanceConvergence w opts ts = Some (Inl e) \<Longrightarrow> \<exists>rs. e = RebalanceNotConverged rs" for ts e
    by (auto simp: waitForRebalanceConvergence_def split: if_splits)
  have u: "z \<noteq> Inr () \<Longrightarrow> \<exists>e. z = Inl e" for z :: "rebalance_run_error + unit" by (cases z) auto
  show ?thesis
    using assms unfolding runRebalance_def Let_def
    by (auto split: if_splits sum.splits prod.splits dest!: u w) blast+
qed

text \<open>
  C20. A rebalance that succeeds, alone on the cluster, leaves every service of the configuration with exactly its
  declared replicas, on registered nodes outside the drain set; every node carries exactly what the plan sends it,
  so a drained node carries none of the footprint; other footprints' services are as they were, in order; and when
  it waited, one and the same poll saw all the placements running.
\<close>

theorem rebalance_moves_the_footprint:
  assumes "accepted_config now config" "bw_interfere w = (\<lambda>_ _ t. t)" "bw_ids w = (\<lambda>_. ids)" "distinct ids"
    and "\<forall>n \<in> set ids. s (nodeRegistryKey (aws_clusterId (bw_aws w)) n) \<noteq> None"
    and "runRebalance w opts config s = Some (s', Inr Rebalanced)"
  shows "\<exists>cfg p. rebalance_cluster (aws_clusterId (bw_aws w)) s = Inr cfg \<and> plan_rebalance w opts config cfg s = Inr p \<and> moved_as_planned w opts config p ids s s'"
  by (rule rebalance_moves [OF assms])

section \<open>Example\<close>

declare poll.simps [code]

definition moving_config :: launch_pad_config where
  "moving_config = shop_config\<lparr>lc_service := [(example_decl ''api'')\<lparr>sd_domain := None, sd_port := None, sd_healthCheck := None\<rparr>]\<rparr>"

definition two_nodes :: state_bucket where
  "two_nodes = [nodeRegistryKey ''default'' ''a'' \<mapsto> NodeJson example_small_node,
     nodeRegistryKey ''default'' ''b'' \<mapsto> NodeJson (example_small_node\<lparr>ne_nodeId := ''b'', ne_agentId := ''agent-b''\<rparr>),
     desiredKey ''default'' ''a'' \<mapsto> hosted ''a'' [plain_service ''shop'' ''api'' 256 256 2]]"

definition moving_world :: rebalance_world where
  "moving_world = \<lparr>bw_aws = example_env, bw_readable = True, bw_ids = (\<lambda>_. [''a'', ''b'']), bw_dateParse = iso_parse,
     bw_nowMs = 0, bw_now = ''t'', bw_clock = (\<lambda>_. ''t''), bw_stamp = (\<lambda>_. ''t''), bw_confirm = False,
     bw_interfere = (\<lambda>_ _ t. t), bw_waitStart = 0,
     bw_statuses = (\<lambda>_ n. Some (quiet_status n ''t'' [running_service ''shop'' ''api'' [running_replica ''c1'' ''img'', running_replica ''c2'' ''img'']])),
     bw_waitClock = steady_clock\<rparr>"

definition drain_a :: rebalance_options where
  "drain_a = \<lparr>ro_env = None, ro_drain = Some ''a'', ro_drainNodes = None, ro_dryRun = False, ro_yes = True, ro_wait = False,
     ro_timeout = None\<rparr>"

lemma moving_examples:
  "(map_option snd (runRebalance moving_world drain_a moving_config two_nodes) = Some (Inr Rebalanced)) \<and>
   (rebalance_cluster ''default'' two_nodes = Inr None) \<and>
   (map_sum id (\<lambda>p. sent_by (rp_resolved p) ''b'') (plan_rebalance moving_world drain_a moving_config None two_nodes) = Inr [(''api'', 2)]) \<and>
   (accepted_config 0 moving_config) \<and>
   (\<forall>n \<in> set [''a'', ''b'']. two_nodes (nodeRegistryKey ''default'' n) \<noteq> None) \<and>
   (footprintOwner (lc_project moving_config) (lc_component moving_config) (ro_env drain_a) = ''shop'')"
  by code_simp

lemma moving_runs:
  "map_option snd (runRebalance moving_world drain_a moving_config two_nodes) = Some (Inr Rebalanced)"
  "rebalance_cluster ''default'' two_nodes = Inr None"
  "map_sum id (\<lambda>p. sent_by (rp_resolved p) ''b'') (plan_rebalance moving_world drain_a moving_config None two_nodes) = Inr [(''api'', 2)]"
  "accepted_config 0 moving_config"
  using moving_examples by - (elim conjE, assumption)+

lemma rebalance_moves_the_footprint_witness:
  "\<exists>s'. runRebalance moving_world drain_a moving_config two_nodes = Some (s', Inr Rebalanced)
     \<and> node_holds ''default'' ''shop'' ''b'' two_nodes s' [(''api'', 2)]"
proof -
  obtain s' where run: "runRebalance moving_world drain_a moving_config two_nodes = Some (s', Inr Rebalanced)"
    using moving_runs(1) by auto
  have w: "bw_interfere moving_world = (\<lambda>_ _ t. t)" "bw_ids moving_world = (\<lambda>_. [''a'', ''b''])" "distinct [''a'', ''b'']"
    "aws_clusterId (bw_aws moving_world) = ''default''"
    by (simp_all add: moving_world_def example_env_def)
  have k: "\<forall>n \<in> set [''a'', ''b'']. two_nodes (nodeRegistryKey (aws_clusterId (bw_aws moving_world)) n) \<noteq> None"
    unfolding w(4) using moving_examples by - (elim conjE, assumption)
  obtain p where p: "plan_rebalance moving_world drain_a moving_config None two_nodes = Inr p"
    and m: "moved_as_planned moving_world drain_a moving_config p [''a'', ''b''] two_nodes s'"
    using rebalance_moves_the_footprint [OF moving_runs(4) w(1,2,3) k run] moving_runs(2) w(4) by auto
  have "footprintOwner (lc_project moving_config) (lc_component moving_config) (ro_env drain_a) = ''shop''" using moving_examples by - (elim conjE, assumption)
  moreover have "sent_by (rp_resolved p) ''b'' = [(''api'', 2)]" using moving_runs(3) p by simp
  ultimately show ?thesis using run m w(4) unfolding moved_as_planned_def Let_def by auto
qed

end
