(* ===== verification/Node_Destroy.thy ===== *)
theory Node_Destroy
  imports Rebalance_Run Cluster_Store
begin

text \<open>
  Destroying nodes (\<open>runDestroy\<close>, \<open>runPrune\<close>, \<open>teardownNode\<close> and their helpers in
  \<open>packages/cli/src/commands/node/index.ts\<close>): what is scheduled on a node, the evacuation, the gates, the
  teardown step by step. A step is a call outside the program; how it ends is a parameter.
\<close>

section \<open>What is scheduled on a node\<close>

record scheduled_service =
  sv_project :: string
  sv_service :: string
  sv_hasVolume :: bool

type_synonym hosting = "(string \<times> scheduled_service list) list"

definition volumeBearingTargets :: "hosting \<Rightarrow> hosting" where
  "volumeBearingTargets targets = filter (\<lambda>t. snd t \<noteq> []) (map (\<lambda>t. (fst t, filter sv_hasVolume (snd t))) targets)"

definition nodesThatWouldOrphan :: "hosting \<Rightarrow> hosting" where
  "nodesThatWouldOrphan targets = filter (\<lambda>t. snd t \<noteq> []) targets"

record evacuation_assessment =
  ea_drainNodes :: "string list"
  ea_unmovable :: hosting

definition movable :: "string \<Rightarrow> string set \<Rightarrow> scheduled_service \<Rightarrow> bool" where
  "movable owner names x \<longleftrightarrow> sv_project x = owner \<and> sv_service x \<in> names"

definition assessEvacuation :: "hosting \<Rightarrow> string \<Rightarrow> string set \<Rightarrow> evacuation_assessment" where
  "assessEvacuation targets owner names =
     \<lparr>ea_drainNodes = map fst (filter (\<lambda>t. list_ex (movable owner names) (snd t)) targets),
      ea_unmovable = filter (\<lambda>t. snd t \<noteq> []) (map (\<lambda>t. (fst t, filter (\<lambda>x. \<not> movable owner names x) (snd t))) targets)\<rparr>"

text \<open>A document that does not parse may hold anything: it counts as one service with a volume.\<close>

definition scheduledServicesFromDesired :: "document \<Rightarrow> scheduled_service list" where
  "scheduledServicesFromDesired raw =
     (case parseDesiredState raw of
        Some d \<Rightarrow> map (\<lambda>x. \<lparr>sv_project = sc_project x, sv_service = sc_service x, sv_hasVolume = sc_volumes x \<noteq> []\<rparr>) (ds_services d)
      | None \<Rightarrow> [\<lparr>sv_project = ''(unknown)'', sv_service = ''(unparseable desired.json)'', sv_hasVolume = True\<rparr>])"

definition listScheduledServices :: "string \<Rightarrow> string \<Rightarrow> state_bucket \<Rightarrow> scheduled_service list" where
  "listScheduledServices c n s =
     (case getJson s (desiredKey c n) of None \<Rightarrow> [] | Some (raw, _) \<Rightarrow> scheduledServicesFromDesired raw)"

section \<open>Names and targets\<close>

datatype destroy_error =
    NoNodeNames
  | BadNodeId string
  | MalformedNode string
  | EvacuateNoConfig
  | EvacuateBadConfig
  | EvacuateBadEnv string
  | BadTimeout string
  | EvacuationFailed rebalance_run_error
  | HoldsVolumes hosting
  | WouldOrphan hosting
  | DestroyAborted

definition parseNodeNames :: "string list \<Rightarrow> destroy_error + string list" where
  "parseNodeNames args =
     (let parts = concat (map (\<lambda>a. filter (\<lambda>p. p \<noteq> []) (map trim (split_char CHR '','' a))) args)
      in if parts = [] then Inl NoNodeNames
         else (let names = js_dedup parts
               in case find (\<lambda>n. nodeIdError n \<noteq> None) names of Some n \<Rightarrow> Inl (BadNodeId n) | None \<Rightarrow> Inr names))"

record destroy_target =
  dt_name :: string
  dt_node :: "node_entry option"
  dt_services :: "scheduled_service list"

definition loadDestroyTarget :: "string \<Rightarrow> state_bucket \<Rightarrow> string \<Rightarrow> destroy_error + destroy_target" where
  "loadDestroyTarget c s n =
     (case getJson s (nodeRegistryKey c n) of
        None \<Rightarrow> Inr \<lparr>dt_name = n, dt_node = None, dt_services = []\<rparr>
      | Some (raw, _) \<Rightarrow>
          (case parseNodeRegistryEntry raw of
             None \<Rightarrow> Inl (MalformedNode n)
           | Some e \<Rightarrow> Inr \<lparr>dt_name = n, dt_node = Some e, dt_services = listScheduledServices c n s\<rparr>))"

fun load_targets :: "string \<Rightarrow> state_bucket \<Rightarrow> string list \<Rightarrow> destroy_error + destroy_target list" where
  "load_targets c s [] = Inr []"
| "load_targets c s (n # ns) =
     res_bind (loadDestroyTarget c s n) (\<lambda>t. res_bind (load_targets c s ns) (\<lambda>ts. Inr (t # ts)))"

section \<open>The teardown of one node\<close>

datatype destroy_step =
    TerminateInstance string
  | ReleaseAddress string
  | DeleteGroup string
  | Cordon string
  | DeleteIamUser string string
  | DeleteIamRole string string
  | ClearDefaultEdge string
  | DeleteNodeState string

text \<open>How a call ends: done, refused because the target is already gone, or failed.\<close>

datatype step_result = StepDone | StepGone | StepFailed

record teardown =
  td_bucket :: state_bucket
  td_done :: "destroy_step list"
  td_warned :: "destroy_step list"

definition deletePrefix :: "(string \<Rightarrow> bool) \<Rightarrow> string \<Rightarrow> state_bucket \<Rightarrow> state_bucket" where
  "deletePrefix gone p s = (\<lambda>k. if starts_with k p \<and> gone k then None else s k)"

definition teardown_steps :: "node_entry \<Rightarrow> destroy_step list" where
  "teardown_steps node =
     (let n = ne_nodeId node; c = ne_clusterId node
      in (if truthy (ne_instanceId node) then [TerminateInstance (the (ne_instanceId node))] else [])
       @ (if truthy (ne_eipAllocationId node) then [ReleaseAddress (the (ne_eipAllocationId node))] else [])
       @ (if truthy (ne_securityGroupId node) then [DeleteGroup (the (ne_securityGroupId node))] else [])
       @ (if ne_provisioning node = External then [Cordon n, DeleteIamUser c n] else [DeleteIamRole c n])
       @ (if c \<noteq> DEFAULT_CLUSTER then [ClearDefaultEdge n] else [])
       @ [DeleteNodeState n])"

text \<open>What a step that works does to the state bucket; \<open>None\<close> is a failure of the program's own part of it.\<close>

definition step_effect :: "node_entry \<Rightarrow> destroy_step \<Rightarrow> state_bucket \<Rightarrow> state_bucket option" where
  "step_effect node st s =
     (let c = ne_clusterId node
      in case st of
        Cordon n \<Rightarrow> Some (s(nodeRegistryKey c n := Some (NodeJson (node\<lparr>ne_state := Terminating\<rparr>))))
      | ClearDefaultEdge n \<Rightarrow>
          (case getClusterConfig c s of
             Inl _ \<Rightarrow> None
           | Inr None \<Rightarrow> Some s
           | Inr (Some cc) \<Rightarrow>
               (if cc_defaultEdge cc = Some n then Some (putClusterConfig (cc\<lparr>cc_defaultEdge := None\<rparr>) s) else Some s))
      | DeleteNodeState n \<Rightarrow> Some (deletePrefix (\<lambda>_. True) (nodePrefix c n) s)
      | _ \<Rightarrow> Some s)"

text \<open>A deletion that fails may have removed part of the objects.\<close>

definition failed_effect :: "(string \<Rightarrow> bool) \<Rightarrow> node_entry \<Rightarrow> destroy_step \<Rightarrow> state_bucket \<Rightarrow> state_bucket" where
  "failed_effect gone node st s =
     (case st of DeleteNodeState n \<Rightarrow> deletePrefix gone (nodePrefix (ne_clusterId node) n) s | _ \<Rightarrow> s)"

definition warn_step :: "bool \<Rightarrow> destroy_step \<Rightarrow> teardown \<Rightarrow> teardown" where
  "warn_step report st t = (if report then t\<lparr>td_warned := td_warned t @ [st]\<rparr> else t)"

definition tryDestroyStep ::
  "(destroy_step \<Rightarrow> step_result) \<Rightarrow> (string \<Rightarrow> bool) \<Rightarrow> bool \<Rightarrow> node_entry \<Rightarrow> destroy_step \<Rightarrow> teardown \<Rightarrow> teardown" where
  "tryDestroyStep calls gone report node st t =
     (case calls st of
        StepGone \<Rightarrow> t
      | StepFailed \<Rightarrow> warn_step report st (t\<lparr>td_bucket := failed_effect gone node st (td_bucket t)\<rparr>)
      | StepDone \<Rightarrow>
          (case step_effect node st (td_bucket t) of
             None \<Rightarrow> warn_step report st t
           | Some s' \<Rightarrow> t\<lparr>td_bucket := s', td_done := td_done t @ [st]\<rparr>))"

definition teardownNode ::
  "(destroy_step \<Rightarrow> step_result) \<Rightarrow> (string \<Rightarrow> bool) \<Rightarrow> bool \<Rightarrow> node_entry \<Rightarrow> teardown \<Rightarrow> teardown" where
  "teardownNode calls gone report node t = fold (tryDestroyStep calls gone report node) (teardown_steps node) t"

text \<open>Leftover objects of nodes whose \<open>node.json\<close> is gone; errors are dropped.\<close>

definition sweepOrphanNodePrefix ::
  "(destroy_step \<Rightarrow> step_result) \<Rightarrow> (string \<Rightarrow> bool) \<Rightarrow> string \<Rightarrow> string \<Rightarrow> teardown \<Rightarrow> teardown" where
  "sweepOrphanNodePrefix calls gone c n t =
     (let del = (\<lambda>g. deletePrefix g (nodePrefix c n) (td_bucket t))
      in if calls (DeleteNodeState n) = StepDone
         then t\<lparr>td_bucket := del (\<lambda>_. True), td_done := td_done t @ [DeleteNodeState n]\<rparr>
         else t\<lparr>td_bucket := del gone\<rparr>)"

section \<open>The command\<close>

record destroy_options =
  xo_yes :: bool
  xo_force :: bool
  xo_deleteData :: bool
  xo_evacuate :: bool
  xo_env :: "string option"
  xo_timeout :: "string option"

text \<open>\<open>dw_config\<close>: no file, a file that does not load, or the configuration.\<close>

record destroy_world =
  dw_rebalance :: rebalance_world
  dw_config :: "launch_pad_config option option"
  dw_confirm :: bool
  dw_calls :: "destroy_step \<Rightarrow> step_result"
  dw_gone :: "string \<Rightarrow> bool"
  dw_meanwhile :: "state_bucket \<Rightarrow> state_bucket"

record evacuate_run =
  er_project :: string
  er_drainNodes :: "string list"
  er_blocked :: bool

datatype destroy_outcome = AlreadyDestroyed "string list" | Destroyed "string list" "evacuate_run option"

abbreviation dw_cluster :: "destroy_world \<Rightarrow> string" where
  "dw_cluster w \<equiv> aws_clusterId (bw_aws (dw_rebalance w))"

definition parseEvacuateTimeout :: "string option \<Rightarrow> destroy_error + int option" where
  "parseEvacuateTimeout raw =
     (case raw of
        None \<Rightarrow> Inr None
      | Some t \<Rightarrow> (case parse_int10 t of None \<Rightarrow> Inl (BadTimeout t) | Some k \<Rightarrow> if k < 1 then Inl (BadTimeout t) else Inr (Some k)))"

definition evacuate_options :: "string option \<Rightarrow> string list \<Rightarrow> int option \<Rightarrow> rebalance_options" where
  "evacuate_options env drain timeout =
     \<lparr>ro_env = env, ro_drain = None, ro_drainNodes = Some drain, ro_dryRun = False, ro_yes = True, ro_wait = True, ro_timeout = timeout\<rparr>"

definition movable_names :: "launch_pad_config \<Rightarrow> string set" where
  "movable_names config = set (map sd_name (filter (\<lambda>d. sd_volumes d = []) (lc_service config)))"

text \<open>The evacuation before the gates; \<open>None\<close> outside means it does not return.\<close>

definition autoEvacuate ::
  "destroy_world \<Rightarrow> destroy_options \<Rightarrow> hosting \<Rightarrow> state_bucket
   \<Rightarrow> (state_bucket \<times> (destroy_error + evacuate_run option)) option" where
  "autoEvacuate w opts active s =
     (case dw_config w of
        None \<Rightarrow> Some (s, Inl EvacuateNoConfig)
      | Some loaded \<Rightarrow>
          if \<not> opt_all LABEL_REGEX (xo_env opts) then Some (s, Inl (EvacuateBadEnv (the (xo_env opts))))
          else (case loaded of
            None \<Rightarrow> Some (s, Inl EvacuateBadConfig)
          | Some config \<Rightarrow>
              (let owner = footprintOwner (lc_project config) (lc_component config) (xo_env opts);
                   drain = ea_drainNodes (assessEvacuation active owner (movable_names config))
               in if drain = [] then Some (s, Inr None)
                  else (case parseEvacuateTimeout (xo_timeout opts) of
                    Inl e \<Rightarrow> Some (s, Inl e)
                  | Inr timeout \<Rightarrow>
                      map_option (\<lambda>(s', r).
                          (s', case r of
                             Inl e \<Rightarrow> if evacuation_blocked e
                               then Inr (Some \<lparr>er_project = owner, er_drainNodes = drain, er_blocked = True\<rparr>)
                               else Inl (EvacuationFailed e)
                           | Inr _ \<Rightarrow> Inr (Some \<lparr>er_project = owner, er_drainNodes = drain, er_blocked = False\<rparr>)))
                        (runRebalance (dw_rebalance w) (evacuate_options (xo_env opts) drain timeout) config s)))))"

definition active_nodes :: "destroy_target list \<Rightarrow> node_entry list" where
  "active_nodes targets = List.map_filter dt_node targets"

definition hosted_by :: "destroy_target list \<Rightarrow> hosting" where
  "hosted_by targets = map (\<lambda>t. (dt_name t, dt_services t)) targets"

definition untouched :: "state_bucket \<Rightarrow> teardown" where
  "untouched s = \<lparr>td_bucket = s, td_done = [], td_warned = []\<rparr>"

definition teardown_all ::
  "destroy_world \<Rightarrow> destroy_target list \<Rightarrow> string list \<Rightarrow> state_bucket \<Rightarrow> teardown" where
  "teardown_all w active gone s =
     fold (sweepOrphanNodePrefix (dw_calls w) (dw_gone w) (dw_cluster w)) gone
       (fold (teardownNode (dw_calls w) (dw_gone w) (length active = 1)) (active_nodes active) (untouched s))"

definition evacuate_first ::
  "destroy_world \<Rightarrow> destroy_options \<Rightarrow> hosting \<Rightarrow> state_bucket \<Rightarrow> (state_bucket \<times> (destroy_error + evacuate_run option)) option" where
  "evacuate_first w opts hosts s =
     (if nodesThatWouldOrphan hosts \<noteq> [] \<and> xo_evacuate opts then autoEvacuate w opts hosts s else Some (s, Inr None))"

text \<open>The gates in the order of the code: data loss, orphans, the confirmation.\<close>

definition gate_refuses :: "destroy_world \<Rightarrow> destroy_options \<Rightarrow> hosting \<Rightarrow> destroy_error option" where
  "gate_refuses w opts hosts =
     (let volumes = volumeBearingTargets hosts; orphaning = nodesThatWouldOrphan hosts
      in if volumes \<noteq> [] \<and> \<not> xo_deleteData opts then Some (HoldsVolumes volumes)
         else if orphaning \<noteq> [] \<and> \<not> xo_force opts then Some (WouldOrphan orphaning)
         else if \<not> xo_yes opts \<and> \<not> dw_confirm w then Some DestroyAborted
         else None)"

definition destroy_active ::
  "destroy_world \<Rightarrow> destroy_options \<Rightarrow> destroy_target list \<Rightarrow> string list \<Rightarrow> state_bucket
   \<Rightarrow> (teardown \<times> (destroy_error + destroy_outcome)) option" where
  "destroy_active w opts active gone s =
     (case evacuate_first w opts (hosted_by active) s of
        None \<Rightarrow> None
      | Some (s1, Inl e) \<Rightarrow> Some (untouched s1, Inl e)
      | Some (s1, Inr evac) \<Rightarrow>
          (let hosts = (if evac = None then hosted_by active
                        else map (\<lambda>t. (dt_name t, listScheduledServices (dw_cluster w) (dt_name t) s1)) active)
           in case gate_refuses w opts hosts of
                Some e \<Rightarrow> Some (untouched s1, Inl e)
              | None \<Rightarrow> Some (teardown_all w active gone (dw_meanwhile w s1), Inr (Destroyed (map dt_name active) evac))))"

definition runDestroy ::
  "destroy_world \<Rightarrow> string list \<Rightarrow> destroy_options \<Rightarrow> state_bucket \<Rightarrow> (teardown \<times> (destroy_error + destroy_outcome)) option" where
  "runDestroy w args opts s =
     (case parseNodeNames args of
        Inl e \<Rightarrow> Some (untouched s, Inl e)
      | Inr names \<Rightarrow>
          (case load_targets (dw_cluster w) s names of
             Inl e \<Rightarrow> Some (untouched s, Inl e)
           | Inr targets \<Rightarrow>
               (let active = filter (\<lambda>t. dt_node t \<noteq> None) targets;
                    gone = map dt_name (filter (\<lambda>t. dt_node t = None) targets)
                in if active = [] then Some (teardown_all w [] gone s, Inr (AlreadyDestroyed names))
                   else destroy_active w opts active gone s)))"

text \<open>\<open>node prune\<close>: the prefixes without a \<open>node.json\<close>, swept after a confirmation.\<close>

definition runPrune :: "destroy_world \<Rightarrow> string list \<Rightarrow> bool \<Rightarrow> state_bucket \<Rightarrow> teardown \<times> (destroy_error + string list)" where
  "runPrune w ids yes s =
     (let orphans = filter (\<lambda>n. getJson s (nodeRegistryKey (dw_cluster w) n) = None) ids
      in if orphans = [] then (untouched s, Inr [])
         else if \<not> yes \<and> \<not> dw_confirm w then (untouched s, Inl DestroyAborted)
         else (fold (sweepOrphanNodePrefix (dw_calls w) (dw_gone w) (dw_cluster w)) orphans (untouched (dw_meanwhile w s)), Inr orphans))"

section \<open>The keys of a node\<close>

lemma no_slash_prefix: "n @ ''/'' @ s = m @ ''/'' @ t \<Longrightarrow> CHR ''/'' \<notin> set n \<Longrightarrow> CHR ''/'' \<notin> set m \<Longrightarrow> n = m"
proof (induction n arbitrary: m)
  case Nil
  then show ?case by (cases m) auto
next
  case (Cons x n)
  then show ?case by (cases m) auto
qed

lemma node_prefix_own: "starts_with (nodePrefix c m @ s) (nodePrefix c n) \<longleftrightarrow> n = m"
  if "CHR ''/'' \<notin> set n" "CHR ''/'' \<notin> set m"
proof
  assume "starts_with (nodePrefix c m @ s) (nodePrefix c n)"
  then obtain t where "nodePrefix c m @ s = nodePrefix c n @ t" by (auto simp: starts_with_iff)
  then show "n = m" using no_slash_prefix [of m s n t] that by (simp add: nodePrefix_def)
qed simp

lemma node_prefix_cluster: "\<not> starts_with (clusterConfigKey d) (nodePrefix c n)" if "CHR ''/'' \<notin> set c" "CHR ''/'' \<notin> set d"
proof
  assume "starts_with (clusterConfigKey d) (nodePrefix c n)"
  then obtain t where t: "clusterConfigKey d = nodePrefix c n @ t" by (auto simp: starts_with_iff)
  show False
  proof (cases "c = DEFAULT_CLUSTER")
    case True
    with t show False by (simp add: clusterConfigKey_def nodePrefix_def clusterNodesPrefix_def CLUSTERS_PREFIX_def NODES_PREFIX_def)
  next
    case False
    with t have e: "d @ ''/cluster.json'' = c @ ''/nodes/'' @ n @ ''/'' @ t"
      by (simp add: clusterConfigKey_def nodePrefix_def clusterNodesPrefix_def CLUSTERS_PREFIX_def NODES_PREFIX_def)
    then have "d = c" using no_slash_prefix [of d "''cluster.json''" c "''nodes/'' @ n @ ''/'' @ t"] that by simp
    with e show False by simp
  qed
qed

lemma registry_prefix [simp]: "starts_with (nodeRegistryKey c n) (nodePrefix c n)" "starts_with (desiredKey c n) (nodePrefix c n)"
  by (simp_all add: nodeRegistryKey_def desiredKey_def)

section \<open>One teardown\<close>

text \<open>A step that is the program's own and fails: the edge pointer of an unreadable cluster document.\<close>

definition step_works :: "(destroy_step \<Rightarrow> step_result) \<Rightarrow> node_entry \<Rightarrow> state_bucket \<Rightarrow> destroy_step \<Rightarrow> bool" where
  "step_works calls node s st \<longleftrightarrow> calls st = StepDone \<and> step_effect node st s \<noteq> None"

definition step_fails :: "(destroy_step \<Rightarrow> step_result) \<Rightarrow> node_entry \<Rightarrow> state_bucket \<Rightarrow> destroy_step \<Rightarrow> bool" where
  "step_fails calls node s st \<longleftrightarrow> calls st = StepFailed \<or> calls st = StepDone \<and> step_effect node st s = None"

lemma step_effect_None: "step_effect node st s = None \<longleftrightarrow>
    (\<exists>n e. st = ClearDefaultEdge n \<and> getClusterConfig (ne_clusterId node) s = Inl e)"
  by (auto simp: step_effect_def Let_def split: destroy_step.splits sum.splits option.splits)

text \<open>The steps before the last two: they do not touch the cluster document.\<close>

definition steps_before :: "node_entry \<Rightarrow> destroy_step list" where
  "steps_before node = takeWhile (\<lambda>st. st \<noteq> ClearDefaultEdge (ne_nodeId node) \<and> st \<noteq> DeleteNodeState (ne_nodeId node)) (teardown_steps node)"

lemma teardown_steps_split:
  "teardown_steps node = steps_before node
     @ (if ne_clusterId node \<noteq> DEFAULT_CLUSTER then [ClearDefaultEdge (ne_nodeId node)] else []) @ [DeleteNodeState (ne_nodeId node)]"
  by (simp add: teardown_steps_def steps_before_def Let_def)

lemma steps_before_quiet:
  "st \<in> set (steps_before node) \<Longrightarrow> (\<forall>n. st \<noteq> ClearDefaultEdge n) \<and> (\<forall>n. st \<noteq> DeleteNodeState n) \<and> (\<forall>n. st = Cordon n \<longrightarrow> n = ne_nodeId node)"
  by (auto simp: teardown_steps_def steps_before_def Let_def split: if_splits)

text \<open>What these steps leave: at most the entry is marked.\<close>

definition marked :: "node_entry \<Rightarrow> state_bucket \<Rightarrow> state_bucket" where
  "marked node s = s(nodeRegistryKey (ne_clusterId node) (ne_nodeId node) := Some (NodeJson (node\<lparr>ne_state := Terminating\<rparr>)))"

lemma quiet_step:
  assumes "\<forall>n. st \<noteq> ClearDefaultEdge n" "\<forall>n. st \<noteq> DeleteNodeState n" "\<forall>n. st = Cordon n \<longrightarrow> n = ne_nodeId node"
  shows "tryDestroyStep calls gone report node st t =
    \<lparr>td_bucket = (if st = Cordon (ne_nodeId node) \<and> calls st = StepDone then marked node (td_bucket t) else td_bucket t),
     td_done = td_done t @ (if calls st = StepDone then [st] else []),
     td_warned = td_warned t @ (if report \<and> calls st = StepFailed then [st] else [])\<rparr>"
proof -
  have e: "step_effect node st s = Some (if st = Cordon (ne_nodeId node) then marked node s else s)" for s
    using assms by (cases st) (auto simp: step_effect_def marked_def Let_def)
  have f: "failed_effect gone node st s = s" for s
    using assms by (cases st) (auto simp: failed_effect_def)
  show ?thesis
    by (cases "calls st"; cases t) (simp_all add: tryDestroyStep_def e f warn_step_def)
qed

lemma quiet_steps:
  assumes "\<forall>st \<in> set sts. (\<forall>n. st \<noteq> ClearDefaultEdge n) \<and> (\<forall>n. st \<noteq> DeleteNodeState n) \<and> (\<forall>n. st = Cordon n \<longrightarrow> n = ne_nodeId node)"
  shows "fold (tryDestroyStep calls gone report node) sts t =
    \<lparr>td_bucket = (if Cordon (ne_nodeId node) \<in> set sts \<and> calls (Cordon (ne_nodeId node)) = StepDone then marked node (td_bucket t) else td_bucket t),
     td_done = td_done t @ filter (\<lambda>st. calls st = StepDone) sts,
     td_warned = td_warned t @ (if report then filter (\<lambda>st. calls st = StepFailed) sts else [])\<rparr>"
  using assms
proof (induction sts arbitrary: t)
  case (Cons st sts)
  have h: "\<forall>n. st \<noteq> ClearDefaultEdge n" "\<forall>n. st \<noteq> DeleteNodeState n" "\<forall>n. st = Cordon n \<longrightarrow> n = ne_nodeId node"
    using Cons.prems by simp_all
  have twice: "marked node (marked node s) = marked node s" for s by (simp add: marked_def)
  have IH: "fold (tryDestroyStep calls gone report node) sts t' =
    \<lparr>td_bucket = (if Cordon (ne_nodeId node) \<in> set sts \<and> calls (Cordon (ne_nodeId node)) = StepDone then marked node (td_bucket t') else td_bucket t'),
     td_done = td_done t' @ filter (\<lambda>st. calls st = StepDone) sts,
     td_warned = td_warned t' @ (if report then filter (\<lambda>st. calls st = StepFailed) sts else [])\<rparr>" for t'
    by (rule Cons.IH) (use Cons.prems in simp)
  have "fold (tryDestroyStep calls gone report node) (st # sts) t
      = fold (tryDestroyStep calls gone report node) sts (tryDestroyStep calls gone report node st t)" by simp
  also have "\<dots> = \<lparr>td_bucket = (if Cordon (ne_nodeId node) \<in> set (st # sts) \<and> calls (Cordon (ne_nodeId node)) = StepDone
        then marked node (td_bucket t) else td_bucket t),
     td_done = td_done t @ filter (\<lambda>st. calls st = StepDone) (st # sts),
     td_warned = td_warned t @ (if report then filter (\<lambda>st. calls st = StepFailed) (st # sts) else [])\<rparr>"
    unfolding quiet_step [OF h] IH by (cases "st = Cordon (ne_nodeId node)"; cases "calls st") (simp_all add: twice)
  finally show ?case .
qed simp

definition edge_cleared :: "node_entry \<Rightarrow> state_bucket \<Rightarrow> state_bucket" where
  "edge_cleared node s =
     (case getClusterConfig (ne_clusterId node) s of
        Inr (Some cc) \<Rightarrow> if cc_defaultEdge cc = Some (ne_nodeId node) then putClusterConfig (cc\<lparr>cc_defaultEdge := None\<rparr>) s else s
      | _ \<Rightarrow> s)"

definition left_after :: "(destroy_step \<Rightarrow> step_result) \<Rightarrow> (string \<Rightarrow> bool) \<Rightarrow> node_entry \<Rightarrow> state_bucket \<Rightarrow> state_bucket" where
  "left_after calls gone node s =
     (let n = ne_nodeId node; c = ne_clusterId node;
          s1 = (if ne_provisioning node = External \<and> calls (Cordon n) = StepDone then marked node s else s);
          s2 = (if c \<noteq> DEFAULT_CLUSTER \<and> calls (ClearDefaultEdge n) = StepDone then edge_cleared node s1 else s1)
      in case calls (DeleteNodeState n) of
           StepDone \<Rightarrow> deletePrefix (\<lambda>_. True) (nodePrefix c n) s2
         | StepGone \<Rightarrow> s2
         | StepFailed \<Rightarrow> deletePrefix gone (nodePrefix c n) s2)"

lemma marked_cluster: "getClusterConfig (ne_clusterId node) (marked node s) = getClusterConfig (ne_clusterId node) s"
  if "CHR ''/'' \<notin> set (ne_clusterId node)"
proof -
  have "clusterConfigKey (ne_clusterId node) \<noteq> nodeRegistryKey (ne_clusterId node) (ne_nodeId node)"
    using node_prefix_cluster [OF that that] registry_prefix(1) by metis
  then show ?thesis by (simp add: getClusterConfig_def getJson_def marked_def)
qed

lemma teardown_exact:
  assumes "CHR ''/'' \<notin> set (ne_clusterId node)"
  shows "teardownNode calls gone report node t =
    \<lparr>td_bucket = left_after calls gone node (td_bucket t),
     td_done = td_done t @ filter (step_works calls node (td_bucket t)) (teardown_steps node),
     td_warned = td_warned t @ (if report then filter (step_fails calls node (td_bucket t)) (teardown_steps node) else [])\<rparr>"
proof -
  let ?n = "ne_nodeId node" and ?c = "ne_clusterId node" and ?attempt = "tryDestroyStep calls gone report node"
  have pre: "\<forall>st \<in> set (steps_before node). (\<forall>n. st \<noteq> ClearDefaultEdge n) \<and> (\<forall>n. st \<noteq> DeleteNodeState n) \<and> (\<forall>n. st = Cordon n \<longrightarrow> n = ?n)"
    using steps_before_quiet by blast
  have e: "(step_effect node st s = None) = False" if "st \<in> set (steps_before node)" for st s
    using pre that by (auto simp: step_effect_None)
  have works: "filter (step_works calls node s) (steps_before node) = filter (\<lambda>st. calls st = StepDone) (steps_before node)"
    "filter (step_fails calls node s) (steps_before node) = filter (\<lambda>st. calls st = StepFailed) (steps_before node)" for s
    by (intro filter_cong refl; simp add: step_works_def step_fails_def e)+
  have cordon: "Cordon ?n \<in> set (steps_before node) \<longleftrightarrow> ne_provisioning node = External"
    by (auto simp: teardown_steps_def steps_before_def Let_def split: if_splits)
  define t1 where "t1 = fold ?attempt (steps_before node) t"
  have t1: "td_bucket t1 = (if ne_provisioning node = External \<and> calls (Cordon ?n) = StepDone then marked node (td_bucket t) else td_bucket t)"
    "td_done t1 = td_done t @ filter (step_works calls node (td_bucket t)) (steps_before node)"
    "td_warned t1 = td_warned t @ (if report then filter (step_fails calls node (td_bucket t)) (steps_before node) else [])"
    unfolding t1_def quiet_steps [OF pre] works cordon by simp_all
  have cfg: "getClusterConfig ?c (td_bucket t1) = getClusterConfig ?c (td_bucket t)"
    using marked_cluster [OF assms] t1(1) by simp
  define t2 where "t2 = (if ?c \<noteq> DEFAULT_CLUSTER then ?attempt (ClearDefaultEdge ?n) t1 else t1)"
  have t2: "td_bucket t2 = (if ?c \<noteq> DEFAULT_CLUSTER \<and> calls (ClearDefaultEdge ?n) = StepDone then edge_cleared node (td_bucket t1) else td_bucket t1)"
    "td_done t2 = td_done t1 @ (if ?c \<noteq> DEFAULT_CLUSTER then filter (step_works calls node (td_bucket t)) [ClearDefaultEdge ?n] else [])"
    "td_warned t2 = td_warned t1 @ (if report \<and> ?c \<noteq> DEFAULT_CLUSTER then filter (step_fails calls node (td_bucket t)) [ClearDefaultEdge ?n] else [])"
    using cfg
    by (cases "calls (ClearDefaultEdge ?n)"; cases "getClusterConfig ?c (td_bucket t)";
        simp add: t2_def tryDestroyStep_def step_effect_def failed_effect_def warn_step_def edge_cleared_def step_works_def step_fails_def Let_def
          split: option.splits)+
  have "teardownNode calls gone report node t = ?attempt (DeleteNodeState ?n) t2"
    unfolding teardownNode_def teardown_steps_split t2_def t1_def by simp
  then show ?thesis
    unfolding left_after_def Let_def t1(1) [symmetric] t2(1) [symmetric] teardown_steps_split filter_append
    by (cases "calls (DeleteNodeState ?n)")
      (simp_all add: tryDestroyStep_def step_effect_def failed_effect_def warn_step_def step_works_def [of _ _ _ "DeleteNodeState _"]
        step_fails_def [of _ _ _ "DeleteNodeState _"] t1 t2 Let_def)
qed

section \<open>The gates\<close>

lemma load_targets_all:
  assumes "load_targets c s ns = Inr ts"
  shows "map dt_name ts = ns
    \<and> (\<forall>t \<in> set ts. case dt_node t of
          None \<Rightarrow> s (nodeRegistryKey c (dt_name t)) = None
        | Some e \<Rightarrow> (\<exists>raw. s (nodeRegistryKey c (dt_name t)) = Some raw \<and> parseNodeRegistryEntry raw = Some e)
            \<and> dt_services t = listScheduledServices c (dt_name t) s)"
  using assms
proof (induction ns arbitrary: ts)
  case (Cons n ns)
  obtain t ts' where t: "loadDestroyTarget c s n = Inr t" "load_targets c s ns = Inr ts'" "ts = t # ts'"
    using Cons.prems by (auto simp: res_bind_eq_Inr)
  from t(1) have "dt_name t = n \<and> (case dt_node t of
          None \<Rightarrow> s (nodeRegistryKey c n) = None
        | Some e \<Rightarrow> (\<exists>raw. s (nodeRegistryKey c n) = Some raw \<and> parseNodeRegistryEntry raw = Some e)
            \<and> dt_services t = listScheduledServices c n s)"
    by (auto simp: loadDestroyTarget_def getJson_def split: option.splits)
  with Cons.IH [OF t(2)] t(3) show ?case by auto
qed simp

lemma loaded_active:
  assumes "load_targets c s ns = Inr ts" "x \<in> set ts" "dt_node x \<noteq> None"
  shows "dt_name x \<in> set ns" "s (nodeRegistryKey c (dt_name x)) \<noteq> None" "dt_services x = listScheduledServices c (dt_name x) s"
proof -
  obtain e where "dt_node x = Some e" using assms(3) by blast
  with load_targets_all [OF assms(1)] assms(2) show "s (nodeRegistryKey c (dt_name x)) \<noteq> None"
    "dt_services x = listScheduledServices c (dt_name x) s" "dt_name x \<in> set ns" by fastforce+
qed

lemma parse_node_names: "parseNodeNames args = Inr names \<Longrightarrow> distinct names \<and> list_all NODE_ID_REGEX names"
proof -
  assume "parseNodeNames args = Inr names"
  then have "distinct names" "find (\<lambda>n. nodeIdError n \<noteq> None) names = None"
    by (auto simp: parseNodeNames_def Let_def split: if_splits option.splits)
  then show ?thesis by (auto simp: find_None_iff list_all_iff nodeIdError_def split: if_splits)
qed

text \<open>What the gates let pass, read in the state \<open>s\<close>.\<close>

definition gates_open :: "destroy_world \<Rightarrow> destroy_options \<Rightarrow> state_bucket \<Rightarrow> string \<Rightarrow> bool" where
  "gates_open w opts s n \<longleftrightarrow>
     (xo_yes opts \<or> dw_confirm w)
     \<and> (if xo_force opts then True else listScheduledServices (dw_cluster w) n s = [])
     \<and> (if xo_deleteData opts then True else list_all (\<lambda>x. \<not> sv_hasVolume x) (listScheduledServices (dw_cluster w) n s))"

lemma auto_evacuate_None: "autoEvacuate w opts hosts s = Some (s1, Inr None) \<Longrightarrow> s1 = s"
proof -
  assume run: "autoEvacuate w opts hosts s = Some (s1, Inr None)"
  then obtain config where config: "dw_config w = Some (Some config)" "opt_all LABEL_REGEX (xo_env opts)"
    by (auto simp: autoEvacuate_def split: option.splits if_splits)
  let ?owner = "footprintOwner (lc_project config) (lc_component config) (xo_env opts)"
  let ?drain = "ea_drainNodes (assessEvacuation hosts ?owner (movable_names config))"
  show "s1 = s"
  proof (cases "?drain = []")
    case False
    obtain timeout where "parseEvacuateTimeout (xo_timeout opts) = Inr timeout"
      using run config False by (cases "parseEvacuateTimeout (xo_timeout opts)") (simp_all add: autoEvacuate_def Let_def)
    then obtain s' r where "runRebalance (dw_rebalance w) (evacuate_options (xo_env opts) ?drain timeout) config s = Some (s', r)"
        "(case r of Inl e \<Rightarrow> if evacuation_blocked e then Inr (Some \<lparr>er_project = ?owner, er_drainNodes = ?drain, er_blocked = True\<rparr>)
            else Inl (EvacuationFailed e)
          | Inr _ \<Rightarrow> Inr (Some \<lparr>er_project = ?owner, er_drainNodes = ?drain, er_blocked = False\<rparr>)) = (Inr None :: destroy_error + evacuate_run option)"
      using run config False by (auto simp: autoEvacuate_def Let_def)
    then show ?thesis by (cases r) (simp_all split: if_splits)
  qed (use run config in \<open>simp add: autoEvacuate_def Let_def\<close>)
qed

lemma evacuate_first_None: "evacuate_first w opts hosts s = Some (s1, Inr None) \<Longrightarrow> s1 = s"
  using auto_evacuate_None by (auto simp: evacuate_first_def split: if_splits)

lemma volumes_Nil: "volumeBearingTargets hosts = [] \<longleftrightarrow> (\<forall>t \<in> set hosts. list_all (\<lambda>x. \<not> sv_hasVolume x) (snd t))"
  by (auto simp: volumeBearingTargets_def filter_empty_conv list_all_iff)

lemma orphans_Nil: "nodesThatWouldOrphan hosts = [] \<longleftrightarrow> (\<forall>t \<in> set hosts. snd t = [])"
  by (simp add: nodesThatWouldOrphan_def filter_empty_conv)

text \<open>The run of the command up to the teardown.\<close>

definition destroy_passed ::
  "destroy_world \<Rightarrow> string list \<Rightarrow> destroy_options \<Rightarrow> state_bucket \<Rightarrow> destroy_target list \<Rightarrow> state_bucket \<Rightarrow> evacuate_run option \<Rightarrow> bool" where
  "destroy_passed w args opts s targets s1 ev \<longleftrightarrow>
     (\<exists>names. parseNodeNames args = Inr names \<and> load_targets (dw_cluster w) s names = Inr targets)
     \<and> evacuate_first w opts (hosted_by (filter (\<lambda>t. dt_node t \<noteq> None) targets)) s = Some (s1, Inr ev)
     \<and> (\<forall>t \<in> set targets. dt_node t \<noteq> None \<longrightarrow> gates_open w opts s1 (dt_name t))"

lemma gate_refuses_None:
  "gate_refuses w opts hosts = None \<longleftrightarrow> (xo_yes opts \<or> dw_confirm w)
     \<and> (\<forall>x \<in> set hosts. (if xo_force opts then True else snd x = [])
          \<and> (if xo_deleteData opts then True else list_all (\<lambda>x. \<not> sv_hasVolume x) (snd x)))"
  by (auto simp: gate_refuses_def Let_def volumes_Nil orphans_Nil)

lemma destroyed_cases:
  assumes "runDestroy w args opts s = Some (t, Inr (Destroyed torn ev))"
  obtains targets s1 where "destroy_passed w args opts s targets s1 ev"
    and "torn = map dt_name (filter (\<lambda>t. dt_node t \<noteq> None) targets)"
    and "t = teardown_all w (filter (\<lambda>t. dt_node t \<noteq> None) targets) (map dt_name (filter (\<lambda>t. dt_node t = None) targets)) (dw_meanwhile w s1)"
proof -
  let ?c = "dw_cluster w"
  note run = assms [unfolded runDestroy_def]
  obtain names where names: "parseNodeNames args = Inr names" using run by (cases "parseNodeNames args") simp_all
  obtain targets where targets: "load_targets ?c s names = Inr targets" using run names by (cases "load_targets ?c s names") simp_all
  define active where "active = filter (\<lambda>t. dt_node t \<noteq> None) targets"
  define gone where "gone = map dt_name (filter (\<lambda>t. dt_node t = None) targets)"
  have act: "destroy_active w opts active gone s = Some (t, Inr (Destroyed torn ev))"
    using run names targets unfolding active_def gone_def by (simp add: Let_def split: if_splits)
  obtain s1 r where r: "evacuate_first w opts (hosted_by active) s = Some (s1, r)"
    using act by (cases "evacuate_first w opts (hosted_by active) s") (auto simp: destroy_active_def)
  obtain ev' where ev': "r = Inr ev'" using act r by (cases r) (simp_all add: destroy_active_def)
  define hosts where "hosts = (if ev' = None then hosted_by active else map (\<lambda>t. (dt_name t, listScheduledServices ?c (dt_name t) s1)) active)"
  have gates: "gate_refuses w opts hosts = None" and out: "torn = map dt_name active" "ev = ev'" "t = teardown_all w active gone (dw_meanwhile w s1)"
    using act unfolding destroy_active_def r ev' by (simp_all add: Let_def hosts_def [symmetric] split: option.splits)
  have same: "s1 = s" if "ev' = None" using r that ev' by (simp add: evacuate_first_None)
  have "(dt_name x, listScheduledServices ?c (dt_name x) s1) \<in> set hosts" if "x \<in> set active" for x
    using that same bspec [OF conjunct2 [OF load_targets_all [OF targets]], of x] unfolding hosts_def hosted_by_def active_def
    by (auto simp: image_iff)
  then have "gates_open w opts s1 (dt_name x)" if "x \<in> set targets" "dt_node x \<noteq> None" for x
    using that gates unfolding active_def gates_open_def gate_refuses_None by fastforce
  then show ?thesis
    by (intro that [of targets s1]) (use names targets r ev' out in \<open>auto simp: destroy_passed_def active_def gone_def\<close>)
qed

text \<open>A command that stops before the teardown has made no call and left the bucket to the evacuation alone.\<close>

lemma destroy_stopped:
  assumes "runDestroy w args opts s = Some (t, Inl e)"
  shows "\<exists>s1. t = untouched s1 \<and> (s1 = s \<or> xo_evacuate opts)"
proof -
  have "s1 = s \<or> xo_evacuate opts" if "evacuate_first w opts hosts s = Some (s1, r)" for hosts s1 r
    using that by (auto simp: evacuate_first_def split: if_splits)
  with assms show ?thesis
    unfolding runDestroy_def destroy_active_def Let_def
    by (auto split: if_splits sum.splits option.splits prod.splits)
qed

section \<open>The evacuation comes first\<close>

lemma evacuated_cases:
  assumes "evacuate_first w opts hosts s = Some (s1, Inr (Some ev))" "\<not> er_blocked ev"
    and config: "dw_config w = Some (Some config)"
  obtains timeout out where "runRebalance (dw_rebalance w) (evacuate_options (xo_env opts) (er_drainNodes ev) timeout) config s = Some (s1, Inr out)"
    and "er_drainNodes ev = ea_drainNodes (assessEvacuation hosts (footprintOwner (lc_project config) (lc_component config) (xo_env opts)) (movable_names config))"
    and "er_drainNodes ev \<noteq> []"
proof -
  let ?owner = "footprintOwner (lc_project config) (lc_component config) (xo_env opts)"
  let ?drain = "ea_drainNodes (assessEvacuation hosts ?owner (movable_names config))"
  have run: "autoEvacuate w opts hosts s = Some (s1, Inr (Some ev))" using assms(1) by (simp add: evacuate_first_def split: if_splits)
  have env: "opt_all LABEL_REGEX (xo_env opts)" and ne: "?drain \<noteq> []"
    using run config by (simp_all add: autoEvacuate_def Let_def split: if_splits)
  obtain timeout where t: "parseEvacuateTimeout (xo_timeout opts) = Inr timeout"
    using run config env ne by (cases "parseEvacuateTimeout (xo_timeout opts)") (simp_all add: autoEvacuate_def Let_def)
  then obtain s' r where r: "runRebalance (dw_rebalance w) (evacuate_options (xo_env opts) ?drain timeout) config s = Some (s', r)"
      "s' = s1" "(case r of Inl e \<Rightarrow> if evacuation_blocked e then Inr (Some \<lparr>er_project = ?owner, er_drainNodes = ?drain, er_blocked = True\<rparr>)
          else Inl (EvacuationFailed e)
        | Inr _ \<Rightarrow> Inr (Some \<lparr>er_project = ?owner, er_drainNodes = ?drain, er_blocked = False\<rparr>)) = (Inr (Some ev) :: destroy_error + evacuate_run option)"
    using run config env ne by (auto simp: autoEvacuate_def Let_def)
  obtain out where out: "r = Inr out" "er_drainNodes ev = ?drain" using r(3) assms(2) by (cases r) (auto split: if_splits)
  show ?thesis by (rule that [of timeout out]) (use r out ne in simp_all)
qed

lemma sent_by_Nil: "sent_by rs n = [] \<longleftrightarrow> (\<forall>(name, r) \<in> set rs. \<forall>q \<in> set (rs_placements r). pl_nodeId q \<noteq> n)"
  unfolding sent_by_def concat_eq_Nil_conv by (force simp: filter_empty_conv split: prod.splits)

lemma scheduled_none:
  assumes "listScheduledServices c n s' = []" "node_holds c owner n s s' want"
  shows "want = []"
proof -
  obtain d where d: "s' (desiredKey c n) = Some (DesiredJson d)" "map (\<lambda>x. (sc_service x, sc_replicas x)) (owned_by owner (ds_services d)) = want"
    using assms(2) by (auto simp: node_holds_def)
  then have "ds_services d = []"
    using assms(1) by (auto simp: listScheduledServices_def getJson_def scheduledServicesFromDesired_def parseDesiredState_def split: if_splits)
  with d(2) show ?thesis by (simp add: owned_by_def)
qed

lemma drained_is_scheduled:
  assumes "n \<in> set (ea_drainNodes (assessEvacuation (hosted_by ts) owner names))"
  shows "\<exists>t \<in> set ts. dt_name t = n \<and> dt_services t \<noteq> []"
  using assms by (auto simp: assessEvacuation_def hosted_by_def list_ex_iff)

text \<open>Nothing runs on a node that is torn down, and everything runs somewhere else.\<close>

definition safely_elsewhere ::
  "destroy_world \<Rightarrow> destroy_options \<Rightarrow> launch_pad_config \<Rightarrow> string list \<Rightarrow> string list \<Rightarrow> string list \<Rightarrow> state_bucket \<Rightarrow> bool" where
  "safely_elsewhere w opts config ids drain torn s \<longleftrightarrow>
     (\<exists>s1 timeout cfg p. plan_rebalance (dw_rebalance w) (evacuate_options (xo_env opts) drain timeout) config cfg s = Inr p
        \<and> moved_as_planned (dw_rebalance w) (evacuate_options (xo_env opts) drain timeout) config p ids s s1
        \<and> (\<exists>i. \<forall>t \<in> set (rebalance_targets (footprintOwner (lc_project config) (lc_component config) (xo_env opts))
              (lc_service config) (rp_images p) (rp_resolved p)). converged (bw_statuses (dw_rebalance w) i (wt_nodeId t)) t)
        \<and> (\<forall>n \<in> set torn. listScheduledServices (dw_cluster w) n s1 = [] \<and> sent_by (rp_resolved p) n = []))"

lemma evacuates_first:
  assumes run: "runDestroy w args opts s = Some (t, Inr (Destroyed torn (Some ev)))" and free: "\<not> er_blocked ev" "\<not> xo_force opts"
    and config: "dw_config w = Some (Some config)" "accepted_config now config"
    and alone: "bw_interfere (dw_rebalance w) = (\<lambda>_ _ t. t)"
    and ids: "bw_ids (dw_rebalance w) = (\<lambda>_. ids)" "distinct ids" "\<forall>n. n \<in> set ids \<longleftrightarrow> s (nodeRegistryKey (dw_cluster w) n) \<noteq> None"
  shows "safely_elsewhere w opts config ids (er_drainNodes ev) torn s"
proof -
  obtain targets s1 where passed: "destroy_passed w args opts s targets s1 (Some ev)"
    and torn: "torn = map dt_name (filter (\<lambda>t. dt_node t \<noteq> None) targets)"
    by (rule destroyed_cases [OF run])
  obtain names where load: "load_targets (dw_cluster w) s names = Inr targets" using passed by (auto simp: destroy_passed_def)
  have ev: "evacuate_first w opts (hosted_by (filter (\<lambda>t. dt_node t \<noteq> None) targets)) s = Some (s1, Inr (Some ev))"
    using passed by (simp add: destroy_passed_def)
  have none: "listScheduledServices (dw_cluster w) n s1 = []" if "n \<in> set torn" for n
    using passed that free(2) unfolding torn destroy_passed_def gates_open_def by auto
  obtain timeout out where reb: "runRebalance (dw_rebalance w) (evacuate_options (xo_env opts) (er_drainNodes ev) timeout) config s = Some (s1, Inr out)"
    and drain: "er_drainNodes ev = ea_drainNodes (assessEvacuation (hosted_by (filter (\<lambda>t. dt_node t \<noteq> None) targets))
       (footprintOwner (lc_project config) (lc_component config) (xo_env opts)) (movable_names config))" "er_drainNodes ev \<noteq> []"
    by (rule evacuated_cases [OF ev free(1) config(1)])
  have "out = Rebalanced"
  proof (rule ccontr)
    assume "out \<noteq> Rebalanced"
    then have "s1 = s" by (intro rebalance_untouched [OF reb]) simp_all
    moreover obtain n where "n \<in> set (er_drainNodes ev)" using drain(2) by (cases "er_drainNodes ev") auto
    from drained_is_scheduled [OF this [unfolded drain(1)]]
    obtain x where x: "x \<in> set targets" "dt_node x \<noteq> None" "dt_name x = n" "dt_services x \<noteq> []" by fastforce
    then have "dt_services x = listScheduledServices (dw_cluster w) n s"
      using loaded_active(3) [OF load] by simp
    moreover have "n \<in> set torn" using x unfolding torn by auto
    ultimately show False using none x(4) by simp
  qed
  with reb have reb: "runRebalance (dw_rebalance w) (evacuate_options (xo_env opts) (er_drainNodes ev) timeout) config s = Some (s1, Inr Rebalanced)" by simp
  have known: "\<forall>n \<in> set ids. s (nodeRegistryKey (dw_cluster w) n) \<noteq> None" using ids(3) by blast
  obtain cfg p where plan: "plan_rebalance (dw_rebalance w) (evacuate_options (xo_env opts) (er_drainNodes ev) timeout) config cfg s = Inr p"
    and moved: "moved_as_planned (dw_rebalance w) (evacuate_options (xo_env opts) (er_drainNodes ev) timeout) config p ids s s1"
    using rebalance_moves [OF config(2) alone ids(1,2) known reb] by blast
  have "sent_by (rp_resolved p) n = []" if n: "n \<in> set torn" for n
  proof -
    have "s (nodeRegistryKey (dw_cluster w) n) \<noteq> None"
      using n load_targets_all [OF load] unfolding torn by (auto split: option.splits)
    then have "n \<in> set ids" using ids(3) by blast
    then show ?thesis using moved none [OF n] scheduled_none unfolding moved_as_planned_def Let_def by blast
  qed
  moreover have "\<exists>i. \<forall>t \<in> set (rebalance_targets (footprintOwner (lc_project config) (lc_component config) (xo_env opts))
      (lc_service config) (rp_images p) (rp_resolved p)). converged (bw_statuses (dw_rebalance w) i (wt_nodeId t)) t"
    using moved by (simp add: moved_as_planned_def Let_def evacuate_options_def)
  ultimately show ?thesis using plan moved none unfolding safely_elsewhere_def by blast
qed

text \<open>
  C21. A node is torn down only after every gate. When \<open>node destroy\<close> destroys nodes, each of them was named, was
  registered, and in the state the gates read (after the evacuation, if one ran) carried no service unless --force
  and no persistent volume unless --delete-data, and the command was confirmed; a document that does not parse
  counts as a volume. A command that stops earlier has made no call, and without --evacuate it changed nothing.
\<close>

theorem destroy_gated:
  assumes "runDestroy w args opts s = Some (t, r)"
  shows "case r of
      Inl e \<Rightarrow> \<exists>s1. t = untouched s1 \<and> (s1 = s \<or> xo_evacuate opts)
    | Inr (AlreadyDestroyed names) \<Rightarrow> list_all (\<lambda>n. s (nodeRegistryKey (dw_cluster w) n) = None) names
    | Inr (Destroyed torn ev) \<Rightarrow>
        \<exists>names hosts s1. parseNodeNames args = Inr names \<and> evacuate_first w opts hosts s = Some (s1, Inr ev)
          \<and> list_all (\<lambda>n. n \<in> set names \<and> s (nodeRegistryKey (dw_cluster w) n) \<noteq> None \<and> gates_open w opts s1 n) torn"
proof (cases r)
  case (Inl e)
  with destroy_stopped assms show ?thesis by simp
next
  case (Inr out)
  show ?thesis
  proof (cases out)
    case (AlreadyDestroyed names)
    have "destroy_active w opts active gone s \<noteq> Some (t, Inr (AlreadyDestroyed names))" for active gone
      by (auto simp: destroy_active_def Let_def split: option.splits sum.splits prod.splits)
    then obtain targets where load: "load_targets (dw_cluster w) s names = Inr targets" "filter (\<lambda>t. dt_node t \<noteq> None) targets = []"
      using assms unfolding Inr AlreadyDestroyed runDestroy_def Let_def by (auto split: sum.splits if_splits)
    have "\<forall>t \<in> set targets. s (nodeRegistryKey (dw_cluster w) (dt_name t)) = None" "names = map dt_name targets"
      using load_targets_all [OF load(1)] load(2) by (auto simp: filter_empty_conv)
    then show ?thesis by (simp add: Inr AlreadyDestroyed list_all_iff)
  next
    case (Destroyed torn ev)
    obtain targets s1 where p: "destroy_passed w args opts s targets s1 ev"
      and torn: "torn = map dt_name (filter (\<lambda>t. dt_node t \<noteq> None) targets)"
      by (rule destroyed_cases [OF assms [unfolded Inr Destroyed]])
    obtain names where names: "parseNodeNames args = Inr names" "load_targets (dw_cluster w) s names = Inr targets"
      using p by (auto simp: destroy_passed_def)
    have "n \<in> set names \<and> s (nodeRegistryKey (dw_cluster w) n) \<noteq> None \<and> gates_open w opts s1 n" if n: "n \<in> set torn" for n
    proof -
      obtain x where x: "x \<in> set targets" "dt_node x \<noteq> None" "dt_name x = n" using n torn by auto
      with loaded_active [OF names(2) x(1,2)] have "n \<in> set names" "s (nodeRegistryKey (dw_cluster w) n) \<noteq> None" by simp_all
      with x p show ?thesis by (auto simp: destroy_passed_def)
    qed
    with names(1) p show ?thesis unfolding Inr Destroyed destroy_passed_def by (auto simp: list_all_iff)
  qed
qed


text \<open>
  A teardown tries every step, whatever became of the others: the calls made are those that work, those that
  fail are warned of only when a single node is destroyed, and the node's documents are deleted last, also when
  the machine could not be terminated; the machine then runs on, unknown to the registry.
\<close>

theorem teardown_best_effort:
  assumes "CHR ''/'' \<notin> set (ne_clusterId node)"
  shows "teardownNode calls gone report node t =
    \<lparr>td_bucket = left_after calls gone node (td_bucket t),
     td_done = td_done t @ filter (step_works calls node (td_bucket t)) (teardown_steps node),
     td_warned = td_warned t @ (if report then filter (step_fails calls node (td_bucket t)) (teardown_steps node) else [])\<rparr>"
  by (rule teardown_exact [OF assms])

section \<open>Examples\<close>

definition three_nodes :: state_bucket where
  "three_nodes = two_nodes(nodeRegistryKey ''default'' ''c'' \<mapsto>
     NodeJson (example_small_node\<lparr>ne_nodeId := ''c'', ne_agentId := ''agent-c'', ne_instanceId := Some ''i-c''\<rparr>))"

definition all_work :: "destroy_step \<Rightarrow> step_result" where "all_work st = StepDone"
definition refused_terminate :: "destroy_step \<Rightarrow> step_result" where
  "refused_terminate st = (case st of TerminateInstance _ \<Rightarrow> StepFailed | _ \<Rightarrow> StepDone)"

definition cautious :: destroy_options where
  "cautious = \<lparr>xo_yes = True, xo_force = False, xo_deleteData = False, xo_evacuate = True, xo_env = None, xo_timeout = None\<rparr>"

definition destroy_example :: "(destroy_step \<Rightarrow> step_result) \<Rightarrow> string list \<Rightarrow> destroy_world" where
  "destroy_example calls ids = \<lparr>dw_rebalance = moving_world\<lparr>bw_ids := (\<lambda>_. ids)\<rparr>, dw_config = Some (Some moving_config),
     dw_confirm = False, dw_calls = calls, dw_gone = (\<lambda>_. False), dw_meanwhile = (\<lambda>s. s)\<rparr>"

lemma destroy_examples:
  "(map_option snd (runDestroy (destroy_example all_work [''a'', ''b'']) [''a''] cautious two_nodes)
     = Some (Inr (Destroyed [''a''] (Some \<lparr>er_project = ''shop'', er_drainNodes = [''a''], er_blocked = False\<rparr>)))) \<and>
   (map_option snd (runDestroy (destroy_example all_work [''a'', ''b'', ''c'']) [''a'', ''b''] cautious three_nodes)
     = Some (Inl (WouldOrphan [(''b'', [\<lparr>sv_project = ''shop'', sv_service = ''api'', sv_hasVolume = False\<rparr>])])))"
  by code_simp

lemma destroy_runs:
  "map_option snd (runDestroy (destroy_example all_work [''a'', ''b'']) [''a''] cautious two_nodes)
     = Some (Inr (Destroyed [''a''] (Some \<lparr>er_project = ''shop'', er_drainNodes = [''a''], er_blocked = False\<rparr>)))"
  by (rule conjunct1 [OF destroy_examples])

text \<open>
  Only nodes that carry something are drained: the replicas may move onto another node that is being destroyed, and
  the command then refuses to destroy that one.
\<close>

lemma evacuation_lands_on_doomed_sibling:
  "map_option snd (runDestroy (destroy_example all_work [''a'', ''b'', ''c'']) [''a'', ''b''] cautious three_nodes)
     = Some (Inl (WouldOrphan [(''b'', [\<lparr>sv_project = ''shop'', sv_service = ''api'', sv_hasVolume = False\<rparr>])]))"
  by (rule conjunct2 [OF destroy_examples])

lemma destroy_gated_witness:
  "\<exists>t s1. runDestroy (destroy_example all_work [''a'', ''b'']) [''a''] cautious two_nodes
       = Some (t, Inr (Destroyed [''a''] (Some \<lparr>er_project = ''shop'', er_drainNodes = [''a''], er_blocked = False\<rparr>)))
     \<and> gates_open (destroy_example all_work [''a'', ''b'']) cautious s1 ''a''"
proof -
  obtain t where run: "runDestroy (destroy_example all_work [''a'', ''b'']) [''a''] cautious two_nodes
       = Some (t, Inr (Destroyed [''a''] (Some \<lparr>er_project = ''shop'', er_drainNodes = [''a''], er_blocked = False\<rparr>)))"
    using destroy_runs by auto
  from destroy_gated [OF run] show ?thesis using run by auto
qed

lemma two_nodes_registered: "n \<in> set [''a'', ''b''] \<longleftrightarrow> two_nodes (nodeRegistryKey ''default'' n) \<noteq> None"
proof -
  have "nodeRegistryKey ''default'' n \<noteq> desiredKey ''default'' ''a''"
    using suffix_differs [of 7 "''/node.json''" "''/desired.json''" "clusterNodesPrefix ''default'' @ n" "clusterNodesPrefix ''default'' @ ''a''"]
    by (simp add: nodeRegistryKey_def desiredKey_def nodePrefix_def)
  moreover have "nodeRegistryKey ''default'' n = nodeRegistryKey ''default'' m \<longleftrightarrow> n = m" for m
    by (simp add: nodeRegistryKey_def nodePrefix_def)
  ultimately show ?thesis by (auto simp: two_nodes_def)
qed


lemma teardown_best_effort_witness:
  "td_done (teardownNode refused_terminate (\<lambda>_. False) True (example_small_node\<lparr>ne_instanceId := Some ''i''\<rparr>) (untouched two_nodes))
     = [DeleteIamRole ''default'' ''a'', DeleteNodeState ''a'']"
proof -
  let ?n = "example_small_node\<lparr>ne_instanceId := Some ''i''\<rparr>"
  have "CHR ''/'' \<notin> set (ne_clusterId ?n)" by (simp add: example_small_node_def)
  from teardown_best_effort [OF this, of refused_terminate "\<lambda>_. False" True "untouched two_nodes"]
  have "td_done (teardownNode refused_terminate (\<lambda>_. False) True ?n (untouched two_nodes))
      = [] @ filter (step_works refused_terminate ?n two_nodes) (teardown_steps ?n)" by (simp add: untouched_def)
  moreover have "filter (step_works refused_terminate ?n two_nodes) (teardown_steps ?n) = [DeleteIamRole ''default'' ''a'', DeleteNodeState ''a'']"
    by code_simp
  ultimately show ?thesis by simp
qed

end
