(* ===== verification/Cluster_Commands.thy ===== *)
theory Cluster_Commands
  imports Local_Config Node_Destroy
begin

text \<open>
  The commands on clusters (\<open>packages/cli/src/commands/cluster/index.ts\<close>): create, list, use, pause, resume and destroy.
  The state is the bucket and the local preferences; the calls to EC2, IAM and CodeBuild are parameters.
\<close>

section \<open>State and errors\<close>

record cluster_state =
  cx_bucket :: state_bucket
  cx_local :: local_file

record cluster_world =
  cw_env :: process_env
  cw_json :: bool
  cw_confirm :: bool
  cw_ensureBucket :: bool
  cw_callerArn :: string
  cw_now :: string
  cw_ids :: "string \<Rightarrow> state_bucket \<Rightarrow> string list"
  cw_stopOk :: "string \<Rightarrow> bool"
  cw_startInstance :: "string \<Rightarrow> network option"
  cw_finishes :: "string \<Rightarrow> bool"
  cw_meanwhile :: "state_bucket \<Rightarrow> state_bucket"
  cw_swept :: "string \<Rightarrow> bool"

datatype cluster_error =
    ImplicitCluster
  | InvalidClusterName string
  | LocalConfigError local_error
  | ClusterAws aws_error
  | BucketNotEnsured
  | ClusterStoreFailed cluster_store_error
  | ClusterNotFound string
  | NotConfiguredLocally string
  | MissingNodeId
  | ClusterAborted
  | PauseFailedFor "string list"
  | ResumeFailedFor "string list"

definition assertClusterName :: "string \<Rightarrow> cluster_error + unit" where
  "assertClusterName name =
     (if name = DEFAULT_CLUSTER then Inl ImplicitCluster else if LABEL_REGEX name then Inr () else Inl (InvalidClusterName name))"

definition lift_local :: "local_error + 'a \<Rightarrow> cluster_error + 'a" where
  "lift_local r = (case r of Inl e \<Rightarrow> Inl (LocalConfigError e) | Inr x \<Rightarrow> Inr x)"

section \<open>Create\<close>

datatype create_outcome = NotActivated | ClusterCreated cluster_config

definition created_config :: "cluster_world \<Rightarrow> string \<Rightarrow> string \<Rightarrow> string option \<Rightarrow> cluster_config option \<Rightarrow> cluster_config" where
  "created_config w name region edge existing =
     (case existing of
        Some c \<Rightarrow> (if truthy edge then c\<lparr>cc_region := region, cc_defaultEdge := edge\<rparr> else c\<lparr>cc_region := region\<rparr>)
      | None \<Rightarrow> \<lparr>cc_clusterId = name, cc_defaultEdge = edge, cc_region = region, cc_createdAt = cw_now w,
                 cc_createdBy = cw_callerArn w, cc_autoscale = None, cc_snsTopicArn = None\<rparr>)"

text \<open>The local target first; the flags that were not given are there too, as undefined.\<close>

definition runCreateCluster ::
  "cluster_world \<Rightarrow> string \<Rightarrow> cluster_flags \<Rightarrow> string option \<Rightarrow> string option \<Rightarrow> cluster_state
   \<Rightarrow> cluster_state \<times> (cluster_error + create_outcome)" where
  "runCreateCluster w name flags roleArn edge st =
     (case res_bind (assertClusterName name) (\<lambda>_. lift_local (upsertClusterTarget name
            \<lparr>tp_region = Some (cf_region flags), tp_profile = Some (cf_profile flags), tp_roleArn = Some roleArn\<rparr> True (cx_local st))) of
        Inl e \<Rightarrow> (st, Inl e)
      | Inr f \<Rightarrow>
          (let st1 = st\<lparr>cx_local := f\<rparr>
           in if truthy roleArn then (st1, Inr NotActivated)
              else case snd (prepareAws (flags\<lparr>cf_cluster := Some name\<rparr>) f (cw_env w)) of
                Inl e \<Rightarrow> (st1, Inl (ClusterAws e))
              | Inr (_, region, _) \<Rightarrow>
                  if \<not> cw_ensureBucket w then (st1, Inl BucketNotEnsured)
                  else case getClusterConfig name (cx_bucket st) of
                    Inl e \<Rightarrow> (st1, Inl (ClusterStoreFailed e))
                  | Inr existing \<Rightarrow>
                      (let c = created_config w name region edge existing
                       in (st1\<lparr>cx_bucket := putClusterConfig c (cw_meanwhile w (cx_bucket st))\<rparr>, Inr (ClusterCreated c)))))"

section \<open>List, use and the target of a command\<close>

datatype list_source = SrcImplicit | SrcLocal | SrcS3 | SrcBoth

record cluster_row =
  lr_clusterId :: string
  lr_region :: "string option"
  lr_source :: list_source

definition buildClusterListRows :: "local_config \<Rightarrow> string list \<Rightarrow> string option \<Rightarrow> cluster_row list" where
  "buildClusterListRows local s3Ids s3Region =
     (let known = map_of (lp_clusters local);
          ids = filter (\<lambda>i. i \<noteq> DEFAULT_CLUSTER) (js_dedup (map fst (lp_clusters local) @ s3Ids))
      in \<lparr>lr_clusterId = DEFAULT_CLUSTER, lr_region = s3Region, lr_source = SrcImplicit\<rparr>
         # map (\<lambda>i. \<lparr>lr_clusterId = i,
               lr_region = opt_or (Option.bind (known i) ct_region) (if i \<in> set s3Ids then s3Region else None),
               lr_source = (if known i \<noteq> None \<and> i \<in> set s3Ids then SrcBoth else if known i \<noteq> None then SrcLocal else SrcS3)\<rparr>) (sort ids))"

definition applyClusterUse :: "string \<Rightarrow> local_file \<Rightarrow> local_file \<times> (cluster_error + string option)" where
  "applyClusterUse name f =
     (if name = DEFAULT_CLUSTER
      then (case clearDefaultCluster f of Inl e \<Rightarrow> (f, Inl (LocalConfigError e)) | Inr f' \<Rightarrow> (f', Inr None))
      else case resolveClusterTarget f name of
        Inl e \<Rightarrow> (f, Inl (LocalConfigError e))
      | Inr None \<Rightarrow> (f, Inl (NotConfiguredLocally name))
      | Inr (Some _) \<Rightarrow>
          (case setDefaultCluster name f of Inl e \<Rightarrow> (f, Inl (LocalConfigError e)) | Inr f' \<Rightarrow> (f', Inr (Some name))))"

definition resolveClusterCommandTarget :: "string option \<Rightarrow> cluster_flags \<Rightarrow> local_file \<Rightarrow> cluster_error + string" where
  "resolveClusterCommandTarget name opts f =
     res_bind (lift_local (loadLocalConfig f)) (\<lambda>local.
       case name of Some n \<Rightarrow> Inr n | None \<Rightarrow> res_bind (lift_local (effectiveCluster opts local)) (\<lambda>e. Inr (ef_cluster e)))"

definition resolveClusterSetEdgeArgs ::
  "string option \<Rightarrow> string option \<Rightarrow> cluster_flags \<Rightarrow> local_file \<Rightarrow> cluster_error + string \<times> string" where
  "resolveClusterSetEdgeArgs nameOrNodeId nodeId opts f =
     (if \<not> truthy nameOrNodeId then Inl MissingNodeId
      else case nodeId of
        None \<Rightarrow> res_bind (resolveClusterCommandTarget None opts f) (\<lambda>c. Inr (c, the nameOrNodeId))
      | Some n \<Rightarrow> res_bind (resolveClusterCommandTarget nameOrNodeId opts f) (\<lambda>c. Inr (c, n)))"

section \<open>Groups of nodes\<close>

text \<open>A named cluster is there when it has a local target, a document, or a node.\<close>

definition prepareClusterAws :: "cluster_world \<Rightarrow> string \<Rightarrow> cluster_flags \<Rightarrow> cluster_state \<Rightarrow> cluster_error + unit" where
  "prepareClusterAws w name flags st =
     (case snd (prepareAws (flags\<lparr>cf_cluster := Some name\<rparr>) (cx_local st) (cw_env w)) of
        Inl e \<Rightarrow> Inl (ClusterAws e)
      | Inr _ \<Rightarrow>
          (if name = DEFAULT_CLUSTER then Inr ()
           else res_bind (lift_local (resolveClusterTarget (cx_local st) name)) (\<lambda>t.
             if t \<noteq> None then Inr ()
             else case getClusterConfig name (cx_bucket st) of
               Inl e \<Rightarrow> Inl (ClusterStoreFailed e)
             | Inr config \<Rightarrow>
                 if config \<noteq> None \<or> cw_ids w name (cx_bucket st) \<noteq> [] then Inr () else Inl (ClusterNotFound name))))"

definition loadClusterNodes :: "cluster_world \<Rightarrow> string \<Rightarrow> state_bucket \<Rightarrow> node_entry list" where
  "loadClusterNodes w name s =
     List.map_filter (\<lambda>n. Option.bind (s (nodeRegistryKey name n)) parseNodeRegistryEntry) (cw_ids w name s)"

text \<open>
  All at once: when one fails the command ends, and of the others only those count that finish before it does.
\<close>

definition in_parallel ::
  "('a \<Rightarrow> state_bucket \<Rightarrow> state_bucket) \<Rightarrow> ('a \<Rightarrow> bool) \<Rightarrow> ('a \<Rightarrow> bool) \<Rightarrow> 'a list \<Rightarrow> state_bucket \<Rightarrow> state_bucket" where
  "in_parallel op ok finishes xs s =
     (let failed = filter (\<lambda>x. \<not> ok x) xs
      in fold op (filter (\<lambda>x. ok x \<and> (failed = [] \<or> finishes x)) xs) s)"

definition pauseClusterNode :: "string \<Rightarrow> node_entry \<Rightarrow> state_bucket \<Rightarrow> state_bucket" where
  "pauseClusterNode name node s = s(nodeRegistryKey name (ne_nodeId node) \<mapsto> NodeJson (node\<lparr>ne_state := Stopped\<rparr>))"

definition runPauseCluster ::
  "cluster_world \<Rightarrow> string \<Rightarrow> cluster_flags \<Rightarrow> bool \<Rightarrow> cluster_state \<Rightarrow> cluster_state \<times> (cluster_error + string list)" where
  "runPauseCluster w name flags yes st =
     (case prepareClusterAws w name flags st of
        Inl e \<Rightarrow> (st, Inl e)
      | Inr _ \<Rightarrow>
          (let pausable = filter (\<lambda>n. truthy (ne_instanceId n)) (loadClusterNodes w name (cx_bucket st));
               ok = (\<lambda>n. cw_stopOk w (the (ne_instanceId n)))
           in if pausable = [] then (st, Inr [])
              else if \<not> yes \<and> \<not> cw_json w \<and> \<not> cw_confirm w then (st, Inl ClusterAborted)
              else (st\<lparr>cx_bucket := in_parallel (pauseClusterNode name) ok (\<lambda>n. cw_finishes w (ne_nodeId n)) pausable
                        (cw_meanwhile w (cx_bucket st))\<rparr>,
                    if list_all ok pausable then Inr (map ne_nodeId pausable)
                    else Inl (PauseFailedFor (map ne_nodeId (filter (\<lambda>n. \<not> ok n) pausable))))))"

definition resumeClusterNode :: "cluster_world \<Rightarrow> node_entry \<Rightarrow> state_bucket \<Rightarrow> state_bucket" where
  "resumeClusterNode w node s = fst (fst (resumeNode (cw_startInstance w) node s))"

definition resumed_address :: "cluster_world \<Rightarrow> node_entry \<Rightarrow> string option" where
  "resumed_address w node =
     (case snd (resumeNode (cw_startInstance w) node (\<lambda>_. None)) of
        Inl _ \<Rightarrow> None
      | Inr e \<Rightarrow> (if nodeUsesElasticIp (ne_role e) then ne_publicIp e else ne_privateIp e))"

definition runResumeCluster ::
  "cluster_world \<Rightarrow> string \<Rightarrow> cluster_flags \<Rightarrow> bool \<Rightarrow> cluster_state \<Rightarrow> cluster_state \<times> (cluster_error + (string \<times> string option) list)" where
  "runResumeCluster w name flags yes st =
     (case prepareClusterAws w name flags st of
        Inl e \<Rightarrow> (st, Inl e)
      | Inr _ \<Rightarrow>
          (let resumable = filter (\<lambda>n. truthy (ne_instanceId n)) (loadClusterNodes w name (cx_bucket st));
               ok = (\<lambda>n. cw_startInstance w (the (ne_instanceId n)) \<noteq> None)
           in if resumable = [] then (st, Inr [])
              else if \<not> yes \<and> \<not> cw_json w \<and> \<not> cw_confirm w then (st, Inl ClusterAborted)
              else (st\<lparr>cx_bucket := in_parallel (resumeClusterNode w) ok (\<lambda>n. cw_finishes w (ne_nodeId n)) resumable
                        (cw_meanwhile w (cx_bucket st))\<rparr>,
                    if list_all ok resumable then Inr (map (\<lambda>n. (ne_nodeId n, resumed_address w n)) resumable)
                    else Inl (ResumeFailedFor (map ne_nodeId (filter (\<lambda>n. \<not> ok n) resumable))))))"

section \<open>Destroy\<close>

datatype cluster_step = OnNode destroy_step | DeleteBuildInfra | SweepCluster

text \<open>The groups of edges last, for the groups of apps refer to them.\<close>

definition group_before :: "node_entry \<Rightarrow> node_entry \<Rightarrow> bool" where
  "group_before a b = (if ne_role a = ne_role b then locale_le (ne_nodeId a) (ne_nodeId b) else ne_role a \<noteq> RoleEdge)"

definition given_ids :: "(node_entry \<Rightarrow> string option) \<Rightarrow> node_entry list \<Rightarrow> string list" where
  "given_ids f nodes = List.map_filter (\<lambda>n. if truthy (f n) then f n else None) nodes"

definition cluster_steps :: "string \<Rightarrow> node_entry list \<Rightarrow> cluster_step list" where
  "cluster_steps name nodes =
     map (OnNode \<circ> TerminateInstance) (given_ids ne_instanceId nodes)
     @ map (OnNode \<circ> ReleaseAddress) (given_ids ne_eipAllocationId nodes)
     @ map (OnNode \<circ> DeleteGroup) (given_ids ne_securityGroupId (sort_by group_before nodes))
     @ map (\<lambda>n. OnNode (DeleteIamRole name (ne_nodeId n))) nodes
     @ [DeleteBuildInfra, SweepCluster]"

record cluster_teardown =
  cl_state :: cluster_state
  cl_done :: "cluster_step list"
  cl_warned :: "cluster_step list"

definition clusterStatePrefix :: "string \<Rightarrow> string" where
  "clusterStatePrefix name = CLUSTERS_PREFIX @ name @ ''/''"

text \<open>A step that fails is a warning, and the next one is tried; a sweep that fails may have removed a part.\<close>

definition cluster_attempt ::
  "cluster_world \<Rightarrow> string \<Rightarrow> (cluster_step \<Rightarrow> bool) \<Rightarrow> cluster_step \<Rightarrow> cluster_teardown \<Rightarrow> cluster_teardown" where
  "cluster_attempt w name ok x t =
     (let t1 = (if x = SweepCluster
                then t\<lparr>cl_state := (cl_state t)\<lparr>cx_bucket := deletePrefix (cw_swept w) (clusterStatePrefix name) (cx_bucket (cl_state t))\<rparr>\<rparr>
                else t)
      in if ok x then t1\<lparr>cl_done := cl_done t1 @ [x]\<rparr> else t1\<lparr>cl_warned := cl_warned t1 @ [x]\<rparr>)"

definition runDestroyCluster ::
  "cluster_world \<Rightarrow> (cluster_step \<Rightarrow> bool) \<Rightarrow> string \<Rightarrow> cluster_flags \<Rightarrow> bool \<Rightarrow> cluster_state
   \<Rightarrow> cluster_teardown \<times> (cluster_error + string list)" where
  "runDestroyCluster w ok name flags yes st =
     (let t0 = \<lparr>cl_state = st, cl_done = [], cl_warned = []\<rparr>
      in if name = DEFAULT_CLUSTER then (t0, Inl ImplicitCluster)
         else case prepareClusterAws w name flags st of
           Inl e \<Rightarrow> (t0, Inl e)
         | Inr _ \<Rightarrow>
             (let nodes = loadClusterNodes w name (cx_bucket st)
              in if \<not> yes \<and> \<not> cw_json w \<and> \<not> cw_confirm w then (t0, Inl ClusterAborted)
                 else let t = fold (cluster_attempt w name ok) (cluster_steps name nodes) t0
                      in case removeClusterTarget name (cx_local st) of
                           Inl e \<Rightarrow> (t, Inl (LocalConfigError e))
                         | Inr f \<Rightarrow> (t\<lparr>cl_state := (cl_state t)\<lparr>cx_local := f\<rparr>\<rparr>, Inr (map ne_nodeId nodes))))"

section \<open>What a cluster's destruction reaches\<close>

lemma attempts_all:
  assumes "SweepCluster \<notin> set xs"
  shows "fold (cluster_attempt w name ok) xs t
    = t\<lparr>cl_done := cl_done t @ filter ok xs, cl_warned := cl_warned t @ filter (\<lambda>x. \<not> ok x) xs\<rparr>"
  using assms by (induction xs arbitrary: t) (auto simp: cluster_attempt_def Let_def)

lemma destroy_cluster_run:
  assumes "runDestroyCluster w ok name flags yes st = (t, Inr ns)"
  shows "name \<noteq> DEFAULT_CLUSTER \<and> (yes \<or> cw_json w \<or> cw_confirm w)
    \<and> cl_done t = filter ok (cluster_steps name (loadClusterNodes w name (cx_bucket st)))
    \<and> cl_warned t = filter (\<lambda>x. \<not> ok x) (cluster_steps name (loadClusterNodes w name (cx_bucket st)))
    \<and> cx_bucket (cl_state t) = deletePrefix (cw_swept w) (clusterStatePrefix name) (cx_bucket st)
    \<and> removeClusterTarget name (cx_local st) = Inr (cx_local (cl_state t))"
proof -
  let ?nodes = "loadClusterNodes w name (cx_bucket st)" and ?t0 = "\<lparr>cl_state = st, cl_done = [], cl_warned = []\<rparr>"
  obtain f where ok: "name \<noteq> DEFAULT_CLUSTER" "yes \<or> cw_json w \<or> cw_confirm w" "removeClusterTarget name (cx_local st) = Inr f"
    and t: "t = (fold (cluster_attempt w name ok) (cluster_steps name ?nodes) ?t0)
       \<lparr>cl_state := (cl_state (fold (cluster_attempt w name ok) (cluster_steps name ?nodes) ?t0))\<lparr>cx_local := f\<rparr>\<rparr>"
    using assms by (auto simp: runDestroyCluster_def Let_def split: sum.splits if_splits)
  obtain xs where xs: "cluster_steps name ?nodes = xs @ [SweepCluster]" "SweepCluster \<notin> set xs"
    by (rule that [of "map (OnNode \<circ> TerminateInstance) (given_ids ne_instanceId ?nodes)
     @ map (OnNode \<circ> ReleaseAddress) (given_ids ne_eipAllocationId ?nodes)
     @ map (OnNode \<circ> DeleteGroup) (given_ids ne_securityGroupId (sort_by group_before ?nodes))
     @ map (\<lambda>n. OnNode (DeleteIamRole name (ne_nodeId n))) ?nodes @ [DeleteBuildInfra]"]) (auto simp: cluster_steps_def)
  show ?thesis
    using ok unfolding t xs(1) fold_append comp_apply attempts_all [OF xs(2)] by (simp add: cluster_attempt_def Let_def)
qed


text \<open>The user of an external node, with its access keys, is not among the steps.\<close>

lemma external_users_survive: "OnNode (DeleteIamUser c n) \<notin> set (cluster_steps name nodes)"
  by (auto simp: cluster_steps_def)

section \<open>Example\<close>

definition cluster_example :: cluster_world where
  "cluster_example = \<lparr>cw_env = bare_env, cw_json = True, cw_confirm = False, cw_ensureBucket = True, cw_callerArn = ''me'', cw_now = ''t'',
     cw_ids = (\<lambda>_ _. [''b'']), cw_stopOk = (\<lambda>_. True), cw_startInstance = (\<lambda>_. None), cw_finishes = (\<lambda>_. False), cw_meanwhile = id,
     cw_swept = (\<lambda>_. True)\<rparr>"

definition lab_state :: cluster_state where
  "lab_state = \<lparr>cx_bucket = [nodeRegistryKey ''lab'' ''b'' \<mapsto> NodeJson (example_small_node\<lparr>ne_nodeId := ''b'', ne_clusterId := ''lab'',
       ne_instanceId := Some ''i-9''\<rparr>)], cx_local = prod_file\<rparr>"


end
