(* ===== verification/Dashboard_Auth.thy ===== *)
theory Dashboard_Auth
  imports Capacity Watch
begin

text \<open>
  Access to the dashboard (\<open>packages/cli/src/dashboard/auth.ts\<close>): the token, the limit on failed attempts of an address,
  and the middleware in front of every page. The digest is a parameter; so is the clock, one instant per request.
\<close>

section \<open>The limit on failures\<close>

definition MAX_FAILS :: int where "MAX_FAILS = 10"
definition FAIL_WINDOW_MS :: int where "FAIL_WINDOW_MS = 60000"
definition MIN_TOKEN_LENGTH :: nat where "MIN_TOKEN_LENGTH = 16"

definition tokenMatches :: "(string \<Rightarrow> 'd) \<Rightarrow> string \<Rightarrow> string \<Rightarrow> bool" where
  "tokenMatches digest candidate token \<longleftrightarrow> digest candidate = digest token"

definition isLoopbackHost :: "string \<Rightarrow> bool" where
  "isLoopbackHost host \<longleftrightarrow> host = ''127.0.0.1'' \<or> host = ''::1'' \<or> host = ''localhost''"

record fail_entry =
  fa_count :: int
  fa_resetAt :: int

type_synonym fail_map = "(string, fail_entry) assoc"

definition rateLimited :: "fail_map \<Rightarrow> string \<Rightarrow> int \<Rightarrow> bool" where
  "rateLimited fails key now =
     (case map_of fails key of
        None \<Rightarrow> False
      | Some e \<Rightarrow> if fa_resetAt e \<le> now then False else MAX_FAILS \<le> fa_count e)"

text \<open>Past ten thousand addresses the entries that have expired are dropped.\<close>

definition recordFailure :: "string \<Rightarrow> int \<Rightarrow> fail_map \<Rightarrow> fail_map" where
  "recordFailure key now fails =
     (let m = (if 10000 < length fails then filter (\<lambda>(_, v). \<not> fa_resetAt v \<le> now) fails else fails);
          fresh = assoc_set key \<lparr>fa_count = 1, fa_resetAt = now + FAIL_WINDOW_MS\<rparr> m
      in case map_of m key of
           None \<Rightarrow> fresh
         | Some e \<Rightarrow> if fa_resetAt e \<le> now then fresh else assoc_set key (e\<lparr>fa_count := fa_count e + 1\<rparr>) m)"

section \<open>The middleware\<close>

record dash_request =
  dr_path :: string
  dr_client :: "string option"
  dr_cookie :: "string option"
  dr_authorization :: "string option"
  dr_post :: bool
  dr_body :: "string option"
  dr_query :: "string option"
  dr_https :: bool
  dr_url :: string
  dr_urlWithoutToken :: string

text \<open>What is answered; an unlocking sets the cookie, secure or not, and redirects.\<close>

datatype dash_answer =
    Passed
  | TooMany
  | Mismatch
  | TokenRequired
  | Unlocked string bool string

definition clientKey :: "dash_request \<Rightarrow> string" where
  "clientKey r = option_or (dr_client r) ''unknown''"

definition bearer :: "dash_request \<Rightarrow> string option" where
  "bearer r = (case dr_authorization r of None \<Rightarrow> None | Some h \<Rightarrow> if starts_with h ''Bearer '' then Some (drop 7 h) else None)"

text \<open>A credential that is checked where it is given, and counted when it does not match.\<close>

definition explicit_credential :: "dash_request \<Rightarrow> (string \<times> dash_answer) option" where
  "explicit_credential r =
     (case bearer r of
        Some t \<Rightarrow> Some (t, Passed)
      | None \<Rightarrow>
          if dr_post r \<and> truthy (dr_body r) then Some (the (dr_body r), Unlocked (the (dr_body r)) (dr_https r) (dr_url r))
          else if truthy (dr_query r) then Some (the (dr_query r), Unlocked (the (dr_query r)) (dr_https r) (dr_urlWithoutToken r))
          else None)"

definition public_path :: "string \<Rightarrow> bool" where
  "public_path p \<longleftrightarrow> p = ''/healthz'' \<or> p = ''/dashboard.css''"

definition authMiddleware :: "(string \<Rightarrow> 'd) \<Rightarrow> string \<Rightarrow> dash_request \<Rightarrow> int \<Rightarrow> fail_map \<Rightarrow> fail_map \<times> dash_answer" where
  "authMiddleware digest token r now fails =
     (if public_path (dr_path r) then (fails, Passed)
      else if rateLimited fails (clientKey r) now then (fails, TooMany)
      else if truthy (dr_cookie r) \<and> tokenMatches digest (the (dr_cookie r)) token then (fails, Passed)
      else case explicit_credential r of
        None \<Rightarrow> (fails, TokenRequired)
      | Some (cand, answer) \<Rightarrow>
          if tokenMatches digest cand token then (fails, answer)
          else (recordFailure (clientKey r) now fails, Mismatch))"

text \<open>A stale cookie is cleared on the way.\<close>

definition clears_cookie :: "(string \<Rightarrow> 'd) \<Rightarrow> string \<Rightarrow> dash_request \<Rightarrow> int \<Rightarrow> fail_map \<Rightarrow> bool" where
  "clears_cookie digest token r now fails \<longleftrightarrow>
     \<not> public_path (dr_path r) \<and> \<not> rateLimited fails (clientKey r) now
     \<and> truthy (dr_cookie r) \<and> \<not> tokenMatches digest (the (dr_cookie r)) token"

text \<open>Requests in the order they are served, each with its instant.\<close>

fun serve :: "(string \<Rightarrow> 'd) \<Rightarrow> string \<Rightarrow> (dash_request \<times> int) list \<Rightarrow> fail_map \<Rightarrow> fail_map \<times> dash_answer list" where
  "serve digest token [] fails = (fails, [])"
| "serve digest token ((r, now) # rs) fails =
     (case authMiddleware digest token r now fails of
        (fails1, a) \<Rightarrow> (case serve digest token rs fails1 of (fails2, as) \<Rightarrow> (fails2, a # as)))"

section \<open>Who gets in\<close>

text \<open>
  A page that is not public is served, or the session unlocked, only for a request that carries a credential with the
  token's digest, from an address that has not run into the limit; and the right bearer token always gets in there.
\<close>

theorem dashboard_needs_token:
  assumes "authMiddleware digest token r now fails = (fails', a)" "\<not> public_path (dr_path r)"
  shows "(a \<in> {TooMany, Mismatch, TokenRequired}
      \<or> \<not> rateLimited fails (clientKey r) now \<and> fails' = fails
        \<and> (\<exists>c. digest c = digest token
             \<and> (dr_cookie r = Some c \<or> bearer r = Some c \<or> dr_post r \<and> dr_body r = Some c \<or> dr_query r = Some c)))
    \<and> (bearer r = Some token \<and> \<not> rateLimited fails (clientKey r) now \<longrightarrow> a = Passed)"
  using assms
  by (auto simp: authMiddleware_def tokenMatches_def explicit_credential_def truthy_def split: if_splits option.splits)

section \<open>Guesses are bounded\<close>

text \<open>The windows that can begin between two instants.\<close>

definition windows :: "int \<Rightarrow> int \<Rightarrow> int" where
  "windows from until = (if until < from then 0 else 1 + (until - from) div FAIL_WINDOW_MS)"

text \<open>How many more guesses an address has by \<open>until\<close>.\<close>

definition guesses_left :: "fail_map \<Rightarrow> string \<Rightarrow> int \<Rightarrow> int \<Rightarrow> int" where
  "guesses_left fails key now until =
     (case map_of fails key of
        None \<Rightarrow> MAX_FAILS * windows now until
      | Some e \<Rightarrow> if fa_resetAt e \<le> now then MAX_FAILS * windows now until
                  else max 0 (MAX_FAILS - fa_count e) + MAX_FAILS * windows (fa_resetAt e) until)"

definition wrong_guesses :: "string \<Rightarrow> (dash_request \<times> int) list \<Rightarrow> dash_answer list \<Rightarrow> int" where
  "wrong_guesses key rs as = int (length (filter (\<lambda>((r, _), a). clientKey r = key \<and> a = Mismatch) (zip rs as)))"

lemma windows_mono: "from \<le> from' \<Longrightarrow> windows from' until \<le> windows from until"
  by (auto simp: windows_def FAIL_WINDOW_MS_def zdiv_mono1)

lemma windows_step: "now \<le> until \<Longrightarrow> windows now until = 1 + windows (now + FAIL_WINDOW_MS) until"
proof -
  assume "now \<le> until"
  then show ?thesis
    using div_add_self2 [of 60000 "until - now - 60000"]
    by (auto simp: windows_def FAIL_WINDOW_MS_def div_pos_pos_trivial algebra_simps)
qed

lemma windows_nonneg: "0 \<le> windows from until"
  by (simp add: windows_def FAIL_WINDOW_MS_def pos_imp_zdiv_nonneg_iff)

lemma guesses_later:
  assumes "now \<le> now'"
  shows "guesses_left fails key now' until \<le> guesses_left fails key now until"
proof (cases "map_of fails key")
  case None
  then show ?thesis using windows_mono [OF assms] by (simp add: guesses_left_def MAX_FAILS_def)
next
  case (Some e)
  show ?thesis
  proof (cases "fa_resetAt e \<le> now'")
    case True
    show ?thesis
    proof (cases "fa_resetAt e \<le> now")
      case True
      with Some assms windows_mono [OF assms] show ?thesis by (simp add: guesses_left_def MAX_FAILS_def)
    next
      case False
      have "windows now' until \<le> windows (fa_resetAt e) until" by (rule windows_mono) (rule True)
      with Some True False show ?thesis by (simp add: guesses_left_def MAX_FAILS_def)
    qed
  qed (use Some assms in \<open>simp add: guesses_left_def\<close>)
qed

lemma map_of_swept: "map_of (filter (\<lambda>(_, v). P v) m) k = (case map_of m k of Some v \<Rightarrow> if P v then Some v else None | None \<Rightarrow> None)"
  if "distinct (map fst m)"
  using that by (induction m) (auto simp: map_of_eq_None_iff split: option.splits)

lemma recorded:
  assumes "distinct (map fst fails)"
  shows "map_of (recordFailure key now fails) k =
    (let old = (case map_of fails k of Some e \<Rightarrow> if 10000 < length fails \<and> fa_resetAt e \<le> now then None else Some e | None \<Rightarrow> None)
     in if k \<noteq> key then old
        else case old of Some e \<Rightarrow> Some (if fa_resetAt e \<le> now then \<lparr>fa_count = 1, fa_resetAt = now + FAIL_WINDOW_MS\<rparr>
                                       else e\<lparr>fa_count := fa_count e + 1\<rparr>)
             | None \<Rightarrow> Some \<lparr>fa_count = 1, fa_resetAt = now + FAIL_WINDOW_MS\<rparr>)"
  using assms
  by (auto simp: recordFailure_def Let_def map_of_assoc_set map_of_swept split: option.splits if_splits)

lemma recorded_distinct: "distinct (map fst fails) \<Longrightarrow> distinct (map fst (recordFailure key now fails))"
  by (auto simp: recordFailure_def Let_def distinct_map_filter split: option.splits)

text \<open>A failure uses up a guess of its address and leaves those of the others as they are.\<close>

lemma failure_costs:
  assumes "distinct (map fst fails)" "\<not> rateLimited fails key now" "now \<le> until"
  shows "guesses_left (recordFailure key now fails) key now until + 1 \<le> guesses_left fails key now until"
proof -
  have fresh: "\<not> now + FAIL_WINDOW_MS \<le> now" by (simp add: FAIL_WINDOW_MS_def)
  show ?thesis
    using assms(2) windows_step [OF assms(3)] fresh
    by (auto simp: guesses_left_def recorded [OF assms(1)] rateLimited_def MAX_FAILS_def Let_def split: option.splits if_splits)
qed

lemma failure_of_other:
  assumes "distinct (map fst fails)" "k \<noteq> key"
  shows "guesses_left (recordFailure key now fails) k now until = guesses_left fails k now until"
  using assms(2) by (auto simp: guesses_left_def recorded [OF assms(1)] Let_def split: option.splits)

lemma guesses_bounded:
  assumes "sorted (map snd rs)" "\<forall>(r, t) \<in> set rs. now \<le> t \<and> t \<le> until" "distinct (map fst fails)"
  shows "wrong_guesses key rs (snd (serve digest token rs fails)) \<le> guesses_left fails key now until"
  using assms
proof (induction rs arbitrary: fails now)
  case Nil
  then show ?case
    by (auto simp: wrong_guesses_def guesses_left_def MAX_FAILS_def windows_nonneg split: option.splits)
next
  case (Cons x rs)
  obtain r t where x: "x = (r, t)" by (cases x)
  obtain f1 a where m: "authMiddleware digest token r t fails = (f1, a)" by (cases "authMiddleware digest token r t fails")
  obtain f2 as where n: "serve digest token rs f1 = (f2, as)" by (cases "serve digest token rs f1")
  have t: "now \<le> t" "t \<le> until" using Cons.prems(2) x by auto
  have rest: "sorted (map snd rs)" "\<forall>(r', t') \<in> set rs. t \<le> t' \<and> t' \<le> until" using Cons.prems(1,2) x by auto
  have step: "wrong_guesses key (x # rs) (snd (serve digest token (x # rs) fails))
      = (if clientKey r = key \<and> a = Mismatch then 1 else 0) + wrong_guesses key rs as"
    by (simp add: x m n wrong_guesses_def)
  have "wrong_guesses key rs as \<le> guesses_left f1 key t until"
    and cost: "guesses_left f1 key t until + (if clientKey r = key \<and> a = Mismatch then 1 else 0) \<le> guesses_left fails key t until"
  proof -
    have d: "distinct (map fst f1)"
      using m Cons.prems(3) recorded_distinct [OF Cons.prems(3)]
      by (auto simp: authMiddleware_def split: if_splits option.splits prod.splits)
    then show "wrong_guesses key rs as \<le> guesses_left f1 key t until"
      using Cons.IH [OF rest, of f1] n by simp
    show "guesses_left f1 key t until + (if clientKey r = key \<and> a = Mismatch then 1 else 0) \<le> guesses_left fails key t until"
    proof (cases "a = Mismatch")
      case True
      then have f1: "f1 = recordFailure (clientKey r) t fails" "\<not> rateLimited fails (clientKey r) t"
        using m by (auto simp: authMiddleware_def explicit_credential_def split: if_splits option.splits prod.splits)
      show ?thesis
        using failure_costs [OF Cons.prems(3) f1(2) t(2)] failure_of_other [OF Cons.prems(3), of key "clientKey r" t until]
        by (cases "clientKey r = key") (simp_all add: f1(1) True)
    next
      case False
      then have "f1 = fails" using m by (auto simp: authMiddleware_def split: if_splits option.splits prod.splits)
      with False show ?thesis by simp
    qed
  qed
  with guesses_later [OF t(1), of fails key until] show ?case unfolding step by linarith
qed


text \<open>The cookie is another matter: wrong cookies are tried without end, and nothing is counted.\<close>

definition cookie_guess :: "string \<Rightarrow> dash_request" where
  "cookie_guess c = \<lparr>dr_path = ''/'', dr_client = Some ''10.0.0.9'', dr_cookie = Some c, dr_authorization = None, dr_post = False,
     dr_body = None, dr_query = None, dr_https = False, dr_url = ''/'', dr_urlWithoutToken = ''/''\<rparr>"

lemma cookie_guesses_unlimited:
  assumes "token \<noteq> []" "\<forall>c \<in> set guesses. c \<noteq> []" "inj digest"
  shows "serve digest token (map (\<lambda>c. (cookie_guess c, now)) guesses) []
    = ([], map (\<lambda>c. if c = token then Passed else TokenRequired) guesses)"
  using assms
  by (induction guesses)
    (auto simp: authMiddleware_def cookie_guess_def public_path_def rateLimited_def truthy_def tokenMatches_def
      explicit_credential_def bearer_def inj_eq)

section \<open>Examples\<close>

definition bearer_guess :: "string \<Rightarrow> dash_request" where
  "bearer_guess t = (cookie_guess [])\<lparr>dr_cookie := None, dr_authorization := Some (''Bearer '' @ t)\<rparr>"

lemma dashboard_needs_token_witness:
  "snd (authMiddleware id ''secret'' (bearer_guess ''secret'') 0 []) = Passed"
proof -
  obtain f a where m: "authMiddleware id ''secret'' (bearer_guess ''secret'') 0 [] = (f, a)"
    by (cases "authMiddleware id ''secret'' (bearer_guess ''secret'') 0 []")
  have c: "\<not> public_path (dr_path (bearer_guess ''secret''))" "bearer (bearer_guess ''secret'') = Some ''secret''"
    "\<not> rateLimited [] (clientKey (bearer_guess ''secret'')) 0"
    by code_simp+
  from dashboard_needs_token [OF m c(1)] c(2,3) m show ?thesis by simp
qed


end
