(* ===== verification/Dashboard_Rooms.thy ===== *)
theory Dashboard_Rooms
  imports Prelude "HOL-Library.Multiset"
begin

text \<open>
  The live streams of the dashboard (\<open>packages/cli/src/dashboard/stream-registry.ts\<close>): one subprocess per room, shared by
  its viewers and counted by reference. The handle of a subprocess is a number, a new one for each start; the state keeps
  the numbers that were stopped.
\<close>

section \<open>State and operations\<close>

record 'a room =
  ro_handle :: nat
  ro_refs :: int
  ro_buffer :: "'a list"
  ro_max :: nat
  ro_closed :: "(int \<times> string) option"

record 'a registry =
  rg_rooms :: "(string, 'a room) assoc"
  rg_started :: nat
  rg_stopped :: "nat list"

definition MAX_LIVE_ROOMS :: nat where "MAX_LIVE_ROOMS = 64"

definition no_rooms :: "'a registry" where
  "no_rooms = \<lparr>rg_rooms = [], rg_started = 0, rg_stopped = []\<rparr>"

definition push_item :: "nat \<Rightarrow> 'a list \<Rightarrow> 'a \<Rightarrow> 'a list" where
  "push_item cap buffer x = (let b = buffer @ [x] in drop (length b - cap) b)"

datatype room_answer = Joined "(int \<times> string) option" | CapExceeded

text \<open>
  \<open>early\<close> is what the stream pushes and closes with while it is started, before the room is in the table.
\<close>

definition new_room :: "nat \<Rightarrow> nat \<Rightarrow> 'a list \<Rightarrow> (int \<times> string) option \<Rightarrow> 'a room" where
  "new_room handle cap early closed =
     \<lparr>ro_handle = handle, ro_refs = 0, ro_buffer = fold (\<lambda>x b. push_item cap b x) early [], ro_max = cap, ro_closed = closed\<rparr>"

definition joinRoom ::
  "string \<Rightarrow> nat option \<Rightarrow> 'a list \<Rightarrow> (int \<times> string) option \<Rightarrow> 'a registry \<Rightarrow> 'a registry \<times> room_answer" where
  "joinRoom key cap early closed g =
     (let ref = (\<lambda>r. r\<lparr>ro_refs := ro_refs r + 1\<rparr>)
      in case map_of (rg_rooms g) key of
           Some r \<Rightarrow> (g\<lparr>rg_rooms := assoc_set key (ref r) (rg_rooms g)\<rparr>, Joined (ro_closed r))
         | None \<Rightarrow>
             if MAX_LIVE_ROOMS \<le> length (rg_rooms g) then (g, CapExceeded)
             else (let r = new_room (rg_started g) (case cap of None \<Rightarrow> 500 | Some m \<Rightarrow> m) early closed
                   in (g\<lparr>rg_rooms := assoc_set key (ref r) (rg_rooms g), rg_started := rg_started g + 1\<rparr>, Joined closed)))"

definition leaveRoom :: "string \<Rightarrow> 'a registry \<Rightarrow> 'a registry" where
  "leaveRoom key g =
     (case map_of (rg_rooms g) key of
        None \<Rightarrow> g
      | Some r \<Rightarrow>
          if ro_refs r - 1 \<le> 0
          then g\<lparr>rg_rooms := filter (\<lambda>x. fst x \<noteq> key) (rg_rooms g), rg_stopped := rg_stopped g @ [ro_handle r]\<rparr>
          else g\<lparr>rg_rooms := assoc_set key (r\<lparr>ro_refs := ro_refs r - 1\<rparr>) (rg_rooms g)\<rparr>)"

text \<open>What a stream reports reaches its own room only, and nothing once that room is gone.\<close>

definition room_of_handle :: "nat \<Rightarrow> 'a registry \<Rightarrow> (string \<times> 'a room) option" where
  "room_of_handle h g = find (\<lambda>x. ro_handle (snd x) = h) (rg_rooms g)"

definition stream_push :: "nat \<Rightarrow> 'a \<Rightarrow> 'a registry \<Rightarrow> 'a registry" where
  "stream_push h x g =
     (case room_of_handle h g of
        None \<Rightarrow> g
      | Some (k, r) \<Rightarrow> g\<lparr>rg_rooms := assoc_set k (r\<lparr>ro_buffer := push_item (ro_max r) (ro_buffer r) x\<rparr>) (rg_rooms g)\<rparr>)"

definition stream_close :: "nat \<Rightarrow> int \<times> string \<Rightarrow> 'a registry \<Rightarrow> 'a registry" where
  "stream_close h info g =
     (case room_of_handle h g of
        None \<Rightarrow> g
      | Some (k, r) \<Rightarrow> g\<lparr>rg_rooms := assoc_set k (r\<lparr>ro_closed := Some info\<rparr>) (rg_rooms g)\<rparr>)"

definition stopAllRooms :: "'a registry \<Rightarrow> 'a registry" where
  "stopAllRooms g = g\<lparr>rg_rooms := [], rg_stopped := rg_stopped g @ map (ro_handle \<circ> snd) (rg_rooms g)\<rparr>"

definition getRoomBuffer :: "string \<Rightarrow> 'a registry \<Rightarrow> 'a list" where
  "getRoomBuffer key g = (case map_of (rg_rooms g) key of None \<Rightarrow> [] | Some r \<Rightarrow> ro_buffer r)"

definition getRoomClosed :: "string \<Rightarrow> 'a registry \<Rightarrow> (int \<times> string) option" where
  "getRoomClosed key g = Option.bind (map_of (rg_rooms g) key) ro_closed"

definition roomExists :: "string \<Rightarrow> 'a registry \<Rightarrow> bool" where
  "roomExists key g \<longleftrightarrow> map_of (rg_rooms g) key \<noteq> None"

definition monitorRoomKey :: "string \<Rightarrow> string \<Rightarrow> string" where
  "monitorRoomKey cluster node = ''monitor:'' @ cluster @ '':'' @ node"

definition logsRoomKey :: "string \<Rightarrow> string \<Rightarrow> string \<Rightarrow> string" where
  "logsRoomKey cluster project service = ''logs:'' @ cluster @ '':'' @ project @ ''/'' @ service"

section \<open>Viewers\<close>

text \<open>
  The registry with the viewers that have joined and not left yet; a viewer leaves a room it is in, and joins a room
  under a number not in use.
\<close>

type_synonym 'a watched = "'a registry \<times> (nat \<times> string) set"

inductive watch_move :: "'a watched \<Rightarrow> 'a watched \<Rightarrow> bool" where
  joins: "joinRoom key cap early closed g = (g', Joined c) \<Longrightarrow> v \<notin> fst ` vs \<Longrightarrow> watch_move (g, vs) (g', insert (v, key) vs)"
| refused: "joinRoom key cap early closed g = (g', CapExceeded) \<Longrightarrow> watch_move (g, vs) (g', vs)"
| leaves: "(v, key) \<in> vs \<Longrightarrow> watch_move (g, vs) (leaveRoom key g, vs - {(v, key)})"
| pushes: "watch_move (g, vs) (stream_push h x g, vs)"
| closes: "watch_move (g, vs) (stream_close h info g, vs)"
| stops: "watch_move (g, vs) (stopAllRooms g, {})"

inductive_cases watch_moveE: "watch_move (g, vs) (g', vs')"

definition viewers :: "(nat \<times> string) set \<Rightarrow> string \<Rightarrow> (nat \<times> string) set" where
  "viewers vs key = {x \<in> vs. snd x = key}"

text \<open>The rooms are those somebody views, each counts its viewers, and the subprocesses that run are those of the rooms.\<close>

definition handles :: "(string, 'a room) assoc \<Rightarrow> nat list" where
  "handles m = map (ro_handle \<circ> snd) m"

definition rooms_ok :: "'a watched \<Rightarrow> bool" where
  "rooms_ok s \<longleftrightarrow>
     (case s of (g, vs) \<Rightarrow>
        finite vs \<and> distinct (map fst (rg_rooms g)) \<and> length (rg_rooms g) \<le> MAX_LIVE_ROOMS
        \<and> (\<forall>k. map_of (rg_rooms g) k = None \<longleftrightarrow> viewers vs k = {})
        \<and> (\<forall>k r. map_of (rg_rooms g) k = Some r \<longrightarrow> ro_refs r = int (card (viewers vs k)) \<and> length (ro_buffer r) \<le> ro_max r)
        \<and> mset (handles (rg_rooms g)) + mset (rg_stopped g) = mset [0..<rg_started g])"

lemma push_item_length: "length (push_item n b x) \<le> n"
  by (simp add: push_item_def Let_def)

lemma early_length: "length (fold (\<lambda>x b. push_item n b x) xs b) \<le> max n (length b)"
proof (induction xs arbitrary: b)
  case (Cons x xs)
  from Cons.IH [of "push_item n b x"] push_item_length [of n b x] show ?case by simp
qed simp

lemma replaced:
  assumes "map_of m k = Some r"
  shows "length (assoc_set k r' m) = length m" "ro_handle r' = ro_handle r \<Longrightarrow> handles (assoc_set k r' m) = handles m"
  using assms by (induction k r' m rule: assoc_set.induct) (auto simp: handles_def split: if_splits)

lemma without:
  assumes "map_of m k = Some r" "distinct (map fst m)"
  shows "mset (handles (filter (\<lambda>x. fst x \<noteq> k) m)) + {#ro_handle r#} = mset (handles m)"
    "length (filter (\<lambda>x. fst x \<noteq> k) m) \<le> length m"
proof -
  have none: "k \<notin> fst ` set xs \<Longrightarrow> filter (\<lambda>x. fst x \<noteq> k) xs = xs" for xs :: "(string \<times> 'a room) list"
    by (induction xs) auto
  show "mset (handles (filter (\<lambda>x. fst x \<noteq> k) m)) + {#ro_handle r#} = mset (handles m)"
    using assms by (induction m) (auto simp: handles_def none simp del: mset_filter split: if_splits)
qed simp

lemma map_of_removed: "map_of (filter (\<lambda>x. fst x \<noteq> k) m) j = (if j = k then None else map_of m j)"
  by (induction m) auto

lemma viewers_insert: "viewers (insert (v, k) vs) j = (if j = k then insert (v, k) (viewers vs j) else viewers vs j)"
  by (auto simp: viewers_def)

lemma viewers_remove: "viewers (vs - {(v, k)}) j = (if j = k then viewers vs j - {(v, k)} else viewers vs j)"
  by (auto simp: viewers_def)

lemma viewers_finite: "finite vs \<Longrightarrow> finite (viewers vs k)"
  by (simp add: viewers_def)

text \<open>A change of a room that keeps its handle and its references.\<close>

lemma touched_ok:
  assumes "rooms_ok (g, vs)" "map_of (rg_rooms g) k = Some r" "ro_handle r' = ro_handle r" "ro_refs r' = ro_refs r"
    "ro_max r' = ro_max r" "length (ro_buffer r') \<le> ro_max r"
  shows "rooms_ok (g\<lparr>rg_rooms := assoc_set k r' (rg_rooms g)\<rparr>, vs)"
proof -
  have "viewers vs k \<noteq> {}" using assms(1,2) unfolding rooms_ok_def prod.case by (metis option.distinct(1))
  with assms replaced [OF assms(2), of r'] show ?thesis
    by (auto simp: rooms_ok_def map_of_assoc_set simp del: map_of_eq_Some_iff split: if_splits)
qed

lemma found_room: "room_of_handle h g = Some (k, r) \<Longrightarrow> rooms_ok (g, vs) \<Longrightarrow> map_of (rg_rooms g) k = Some r"
  unfolding room_of_handle_def find_Some_iff rooms_ok_def by (auto intro: map_of_is_SomeI simp: in_set_conv_nth)

lemma join_ok:
  assumes "rooms_ok (g, vs)" "joinRoom key cap early closed g = (g', Joined c)" "v \<notin> fst ` vs"
  shows "rooms_ok (g', insert (v, key) vs)"
proof -
  have new: "(v, key) \<notin> viewers vs k" for k using assms(3) by (force simp: viewers_def)
  have fin: "finite (viewers vs k)" for k using assms(1) by (simp add: rooms_ok_def viewers_finite)
  show ?thesis
  proof (cases "map_of (rg_rooms g) key")
    case (Some r)
    then have g': "g' = g\<lparr>rg_rooms := assoc_set key (r\<lparr>ro_refs := ro_refs r + 1\<rparr>) (rg_rooms g)\<rparr>"
      using assms(2) by (simp add: joinRoom_def)
    show ?thesis
      using assms(1) replaced [OF Some, of "r\<lparr>ro_refs := ro_refs r + 1\<rparr>"] Some new fin unfolding g'
      by (auto simp: rooms_ok_def map_of_assoc_set viewers_insert)
  next
    case None
    then have room: "length (rg_rooms g) < MAX_LIVE_ROOMS" using assms(2) by (auto simp: joinRoom_def Let_def split: if_splits)
    define r where "r = (new_room (rg_started g) (case cap of None \<Rightarrow> 500 | Some m \<Rightarrow> m) early closed)\<lparr>ro_refs := 1\<rparr>"
    have g': "g' = g\<lparr>rg_rooms := assoc_set key r (rg_rooms g), rg_started := rg_started g + 1\<rparr>"
      using assms(2) None room by (auto simp: joinRoom_def Let_def r_def new_room_def)
    have r: "ro_refs r = 1" "ro_handle r = rg_started g" "length (ro_buffer r) \<le> ro_max r"
      using early_length [of "case cap of None \<Rightarrow> 500 | Some m \<Rightarrow> m" early "[]"] by (simp_all add: r_def new_room_def)
    have k: "key \<notin> set (map fst (rg_rooms g))" using None by (simp add: map_of_eq_None_iff)
    have "viewers vs key = {}" using assms(1) None by (simp add: rooms_ok_def)
    with assms(1) room r None show ?thesis unfolding g'
      by (auto simp: rooms_ok_def map_of_assoc_set viewers_insert assoc_set_new [OF k] handles_def k [simplified] atLeast0_lessThan_Suc
          simp del: map_of_eq_Some_iff) (metis None option.distinct(1))
  qed
qed

lemma leave_ok:
  assumes "rooms_ok (g, vs)" "(v, key) \<in> vs"
  shows "rooms_ok (leaveRoom key g, vs - {(v, key)})"
proof -
  have v: "(v, key) \<in> viewers vs key" using assms(2) by (simp add: viewers_def)
  have fin: "finite (viewers vs k)" for k using assms(1) by (simp add: rooms_ok_def viewers_finite)
  obtain r where r: "map_of (rg_rooms g) key = Some r" "ro_refs r = int (card (viewers vs key))"
    using assms(1) v by (fastforce simp: rooms_ok_def)
  have c: "card (viewers vs key - {(v, key)}) = card (viewers vs key) - 1" "0 < card (viewers vs key)"
    using v fin by (auto simp: card_gt_0_iff)
  have e: "viewers vs key - {(v, key)} = {} \<longleftrightarrow> card (viewers vs key) = 1"
    using c v fin [of key] by (metis One_nat_def card.empty card_0_eq diff_is_0_eq finite_Diff less_eq_Suc_le antisym)
  have d: "distinct (map fst (rg_rooms g))" using assms(1) by (simp add: rooms_ok_def)
  show ?thesis
  proof (cases "card (viewers vs key) = 1")
    case True
    then have "leaveRoom key g = g\<lparr>rg_rooms := filter (\<lambda>x. fst x \<noteq> key) (rg_rooms g), rg_stopped := rg_stopped g @ [ro_handle r]\<rparr>"
      using r by (simp add: leaveRoom_def)
    moreover have "mset (handles (filter (\<lambda>x. fst x \<noteq> key) (rg_rooms g))) + mset (rg_stopped g @ [ro_handle r])
        = mset [0..<rg_started g]"
    proof -
      have "mset (handles (rg_rooms g)) + mset (rg_stopped g) = mset [0..<rg_started g]" using assms(1) by (simp add: rooms_ok_def)
      then show ?thesis by (simp add: without(1) [OF r(1) d, symmetric])
    qed
    moreover have "length (filter (\<lambda>x. fst x \<noteq> key) (rg_rooms g)) \<le> MAX_LIVE_ROOMS"
    proof -
      have "length (rg_rooms g) \<le> MAX_LIVE_ROOMS" using assms(1) by (simp add: rooms_ok_def)
      with without(2) [OF r(1) d] show ?thesis by (rule le_trans)
    qed
    ultimately show ?thesis
      using assms(1) e True by (auto simp: rooms_ok_def map_of_removed viewers_remove distinct_map_filter)
  next
    case False
    then have l: "leaveRoom key g = g\<lparr>rg_rooms := assoc_set key (r\<lparr>ro_refs := ro_refs r - 1\<rparr>) (rg_rooms g)\<rparr>"
      using r c(2) by (simp add: leaveRoom_def)
    show ?thesis
      using assms(1) replaced [OF r(1), of "r\<lparr>ro_refs := ro_refs r - 1\<rparr>"] e False r c unfolding l
      by (auto simp: rooms_ok_def map_of_assoc_set viewers_remove of_nat_diff)
  qed
qed

lemma stop_ok: "rooms_ok (g, vs) \<Longrightarrow> rooms_ok (stopAllRooms g, {})"
  by (simp add: rooms_ok_def stopAllRooms_def viewers_def handles_def ac_simps)

lemma refused_same: "joinRoom key cap early closed g = (g', CapExceeded) \<Longrightarrow> g' = g"
  by (auto simp: joinRoom_def Let_def split: option.splits if_splits)

lemma move_ok: "watch_move s s' \<Longrightarrow> rooms_ok s \<Longrightarrow> rooms_ok s'"
proof (induction rule: watch_move.induct)
  case (pushes g vs h x)
  then show ?case
    by (auto simp: stream_push_def push_item_length intro!: touched_ok dest: found_room split: option.splits prod.splits)
next
  case (closes g vs h info)
  show ?case
  proof (cases "room_of_handle h g")
    case (Some x)
    obtain k r where x: "x = (k, r)" by (cases x)
    from found_room [OF Some [unfolded x] closes] have m: "map_of (rg_rooms g) k = Some r" .
    with closes have "length (ro_buffer r) \<le> ro_max r" by (simp add: rooms_ok_def)
    with Some m closes show ?thesis by (simp add: stream_close_def x touched_ok)
  qed (use closes in \<open>simp add: stream_close_def\<close>)
qed (auto intro: join_ok leave_ok stop_ok dest: refused_same)

definition running :: "'a registry \<Rightarrow> nat set" where
  "running g = {h. h < rg_started g \<and> h \<notin> set (rg_stopped g)}"

lemma started_once:
  assumes "rooms_ok (g, vs)"
  shows "distinct (handles (rg_rooms g) @ rg_stopped g)" "set (handles (rg_rooms g) @ rg_stopped g) = {..<rg_started g}"
proof -
  have m: "mset (handles (rg_rooms g) @ rg_stopped g) = mset [0..<rg_started g]" using assms by (simp add: rooms_ok_def)
  show "distinct (handles (rg_rooms g) @ rg_stopped g)" using mset_eq_imp_distinct_iff [OF m] by simp
  show "set (handles (rg_rooms g) @ rg_stopped g) = {..<rg_started g}" using mset_eq_setD [OF m] by (simp only: set_upt atLeast0LessThan)
qed

lemma rooms_viewed:
  assumes "rooms_ok (g, vs)"
  shows "fst ` set (rg_rooms g) = snd ` vs"
proof -
  have "k \<in> fst ` set (rg_rooms g) \<longleftrightarrow> viewers vs k \<noteq> {}" for k
    using assms map_of_eq_None_iff [of "rg_rooms g" k] by (simp add: rooms_ok_def)
  then show ?thesis by (auto simp: viewers_def image_iff) force+
qed

text \<open>
  C17. Whatever viewers do and the streams report, a room is there exactly while somebody views it, and it counts its
  viewers; one subprocess runs for each room that is viewed, never more than the cap, and none is stopped twice.
\<close>

theorem one_stream_per_viewed_room:
  assumes "watch_move\<^sup>*\<^sup>* (no_rooms, {}) (g, vs)"
  shows "(\<forall>k. roomExists k g \<longleftrightarrow> viewers vs k \<noteq> {})
    \<and> (\<forall>k r. map_of (rg_rooms g) k = Some r \<longrightarrow> ro_refs r = int (card (viewers vs k)) \<and> length (ro_buffer r) \<le> ro_max r)
    \<and> running g = ro_handle ` snd ` set (rg_rooms g) \<and> card (running g) = card (snd ` vs) \<and> card (running g) \<le> MAX_LIVE_ROOMS
    \<and> distinct (rg_stopped g)"
proof -
  have "rooms_ok (no_rooms, {})" by (simp add: rooms_ok_def no_rooms_def viewers_def handles_def)
  with assms have ok: "rooms_ok (g, vs)" by (induction rule: rtranclp_induct) (auto intro: move_ok)
  note once = started_once [OF ok]
  have run: "running g = set (handles (rg_rooms g))" using once by (auto simp: running_def)
  have "distinct (handles (rg_rooms g))" using once(1) by simp
  then have "card (running g) = length (handles (rg_rooms g))" unfolding run by (rule distinct_card)
  then have "card (running g) = length (rg_rooms g)" by (simp add: handles_def)
  moreover have "card (snd ` vs) = length (rg_rooms g)"
    using ok distinct_card [of "map fst (rg_rooms g)"] rooms_viewed [OF ok] by (simp add: rooms_ok_def)
  ultimately show ?thesis
    using ok run once(1) by (auto simp: rooms_ok_def roomExists_def handles_def image_comp)
qed

section \<open>An example\<close>

lemma one_stream_per_viewed_room_witness:
  "card (running (leaveRoom ''a'' (fst (joinRoom ''a'' None [] None (fst (joinRoom ''a'' None [] None (no_rooms :: nat registry))))))) = 1"
proof -
  let ?g1 = "fst (joinRoom ''a'' None [] None (no_rooms :: nat registry))"
  let ?g2 = "fst (joinRoom ''a'' None [] None ?g1)"
  have j: "joinRoom ''a'' None [] None no_rooms = (?g1, Joined None)" "joinRoom ''a'' None [] None ?g1 = (?g2, Joined None)"
    by (simp_all add: joinRoom_def no_rooms_def MAX_LIVE_ROOMS_def new_room_def)
  have "watch_move (no_rooms, {}) (?g1, {(1, ''a'')})" "watch_move (?g1, {(1, ''a'')}) (?g2, {(2, ''a''), (1, ''a'')})"
    "watch_move (?g2, {(2, ''a''), (1, ''a'')}) (leaveRoom ''a'' ?g2, {(2, ''a''), (1, ''a'')} - {(1, ''a'')})"
    using watch_move.joins [OF j(1), of 1 "{}"] watch_move.joins [OF j(2), of 2 "{(1, ''a'')}"]
      watch_move.leaves [of 1 "''a''" "{(2, ''a''), (1, ''a'')}" ?g2] by simp_all
  then have "watch_move\<^sup>*\<^sup>* (no_rooms, {}) (leaveRoom ''a'' ?g2, {(2, ''a''), (1, ''a'')} - {(1, ''a'')})"
    by (meson converse_rtranclp_into_rtranclp rtranclp.rtrancl_refl)
  from one_stream_per_viewed_room [OF this] have "card (running (leaveRoom ''a'' ?g2)) = card (snd ` ({(2::nat, ''a''), (1, ''a'')} - {(1, ''a'')}))"
    by blast
  also have "{(2::nat, ''a''), (1, ''a'')} - {(1, ''a'')} = {(2, ''a'')}" by auto
  finally show ?thesis by simp
qed

end
