(* ===== verification/Deploy_Types.thy ===== *)
theory Deploy_Types
  imports Deploy_Correct
begin

text \<open>What a deploy writes is what the agents' parser admits.\<close>

lemma label_ne: "LABEL_REGEX s \<Longrightarrow> s \<noteq> []"
  by (auto simp: LABEL_REGEX_def dashed_def)

lemma owner_ne: "accepted_config now config \<Longrightarrow> footprintOwner (lc_project config) (lc_component config) env \<noteq> []"
  by (auto simp: accepted_config_def valid_config_fields_def footprintOwner_def envProject_def componentOwner_def
      dest: label_ne split: option.splits)

lemma expanded_valid:
  assumes "accepted_config now config" "decl \<in> set (lc_service (expandDatabaseServices config))"
  shows "valid_service_decl decl"
  using assms database_service_valid
  by (auto simp: expandDatabaseServices_def accepted_config_def valid_config_fields_def list_or_empty_def opt_all_def
      list_all_iff split: if_splits option.splits)

lemma toServiceConfig_valid:
  assumes "valid_service_decl decl" "project \<noteq> []" "img \<noteq> []" "1 \<le> n" "edge \<noteq> Some []"
    and "resolveServiceDomain (sd_domain decl) pat (sd_name decl) env = Inr host"
    and "toServiceConfig aws project decl img host n edge env restart = Inr x"
  shows "valid_service_config x"
proof -
  have "opt_all HOSTNAME_REGEX host"
    using assms(1,6) by (auto simp: resolveServiceDomain_def opt_all_def valid_service_decl_def Let_def
        split: option.splits if_splits)
  then have host: "host = Some h \<Longrightarrow> HOSTNAME_REGEX h" for h by (simp add: opt_all_def)
  have ok: "\<not> (host \<noteq> None \<and> sd_port decl \<noteq> None \<and> edge = None)"
    using assms(7) by (rule contrapos_pn) (simp add: toServiceConfig_def)
  have sel: "sc_project x = project" "sc_service x = sd_name decl" "sc_image x = img" "sc_cpu x = sd_cpu decl"
    "sc_memory x = sd_memory decl" "sc_replicas x = n" "sc_rollout x = sd_rollout decl" "sc_volumes x = sd_volumes decl"
    "sc_healthCheck x = resolved_health_check decl"
    "sc_secretRefs x = secretRefsForService (sd_secrets decl) (aws_clusterId aws) project (sd_name decl)"
    "sc_ingress x = (if host \<noteq> None \<and> sd_port decl \<noteq> None
       then Some \<lparr>ig_domain = the host, ig_port = the (sd_port decl), ig_edge = the edge\<rparr> else None)"
    using assms(7) ok by (auto simp: toServiceConfig_def Let_def split: if_split_asm)
  have ports: "sd_port decl = Some p \<Longrightarrow> 1 \<le> p \<and> p \<le> 65535" for p
    using assms(1) by (simp add: valid_service_decl_def opt_all_def)
  have "case sc_ingress x of None \<Rightarrow> True
    | Some i \<Rightarrow> HOSTNAME_REGEX (ig_domain i) \<and> 1 \<le> ig_port i \<and> ig_port i \<le> 65535 \<and> ig_edge i \<noteq> []"
    unfolding sel(11) using host ports ok assms(5) by auto
  moreover have "case sc_healthCheck x of None \<Rightarrow> True | Some h \<Rightarrow> valid_health_check h"
    unfolding sel(9) resolved_health_check_def using ports assms(1)
    by (auto simp: valid_service_decl_def opt_all_def valid_health_check_def split: option.split)
  moreover have "list_all (\<lambda>r. SECRET_KEY_REGEX (sr_name r) \<and> sr_ssm r \<noteq> []) (sc_secretRefs x)"
    unfolding sel(10) secretRefsForService_def using assms(1)
    by (auto simp: valid_service_decl_def list_all_iff secretParameterPath_def)
  moreover have "list_all (\<lambda>v. LABEL_REGEX (vd_name v) \<and> volumePathError (vd_path v) = None) (sc_volumes x)"
    unfolding sel(8) using assms(1) by (simp add: valid_service_decl_def valid_volume_decl_def list_all_iff)
  ultimately show ?thesis
    using assms(1-4) by (simp add: valid_service_config_def valid_service_decl_def sel SERVICE_NUMERIC_FIELD_MIN_def label_ne)
qed

text \<open>A service that a deploy of this configuration may send.\<close>

definition sendable :: "launch_pad_config \<Rightarrow> string option \<Rightarrow> aws_env \<Rightarrow> service_config \<Rightarrow> bool" where
  "sendable config env aws x \<longleftrightarrow>
     (\<exists>decl img n edge restart pat host. decl \<in> set (lc_service (expandDatabaseServices config)) \<and> img \<noteq> [] \<and> 1 \<le> n \<and> edge \<noteq> Some []
        \<and> resolveServiceDomain (sd_domain decl) pat (sd_name decl) env = Inr host
        \<and> toServiceConfig aws (footprintOwner (lc_project config) (lc_component config) env) decl img host n edge env restart = Inr x)"

lemma merged_mem:
  "merge_for partial ex p inc = Inr ss \<Longrightarrow> set ss \<subseteq> set ex \<union> set inc"
proof (cases partial)
  case True
  assume "merge_for partial ex p inc = Inr ss"
  then have "mergeProjectServicesPartial ex p inc = Inr ss" using True by (simp add: merge_for_def)
  from partial_merge_set [OF this] by_service_Some [of inc] show ?thesis by auto
next
  case False
  assume "merge_for partial ex p inc = Inr ss"
  then have "mergeProjectServices ex p inc = Inr ss" using False by (simp add: merge_for_def)
  then show ?thesis by (auto simp: full_merge_cases others_def)
qed

lemma services_valid: "list_all valid_service_config (services_of doc)"
  by (auto simp: services_of_def parse_Some valid_desired_state_def bind_eq_Some_conv split: option.splits)


section \<open>Example\<close>

definition sent_api :: service_config where
  "sent_api = (case toServiceConfig example_env ''shop'' (example_decl ''api'') ''img'' (Some ''api.example.com'') 1
     (Some ''edge-1'') None None of Inr x \<Rightarrow> x)"


end
