(* ===== verification/Edge.thy ===== *)
theory Edge
  imports Publish
begin

text \<open>
  The routing table of an edge (\<open>packages/shared/src/edge.ts\<close>), computed from the shards the app agents
  publish or by reading the nodes' own documents, and the shard an agent publishes
  (\<open>build_upstream_shards\<close> of \<open>packages/agent-rust/src/upstream.rs\<close>). A table is an insertion-ordered map from
  domains to backends.
\<close>

section \<open>Tables\<close>

record edge_backend =
  eb_domain :: string
  eb_privateIp :: string
  eb_hostPort :: int

record upstream_backend =
  ub_domain :: string
  ub_hostPort :: int
  ub_healthPath :: "string option"

record upstream_shard =
  us_nodeId :: string
  us_privateIp :: string
  us_updatedAt :: string
  us_backends :: "upstream_backend list"

definition valid_upstream_shard :: "upstream_shard \<Rightarrow> bool" where
  "valid_upstream_shard s \<longleftrightarrow> us_nodeId s \<noteq> [] \<and> us_privateIp s \<noteq> []
     \<and> list_all (\<lambda>b. ub_domain b \<noteq> [] \<and> 0 < ub_hostPort b) (us_backends s)"

record cluster_node =
  cm_entry :: node_entry
  cm_status :: "node_status option"
  cm_desired :: "desired_state option"

definition push :: "edge_backend \<Rightarrow> (string, edge_backend list) assoc \<Rightarrow> (string, edge_backend list) assoc" where
  "push b m = assoc_set (eb_domain b) (assoc_get_or [] m (eb_domain b) @ [b]) m"

definition service_backends ::
  "string \<Rightarrow> string \<Rightarrow> (string, service_status) assoc \<Rightarrow> service_config \<Rightarrow> edge_backend list" where
  "service_backends edgeNodeId privateIp statusByKey ds =
     (case sc_ingress ds of
        None \<Rightarrow> []
      | Some ig \<Rightarrow>
          (if ig_edge ig \<noteq> edgeNodeId then []
           else case map_of statusByKey (serviceKey (sc_project ds) (sc_service ds)) of
             None \<Rightarrow> []
           | Some st \<Rightarrow>
               List.map_filter (\<lambda>r. if rs_state r = SRunning \<and> rs_healthy r
                  then map_option (\<lambda>p. \<lparr>eb_domain = ig_domain ig, eb_privateIp = privateIp, eb_hostPort = p\<rparr>) (rs_hostPort r)
                  else None) (ss_replicas st)))"

definition status_by_key :: "node_status \<Rightarrow> (string, service_status) assoc" where
  "status_by_key st = assoc_of (map (\<lambda>s. (serviceKey (ss_project s) (ss_service s), s)) (ns_services st))"

definition node_backends :: "string \<Rightarrow> cluster_node \<Rightarrow> edge_backend list" where
  "node_backends edgeNodeId n =
     (if ne_nodeId (cm_entry n) = edgeNodeId then []
      else case (ne_privateIp (cm_entry n), cm_desired n, cm_status n) of
        (Some ip, Some d, Some st) \<Rightarrow>
          (if ip = [] then [] else concat (map (service_backends edgeNodeId ip (status_by_key st)) (ds_services d)))
      | _ \<Rightarrow> [])"

definition buildEdgeBackendsByCrossRead :: "string \<Rightarrow> cluster_node list \<Rightarrow> (string, edge_backend list) assoc" where
  "buildEdgeBackendsByCrossRead edgeNodeId nodes = fold (\<lambda>n m. fold push (node_backends edgeNodeId n) m) nodes []"

definition shard_backends :: "upstream_shard \<Rightarrow> edge_backend list" where
  "shard_backends s = map (\<lambda>b. \<lparr>eb_domain = ub_domain b, eb_privateIp = us_privateIp s, eb_hostPort = ub_hostPort b\<rparr>) (us_backends s)"

definition buildEdgeBackendsFromShards :: "upstream_shard list \<Rightarrow> (string, edge_backend list) assoc" where
  "buildEdgeBackendsFromShards shards = fold (\<lambda>s m. fold push (shard_backends s) m) shards []"

text \<open>An empty path is skipped, as an absent one is.\<close>

definition edgeHealthPathForDomain :: "upstream_shard list \<Rightarrow> string \<Rightarrow> string option" where
  "edgeHealthPathForDomain shards domain =
     Option.bind (find (\<lambda>b. ub_domain b = domain \<and> ub_healthPath b \<noteq> None \<and> ub_healthPath b \<noteq> Some [])
       (concat (map us_backends shards))) ub_healthPath"

section \<open>The shard an agent publishes\<close>

record managed_replica =
  mr_id :: string
  mr_state :: string
  mr_hostPort :: "int option"

definition routable :: "string set \<Rightarrow> managed_replica \<Rightarrow> bool" where
  "routable draining r \<longleftrightarrow> mr_state r = ''running'' \<and> mr_hostPort r \<noteq> None \<and> mr_id r \<notin> draining"

text \<open>The shard for one edge; \<open>live\<close> finds the containers of a service by its key.\<close>

definition published_backends ::
  "string \<Rightarrow> (string \<Rightarrow> managed_replica list) \<Rightarrow> string set \<Rightarrow> service_config \<Rightarrow> upstream_backend list" where
  "published_backends edge live draining c =
     (case sc_ingress c of
        None \<Rightarrow> []
      | Some ig \<Rightarrow>
          (if ig_edge ig \<noteq> edge then []
           else map (\<lambda>r. \<lparr>ub_domain = ig_domain ig, ub_hostPort = the (mr_hostPort r),
                          ub_healthPath = map_option hc_path (sc_healthCheck c)\<rparr>)
                  (filter (routable draining) (live (serviceKey (sc_project c) (sc_service c))))))"

definition upstream_shard_for ::
  "string \<Rightarrow> string \<Rightarrow> desired_state \<Rightarrow> (string \<Rightarrow> managed_replica list) \<Rightarrow> string set \<Rightarrow> string \<Rightarrow> string \<Rightarrow> upstream_shard option" where
  "upstream_shard_for nodeId privateIp desired live draining now edge =
     (if list_ex (\<lambda>c. map_option ig_edge (sc_ingress c) = Some edge) (ds_services desired)
      then Some \<lparr>us_nodeId = nodeId, us_privateIp = privateIp, us_updatedAt = now,
                 us_backends = concat (map (published_backends edge live draining) (ds_services desired))\<rparr>
      else None)"

section \<open>Facts\<close>

lemma fold_fold_push: "fold (\<lambda>x m. fold push (f x) m) xs m = fold push (concat (map f xs)) m"
  by (induction xs arbitrary: m) simp_all

lemma push_one: "map_of (push b m) d = (if d = eb_domain b then Some (assoc_get_or [] m d @ [b]) else map_of m d)"
  by (simp add: push_def map_of_assoc_set)

lemma push_lookup: "map_of (fold push bs m) d =
  (if filter (\<lambda>b. eb_domain b = d) bs = [] then map_of m d
   else Some (assoc_get_or [] m d @ filter (\<lambda>b. eb_domain b = d) bs))"
proof (induction bs arbitrary: m)
  case (Cons b bs)
  have "assoc_get_or [] (push b m) d = assoc_get_or [] m d @ (if eb_domain b = d then [b] else [])"
    unfolding assoc_get_or_def [of "[]" "push b m"] push_one by (simp add: assoc_get_or_def)
  with Cons [of "push b m"] show ?case by (auto simp: push_one)
qed simp

text \<open>
  What an agent publishes is truthful for its status document when, for every service routed through the
  edge, the containers it publishes are those its status reports as running and healthy.
\<close>

definition truthful :: "string \<Rightarrow> (string \<Rightarrow> managed_replica list) \<Rightarrow> string set \<Rightarrow> desired_state \<Rightarrow> node_status \<Rightarrow> bool" where
  "truthful edge live draining d st \<longleftrightarrow>
     list_all (\<lambda>c. map_option ig_edge (sc_ingress c) = Some edge \<longrightarrow>
       map mr_hostPort (filter (routable draining) (live (sc_key c))) =
       (case map_of (status_by_key st) (sc_key c) of None \<Rightarrow> []
        | Some s \<Rightarrow> map rs_hostPort (filter (\<lambda>r. rs_state r = SRunning \<and> rs_healthy r \<and> rs_hostPort r \<noteq> None) (ss_replicas s))))
     (ds_services d)"

lemma replica_backends:
  "List.map_filter (\<lambda>r. if rs_state r = SRunning \<and> rs_healthy r
      then map_option (\<lambda>p. \<lparr>eb_domain = dom', eb_privateIp = ip, eb_hostPort = p\<rparr>) (rs_hostPort r) else None) rs =
   map (\<lambda>p. \<lparr>eb_domain = dom', eb_privateIp = ip, eb_hostPort = the p\<rparr>)
     (map rs_hostPort (filter (\<lambda>r. rs_state r = SRunning \<and> rs_healthy r \<and> rs_hostPort r \<noteq> None) rs))"
  by (induction rs) (auto simp: List.map_filter_simps)

lemma service_agrees:
  assumes "truthful edge live draining d st" "c \<in> set (ds_services d)"
  shows "map (\<lambda>b. \<lparr>eb_domain = ub_domain b, eb_privateIp = ip, eb_hostPort = ub_hostPort b\<rparr>) (published_backends edge live draining c) =
    service_backends edge ip (status_by_key st) c"
proof (cases "sc_ingress c")
  case (Some ig)
  show ?thesis
  proof (cases "ig_edge ig = edge")
    case True
    with assms Some have e: "map mr_hostPort (filter (routable draining) (live (sc_key c))) =
       (case map_of (status_by_key st) (sc_key c) of None \<Rightarrow> []
        | Some s \<Rightarrow> map rs_hostPort (filter (\<lambda>r. rs_state r = SRunning \<and> rs_healthy r \<and> rs_hostPort r \<noteq> None) (ss_replicas s)))"
      by (auto simp: truthful_def list_all_iff)
    have "map (\<lambda>b. \<lparr>eb_domain = ub_domain b, eb_privateIp = ip, eb_hostPort = ub_hostPort b\<rparr>) (published_backends edge live draining c) =
      map (\<lambda>p. \<lparr>eb_domain = ig_domain ig, eb_privateIp = ip, eb_hostPort = the p\<rparr>)
        (map mr_hostPort (filter (routable draining) (live (sc_key c))))"
      by (simp add: published_backends_def Some True o_def)
    also have "\<dots> = service_backends edge ip (status_by_key st) c"
      unfolding e by (simp add: service_backends_def Some True replica_backends split: option.split)
    finally show ?thesis .
  qed (simp add: Some published_backends_def service_backends_def)
qed (simp add: published_backends_def service_backends_def)

text \<open>A member of the cluster other than the edge, with what its agent sees and publishes.\<close>

record member =
  mb_entry :: node_entry
  mb_ip :: string
  mb_desired :: desired_state
  mb_status :: node_status
  mb_live :: "string \<Rightarrow> managed_replica list"
  mb_draining :: "string set"

definition member_ok :: "string \<Rightarrow> member \<Rightarrow> bool" where
  "member_ok edge m \<longleftrightarrow> ne_nodeId (mb_entry m) \<noteq> edge \<and> ne_privateIp (mb_entry m) = Some (mb_ip m) \<and> mb_ip m \<noteq> []
     \<and> truthful edge (mb_live m) (mb_draining m) (mb_desired m) (mb_status m)"

definition as_node :: "member \<Rightarrow> cluster_node" where
  "as_node m = \<lparr>cm_entry = mb_entry m, cm_status = Some (mb_status m), cm_desired = Some (mb_desired m)\<rparr>"

definition member_shard :: "string \<Rightarrow> string \<Rightarrow> member \<Rightarrow> upstream_shard option" where
  "member_shard edge now m =
     upstream_shard_for (ne_nodeId (mb_entry m)) (mb_ip m) (mb_desired m) (mb_live m) (mb_draining m) now edge"

lemma member_agrees:
  assumes "member_ok edge m"
  shows "(case member_shard edge now m of None \<Rightarrow> [] | Some s \<Rightarrow> shard_backends s) = node_backends edge (as_node m)"
proof -
  have services: "concat (map (\<lambda>c. map (\<lambda>b. \<lparr>eb_domain = ub_domain b, eb_privateIp = mb_ip m, eb_hostPort = ub_hostPort b\<rparr>)
      (published_backends edge (mb_live m) (mb_draining m) c)) (ds_services (mb_desired m))) =
    concat (map (service_backends edge (mb_ip m) (status_by_key (mb_status m))) (ds_services (mb_desired m)))"
    using assms service_agrees [of edge "mb_live m" "mb_draining m" "mb_desired m" "mb_status m" _ "mb_ip m"]
    by (intro arg_cong [of _ _ concat] map_cong) (auto simp: member_ok_def)
  have none: "concat (map (service_backends edge (mb_ip m) (status_by_key (mb_status m))) (ds_services (mb_desired m))) = []"
    if "\<not> list_ex (\<lambda>c. map_option ig_edge (sc_ingress c) = Some edge) (ds_services (mb_desired m))"
    using that by (auto simp: list_ex_iff service_backends_def split: option.splits)
  have node: "node_backends edge (as_node m) =
      concat (map (service_backends edge (mb_ip m) (status_by_key (mb_status m))) (ds_services (mb_desired m)))"
    using assms by (simp add: member_ok_def node_backends_def as_node_def)
  show ?thesis
    unfolding node using none services
    by (simp add: member_shard_def upstream_shard_for_def shard_backends_def map_concat o_def)
qed

text \<open>
  C38. The edge needs no cross-reads: when the agents' shards are truthful, the table the edge builds from the
  shards alone is the table that reading every node's desired state and status gives, and it lists for a
  domain exactly the backends of the nodes for it, in their order.
\<close>

theorem edge_tables_agree:
  assumes "\<forall>m \<in> set members. member_ok edge m"
  shows "buildEdgeBackendsFromShards (List.map_filter (member_shard edge now) members) =
      buildEdgeBackendsByCrossRead edge (map as_node members)
    \<and> assoc_get_or [] (buildEdgeBackendsFromShards (List.map_filter (member_shard edge now) members)) d =
      filter (\<lambda>b. eb_domain b = d) (concat (map (\<lambda>m. node_backends edge (as_node m)) members))"
proof -
  have all: "concat (map shard_backends (List.map_filter (member_shard edge now) members)) =
      concat (map (\<lambda>m. node_backends edge (as_node m)) members)"
    using assms
  proof (induction members)
    case (Cons m ms)
    with member_agrees [of edge m now] show ?case by (simp add: List.map_filter_simps split: option.splits)
  qed (simp add: List.map_filter_simps)
  have 1: "buildEdgeBackendsFromShards (List.map_filter (member_shard edge now) members) =
      fold push (concat (map (\<lambda>m. node_backends edge (as_node m)) members)) []"
    unfolding buildEdgeBackendsFromShards_def fold_fold_push all ..
  have 2: "buildEdgeBackendsByCrossRead edge (map as_node members) =
      fold push (concat (map (\<lambda>m. node_backends edge (as_node m)) members)) []"
    unfolding buildEdgeBackendsByCrossRead_def fold_fold_push by (simp add: o_def)
  show ?thesis
    unfolding 1 2 by (simp add: assoc_get_or_def push_lookup)
qed

section \<open>Example\<close>

definition web_behind :: "string \<Rightarrow> service_config" where
  "web_behind edge = (plain_service ''shop'' ''web'' 256 256 2)\<lparr>sc_ingress :=
     Some \<lparr>ig_domain = ''shop.io'', ig_port = 3000, ig_edge = edge\<rparr>\<rparr>"

definition web_replica :: "string \<Rightarrow> int \<Rightarrow> replica_status" where
  "web_replica c p = (running_replica c ''img'')\<lparr>rs_hostPort := Some p, rs_healthy := True\<rparr>"

definition example_member :: "node_entry \<Rightarrow> member" where
  "example_member e = \<lparr>mb_entry = e\<lparr>ne_privateIp := Some ''10.0.0.1''\<rparr>, mb_ip = ''10.0.0.1'',
     mb_desired = \<lparr>ds_version = 3, ds_nodeId = ''a'', ds_updatedAt = ''t'', ds_services = [web_behind ''edge'']\<rparr>,
     mb_status = quiet_status ''a'' ''t'' [running_service ''shop'' ''web'' [web_replica ''c1'' 20001]],
     mb_live = (\<lambda>k. if k = ''shop/web'' then [\<lparr>mr_id = ''c1'', mr_state = ''running'', mr_hostPort = Some 20001\<rparr>,
        \<lparr>mr_id = ''c0'', mr_state = ''running'', mr_hostPort = Some 20000\<rparr>] else []),
     mb_draining = {''c0''}\<rparr>"

lemma edge_tables_agree_witness:
  "map eb_hostPort (assoc_get_or [] (buildEdgeBackendsByCrossRead ''edge'' [as_node (example_member example_small_node)]) ''shop.io'') = [20001]
   \<and> buildEdgeBackendsFromShards (List.map_filter (member_shard ''edge'' ''t'') [example_member example_small_node]) =
      buildEdgeBackendsByCrossRead ''edge'' [as_node (example_member example_small_node)]"
proof -
  have ok: "\<forall>m \<in> set [example_member example_small_node]. member_ok ''edge'' m"
    by (simp add: member_ok_def example_member_def example_small_node_def truthful_def web_behind_def plain_service_def
        serviceKey_def routable_def status_by_key_def quiet_status_def running_service_def running_replica_def
        web_replica_def assoc_of_def)
  have "map eb_hostPort (assoc_get_or [] (buildEdgeBackendsByCrossRead ''edge'' [as_node (example_member example_small_node)]) ''shop.io'') = [20001]"
    by code_simp
  with edge_tables_agree [OF ok, of "''t''" "''shop.io''"] show ?thesis by simp
qed

end
