(* ===== verification/External_Keys.thy ===== *)
theory External_Keys
  imports Registry Names Js_Strings Watch
begin

text \<open>
  The access keys of an external node: creation and deletion in \<open>packages/cli/src/aws/iam.ts\<close> and
  \<open>node rotate-creds\<close> (\<open>runRotateCreds\<close> of \<open>commands/node/index.ts\<close>). A key is an id and whether it is active;
  the host uses the key in its \<open>agent.env\<close>. Which calls the service refuses is a parameter.
\<close>

type_synonym access_keys = "(string \<times> bool) list"

datatype key_error = TooManyKeys | KeyRefused | KeyDeleteFailed string

text \<open>Deleting one after the other, stopping at the first refusal.\<close>

fun delete_keys :: "(string \<Rightarrow> bool) \<Rightarrow> string list \<Rightarrow> access_keys \<Rightarrow> access_keys \<times> (key_error + string list)" where
  "delete_keys ok [] keys = (keys, Inr [])"
| "delete_keys ok (i # is) keys =
     (if \<not> ok i then (keys, Inl (KeyDeleteFailed i))
      else case delete_keys ok is (filter (\<lambda>k. fst k \<noteq> i) keys) of
             (keys', Inl e) \<Rightarrow> (keys', Inl e)
           | (keys', Inr ds) \<Rightarrow> (keys', Inr (i # ds)))"

definition deleteInactiveAccessKeys :: "(string \<Rightarrow> bool) \<Rightarrow> access_keys \<Rightarrow> access_keys \<times> (key_error + string list)" where
  "deleteInactiveAccessKeys ok keys = delete_keys ok (map fst (filter (\<lambda>k. \<not> snd k) keys)) keys"

text \<open>\<open>fresh\<close> is the id the service gives, \<open>None\<close> its refusal.\<close>

definition createExternalNodeAccessKey ::
  "(string \<Rightarrow> bool) \<Rightarrow> string option \<Rightarrow> access_keys \<Rightarrow> access_keys \<times> (key_error + string)" where
  "createExternalNodeAccessKey ok fresh keys =
     (case deleteInactiveAccessKeys ok keys of
        (keys', Inl e) \<Rightarrow> (keys', Inl e)
      | (keys', Inr _) \<Rightarrow>
          (if 2 \<le> length (filter snd keys') then (keys', Inl TooManyKeys)
           else case fresh of None \<Rightarrow> (keys', Inl KeyRefused) | Some i \<Rightarrow> (keys' @ [(i, True)], Inr i)))"

definition deleteExternalNodeAccessKeysExcept ::
  "(string \<Rightarrow> bool) \<Rightarrow> string \<Rightarrow> access_keys \<Rightarrow> access_keys \<times> (key_error + string list)" where
  "deleteExternalNodeAccessKeysExcept ok keep keys = delete_keys ok (filter (\<lambda>i. i \<noteq> keep) (map fst keys)) keys"

definition deleteExternalNodeAccessKey :: "(string \<Rightarrow> bool) \<Rightarrow> string \<Rightarrow> access_keys \<Rightarrow> access_keys \<times> (key_error + string list)" where
  "deleteExternalNodeAccessKey ok i keys = delete_keys ok [i] keys"

section \<open>The rotation\<close>

record rotate_options =
  ko_yes :: bool
  ko_dryRun :: bool
  ko_host :: "string option"
  ko_sshPort :: "string option"

text \<open>The script writes \<open>agent.env\<close>, restarts the agent and asks whether it is active; it may fail after writing.\<close>

datatype push_result = Pushed | PushFailed bool

record rotate_world =
  kw_confirm :: bool
  kw_deleteOk :: "string \<Rightarrow> bool"
  kw_fresh :: "string option"
  kw_push :: push_result

datatype rotate_error =
    NotExternalNode string
  | NoIamUser string
  | BadSshPort string
  | NoSshTarget string
  | RotateAborted
  | RotateKeyError key_error
  | RotatePushFailed

datatype rotate_outcome = RotatePreview | Rotated string "string list"

definition parseSshPortOption :: "string option \<Rightarrow> rotate_error + int option" where
  "parseSshPortOption raw =
     (case raw of
        None \<Rightarrow> Inr None
      | Some t \<Rightarrow> (case parse_int10 t of
            None \<Rightarrow> Inl (BadSshPort t)
          | Some p \<Rightarrow> if p < 1 \<or> 65535 < p then Inl (BadSshPort t) else Inr (Some p)))"

text \<open>What the rotation changes: the keys of the user and the key the host has.\<close>

record key_state =
  ks_keys :: access_keys
  ks_host :: string

definition ssh_host :: "node_entry \<Rightarrow> rotate_options \<Rightarrow> string option" where
  "ssh_host e opts =
     (case ko_host opts of Some h \<Rightarrow> Some h
      | None \<Rightarrow> (case ne_publicIp e of Some p \<Rightarrow> Some p | None \<Rightarrow> ne_advertiseIp e))"

text \<open>From the new key on.\<close>

definition push_and_clean :: "rotate_world \<Rightarrow> string \<Rightarrow> key_state \<Rightarrow> key_state \<times> (rotate_error + rotate_outcome)" where
  "push_and_clean w new st =
     (case kw_push w of
        Pushed \<Rightarrow>
          (case deleteExternalNodeAccessKeysExcept (kw_deleteOk w) new (ks_keys st) of
             (keys, r) \<Rightarrow> (\<lparr>ks_keys = keys, ks_host = new\<rparr>,
                            Inr (Rotated new (case r of Inl _ \<Rightarrow> [] | Inr ds \<Rightarrow> ds))))
      | PushFailed written \<Rightarrow>
          (\<lparr>ks_keys = fst (deleteExternalNodeAccessKey (kw_deleteOk w) new (ks_keys st)),
            ks_host = (if written then new else ks_host st)\<rparr>, Inl RotatePushFailed))"

definition runRotateCreds ::
  "rotate_world \<Rightarrow> node_entry \<Rightarrow> rotate_options \<Rightarrow> key_state \<Rightarrow> key_state \<times> (rotate_error + rotate_outcome)" where
  "runRotateCreds w e opts st =
     (if ne_provisioning e \<noteq> External then (st, Inl (NotExternalNode (ne_nodeId e)))
      else if \<not> truthy (ne_iamUserName e) then (st, Inl (NoIamUser (ne_nodeId e)))
      else case parseSshPortOption (ko_sshPort opts) of
        Inl x \<Rightarrow> (st, Inl x)
      | Inr _ \<Rightarrow>
          (if \<not> truthy (ssh_host e opts) then (st, Inl (NoSshTarget (ne_nodeId e)))
           else if ko_dryRun opts then (st, Inr RotatePreview)
           else if \<not> ko_yes opts \<and> \<not> kw_confirm w then (st, Inl RotateAborted)
           else case createExternalNodeAccessKey (kw_deleteOk w) (kw_fresh w) (ks_keys st) of
             (keys, Inl x) \<Rightarrow> (st\<lparr>ks_keys := keys\<rparr>, Inl (RotateKeyError x))
           | (keys, Inr new) \<Rightarrow> push_and_clean w new (st\<lparr>ks_keys := keys\<rparr>)))"

section \<open>The host keeps a key that works\<close>

text \<open>A deletion removes a prefix of the listed ids and nothing else.\<close>

lemma delete_keys_keeps: "i \<notin> set is \<Longrightarrow> (i, a) \<in> set (fst (delete_keys ok is keys)) \<longleftrightarrow> (i, a) \<in> set keys"
  by (induction ok "is" keys rule: delete_keys.induct) (auto split: sum.splits prod.splits)

lemma delete_keys_sub: "set (fst (delete_keys ok is keys)) \<subseteq> set keys"
  by (induction ok "is" keys rule: delete_keys.induct) (auto split: sum.splits prod.splits)

lemma delete_keys_all:
  "delete_keys ok is keys = (keys', Inr ds) \<Longrightarrow> ds = is \<and> keys' = filter (\<lambda>k. fst k \<notin> set is) keys"
proof (induction ok "is" keys arbitrary: ds rule: delete_keys.induct)
  case (2 ok i "is" keys)
  then show ?case by (auto split: if_splits sum.splits prod.splits intro!: filter_cong)
qed simp

definition host_works :: "key_state \<Rightarrow> bool" where
  "host_works st \<longleftrightarrow> (ks_host st, True) \<in> set (ks_keys st)"

lemma port_error: "parseSshPortOption raw = Inl x \<Longrightarrow> \<exists>t. x = BadSshPort t"
  by (auto simp: parseSshPortOption_def split: option.splits if_splits)

lemma create_keeps_active:
  assumes "createExternalNodeAccessKey ok fresh keys = (keys', r)" "(i, True) \<in> set keys" "distinct (map fst keys)"
  shows "(i, True) \<in> set keys'"
proof -
  have i: "i \<notin> set (map fst (filter (\<lambda>k. \<not> snd k) keys))"
    using assms(2,3) by (auto dest: eq_key_imp_eq_value)
  from delete_keys_keeps [OF i, of True ok keys] assms(1,2) show ?thesis
    by (auto simp: createExternalNodeAccessKey_def deleteInactiveAccessKeys_def split: prod.splits sum.splits if_splits option.splits)
qed

lemma create_fresh:
  assumes "createExternalNodeAccessKey ok fresh keys = (keys', Inr new)"
  shows "fresh = Some new \<and> (new, True) \<in> set keys'"
  using assms by (auto simp: createExternalNodeAccessKey_def split: prod.splits sum.splits if_splits option.splits)

text \<open>
  C28. A rotation never locks the host out, unless its script fails after the new key was written: whatever else
  fails, the key in the host's environment is active afterwards when it was before. When the script fails after
  writing, the new key is deleted under the host: if that deletion works, the host is left without a key.
\<close>

theorem rotation_keeps_access:
  assumes "runRotateCreds w e opts st = (st', r)" and "host_works st" "distinct (map fst (ks_keys st))"
    and "kw_fresh w \<notin> Some ` fst ` set (ks_keys st)"
  shows "if kw_push w = PushFailed True \<and> r = Inl RotatePushFailed
      then kw_deleteOk w (the (kw_fresh w)) \<longrightarrow> \<not> host_works st'
      else host_works st'"
proof (cases "createExternalNodeAccessKey (kw_deleteOk w) (kw_fresh w) (ks_keys st)")
  case (Pair keys c)
  have kept: "(ks_host st, True) \<in> set keys"
    using create_keeps_active [OF Pair] assms(2,3) by (simp add: host_works_def)
  show ?thesis
  proof (cases c)
    case (Inl x)
    then show ?thesis using assms(1,2) Pair kept
      by (auto simp: runRotateCreds_def host_works_def dest!: port_error split: if_splits sum.splits)
  next
    case (Inr new)
    have new: "kw_fresh w = Some new" "(new, True) \<in> set keys" using create_fresh [OF Pair [unfolded Inr]] by simp_all
    have other: "ks_host st \<noteq> new" using assms(2,4) new(1) by (force simp: host_works_def)
    have except: "(new, True) \<in> set (fst (deleteExternalNodeAccessKeysExcept ok new keys))" for ok
      unfolding deleteExternalNodeAccessKeysExcept_def by (subst delete_keys_keeps) (use new in auto)
    have one: "(ks_host st, True) \<in> set (fst (deleteExternalNodeAccessKey ok new keys))" for ok
      unfolding deleteExternalNodeAccessKey_def by (subst delete_keys_keeps) (use other kept in auto)
    have gone: "(new, True) \<notin> set (fst (deleteExternalNodeAccessKey ok new keys))" if "ok new" for ok
      using that by (simp add: deleteExternalNodeAccessKey_def)
    have pc: "case kw_push w of
        Pushed \<Rightarrow> host_works (fst (push_and_clean w new (st\<lparr>ks_keys := keys\<rparr>)))
      | PushFailed written \<Rightarrow> snd (push_and_clean w new (st\<lparr>ks_keys := keys\<rparr>)) = Inl RotatePushFailed
          \<and> (if written then kw_deleteOk w new \<longrightarrow> \<not> host_works (fst (push_and_clean w new (st\<lparr>ks_keys := keys\<rparr>)))
             else host_works (fst (push_and_clean w new (st\<lparr>ks_keys := keys\<rparr>))))"
      using except [of "kw_deleteOk w"] one [of "kw_deleteOk w"] gone [of "kw_deleteOk w"]
      by (auto simp: push_and_clean_def host_works_def split: push_result.splits prod.splits)
    then show ?thesis using assms(1,2) Pair Inr new(1)
      by (auto simp: runRotateCreds_def dest!: port_error split: if_splits sum.splits push_result.splits)
  qed
qed

section \<open>Example\<close>

definition byos_node :: node_entry where
  "byos_node = \<lparr>ne_nodeId = ''b'', ne_clusterId = ''default'', ne_instanceId = None, ne_instanceType = ''external'',
     ne_architecture = X86_64, ne_region = ''us-east-1'', ne_availabilityZone = None, ne_role = RoleApp,
     ne_privateIp = None, ne_totalCpu = 2048, ne_totalMemory = 2048, ne_reservedCpu = 256, ne_reservedMemory = 512,
     ne_publicIp = Some ''203.0.113.5'', ne_eipAllocationId = None, ne_securityGroupId = None, ne_iamInstanceProfile = None,
     ne_provisioning = External, ne_advertiseIp = None, ne_iamUserName = Some ''u'', ne_agentId = ''agent-b'',
     ne_agentVersion = None, ne_agentType = AgentRust, ne_createdAt = ''t'', ne_createdBy = ''me'', ne_state = Ready\<rparr>"

lemma rotation_keeps_access_witness:
  "\<not> host_works (fst (runRotateCreds \<lparr>kw_confirm = True, kw_deleteOk = (\<lambda>_. True), kw_fresh = Some ''K2'', kw_push = PushFailed True\<rparr>
      byos_node \<lparr>ko_yes = True, ko_dryRun = False, ko_host = None, ko_sshPort = None\<rparr> \<lparr>ks_keys = [(''K1'', True)], ks_host = ''K1''\<rparr>))
   \<and> host_works (fst (runRotateCreds \<lparr>kw_confirm = True, kw_deleteOk = (\<lambda>_. False), kw_fresh = Some ''K2'', kw_push = PushFailed False\<rparr>
      byos_node \<lparr>ko_yes = True, ko_dryRun = False, ko_host = None, ko_sshPort = None\<rparr> \<lparr>ks_keys = [(''K1'', True)], ks_host = ''K1''\<rparr>))"
proof -
  let ?o = "\<lparr>ko_yes = True, ko_dryRun = False, ko_host = None, ko_sshPort = None\<rparr>" and ?st = "\<lparr>ks_keys = [(''K1'', True)], ks_host = ''K1''\<rparr>"
  let ?w = "\<lambda>d p. \<lparr>kw_confirm = True, kw_deleteOk = (\<lambda>_. d), kw_fresh = Some ''K2'', kw_push = p\<rparr>"
  have r: "snd (runRotateCreds (?w True (PushFailed True)) byos_node ?o ?st) = Inl RotatePushFailed"
    "snd (runRotateCreds (?w False (PushFailed False)) byos_node ?o ?st) = Inl RotatePushFailed" by code_simp+
  have h: "host_works ?st" "distinct (map fst (ks_keys ?st))" "kw_fresh (?w d p) \<notin> Some ` fst ` set (ks_keys ?st)" for d p
    by (simp_all add: host_works_def)
  obtain st1 r1 where 1: "runRotateCreds (?w True (PushFailed True)) byos_node ?o ?st = (st1, r1)" by fastforce
  obtain st2 r2 where 2: "runRotateCreds (?w False (PushFailed False)) byos_node ?o ?st = (st2, r2)" by fastforce
  from rotation_keeps_access [OF 1 h] rotation_keeps_access [OF 2 h] r show ?thesis by (simp add: 1 2)
qed

end
