(* ===== verification/Dotenv.thy ===== *)
theory Dotenv
  imports Names
begin

text \<open>
  Files of secrets: config/dotenv.ts (the parser, the plan of an import) and commands/secret/format.ts
  (how a secret is printed). A file is a string; its lines are separated by a line feed, with or without
  a carriage return before it. The parser works on the list of lines: where the code moves its index
  past a value of several lines, the model continues with the lines that are left.
\<close>

section \<open>Lines\<close>

abbreviation LF :: char where "LF \<equiv> CHR 0x0A"
abbreviation CR :: char where "CR \<equiv> CHR 0x0D"
abbreviation TAB :: char where "TAB \<equiv> CHR 0x09"
abbreviation SQ :: char where "SQ \<equiv> CHR 0x27"
abbreviation DQ :: char where "DQ \<equiv> CHR 0x22"
abbreviation BSLASH :: char where "BSLASH \<equiv> CHR 0x5C"

definition drop_cr :: "string \<Rightarrow> string" where
  "drop_cr l = (if l \<noteq> [] \<and> last l = CR then butlast l else l)"

text \<open>\<open>content.split(/\r?\n/)\<close>: every line but the last was ended by a line feed.\<close>

definition split_lines :: "string \<Rightarrow> string list" where
  "split_lines s = (let ps = split_char LF s in map drop_cr (butlast ps) @ [last ps])"

section \<open>The parser\<close>

record dotenv_entry =
  de_key :: string
  de_value :: string
  de_line :: nat

record parsed_dotenv =
  pd_entries :: "dotenv_entry list"
  pd_malformed :: "nat list"

definition strip_export :: "string \<Rightarrow> string" where
  "strip_export s =
     (if starts_with s ''export'' \<and> drop 6 s \<noteq> [] \<and> is_ws (hd (drop 6 s)) then trim_start (drop 6 s) else s)"

fun closing_dq :: "string \<Rightarrow> nat option" where
  "closing_dq [] = None"
| "closing_dq (c # s) =
     (if c = BSLASH then (case s of [] \<Rightarrow> None | _ # t \<Rightarrow> map_option (\<lambda>i. i + 2) (closing_dq t))
      else if c = DQ then Some 0 else map_option Suc (closing_dq s))"

definition findClosingQuote :: "string \<Rightarrow> char \<Rightarrow> nat option" where
  "findClosingQuote s q = (if q = SQ then index_of SQ s else closing_dq s)"

fun unescapeDouble :: "string \<Rightarrow> string" where
  "unescapeDouble [] = []"
| "unescapeDouble [c] = [c]"
| "unescapeDouble (c # d # s) =
     (if c \<noteq> BSLASH then c # unescapeDouble (d # s)
      else if d = CHR ''n'' then LF # unescapeDouble s
      else if d = CHR ''r'' then CR # unescapeDouble s
      else if d = CHR ''t'' then TAB # unescapeDouble s
      else if d = DQ \<or> d = BSLASH then d # unescapeDouble s
      else c # unescapeDouble (d # s))"

text \<open>The loop that gathers a quoted value: its segments, if the quote is closed, and the lines after it.\<close>

fun gather_value :: "char \<Rightarrow> string \<Rightarrow> string list \<Rightarrow> string list option \<times> string list" where
  "gather_value q seg rest =
     (case findClosingQuote seg q of
        Some i \<Rightarrow> (Some [take i seg], rest)
      | None \<Rightarrow> (case rest of [] \<Rightarrow> (None, [])
                | l # ls \<Rightarrow> (case gather_value q l ls of (c, r) \<Rightarrow> (map_option (\<lambda>ss. seg # ss) c, r))))"

declare gather_value.simps [simp del]

lemma gather_value_shorter: "length (snd (gather_value q seg rest)) \<le> length rest"
  by (induction q seg rest rule: gather_value.induct)
    (subst gather_value.simps, auto split: option.splits list.splits prod.splits)

definition add_entry :: "dotenv_entry \<Rightarrow> parsed_dotenv \<Rightarrow> parsed_dotenv" where
  "add_entry e p = p\<lparr>pd_entries := e # pd_entries p\<rparr>"

definition add_malformed :: "nat \<Rightarrow> parsed_dotenv \<Rightarrow> parsed_dotenv" where
  "add_malformed n p = p\<lparr>pd_malformed := n # pd_malformed p\<rparr>"

text \<open>The key and the value part of an assignment; None when there is no key.\<close>

definition assignment_parts :: "string \<Rightarrow> (string \<times> string) option" where
  "assignment_parts start =
     (let a = strip_export start in
      case index_of (CHR ''='') a of
        None \<Rightarrow> None
      | Some e \<Rightarrow> if e = 0 then None else Some (trim (take e a), trim_start (drop (Suc e) a)))"

function parse_lines :: "nat \<Rightarrow> string list \<Rightarrow> parsed_dotenv" where
  "parse_lines n [] = \<lparr>pd_entries = [], pd_malformed = []\<rparr>"
| "parse_lines n (l # ls) =
     (let start = trim_start l in
      if start = [] \<or> hd start = CHR ''#'' then parse_lines (Suc n) ls
      else case assignment_parts start of
        None \<Rightarrow> add_malformed n (parse_lines (Suc n) ls)
      | Some (key, v) \<Rightarrow>
          if v \<noteq> [] \<and> (hd v = DQ \<or> hd v = SQ) then
            (case gather_value (hd v) (tl v) ls of
               (None, rest) \<Rightarrow> add_malformed n (parse_lines (Suc n + (length ls - length rest)) rest)
             | (Some ss, rest) \<Rightarrow>
                 let body = join_str [LF] ss in
                 add_entry \<lparr>de_key = key, de_value = (if hd v = DQ then unescapeDouble body else body), de_line = n\<rparr>
                   (parse_lines (Suc n + (length ls - length rest)) rest))
          else add_entry \<lparr>de_key = key, de_value = trim_end v, de_line = n\<rparr> (parse_lines (Suc n) ls))"
  by pat_completeness auto

termination
proof (relation "measure (\<lambda>(n, ls). length ls)", goal_cases)
  case (4 n l ls start u key v g rest)
  then show ?case using gather_value_shorter [of "hd v" "tl v" ls] by (cases u) (auto simp: less_Suc_eq_le dest!: sym [of "(_, _)"])
next
  case (5 n l ls start u key v g ss rest body)
  then show ?case using gather_value_shorter [of "hd v" "tl v" ls] by (auto simp: less_Suc_eq_le dest!: sym [of "(_, _)"])
qed auto

definition parseDotenv :: "string \<Rightarrow> parsed_dotenv" where
  "parseDotenv content = parse_lines 1 (split_lines content)"

section \<open>The plan of an import\<close>

record secret_import_plan =
  ip_valid :: "(string, string) assoc"
  ip_invalidKeys :: "(string \<times> nat) list"
  ip_emptyValues :: "(string \<times> nat) list"
  ip_malformed :: "nat list"
  ip_duplicates :: "string list"

definition classify_entry :: "dotenv_entry \<Rightarrow> secret_import_plan \<Rightarrow> secret_import_plan" where
  "classify_entry e p =
     (if \<not> SECRET_KEY_REGEX (de_key e) then p\<lparr>ip_invalidKeys := ip_invalidKeys p @ [(de_key e, de_line e)]\<rparr>
      else if de_value e = [] then p\<lparr>ip_emptyValues := ip_emptyValues p @ [(de_key e, de_line e)]\<rparr>
      else p\<lparr>ip_valid := assoc_set (de_key e) (de_value e) (ip_valid p),
             ip_duplicates :=
               (if de_key e \<in> set (map fst (ip_valid p)) \<and> de_key e \<notin> set (ip_duplicates p)
                then ip_duplicates p @ [de_key e] else ip_duplicates p)\<rparr>)"

definition partitionSecretImportEntries :: "parsed_dotenv \<Rightarrow> secret_import_plan" where
  "partitionSecretImportEntries p =
     fold classify_entry (pd_entries p)
       \<lparr>ip_valid = [], ip_invalidKeys = [], ip_emptyValues = [], ip_malformed = pd_malformed p, ip_duplicates = []\<rparr>"

section \<open>Printing a secret\<close>

datatype secret_format = AsValue | AsShell | AsJson

fun escape_sq :: "string \<Rightarrow> string" where
  "escape_sq [] = []"
| "escape_sq (c # s) = (if c = SQ then [SQ, DQ, SQ, DQ, SQ] @ escape_sq s else c # escape_sq s)"

definition shellEscapeSecret :: "string \<Rightarrow> string" where
  "shellEscapeSecret value = [SQ] @ escape_sq value @ [SQ]"

text \<open>\<open>JSON.stringify\<close> of the pair is the parameter to_json.\<close>

definition formatSecretOutput :: "(string \<Rightarrow> string \<Rightarrow> string) \<Rightarrow> string \<Rightarrow> string \<Rightarrow> secret_format \<Rightarrow> string" where
  "formatSecretOutput to_json key value fmt =
     (case fmt of AsValue \<Rightarrow> value
      | AsShell \<Rightarrow> ''export '' @ key @ ''='' @ shellEscapeSecret value
      | AsJson \<Rightarrow> to_json key value)"

definition parseSecretFormat :: "string option \<Rightarrow> secret_format option" where
  "parseSecretFormat raw =
     (let f = (case raw of None \<Rightarrow> ''value'' | Some r \<Rightarrow> r)
      in if f = ''value'' then Some AsValue else if f = ''shell'' then Some AsShell
         else if f = ''json'' then Some AsJson else None)"

section \<open>What is exported can be imported\<close>

lemma split_char_prefix:
  "c \<notin> set p \<Longrightarrow> split_char c (p @ s) = (p @ hd (split_char c s)) # tl (split_char c s)"
  by (induction p) (auto simp: list.case_eq_if)

lemma split_char_both: "split_char c (a @ c # b) = split_char c a @ split_char c b"
  by (induction a) (auto split: list.splits)

lemma split_char_subset: "x \<in> set l \<Longrightarrow> l \<in> set (split_char c s) \<Longrightarrow> x \<in> set s"
proof (induction s arbitrary: l)
  case (Cons d s)
  then show ?case by (auto split: if_splits list.splits) (metis list.set_intros)+
qed simp

lemma split_char_suffix:
  "c \<notin> set t \<Longrightarrow> split_char c (s @ t) = butlast (split_char c s) @ [last (split_char c s) @ t]"
proof (induction s)
  case Nil
  then show ?case by (simp add: split_char_single)
next
  case (Cons x s)
  obtain q qs where "split_char c s = q # qs" by (cases "split_char c s") auto
  with Cons show ?case by (cases qs rule: rev_cases) auto
qed

lemma split_lines_append: "CR \<notin> set a \<Longrightarrow> split_lines (a @ LF # b) = split_char LF a @ split_lines b"
proof -
  assume "CR \<notin> set a"
  then have "map drop_cr (split_char LF a) = split_char LF a"
    using split_char_subset by (intro map_idI) (auto simp: drop_cr_def dest!: last_in_set)
  then show ?thesis
    by (simp add: split_lines_def split_char_both butlast_append Let_def)
qed

lemma index_of_append: "c \<notin> set p \<Longrightarrow> index_of c (p @ c # s) = Some (length p)"
  by (auto simp: index_of_Some nth_append)

lemma gather_sq:
  assumes "\<forall>s \<in> set (ss @ [t]). SQ \<notin> set s" and "ss @ [t @ SQ # u] = s0 # ls"
  shows "gather_value SQ s0 (ls @ rest) = (Some (ss @ [t]), rest)"
  using assms
proof (induction ss arbitrary: s0 ls)
  case Nil
  then show ?case by (subst gather_value.simps) (auto simp: findClosingQuote_def index_of_append)
next
  case (Cons s ss)
  then obtain l ls' where ls: "ss @ [t @ SQ # u] = l # ls'" by (cases "ss @ [t @ SQ # u]") auto
  with Cons have ih: "gather_value SQ l (ls' @ rest) = (Some (ss @ [t]), rest)" by simp
  have e: "s0 = s" "ls = l # ls'" using Cons.prems ls by auto
  have "index_of SQ s = None" using Cons.prems by (simp add: index_of_None)
  then show ?case unfolding e by (subst gather_value.simps) (simp add: findClosingQuote_def ih)
qed

lemma secret_key_plain:
  assumes "SECRET_KEY_REGEX k"
  shows "k \<noteq> []" "\<forall>c \<in> set k. \<not> is_ws c \<and> c \<noteq> CHR ''='' \<and> c \<noteq> LF \<and> c \<noteq> CR"
  using assms
  by (auto simp: SECRET_KEY_REGEX_def list_all_iff is_ws_def is_upper_def is_digit_def in_range_def split: list.splits)

lemma dropWhile_none: "\<forall>c \<in> set k. \<not> P c \<Longrightarrow> dropWhile P k = k"
  by (cases k) auto

lemma trim_plain: "\<forall>c \<in> set k. \<not> is_ws c \<Longrightarrow> trim k = k"
  by (simp add: trim_def trim_start_def trim_end_def dropWhile_none)

lemma is_ws_marks [simp]: "is_ws CHR '' ''" "\<not> is_ws SQ" "\<not> is_ws (CHR ''e'')"
  by (simp_all add: is_ws_def)

lemma strip_export_prefix: "x \<noteq> [] \<Longrightarrow> \<not> is_ws (hd x) \<Longrightarrow> strip_export (''export '' @ x) = x"
  by (cases x) (simp_all add: strip_export_def starts_with_def trim_start_def)

lemma assignment_of_export:
  assumes "SECRET_KEY_REGEX k"
  shows "assignment_parts (''export '' @ k @ ''='' @ SQ # s) = Some (k, SQ # s)"
proof -
  note k = secret_key_plain [OF assms]
  have e: "strip_export (''export '' @ k @ ''='' @ SQ # s) = k @ CHR ''='' # SQ # s"
    using k strip_export_prefix [of "k @ CHR ''='' # SQ # s"] by (cases k) simp_all
  have "index_of (CHR ''='') (k @ CHR ''='' # SQ # s) = Some (length k)"
    by (rule index_of_append) (use k in blast)
  then show ?thesis
    using k unfolding assignment_parts_def e Let_def by (simp add: trim_plain trim_start_def)
qed

text \<open>One printed secret at the head of a file, whatever follows its closing quote on that line.\<close>

lemma parse_printed:
  assumes "SECRET_KEY_REGEX k" "SQ \<notin> set v" "CR \<notin> set v" "LF \<notin> set u" "CR \<notin> set u"
  shows "parse_lines n (split_lines (''export '' @ k @ ''='' @ SQ # v @ SQ # u @ LF # after))
    = add_entry \<lparr>de_key = k, de_value = v, de_line = n\<rparr>
        (parse_lines (n + length (split_char LF v)) (split_lines after))"
proof -
  let ?h = "''export '' @ k @ ''='' @ [SQ]"
  note k = secret_key_plain [OF assms(1)]
  have plain: "LF \<notin> set ?h" "CR \<notin> set ?h" using k by auto
  obtain ss t where v: "split_char LF v = ss @ [t]" by (cases "split_char LF v" rule: rev_cases) auto
  have sv: "split_char LF (v @ SQ # u) = ss @ [t @ SQ # u]"
    using split_char_suffix [of LF "SQ # u" v] assms v by simp
  then obtain s0 ls where ls: "ss @ [t @ SQ # u] = s0 # ls" by (cases "ss @ [t @ SQ # u]") auto
  have "split_lines (''export '' @ k @ ''='' @ SQ # v @ SQ # u @ LF # after)
      = split_char LF (?h @ v @ SQ # u) @ split_lines after"
    using split_lines_append [of "?h @ v @ SQ # u" after] plain assms by simp
  also have "split_char LF (?h @ v @ SQ # u) = (?h @ s0) # ls"
    using split_char_prefix [OF plain(1)] sv ls by simp
  finally have lines: "split_lines (''export '' @ k @ ''='' @ SQ # v @ SQ # u @ LF # after) = (?h @ s0) # ls @ split_lines after"
    by simp
  have sq: "\<forall>s \<in> set (ss @ [t]). SQ \<notin> set s"
    using assms(2) v split_char_subset by metis
  have g: "gather_value SQ s0 (ls @ split_lines after) = (Some (ss @ [t]), split_lines after)"
    by (rule gather_sq [OF sq ls])
  have j: "join_str [LF] (ss @ [t]) = v" using join_split_char [of LF v] v by simp
  have a: "assignment_parts (?h @ s0) = Some (k, SQ # s0)"
    using assignment_of_export [OF assms(1), of s0] by simp
  have t: "trim_start (?h @ s0) = ?h @ s0" by (simp add: trim_start_def)
  have "length (ss @ [t]) = Suc (length ls)" using arg_cong [OF ls, of length] by simp
  then show ?thesis
    unfolding lines parse_lines.simps t Let_def a
    using g j v by simp
qed

definition export_line :: "(string \<Rightarrow> string \<Rightarrow> string) \<Rightarrow> string \<times> string \<Rightarrow> string" where
  "export_line to_json kv = formatSecretOutput to_json (fst kv) (snd kv) AsShell @ [LF]"

definition entry_pair :: "dotenv_entry \<Rightarrow> string \<times> string" where
  "entry_pair e = (de_key e, de_value e)"

lemma escape_sq_none: "SQ \<notin> set v \<Longrightarrow> escape_sq v = v"
  by (induction v) auto

lemma escape_sq_append: "escape_sq (a @ b) = escape_sq a @ escape_sq b"
  by (induction a) auto

lemma escape_sq_chars: "c \<notin> set v \<Longrightarrow> c \<noteq> SQ \<Longrightarrow> c \<noteq> DQ \<Longrightarrow> c \<notin> set (escape_sq v)"
  by (induction v) auto

lemma export_line_plain:
  "SQ \<notin> set v \<Longrightarrow> export_line j (k, v) @ after = ''export '' @ k @ ''='' @ SQ # v @ SQ # [] @ LF # after"
  by (simp add: export_line_def formatSecretOutput_def shellEscapeSecret_def escape_sq_none)

lemma parse_exports:
  assumes "\<forall>(k, v) \<in> set kvs. SECRET_KEY_REGEX k \<and> SQ \<notin> set v \<and> CR \<notin> set v"
  shows "map entry_pair (pd_entries (parse_lines n (split_lines (concat (map (export_line j) kvs))))) = kvs
    \<and> pd_malformed (parse_lines n (split_lines (concat (map (export_line j) kvs)))) = []"
  using assms
proof (induction kvs arbitrary: n)
  case Nil
  then show ?case by (simp add: split_lines_def trim_start_def)
next
  case (Cons kv kvs)
  obtain k v where [simp]: "kv = (k, v)" by (cases kv)
  have "parse_lines n (split_lines (concat (map (export_line j) (kv # kvs))))
      = add_entry \<lparr>de_key = k, de_value = v, de_line = n\<rparr>
          (parse_lines (n + length (split_char LF v)) (split_lines (concat (map (export_line j) kvs))))"
    using Cons.prems parse_printed [of k v "[]" n "concat (map (export_line j) kvs)"] export_line_plain [of v j k]
    by simp
  with Cons show ?case by (simp add: add_entry_def add_malformed_def entry_pair_def)
qed

lemma fold_classify_valid:
  assumes "\<forall>e \<in> set es. SECRET_KEY_REGEX (de_key e) \<and> de_value e \<noteq> []"
  shows "ip_valid (fold classify_entry es p) = fold (\<lambda>(k, v). assoc_set k v) (map entry_pair es) (ip_valid p)
    \<and> ip_invalidKeys (fold classify_entry es p) = ip_invalidKeys p
    \<and> ip_emptyValues (fold classify_entry es p) = ip_emptyValues p
    \<and> ip_malformed (fold classify_entry es p) = ip_malformed p"
  using assms
proof (induction es arbitrary: p)
  case (Cons e es)
  then show ?case by (simp add: classify_entry_def entry_pair_def)
qed simp

definition importable :: "dotenv_entry \<Rightarrow> bool" where
  "importable e \<longleftrightarrow> SECRET_KEY_REGEX (de_key e) \<and> de_value e \<noteq> []"

definition key_line :: "dotenv_entry \<Rightarrow> string \<times> nat" where
  "key_line e = (de_key e, de_line e)"

lemma fold_classify_exact:
  assumes "\<forall>e \<in> set es. importable e"
    and "distinct (map fst (ip_valid p) @ map de_key es)"
  shows "fold classify_entry es p = p\<lparr>ip_valid := ip_valid p @ map entry_pair es\<rparr>"
  using assms
proof (induction es arbitrary: p)
  case (Cons e es)
  have "de_key e \<notin> set (map fst (ip_valid p))" using Cons.prems by auto
  then have "classify_entry e p = p\<lparr>ip_valid := ip_valid p @ [entry_pair e]\<rparr>"
    using Cons.prems by (auto simp: classify_entry_def importable_def entry_pair_def assoc_set_new)
  moreover have "distinct (map fst (ip_valid (p\<lparr>ip_valid := ip_valid p @ [entry_pair e]\<rparr>)) @ map de_key es)"
    using Cons.prems(2) by (auto simp: entry_pair_def)
  ultimately show ?case
    using Cons.IH [of "p\<lparr>ip_valid := ip_valid p @ [entry_pair e]\<rparr>"] Cons.prems(1) by simp
qed simp

text \<open>The classes of a plan, whatever the file holds.\<close>

lemma fold_classify:
  "ip_valid (fold classify_entry es p)
      = fold (\<lambda>(k, v). assoc_set k v) (map entry_pair (filter importable es)) (ip_valid p)
    \<and> ip_invalidKeys (fold classify_entry es p)
      = ip_invalidKeys p @ map key_line (filter (\<lambda>e. \<not> SECRET_KEY_REGEX (de_key e)) es)
    \<and> ip_emptyValues (fold classify_entry es p)
      = ip_emptyValues p @ map key_line (filter (\<lambda>e. SECRET_KEY_REGEX (de_key e) \<and> de_value e = []) es)
    \<and> ip_malformed (fold classify_entry es p) = ip_malformed p"
  by (induction es arbitrary: p)
    (simp_all add: classify_entry_def entry_pair_def key_line_def importable_def)

lemma partition_exact:
  "ip_valid (partitionSecretImportEntries p) = assoc_of (map entry_pair (filter importable (pd_entries p)))
    \<and> ip_invalidKeys (partitionSecretImportEntries p)
      = map key_line (filter (\<lambda>e. \<not> SECRET_KEY_REGEX (de_key e)) (pd_entries p))
    \<and> ip_emptyValues (partitionSecretImportEntries p)
      = map key_line (filter (\<lambda>e. SECRET_KEY_REGEX (de_key e) \<and> de_value e = []) (pd_entries p))
    \<and> ip_malformed (partitionSecretImportEntries p) = pd_malformed p"
  by (simp add: partitionSecretImportEntries_def fold_classify assoc_of_def)

lemma partition_valid_keys:
  assumes "(k, v) \<in> set (ip_valid (partitionSecretImportEntries p))"
  shows "SECRET_KEY_REGEX k \<and> v \<noteq> []"
proof -
  let ?es = "map entry_pair (filter importable (pd_entries p))"
  have "map_of (assoc_of ?es) k = Some v"
    using assms by (simp add: partition_exact map_of_is_SomeI)
  then have "(k, v) \<in> set ?es" by (auto simp: map_of_assoc_of dest!: map_of_SomeD)
  then show ?thesis by (auto simp: entry_pair_def importable_def)
qed

lemma partition_valid_distinct: "distinct (map fst (ip_valid (partitionSecretImportEntries p)))"
  by (simp add: partition_exact)

lemma import_of_printed:
  assumes "distinct (map fst kvs)"
    and "\<forall>(k, v) \<in> set kvs. SECRET_KEY_REGEX k \<and> v \<noteq> [] \<and> SQ \<notin> set v \<and> CR \<notin> set v"
  shows "partitionSecretImportEntries (parseDotenv (concat (map (export_line j) kvs)))
    = \<lparr>ip_valid = kvs, ip_invalidKeys = [], ip_emptyValues = [], ip_malformed = [], ip_duplicates = []\<rparr>"
proof -
  let ?p = "parseDotenv (concat (map (export_line j) kvs))"
  have e: "map entry_pair (pd_entries ?p) = kvs" "pd_malformed ?p = []"
    using parse_exports [of kvs 1 j] assms(2) by (auto simp: parseDotenv_def)
  have "\<forall>x \<in> set (pd_entries ?p). importable x"
  proof
    fix x assume "x \<in> set (pd_entries ?p)"
    then have "entry_pair x \<in> set kvs" using e(1) by (metis image_eqI set_map)
    then show "importable x" using assms(2) by (auto simp: entry_pair_def importable_def)
  qed
  moreover have "map de_key (pd_entries ?p) = map fst kvs"
    using arg_cong [OF e(1), of "map fst"] by (simp add: entry_pair_def o_def)
  ultimately show ?thesis
    using assms(1) e by (simp add: partitionSecretImportEntries_def fold_classify_exact)
qed

lemma import_of_quoted:
  assumes "SECRET_KEY_REGEX k" "SQ \<notin> set a" "CR \<notin> set (a @ b)" "LF \<notin> set b"
  shows "parseDotenv (export_line j (k, a @ SQ # b))
    = \<lparr>pd_entries = [\<lparr>de_key = k, de_value = a, de_line = 1\<rparr>], pd_malformed = []\<rparr>"
proof -
  let ?u = "DQ # SQ # DQ # SQ # escape_sq b @ [SQ]"
  have "export_line j (k, a @ SQ # b) = ''export '' @ k @ ''='' @ SQ # a @ SQ # ?u @ LF # []"
    using assms(2) by (simp add: export_line_def formatSecretOutput_def shellEscapeSecret_def
        escape_sq_append escape_sq_none)
  moreover have "LF \<notin> set ?u" "CR \<notin> set ?u" using assms escape_sq_chars [of LF b] escape_sq_chars [of CR b] by auto
  ultimately show ?thesis
    using parse_printed [of k a ?u 1 "[]"] assms
    by (simp add: parseDotenv_def split_lines_def trim_start_def add_entry_def)
qed


definition example_secrets :: "(string \<times> string) list" where
  "example_secrets = [(''DATABASE_URL'', ''postgres://a#b''), (''CERT'', ''one'' @ [LF] @ ''two'')]"


end
