(* ===== verification/Toml_Edit.thy ===== *)
theory Toml_Edit
  imports Config Js_Numbers
begin

text \<open>
  The edits of the configuration file: config/toml-secrets.ts and config/toml-edit.ts, and the commands
  scale and config that use them (commands/scale.ts, config.ts). A file is what the TOML library parses
  it to; printing a document and parsing it again gives the document back, so writing a file stores
  the document. Only the keys the edits touch are fields of a table, the others are its tag tt_other.
\<close>

section \<open>Documents\<close>

datatype numeric_field = Replicas | Cpu | Memory

record toml_table =
  tt_name :: string
  tt_number :: "numeric_field \<Rightarrow> rat option"
  tt_env :: "(string, string) assoc option"
  tt_secrets :: "string list option"
  tt_other :: string

text \<open>A section is an array of tables, a single table, or absent (or not a table at all).\<close>

datatype toml_tables = TableArray "toml_table list" | SingleTable toml_table | NoTables

record toml_doc =
  td_service :: toml_tables
  td_job :: toml_tables
  td_database :: toml_tables

datatype toml_file = FileMissing | FileUnparseable | FileDoc toml_doc

datatype toml_error = ReadFailed | TableNotFound string | BelowMinimum numeric_field

fun tables :: "toml_tables \<Rightarrow> toml_table list" where
  "tables (TableArray ts) = ts"
| "tables (SingleTable t) = [t]"
| "tables NoTables = []"

definition named :: "string \<Rightarrow> toml_table \<Rightarrow> bool" where
  "named n t \<longleftrightarrow> tt_name t = n"

fun update_first :: "('a \<Rightarrow> bool) \<Rightarrow> ('a \<Rightarrow> 'a) \<Rightarrow> 'a list \<Rightarrow> 'a list" where
  "update_first P f [] = []"
| "update_first P f (x # xs) = (if P x then f x # xs else x # update_first P f xs)"

text \<open>The code mutates the table it found inside the parsed document.\<close>

fun update_tables :: "string \<Rightarrow> (toml_table \<Rightarrow> toml_table) \<Rightarrow> toml_tables \<Rightarrow> toml_tables" where
  "update_tables n f (TableArray ts) = TableArray (update_first (named n) f ts)"
| "update_tables n f (SingleTable t) = SingleTable (if named n t then f t else t)"
| "update_tables n f NoTables = NoTables"

definition read_doc :: "toml_file \<Rightarrow> toml_error + toml_doc" where
  "read_doc file = (case file of FileDoc d \<Rightarrow> Inr d | _ \<Rightarrow> Inl ReadFailed)"

section \<open>Secrets of a service\<close>

definition secretsOf :: "toml_table \<Rightarrow> string list" where
  "secretsOf t = (case tt_secrets t of None \<Rightarrow> [] | Some ks \<Rightarrow> ks)"

definition readServiceSecrets :: "toml_file \<Rightarrow> string \<Rightarrow> toml_error + string list" where
  "readServiceSecrets file n =
     res_bind (read_doc file) (\<lambda>d.
       case find (named n) (tables (td_service d)) of
         Some t \<Rightarrow> Inr (secretsOf t)
       | None \<Rightarrow>
           (case find (named n) (tables (td_job d)) of
              Some t \<Rightarrow> Inr (secretsOf t)
            | None \<Rightarrow>
                (case find (named n) (tables (td_database d)) of
                   Some _ \<Rightarrow> Inr [POSTGRES_PASSWORD_SECRET]
                 | None \<Rightarrow> Inl (TableNotFound n))))"

text \<open>The first service of the name, or else the first job.\<close>

definition find_target :: "toml_doc \<Rightarrow> string \<Rightarrow> toml_table option" where
  "find_target d n =
     (case find (named n) (tables (td_service d)) of
        Some t \<Rightarrow> Some t
      | None \<Rightarrow> find (named n) (tables (td_job d)))"

definition update_target :: "string \<Rightarrow> (toml_table \<Rightarrow> toml_table) \<Rightarrow> toml_doc \<Rightarrow> toml_doc" where
  "update_target n f d =
     (if find (named n) (tables (td_service d)) \<noteq> None then d\<lparr>td_service := update_tables n f (td_service d)\<rparr>
      else d\<lparr>td_job := update_tables n f (td_job d)\<rparr>)"

text \<open>Each operation returns its result and the file it leaves.\<close>

definition registerServiceSecrets :: "toml_file \<Rightarrow> string \<Rightarrow> string list \<Rightarrow> toml_error + (string list \<times> toml_file)" where
  "registerServiceSecrets file n keys =
     res_bind (read_doc file) (\<lambda>d.
       case find_target d n of
         None \<Rightarrow>
           if find (named n) (tables (td_database d)) \<noteq> None \<and> list_all (\<lambda>k. k = POSTGRES_PASSWORD_SECRET) keys
           then Inr ([], file) else Inl (TableNotFound n)
       | Some t \<Rightarrow>
           let secrets = secretsOf t;
               added = filter (\<lambda>k. k \<notin> set secrets) (js_dedup keys)
           in if added = [] then Inr ([], file)
              else Inr (added, FileDoc (update_target n (\<lambda>t. t\<lparr>tt_secrets := Some (secrets @ added)\<rparr>) d)))"

definition registerServiceSecret :: "toml_file \<Rightarrow> string \<Rightarrow> string \<Rightarrow> toml_error + (bool \<times> toml_file)" where
  "registerServiceSecret file n key =
     res_bind (registerServiceSecrets file n [key]) (\<lambda>(added, file'). Inr (added \<noteq> [], file'))"

definition unregisterServiceSecret :: "toml_file \<Rightarrow> string \<Rightarrow> string \<Rightarrow> toml_error + (bool \<times> toml_file)" where
  "unregisterServiceSecret file n key =
     res_bind (read_doc file) (\<lambda>d.
       case find_target d n of
         None \<Rightarrow> if find (named n) (tables (td_database d)) \<noteq> None then Inr (False, file) else Inl (TableNotFound n)
       | Some t \<Rightarrow>
           let secrets = secretsOf t
           in if key \<notin> set secrets then Inr (False, file)
              else Inr (True, FileDoc (update_target n (\<lambda>t. t\<lparr>tt_secrets := Some (filter (\<lambda>k. k \<noteq> key) secrets)\<rparr>) d)))"

section \<open>Numbers and environment variables of a service\<close>

definition findService :: "toml_doc \<Rightarrow> string \<Rightarrow> toml_error + toml_table" where
  "findService d n =
     (case find (named n) (tables (td_service d)) of None \<Rightarrow> Inl (TableNotFound n) | Some t \<Rightarrow> Inr t)"

definition update_service :: "string \<Rightarrow> (toml_table \<Rightarrow> toml_table) \<Rightarrow> toml_doc \<Rightarrow> toml_doc" where
  "update_service n f d = d\<lparr>td_service := update_tables n f (td_service d)\<rparr>"

record ('a, 'b) toml_edit =
  te_previous :: 'a
  te_next :: 'b
  te_changed :: bool

definition readServiceNumericField :: "toml_file \<Rightarrow> string \<Rightarrow> numeric_field \<Rightarrow> toml_error + rat option" where
  "readServiceNumericField file n f =
     res_bind (read_doc file) (\<lambda>d. res_bind (findService d n) (\<lambda>t. Inr (tt_number t f)))"

definition setServiceNumericField ::
  "toml_file \<Rightarrow> string \<Rightarrow> numeric_field \<Rightarrow> int \<Rightarrow> toml_error + ((rat option, int) toml_edit \<times> toml_file)" where
  "setServiceNumericField file n f v =
     (if v < SERVICE_NUMERIC_FIELD_MIN then Inl (BelowMinimum f)
      else res_bind (read_doc file) (\<lambda>d. res_bind (findService d n) (\<lambda>t.
        if tt_number t f = Some (of_int v)
        then Inr (\<lparr>te_previous = tt_number t f, te_next = v, te_changed = False\<rparr>, file)
        else Inr (\<lparr>te_previous = tt_number t f, te_next = v, te_changed = True\<rparr>,
                  FileDoc (update_service n (\<lambda>t. t\<lparr>tt_number := (tt_number t)(f := Some (of_int v))\<rparr>) d)))))"

definition envOf :: "toml_table \<Rightarrow> (string, string) assoc" where
  "envOf t = (case tt_env t of None \<Rightarrow> [] | Some e \<Rightarrow> e)"

text \<open>
  \<open>key in env\<close> also holds for the names every object inherits, whose value is not a string.
\<close>

definition OBJECT_PROTOTYPE_KEYS :: "string list" where
  "OBJECT_PROTOTYPE_KEYS =
     [''constructor'', ''__defineGetter__'', ''__defineSetter__'', ''hasOwnProperty'', ''__lookupGetter__'',
      ''__lookupSetter__'', ''isPrototypeOf'', ''propertyIsEnumerable'', ''toString'', ''valueOf'', ''__proto__'',
      ''toLocaleString'']"

datatype env_value = Own string | Inherited

definition env_get :: "(string, string) assoc \<Rightarrow> string \<Rightarrow> env_value option" where
  "env_get env key =
     (case map_of env key of Some v \<Rightarrow> Some (Own v)
      | None \<Rightarrow> if key \<in> set OBJECT_PROTOTYPE_KEYS then Some Inherited else None)"

type_synonym env_edit = "(env_value option, string option) toml_edit"

definition setServiceEnvVar :: "toml_file \<Rightarrow> string \<Rightarrow> string \<Rightarrow> string \<Rightarrow> toml_error + (env_edit \<times> toml_file)" where
  "setServiceEnvVar file n key v =
     res_bind (read_doc file) (\<lambda>d. res_bind (findService d n) (\<lambda>t.
       let env = envOf t; previous = env_get env key
       in if previous = Some (Own v) then Inr (\<lparr>te_previous = previous, te_next = Some v, te_changed = False\<rparr>, file)
          else Inr (\<lparr>te_previous = previous, te_next = Some v, te_changed = True\<rparr>,
                    FileDoc (update_service n (\<lambda>t. t\<lparr>tt_env := Some (assoc_set key v env)\<rparr>) d))))"

definition unsetServiceEnvVar :: "toml_file \<Rightarrow> string \<Rightarrow> string \<Rightarrow> toml_error + (env_edit \<times> toml_file)" where
  "unsetServiceEnvVar file n key =
     res_bind (read_doc file) (\<lambda>d. res_bind (findService d n) (\<lambda>t.
       let env = envOf t; previous = env_get env key
       in if previous = None then Inr (\<lparr>te_previous = None, te_next = None, te_changed = False\<rparr>, file)
          else Inr (\<lparr>te_previous = previous, te_next = None, te_changed = True\<rparr>,
                    FileDoc (update_service n (\<lambda>t. t\<lparr>tt_env := Some (filter (\<lambda>kv. fst kv \<noteq> key) env)\<rparr>) d))))"

section \<open>An edit changes one field of one table\<close>

lemma find_update_first:
  "(\<And>t. tt_name (f t) = tt_name t) \<Longrightarrow>
     find (named m) (update_first (named n) f ts)
       = (if m = n then map_option f (find (named n) ts) else find (named m) ts)"
  by (induction ts) (auto simp: named_def)

lemma tables_update [simp]: "tables (update_tables n f s) = update_first (named n) f (tables s)"
  by (cases s) simp_all

lemma find_service_update:
  assumes "\<And>t. tt_name (f t) = tt_name t"
  shows "find (named m) (tables (td_service (update_service n f d)))
    = (if m = n then map_option f (find (named n) (tables (td_service d))) else find (named m) (tables (td_service d)))"
    "td_job (update_service n f d) = td_job d" "td_database (update_service n f d) = td_database d"
  using assms by (simp_all add: update_service_def find_update_first)

lemma findService_update:
  "(\<And>t. tt_name (f t) = tt_name t) \<Longrightarrow>
     findService (update_service n f d) m = (if m = n then map_sum id f (findService d n) else findService d m)"
  by (simp add: findService_def find_service_update split: option.splits)

lemma find_target_update:
  assumes "\<And>t. tt_name (f t) = tt_name t"
  shows "find_target (update_target n f d) m = (if m = n then map_option f (find_target d n) else find_target d m)"
    "td_database (update_target n f d) = td_database d"
  using assms by (auto simp: find_target_def update_target_def find_update_first split: option.splits)

lemma find_target_service_update:
  "(\<And>t. tt_name (f t) = tt_name t) \<Longrightarrow> (\<And>t. tt_secrets (f t) = tt_secrets t) \<Longrightarrow>
     map_option secretsOf (find_target (update_service n f d) m) = map_option secretsOf (find_target d m)"
  by (auto simp: find_target_def find_service_update secretsOf_def split: option.splits)

lemma readServiceSecrets_target:
  "readServiceSecrets (FileDoc d) n =
     (case find_target d n of
        Some t \<Rightarrow> Inr (secretsOf t)
      | None \<Rightarrow> if find (named n) (tables (td_database d)) \<noteq> None then Inr [POSTGRES_PASSWORD_SECRET]
               else Inl (TableNotFound n))"
  by (auto simp: readServiceSecrets_def find_target_def read_doc_def split: option.splits)

text \<open>The environment as the file declares it.\<close>

definition readServiceEnv :: "toml_file \<Rightarrow> string \<Rightarrow> string \<Rightarrow> toml_error + string option" where
  "readServiceEnv file n key =
     res_bind (read_doc file) (\<lambda>d. res_bind (findService d n) (\<lambda>t. Inr (map_of (envOf t) key)))"

text \<open>What no edit of the group touches, in any table.\<close>

definition same_secrets :: "toml_file \<Rightarrow> toml_file \<Rightarrow> bool" where
  "same_secrets f g \<longleftrightarrow> readServiceSecrets f = readServiceSecrets g"

definition same_numbers :: "toml_file \<Rightarrow> toml_file \<Rightarrow> bool" where
  "same_numbers f g \<longleftrightarrow> readServiceNumericField f = readServiceNumericField g"

definition same_env :: "toml_file \<Rightarrow> toml_file \<Rightarrow> bool" where
  "same_env f g \<longleftrightarrow> readServiceEnv f = readServiceEnv g"

lemma read_doc_Inr: "read_doc file = Inr d \<longleftrightarrow> file = FileDoc d"
  by (auto simp: read_doc_def split: toml_file.splits)

lemmas edit_reads = readServiceNumericField_def readServiceEnv_def readServiceSecrets_target read_doc_def

lemma update_service_same:
  assumes "\<And>t. tt_name (f t) = tt_name t"
  shows "(\<And>t. tt_secrets (f t) = tt_secrets t) \<Longrightarrow> same_secrets (FileDoc (update_service n f d)) (FileDoc d)"
    "(\<And>t. tt_number (f t) = tt_number t) \<Longrightarrow> same_numbers (FileDoc (update_service n f d)) (FileDoc d)"
    "(\<And>t. tt_env (f t) = tt_env t) \<Longrightarrow> same_env (FileDoc (update_service n f d)) (FileDoc d)"
proof -
  show "same_secrets (FileDoc (update_service n f d)) (FileDoc d)" if "\<And>t. tt_secrets (f t) = tt_secrets t"
    unfolding same_secrets_def fun_eq_iff
  proof
    fix m
    have "map_option secretsOf (find_target (update_service n f d) m) = map_option secretsOf (find_target d m)"
      using assms that by (rule find_target_service_update)
    then show "readServiceSecrets (FileDoc (update_service n f d)) m = readServiceSecrets (FileDoc d) m"
      using assms by (auto simp: readServiceSecrets_target find_service_update split: option.splits)
  qed
  show "same_numbers (FileDoc (update_service n f d)) (FileDoc d)" if "\<And>t. tt_number (f t) = tt_number t"
    using assms that by (auto simp: same_numbers_def fun_eq_iff edit_reads findService_update)
      (cases "findService d n"; simp)+
  show "same_env (FileDoc (update_service n f d)) (FileDoc d)" if "\<And>t. tt_env (f t) = tt_env t"
    using assms that by (auto simp: same_env_def fun_eq_iff edit_reads findService_update envOf_def)
      (cases "findService d n"; simp)+
qed

lemma same_file_refl [simp]: "same_secrets f f" "same_numbers f f" "same_env f f"
  by (simp_all add: same_secrets_def same_numbers_def same_env_def)

text \<open>Setting a number: it is read back, nothing else differs, and setting it again writes nothing.\<close>

lemma numeric_edit_exact:
  assumes "setServiceNumericField file n f v = Inr (e, file')"
  shows "readServiceNumericField file' n f = Inr (Some (of_int v))"
    "(m, g) \<noteq> (n, f) \<Longrightarrow> readServiceNumericField file' m g = readServiceNumericField file m g"
    "same_secrets file' file" "same_env file' file"
    "Inr (te_previous e) = readServiceNumericField file n f" "te_next e = v"
    "te_changed e \<longleftrightarrow> te_previous e \<noteq> Some (of_int v)"
    "\<not> te_changed e \<Longrightarrow> file' = file"
    "SERVICE_NUMERIC_FIELD_MIN \<le> v"
    "setServiceNumericField file' n f v = Inr (\<lparr>te_previous = Some (of_int v), te_next = v, te_changed = False\<rparr>, file')"
proof -
  let ?f = "\<lambda>t. t\<lparr>tt_number := (tt_number t)(f := Some (of_int v))\<rparr>"
  obtain d t where d: "file = FileDoc d" and t: "findService d n = Inr t" and v: "SERVICE_NUMERIC_FIELD_MIN \<le> v"
    using assms by (auto simp: setServiceNumericField_def res_bind_eq_Inr read_doc_Inr split: if_splits)
  have u: "findService (update_service n ?f d) m = (if m = n then Inr (?f t) else findService d m)" for m
    using t by (simp add: findService_update)
  consider "tt_number t f = Some (of_int v)" "file' = file" "e = \<lparr>te_previous = tt_number t f, te_next = v, te_changed = False\<rparr>"
    | "tt_number t f \<noteq> Some (of_int v)" "file' = FileDoc (update_service n ?f d)"
      "e = \<lparr>te_previous = tt_number t f, te_next = v, te_changed = True\<rparr>"
    using assms d t v by (auto simp: setServiceNumericField_def read_doc_def split: if_splits)
  note c = this
  show "readServiceNumericField file' n f = Inr (Some (of_int v))"
    using c by cases (simp_all add: edit_reads d t u)
  show "readServiceNumericField file' m g = readServiceNumericField file m g" if "(m, g) \<noteq> (n, f)"
    using c that t by cases (auto simp: edit_reads d u)
  show "same_secrets file' file" "same_env file' file"
    using c update_service_same [of ?f n d] by (cases; simp add: d)+
  show "Inr (te_previous e) = readServiceNumericField file n f" "te_next e = v"
    "te_changed e \<longleftrightarrow> te_previous e \<noteq> Some (of_int v)" "\<not> te_changed e \<Longrightarrow> file' = file"
    using c by (cases; simp add: edit_reads d t)+
  show "SERVICE_NUMERIC_FIELD_MIN \<le> v" by (rule v)
  show "setServiceNumericField file' n f v = Inr (\<lparr>te_previous = Some (of_int v), te_next = v, te_changed = False\<rparr>, file')"
    using c v by cases (simp_all add: setServiceNumericField_def read_doc_def d t u)
qed

lemma map_of_filter_ne: "map_of (filter (\<lambda>kv. fst kv \<noteq> k) m) x = (if x = k then None else map_of m x)"
  by (induction m) auto

lemma env_get_Own: "env_get env k = Some (Own v) \<longleftrightarrow> map_of env k = Some v"
  by (simp add: env_get_def split: option.splits)

lemma envOf_update [simp]: "envOf (t\<lparr>tt_env := Some x\<rparr>) = x"
  by (simp add: envOf_def)

lemma env_set_exact:
  assumes "setServiceEnvVar file n key v = Inr (e, file')"
  shows "readServiceEnv file' n key = Inr (Some v)"
    "(m, k) \<noteq> (n, key) \<Longrightarrow> readServiceEnv file' m k = readServiceEnv file m k"
    "same_secrets file' file" "same_numbers file' file" "\<not> te_changed e \<Longrightarrow> file' = file"
proof -
  obtain d t where d: "file = FileDoc d" and t: "findService d n = Inr t"
    using assms by (auto simp: setServiceEnvVar_def res_bind_eq_Inr read_doc_Inr)
  let ?f = "\<lambda>s. s\<lparr>tt_env := Some (assoc_set key v (envOf t))\<rparr>"
  have u: "findService (update_service n ?f d) m = (if m = n then Inr (?f t) else findService d m)" for m
    using t by (simp add: findService_update)
  consider "env_get (envOf t) key = Some (Own v)" "file' = file"
    | "te_changed e" "file' = FileDoc (update_service n ?f d)"
    using assms d t by (auto simp: setServiceEnvVar_def read_doc_def Let_def split: if_splits)
  note c = this
  show "readServiceEnv file' n key = Inr (Some v)"
    using c by cases (simp_all add: edit_reads d t u env_get_Own js_map)
  show "readServiceEnv file' m k = readServiceEnv file m k" if "(m, k) \<noteq> (n, key)"
    using c that t by cases (auto simp: edit_reads d u js_map)
  show "same_secrets file' file" "same_numbers file' file" "\<not> te_changed e \<Longrightarrow> file' = file"
    using c update_service_same [of ?f n d] by (cases; simp add: d)+
qed

lemma env_unset_exact:
  assumes "unsetServiceEnvVar file n key = Inr (e, file')"
  shows "readServiceEnv file' n key = Inr None"
    "(m, k) \<noteq> (n, key) \<Longrightarrow> readServiceEnv file' m k = readServiceEnv file m k"
    "same_secrets file' file" "same_numbers file' file" "\<not> te_changed e \<Longrightarrow> file' = file"
proof -
  obtain d t where d: "file = FileDoc d" and t: "findService d n = Inr t"
    using assms by (auto simp: unsetServiceEnvVar_def res_bind_eq_Inr read_doc_Inr)
  let ?f = "\<lambda>s. s\<lparr>tt_env := Some (filter (\<lambda>kv. fst kv \<noteq> key) (envOf t))\<rparr>"
  have u: "findService (update_service n ?f d) m = (if m = n then Inr (?f t) else findService d m)" for m
    using t by (simp add: findService_update)
  consider "env_get (envOf t) key = None" "file' = file"
    | "te_changed e" "file' = FileDoc (update_service n ?f d)"
    using assms d t by (auto simp: unsetServiceEnvVar_def read_doc_def Let_def split: if_splits)
  note c = this
  show "readServiceEnv file' n key = Inr None"
    using c by cases (simp_all add: edit_reads d t u env_get_def map_of_filter_ne split: option.splits)
  show "readServiceEnv file' m k = readServiceEnv file m k" if "(m, k) \<noteq> (n, key)"
    using c that t by cases (auto simp: edit_reads d u map_of_filter_ne)
  show "same_secrets file' file" "same_numbers file' file" "\<not> te_changed e \<Longrightarrow> file' = file"
    using c update_service_same [of ?f n d] by (cases; simp add: d)+
qed

text \<open>
  Registering keys appends the new ones to what the service lists; registering never fails on a service
  or a job of the file, and on a database only its password can be registered.
\<close>

lemma register_exact:
  assumes "registerServiceSecrets file n keys = Inr (added, file')"
  shows "\<exists>ks. readServiceSecrets file n = Inr ks \<and> readServiceSecrets file' n = Inr (ks @ added)
      \<and> set (ks @ added) = set ks \<union> set keys \<and> set ks \<inter> set added = {} \<and> distinct added"
    "m \<noteq> n \<Longrightarrow> readServiceSecrets file' m = readServiceSecrets file m"
proof -
  obtain d where d: "file = FileDoc d"
    using assms by (auto simp: registerServiceSecrets_def res_bind_eq_Inr read_doc_Inr)
  have "(\<exists>ks. readServiceSecrets file n = Inr ks \<and> readServiceSecrets file' n = Inr (ks @ added)
      \<and> set (ks @ added) = set ks \<union> set keys \<and> set ks \<inter> set added = {} \<and> distinct added)
    \<and> (m \<noteq> n \<longrightarrow> readServiceSecrets file' m = readServiceSecrets file m)" for m
  proof (cases "find_target d n")
    case None
    then have "added = []" "file' = file" "find (named n) (tables (td_database d)) \<noteq> None"
      "list_all (\<lambda>k. k = POSTGRES_PASSWORD_SECRET) keys"
      using assms d by (auto simp: registerServiceSecrets_def read_doc_def split: if_splits)
    then show ?thesis using None d by (auto simp: readServiceSecrets_target list_all_iff)
  next
    case (Some t)
    define a where "a = filter (\<lambda>k. k \<notin> set (secretsOf t)) (js_dedup keys)"
    then have a: "set a = set keys - set (secretsOf t)" "distinct a" by auto
    let ?f = "\<lambda>s. s\<lparr>tt_secrets := Some (secretsOf t @ a)\<rparr>"
    have e: "added = a" "file' = (if a = [] then file else FileDoc (update_target n ?f d))"
      using assms d Some by (auto simp: registerServiceSecrets_def read_doc_def Let_def a_def split: if_splits)
    have u: "find_target (update_target n ?f d) m = (if m = n then Some (?f t) else find_target d m)" for m
      using find_target_update(1) [of ?f n d m] Some by simp
    have "td_database (update_target n ?f d) = td_database d" by (simp add: find_target_update)
    moreover have "secretsOf (?f t) = secretsOf t @ a" by (simp add: secretsOf_def)
    ultimately show ?thesis using Some d a e u
      by (cases "a = []") (auto simp: readServiceSecrets_target)
  qed
  then show "\<exists>ks. readServiceSecrets file n = Inr ks \<and> readServiceSecrets file' n = Inr (ks @ added)
      \<and> set (ks @ added) = set ks \<union> set keys \<and> set ks \<inter> set added = {} \<and> distinct added"
    "m \<noteq> n \<Longrightarrow> readServiceSecrets file' m = readServiceSecrets file m" by blast+
qed

end
