(* ===== verification/Deploy_Edits.thy ===== *)
theory Deploy_Edits
  imports Toml_Edit Deploy
begin

text \<open>
  The commands that edit the configuration file and deploy the one service they changed:
  commands/scale.ts, config.ts and edit-deploy.ts. The loaded configuration is a parameter (None when
  loading fails), the file is the one it was loaded from; the deploy a command ends with is its result.
\<close>

datatype edit_error =
    ConfigNotLoaded
  | NotAService string "string list"
  | CronNotScalable string
  | InvalidCount string
  | InvalidAssignment string
  | InvalidEnvName string
  | EditRefused toml_error

record edit_options =
  eo_deploy :: bool
  eo_yes :: bool
  eo_wait :: bool
  eo_timeout :: "string option"
  eo_dryRun :: bool

datatype edit_outcome = Previewed | EditedOnly bool | DeployNow deploy_options

definition deployOptionsForEdit :: "string \<Rightarrow> edit_options \<Rightarrow> deploy_options" where
  "deployOptionsForEdit service opts =
     \<lparr>do_service = Some service, do_changed = None, do_env = None, do_ttl = None, do_wait = eo_wait opts,
      do_yes = eo_yes opts, do_dryRun = False, do_create = False, do_repair = False, do_recreate = False,
      do_restart = False, do_image = None, do_remoteBuild = False, do_allowNewServices = False,
      do_timeout = eo_timeout opts\<rparr>"

text \<open>\<open>Number\<close> rounds what is above the safe integers to a value above them.\<close>

definition parseCount :: "string \<Rightarrow> int option" where
  "parseCount raw =
     (let t = trim raw in
      if \<not> all_digits t then None
      else if int (digits_val t) \<le> MAX_SAFE_INTEGER then Some (int (digits_val t)) else None)"

definition decl_number :: "numeric_field \<Rightarrow> service_decl \<Rightarrow> int" where
  "decl_number f s = (case f of Replicas \<Rightarrow> sd_replicas s | Cpu \<Rightarrow> sd_cpu s | Memory \<Rightarrow> sd_memory s)"

definition declared_service :: "launch_pad_config option \<Rightarrow> string \<Rightarrow> edit_error + service_decl" where
  "declared_service config service =
     (case config of None \<Rightarrow> Inl ConfigNotLoaded
      | Some c \<Rightarrow>
          (case find (\<lambda>s. sd_name s = service) (lc_service c) of
             None \<Rightarrow> Inl (NotAService service (map sd_name (lc_service c)))
           | Some d \<Rightarrow> Inr d))"

definition edit_result ::
  "string \<Rightarrow> edit_options \<Rightarrow> toml_file \<Rightarrow> toml_error + (('a, 'b) toml_edit \<times> toml_file) \<Rightarrow> (edit_error + edit_outcome) \<times> toml_file" where
  "edit_result service opts file r =
     (case r of
        Inl e \<Rightarrow> (Inl (EditRefused e), file)
      | Inr (e, file') \<Rightarrow>
          (if \<not> eo_deploy opts then (Inr (EditedOnly (te_changed e)), file')
           else (Inr (DeployNow (deployOptionsForEdit service opts)), file')))"

definition runScale ::
  "numeric_field \<Rightarrow> string \<Rightarrow> string \<Rightarrow> edit_options \<Rightarrow> launch_pad_config option \<Rightarrow> toml_file
   \<Rightarrow> (edit_error + edit_outcome) \<times> toml_file" where
  "runScale fld service rawValue opts config file =
     (case declared_service config service of
        Inl e \<Rightarrow> (Inl e, file)
      | Inr decl \<Rightarrow>
          if fld = Replicas \<and> sd_cron decl \<noteq> None then (Inl (CronNotScalable service), file)
          else (case parseCount rawValue of
             None \<Rightarrow> (Inl (InvalidCount rawValue), file)
           | Some v \<Rightarrow>
               (case readServiceNumericField file service fld of
                  Inl e \<Rightarrow> (Inl (EditRefused e), file)
                | Inr _ \<Rightarrow>
                    if eo_dryRun opts then (Inr Previewed, file)
                    else edit_result service opts file (setServiceNumericField file service fld v))))"

definition ENV_KEY_REGEX :: "string \<Rightarrow> bool" where
  "ENV_KEY_REGEX s \<longleftrightarrow>
     (case s of [] \<Rightarrow> False
      | c # r \<Rightarrow> (is_upper c \<or> is_lower c \<or> c = CHR ''_'')
          \<and> list_all (\<lambda>c. is_upper c \<or> is_lower c \<or> is_digit c \<or> c = CHR ''_'') r)"

definition parseAssignment :: "string \<Rightarrow> (string \<times> string) option" where
  "parseAssignment raw =
     (case index_of (CHR ''='') raw of
        None \<Rightarrow> None
      | Some e \<Rightarrow> if e = 0 then None else Some (take e raw, drop (Suc e) raw))"

definition runConfigSet ::
  "string \<Rightarrow> string \<Rightarrow> edit_options \<Rightarrow> launch_pad_config option \<Rightarrow> toml_file \<Rightarrow> (edit_error + edit_outcome) \<times> toml_file" where
  "runConfigSet service assignment opts config file =
     (case parseAssignment assignment of
        None \<Rightarrow> (Inl (InvalidAssignment assignment), file)
      | Some (key, v) \<Rightarrow>
          if \<not> ENV_KEY_REGEX key then (Inl (InvalidEnvName key), file)
          else (case declared_service config service of
             Inl e \<Rightarrow> (Inl e, file)
           | Inr _ \<Rightarrow>
               if eo_dryRun opts then (Inr Previewed, file)
               else edit_result service opts file (setServiceEnvVar file service key v)))"

definition runConfigUnset ::
  "string \<Rightarrow> string \<Rightarrow> edit_options \<Rightarrow> launch_pad_config option \<Rightarrow> toml_file \<Rightarrow> (edit_error + edit_outcome) \<times> toml_file" where
  "runConfigUnset service key opts config file =
     (if \<not> ENV_KEY_REGEX key then (Inl (InvalidEnvName key), file)
      else (case declared_service config service of
         Inl e \<Rightarrow> (Inl e, file)
       | Inr _ \<Rightarrow>
           if eo_dryRun opts then (Inr Previewed, file)
           else edit_result service opts file (unsetServiceEnvVar file service key)))"

section \<open>What an edit leaves\<close>

lemma filter_by_key: "distinct (map f xs) \<Longrightarrow> x \<in> set xs \<Longrightarrow> filter (\<lambda>t. f t = f x) xs = [x]"
  by (induction xs) (force simp: filter_empty_conv image_iff)+

lemma edit_selects_one:
  assumes "accepted_config now c" "s \<in> set (lc_service c)"
  shows "select_services (deployOptionsForEdit (sd_name s) opts) (lc_service c) dir repo changed = Inr (Some [s])"
proof -
  have "distinct (map sd_name (lc_service c))"
    using assms(1) by (auto simp: accepted_config_def config_issues_def config_root_issues_Nil)
  then have f: "filter (\<lambda>t. sd_name t = sd_name s) (lc_service c) = [s]" using assms(2) by (rule filter_by_key)
  have "valid_service_decl s"
    using assms by (auto simp: accepted_config_def valid_config_fields_def list_all_iff)
  then have "sd_name s \<noteq> []" by (auto simp: valid_service_decl_def LABEL_REGEX_def dashed_def)
  with f show ?thesis
    by (simp add: select_services_def named_services_def deployOptionsForEdit_def)
qed

lemma declared_service_Inr:
  "declared_service (Some c) n = Inr s \<longleftrightarrow> find (\<lambda>s. sd_name s = n) (lc_service c) = Some s"
  by (simp add: declared_service_def split: option.splits)

text \<open>What the file says after a number was set, and what the deploy that follows is about.\<close>

definition only_number_changed :: "toml_file \<Rightarrow> toml_file \<Rightarrow> string \<Rightarrow> numeric_field \<Rightarrow> int \<Rightarrow> bool" where
  "only_number_changed file file' n f v \<longleftrightarrow>
     readServiceNumericField file' n f = Inr (Some (of_int v)) \<and> same_secrets file' file \<and> same_env file' file
     \<and> (\<forall>m g. (m, g) \<noteq> (n, f) \<longrightarrow> readServiceNumericField file' m g = readServiceNumericField file m g)"

lemma edit_result_cases:
  "edit_result n opts file r = (out, file') \<Longrightarrow>
     (\<exists>e. r = Inl e \<and> out = Inl (EditRefused e) \<and> file' = file)
     \<or> (\<exists>e. r = Inr (e, file') \<and> out = Inr (if eo_deploy opts then DeployNow (deployOptionsForEdit n opts) else EditedOnly (te_changed e)))"
  by (auto simp: edit_result_def split: sum.splits prod.splits if_splits)

lemma scale_cases:
  assumes "runScale f n raw opts (Some c) file = (out, file')"
  shows "(file' = file \<and> (out = Inr Previewed \<or> (\<exists>e. out = Inl e)))
    \<or> (\<exists>s v e. find (\<lambda>s. sd_name s = n) (lc_service c) = Some s \<and> (f = Replicas \<longrightarrow> sd_cron s = None)
        \<and> parseCount raw = Some v \<and> setServiceNumericField file n f v = Inr (e, file')
        \<and> out = Inr (if eo_deploy opts then DeployNow (deployOptionsForEdit n opts) else EditedOnly (te_changed e)))"
proof (cases "declared_service (Some c) n")
  case (Inl e)
  with assms have "out = Inl e" "file' = file" by (simp_all add: runScale_def)
  then show ?thesis by blast
next
  case (Inr s)
  show ?thesis
  proof (cases "f = Replicas \<and> sd_cron s \<noteq> None \<or> parseCount raw = None \<or> (\<exists>e. readServiceNumericField file n f = Inl e) \<or> eo_dryRun opts")
    case True
    with assms Inr show ?thesis
      by (auto simp: runScale_def split: option.splits sum.splits if_splits)
  next
    case False
    then obtain v where v: "parseCount raw = Some v" by auto
    have "edit_result n opts file (setServiceNumericField file n f v) = (out, file')"
      using False assms Inr v by (auto simp: runScale_def split: sum.splits)
    from edit_result_cases [OF this] show ?thesis
    proof
      assume "\<exists>e. setServiceNumericField file n f v = Inl e \<and> out = Inl (EditRefused e) \<and> file' = file"
      then show ?thesis by blast
    qed (use False v Inr in \<open>auto simp: declared_service_Inr\<close>)
  qed
qed

text \<open>
  \<open>scale\<close> changes one number of one service and then deploys exactly that service: the number it
  wrote is the count that was given, at least one, never the replicas of a scheduled service; every
  other number, the environment and the secrets of every service stay as they were. A refusal or a
  preview leaves the file alone.
\<close>

theorem scale_edits_one_number:
  assumes "accepted_config now c" and "runScale f n raw opts (Some c) file = (out, file')"
  shows "case out of
      Inr (DeployNow o') \<Rightarrow>
        (\<exists>v s. s \<in> set (lc_service c) \<and> sd_name s = n \<and> (f = Replicas \<longrightarrow> sd_cron s = None)
          \<and> parseCount raw = Some v \<and> 1 \<le> v \<and> only_number_changed file file' n f v
          \<and> (\<forall>dir repo changed. select_services o' (lc_service c) dir repo changed = Inr (Some [s])))
    | Inr (EditedOnly _) \<Rightarrow> (\<exists>v. parseCount raw = Some v \<and> only_number_changed file file' n f v)
    | _ \<Rightarrow> file' = file"
proof (rule disjE [OF scale_cases [OF assms(2)]], goal_cases)
  case 1
  then show ?case by auto
next
  case 2
  then obtain s v e where s: "find (\<lambda>s. sd_name s = n) (lc_service c) = Some s" "f = Replicas \<longrightarrow> sd_cron s = None"
    and v: "parseCount raw = Some v" and e: "setServiceNumericField file n f v = Inr (e, file')"
    and out: "out = Inr (if eo_deploy opts then DeployNow (deployOptionsForEdit n opts) else EditedOnly (te_changed e))"
    by blast
  have m: "s \<in> set (lc_service c)" "sd_name s = n" using find_SomeD [OF s(1)] by auto
  note x = numeric_edit_exact [OF e]
  have o: "only_number_changed file file' n f v" using x by (simp add: only_number_changed_def)
  have "1 \<le> v" using x(9) by (simp add: SERVICE_NUMERIC_FIELD_MIN_def)
  moreover have "select_services (deployOptionsForEdit n opts) (lc_service c) dir repo changed = Inr (Some [s])" for dir repo changed
    using edit_selects_one [OF assms(1) m(1)] m(2) by simp
  ultimately show ?case unfolding out using m s(2) v o by auto
qed

text \<open>The same for a variable of the environment.\<close>

lemma config_set_cases:
  assumes "runConfigSet n a opts (Some c) file = (out, file')"
  shows "file' = file \<or>
    (\<exists>k v. a = k @ CHR ''='' # v \<and> ENV_KEY_REGEX k \<and> readServiceEnv file' n k = Inr (Some v)
      \<and> same_secrets file' file \<and> same_numbers file' file)"
proof (cases "parseAssignment a")
  case (Some kv)
  obtain k v where kv: "kv = (k, v)" by (cases kv)
  then obtain i where i: "i < length a" "a ! i = CHR ''=''" "k = take i a" "v = drop (Suc i) a"
    using Some by (auto simp: parseAssignment_def index_of_Some split: option.splits if_splits)
  then have a: "a = k @ CHR ''='' # v" using id_take_nth_drop [of i a] by simp
  show ?thesis
    using assms Some kv a
    by (auto simp: runConfigSet_def split: sum.splits if_splits dest!: edit_result_cases dest: env_set_exact)
qed (use assms in \<open>auto simp: runConfigSet_def\<close>)

lemma config_unset_cases:
  assumes "runConfigUnset n k opts (Some c) file = (out, file')"
  shows "file' = file \<or> (readServiceEnv file' n k = Inr None \<and> same_secrets file' file \<and> same_numbers file' file)"
  using assms
  by (auto simp: runConfigUnset_def split: sum.splits if_splits dest!: edit_result_cases dest: env_unset_exact)

definition example_toml :: toml_file where
  "example_toml = FileDoc
     \<lparr>td_service = TableArray
        [\<lparr>tt_name = ''api'', tt_number = (\<lambda>_. None)(Replicas := Some 2), tt_env = Some [(''LOG'', ''info'')],
          tt_secrets = Some [''TOKEN''], tt_other = []\<rparr>],
      td_job = NoTables,
      td_database = SingleTable \<lparr>tt_name = ''primary'', tt_number = (\<lambda>_. None), tt_env = None, tt_secrets = None, tt_other = []\<rparr>\<rparr>"

definition example_edit :: edit_options where
  "example_edit = \<lparr>eo_deploy = True, eo_yes = True, eo_wait = True, eo_timeout = None, eo_dryRun = False\<rparr>"

lemma scale_edits_one_number_witness:
  "readServiceNumericField (snd (runScale Replicas ''api'' '' 3 '' example_edit (Some example_config) example_toml)) ''api'' Replicas
     = Inr (Some 3)"
proof -
  obtain out file' where r: "runScale Replicas ''api'' '' 3 '' example_edit (Some example_config) example_toml = (out, file')"
    by (cases "runScale Replicas ''api'' '' 3 '' example_edit (Some example_config) example_toml")
  note a = example_config_accepted
  have "fst (runScale Replicas ''api'' '' 3 '' example_edit (Some example_config) example_toml)
      = Inr (DeployNow (deployOptionsForEdit ''api'' example_edit))" by code_simp
  then have o: "out = Inr (DeployNow (deployOptionsForEdit ''api'' example_edit))" using r by simp
  obtain v where "parseCount '' 3 '' = Some v" "only_number_changed example_toml file' ''api'' Replicas v"
    using scale_edits_one_number [OF a r] unfolding o sum.case edit_outcome.case by blast
  moreover have "parseCount '' 3 '' = Some 3" by code_simp
  ultimately show ?thesis unfolding r by (simp add: only_number_changed_def)
qed

end
