(* ===== verification/Secrets.thy ===== *)
theory Secrets
  imports Dotenv Deploy_Edits
begin

text \<open>
  The secrets of a service: aws/ssm-secrets.ts and the commands of commands/secret/index.ts. The
  parameter store is a map from names to values; whether the i-th write of a command succeeds is the
  parameter sw_put_ok. A command returns its outcome with the store and the configuration file it
  leaves. The file it edits is the one of the working directory, the configuration is the one found
  there or in a parent directory.
\<close>

section \<open>The parameter store\<close>

type_synonym param_store = "string \<Rightarrow> string option"

definition GET_PARAMETERS_MAX :: nat where "GET_PARAMETERS_MAX = 10"

text \<open>\<open>GetParameters\<close> rejects a call with too many names (None) and leaves out the names it does not know.\<close>

definition get_parameters :: "param_store \<Rightarrow> string list \<Rightarrow> string list option" where
  "get_parameters store names =
     (if length names \<le> 10 then Some (filter (\<lambda>n. store n \<noteq> None) names) else None)"

function getExistingSecretPaths :: "(string list \<Rightarrow> string list option) \<Rightarrow> string list \<Rightarrow> string list option" where
  "getExistingSecretPaths call paths =
     (if paths = [] then Some []
      else case call (take GET_PARAMETERS_MAX paths) of
        None \<Rightarrow> None
      | Some found \<Rightarrow> map_option (\<lambda>rest. found @ rest) (getExistingSecretPaths call (drop GET_PARAMETERS_MAX paths)))"
  by pat_completeness auto

termination
  by (relation "measure (\<lambda>(_, ps). length ps)") (auto simp: GET_PARAMETERS_MAX_def)

declare getExistingSecretPaths.simps [simp del]

lemma getExistingSecretPaths_exact:
  "getExistingSecretPaths (get_parameters store) paths = Some (filter (\<lambda>n. store n \<noteq> None) paths)"
proof (induction "get_parameters store" paths rule: getExistingSecretPaths.induct)
  case (1 paths)
  have "filter (\<lambda>n. store n \<noteq> None) paths
      = filter (\<lambda>n. store n \<noteq> None) (take 10 paths) @ filter (\<lambda>n. store n \<noteq> None) (drop 10 paths)"
    unfolding filter_append [symmetric] append_take_drop_id by simp
  with 1 show ?case
    by (subst getExistingSecretPaths.simps) (auto simp: get_parameters_def GET_PARAMETERS_MAX_def)
qed

definition missingFromGetParameters :: "string list \<Rightarrow> string list \<Rightarrow> string list" where
  "missingFromGetParameters requested found = filter (\<lambda>p. p \<notin> set found) requested"

text \<open>The listing of a prefix, page by page; a name is what follows the prefix and its slash.\<close>

definition listSecretsByPrefix :: "string list list \<Rightarrow> string \<Rightarrow> (string \<times> string) list" where
  "listSecretsByPrefix pages pfx =
     sort_by (\<lambda>a b. locale_le (fst a) (fst b))
       (filter (\<lambda>s. fst s \<noteq> [])
          (map (\<lambda>p. (drop (length pfx + 1) p, p)) (filter (\<lambda>p. p \<noteq> []) (concat pages))))"

section \<open>Context of a command\<close>

datatype 'c config_search = ConfigNotFound | ConfigInvalid | ConfigFound 'c

record secret_world =
  sw_config :: "launch_pad_config config_search"
  sw_aws :: aws_env
  sw_put_ok :: "nat \<Rightarrow> bool"

record secret_state =
  ss_store :: param_store
  ss_file :: toml_file

record secret_options =
  so_service :: "string option"
  so_env :: "string option"
  so_noRegister :: bool
  so_dryRun :: bool

datatype secret_error =
    InvalidSecretKey string
  | NoConfigFound
  | ConfigDoesNotLoad
  | InvalidSecretEnv string
  | ServiceIsRequired "string list"
  | SecretServiceUnknown string
  | EmptySecretValue
  | SecretPutFailed
  | EditFailed toml_error
  | SecretNotSet string
  | InvalidFormat string
  | EnvFileMissing
  | ImportRejected secret_import_plan
  | ImportEmpty
  | ImportPartial "string list" "string list"

record secret_context =
  sx_aws :: aws_env
  sx_service :: string
  sx_ownerProject :: string
  sx_prefix :: string

definition secret_targets :: "launch_pad_config \<Rightarrow> string list" where
  "secret_targets c = map sd_name (lc_service c) @ map jd_name (list_or_empty (lc_job c))"

text \<open>An absent and an empty service name are the same to the code.\<close>

definition chosen_service :: "secret_options \<Rightarrow> bool \<Rightarrow> string list \<Rightarrow> secret_error + string" where
  "chosen_service opts requireService names =
     (case so_service opts of
        Some n \<Rightarrow> if n \<noteq> [] then Inr n
                  else if requireService \<or> length names \<noteq> 1 then Inl (ServiceIsRequired names) else Inr (hd names)
      | None \<Rightarrow> if requireService \<or> length names \<noteq> 1 then Inl (ServiceIsRequired names) else Inr (hd names))"

definition resolveSecretContext :: "secret_world \<Rightarrow> secret_options \<Rightarrow> bool \<Rightarrow> secret_error + secret_context" where
  "resolveSecretContext w opts requireService =
     (case sw_config w of
        ConfigNotFound \<Rightarrow> Inl NoConfigFound
      | ConfigInvalid \<Rightarrow> Inl ConfigDoesNotLoad
      | ConfigFound c \<Rightarrow>
          if \<not> opt_all LABEL_REGEX (so_env opts) then Inl (InvalidSecretEnv (the (so_env opts)))
          else res_bind (chosen_service opts requireService (secret_targets c)) (\<lambda>n.
            if n \<notin> set (secret_targets c) then Inl (SecretServiceUnknown n)
            else
              (let owner = footprintOwner (lc_project c) (lc_component c) (so_env opts)
               in Inr \<lparr>sx_aws = sw_aws w, sx_service = n, sx_ownerProject = owner,
                       sx_prefix = secretParameterPrefix (aws_clusterId (sw_aws w)) owner n\<rparr>)))"

definition context_path :: "secret_context \<Rightarrow> string \<Rightarrow> string" where
  "context_path ctx key =
     secretParameterPath (aws_clusterId (sx_aws ctx)) (sx_ownerProject ctx) (sx_service ctx) key"

definition put_secret :: "string \<Rightarrow> string \<Rightarrow> secret_state \<Rightarrow> secret_state" where
  "put_secret path v s = s\<lparr>ss_store := (ss_store s)(path \<mapsto> v)\<rparr>"

section \<open>The commands\<close>

text \<open>The value comes from the option or from the prompt; either way it must not be empty.\<close>

definition runSecretSet ::
  "secret_world \<Rightarrow> string \<Rightarrow> string \<Rightarrow> secret_options \<Rightarrow> secret_state \<Rightarrow> (secret_error + bool) \<times> secret_state" where
  "runSecretSet w key v opts s =
     (if \<not> SECRET_KEY_REGEX key then (Inl (InvalidSecretKey key), s)
      else case resolveSecretContext w opts True of
        Inl e \<Rightarrow> (Inl e, s)
      | Inr ctx \<Rightarrow>
          if v = [] then (Inl EmptySecretValue, s)
          else if \<not> sw_put_ok w 0 then (Inl SecretPutFailed, s)
          else
            (let s' = put_secret (context_path ctx key) v s
             in if so_noRegister opts then (Inr False, s')
                else case registerServiceSecret (ss_file s') (sx_service ctx) key of
                  Inl e \<Rightarrow> (Inl (EditFailed e), s')
                | Inr (reg, file) \<Rightarrow> (Inr reg, s'\<lparr>ss_file := file\<rparr>)))"

definition runSecretGet ::
  "secret_world \<Rightarrow> (string \<Rightarrow> string \<Rightarrow> string) \<Rightarrow> string \<Rightarrow> string option \<Rightarrow> secret_options \<Rightarrow> secret_state
   \<Rightarrow> secret_error + string" where
  "runSecretGet w to_json key fmt opts s =
     (if \<not> SECRET_KEY_REGEX key then Inl (InvalidSecretKey key)
      else res_bind (resolveSecretContext w opts True) (\<lambda>ctx.
        case parseSecretFormat fmt of
          None \<Rightarrow> Inl (InvalidFormat (the fmt))
        | Some f \<Rightarrow>
            (case ss_store s (context_path ctx key) of
               None \<Rightarrow> Inl (SecretNotSet key)
             | Some v \<Rightarrow> Inr (formatSecretOutput to_json key v f @ [LF]))))"

text \<open>The names in the store under the service's prefix, each with whether the file registers it.\<close>

definition runSecretList ::
  "secret_world \<Rightarrow> string list list \<Rightarrow> secret_options \<Rightarrow> secret_state \<Rightarrow> secret_error + (string \<times> bool) list" where
  "runSecretList w pages opts s =
     res_bind (resolveSecretContext w opts False) (\<lambda>ctx.
       case readServiceSecrets (ss_file s) (sx_service ctx) of
         Inl e \<Rightarrow> Inl (EditFailed e)
       | Inr regs \<Rightarrow>
           Inr (map (\<lambda>(n, _). (n, n \<in> set regs)) (listSecretsByPrefix pages (sx_prefix ctx))))"

text \<open>Deleting a parameter that does not exist is an error of the store.\<close>

definition runSecretRm ::
  "secret_world \<Rightarrow> string \<Rightarrow> secret_options \<Rightarrow> secret_state \<Rightarrow> (secret_error + bool) \<times> secret_state" where
  "runSecretRm w key opts s =
     (if \<not> SECRET_KEY_REGEX key then (Inl (InvalidSecretKey key), s)
      else case resolveSecretContext w opts True of
        Inl e \<Rightarrow> (Inl e, s)
      | Inr ctx \<Rightarrow>
          if ss_store s (context_path ctx key) = None \<or> \<not> sw_put_ok w 0 then (Inl (SecretNotSet key), s)
          else
            (let s' = s\<lparr>ss_store := (ss_store s)(context_path ctx key := None)\<rparr>
             in if so_noRegister opts then (Inr False, s')
                else case unregisterServiceSecret (ss_file s') (sx_service ctx) key of
                  Inl e \<Rightarrow> (Inl (EditFailed e), s')
                | Inr (unregistered, file) \<Rightarrow> (Inr unregistered, s'\<lparr>ss_file := file\<rparr>)))"

text \<open>The writes of an import, in order, until one fails: the keys written and the store.\<close>

fun put_all :: "(nat \<Rightarrow> bool) \<Rightarrow> nat \<Rightarrow> (string \<times> string \<times> string) list \<Rightarrow> secret_state \<Rightarrow> string list \<times> secret_state" where
  "put_all ok i [] s = ([], s)"
| "put_all ok i ((key, v, path) # ts) s =
     (if \<not> ok i then ([], s)
      else (case put_all ok (Suc i) ts (put_secret path v s) of (written, s') \<Rightarrow> (key # written, s')))"

record import_result =
  ir_created :: "string list"
  ir_updated :: "string list"
  ir_duplicates :: "string list"
  ir_registered :: nat
  ir_dryRun :: bool

definition import_targets :: "secret_context \<Rightarrow> secret_import_plan \<Rightarrow> (string \<times> string \<times> string) list" where
  "import_targets ctx plan = map (\<lambda>(k, v). (k, v, context_path ctx k)) (ip_valid plan)"

definition runImport ::
  "secret_world \<Rightarrow> string option \<Rightarrow> secret_options \<Rightarrow> secret_state \<Rightarrow> (secret_error + import_result) \<times> secret_state" where
  "runImport w content opts s =
     (case content of
        None \<Rightarrow> (Inl EnvFileMissing, s)
      | Some txt \<Rightarrow>
          (let plan = partitionSecretImportEntries (parseDotenv txt)
           in if ip_malformed plan \<noteq> [] \<or> ip_invalidKeys plan \<noteq> [] \<or> ip_emptyValues plan \<noteq> []
              then (Inl (ImportRejected plan), s)
              else if ip_valid plan = [] then (Inl ImportEmpty, s)
              else case resolveSecretContext w opts True of
                Inl e \<Rightarrow> (Inl e, s)
              | Inr ctx \<Rightarrow>
                  (let targets = import_targets ctx plan;
                       existing = the (getExistingSecretPaths (get_parameters (ss_store s)) (map (\<lambda>(_, _, p). p) targets));
                       created = map fst (filter (\<lambda>(_, _, p). p \<notin> set existing) targets);
                       updated = map fst (filter (\<lambda>(_, _, p). p \<in> set existing) targets)
                   in if so_dryRun opts
                      then (Inr \<lparr>ir_created = created, ir_updated = updated, ir_duplicates = ip_duplicates plan,
                                 ir_registered = 0, ir_dryRun = True\<rparr>, s)
                      else
                        (let (written, s') = put_all (sw_put_ok w) 0 targets s
                         in if length written < length targets
                            then (Inl (ImportPartial written (map fst (drop (length written) targets))), s')
                            else if so_noRegister opts
                            then (Inr \<lparr>ir_created = created, ir_updated = updated, ir_duplicates = ip_duplicates plan,
                                       ir_registered = 0, ir_dryRun = False\<rparr>, s')
                            else case registerServiceSecrets (ss_file s') (sx_service ctx) (map fst targets) of
                              Inl e \<Rightarrow> (Inl (EditFailed e), s')
                            | Inr (added, file) \<Rightarrow>
                                (Inr \<lparr>ir_created = created, ir_updated = updated, ir_duplicates = ip_duplicates plan,
                                      ir_registered = length added, ir_dryRun = False\<rparr>, s'\<lparr>ss_file := file\<rparr>)))))"

section \<open>An import is all or a named part\<close>

lemma context_path_inj [simp]: "context_path ctx k = context_path ctx k' \<longleftrightarrow> k = k'"
  by (simp add: context_path_def secretParameterPath_def)

definition secrets_map :: "secret_context \<Rightarrow> (string \<times> string) list \<Rightarrow> param_store" where
  "secrets_map ctx kvs = map_of (map (\<lambda>(k, v). (context_path ctx k, v)) kvs)"

lemma secrets_map_key: "secrets_map ctx kvs (context_path ctx k) = map_of kvs k"
  by (induction kvs) (auto simp: secrets_map_def)

lemma secrets_map_Nil [simp]: "secrets_map ctx [] = Map.empty"
  by (simp add: secrets_map_def)

lemma secrets_map_Cons: "secrets_map ctx ((k, v) # kvs) = (secrets_map ctx kvs)(context_path ctx k \<mapsto> v)"
  by (simp add: secrets_map_def)

lemma put_all_prefix:
  assumes "put_all ok i (map (\<lambda>(k, v). (k, v, context_path ctx k)) kvs) s = (written, s')"
    and "distinct (map fst kvs)"
  shows "\<exists>n \<le> length kvs. written = map fst (take n kvs) \<and> (n < length kvs \<longrightarrow> \<not> ok (i + n))
    \<and> (\<forall>j < n. ok (i + j)) \<and> s' = s\<lparr>ss_store := ss_store s ++ secrets_map ctx (take n kvs)\<rparr>"
  using assms
proof (induction kvs arbitrary: i s written)
  case (Cons kv kvs)
  obtain k v where [simp]: "kv = (k, v)" by (cases kv)
  show ?case
  proof (cases "ok i")
    case True
    obtain ws where p: "put_all ok (Suc i) (map (\<lambda>(k, v). (k, v, context_path ctx k)) kvs) (put_secret (context_path ctx k) v s) = (ws, s')"
      and w: "written = k # ws"
      using Cons.prems True by (auto split: prod.splits)
    obtain n where n: "n \<le> length kvs" "ws = map fst (take n kvs)" "n < length kvs \<longrightarrow> \<not> ok (Suc i + n)"
      "\<forall>j < n. ok (Suc i + j)"
      "s' = put_secret (context_path ctx k) v s
         \<lparr>ss_store := ss_store (put_secret (context_path ctx k) v s) ++ secrets_map ctx (take n kvs)\<rparr>"
      using Cons.IH [OF p] Cons.prems(2) by auto
    have "k \<notin> fst ` set (take n kvs)" using Cons.prems(2) by (auto dest!: in_set_takeD)
    then have "secrets_map ctx (take n kvs) (context_path ctx k) = None"
      by (simp add: secrets_map_key map_of_eq_None_iff)
    then have "(ss_store s)(context_path ctx k \<mapsto> v) ++ secrets_map ctx (take n kvs)
        = ss_store s ++ (secrets_map ctx (take n kvs))(context_path ctx k \<mapsto> v)"
      by (auto simp: map_add_def fun_eq_iff split: option.splits)
    then have "s' = s\<lparr>ss_store := ss_store s ++ secrets_map ctx (take (Suc n) (kv # kvs))\<rparr>"
      using n(5) by (simp add: put_secret_def secrets_map_Cons)
    moreover have "\<forall>j < Suc n. ok (i + j)" using True n(4) by (auto simp: less_Suc_eq_0_disj)
    ultimately show ?thesis using n w True by (intro exI [of _ "Suc n"]) auto
  qed (use Cons.prems in auto)
qed auto

text \<open>The secrets of an import file.\<close>

definition file_secrets :: "string \<Rightarrow> (string \<times> string) list" where
  "file_secrets txt = ip_valid (partitionSecretImportEntries (parseDotenv txt))"

definition stored :: "secret_context \<Rightarrow> (string \<times> string) list \<Rightarrow> secret_state \<Rightarrow> secret_state \<Rightarrow> bool" where
  "stored ctx kvs s s' \<longleftrightarrow> ss_store s' = ss_store s ++ secrets_map ctx kvs"

definition registered_keys :: "secret_context \<Rightarrow> string list \<Rightarrow> secret_state \<Rightarrow> secret_state \<Rightarrow> bool" where
  "registered_keys ctx keys s s' \<longleftrightarrow>
     (\<exists>ks ks'. readServiceSecrets (ss_file s) (sx_service ctx) = Inr ks
        \<and> readServiceSecrets (ss_file s') (sx_service ctx) = Inr ks' \<and> set ks' = set ks \<union> set keys
        \<and> (\<forall>m. m \<noteq> sx_service ctx \<longrightarrow> readServiceSecrets (ss_file s') m = readServiceSecrets (ss_file s) m))"

text \<open>A deploy of the service that finds the parameters of the state.\<close>

definition deploy_finds_secrets :: "secret_context \<Rightarrow> (string \<times> string) list \<Rightarrow> secret_state \<Rightarrow> bool" where
  "deploy_finds_secrets ctx kvs s' \<longleftrightarrow>
     (\<forall>w d. w_aws w = sx_aws ctx \<longrightarrow> w_secretExists w = (\<lambda>p. ss_store s' p \<noteq> None) \<longrightarrow> sd_name d = sx_service ctx
        \<longrightarrow> set (sd_secrets d) \<subseteq> set (map fst kvs) \<longrightarrow> missing_secrets w (sx_ownerProject ctx) [d] = [])"

lemma stored_deploys: "stored ctx kvs s s' \<Longrightarrow> deploy_finds_secrets ctx kvs s'"
proof -
  assume a: "stored ctx kvs s s'"
  have "ss_store s' (context_path ctx k) \<noteq> None" if "k \<in> set (map fst kvs)" for k
  proof -
    have "map_of kvs k \<noteq> None" using that by (simp add: map_of_eq_None_iff)
    then show ?thesis using a by (auto simp: stored_def map_add_def secrets_map_key)
  qed
  then show ?thesis
    by (auto simp: deploy_finds_secrets_def missing_secrets_def context_path_def filter_empty_conv subset_iff)
qed

text \<open>What an import leaves, by its outcome.\<close>

definition import_outcome ::
  "secret_world \<Rightarrow> secret_options \<Rightarrow> string \<Rightarrow> secret_state \<Rightarrow> secret_error + import_result \<Rightarrow> secret_state \<Rightarrow> bool" where
  "import_outcome w opts txt s r s' \<longleftrightarrow>
     (let kvs = file_secrets txt in
      case r of
        Inr res \<Rightarrow>
          ir_dryRun res = so_dryRun opts \<and> ir_duplicates res = ip_duplicates (partitionSecretImportEntries (parseDotenv txt))
          \<and> (\<exists>ctx. resolveSecretContext w opts True = Inr ctx
            \<and> set (ir_created res) = {k \<in> set (map fst kvs). ss_store s (context_path ctx k) = None}
            \<and> set (ir_updated res) = {k \<in> set (map fst kvs). ss_store s (context_path ctx k) \<noteq> None}
            \<and> (if so_dryRun opts then s' = s
               else stored ctx kvs s s' \<and> deploy_finds_secrets ctx kvs s'
                 \<and> (if so_noRegister opts then ss_file s' = ss_file s else registered_keys ctx (map fst kvs) s s')))
      | Inl (ImportPartial written missing) \<Rightarrow>
          written @ missing = map fst kvs \<and> missing \<noteq> [] \<and> ss_file s' = ss_file s
          \<and> (\<exists>ctx. resolveSecretContext w opts True = Inr ctx \<and> stored ctx (take (length written) kvs) s s')
      | Inl (EditFailed e) \<Rightarrow>
          ss_file s' = ss_file s \<and> (\<exists>ctx. resolveSecretContext w opts True = Inr ctx \<and> stored ctx kvs s s')
      | Inl e \<Rightarrow> s' = s)"

lemma resolve_no_import_error:
  "resolveSecretContext w opts b = Inl e \<Longrightarrow>
     (\<forall>x. e \<noteq> EditFailed x) \<and> (\<forall>a b. e \<noteq> ImportPartial a b)"
  by (auto simp: resolveSecretContext_def res_bind_eq_Inl chosen_service_def Let_def
      split: config_search.splits if_splits option.splits)

lemma import_targets_maps:
  "map fst (import_targets ctx plan) = map fst (ip_valid plan)"
  "map (\<lambda>(_, _, p). p) (import_targets ctx plan) = map (context_path ctx) (map fst (ip_valid plan))"
  by (simp_all add: import_targets_def case_prod_beta o_def)

lemma import_split:
  assumes "existing = filter (\<lambda>p. store p \<noteq> None) (map (context_path ctx) (map fst (ip_valid plan)))"
  shows "set (map fst (filter (\<lambda>(_, _, p). p \<notin> set existing) (import_targets ctx plan)))
      = {k \<in> set (map fst (ip_valid plan)). store (context_path ctx k) = None}"
    "set (map fst (filter (\<lambda>(_, _, p). p \<in> set existing) (import_targets ctx plan)))
      = {k \<in> set (map fst (ip_valid plan)). store (context_path ctx k) \<noteq> None}"
  unfolding assms by (force simp: import_targets_def image_iff)+

lemma put_file:
  "put_all ok i ts s = (written, s') \<Longrightarrow> ss_file s' = ss_file s"
  by (induction ok i ts s arbitrary: written rule: put_all.induct)
    (auto simp: put_secret_def split: if_splits prod.splits)

lemma import_state_outcome:
  assumes "runImport w (Some txt) opts s = (r, s')"
  shows "import_outcome w opts txt s r s'"
proof -
  define plan where "plan = partitionSecretImportEntries (parseDotenv txt)"
  have kvs: "file_secrets txt = ip_valid plan" by (simp add: file_secrets_def plan_def)
  consider "ip_malformed plan \<noteq> [] \<or> ip_invalidKeys plan \<noteq> [] \<or> ip_emptyValues plan \<noteq> []" "r = Inl (ImportRejected plan)" "s' = s"
    | "ip_valid plan = []" "r = Inl ImportEmpty" "s' = s"
    | e where "resolveSecretContext w opts True = Inl e" "r = Inl e" "s' = s"
    | ctx where "\<not> (ip_malformed plan \<noteq> [] \<or> ip_invalidKeys plan \<noteq> [] \<or> ip_emptyValues plan \<noteq> [])"
        "ip_valid plan \<noteq> []" "resolveSecretContext w opts True = Inr ctx"
    using assms unfolding runImport_def plan_def [symmetric] Let_def option.case
    by (auto split: if_splits sum.splits)
  then show ?thesis
  proof cases
    case 3
    then show ?thesis using resolve_no_import_error [OF 3(1)]
      by (cases e) (simp_all add: import_outcome_def)
  next
    case (4 ctx)
    let ?ts = "import_targets ctx plan"
    define existing where "existing = filter (\<lambda>p. ss_store s p \<noteq> None) (map (context_path ctx) (map fst (ip_valid plan)))"
    note sp = import_split [OF existing_def]
    have ex: "the (getExistingSecretPaths (get_parameters (ss_store s)) (map (\<lambda>(_, _, p). p) ?ts)) = existing"
      by (simp add: getExistingSecretPaths_exact import_targets_maps existing_def)
    obtain written s1 where p: "put_all (sw_put_ok w) 0 ?ts s = (written, s1)" by fastforce
    have "distinct (map fst (ip_valid plan))" unfolding plan_def by (rule partition_valid_distinct)
    then obtain n where n: "n \<le> length (ip_valid plan)" "written = map fst (take n (ip_valid plan))"
      "s1 = s\<lparr>ss_store := ss_store s ++ secrets_map ctx (take n (ip_valid plan))\<rparr>"
      using put_all_prefix [of "sw_put_ok w" 0 ctx "ip_valid plan" s written s1] p by (auto simp: import_targets_def)
    have len: "length ?ts = length (ip_valid plan)" "length written = n" using n by (simp_all add: import_targets_def)
    have st: "stored ctx (take n (ip_valid plan)) s s1" using n by (simp add: stored_def)
    have f1: "ss_file s1 = ss_file s" using p by (rule put_file)
    let ?res = "\<lambda>m d. \<lparr>ir_created = map fst (filter (\<lambda>(_, _, p). p \<notin> set existing) ?ts),
      ir_updated = map fst (filter (\<lambda>(_, _, p). p \<in> set existing) ?ts), ir_duplicates = ip_duplicates plan,
      ir_registered = m, ir_dryRun = d\<rparr>"
    have "runImport w (Some txt) opts s =
      (if so_dryRun opts then (Inr (?res 0 True), s)
       else if n < length (ip_valid plan) then (Inl (ImportPartial written (map fst (drop n ?ts))), s1)
       else if so_noRegister opts then (Inr (?res 0 False), s1)
       else case registerServiceSecrets (ss_file s1) (sx_service ctx) (map fst ?ts) of
              Inl e \<Rightarrow> (Inl (EditFailed e), s1)
            | Inr (added, file) \<Rightarrow> (Inr (?res (length added) False), s1\<lparr>ss_file := file\<rparr>))"
      unfolding runImport_def plan_def [symmetric] Let_def option.case ex 4(3) sum.case p prod.case len
      using 4(1,2) by simp
    note run = this [unfolded assms]
    have drop: "map fst (drop n ?ts) = map fst (drop n (ip_valid plan))"
      by (simp add: drop_map [symmetric] import_targets_maps)
    consider "so_dryRun opts" | "\<not> so_dryRun opts" "n < length (ip_valid plan)"
      | "\<not> so_dryRun opts" "n = length (ip_valid plan)" "so_noRegister opts"
      | "\<not> so_dryRun opts" "n = length (ip_valid plan)" "\<not> so_noRegister opts" using n(1) by linarith
    then show ?thesis
    proof cases
      case 1
      then show ?thesis using run 4(3) sp
        unfolding import_outcome_def kvs Let_def plan_def [symmetric] by simp
    next
      case 2
      then have "r = Inl (ImportPartial written (map fst (drop n (ip_valid plan))))" "s' = s1"
        using run drop by simp_all
      then show ?thesis
        using 4(3) st f1 2 n(2) len unfolding import_outcome_def kvs Let_def
        by (simp flip: map_append)
    next
      case 3
      have st': "stored ctx (ip_valid plan) s s1" using st 3 by simp
      show ?thesis
        using run 4(3) sp 3 st' stored_deploys [OF st'] f1
        unfolding import_outcome_def kvs Let_def plan_def [symmetric] by simp
    next
      case 4
      have st': "stored ctx (ip_valid plan) s s1" using st 4 by simp
      show ?thesis
      proof (cases "registerServiceSecrets (ss_file s1) (sx_service ctx) (map fst ?ts)")
        case (Inl e)
        then show ?thesis using run 4 \<open>resolveSecretContext w opts True = Inr ctx\<close> st' f1
          unfolding import_outcome_def kvs Let_def by simp
      next
        case (Inr x)
        obtain added file' where x: "x = (added, file')" by (cases x)
        have "registerServiceSecrets (ss_file s) (sx_service ctx) (map fst (ip_valid plan)) = Inr (added, file')"
          using Inr x f1 by (simp add: import_targets_maps)
        note reg = register_exact [OF this]
        have s': "s' = s1\<lparr>ss_file := file'\<rparr>" "r = Inr (?res (length added) False)" using run 4 Inr x by simp_all
        have "stored ctx (ip_valid plan) s s'" using st' s' by (simp add: stored_def)
        moreover have "registered_keys ctx (map fst (ip_valid plan)) s s'"
          using reg s'(1) unfolding registered_keys_def by auto
        ultimately show ?thesis using stored_deploys \<open>resolveSecretContext w opts True = Inr ctx\<close> 4 sp s'(2)
          unfolding import_outcome_def kvs Let_def plan_def [symmetric] by simp
      qed
    qed
  qed (simp_all add: import_outcome_def)
qed

text \<open>A file without problems, for a service or job the edited file has, with a store that accepts writes.\<close>

definition import_ready :: "secret_world \<Rightarrow> secret_options \<Rightarrow> string \<Rightarrow> secret_state \<Rightarrow> bool" where
  "import_ready w opts txt s \<longleftrightarrow>
     (let plan = partitionSecretImportEntries (parseDotenv txt)
      in ip_malformed plan = [] \<and> ip_invalidKeys plan = [] \<and> ip_emptyValues plan = [] \<and> ip_valid plan \<noteq> [])
     \<and> (\<forall>i < length (file_secrets txt). sw_put_ok w i)
     \<and> (\<exists>ctx d t. resolveSecretContext w opts True = Inr ctx \<and> ss_file s = FileDoc d
          \<and> find_target d (sx_service ctx) = Some t)"

lemma register_succeeds:
  "find_target d n = Some t \<Longrightarrow> \<exists>x. registerServiceSecrets (FileDoc d) n keys = Inr x"
  by (simp add: registerServiceSecrets_def read_doc_def Let_def)

lemma import_ready_succeeds:
  assumes "import_ready w opts txt s"
  shows "\<exists>res s'. runImport w (Some txt) opts s = (Inr res, s')"
proof -
  define plan where "plan = partitionSecretImportEntries (parseDotenv txt)"
  obtain ctx d t where c: "ip_malformed plan = []" "ip_invalidKeys plan = []" "ip_emptyValues plan = []" "ip_valid plan \<noteq> []"
    "\<forall>i < length (ip_valid plan). sw_put_ok w i" "resolveSecretContext w opts True = Inr ctx"
    "ss_file s = FileDoc d" "find_target d (sx_service ctx) = Some t"
    using assms by (auto simp: import_ready_def file_secrets_def plan_def Let_def)
  let ?ts = "import_targets ctx plan"
  obtain written s1 where p: "put_all (sw_put_ok w) 0 ?ts s = (written, s1)" by fastforce
  have "distinct (map fst (ip_valid plan))" unfolding plan_def by (rule partition_valid_distinct)
  then obtain n where n: "n \<le> length (ip_valid plan)" "written = map fst (take n (ip_valid plan))"
    "n < length (ip_valid plan) \<longrightarrow> \<not> sw_put_ok w (0 + n)"
    using put_all_prefix [of "sw_put_ok w" 0 ctx "ip_valid plan" s written s1] p by (auto simp: import_targets_def)
  then have all: "\<not> length written < length ?ts" using c(5) by (auto simp: import_targets_def not_less)
  have f1: "ss_file s1 = FileDoc d" using put_file [OF p] c(7) by simp
  obtain x where x: "registerServiceSecrets (FileDoc d) (sx_service ctx) (map fst ?ts) = Inr x"
    using register_succeeds [OF c(8)] by blast
  show ?thesis
    unfolding runImport_def plan_def [symmetric] Let_def option.case c(6) sum.case p prod.case f1 x
    using c(1-4) all by (simp split: prod.split)
qed


definition example_secret_world :: secret_world where
  "example_secret_world =
     \<lparr>sw_config = ConfigFound example_config,
      sw_aws = \<lparr>aws_accountId = ''1234'', aws_region = ''us-east-1'', aws_clusterId = ''default''\<rparr>,
      sw_put_ok = (\<lambda>i. i < 3)\<rparr>"

definition example_import :: secret_options where
  "example_import = \<lparr>so_service = Some ''api'', so_env = None, so_noRegister = False, so_dryRun = False\<rparr>"

definition example_env_file :: string where
  "example_env_file = ''A=1'' @ [LF] @ ''# note'' @ [LF] @ ''B='' @ [DQ] @ ''two'' @ [DQ] @ [LF] @ ''A=3''"


section \<open>A single secret\<close>

text \<open>
  The registration edits the file of the working directory: from a directory below the one that holds
  the configuration the value is stored and the command then fails.
\<close>

lemma set_from_subdirectory:
  assumes "SECRET_KEY_REGEX key" "resolveSecretContext w opts True = Inr ctx" "v \<noteq> []" "sw_put_ok w 0"
    "\<not> so_noRegister opts" "ss_file s = FileMissing"
  shows "runSecretSet w key v opts s = (Inl (EditFailed ReadFailed), put_secret (context_path ctx key) v s)"
  using assms
  by (simp add: runSecretSet_def put_secret_def registerServiceSecret_def registerServiceSecrets_def read_doc_def)

lemma set_then_get:
  assumes "runSecretSet w key v opts s = (Inr reg, s')"
  shows "runSecretGet w to_json key (Some ''value'') opts s' = Inr (v @ [LF])"
proof -
  obtain ctx where c: "SECRET_KEY_REGEX key" "resolveSecretContext w opts True = Inr ctx"
    "ss_store s' (context_path ctx key) = Some v"
    using assms by (auto simp: runSecretSet_def put_secret_def Let_def split: if_splits sum.splits prod.splits)
  then show ?thesis by (simp add: runSecretGet_def parseSecretFormat_def formatSecretOutput_def)
qed

lemma rm_then_get:
  assumes "runSecretRm w key opts s = (Inr reg, s')"
  shows "runSecretGet w to_json key (Some ''value'') opts s' = Inl (SecretNotSet key)"
proof -
  obtain ctx where c: "SECRET_KEY_REGEX key" "resolveSecretContext w opts True = Inr ctx"
    "ss_store s' (context_path ctx key) = None"
    using assms by (auto simp: runSecretRm_def Let_def split: if_splits sum.splits prod.splits)
  then show ?thesis by (simp add: runSecretGet_def parseSecretFormat_def)
qed

end
