(* ===== verification/Footprint_Destroy.thy ===== *)
theory Footprint_Destroy
  imports Secrets Project_Registry Node_Destroy Deploy
begin

text \<open>
  The command \<open>destroy\<close> (\<open>packages/cli/src/commands/destroy.ts\<close>), the inverse of a deploy: one service or the base
  footprint of the configuration, a named environment, a whole project, or every environment past its deadline.
  Publications and waits are those of Publish and Watch. The state is the bucket and the secrets deleted so far.
\<close>

section \<open>Options, world and errors\<close>

record undeploy_options =
  xd_service :: "string option"
  xd_env :: "string option"
  xd_project :: "string option"
  xd_component :: "string option"
  xd_listEnvs :: bool
  xd_pruneExpired :: bool
  xd_purgeSecrets :: bool
  xd_yes :: bool
  xd_wait :: bool
  xd_timeout :: "string option"

text \<open>
  \<open>uw_nodes\<close> and \<open>uw_owners\<close> list the nodes and the footprints of the cluster, \<open>None\<close> when the listing fails (a
  missing bucket lists nothing). What others do, the observations and the clocks are given per footprint.
\<close>

record undeploy_world =
  uw_aws :: aws_env
  uw_json :: bool
  uw_confirm :: bool
  uw_config :: "launch_pad_config config_search"
  uw_nodes :: "state_bucket \<Rightarrow> string list option"
  uw_owners :: "state_bucket \<Rightarrow> string list option"
  uw_stamp :: "nat \<Rightarrow> string"
  uw_interfere :: "string \<Rightarrow> nat \<Rightarrow> schedule"
  uw_indexInterfere :: schedule
  uw_meanwhile :: "string \<Rightarrow> state_bucket \<Rightarrow> state_bucket"
  uw_dateParse :: "string \<Rightarrow> int option"
  uw_nowMs :: int
  uw_waitStart :: "string \<Rightarrow> int"
  uw_status :: "string \<Rightarrow> nat \<Rightarrow> string \<Rightarrow> document option"
  uw_clock :: "string \<Rightarrow> nat \<Rightarrow> int"
  uw_staleClock :: "string \<Rightarrow> nat \<Rightarrow> string \<Rightarrow> int"
  uw_listSecrets :: "string \<Rightarrow> string list list option"
  uw_deleteSecret :: "string \<Rightarrow> bool"
  uw_sweep :: "string \<Rightarrow> bool"
  uw_swept :: "string \<Rightarrow> bool"

abbreviation uw_cluster :: "undeploy_world \<Rightarrow> string" where
  "uw_cluster w \<equiv> aws_clusterId (uw_aws w)"

datatype undeploy_error =
    FlagsConflict string
  | UndeployBadEnv string
  | ComponentNeedsEnv
  | UndeployNoConfig
  | UndeployBadConfig
  | NodesUnlistable
  | MarkersUnlistable
  | ServiceNotDeployed string "string list"
  | UndeployAborted
  | NeedsYes
  | UndeployFailed publish_error
  | UndeployBadTimeout
  | BadOwner string
  | OwnershipUnreadable string
  | OwnedByOther string string
  | EnvUnknown string
  | EnvAmbiguous "preview_marker list"
  | NoProjectIndex string
  | SweepFailed string

record undeploy_state =
  us_bucket :: state_bucket
  us_purged :: "string list"

section \<open>Secrets\<close>

text \<open>\<open>/^[A-Za-z0-9_.-]+$/\<close>\<close>

definition purgeable_name :: "string \<Rightarrow> bool" where
  "purgeable_name s \<longleftrightarrow> s \<noteq> []
     \<and> list_all (\<lambda>c. is_alnum c \<or> c = CHR ''_'' \<or> c = CHR ''.'' \<or> c = CHR ''-'') s"

datatype purge_failure = BadServiceName string | ListRefused string | DeleteRefused string

definition purge_service :: "undeploy_world \<Rightarrow> string \<Rightarrow> string \<Rightarrow> string list \<times> purge_failure list" where
  "purge_service w owner service =
     (if \<not> purgeable_name service then ([], [BadServiceName service])
      else let pfx = secretParameterPrefix (uw_cluster w) owner service
           in case uw_listSecrets w pfx of
                None \<Rightarrow> ([], [ListRefused service])
              | Some pages \<Rightarrow>
                  (let listed = map snd (listSecretsByPrefix pages pfx)
                   in (filter (uw_deleteSecret w) listed, map DeleteRefused (filter (\<lambda>p. \<not> uw_deleteSecret w p) listed))))"

definition purgeSecrets :: "undeploy_world \<Rightarrow> string \<Rightarrow> string list \<Rightarrow> string list \<times> purge_failure list" where
  "purgeSecrets w owner services =
     (concat (map (fst \<circ> purge_service w owner) services), concat (map (snd \<circ> purge_service w owner) services))"

definition purge_if :: "undeploy_world \<Rightarrow> bool \<Rightarrow> string \<Rightarrow> string list \<Rightarrow> undeploy_state
   \<Rightarrow> undeploy_state \<times> purge_failure list option" where
  "purge_if w purge owner services st =
     (if \<not> purge then (st, None)
      else let p = purgeSecrets w owner services in (st\<lparr>us_purged := us_purged st @ fst p\<rparr>, Some (snd p)))"

section \<open>The footprint of the configuration\<close>

definition loadStates :: "undeploy_world \<Rightarrow> state_bucket \<Rightarrow> node_services list option" where
  "loadStates w s = map_option (\<lambda>ids. loadNodeDesiredStates (uw_cluster w) ids s) (uw_nodes w s)"

definition wait_drained :: "undeploy_world \<Rightarrow> string \<Rightarrow> string set option \<Rightarrow> string list \<Rightarrow> int \<Rightarrow> drain_result option" where
  "wait_drained w owner removed nodes timeoutMs =
     waitForDrain (uw_dateParse w) nodes owner removed (uw_waitStart w owner) timeoutMs
       (\<lambda>i n. map_option parseNodeStatus (uw_status w owner i n)) (uw_clock w owner) (uw_staleClock w owner)"

definition DEFAULT_DRAIN_TIMEOUT_SECONDS :: int where "DEFAULT_DRAIN_TIMEOUT_SECONDS = 120"

definition drain_timeout :: "undeploy_options \<Rightarrow> undeploy_error + int" where
  "drain_timeout opts =
     (case parseTimeoutSeconds (xd_timeout opts) DEFAULT_DRAIN_TIMEOUT_SECONDS of Inl _ \<Rightarrow> Inl UndeployBadTimeout | Inr t \<Rightarrow> Inr t)"

abbreviation undeploy_nodes :: "undeploy_plan \<Rightarrow> string list" where
  "undeploy_nodes plan \<equiv> map nup_nodeId (up_nodes plan)"

record footprint_report =
  fr_result :: undeploy_result
  fr_drain :: "drain_result option"
  fr_purge :: "purge_failure list option"

datatype footprint_outcome = NothingDeployedThere | FootprintDestroyed footprint_report

text \<open>The services to remove: the named one, which must be deployed, or the whole footprint.\<close>

definition services_to_remove ::
  "undeploy_options \<Rightarrow> string \<Rightarrow> node_services list \<Rightarrow> undeploy_error + string list option" where
  "services_to_remove opts owner states =
     (let deployed = concat (map (\<lambda>(n, ss). map sc_service (owned_by owner ss)) states)
      in case xd_service opts of
           None \<Rightarrow> Inr None
         | Some x \<Rightarrow> if x \<notin> set deployed then Inl (ServiceNotDeployed x (sort (js_dedup deployed))) else Inr (Some [x]))"

text \<open>After the removal: the wait, the secrets, the registry of the project.\<close>

definition after_undeploy ::
  "undeploy_world \<Rightarrow> undeploy_options \<Rightarrow> launch_pad_config \<Rightarrow> string \<Rightarrow> string list option \<Rightarrow> undeploy_plan \<Rightarrow> undeploy_result
   \<Rightarrow> undeploy_state \<Rightarrow> (undeploy_state \<times> (undeploy_error + footprint_outcome)) option" where
  "after_undeploy w opts config owner removal plan result st =
     (let finish = (\<lambda>drain st1.
            let (st2, purged) = purge_if w (xd_purgeSecrets opts) owner (up_removedServices plan) st1;
                st3 = (if removal = None \<and> xd_env opts = None
                       then st2\<lparr>us_bucket := removeFromProjectIndex (uw_cluster w) (lc_project config) (lc_component config)
                              (uw_stamp w) (uw_indexInterfere w) (us_bucket st2)\<rparr> else st2)
            in (st3, Inr (FootprintDestroyed \<lparr>fr_result = result, fr_drain = drain, fr_purge = purged\<rparr>)))
      in if \<not> xd_wait opts then Some (finish None st)
         else case drain_timeout opts of
           Inl e \<Rightarrow> Some (st, Inl e)
         | Inr t \<Rightarrow> map_option (\<lambda>d. finish (Some d) (st\<lparr>us_bucket := uw_meanwhile w owner (us_bucket st)\<rparr>))
             (wait_drained w owner (map_option set removal) (undeploy_nodes plan) t))"

definition runFootprintDestroy ::
  "undeploy_world \<Rightarrow> undeploy_options \<Rightarrow> undeploy_state \<Rightarrow> (undeploy_state \<times> (undeploy_error + footprint_outcome)) option" where
  "runFootprintDestroy w opts st =
     (case uw_config w of
        ConfigNotFound \<Rightarrow> Some (st, Inl UndeployNoConfig)
      | ConfigInvalid \<Rightarrow> Some (st, Inl UndeployBadConfig)
      | ConfigFound config \<Rightarrow>
          (let owner = footprintOwner (lc_project config) (lc_component config) (xd_env opts)
           in case loadStates w (us_bucket st) of
                None \<Rightarrow> Some (st, Inl NodesUnlistable)
              | Some states \<Rightarrow>
                  (case services_to_remove opts owner states of
                     Inl e \<Rightarrow> Some (st, Inl e)
                   | Inr removal \<Rightarrow>
                       (let plan = planUndeploy states owner removal
                        in if up_nodes plan = [] then Some (st, Inr NothingDeployedThere)
                           else if \<not> xd_yes opts \<and> \<not> uw_json w \<and> \<not> uw_confirm w then Some (st, Inl UndeployAborted)
                           else case applyUndeploy (uw_aws w) owner removal plan (uw_stamp w) (uw_interfere w owner) (us_bucket st) of
                             (s1, Inl e) \<Rightarrow> Some (st\<lparr>us_bucket := s1\<rparr>, Inl (UndeployFailed e))
                           | (s1, Inr result) \<Rightarrow>
                               after_undeploy w opts config owner removal plan result (st\<lparr>us_bucket := s1\<rparr>)))))"

section \<open>One environment\<close>

text \<open>The baseline of the footprint, when there is one, must belong to the project of the marker.\<close>

definition owner_check :: "string \<Rightarrow> preview_marker \<Rightarrow> state_bucket \<Rightarrow> undeploy_error option" where
  "owner_check c m s =
     (if \<not> OWNER_REGEX (pm_owner m) then Some (BadOwner (pm_owner m))
      else case s (configBaselineKey c (pm_owner m)) of
        None \<Rightarrow> None
      | Some raw \<Rightarrow>
          (case parseConfigBaseline raw of
             None \<Rightarrow> Some (OwnershipUnreadable (pm_owner m))
           | Some b \<Rightarrow> if bl_project b \<noteq> pm_project m then Some (OwnedByOther (pm_owner m) (bl_project b)) else None))"

record env_report =
  ev_env :: string
  ev_project :: string
  ev_owner :: string
  ev_nodes :: "string list"
  ev_drained :: "bool option"
  ev_purge :: "purge_failure list option"

text \<open>The deletion of everything under a prefix; a refused call may leave part of it.\<close>

definition sweep :: "undeploy_world \<Rightarrow> string \<Rightarrow> undeploy_state \<Rightarrow> undeploy_state \<times> (undeploy_error + unit)" where
  "sweep w owner st =
     (st\<lparr>us_bucket := deletePrefix (uw_swept w) (projectStatePrefix (uw_cluster w) owner) (us_bucket st)\<rparr>,
      if uw_sweep w owner then Inr () else Inl (SweepFailed owner))"

text \<open>The removal of a whole footprint and the wait for its agents, for an environment and for a component.\<close>

definition undeploy_whole ::
  "undeploy_world \<Rightarrow> bool \<Rightarrow> int \<Rightarrow> string \<Rightarrow> undeploy_state
   \<Rightarrow> (undeploy_state \<times> (undeploy_error + (undeploy_plan \<times> bool option))) option" where
  "undeploy_whole w wait timeoutMs owner st =
     (case loadStates w (us_bucket st) of
        None \<Rightarrow> Some (st, Inl NodesUnlistable)
      | Some states \<Rightarrow>
          (let plan = planUndeploy states owner None
           in if up_nodes plan = [] then Some (st, Inr (plan, None))
              else case applyUndeploy (uw_aws w) owner None plan (uw_stamp w) (uw_interfere w owner) (us_bucket st) of
                (s1, Inl e) \<Rightarrow> Some (st\<lparr>us_bucket := s1\<rparr>, Inl (UndeployFailed e))
              | (s1, Inr _) \<Rightarrow>
                  if \<not> wait then Some (st\<lparr>us_bucket := s1\<rparr>, Inr (plan, None))
                  else map_option (\<lambda>d. (st\<lparr>us_bucket := uw_meanwhile w owner s1\<rparr>, Inr (plan, Some (dr_drained d))))
                    (wait_drained w owner None (undeploy_nodes plan) timeoutMs)))"

definition remove_footprint ::
  "undeploy_world \<Rightarrow> bool \<Rightarrow> int \<Rightarrow> bool \<Rightarrow> string \<Rightarrow> undeploy_state
   \<Rightarrow> (undeploy_state \<times> (undeploy_error + (undeploy_plan \<times> bool option \<times> purge_failure list option))) option" where
  "remove_footprint w wait timeoutMs purge owner st =
     map_option (\<lambda>(st1, r). case r of
         Inl e \<Rightarrow> (st1, Inl e)
       | Inr (plan, dres) \<Rightarrow>
           (let (st2, purged) = purge_if w purge owner (up_removedServices plan) st1
            in case sweep w owner st2 of (st3, Inl e) \<Rightarrow> (st3, Inl e) | (st3, Inr _) \<Rightarrow> (st3, Inr (plan, dres, purged))))
       (undeploy_whole w wait timeoutMs owner st)"

definition destroyEnvFootprint ::
  "undeploy_world \<Rightarrow> bool \<Rightarrow> int \<Rightarrow> bool \<Rightarrow> preview_marker \<Rightarrow> undeploy_state
   \<Rightarrow> (undeploy_state \<times> (undeploy_error + env_report)) option" where
  "destroyEnvFootprint w wait timeoutMs purge m st =
     (case owner_check (uw_cluster w) m (us_bucket st) of
        Some e \<Rightarrow> Some (st, Inl e)
      | None \<Rightarrow>
          map_option (\<lambda>(st1, r). (st1, map_sum id (\<lambda>(plan, dres, purged).
              \<lparr>ev_env = pm_env m, ev_project = pm_project m, ev_owner = pm_owner m, ev_nodes = undeploy_nodes plan,
               ev_drained = dres, ev_purge = purged\<rparr>) r))
            (remove_footprint w wait timeoutMs purge (pm_owner m) st))"

section \<open>Several footprints\<close>

text \<open>One after the other; a failure is noted and the next one is tried.\<close>

fun destroy_each ::
  "('a \<Rightarrow> undeploy_state \<Rightarrow> (undeploy_state \<times> (undeploy_error + 'b)) option) \<Rightarrow> ('a \<Rightarrow> string) \<Rightarrow> 'a list
   \<Rightarrow> undeploy_state \<Rightarrow> (undeploy_state \<times> 'b list \<times> (string \<times> undeploy_error) list) option" where
  "destroy_each f name [] st = Some (st, [], [])"
| "destroy_each f name (x # xs) st =
     (case f x st of
        None \<Rightarrow> None
      | Some (st1, r) \<Rightarrow>
          map_option (\<lambda>(st2, done, failed).
              (st2, (case r of Inr b \<Rightarrow> b # done | Inl _ \<Rightarrow> done), (case r of Inr _ \<Rightarrow> failed | Inl e \<Rightarrow> (name x, e) # failed)))
            (destroy_each f name xs st1))"

text \<open>The markers of a list; the timeout is read for each of them.\<close>

definition destroy_marked ::
  "undeploy_world \<Rightarrow> undeploy_options \<Rightarrow> bool \<Rightarrow> preview_marker list \<Rightarrow> undeploy_state
   \<Rightarrow> (undeploy_state \<times> env_report list \<times> (string \<times> undeploy_error) list) option" where
  "destroy_marked w opts purge ms st =
     destroy_each (\<lambda>m st. case drain_timeout opts of
         Inl e \<Rightarrow> Some (st, Inl e)
       | Inr t \<Rightarrow> destroyEnvFootprint w (xd_wait opts) t purge m st) pm_owner ms st"

definition env_markers :: "undeploy_world \<Rightarrow> state_bucket \<Rightarrow> undeploy_error + preview_marker list" where
  "env_markers w s =
     (case uw_owners w s of None \<Rightarrow> Inl MarkersUnlistable | Some owners \<Rightarrow> Inr (loadEnvMarkers (uw_cluster w) owners s))"

definition defaultProjectScope :: "undeploy_world \<Rightarrow> string option \<Rightarrow> string option \<Rightarrow> string option \<times> string option" where
  "defaultProjectScope w project component =
     (case project of
        Some p \<Rightarrow> (Some p, component)
      | None \<Rightarrow>
          (case uw_config w of
             ConfigFound config \<Rightarrow> (Some (lc_project config), case component of Some c \<Rightarrow> Some c | None \<Rightarrow> lc_component config)
           | _ \<Rightarrow> (None, component)))"

definition runListEnvs :: "undeploy_world \<Rightarrow> undeploy_options \<Rightarrow> state_bucket \<Rightarrow> undeploy_error + preview_marker list" where
  "runListEnvs w opts s =
     (let project = (case xd_project opts of Some p \<Rightarrow> Some p | None \<Rightarrow> fst (defaultProjectScope w None (xd_component opts)))
      in map_sum id (\<lambda>ms. filter (\<lambda>m. (project = None \<or> Some (pm_project m) = project)
             \<and> (xd_component opts = None \<or> pm_component m = xd_component opts)) ms) (env_markers w s))"

datatype undeploy_outcome =
    EnvsListed "preview_marker list"
  | FootprintOutcome footprint_outcome
  | EnvDestroyed env_report
  | EnvsDestroyed "env_report list" "(string \<times> undeploy_error) list"
  | ProjectDestroyed "(string \<times> string \<times> string list) list" "env_report list" "(string \<times> undeploy_error) list"
  | NothingExpired "preview_marker list"
  | PruneDryRun "preview_marker list"
  | EnvsPruned "env_report list" "(string \<times> undeploy_error) list" "preview_marker list"

type_synonym undeploy_run = "(undeploy_state \<times> (undeploy_error + undeploy_outcome)) option"

text \<open>The go-ahead for destroying environments: the flag, or the prompt where there is one.\<close>

definition go_ahead :: "undeploy_world \<Rightarrow> undeploy_options \<Rightarrow> undeploy_error option" where
  "go_ahead w opts =
     (if xd_yes opts then None else if uw_json w then Some NeedsYes else if uw_confirm w then None else Some UndeployAborted)"

definition runEnvDestroy :: "undeploy_world \<Rightarrow> string \<Rightarrow> undeploy_options \<Rightarrow> undeploy_state \<Rightarrow> undeploy_run" where
  "runEnvDestroy w env opts st =
     (case env_markers w (us_bucket st) of
        Inl e \<Rightarrow> Some (st, Inl e)
      | Inr all \<Rightarrow>
          (let (project, component) = defaultProjectScope w (xd_project opts) (xd_component opts);
               ms = selectPreviewMarkers all env project component
           in case ms of
                [] \<Rightarrow> Some (st, Inl (EnvUnknown env))
              | [m] \<Rightarrow>
                  (case go_ahead w opts of
                     Some e \<Rightarrow> Some (st, Inl e)
                   | None \<Rightarrow>
                       (case drain_timeout opts of
                          Inl e \<Rightarrow> Some (st, Inl e)
                        | Inr t \<Rightarrow> map_option (\<lambda>(st1, r). (st1, map_sum id EnvDestroyed r))
                            (destroyEnvFootprint w (xd_wait opts) t (xd_purgeSecrets opts) m st)))
              | m # _ \<Rightarrow>
                  if xd_project opts \<noteq> None \<and> list_all (\<lambda>x. pm_project x = pm_project m) ms
                  then (case go_ahead w opts of
                          Some e \<Rightarrow> Some (st, Inl e)
                        | None \<Rightarrow> map_option (\<lambda>(st1, done, failed). (st1, Inr (EnvsDestroyed done failed)))
                            (destroy_marked w opts (xd_purgeSecrets opts) ms st))
                  else Some (st, Inl (EnvAmbiguous ms))))"

section \<open>A whole project\<close>

definition destroy_component ::
  "undeploy_world \<Rightarrow> undeploy_options \<Rightarrow> int \<Rightarrow> component_entry \<Rightarrow> undeploy_state
   \<Rightarrow> (undeploy_state \<times> (undeploy_error + (string \<times> string \<times> string list))) option" where
  "destroy_component w opts timeoutMs e st =
     map_option (\<lambda>(st1, r). (st1, map_sum id (\<lambda>(plan, _). (ce_component e, ce_owner e, undeploy_nodes plan)) r))
       (remove_footprint w (xd_wait opts) timeoutMs (xd_purgeSecrets opts) (ce_owner e) st)"

text \<open>The environments, then the components, then the index, only when nothing failed.\<close>

definition destroy_parts ::
  "undeploy_world \<Rightarrow> undeploy_options \<Rightarrow> string \<Rightarrow> int \<Rightarrow> project_index \<Rightarrow> preview_marker list \<Rightarrow> undeploy_state \<Rightarrow> undeploy_run" where
  "destroy_parts w opts project t index markers st =
     (case destroy_each (destroyEnvFootprint w (xd_wait opts) t (xd_purgeSecrets opts)) pm_owner markers st of
        None \<Rightarrow> None
      | Some (st1, envs, failed1) \<Rightarrow>
          map_option (\<lambda>(st2, comps, failed2).
              (if failed1 @ failed2 = []
               then st2\<lparr>us_bucket := (us_bucket st2)(projectIndexKey (uw_cluster w) project := None)\<rparr> else st2,
               Inr (ProjectDestroyed comps envs (failed1 @ failed2))))
            (destroy_each (destroy_component w opts t) ce_owner (px_components index) st1))"

definition runProjectDestroy :: "undeploy_world \<Rightarrow> string \<Rightarrow> undeploy_options \<Rightarrow> undeploy_state \<Rightarrow> undeploy_run" where
  "runProjectDestroy w project opts st =
     (if uw_json w \<and> \<not> xd_yes opts then Some (st, Inl NeedsYes)
      else case loadProjectIndex (uw_cluster w) project (us_bucket st) of
        None \<Rightarrow> Some (st, Inl (NoProjectIndex project))
      | Some index \<Rightarrow>
          (case find (\<lambda>e. \<not> OWNER_REGEX (ce_owner e)) (px_components index) of
             Some e \<Rightarrow> Some (st, Inl (BadOwner (ce_owner e)))
           | None \<Rightarrow>
               (case env_markers w (us_bucket st) of
                  Inl e \<Rightarrow> Some (st, Inl e)
                | Inr ms \<Rightarrow>
                    if \<not> xd_yes opts \<and> \<not> uw_confirm w then Some (st, Inl UndeployAborted)
                    else (case drain_timeout opts of
                            Inl e \<Rightarrow> Some (st, Inl e)
                          | Inr t \<Rightarrow> destroy_parts w opts project t index (filter (\<lambda>m. pm_project m = project) ms) st))))"

section \<open>The expired environments, and the command\<close>

definition runPruneExpired :: "undeploy_world \<Rightarrow> undeploy_options \<Rightarrow> undeploy_state \<Rightarrow> undeploy_run" where
  "runPruneExpired w opts st =
     (if uw_json w \<and> \<not> xd_yes opts then Some (st, Inl NeedsYes)
      else case env_markers w (us_bucket st) of
        Inl e \<Rightarrow> Some (st, Inl e)
      | Inr ms \<Rightarrow>
          (let (expired, kept) = planPreviewPrune (uw_dateParse w) ms (uw_nowMs w)
           in if expired = [] then Some (st, Inr (NothingExpired kept))
              else if \<not> xd_yes opts then Some (st, Inr (PruneDryRun expired))
              else map_option (\<lambda>(st1, done, failed). (st1, Inr (EnvsPruned done failed kept)))
                (destroy_marked w opts False expired st)))"

definition flag_conflict :: "(string \<times> bool) list \<Rightarrow> undeploy_error option" where
  "flag_conflict flags = map_option (FlagsConflict \<circ> fst) (find snd flags)"

definition runDestroyCommand :: "undeploy_world \<Rightarrow> undeploy_options \<Rightarrow> undeploy_state \<Rightarrow> undeploy_run" where
  "runDestroyCommand w opts st =
     (let given = (\<lambda>x. x \<noteq> None);
          or_run = (\<lambda>e r. case e of Some x \<Rightarrow> Some (st, Inl x) | None \<Rightarrow> r)
      in if xd_listEnvs opts \<and> xd_pruneExpired opts then Some (st, Inl (FlagsConflict ''--prune-expired''))
         else if xd_listEnvs opts
         then or_run (flag_conflict [(''--env'', given (xd_env opts)), (''--service'', given (xd_service opts)),
                (''--purge-secrets'', xd_purgeSecrets opts)])
                (Some (st, map_sum id EnvsListed (runListEnvs w opts (us_bucket st))))
         else if xd_pruneExpired opts
         then or_run (flag_conflict [(''--env'', given (xd_env opts)), (''--service'', given (xd_service opts)),
                (''--project'', given (xd_project opts)), (''--component'', given (xd_component opts)),
                (''--purge-secrets'', xd_purgeSecrets opts)]) (runPruneExpired w opts st)
         else if \<not> opt_all LABEL_REGEX (xd_env opts) then Some (st, Inl (UndeployBadEnv (the (xd_env opts))))
         else if given (xd_component opts) \<and> \<not> given (xd_env opts) then Some (st, Inl ComponentNeedsEnv)
         else case (xd_project opts, xd_env opts) of
           (Some project, None) \<Rightarrow>
             if given (xd_service opts) then Some (st, Inl (FlagsConflict ''--service'')) else runProjectDestroy w project opts st
         | (_, Some env) \<Rightarrow>
             if \<not> given (xd_service opts) then runEnvDestroy w env opts st
             else map_option (\<lambda>(st1, r). (st1, map_sum id FootprintOutcome r)) (runFootprintDestroy w opts st)
         | _ \<Rightarrow> map_option (\<lambda>(st1, r). (st1, map_sum id FootprintOutcome r)) (runFootprintDestroy w opts st))"

section \<open>The removal of one footprint, alone\<close>

text \<open>Nobody else writes, the nodes are the given ones, and a path listing lists below the path, as documented.\<close>

definition calm :: "undeploy_world \<Rightarrow> string list \<Rightarrow> bool" where
  "calm w ids \<longleftrightarrow> uw_nodes w = (\<lambda>_. Some ids) \<and> distinct ids \<and> [] \<notin> set ids
     \<and> uw_interfere w = (\<lambda>_ _ _ s. s) \<and> uw_meanwhile w = (\<lambda>_ s. s)
     \<and> (\<forall>pfx pages. uw_listSecrets w pfx = Some pages \<longrightarrow> (\<forall>p \<in> set (concat pages). starts_with p (pfx @ ''/'')))"

definition hosts_at :: "string \<Rightarrow> undeploy_state \<Rightarrow> string \<Rightarrow> service_config list" where
  "hosts_at c st n = services_of (us_bucket st (desiredKey c n))"

lemma whole_removal: "servicesAfterRemoval ss owner None = filter (\<lambda>x. sc_project x \<noteq> owner) ss"
  by (simp add: servicesAfterRemoval_def should_remove_def)

lemma nothing_planned:
  assumes "up_nodes (planUndeploy (loadNodeDesiredStates c ids s) owner rs) = []" "n \<in> set ids"
  shows "servicesAfterRemoval (services_of (s (desiredKey c n))) owner rs = services_of (s (desiredKey c n))"
proof (cases "Option.bind (s (desiredKey c n)) parseDesiredState")
  case None
  then show ?thesis by (simp add: services_of_def servicesAfterRemoval_def)
next
  case (Some d)
  then have "(n, ds_services d) \<in> set (loadNodeDesiredStates c ids s)" using assms(2) by (auto simp: loaded bind_eq_Some_conv)
  moreover have "set (map nup_nodeId (up_nodes (planUndeploy (loadNodeDesiredStates c ids s) owner rs))) = {}" using assms(1) by simp
  ultimately have "servicesAfterRemoval (ds_services d) owner rs = ds_services d" unfolding plan_nodes by blast
  with Some show ?thesis by (simp add: services_of_def)
qed

lemma undeploy_whole_exact:
  assumes run: "undeploy_whole w wait t owner st = Some (st', r)" and calm: "calm w ids"
  shows "(\<exists>plan d. r = Inr (plan, d)) \<and> us_purged st' = us_purged st
    \<and> (\<forall>n \<in> set ids. hosts_at (uw_cluster w) st' n = filter (\<lambda>x. sc_project x \<noteq> owner) (hosts_at (uw_cluster w) st n))
    \<and> (\<forall>k. k \<notin> range (desiredKey (uw_cluster w)) \<union> range (edgeConfigKey (uw_cluster w)) \<union> {configBaselineKey (uw_cluster w) owner}
          \<longrightarrow> us_bucket st' k = us_bucket st k)"
proof -
  let ?c = "uw_cluster w" and ?s = "us_bucket st"
  let ?plan = "planUndeploy (loadNodeDesiredStates ?c ids ?s) owner None"
  have w: "loadStates w ?s = Some (loadNodeDesiredStates ?c ids ?s)" "uw_interfere w owner = (\<lambda>_ _ s. s)"
    "uw_meanwhile w owner = (\<lambda>s. s)" "distinct ids" "[] \<notin> set ids"
    using calm by (simp_all add: calm_def loadStates_def)
  show ?thesis
  proof (cases "up_nodes ?plan = []")
    case True
    then have "st' = st" "r = Inr (?plan, None)" using run w(1) by (auto simp: undeploy_whole_def Let_def)
    moreover have "hosts_at ?c st n = filter (\<lambda>x. sc_project x \<noteq> owner) (hosts_at ?c st n)" if "n \<in> set ids" for n
      using nothing_planned [OF True that] by (simp add: hosts_at_def whole_removal)
    ultimately show ?thesis by auto
  next
    case False
    from undeploy_exact [where aws = "uw_aws w" and s = ?s and owner = owner and rs = None and stamp = "uw_stamp w", OF w(4,5) refl] obtain s1 res where
      app: "applyUndeploy (uw_aws w) owner None ?plan (uw_stamp w) (\<lambda>_ _ s. s) ?s = (s1, Inr res)"
      and nodes: "\<forall>n \<in> set ids. services_of (s1 (desiredKey ?c n)) = servicesAfterRemoval (services_of (?s (desiredKey ?c n))) owner None"
      and frame: "\<forall>k. k \<notin> desiredKey ?c ` set ids \<and> k \<notin> edgeConfigKey ?c ` set (up_affectedEdges ?plan) \<and> k \<noteq> configBaselineKey ?c owner
          \<longrightarrow> s1 k = ?s k" by blast
    have st': "st' = st\<lparr>us_bucket := s1\<rparr>" and r: "\<exists>d. r = Inr (?plan, d)"
      using run False app w(1,2,3) by (auto simp: undeploy_whole_def Let_def split: if_splits)
    have "us_bucket st' k = ?s k" if "k \<notin> range (desiredKey ?c) \<union> range (edgeConfigKey ?c) \<union> {configBaselineKey ?c owner}" for k
      using frame that by (auto simp: st')
    with nodes r show ?thesis by (auto simp: st' hosts_at_def whole_removal)
  qed
qed

text \<open>A footprint that is gone: off the nodes, its documents swept, everything else as it was.\<close>

definition footprint_gone :: "undeploy_world \<Rightarrow> string list \<Rightarrow> string \<Rightarrow> undeploy_state \<Rightarrow> undeploy_state \<Rightarrow> bool" where
  "footprint_gone w ids owner st st' \<longleftrightarrow>
     (\<forall>n \<in> set ids. hosts_at (uw_cluster w) st' n = filter (\<lambda>x. sc_project x \<noteq> owner) (hosts_at (uw_cluster w) st n))
     \<and> (\<forall>k. if starts_with k (projectStatePrefix (uw_cluster w) owner) \<and> uw_swept w k then us_bucket st' k = None
         else k \<in> range (desiredKey (uw_cluster w)) \<union> range (edgeConfigKey (uw_cluster w)) \<union> {configBaselineKey (uw_cluster w) owner}
              \<or> us_bucket st' k = us_bucket st k)
     \<and> (\<exists>ps. us_purged st' = us_purged st @ ps
         \<and> (\<forall>p \<in> set ps. \<exists>service. purgeable_name service \<and> starts_with p (secretParameterPrefix (uw_cluster w) owner service @ ''/'')))"

lemma node_key_not_project: "\<not> starts_with (desiredKey c n) (projectStatePrefix c owner)"
  by (auto simp: starts_with_iff key_defs)

lemma purged_below:
  assumes "calm w ids" "p \<in> set (fst (purgeSecrets w owner services))"
  shows "\<exists>service. purgeable_name service \<and> starts_with p (secretParameterPrefix (uw_cluster w) owner service @ ''/'')"
proof -
  obtain x where x: "p \<in> set (fst (purge_service w owner x))" using assms(2) by (auto simp: purgeSecrets_def)
  let ?pfx = "secretParameterPrefix (uw_cluster w) owner x"
  obtain pages where ok: "purgeable_name x" "uw_listSecrets w ?pfx = Some pages" "p \<in> snd ` set (listSecretsByPrefix pages ?pfx)"
    using x by (auto simp: purge_service_def Let_def split: if_splits option.splits)
  then have "p \<in> set (concat pages)" by (auto simp: listSecretsByPrefix_def)
  with ok(1,2) assms(1) show ?thesis unfolding calm_def by blast
qed

lemma remove_footprint_exact:
  assumes run: "remove_footprint w wait t purge owner st = Some (st', r)" and calm: "calm w ids"
  shows "footprint_gone w ids owner st st' \<and> (r = Inl (SweepFailed owner) \<or> (\<exists>x. r = Inr x))"
proof -
  let ?c = "uw_cluster w"
  obtain st1 r1 where one: "undeploy_whole w wait t owner st = Some (st1, r1)" using run by (auto simp: remove_footprint_def)
  note U = undeploy_whole_exact [OF one calm]
  obtain plan d where r1: "r1 = Inr (plan, d)" using U by blast
  obtain st2 purged where two: "purge_if w purge owner (up_removedServices plan) st1 = (st2, purged)" by fastforce
  have b2: "us_bucket st2 = us_bucket st1" using two by (auto simp: purge_if_def Let_def split: if_splits)
  have ps: "\<exists>ps. us_purged st2 = us_purged st1 @ ps
      \<and> (\<forall>p \<in> set ps. \<exists>service. purgeable_name service \<and> starts_with p (secretParameterPrefix ?c owner service @ ''/''))"
    using two purged_below [OF calm] by (auto simp: purge_if_def Let_def split: if_splits)
  have st': "st' = fst (sweep w owner st2)" and r: "r = Inl (SweepFailed owner) \<or> (\<exists>x. r = Inr x)"
    using run one r1 two by (auto simp: remove_footprint_def sweep_def split: if_splits)
  have nodes: "hosts_at ?c st' n = hosts_at ?c st1 n" for n
    by (simp add: st' sweep_def hosts_at_def deletePrefix_def node_key_not_project b2)
  have "footprint_gone w ids owner st st'"
    using U ps unfolding footprint_gone_def nodes
    by (auto simp: st' sweep_def deletePrefix_def b2)
  with r show ?thesis by blast
qed

lemma environment_exact:
  assumes "destroyEnvFootprint w wait t purge m st = Some (st', r)" "calm w ids"
  shows "case owner_check (uw_cluster w) m (us_bucket st) of
      Some e \<Rightarrow> st' = st \<and> r = Inl e
    | None \<Rightarrow> footprint_gone w ids (pm_owner m) st st'
        \<and> (case r of Inl e \<Rightarrow> e = SweepFailed (pm_owner m) | Inr rep \<Rightarrow> ev_owner rep = pm_owner m)"
proof (cases "owner_check (uw_cluster w) m (us_bucket st)")
  case None
  then obtain r1 where one: "remove_footprint w wait t purge (pm_owner m) st = Some (st', r1)"
    and r: "r = map_sum id (\<lambda>(plan, dres, purged). \<lparr>ev_env = pm_env m, ev_project = pm_project m, ev_owner = pm_owner m,
       ev_nodes = undeploy_nodes plan, ev_drained = dres, ev_purge = purged\<rparr>) r1"
    using assms(1) by (auto simp: destroyEnvFootprint_def)
  from remove_footprint_exact [OF one assms(2)] None r show ?thesis by auto
next
  case (Some e)
  then show ?thesis using assms(1) by (simp add: destroyEnvFootprint_def)
qed


section \<open>A whole project\<close>

text \<open>A pass over several things that each work or fail: what every step keeps, and what the successful ones reach.\<close>

locale best_effort =
  fixes f :: "'a \<Rightarrow> undeploy_state \<Rightarrow> (undeploy_state \<times> (undeploy_error + 'b)) option"
    and X :: "'a set"
    and R :: "undeploy_state \<Rightarrow> undeploy_state \<Rightarrow> bool"
    and G :: "'a \<Rightarrow> undeploy_state \<Rightarrow> bool"
  assumes refl: "R st st"
    and trans: "R st st1 \<Longrightarrow> R st1 st2 \<Longrightarrow> R st st2"
    and step: "x \<in> X \<Longrightarrow> f x st = Some (st1, r) \<Longrightarrow> R st st1"
    and reached: "x \<in> X \<Longrightarrow> f x st = Some (st1, Inr b) \<Longrightarrow> G x st1"
    and keeps: "R st st1 \<Longrightarrow> G x st \<Longrightarrow> G x st1"
begin

lemma pass:
  assumes "destroy_each f name xs st = Some (st', rs, failed)" "set xs \<subseteq> X"
  shows "R st st'" and "failed = [] \<Longrightarrow> x \<in> set xs \<Longrightarrow> G x st'"
proof -
  have "R st st' \<and> (failed = [] \<longrightarrow> (\<forall>x \<in> set xs. G x st'))"
    using assms
  proof (induction xs arbitrary: st st' rs failed)
    case Nil
    then show ?case using refl by simp
  next
    case (Cons y ys)
    obtain st1 r where y: "f y st = Some (st1, r)" using Cons.prems by (auto split: option.splits)
    obtain st2 rs2 failed2 where ys: "destroy_each f name ys st1 = Some (st2, rs2, failed2)"
      using Cons.prems y by (auto split: option.splits)
    have eq: "st' = st2" "failed = (case r of Inr _ \<Rightarrow> failed2 | Inl e \<Rightarrow> (name y, e) # failed2)"
      using Cons.prems(1) y ys by auto
    have IH: "R st1 st2 \<and> (failed2 = [] \<longrightarrow> (\<forall>x \<in> set ys. G x st2))" by (rule Cons.IH [OF ys]) (use Cons.prems in simp)
    have "R st st2" using trans step [OF _ y] IH Cons.prems by auto
    moreover have "G y st2" if "r = Inr b" for b using reached [OF _ y [unfolded that]] keeps IH Cons.prems by auto
    ultimately show ?case using IH eq by (cases r) auto
  qed
  then show "R st st'" "failed = [] \<Longrightarrow> x \<in> set xs \<Longrightarrow> G x st'" by blast+
qed

end

text \<open>
  From one state to a later one only services of the footprints \<open>owners\<close> disappear from the nodes, and the index of a
  project stays.
\<close>

definition only_loses :: "undeploy_world \<Rightarrow> string list \<Rightarrow> string set \<Rightarrow> undeploy_state \<Rightarrow> undeploy_state \<Rightarrow> bool" where
  "only_loses w ids owners st st' \<longleftrightarrow>
     (\<forall>n \<in> set ids. \<exists>P. hosts_at (uw_cluster w) st' n = filter P (hosts_at (uw_cluster w) st n)
        \<and> (\<forall>x. sc_project x \<notin> owners \<longrightarrow> P x))
     \<and> (\<forall>project. us_bucket st' (projectIndexKey (uw_cluster w) project) = us_bucket st (projectIndexKey (uw_cluster w) project))"

definition off_nodes :: "undeploy_world \<Rightarrow> string list \<Rightarrow> string \<Rightarrow> undeploy_state \<Rightarrow> bool" where
  "off_nodes w ids owner st \<longleftrightarrow> (\<forall>n \<in> set ids. \<forall>x \<in> set (hosts_at (uw_cluster w) st n). sc_project x \<noteq> owner)"

lemma only_loses_refl: "only_loses w ids owners st st"
  unfolding only_loses_def by (auto intro!: exI [of _ "\<lambda>_. True"])

lemma only_loses_trans:
  assumes "only_loses w ids owners st st1" "only_loses w ids owners st1 st2"
  shows "only_loses w ids owners st st2"
  unfolding only_loses_def
proof (intro conjI ballI)
  fix n assume n: "n \<in> set ids"
  obtain P where P: "hosts_at (uw_cluster w) st1 n = filter P (hosts_at (uw_cluster w) st n)" "\<forall>x. sc_project x \<notin> owners \<longrightarrow> P x"
    using assms(1) n unfolding only_loses_def by blast
  obtain Q where Q: "hosts_at (uw_cluster w) st2 n = filter Q (hosts_at (uw_cluster w) st1 n)" "\<forall>x. sc_project x \<notin> owners \<longrightarrow> Q x"
    using assms(2) n unfolding only_loses_def by blast
  show "\<exists>P. hosts_at (uw_cluster w) st2 n = filter P (hosts_at (uw_cluster w) st n) \<and> (\<forall>x. sc_project x \<notin> owners \<longrightarrow> P x)"
    using P Q by (intro exI [of _ "\<lambda>x. P x \<and> Q x"]) simp
qed (use assms in \<open>simp add: only_loses_def\<close>)

lemma off_nodes_kept: "only_loses w ids owners st st1 \<Longrightarrow> off_nodes w ids owner st \<Longrightarrow> off_nodes w ids owner st1"
  unfolding only_loses_def off_nodes_def by (metis filter_is_subset in_mono)

text \<open>An index is not below the documents of a footprint whose name has the right form, nor one of the documents a removal writes.\<close>

lemma index_elsewhere:
  assumes "OWNER_REGEX owner"
  shows "\<not> starts_with (projectIndexKey c p) (projectStatePrefix c owner)" "projectIndexKey c p \<noteq> configBaselineKey c owner"
    "projectIndexKey c p \<noteq> desiredKey c n" "projectIndexKey c p \<noteq> edgeConfigKey c n"
proof -
  obtain a r where o: "owner = a # r" "is_lower_alnum a" using assms by (cases owner) (auto simp: OWNER_REGEX_def)
  moreover have "\<not> is_lower_alnum CHR ''_''" by code_simp
  ultimately have "a \<noteq> CHR ''_''" by blast
  then show "\<not> starts_with (projectIndexKey c p) (projectStatePrefix c owner)" "projectIndexKey c p \<noteq> configBaselineKey c owner"
    by (auto simp: starts_with_iff key_defs o(1))
  show "projectIndexKey c p \<noteq> desiredKey c n" "projectIndexKey c p \<noteq> edgeConfigKey c n" by (simp_all add: key_defs)
qed

lemma gone_only_loses:
  assumes "footprint_gone w ids owner st st'" "OWNER_REGEX owner" "owner \<in> owners"
  shows "only_loses w ids owners st st'" "off_nodes w ids owner st'"
proof -
  have "us_bucket st' (projectIndexKey (uw_cluster w) p) = us_bucket st (projectIndexKey (uw_cluster w) p)" for p
  proof -
    note I = index_elsewhere [OF assms(2), of "uw_cluster w" p]
    have "projectIndexKey (uw_cluster w) p
        \<notin> range (desiredKey (uw_cluster w)) \<union> range (edgeConfigKey (uw_cluster w)) \<union> {configBaselineKey (uw_cluster w) owner}"
      using I by auto
    with I(1) show ?thesis
      using assms(1) [unfolded footprint_gone_def, THEN conjunct2, THEN conjunct1, THEN spec, of "projectIndexKey (uw_cluster w) p"]
      by simp
  qed
  moreover have "\<exists>P. hosts_at (uw_cluster w) st' n = filter P (hosts_at (uw_cluster w) st n) \<and> (\<forall>x. sc_project x \<notin> owners \<longrightarrow> P x)"
    if "n \<in> set ids" for n
    using assms(1,3) that unfolding footprint_gone_def by (intro exI [of _ "\<lambda>x. sc_project x \<noteq> owner"]) auto
  ultimately show "only_loses w ids owners st st'" unfolding only_loses_def by blast
  show "off_nodes w ids owner st'" using assms(1) unfolding footprint_gone_def off_nodes_def by auto
qed

definition named_in :: "string set \<Rightarrow> string \<Rightarrow> bool" where
  "named_in owners owner \<longleftrightarrow> owner \<in> owners \<and> OWNER_REGEX owner"

interpretation env_pass: best_effort "destroyEnvFootprint w wait t purge" "{m. named_in owners (pm_owner m)}"
  "\<lambda>st st'. calm w ids \<longrightarrow> only_loses w ids owners st st'" "\<lambda>m st. calm w ids \<longrightarrow> off_nodes w ids (pm_owner m) st"
  for w wait t purge owners ids
proof (unfold_locales, goal_cases)
  case (3 m st st1 r)
  show ?case
  proof
    assume c: "calm w ids"
    from environment_exact [OF 3(2) c] 3(1) show "only_loses w ids owners st st1"
      by (auto simp: named_in_def only_loses_refl gone_only_loses split: option.splits)
  qed
next
  case (4 m st st1 b)
  show ?case
  proof
    assume c: "calm w ids"
    from environment_exact [OF 4(2) c] 4(1) show "off_nodes w ids (pm_owner m) st1"
      by (auto simp: named_in_def gone_only_loses split: option.splits)
  qed
qed (auto intro: only_loses_refl only_loses_trans off_nodes_kept)

interpretation component_pass: best_effort "destroy_component w opts t" "{e. named_in owners (ce_owner e)}"
  "\<lambda>st st'. calm w ids \<longrightarrow> only_loses w ids owners st st'" "\<lambda>e st. calm w ids \<longrightarrow> off_nodes w ids (ce_owner e) st"
  for w opts t owners ids
proof (unfold_locales, goal_cases)
  case (3 e st st1 r)
  show ?case
  proof
    assume c: "calm w ids"
    from 3(2) obtain r1 where "remove_footprint w (xd_wait opts) t (xd_purgeSecrets opts) (ce_owner e) st = Some (st1, r1)"
      by (auto simp: destroy_component_def)
    from remove_footprint_exact [OF this c] 3(1) show "only_loses w ids owners st st1" by (auto simp: named_in_def gone_only_loses)
  qed
next
  case (4 e st st1 b)
  show ?case
  proof
    assume c: "calm w ids"
    from 4(2) obtain r1 where "remove_footprint w (xd_wait opts) t (xd_purgeSecrets opts) (ce_owner e) st = Some (st1, r1)"
      by (auto simp: destroy_component_def)
    from remove_footprint_exact [OF this c] 4(1) show "off_nodes w ids (ce_owner e) st1" by (auto simp: named_in_def gone_only_loses)
  qed
qed (auto intro: only_loses_refl only_loses_trans off_nodes_kept)

text \<open>The footprints of a project: its registered components and its environments.\<close>

definition project_footprints :: "undeploy_world \<Rightarrow> string \<Rightarrow> state_bucket \<Rightarrow> string set" where
  "project_footprints w project s =
     (case loadProjectIndex (uw_cluster w) project s of None \<Rightarrow> {} | Some x \<Rightarrow> ce_owner ` set (px_components x))
     \<union> (case env_markers w s of Inl _ \<Rightarrow> {} | Inr ms \<Rightarrow> pm_owner ` {m \<in> set ms. pm_project m = project})"

lemma loaded_markers_named: "env_markers w s = Inr ms \<Longrightarrow> m \<in> set ms \<Longrightarrow> OWNER_REGEX (pm_owner m)"
  by (auto simp: env_markers_def loadEnvMarkers_def set_map_filter_Some parse_Some valid_preview_marker_def split: option.splits)

lemma parts_destroyed:
  assumes run: "destroy_parts w opts project t index ms st = Some (st', Inr (ProjectDestroyed comps envs failed))"
    and calm: "calm w ids" and named: "\<forall>m \<in> set ms. named_in owners (pm_owner m)" "\<forall>e \<in> set (px_components index). named_in owners (ce_owner e)"
  shows "\<exists>st2. only_loses w ids owners st st2
    \<and> (if failed = []
       then st' = st2\<lparr>us_bucket := (us_bucket st2)(projectIndexKey (uw_cluster w) project := None)\<rparr>
         \<and> (\<forall>owner \<in> pm_owner ` set ms \<union> ce_owner ` set (px_components index). off_nodes w ids owner st2)
       else st' = st2)"
proof -
  let ?env = "destroyEnvFootprint w (xd_wait opts) t (xd_purgeSecrets opts)"
  obtain st1 es failed1 where 1: "destroy_each ?env pm_owner ms st = Some (st1, es, failed1)"
    using run by (auto simp: destroy_parts_def split: option.splits)
  obtain st2 cs failed2 where 2: "destroy_each (destroy_component w opts t) ce_owner (px_components index) st1 = Some (st2, cs, failed2)"
    using run 1 by (auto simp: destroy_parts_def)
  have f: "failed = failed1 @ failed2" and st': "st' = (if failed = []
      then st2\<lparr>us_bucket := (us_bucket st2)(projectIndexKey (uw_cluster w) project := None)\<rparr> else st2)"
    using run 1 2 by (auto simp: destroy_parts_def split: if_splits)
  have sub: "set ms \<subseteq> {m. named_in owners (pm_owner m)}" "set (px_components index) \<subseteq> {e. named_in owners (ce_owner e)}"
    using named by auto
  have R1: "only_loses w ids owners st st1" using env_pass.pass(1) [OF 1 sub(1), of ids] calm by blast
  have R2: "only_loses w ids owners st1 st2" using component_pass.pass(1) [OF 2 sub(2), of ids] calm by blast
  have E: "off_nodes w ids (pm_owner m) st2" if "failed1 = []" "m \<in> set ms" for m
    using off_nodes_kept [OF R2] env_pass.pass(2) [OF 1 sub(1) that, of ids] calm by blast
  have C: "off_nodes w ids (ce_owner e) st2" if "failed2 = []" "e \<in> set (px_components index)" for e
    using component_pass.pass(2) [OF 2 sub(2) that, of ids] calm by blast
  show ?thesis
    using only_loses_trans [OF R1 R2] E C by (intro exI [of _ st2]) (auto simp: f st')
qed

text \<open>
  C5. Destroying a whole project, alone, only removes services of the footprints its registry and its environments
  name. When every part worked, none of those footprints is on a node any more and the registry is gone; when some
  part failed, the registry is as it was, so that a second run sees every component again.
\<close>

theorem project_destroyed_or_retryable:
  assumes "runProjectDestroy w project opts st = Some (st', Inr (ProjectDestroyed comps envs failed))" "calm w ids"
  shows "(\<forall>n \<in> set ids. \<exists>P. hosts_at (uw_cluster w) st' n = filter P (hosts_at (uw_cluster w) st n)
      \<and> (\<forall>x. if sc_project x \<in> project_footprints w project (us_bucket st) then True else P x))
    \<and> (if failed = []
       then us_bucket st' (projectIndexKey (uw_cluster w) project) = None
         \<and> (\<forall>owner \<in> project_footprints w project (us_bucket st). off_nodes w ids owner st')
       else us_bucket st' (projectIndexKey (uw_cluster w) project) = us_bucket st (projectIndexKey (uw_cluster w) project))"
proof -
  let ?c = "uw_cluster w" and ?owners = "project_footprints w project (us_bucket st)"
  obtain index ms t where index: "loadProjectIndex ?c project (us_bucket st) = Some index"
    and shape: "find (\<lambda>e. \<not> OWNER_REGEX (ce_owner e)) (px_components index) = None"
    and ms: "env_markers w (us_bucket st) = Inr ms"
    and run: "destroy_parts w opts project t index (filter (\<lambda>m. pm_project m = project) ms) st
        = Some (st', Inr (ProjectDestroyed comps envs failed))"
    using assms(1) by (auto simp: runProjectDestroy_def split: if_splits option.splits sum.splits)
  have owners: "?owners = ce_owner ` set (px_components index) \<union> pm_owner ` {m \<in> set ms. pm_project m = project}"
    by (simp add: project_footprints_def index ms)
  have named: "\<forall>m \<in> set (filter (\<lambda>m. pm_project m = project) ms). named_in ?owners (pm_owner m)"
    "\<forall>e \<in> set (px_components index). named_in ?owners (ce_owner e)"
    using loaded_markers_named [OF ms] shape by (auto simp: named_in_def owners find_None_iff)
  obtain st2 where st2: "only_loses w ids ?owners st st2"
    and fin: "if failed = []
       then st' = st2\<lparr>us_bucket := (us_bucket st2)(projectIndexKey ?c project := None)\<rparr>
         \<and> (\<forall>owner \<in> pm_owner ` set (filter (\<lambda>m. pm_project m = project) ms) \<union> ce_owner ` set (px_components index).
              off_nodes w ids owner st2)
       else st' = st2"
    using parts_destroyed [OF run assms(2) named] by blast
  have same: "hosts_at ?c st' n = hosts_at ?c st2 n" for n
    using fin by (auto simp: hosts_at_def key_defs split: if_splits)
  show ?thesis
    using st2 fin unfolding only_loses_def off_nodes_def same owners by (auto split: if_splits)
qed

section \<open>The go-ahead\<close>

lemma footprint_go_ahead:
  "runFootprintDestroy w opts st = Some (st', r) \<Longrightarrow> st' \<noteq> st \<Longrightarrow> xd_yes opts \<or> uw_json w \<or> uw_confirm w"
  by (auto simp: runFootprintDestroy_def Let_def split: config_search.splits option.splits sum.splits if_splits)

lemma env_go_ahead: "runEnvDestroy w env opts st = Some (st', r) \<Longrightarrow> st' \<noteq> st \<Longrightarrow> go_ahead w opts = None"
  by (cases "go_ahead w opts") (auto simp: runEnvDestroy_def Let_def split: sum.splits prod.splits list.splits if_splits)

lemma project_go_ahead:
  "runProjectDestroy w project opts st = Some (st', r) \<Longrightarrow> st' \<noteq> st \<Longrightarrow> xd_yes opts \<or> \<not> uw_json w \<and> uw_confirm w"
  by (auto simp: runProjectDestroy_def split: option.splits sum.splits if_splits)

lemma prune_go_ahead: "runPruneExpired w opts st = Some (st', r) \<Longrightarrow> st' \<noteq> st \<Longrightarrow> xd_yes opts"
  by (auto simp: runPruneExpired_def Let_def split: sum.splits prod.splits if_splits)

text \<open>The footprint of the configuration, whole or one service of it.\<close>

definition configured_footprint :: "undeploy_options \<Rightarrow> bool" where
  "configured_footprint opts \<longleftrightarrow> \<not> xd_pruneExpired opts \<and> (xd_service opts \<noteq> None \<or> xd_env opts = None \<and> xd_project opts = None)"

lemma command_go_ahead:
  assumes "runDestroyCommand w opts st = Some (st', r)" "st' \<noteq> st"
  shows "\<not> xd_listEnvs opts \<and> (xd_yes opts \<or> \<not> xd_pruneExpired opts \<and> \<not> uw_json w \<and> uw_confirm w
      \<or> uw_json w \<and> configured_footprint opts)"
proof -
  have ga: "go_ahead w opts = None \<Longrightarrow> xd_yes opts \<or> \<not> uw_json w \<and> uw_confirm w" by (auto simp: go_ahead_def split: if_splits)
  consider (prune) "xd_pruneExpired opts" "runPruneExpired w opts st = Some (st', r)"
    | (project) p where "\<not> xd_pruneExpired opts" "runProjectDestroy w p opts st = Some (st', r)"
    | (env) e where "\<not> xd_pruneExpired opts" "runEnvDestroy w e opts st = Some (st', r)"
    | (config) r1 where "configured_footprint opts" "runFootprintDestroy w opts st = Some (st', r1)"
    using assms unfolding runDestroyCommand_def Let_def configured_footprint_def
    by (auto split: option.splits if_splits prod.splits)
  moreover have "\<not> xd_listEnvs opts"
    using assms unfolding runDestroyCommand_def Let_def by (auto split: option.splits if_splits)
  ultimately show ?thesis
  proof cases
    case prune
    then show ?thesis using prune_go_ahead assms(2) \<open>\<not> xd_listEnvs opts\<close> by blast
  next
    case project
    then show ?thesis using project_go_ahead assms(2) \<open>\<not> xd_listEnvs opts\<close> by blast
  next
    case env
    then show ?thesis using ga [OF env_go_ahead [OF env(2) assms(2)]] \<open>\<not> xd_listEnvs opts\<close> by blast
  next
    case config
    then show ?thesis using footprint_go_ahead assms(2) \<open>\<not> xd_listEnvs opts\<close> unfolding configured_footprint_def by blast
  qed
qed

text \<open>
  C6. The command changes the bucket or a secret only after a go-ahead: --yes, or the prompt outside JSON output.
  The footprint of the configuration is the exception: with JSON output it is destroyed without either.
\<close>

theorem destroy_needs_a_go_ahead:
  assumes "runDestroyCommand w opts st = Some (st', r)" "st' \<noteq> st"
  shows "\<not> xd_listEnvs opts \<and> (xd_yes opts \<or> \<not> xd_pruneExpired opts \<and> \<not> uw_json w \<and> uw_confirm w
      \<or> uw_json w \<and> configured_footprint opts)"
  by (rule command_go_ahead [OF assms])

section \<open>Examples\<close>

definition undeploy_example :: "bool \<Rightarrow> undeploy_world" where
  "undeploy_example json = \<lparr>uw_aws = example_env, uw_json = json, uw_confirm = False, uw_config = ConfigFound moving_config,
     uw_nodes = (\<lambda>_. Some [''a'']), uw_owners = (\<lambda>_. Some []), uw_stamp = (\<lambda>_. ''t''), uw_interfere = (\<lambda>_ _ _ s. s),
     uw_indexInterfere = (\<lambda>_ s. s), uw_meanwhile = (\<lambda>_ s. s), uw_dateParse = iso_parse, uw_nowMs = 0, uw_waitStart = (\<lambda>_. 0),
     uw_status = (\<lambda>_ _ n. Some (StatusJson (quiet_status n ''t'' []))), uw_clock = (\<lambda>_. steady_clock), uw_staleClock = (\<lambda>_ _ _. 0),
     uw_listSecrets = (\<lambda>pfx. Some [[pfx @ ''/KEY'']]), uw_deleteSecret = (\<lambda>_. True), uw_sweep = (\<lambda>_. True), uw_swept = (\<lambda>_. True)\<rparr>"

definition plain_destroy :: undeploy_options where
  "plain_destroy = \<lparr>xd_service = None, xd_env = None, xd_project = None, xd_component = None, xd_listEnvs = False, xd_pruneExpired = False,
     xd_purgeSecrets = False, xd_yes = False, xd_wait = True, xd_timeout = Some ''120''\<rparr>"

definition shop_state :: "state_bucket \<Rightarrow> undeploy_state" where
  "shop_state s = \<lparr>us_bucket = s(desiredKey ''default'' ''a'' \<mapsto> hosted ''a'' [plain_service ''shop'' ''api'' 256 256 1,
      plain_service ''my--api-v2'' ''web'' 128 128 1]), us_purged = []\<rparr>"

definition base_of :: "string \<Rightarrow> string option \<Rightarrow> config_baseline" where
  "base_of project component = snapshotConfigBaseline (moving_config\<lparr>lc_project := project, lc_component := component\<rparr>) ''t''"

lemma calm_example: "calm (undeploy_example json) [''a'']"
  by (simp add: calm_def undeploy_example_def starts_with_def)

definition v2_marker :: preview_marker where
  "v2_marker = \<lparr>pm_version = 1, pm_project = ''my'', pm_component = Some ''api'', pm_env = ''v2'', pm_owner = ''my--api-v2'',
     pm_createdAt = ''t'', pm_updatedAt = ''t'', pm_expiresAt = None, pm_domains = []\<rparr>"

definition v2_state :: undeploy_state where
  "v2_state = shop_state [configBaselineKey ''default'' ''my--api-v2'' \<mapsto> BaselineJson (base_of ''my'' (Some ''api-v2''))]"

definition shop_project :: undeploy_state where
  "shop_project = shop_state [projectIndexKey ''default'' ''shop'' \<mapsto> IndexJson \<lparr>px_version = 1, px_project = ''shop'',
     px_components = [\<lparr>ce_component = ''default'', ce_owner = ''shop'', ce_services = [''api''], ce_updatedAt = ''t''\<rparr>], px_updatedAt = ''t''\<rparr>]"

text \<open>All the examples at once: the evaluation sets up the code of the whole command only once.\<close>

lemma undeploy_runs:
  "(map_option (\<lambda>x. map sc_project (hosts_at ''default'' (fst x) ''a'')) (runDestroyCommand (undeploy_example True) plain_destroy (shop_state (\<lambda>_. None)))
   = Some [''my--api-v2'']) \<and>
   (map_option (\<lambda>x. map sc_project (hosts_at ''default'' (fst x) ''a'')) (runDestroyCommand (undeploy_example False) plain_destroy (shop_state (\<lambda>_. None)))
   = Some [''shop'', ''my--api-v2'']) \<and>
   (map_option (\<lambda>x. (map sc_project (hosts_at ''default'' (fst x) ''a''), map_sum id (\<lambda>_. ()) (snd x)))
     (runDestroyCommand (undeploy_example False) (plain_destroy\<lparr>xd_yes := True, xd_timeout := Some ''soon''\<rparr>) (shop_state (\<lambda>_. None)))
   = Some ([''my--api-v2''], Inl UndeployBadTimeout)) \<and>
   (map_option (\<lambda>x. (us_bucket (fst x) (configBaselineKey ''default'' ''shop'') \<noteq> None, snd x))
     (runDestroyCommand (undeploy_example False) (plain_destroy\<lparr>xd_yes := True\<rparr>)
        \<lparr>us_bucket = [configBaselineKey ''default'' ''shop'' \<mapsto> BaselineJson (base_of ''shop'' None)], us_purged = []\<rparr>)
   = Some (True, Inr (FootprintOutcome NothingDeployedThere))) \<and>
   (footprintOwner ''my'' (Some ''api'') (Some ''v2'') = footprintOwner ''my'' (Some ''api-v2'') None) \<and>
   (valid_preview_marker v2_marker) \<and>
   (owner_check ''default'' v2_marker (us_bucket v2_state) = None) \<and>
   (map_option (\<lambda>x. map sc_project (hosts_at ''default'' (fst x) ''a''))
     (destroyEnvFootprint (undeploy_example False) True 1000 False v2_marker v2_state) = Some [''shop'']) \<and>
   (map_option (\<lambda>x. (map sc_project (hosts_at ''default'' (fst x) ''a''), us_bucket (fst x) (previewMarkerKey ''default'' ''my--api-v2'')))
     (destroyEnvFootprint ((undeploy_example False)\<lparr>uw_meanwhile := (\<lambda>_ s. s(
          desiredKey ''default'' ''a'' \<mapsto> hosted ''a'' [plain_service ''my--api-v2'' ''web'' 128 128 1],
          previewMarkerKey ''default'' ''my--api-v2'' \<mapsto> PreviewJson v2_marker))\<rparr>) True 1000 False v2_marker v2_state)
   = Some ([''my--api-v2''], None)) \<and>
   (map sc_project (filter (\<lambda>x. sc_project x \<noteq> ''my--api-v2'') (hosts_at ''default'' v2_state ''a'')) = [''shop'']) \<and>
   (starts_with (configBaselineKey ''default'' ''my--api-v2'') (projectStatePrefix ''default'' ''my--api-v2'')) \<and>
   (map_option snd (runProjectDestroy (undeploy_example False) ''shop'' (plain_destroy\<lparr>xd_yes := True\<rparr>) shop_project)
      = Some (Inr (ProjectDestroyed [(''default'', ''shop'', [''a''])] [] []))) \<and>
   (map_option (\<lambda>x. map ce_owner (px_components x)) (loadProjectIndex (uw_cluster (undeploy_example False)) ''shop'' (us_bucket shop_project)) = Some [''shop'']) \<and>
   (map sc_project (hosts_at ''default'' (shop_state (\<lambda>_. None)) ''a'') = [''shop'', ''my--api-v2''])"
  by code_simp

text \<open>JSON output, no --yes: the base footprint is destroyed.\<close>

lemma json_destroys_unasked:
  "map_option (\<lambda>x. map sc_project (hosts_at ''default'' (fst x) ''a'')) (runDestroyCommand (undeploy_example True) plain_destroy (shop_state (\<lambda>_. None)))
   = Some [''my--api-v2'']"
  "map_option (\<lambda>x. map sc_project (hosts_at ''default'' (fst x) ''a'')) (runDestroyCommand (undeploy_example False) plain_destroy (shop_state (\<lambda>_. None)))
   = Some [''shop'', ''my--api-v2'']"
  using undeploy_runs by - (elim conjE, assumption)+

text \<open>A timeout that cannot be read is refused only after the services are off the nodes.\<close>

lemma timeout_read_late:
  "map_option (\<lambda>x. (map sc_project (hosts_at ''default'' (fst x) ''a''), map_sum id (\<lambda>_. ()) (snd x)))
     (runDestroyCommand (undeploy_example False) (plain_destroy\<lparr>xd_yes := True, xd_timeout := Some ''soon''\<rparr>) (shop_state (\<lambda>_. None)))
   = Some ([''my--api-v2''], Inl UndeployBadTimeout)"
  using undeploy_runs by - (elim conjE, assumption)+

text \<open>A baseline that an interrupted destroy left stays, since nothing is deployed any more.\<close>

lemma stale_baseline_stays:
  "map_option (\<lambda>x. (us_bucket (fst x) (configBaselineKey ''default'' ''shop'') \<noteq> None, snd x))
     (runDestroyCommand (undeploy_example False) (plain_destroy\<lparr>xd_yes := True\<rparr>)
        \<lparr>us_bucket = [configBaselineKey ''default'' ''shop'' \<mapsto> BaselineJson (base_of ''shop'' None)], us_purged = []\<rparr>)
   = Some (True, Inr (FootprintOutcome NothingDeployedThere))"
  using undeploy_runs by - (elim conjE, assumption)+

text \<open>
  The environment v2 of the component api and the base of the component api-v2 are the same footprint, and the baseline
  names the same project: destroying the environment destroys the component.
\<close>

lemma env_owner_ambiguous:
  "footprintOwner ''my'' (Some ''api'') (Some ''v2'') = footprintOwner ''my'' (Some ''api-v2'') None"
  "valid_preview_marker v2_marker"
  "owner_check ''default'' v2_marker (us_bucket v2_state) = None"
  "map_option (\<lambda>x. map sc_project (hosts_at ''default'' (fst x) ''a''))
     (destroyEnvFootprint (undeploy_example False) True 1000 False v2_marker v2_state) = Some [''shop'']"
  using undeploy_runs by - (elim conjE, assumption)+

text \<open>A deploy of the environment during the wait: it runs on, and the sweep takes its marker.\<close>

lemma deploy_during_the_wait_unmarked:
  "map_option (\<lambda>x. (map sc_project (hosts_at ''default'' (fst x) ''a''), us_bucket (fst x) (previewMarkerKey ''default'' ''my--api-v2'')))
     (destroyEnvFootprint ((undeploy_example False)\<lparr>uw_meanwhile := (\<lambda>_ s. s(
          desiredKey ''default'' ''a'' \<mapsto> hosted ''a'' [plain_service ''my--api-v2'' ''web'' 128 128 1],
          previewMarkerKey ''default'' ''my--api-v2'' \<mapsto> PreviewJson v2_marker))\<rparr>) True 1000 False v2_marker v2_state)
   = Some ([''my--api-v2''], None)"
  using undeploy_runs by - (elim conjE, assumption)+


lemma project_destroyed_or_retryable_witness:
  "\<exists>st' comps envs. runProjectDestroy (undeploy_example False) ''shop'' (plain_destroy\<lparr>xd_yes := True\<rparr>) shop_project
       = Some (st', Inr (ProjectDestroyed comps envs [])) \<and> off_nodes (undeploy_example False) [''a''] ''shop'' st'"
proof -
  let ?w = "undeploy_example False"
  have "map_option snd (runProjectDestroy ?w ''shop'' (plain_destroy\<lparr>xd_yes := True\<rparr>) shop_project)
      = Some (Inr (ProjectDestroyed [(''default'', ''shop'', [''a''])] [] []))" using undeploy_runs by - (elim conjE, assumption)
  then obtain st' where run: "runProjectDestroy ?w ''shop'' (plain_destroy\<lparr>xd_yes := True\<rparr>) shop_project
      = Some (st', Inr (ProjectDestroyed [(''default'', ''shop'', [''a''])] [] []))" by auto
  have "map_option (\<lambda>x. map ce_owner (px_components x)) (loadProjectIndex (uw_cluster ?w) ''shop'' (us_bucket shop_project)) = Some [''shop'']" using undeploy_runs by - (elim conjE, assumption)
  then have "''shop'' \<in> project_footprints ?w ''shop'' (us_bucket shop_project)"
    by (cases "loadProjectIndex (uw_cluster ?w) ''shop'' (us_bucket shop_project)") (auto simp: project_footprints_def)
  with project_destroyed_or_retryable [OF run calm_example] run show ?thesis by auto
qed

lemma destroy_needs_a_go_ahead_witness:
  "configured_footprint plain_destroy \<and> (\<exists>st' r. runDestroyCommand (undeploy_example True) plain_destroy (shop_state (\<lambda>_. None)) = Some (st', r)
     \<and> map sc_project (hosts_at ''default'' st' ''a'') = [''my--api-v2''])"
proof -
  obtain st' r where run: "runDestroyCommand (undeploy_example True) plain_destroy (shop_state (\<lambda>_. None)) = Some (st', r)"
    and h: "map sc_project (hosts_at ''default'' st' ''a'') = [''my--api-v2'']"
    using json_destroys_unasked(1) by (auto simp: map_option_case split: option.splits)
  have "map sc_project (hosts_at ''default'' (shop_state (\<lambda>_. None)) ''a'') = [''shop'', ''my--api-v2'']" using undeploy_runs by - (elim conjE, assumption)
  then have "st' \<noteq> shop_state (\<lambda>_. None)" using h by auto
  from destroy_needs_a_go_ahead [OF run this] run h show ?thesis by (simp add: plain_destroy_def undeploy_example_def)
qed

end
