(* ===== verification/Footprint_View.thy ===== *)
theory Footprint_View
  imports Project_Registry
begin

text \<open>
  What a cluster runs, per footprint (\<open>packages/cli/src/project/footprint-view.ts\<close>): the services of an owner over all
  nodes, the environments, the list of every footprint, and the components of a project.
\<close>

section \<open>Services of a footprint\<close>

record footprint_service =
  fs_service :: string
  fs_replicas :: int
  fs_image :: string
  fs_domain :: "string option"
  fs_cron :: "string option"
  fs_nodeIds :: "string list"

definition first_seen :: "string \<Rightarrow> service_config \<Rightarrow> footprint_service" where
  "first_seen n s = \<lparr>fs_service = sc_service s, fs_replicas = sc_replicas s, fs_image = sc_image s,
     fs_domain = map_option ig_domain (sc_ingress s), fs_cron = sc_cron s, fs_nodeIds = [n]\<rparr>"

definition seen_again :: "string \<Rightarrow> service_config \<Rightarrow> footprint_service \<Rightarrow> footprint_service" where
  "seen_again n s x = x\<lparr>fs_replicas := fs_replicas x + sc_replicas s,
     fs_nodeIds := (if n \<in> set (fs_nodeIds x) then fs_nodeIds x else fs_nodeIds x @ [n])\<rparr>"

definition note_service :: "string \<times> service_config \<Rightarrow> (string, footprint_service) assoc \<Rightarrow> (string, footprint_service) assoc" where
  "note_service = (\<lambda>(n, s) m. assoc_set (sc_service s)
     (case map_of m (sc_service s) of None \<Rightarrow> first_seen n s | Some x \<Rightarrow> seen_again n s x) m)"

text \<open>The services of the owner, node by node.\<close>

definition of_owner :: "node_services list \<Rightarrow> string \<Rightarrow> (string \<times> service_config) list" where
  "of_owner states owner = concat (map (\<lambda>(n, ss). map (Pair n) (filter (\<lambda>s. sc_project s = owner) ss)) states)"

definition summarizeFootprintServices :: "node_services list \<Rightarrow> string \<Rightarrow> footprint_service list" where
  "summarizeFootprintServices states owner =
     sort_by (\<lambda>a b. locale_le (fs_service a) (fs_service b))
       (map (\<lambda>(_, x). x\<lparr>fs_nodeIds := sort (fs_nodeIds x)\<rparr>) (fold note_service (of_owner states owner) []))"

section \<open>Environments and footprints\<close>

record footprint_env =
  fe_marker :: preview_marker
  fe_expired :: bool
  fe_services :: "footprint_service list"

definition buildEnvFootprintSummaries ::
  "(string \<Rightarrow> int option) \<Rightarrow> preview_marker list \<Rightarrow> node_services list \<Rightarrow> int \<Rightarrow> footprint_env list" where
  "buildEnvFootprintSummaries date_parse markers states nowMs =
     map (\<lambda>m. \<lparr>fe_marker = m, fe_expired = isPreviewExpired date_parse m nowMs,
               fe_services = summarizeFootprintServices states (pm_owner m)\<rparr>)
       (sort_by (\<lambda>a b. locale_le (pm_project a @ ''/'' @ pm_env a) (pm_project b @ ''/'' @ pm_env b)) markers)"

record footprint_entry =
  fl_owner :: string
  fl_baseProject :: string
  fl_component :: "string option"
  fl_env :: "string option"
  fl_marker :: "preview_marker option"
  fl_expired :: bool
  fl_services :: "footprint_service list"
  fl_nodeIds :: "string list"

text \<open>A later marker or entry of the same owner replaces an earlier one.\<close>

definition marker_by_owner :: "preview_marker list \<Rightarrow> string \<Rightarrow> preview_marker option" where
  "marker_by_owner ms owner = map_of (rev (map (\<lambda>m. (pm_owner m, m)) ms)) owner"

definition component_by_owner :: "project_index list \<Rightarrow> string \<Rightarrow> (string \<times> string) option" where
  "component_by_owner indexes owner =
     map_of (rev (concat (map (\<lambda>x. map (\<lambda>c. (ce_owner c, px_project x, ce_component c)) (px_components x)) indexes))) owner"

definition footprint_entry_of ::
  "(string \<Rightarrow> int option) \<Rightarrow> preview_marker list \<Rightarrow> node_services list \<Rightarrow> int \<Rightarrow> project_index list \<Rightarrow> string \<Rightarrow> footprint_entry" where
  "footprint_entry_of date_parse markers states nowMs indexes owner =
     (let marker = marker_by_owner markers owner; indexed = component_by_owner indexes owner;
          services = summarizeFootprintServices states owner
      in \<lparr>fl_owner = owner,
          fl_baseProject = (case marker of Some m \<Rightarrow> pm_project m | None \<Rightarrow> (case indexed of Some (p, _) \<Rightarrow> p | None \<Rightarrow> owner)),
          fl_component = (case Option.bind marker pm_component of Some c \<Rightarrow> Some c | None \<Rightarrow> map_option snd indexed),
          fl_env = map_option pm_env marker, fl_marker = marker,
          fl_expired = (case marker of None \<Rightarrow> False | Some m \<Rightarrow> isPreviewExpired date_parse m nowMs),
          fl_services = services, fl_nodeIds = sort (js_dedup (concat (map fs_nodeIds services)))\<rparr>)"

text \<open>By project, then component, then the base before its environments.\<close>

definition footprint_before :: "footprint_entry \<Rightarrow> footprint_entry \<Rightarrow> bool" where
  "footprint_before a b =
     (let text = (\<lambda>x. case x of None \<Rightarrow> [] | Some t \<Rightarrow> t);
          same = (\<lambda>x y. locale_le x y \<and> locale_le y x);
          p = fl_baseProject; c = text \<circ> fl_component
      in if \<not> same (p a) (p b) then locale_le (p a) (p b)
         else if \<not> same (c a) (c b) then locale_le (c a) (c b)
         else if fl_env a = None \<and> fl_env b \<noteq> None then True
         else if fl_env a \<noteq> None \<and> fl_env b = None then False
         else locale_le (text (fl_env a)) (text (fl_env b)))"

definition buildFootprintList ::
  "(string \<Rightarrow> int option) \<Rightarrow> preview_marker list \<Rightarrow> node_services list \<Rightarrow> int \<Rightarrow> project_index list \<Rightarrow> footprint_entry list" where
  "buildFootprintList date_parse markers states nowMs indexes =
     sort_by footprint_before (map (footprint_entry_of date_parse markers states nowMs indexes)
       (js_dedup (concat (map (\<lambda>(_, ss). map sc_project ss) states) @ map pm_owner markers)))"

definition resolveFootprintOwner :: "string \<Rightarrow> string option \<Rightarrow> string" where
  "resolveFootprintOwner baseProject env = envProject baseProject env"

record component_view =
  cv_component :: string
  cv_owner :: string
  cv_services :: "footprint_service list"
  cv_nodeIds :: "string list"

definition buildProjectComponentViews :: "project_index \<Rightarrow> node_services list \<Rightarrow> string option \<Rightarrow> component_view list" where
  "buildProjectComponentViews index states env =
     map (\<lambda>e. let owner = envProject (ce_owner e) env; services = summarizeFootprintServices states owner
              in \<lparr>cv_component = ce_component e, cv_owner = owner, cv_services = services,
                  cv_nodeIds = sort (js_dedup (concat (map fs_nodeIds services)))\<rparr>) (px_components index)"

definition componentDisplayName :: "string \<Rightarrow> string option" where
  "componentDisplayName component = (if component = DEFAULT_COMPONENT then None else Some component)"

section \<open>The summary is exact\<close>

definition named :: "string \<Rightarrow> (string \<times> service_config) list \<Rightarrow> (string \<times> service_config) list" where
  "named service xs = filter (\<lambda>(_, s). sc_service s = service) xs"

text \<open>What the map holds for a service after a list of sightings.\<close>

definition summed :: "string \<Rightarrow> (string \<times> service_config) list \<Rightarrow> footprint_service \<Rightarrow> bool" where
  "summed service xs x \<longleftrightarrow> named service xs \<noteq> [] \<and> fs_service x = service
     \<and> fs_replicas x = sum_by (sc_replicas \<circ> snd) (named service xs)
     \<and> fs_image x = sc_image (snd (hd (named service xs)))
     \<and> fs_domain x = map_option ig_domain (sc_ingress (snd (hd (named service xs))))
     \<and> fs_cron x = sc_cron (snd (hd (named service xs)))
     \<and> distinct (fs_nodeIds x) \<and> set (fs_nodeIds x) = fst ` set (named service xs)"

lemma sum_by_snoc: "sum_by f (xs @ [x]) = sum_by f xs + f x"
  by (simp add: sum_by_def)

lemma sort_distinct: "distinct xs \<Longrightarrow> sort xs = sorted_list_of_set (set xs)"
  by (simp add: sorted_list_of_set_sort_remdups distinct_remdups_id)

lemma note_app: "note_service (n, s) m = assoc_set (sc_service s)
     (case map_of m (sc_service s) of None \<Rightarrow> first_seen n s | Some x \<Rightarrow> seen_again n s x) m"
  by (simp add: note_service_def)

lemma noted:
  "(case map_of (fold note_service xs []) service of None \<Rightarrow> named service xs = [] | Some x \<Rightarrow> summed service xs x)
   \<and> distinct (map fst (fold note_service xs []))"
proof (induction xs arbitrary: service rule: rev_induct)
  case Nil
  then show ?case by (simp add: named_def)
next
  case (snoc p xs)
  obtain n s where p: "p = (n, s)" by (cases p)
  let ?m = "fold note_service xs []"
  have d: "distinct (map fst (fold note_service (xs @ [p]) []))"
    using snoc by (simp add: p note_app distinct_assoc_set)
  show ?case
  proof (cases "sc_service s = service")
    case False
    then have "named service (xs @ [(n, s)]) = named service xs" by (simp add: named_def)
    moreover from this have "summed service (xs @ [(n, s)]) = summed service xs" by (simp add: summed_def fun_eq_iff)
    ultimately show ?thesis using snoc [of service] False d unfolding p
      by (cases "map_of (fold note_service xs []) service") (simp_all add: note_app map_of_assoc_set)
  next
    case True
    have nm: "named service (xs @ [p]) = named service xs @ [(n, s)]" using True by (simp add: named_def p)
    show ?thesis
    proof (cases "map_of ?m service")
      case None
      then have "named service xs = []" using snoc [of service] by simp
      then have "summed service (xs @ [p]) (first_seen n s)"
        using True by (simp add: summed_def nm first_seen_def sum_by_def)
      with None True d show ?thesis by (simp add: p note_app map_of_assoc_set)
    next
      case (Some x)
      have "summed service xs x" using snoc [of service, THEN conjunct1] unfolding Some by simp
      then have "summed service (xs @ [p]) (seen_again n s x)"
        by (auto simp: summed_def nm seen_again_def sum_by_snoc hd_append)
      with Some True d show ?thesis by (simp add: p note_app map_of_assoc_set)
    qed
  qed
qed

text \<open>The services that \<open>owner\<close> runs on the nodes read, by name.\<close>

definition sightings :: "node_services list \<Rightarrow> string \<Rightarrow> string \<Rightarrow> (string \<times> service_config) list" where
  "sightings states owner service = named service (of_owner states owner)"

lemma summary_exact:
  "distinct (map fs_service (summarizeFootprintServices states owner))
   \<and> fs_service ` set (summarizeFootprintServices states owner) = sc_service ` snd ` set (of_owner states owner)
   \<and> (\<forall>x \<in> set (summarizeFootprintServices states owner).
        fs_replicas x = sum_by (sc_replicas \<circ> snd) (sightings states owner (fs_service x))
        \<and> fs_nodeIds x = sorted_list_of_set (fst ` set (sightings states owner (fs_service x)))
        \<and> fs_image x = sc_image (snd (hd (sightings states owner (fs_service x)))))"
proof -
  let ?xs = "of_owner states owner" and ?S = "summarizeFootprintServices states owner"
  let ?m = "fold note_service ?xs []" and ?f = "\<lambda>(_, x). x\<lparr>fs_nodeIds := sort (fs_nodeIds x)\<rparr>"
  have d: "distinct (map fst ?m)" using noted [of _ ?xs] by blast
  have key: "summed k ?xs x" if "(k, x) \<in> set ?m" for k x
    using noted [of k ?xs] that d by (auto dest: map_of_is_SomeI)
  have names: "map fs_service (map ?f ?m) = map fst ?m" using key by (auto simp: summed_def)
  have S: "set ?S = ?f ` set ?m" by (simp add: summarizeFootprintServices_def)
  have "distinct (map fs_service ?S)"
    unfolding summarizeFootprintServices_def distinct_map_sort_by names by (rule d)
  moreover have "fs_service ` set ?S = sc_service ` snd ` set ?xs"
  proof -
    have "fs_service ` set ?S = fst ` set ?m" unfolding S using names by (metis set_map)
    also have "\<dots> = sc_service ` snd ` set ?xs"
    proof (rule set_eqI)
      fix k
      have "k \<in> fst ` set ?m \<longleftrightarrow> map_of ?m k \<noteq> None" by (metis map_of_eq_None_iff)
      also have "\<dots> \<longleftrightarrow> named k ?xs \<noteq> []" using noted [of k ?xs] by (auto simp: summed_def split: option.splits)
      also have "\<dots> \<longleftrightarrow> k \<in> sc_service ` snd ` set ?xs" by (force simp: named_def filter_empty_conv)
      finally show "k \<in> fst ` set ?m \<longleftrightarrow> k \<in> sc_service ` snd ` set ?xs" .
    qed
    finally show ?thesis .
  qed
  moreover have "fs_replicas x = sum_by (sc_replicas \<circ> snd) (sightings states owner (fs_service x))
        \<and> fs_nodeIds x = sorted_list_of_set (fst ` set (sightings states owner (fs_service x)))
        \<and> fs_image x = sc_image (snd (hd (sightings states owner (fs_service x))))" if x: "x \<in> set ?S" for x
  proof -
    obtain k y where y: "(k, y) \<in> set ?m" "x = y\<lparr>fs_nodeIds := sort (fs_nodeIds y)\<rparr>" using x unfolding S by auto
    note K = key [OF y(1), unfolded summed_def]
    have "sort (fs_nodeIds y) = sorted_list_of_set (set (fs_nodeIds y))" by (rule sort_distinct) (use K in blast)
    with K show ?thesis by (simp add: y(2) sightings_def)
  qed
  ultimately show ?thesis by blast
qed

text \<open>
  C25. The summary of a footprint lists each of its services once: its replicas are the sum over all nodes, its nodes
  are exactly those that run it, sorted, and its image is that of the first node read.
\<close>

theorem footprint_summary_exact:
  "distinct (map fs_service (summarizeFootprintServices states owner))
   \<and> fs_service ` set (summarizeFootprintServices states owner) = sc_service ` snd ` set (of_owner states owner)
   \<and> (\<forall>x \<in> set (summarizeFootprintServices states owner).
        fs_replicas x = sum_by (sc_replicas \<circ> snd) (sightings states owner (fs_service x))
        \<and> fs_nodeIds x = sorted_list_of_set (fst ` set (sightings states owner (fs_service x)))
        \<and> fs_image x = sc_image (snd (hd (sightings states owner (fs_service x)))))"
  by (rule summary_exact)

text \<open>The list of footprints names every owner of a published service and of a marker, once.\<close>

lemma footprint_list_complete:
  "distinct (map fl_owner (buildFootprintList date_parse markers states nowMs indexes))"
  "fl_owner ` set (buildFootprintList date_parse markers states nowMs indexes)
     = (\<Union>(n, ss) \<in> set states. sc_project ` set ss) \<union> pm_owner ` set markers"
proof -
  have owner: "fl_owner (footprint_entry_of date_parse markers states nowMs indexes o') = o'" for o'
    by (simp add: footprint_entry_of_def Let_def)
  have "map fl_owner (map (footprint_entry_of date_parse markers states nowMs indexes) os) = os" for os
    by (induction os) (simp_all add: owner)
  then show "distinct (map fl_owner (buildFootprintList date_parse markers states nowMs indexes))"
    unfolding buildFootprintList_def distinct_map_sort_by by simp
  show "fl_owner ` set (buildFootprintList date_parse markers states nowMs indexes)
     = (\<Union>(n, ss) \<in> set states. sc_project ` set ss) \<union> pm_owner ` set markers"
    unfolding buildFootprintList_def by (force simp: image_image owner)
qed

section \<open>An example\<close>

definition two_hosts :: "node_services list" where
  "two_hosts = [(''b'', [plain_service ''shop'' ''api'' 512 256 2]), (''a'', [plain_service ''shop'' ''api'' 512 256 1, plain_service ''blog'' ''web'' 512 256 1])]"

lemma footprint_summary_exact_witness:
  "\<exists>x \<in> set (summarizeFootprintServices two_hosts ''shop''). fs_service x = ''api'' \<and> fs_replicas x = 3"
proof -
  note E = footprint_summary_exact [of two_hosts "''shop''"]
  note names = conjunct1 [OF conjunct2 [OF E]] and counts = conjunct2 [OF conjunct2 [OF E]]
  have "sc_service ` snd ` set (of_owner two_hosts ''shop'') = {''api''}" by (simp add: of_owner_def two_hosts_def plain_service_def)
  then have "''api'' \<in> fs_service ` set (summarizeFootprintServices two_hosts ''shop'')" unfolding names by simp
  then obtain x where x: "x \<in> set (summarizeFootprintServices two_hosts ''shop'')" "fs_service x = ''api''" by (rule imageE) simp
  have "fs_replicas x = sum_by (sc_replicas \<circ> snd) (sightings two_hosts ''shop'' ''api'')" using conjunct1 [OF bspec [OF counts x(1)]] unfolding x(2) .
  also have "\<dots> = 3" by code_simp
  finally show ?thesis using x by (intro bexI conjI)
qed

end
