(* ===== verification/Iam_Policy.thy ===== *)
theory Iam_Policy
  imports S3_Keys Service_Config Registry Build_Context
begin

text \<open>
  The access policies of nodes (\<open>packages/cli/src/aws/iam.ts\<close>) and what they permit. A policy is the list of
  its statements. How the service matches a pattern is not code of this repository: it is the argument \<open>glob\<close>,
  of which \<open>iam_glob\<close> states what the service documents (a star is any text, slashes included, a question mark
  any one character, any other character itself).
\<close>

section \<open>Policies and requests\<close>

datatype iam_condition =
    StringLike string "string list"
  | StringEquals string string
  | ArnEquals string string

record iam_statement =
  is_sid :: string
  is_actions :: "string list"
  is_resources :: "string list"
  is_conditions :: "iam_condition list"

record iam_request =
  ir_action :: string
  ir_resource :: string
  ir_context :: "string \<Rightarrow> string option"

type_synonym glob = "string \<Rightarrow> string \<Rightarrow> bool"

definition iam_glob :: "glob \<Rightarrow> bool" where
  "iam_glob g \<longleftrightarrow>
     (\<forall>s. g [] s \<longleftrightarrow> s = [])
     \<and> (\<forall>p s. g (CHR ''*'' # p) s \<longleftrightarrow> (\<exists>m r. s = m @ r \<and> g p r))
     \<and> (\<forall>p s. g (CHR ''?'' # p) s \<longleftrightarrow> (\<exists>c r. s = c # r \<and> g p r))
     \<and> (\<forall>c p s. c \<noteq> CHR ''*'' \<longrightarrow> c \<noteq> CHR ''?'' \<longrightarrow> (g (c # p) s \<longleftrightarrow> (\<exists>r. s = c # r \<and> g p r)))"

fun condition_holds :: "glob \<Rightarrow> (string \<Rightarrow> string option) \<Rightarrow> iam_condition \<Rightarrow> bool" where
  "condition_holds g ctx (StringLike k ps) = (case ctx k of None \<Rightarrow> False | Some v \<Rightarrow> list_ex (\<lambda>p. g p v) ps)"
| "condition_holds g ctx (StringEquals k v) = (ctx k = Some v)"
| "condition_holds g ctx (ArnEquals k p) = (case ctx k of None \<Rightarrow> False | Some v \<Rightarrow> g p v)"

definition statement_permits :: "glob \<Rightarrow> iam_statement \<Rightarrow> iam_request \<Rightarrow> bool" where
  "statement_permits g st r \<longleftrightarrow> list_ex (\<lambda>a. g a (ir_action r)) (is_actions st)
     \<and> list_ex (\<lambda>p. g p (ir_resource r)) (is_resources st) \<and> list_all (condition_holds g (ir_context r)) (is_conditions st)"

definition permits :: "glob \<Rightarrow> iam_statement list \<Rightarrow> iam_request \<Rightarrow> bool" where
  "permits g policy r \<longleftrightarrow> list_ex (\<lambda>st. statement_permits g st r) policy"

definition allow :: "string \<Rightarrow> string list \<Rightarrow> string list \<Rightarrow> iam_statement" where
  "allow sid actions resources = \<lparr>is_sid = sid, is_actions = actions, is_resources = resources, is_conditions = []\<rparr>"

definition allow_if :: "string \<Rightarrow> string list \<Rightarrow> string list \<Rightarrow> iam_condition \<Rightarrow> iam_statement" where
  "allow_if sid actions resources c = \<lparr>is_sid = sid, is_actions = actions, is_resources = resources, is_conditions = [c]\<rparr>"

lemma permits_simps [simp]:
  "permits g [] r \<longleftrightarrow> False"
  "permits g (st # p) r \<longleftrightarrow> statement_permits g st r \<or> permits g p r"
  "permits g (p @ q) r \<longleftrightarrow> permits g p r \<or> permits g q r"
  by (simp_all add: permits_def)

lemma statement_simps [simp]:
  "statement_permits g (allow sid as rs) r \<longleftrightarrow> list_ex (\<lambda>a. g a (ir_action r)) as \<and> list_ex (\<lambda>p. g p (ir_resource r)) rs"
  "statement_permits g (allow_if sid as rs c) r \<longleftrightarrow> list_ex (\<lambda>a. g a (ir_action r)) as \<and> list_ex (\<lambda>p. g p (ir_resource r)) rs
     \<and> condition_holds g (ir_context r) c"
  by (simp_all add: statement_permits_def allow_def allow_if_def)

section \<open>Matching\<close>

definition plain :: "string \<Rightarrow> bool" where
  "plain s \<longleftrightarrow> list_all (\<lambda>c. c \<noteq> CHR ''*'' \<and> c \<noteq> CHR ''?'') s"

lemma plain_simps [simp]: "plain []" "plain (c # s) \<longleftrightarrow> c \<noteq> CHR ''*'' \<and> c \<noteq> CHR ''?'' \<and> plain s" "plain (a @ b) \<longleftrightarrow> plain a \<and> plain b"
  by (auto simp: plain_def)

lemma glob_plain_append:
  assumes "iam_glob g" "plain p"
  shows "g (p @ q) s \<longleftrightarrow> (\<exists>r. s = p @ r \<and> g q r)"
  using assms(2)
proof (induction p arbitrary: s)
  case (Cons c p)
  then have "g ((c # p) @ q) s \<longleftrightarrow> (\<exists>r. s = c # r \<and> g (p @ q) r)" using assms(1) by (simp add: iam_glob_def)
  with Cons show ?case by auto
qed simp

lemma glob_plain: "iam_glob g \<Longrightarrow> plain p \<Longrightarrow> g p s \<longleftrightarrow> s = p"
  using glob_plain_append [of g p "[]" s] by (auto simp: iam_glob_def)

lemma glob_star: "iam_glob g \<Longrightarrow> g ''*'' s"
proof -
  assume "iam_glob g"
  then have "g ''*'' s \<longleftrightarrow> (\<exists>m r. s = m @ r \<and> r = [])" unfolding iam_glob_def by (metis list.simps(3))
  then show ?thesis by simp
qed

lemma glob_prefix: "iam_glob g \<Longrightarrow> plain p \<Longrightarrow> g (p @ ''*'') s \<longleftrightarrow> starts_with s p"
  using glob_plain_append [of g p "''*''" s] glob_star by (auto simp: starts_with_iff)

lemma glob_middle:
  assumes "iam_glob g" "plain p" "plain q"
  shows "g (p @ CHR ''*'' # q) s \<longleftrightarrow> (\<exists>m. s = p @ m @ q)"
proof -
  have "g (CHR ''*'' # q) r \<longleftrightarrow> (\<exists>m t. r = m @ t \<and> g q t)" for r using assms(1) by (simp add: iam_glob_def)
  then show ?thesis using glob_plain_append [OF assms(1,2), of "CHR ''*'' # q" s] glob_plain [OF assms(1,3)] by auto
qed

section \<open>Names\<close>

definition iam_char :: "char \<Rightarrow> bool" where
  "iam_char c \<longleftrightarrow> is_alnum c \<or> c \<in> set ''+=,.@_-''"

definition iamSlug :: "string \<Rightarrow> string \<Rightarrow> string" where
  "iamSlug clusterId nodeId = map (\<lambda>c. if iam_char c then c else CHR ''-'') (clusterId @ ''-'' @ nodeId)"

definition nodeRoleName :: "string \<Rightarrow> string \<Rightarrow> string" where
  "nodeRoleName clusterId nodeId = take 64 (''launch-pad-node-'' @ iamSlug clusterId nodeId)"

definition nodeProfileName :: "string \<Rightarrow> string \<Rightarrow> string" where
  "nodeProfileName clusterId nodeId = take 64 (''launch-pad-node-profile-'' @ iamSlug clusterId nodeId)"

definition nodeUserName :: "string \<Rightarrow> string \<Rightarrow> string" where
  "nodeUserName clusterId nodeId = take 64 (''launch-pad-node-'' @ iamSlug clusterId nodeId)"

section \<open>The policy of a node\<close>

definition cloudWatchLogsStatements :: "string \<Rightarrow> string \<Rightarrow> string \<Rightarrow> iam_statement list" where
  "cloudWatchLogsStatements region accountId clusterId =
     [allow ''CloudWatchLogs''
        [''logs:CreateLogGroup'', ''logs:CreateLogStream'', ''logs:PutLogEvents'', ''logs:DescribeLogStreams'', ''logs:PutRetentionPolicy'']
        [''arn:aws:logs:'' @ region @ '':'' @ accountId @ '':log-group:/launch-pad/'' @ clusterId @ ''/*''],
      allow ''CloudWatchLogsDescribe'' [''logs:DescribeLogGroups''] [''arn:aws:logs:'' @ region @ '':'' @ accountId @ '':log-group:*'']]"

definition ecrStatements :: "string \<Rightarrow> string \<Rightarrow> iam_statement list" where
  "ecrStatements region accountId =
     [allow ''EcrAuth'' [''ecr:GetAuthorizationToken''] [''*''],
      allow ''EcrPull'' [''ecr:BatchGetImage'', ''ecr:GetDownloadUrlForLayer'', ''ecr:BatchCheckLayerAvailability'']
        [''arn:aws:ecr:'' @ region @ '':'' @ accountId @ '':repository/*'']]"

definition backupStatements :: "string \<Rightarrow> string \<Rightarrow> string \<Rightarrow> iam_statement list" where
  "backupStatements clusterId region accountId =
     (let backupsBucket = backupsBucketName accountId region
      in [allow ''BackupWrite'' [''s3:PutObject'', ''s3:DeleteObject''] [''arn:aws:s3:::'' @ backupsBucket @ ''/'' @ clusterId @ ''/*''],
          allow_if ''BackupList'' [''s3:ListBucket''] [''arn:aws:s3:::'' @ backupsBucket]
            (StringLike ''s3:prefix'' [clusterId @ ''/*''])])"

definition sqsNotificationStatements :: "string \<Rightarrow> string \<Rightarrow> string \<Rightarrow> string \<Rightarrow> iam_statement list" where
  "sqsNotificationStatements region accountId clusterId nodeId =
     [allow ''ReceiveDeployNotifications'' [''sqs:ReceiveMessage'', ''sqs:DeleteMessage'', ''sqs:GetQueueUrl'']
        [''arn:aws:sqs:'' @ region @ '':'' @ accountId @ '':launch-pad-'' @ clusterId @ ''-'' @ nodeId]]"

definition ssmReadStatements :: "string \<Rightarrow> string \<Rightarrow> string \<Rightarrow> iam_statement list" where
  "ssmReadStatements region accountId clusterId =
     [allow ''ReadSecrets'' [''ssm:GetParameter'', ''ssm:GetParameters'']
        [''arn:aws:ssm:'' @ region @ '':'' @ accountId @ '':parameter/launch-pad/'' @ clusterId @ ''/*'']]"

definition buildAppPolicy :: "string \<Rightarrow> string \<Rightarrow> string \<Rightarrow> string \<Rightarrow> string \<Rightarrow> iam_statement list" where
  "buildAppPolicy bucket clusterId nodeId region accountId =
     (let bucketArn = ''arn:aws:s3:::'' @ bucket
      in [allow ''ReadDesired'' [''s3:GetObject''] [bucketArn @ ''/'' @ desiredKey clusterId nodeId],
          allow ''WriteStatus'' [''s3:PutObject''] [bucketArn @ ''/'' @ statusKey clusterId nodeId],
          allow ''PublishUpstream'' [''s3:PutObject'']
            [bucketArn @ ''/'' @ clusterNodesPrefix clusterId @ ''*/upstream/'' @ nodeId @ ''.json''],
          allow_if ''ListOwnPrefix'' [''s3:ListBucket''] [bucketArn]
            (StringLike ''s3:prefix'' [nodePrefix clusterId nodeId @ ''*''])]
         @ sqsNotificationStatements region accountId clusterId nodeId
         @ cloudWatchLogsStatements region accountId clusterId
         @ ecrStatements region accountId
         @ ssmReadStatements region accountId clusterId
         @ backupStatements clusterId region accountId)"

definition buildEdgePolicy :: "string \<Rightarrow> string \<Rightarrow> string \<Rightarrow> string \<Rightarrow> string \<Rightarrow> iam_statement list" where
  "buildEdgePolicy bucket clusterId edgeId region accountId =
     (let upstreamPrefix = nodePrefix clusterId edgeId @ ''upstream/''; bucketArn = ''arn:aws:s3:::'' @ bucket
      in [allow ''ReadUpstream'' [''s3:GetObject''] [bucketArn @ ''/'' @ upstreamPrefix @ ''*''],
          allow ''WriteStatus'' [''s3:PutObject''] [bucketArn @ ''/'' @ statusKey clusterId edgeId],
          allow_if ''ListUpstream'' [''s3:ListBucket''] [bucketArn] (StringLike ''s3:prefix'' [upstreamPrefix @ ''*''])]
         @ sqsNotificationStatements region accountId clusterId edgeId
         @ cloudWatchLogsStatements region accountId clusterId)"

record node_iam_params =
  ni_clusterId :: string
  ni_nodeId :: string
  ni_role :: node_role
  ni_bucket :: string
  ni_region :: string
  ni_accountId :: string

definition buildNodePolicy :: "node_iam_params \<Rightarrow> iam_statement list" where
  "buildNodePolicy p =
     (if ni_role p = RoleApp then buildAppPolicy (ni_bucket p) (ni_clusterId p) (ni_nodeId p) (ni_region p) (ni_accountId p)
      else buildEdgePolicy (ni_bucket p) (ni_clusterId p) (ni_nodeId p) (ni_region p) (ni_accountId p))"

section \<open>Requests of the agents\<close>

definition s3_object :: "string \<Rightarrow> string \<Rightarrow> string \<Rightarrow> iam_request" where
  "s3_object action bucket key = \<lparr>ir_action = action, ir_resource = ''arn:aws:s3:::'' @ bucket @ ''/'' @ key, ir_context = (\<lambda>_. None)\<rparr>"

definition secret_read :: "string \<Rightarrow> string \<Rightarrow> string \<Rightarrow> string \<Rightarrow> iam_request" where
  "secret_read action region accountId path =
     \<lparr>ir_action = action, ir_resource = ''arn:aws:ssm:'' @ region @ '':'' @ accountId @ '':parameter'' @ path, ir_context = (\<lambda>_. None)\<rparr>"

text \<open>Account numbers, regions and ids hold none of the characters a pattern or a resource name gives a meaning.\<close>

definition plain_id :: "string \<Rightarrow> bool" where
  "plain_id s \<longleftrightarrow> plain s \<and> CHR ''/'' \<notin> set s \<and> CHR '':'' \<notin> set s"

lemma plain_buckets [simp]:
  "plain_id a \<Longrightarrow> plain_id r \<Longrightarrow> plain_id (stateBucketName a r)" "plain_id a \<Longrightarrow> plain_id r \<Longrightarrow> plain_id (backupsBucketName a r)"
  by (simp_all add: plain_id_def stateBucketName_def backupsBucketName_def)

lemma label_plain: "LABEL_REGEX s \<Longrightarrow> plain_id s"
proof -
  assume l: "LABEL_REGEX s"
  have "\<not> is_lower_alnum CHR ''*''" "\<not> is_lower_alnum CHR ''?''" "\<not> is_lower_alnum CHR ''/''" "\<not> is_lower_alnum CHR '':''"
    by code_simp+
  moreover have "CHR ''*'' \<noteq> CHR ''-''" "CHR ''?'' \<noteq> CHR ''-''" "CHR ''/'' \<noteq> CHR ''-''" "CHR '':'' \<noteq> CHR ''-''" by simp_all
  ultimately have "CHR ''*'' \<notin> set s \<and> CHR ''?'' \<notin> set s \<and> CHR ''/'' \<notin> set s \<and> CHR '':'' \<notin> set s"
    using label_chars [OF l] by blast
  then show ?thesis by (auto simp: plain_id_def plain_def list_all_iff)
qed

lemma plain_idD: "plain_id s \<Longrightarrow> plain s \<and> CHR ''/'' \<notin> set s \<and> CHR '':'' \<notin> set s"
  by (simp add: plain_id_def)

lemma buckets_apart: "stateBucketName a r \<noteq> backupsBucketName a r"
  by (simp add: stateBucketName_def backupsBucketName_def)

lemma plain_keys:
  assumes "plain c" "plain n"
  shows "plain (clusterNodesPrefix c)" "plain (nodePrefix c n)" "plain (desiredKey c n)" "plain (statusKey c n)"
  using assms by (simp_all add: NODES_PREFIX_def CLUSTERS_PREFIX_def clusterNodesPrefix_def nodePrefix_def desiredKey_def statusKey_def)

lemma object_of:
  "CHR ''/'' \<notin> set b \<Longrightarrow> CHR ''/'' \<notin> set b' \<Longrightarrow> b @ CHR ''/'' # k = b' @ CHR ''/'' # k' \<longleftrightarrow> b = b' \<and> k = k'"
  using slash_split_unique [of b b' k k'] by auto

text \<open>The documents whose key a wildcard shard pattern covers.\<close>

lemma split_snoc: "CHR ''/'' \<notin> set q \<Longrightarrow> split_char CHR ''/'' (p @ CHR ''/'' # q) = split_char CHR ''/'' p @ [q]"
  by (induction p) (auto simp: split_char_single split: list.split)

lemma shard_pattern:
  assumes "wf_key k" "CHR ''/'' \<notin> set c" "CHR ''/'' \<notin> set n"
  shows "(\<exists>m. key_of k = clusterNodesPrefix c @ m @ ''/upstream/'' @ n @ ''.json'') \<longleftrightarrow> (\<exists>e. k = UpstreamDoc c e n)"
proof
  assume "\<exists>m. key_of k = clusterNodesPrefix c @ m @ ''/upstream/'' @ n @ ''.json''"
  then obtain m where m: "key_of k = clusterNodesPrefix c @ m @ ''/upstream/'' @ n @ ''.json''" by blast
  obtain x xs where ne: "split_char CHR ''/'' m = x # xs" by (metis neq_Nil_conv split_char_ne)
  have "split_char CHR ''/'' (key_of k) = scope c [''nodes''] @ split_char CHR ''/'' m @ [''upstream'', n @ ''.json'']"
    using assms(2,3) split_snoc [of "n @ ''.json''" "clusterNodesPrefix c @ m @ ''/upstream''"]
      split_snoc [of "''upstream''" "clusterNodesPrefix c @ m"] split_char_append [of "CHR ''/''" "''nodes''"]
      split_char_append [of "CHR ''/''" c] split_char_append [of "CHR ''/''" "''clusters''"]
    by (simp add: m clusterNodesPrefix_def NODES_PREFIX_def CLUSTERS_PREFIX_def scope_def)
  then have p: "path_of k = scope c (''nodes'' # x # xs @ [''upstream'', n @ ''.json''])"
    unfolding path_of_key [OF assms(1)] by (simp add: ne scope_def)
  show "\<exists>e. k = UpstreamDoc c e n"
    using p assms(1) by (cases k; cases xs) (auto simp: scope_simps scope_def split: if_splits)
next
  assume "\<exists>e. k = UpstreamDoc c e n"
  then obtain e where "k = UpstreamDoc c e n" by blast
  then have "key_of k = clusterNodesPrefix c @ e @ ''/upstream/'' @ n @ ''.json''"
    by (simp add: edgeUpstreamKey_def edgeUpstreamPrefix_def nodePrefix_def)
  then show "\<exists>m. key_of k = clusterNodesPrefix c @ m @ ''/upstream/'' @ n @ ''.json''" by blast
qed

lemma key_eq: "wf_key k \<Longrightarrow> wf_key l \<Longrightarrow> key_of k = key_of l \<longleftrightarrow> k = l"
  by (metis path_inj path_of_key)

lemma upstream_prefix:
  assumes "wf_key k" "CHR ''/'' \<notin> set c" "CHR ''/'' \<notin> set n"
  shows "starts_with (key_of k) (edgeUpstreamPrefix c n) \<longleftrightarrow> (\<exists>m. k = UpstreamDoc c n m)"
proof
  assume "starts_with (key_of k) (edgeUpstreamPrefix c n)"
  then obtain r where r: "key_of k = edgeUpstreamPrefix c n @ r" by (auto simp: starts_with_iff)
  have "split_char CHR ''/'' (key_of k) = scope c [''nodes'', n, ''upstream''] @ split_char CHR ''/'' r"
    using assms(2,3) split_char_append [of "CHR ''/''" "''nodes''"] split_char_append [of "CHR ''/''" n]
      split_char_append [of "CHR ''/''" "''upstream''"] split_char_append [of "CHR ''/''" c] split_char_append [of "CHR ''/''" "''clusters''"]
    by (simp add: r edgeUpstreamPrefix_def nodePrefix_def clusterNodesPrefix_def NODES_PREFIX_def CLUSTERS_PREFIX_def scope_def)
  then have "path_of k = scope c (''nodes'' # n # ''upstream'' # split_char CHR ''/'' r)"
    unfolding path_of_key [OF assms(1)] by (simp add: scope_def)
  then show "\<exists>m. k = UpstreamDoc c n m"
    using assms(1) by (cases k) (auto simp: scope_simps split_char_ne)
next
  assume "\<exists>m. k = UpstreamDoc c n m"
  then show "starts_with (key_of k) (edgeUpstreamPrefix c n)" by (auto simp: edgeUpstreamKey_def starts_with_def)
qed

lemma object_patterns:
  assumes "iam_glob g" "plain_id b" "plain_id b'" "plain p" "plain q"
  shows "g (''arn:aws:s3:::'' @ b' @ ''/'' @ p) (''arn:aws:s3:::'' @ b @ ''/'' @ k) \<longleftrightarrow> b = b' \<and> k = p"
    and "g (''arn:aws:s3:::'' @ b' @ ''/'' @ p @ ''*'') (''arn:aws:s3:::'' @ b @ ''/'' @ k) \<longleftrightarrow> b = b' \<and> starts_with k p"
    and "g (''arn:aws:s3:::'' @ b' @ ''/'' @ p @ ''*'' @ q) (''arn:aws:s3:::'' @ b @ ''/'' @ k) \<longleftrightarrow> b = b' \<and> (\<exists>m. k = p @ m @ q)"
proof -
  have pl: "plain (''arn:aws:s3:::'' @ b' @ ''/'' @ p)" using assms plain_idD by simp
  note ob = object_of [of b b', OF conjunct1 [OF conjunct2 [OF plain_idD [OF assms(2)]]] conjunct1 [OF conjunct2 [OF plain_idD [OF assms(3)]]]]
  show "g (''arn:aws:s3:::'' @ b' @ ''/'' @ p) (''arn:aws:s3:::'' @ b @ ''/'' @ k) \<longleftrightarrow> b = b' \<and> k = p"
    using glob_plain [OF assms(1) pl] by (simp add: ob)
  show "g (''arn:aws:s3:::'' @ b' @ ''/'' @ p @ ''*'') (''arn:aws:s3:::'' @ b @ ''/'' @ k) \<longleftrightarrow> b = b' \<and> starts_with k p"
    using glob_prefix [OF assms(1) pl] by (simp add: starts_with_iff ob)
  show "g (''arn:aws:s3:::'' @ b' @ ''/'' @ p @ ''*'' @ q) (''arn:aws:s3:::'' @ b @ ''/'' @ k) \<longleftrightarrow> b = b' \<and> (\<exists>m. k = p @ m @ q)"
    using glob_middle [OF assms(1) pl assms(5)] by (simp add: ob)
qed

text \<open>The statements about other services grant actions of those services only.\<close>

lemma list_ex_one: "list_ex P [x] \<longleftrightarrow> P x"
  by simp

lemma permits_none:
  assumes "iam_glob g" "\<forall>st \<in> set policy. \<forall>a \<in> set (is_actions st). plain a \<and> ir_action r \<noteq> a"
  shows "\<not> permits g policy r"
  using assms(2) glob_plain [OF assms(1)] by (auto simp: permits_def statement_permits_def list_ex_iff)

lemma other_services:
  assumes "iam_glob g" "starts_with (ir_action r) ''s3:''"
  shows "\<not> permits g (sqsNotificationStatements region acct c n) r" "\<not> permits g (cloudWatchLogsStatements region acct c) r"
    "\<not> permits g (ecrStatements region acct) r" "\<not> permits g (ssmReadStatements region acct c) r"
  unfolding sqsNotificationStatements_def cloudWatchLogsStatements_def ecrStatements_def ssmReadStatements_def
  by (rule permits_none [OF assms(1)], use assms(2) in \<open>force simp: allow_def starts_with_def\<close>)+

lemma s3_object_simps [simp]:
  "ir_action (s3_object a b k) = a" "ir_resource (s3_object a b k) = ''arn:aws:s3:::'' @ b @ ''/'' @ k" "ir_context (s3_object a b k) = (\<lambda>_. None)"
  by (simp_all add: s3_object_def)

lemma backup_statements_state:
  assumes "iam_glob g" "plain_id c" "plain_id region" "plain_id acct"
  shows "\<not> permits g (backupStatements c region acct) (s3_object a (stateBucketName acct region) k)"
proof -
  have b: "plain_id (stateBucketName acct region)" "plain_id (backupsBucketName acct region)" and c: "plain (c @ ''/'')"
    using assms plain_idD [OF assms(2)] by simp_all
  have "\<not> g ((''arn:aws:s3:::'' @ backupsBucketName acct region @ ''/'' @ c @ ''/*'')) (''arn:aws:s3:::'' @ stateBucketName acct region @ ''/'' @ k)"
    using object_patterns(2) [OF assms(1) b c plain_simps(1)] buckets_apart by simp
  then show ?thesis unfolding backupStatements_def Let_def permits_simps statement_simps s3_object_simps by simp
qed

lemma app_policy_objects:
  assumes "iam_glob g" "plain_id c" "plain_id n" "plain_id region" "plain_id acct" "wf_key k"
    and a: "a \<in> {''s3:GetObject'', ''s3:PutObject'', ''s3:DeleteObject''}"
  shows "permits g (buildAppPolicy (stateBucketName acct region) c n region acct) (s3_object a (stateBucketName acct region) (key_of k)) \<longleftrightarrow>
    a = ''s3:GetObject'' \<and> k = DesiredDoc c n
    \<or> a = ''s3:PutObject'' \<and> (k = StatusDoc c n \<or> (\<exists>e. k = UpstreamDoc c e n))"
proof -
  let ?b = "stateBucketName acct region" and ?k = "key_of k"
  have b: "plain_id ?b" using assms(4,5) by simp
  have pc: "plain c" "plain n" "CHR ''/'' \<notin> set c" "CHR ''/'' \<notin> set n" using assms(2,3) plain_idD by blast+
  have 1: "g ((''arn:aws:s3:::'' @ ?b) @ ''/'' @ desiredKey c n) (''arn:aws:s3:::'' @ ?b @ ''/'' @ ?k) \<longleftrightarrow> k = DesiredDoc c n"
    using object_patterns(1) [OF assms(1) b b plain_keys(3) [OF pc(1,2)] plain_simps(1)] key_eq [OF assms(6), of "DesiredDoc c n"] pc by simp
  have 2: "g ((''arn:aws:s3:::'' @ ?b) @ ''/'' @ statusKey c n) (''arn:aws:s3:::'' @ ?b @ ''/'' @ ?k) \<longleftrightarrow> k = StatusDoc c n"
    using object_patterns(1) [OF assms(1) b b plain_keys(4) [OF pc(1,2)] plain_simps(1)] key_eq [OF assms(6), of "StatusDoc c n"] pc by simp
  have q: "plain (''/upstream/'' @ n @ ''.json'')" using pc by simp
  have 3: "g ((''arn:aws:s3:::'' @ ?b) @ ''/'' @ clusterNodesPrefix c @ ''*/upstream/'' @ n @ ''.json'') (''arn:aws:s3:::'' @ ?b @ ''/'' @ ?k)
      \<longleftrightarrow> (\<exists>e. k = UpstreamDoc c e n)"
    using object_patterns(3) [OF assms(1) b b plain_keys(1) [OF pc(1,2)] q] shard_pattern [OF assms(6) pc(3,4)] by simp
  have s3: "starts_with (ir_action (s3_object a ?b ?k)) ''s3:''" using a by (auto simp: starts_with_def)
  have act: "g ''s3:GetObject'' a \<longleftrightarrow> a = ''s3:GetObject''" "g ''s3:PutObject'' a \<longleftrightarrow> a = ''s3:PutObject''" "\<not> g ''s3:ListBucket'' a"
    using a by (auto simp: glob_plain [OF assms(1)])
  show ?thesis
    unfolding buildAppPolicy_def Let_def permits_simps statement_simps list_ex_one s3_object_simps act 1 2 3
    using other_services [OF assms(1) s3] backup_statements_state [OF assms(1,2,4,5)] act(3) by auto
qed

lemma edge_policy_objects:
  assumes "iam_glob g" "plain_id c" "plain_id n" "plain_id region" "plain_id acct" "wf_key k"
    and a: "a \<in> {''s3:GetObject'', ''s3:PutObject'', ''s3:DeleteObject''}"
  shows "permits g (buildEdgePolicy (stateBucketName acct region) c n region acct) (s3_object a (stateBucketName acct region) (key_of k)) \<longleftrightarrow>
    a = ''s3:GetObject'' \<and> (\<exists>m. k = UpstreamDoc c n m) \<or> a = ''s3:PutObject'' \<and> k = StatusDoc c n"
proof -
  let ?b = "stateBucketName acct region" and ?k = "key_of k"
  have b: "plain_id ?b" using assms(4,5) by simp
  have pc: "plain c" "plain n" "CHR ''/'' \<notin> set c" "CHR ''/'' \<notin> set n" using assms(2,3) plain_idD by blast+
  have u: "plain (nodePrefix c n @ ''upstream/'')" using plain_keys(2) [OF pc(1,2)] by simp
  have 1: "g ((''arn:aws:s3:::'' @ ?b) @ ''/'' @ (nodePrefix c n @ ''upstream/'') @ ''*'') (''arn:aws:s3:::'' @ ?b @ ''/'' @ ?k)
      \<longleftrightarrow> (\<exists>m. k = UpstreamDoc c n m)"
    using object_patterns(2) [OF assms(1) b b u plain_simps(1)] upstream_prefix [OF assms(6) pc(3,4), unfolded edgeUpstreamPrefix_def] by simp
  have 2: "g ((''arn:aws:s3:::'' @ ?b) @ ''/'' @ statusKey c n) (''arn:aws:s3:::'' @ ?b @ ''/'' @ ?k) \<longleftrightarrow> k = StatusDoc c n"
    using object_patterns(1) [OF assms(1) b b plain_keys(4) [OF pc(1,2)] plain_simps(1)] key_eq [OF assms(6), of "StatusDoc c n"] pc by simp
  have s3: "starts_with (ir_action (s3_object a ?b ?k)) ''s3:''" using a by (auto simp: starts_with_def)
  have act: "g ''s3:GetObject'' a \<longleftrightarrow> a = ''s3:GetObject''" "g ''s3:PutObject'' a \<longleftrightarrow> a = ''s3:PutObject''" "\<not> g ''s3:ListBucket'' a"
    using a by (auto simp: glob_plain [OF assms(1)])
  show ?thesis
    unfolding buildEdgePolicy_def Let_def permits_simps statement_simps list_ex_one s3_object_simps act 1 2
    using other_services [OF assms(1) s3] act(3) by auto
qed

text \<open>What an agent of the given role needs, and nothing else.\<close>

definition agent_may :: "node_role \<Rightarrow> string \<Rightarrow> string \<Rightarrow> string \<Rightarrow> state_key \<Rightarrow> bool" where
  "agent_may role c n a k \<longleftrightarrow>
     a = ''s3:PutObject'' \<and> k = StatusDoc c n
     \<or> (if role = RoleApp then a = ''s3:GetObject'' \<and> k = DesiredDoc c n \<or> a = ''s3:PutObject'' \<and> (\<exists>e. k = UpstreamDoc c e n)
        else a = ''s3:GetObject'' \<and> (\<exists>m. k = UpstreamDoc c n m))"

lemma secret_requests:
  assumes "iam_glob g" "plain_id c" "plain_id region" "plain_id acct" "CHR ''/'' \<notin> set d" "a \<in> {''ssm:GetParameter'', ''ssm:GetParameters''}"
  shows "permits g (ssmReadStatements region acct c) (secret_read a region acct (secretParameterPath d owner service key)) \<longleftrightarrow> c = d"
proof -
  have p: "plain c" "plain region" "plain acct" "CHR ''/'' \<notin> set c" using assms(2-4) plain_idD by blast+
  then have pl: "plain (''arn:aws:ssm:'' @ region @ '':'' @ acct @ '':parameter/launch-pad/'' @ c @ ''/'')" by simp
  have gp: "g (''arn:aws:ssm:'' @ region @ '':'' @ acct @ '':parameter/launch-pad/'' @ c @ ''/*'') s
      \<longleftrightarrow> starts_with s (''arn:aws:ssm:'' @ region @ '':'' @ acct @ '':parameter/launch-pad/'' @ c @ ''/'')" for s
    using glob_prefix [OF assms(1) pl] by simp
  have "g (''arn:aws:ssm:'' @ region @ '':'' @ acct @ '':parameter/launch-pad/'' @ c @ ''/*'')
      (''arn:aws:ssm:'' @ region @ '':'' @ acct @ '':parameter'' @ secretParameterPath d owner service key) \<longleftrightarrow> c = d"
    unfolding gp starts_with_iff by (simp add: secretParameterPath_def secretParameterPrefix_def object_of [OF assms(5) p(4)]) blast
  moreover have "list_ex (\<lambda>x. g x a) [''ssm:GetParameter'', ''ssm:GetParameters'']"
    using assms(6) by (auto simp: glob_plain [OF assms(1)])
  ultimately show ?thesis
    by (simp add: ssmReadStatements_def secret_read_def)
qed

lemma other_than_ssm:
  assumes "iam_glob g" "starts_with (ir_action r) ''ssm:''"
  shows "\<not> permits g (sqsNotificationStatements region acct c n) r" "\<not> permits g (cloudWatchLogsStatements region acct c) r"
    "\<not> permits g (ecrStatements region acct) r" "\<not> permits g (backupStatements c region acct) r"
  unfolding sqsNotificationStatements_def cloudWatchLogsStatements_def ecrStatements_def backupStatements_def Let_def
  by (rule permits_none [OF assms(1)], use assms(2) in \<open>force simp: allow_def allow_if_def starts_with_def\<close>)+

lemma node_policy_secrets:
  assumes "iam_glob g" "plain_id c" "plain_id region" "plain_id acct" "CHR ''/'' \<notin> set d" "a \<in> {''ssm:GetParameter'', ''ssm:GetParameters''}"
  shows "permits g (buildAppPolicy b c n region acct) (secret_read a region acct (secretParameterPath d owner service key)) \<longleftrightarrow> c = d"
    "\<not> permits g (buildEdgePolicy b c n region acct) (secret_read a region acct (secretParameterPath d owner service key))"
proof -
  let ?r = "secret_read a region acct (secretParameterPath d owner service key)"
  have ssm: "starts_with (ir_action ?r) ''ssm:''" using assms(6) by (auto simp: secret_read_def starts_with_def)
  have act: "\<not> g ''s3:GetObject'' (ir_action ?r)" "\<not> g ''s3:PutObject'' (ir_action ?r)" "\<not> g ''s3:ListBucket'' (ir_action ?r)"
    using assms(6) by (auto simp: glob_plain [OF assms(1)] secret_read_def)
  show "permits g (buildAppPolicy b c n region acct) ?r \<longleftrightarrow> c = d"
    unfolding buildAppPolicy_def Let_def permits_simps statement_simps list_ex_one
    using act other_than_ssm [OF assms(1) ssm] secret_requests [OF assms] by simp
  show "\<not> permits g (buildEdgePolicy b c n region acct) ?r"
    unfolding buildEdgePolicy_def Let_def permits_simps statement_simps list_ex_one
    using act other_than_ssm [OF assms(1) ssm] by simp
qed

text \<open>
  C14. A node's policy is exactly what its agent needs. Of all the documents of the state bucket, of every kind,
  cluster and node, an app node may read its own desired state, write its own status and its own shard at the
  edges of its cluster, and nothing else; an edge may read the shards published for it and write its own status;
  neither may delete anything, and an app node reads the secrets of its own cluster only, an edge none.
\<close>

theorem node_policy_exact:
  assumes "iam_glob g" "plain_id (ni_clusterId p)" "plain_id (ni_nodeId p)" "plain_id (ni_region p)" "plain_id (ni_accountId p)"
    and "ni_bucket p = stateBucketName (ni_accountId p) (ni_region p)"
  shows "(\<forall>a \<in> {''s3:GetObject'', ''s3:PutObject'', ''s3:DeleteObject''}. \<forall>k. wf_key k \<longrightarrow>
       (permits g (buildNodePolicy p) (s3_object a (ni_bucket p) (key_of k)) \<longleftrightarrow> agent_may (ni_role p) (ni_clusterId p) (ni_nodeId p) a k))
    \<and> (\<forall>a \<in> {''ssm:GetParameter'', ''ssm:GetParameters''}. \<forall>d owner service key. CHR ''/'' \<notin> set d \<longrightarrow>
       (permits g (buildNodePolicy p) (secret_read a (ni_region p) (ni_accountId p) (secretParameterPath d owner service key))
        \<longleftrightarrow> ni_role p = RoleApp \<and> d = ni_clusterId p))"
  using app_policy_objects [OF assms(1-5)] edge_policy_objects [OF assms(1-5)]
    node_policy_secrets [OF assms(1,2,4,5)]
  unfolding buildNodePolicy_def assms(6) agent_may_def by (cases "ni_role p = RoleApp") (simp_all, blast+)

section \<open>Names\<close>

lemma slug_label:
  assumes "LABEL_REGEX c" "LABEL_REGEX n"
  shows "iamSlug c n = c @ ''-'' @ n"
proof -
  have "iam_char x" if "x \<in> set c \<or> x \<in> set n \<or> x = CHR ''-''" for x
    using that label_chars [OF assms(1)] label_chars [OF assms(2)]
    by (auto simp: iam_char_def is_alnum_def is_lower_alnum_def)
  then show ?thesis unfolding iamSlug_def by (intro map_idI) auto
qed

lemma iam_name_chars: "list_all iam_char (iamSlug c n)"
  by (auto simp: iamSlug_def list_all_iff iam_char_def)

text \<open>
  The names given to a node's role, profile and user are legal (at most 64 of the characters the service
  admits), and they tell the nodes of a cluster apart as long as cluster and node ids are short enough together.
\<close>

theorem node_iam_names:
  assumes "LABEL_REGEX c" "LABEL_REGEX n" "LABEL_REGEX n'"
  shows "length (nodeRoleName c n) \<le> 64 \<and> length (nodeProfileName c n) \<le> 64 \<and> length (nodeUserName c n) \<le> 64
    \<and> list_all iam_char (nodeRoleName c n) \<and> list_all iam_char (nodeProfileName c n)
    \<and> (length c + length n \<le> 39 \<and> length c + length n' \<le> 39 \<and> nodeProfileName c n = nodeProfileName c n' \<longrightarrow> n = n')
    \<and> (length c + length n \<le> 47 \<and> length c + length n' \<le> 47 \<and> nodeRoleName c n = nodeRoleName c n' \<longrightarrow> n = n')"
proof -
  have chars: "list_all iam_char (take k (''launch-pad-node-'' @ iamSlug c n))"
    "list_all iam_char (take k (''launch-pad-node-profile-'' @ iamSlug c n))" for k
  proof -
    have "list_all iam_char ''launch-pad-node-''" "list_all iam_char ''launch-pad-node-profile-''" by code_simp+
    then show "list_all iam_char (take k (''launch-pad-node-'' @ iamSlug c n))"
      "list_all iam_char (take k (''launch-pad-node-profile-'' @ iamSlug c n))"
      using iam_name_chars [of c n] by (auto simp: list_all_iff dest!: in_set_takeD)
  qed
  have "n = n'" if "length c + length n \<le> 39" "length c + length n' \<le> 39" "nodeProfileName c n = nodeProfileName c n'"
    using that by (simp add: nodeProfileName_def slug_label assms)
  moreover have "n = n'" if "length c + length n \<le> 47" "length c + length n' \<le> 47" "nodeRoleName c n = nodeRoleName c n'"
    using that by (simp add: nodeRoleName_def slug_label assms)
  ultimately show ?thesis using chars
    unfolding nodeRoleName_def nodeProfileName_def nodeUserName_def by (simp only: length_take min.cobounded2) blast
qed

text \<open>
  Ids hold dashes, so a name does not determine the pair of ids, and past the limit it does not determine the
  node of a cluster: creating the second node replaces the first one's policy, deleting it deletes its role.
\<close>

lemma names_collide:
  "nodeRoleName ''prod-eu'' ''west'' = nodeRoleName ''prod'' ''eu-west''"
  "nodeProfileName ''prod-eu'' ''west'' = nodeProfileName ''prod'' ''eu-west''"
  "sqsNotificationStatements r a ''prod-eu'' ''west'' = sqsNotificationStatements r a ''prod'' ''eu-west''"
  by (simp_all add: nodeRoleName_def nodeProfileName_def iamSlug_def sqsNotificationStatements_def)

lemma long_names_collide:
  "nodeProfileName ''production'' ''astronomer-wanders-thoughtfully-1'' = nodeProfileName ''production'' ''astronomer-wanders-thoughtfully-2''"
  by code_simp

section \<open>Examples\<close>

text \<open>A matcher that behaves as documented.\<close>

fun glob_match :: glob where
  "glob_match [] s = (s = [])"
| "glob_match (p # ps) s =
     (if p = CHR ''*'' then list_ex (\<lambda>i. glob_match ps (drop i s)) [0..<Suc (length s)]
      else case s of [] \<Rightarrow> False | c # r \<Rightarrow> (p = CHR ''?'' \<or> p = c) \<and> glob_match ps r)"

lemma glob_match_documented: "iam_glob glob_match"
proof -
  have "list_ex (\<lambda>i. glob_match p (drop i s)) [0..<Suc (length s)] \<longleftrightarrow> (\<exists>m r. s = m @ r \<and> glob_match p r)" for p s
  proof
    assume "list_ex (\<lambda>i. glob_match p (drop i s)) [0..<Suc (length s)]"
    then obtain i where "glob_match p (drop i s)" unfolding list_ex_iff by blast
    then show "\<exists>m r. s = m @ r \<and> glob_match p r" by (metis append_take_drop_id)
  next
    assume "\<exists>m r. s = m @ r \<and> glob_match p r"
    then obtain m r where s: "s = m @ r" "glob_match p r" by blast
    then have "glob_match p (drop (length m) s)" "length m \<in> set [0..<Suc (length s)]" by auto
    then show "list_ex (\<lambda>i. glob_match p (drop i s)) [0..<Suc (length s)]" unfolding list_ex_iff by blast
  qed
  then show ?thesis unfolding iam_glob_def by (auto split: list.splits simp del: upt_Suc)
qed

definition app_params :: node_iam_params where
  "app_params = \<lparr>ni_clusterId = ''prod'', ni_nodeId = ''a'', ni_role = RoleApp, ni_bucket = stateBucketName ''1234'' ''us-east-1'',
     ni_region = ''us-east-1'', ni_accountId = ''1234''\<rparr>"

lemma node_policy_exact_witness:
  "permits glob_match (buildNodePolicy app_params) (s3_object ''s3:PutObject'' (ni_bucket app_params) (statusKey ''prod'' ''a''))
   \<and> \<not> permits glob_match (buildNodePolicy app_params) (s3_object ''s3:PutObject'' (ni_bucket app_params) (desiredKey ''prod'' ''b''))
   \<and> \<not> permits glob_match (buildNodePolicy app_params)
        (secret_read ''ssm:GetParameter'' ''us-east-1'' ''1234'' (secretParameterPath ''staging'' ''shop'' ''api'' ''KEY''))"
proof -
  have h: "plain_id (ni_clusterId app_params)" "plain_id (ni_nodeId app_params)" "plain_id (ni_region app_params)"
    "plain_id (ni_accountId app_params)" "ni_bucket app_params = stateBucketName (ni_accountId app_params) (ni_region app_params)"
    by (simp_all add: app_params_def plain_id_def)
  note T = node_policy_exact [OF glob_match_documented h]
  have k: "wf_key (StatusDoc ''prod'' ''a'')" "wf_key (DesiredDoc ''prod'' ''b'')" "CHR ''/'' \<notin> set ''staging''" by simp_all
  have put: "''s3:PutObject'' \<in> {''s3:GetObject'', ''s3:PutObject'', ''s3:DeleteObject''}" by simp
  have get: "''ssm:GetParameter'' \<in> {''ssm:GetParameter'', ''ssm:GetParameters''}" by simp
  have sel: "ni_role app_params = RoleApp" "ni_clusterId app_params = ''prod''" "ni_nodeId app_params = ''a''"
    "ni_region app_params = ''us-east-1''" "ni_accountId app_params = ''1234''" by (simp_all add: app_params_def)
  note objects = bspec [OF conjunct1 [OF T] put, rule_format]
  have 1: "permits glob_match (buildNodePolicy app_params) (s3_object ''s3:PutObject'' (ni_bucket app_params) (key_of (StatusDoc ''prod'' ''a'')))"
    unfolding objects [OF k(1)] by (simp add: agent_may_def sel)
  have 2: "\<not> permits glob_match (buildNodePolicy app_params) (s3_object ''s3:PutObject'' (ni_bucket app_params) (key_of (DesiredDoc ''prod'' ''b'')))"
    unfolding objects [OF k(2)] by (simp add: agent_may_def sel)
  have 3: "\<not> permits glob_match (buildNodePolicy app_params)
        (secret_read ''ssm:GetParameter'' ''us-east-1'' ''1234'' (secretParameterPath ''staging'' ''shop'' ''api'' ''KEY''))"
    using bspec [OF conjunct2 [OF T] get, rule_format, OF k(3), unfolded sel] by simp
  from 1 2 3 show ?thesis by simp
qed

lemma node_iam_names_witness:
  "nodeRoleName ''prod'' ''dog-runs-fast'' = ''launch-pad-node-prod-dog-runs-fast'' \<and> length (nodeRoleName ''prod'' ''dog-runs-fast'') \<le> 64"
proof -
  have "LABEL_REGEX ''prod''" "LABEL_REGEX ''dog-runs-fast''" by code_simp+
  note T = node_iam_names [OF this this(2)]
  have "nodeRoleName ''prod'' ''dog-runs-fast'' = ''launch-pad-node-prod-dog-runs-fast''" by code_simp
  then show ?thesis using conjunct1 [OF T] by blast
qed

end
