(* ===== verification/Iam_Roles.thy ===== *)
theory Iam_Roles
  imports Iam_Policy
begin

text \<open>
  The policies of the principals that run the program and its builds: the operator
  (\<open>packages/cli/src/setup/operator-policy.ts\<close>), a deploy-only role for one project
  (\<open>setup/project-deploy-policy.ts\<close>), the trust of a repository's workflow (\<open>setup/github-oidc.ts\<close>) and the
  service role of remote builds (\<open>deploy/remote-build.ts\<close>).
\<close>

section \<open>Remote builds\<close>

definition buildCodeBuildServicePolicy :: "string \<Rightarrow> string \<Rightarrow> string \<Rightarrow> string \<Rightarrow> string \<Rightarrow> iam_statement list" where
  "buildCodeBuildServicePolicy bucket region accountId clusterId projectName =
     (let bucketArn = ''arn:aws:s3:::'' @ bucket;
          buildsResource = (if clusterId = DEFAULT_CLUSTER then bucketArn @ ''/projects/*/builds/*''
                            else bucketArn @ ''/clusters/'' @ clusterId @ ''/projects/*/builds/*'');
          logGroupArn = ''arn:aws:logs:'' @ region @ '':'' @ accountId @ '':log-group:/aws/codebuild/'' @ projectName
      in [allow ''EcrAuth'' [''ecr:GetAuthorizationToken''] [''*''],
          allow ''EcrPush''
            [''ecr:BatchCheckLayerAvailability'', ''ecr:GetDownloadUrlForLayer'', ''ecr:BatchGetImage'', ''ecr:InitiateLayerUpload'',
             ''ecr:UploadLayerPart'', ''ecr:CompleteLayerUpload'', ''ecr:PutImage'']
            [''arn:aws:ecr:'' @ region @ '':'' @ accountId @ '':repository/*''],
          allow ''ReadBuildContexts'' [''s3:GetObject''] [buildsResource],
          allow ''BuildLogs'' [''logs:CreateLogGroup'', ''logs:CreateLogStream'', ''logs:PutLogEvents'']
            [logGroupArn, logGroupArn @ '':*'']])"

section \<open>The deploy-only role\<close>

definition buildProjectDeployPolicy :: "string \<Rightarrow> string \<Rightarrow> string \<Rightarrow> string \<Rightarrow> iam_statement list" where
  "buildProjectDeployPolicy accountId region cluster project =
     (let bucketArn = ''arn:aws:s3:::'' @ stateBucketName accountId region
      in [allow ''Sts'' [''sts:GetCallerIdentity''] [''*''],
          allow ''StateBucketLevel'' [''s3:ListBucket'', ''s3:GetBucketLocation'', ''s3:PutBucketTagging''] [bucketArn],
          allow ''ClusterStateObjectsOnly'' [''s3:GetObject'', ''s3:PutObject'', ''s3:DeleteObject'']
            [bucketArn @ ''/clusters/'' @ cluster @ ''/*''],
          allow ''EcrAuth'' [''ecr:GetAuthorizationToken''] [''*''],
          allow ''EcrProjectReposOnly''
            [''ecr:CreateRepository'', ''ecr:DescribeRepositories'', ''ecr:DescribeImages'', ''ecr:ListImages'', ''ecr:TagResource'',
             ''ecr:BatchCheckLayerAvailability'', ''ecr:GetDownloadUrlForLayer'', ''ecr:BatchGetImage'', ''ecr:InitiateLayerUpload'',
             ''ecr:UploadLayerPart'', ''ecr:CompleteLayerUpload'', ''ecr:PutImage'']
            [''arn:aws:ecr:'' @ region @ '':'' @ accountId @ '':repository/'' @ project @ ''/*''],
          allow ''SecretsProjectClusterOnly'' [''ssm:GetParameter'', ''ssm:GetParameters'', ''ssm:GetParametersByPath'']
            [''arn:aws:ssm:'' @ region @ '':'' @ accountId @ '':parameter/launch-pad/'' @ cluster @ ''/'' @ project @ ''/*''],
          allow ''SsmPublicAmiParam'' [''ssm:GetParameter''] [''arn:aws:ssm:'' @ region @ ''::parameter/aws/service/*''],
          allow_if ''Ec2ReadOnlyDriftObservation'' [''ec2:DescribeInstances'', ''ec2:DescribeInstanceStatus''] [''*'']
            (StringEquals ''aws:RequestedRegion'' region)])"

section \<open>The operator\<close>

definition SSM_MANAGED_INSTANCE_CORE_ARN :: string where
  "SSM_MANAGED_INSTANCE_CORE_ARN = ''arn:aws:iam::aws:policy/AmazonSSMManagedInstanceCore''"

definition NODE_IAM_PREFIX :: string where "NODE_IAM_PREFIX = ''launch-pad-node-''"
definition CODEBUILD_PROJECT_PREFIX :: string where "CODEBUILD_PROJECT_PREFIX = ''launch-pad-build-''"
definition CODEBUILD_ROLE_PREFIX :: string where "CODEBUILD_ROLE_PREFIX = ''launch-pad-codebuild-''"

definition role_lifecycle :: "string list" where
  "role_lifecycle = [''iam:CreateRole'', ''iam:DeleteRole'', ''iam:TagRole'', ''iam:PutRolePolicy'', ''iam:DeleteRolePolicy'']"

definition buildOperatorPolicy :: "string \<Rightarrow> string \<Rightarrow> iam_statement list" where
  "buildOperatorPolicy accountId region =
     (let bucketArn = ''arn:aws:s3:::'' @ stateBucketName accountId region;
          nodeRoleArn = ''arn:aws:iam::'' @ accountId @ '':role/'' @ NODE_IAM_PREFIX @ ''*'';
          nodeProfileArn = ''arn:aws:iam::'' @ accountId @ '':instance-profile/'' @ NODE_IAM_PREFIX @ ''*'';
          codebuildRoleArn = ''arn:aws:iam::'' @ accountId @ '':role/'' @ CODEBUILD_ROLE_PREFIX @ ''*'';
          at = (\<lambda>service. ''arn:aws:'' @ service @ '':'' @ region @ '':'' @ accountId @ '':'')
      in [allow ''Sts'' [''sts:GetCallerIdentity''] [''*''],
          allow ''StateBucket''
            [''s3:CreateBucket'', ''s3:ListBucket'', ''s3:GetBucketLocation'', ''s3:PutBucketVersioning'', ''s3:PutEncryptionConfiguration'',
             ''s3:PutBucketPublicAccessBlock'', ''s3:PutBucketTagging''] [bucketArn],
          allow ''StateObjects'' [''s3:GetObject'', ''s3:PutObject'', ''s3:DeleteObject''] [bucketArn @ ''/*''],
          allow ''EcrAuth'' [''ecr:GetAuthorizationToken''] [''*''],
          allow ''EcrRepos''
            [''ecr:CreateRepository'', ''ecr:DescribeRepositories'', ''ecr:DescribeImages'', ''ecr:ListImages'', ''ecr:TagResource'',
             ''ecr:BatchCheckLayerAvailability'', ''ecr:GetDownloadUrlForLayer'', ''ecr:BatchGetImage'', ''ecr:InitiateLayerUpload'',
             ''ecr:UploadLayerPart'', ''ecr:CompleteLayerUpload'', ''ecr:PutImage''] [at ''ecr'' @ ''repository/*''],
          allow_if ''Ec2''
            [''ec2:RunInstances'', ''ec2:StartInstances'', ''ec2:StopInstances'', ''ec2:TerminateInstances'', ''ec2:ModifyInstanceAttribute'',
             ''ec2:DescribeInstances'', ''ec2:DescribeInstanceTypes'', ''ec2:DescribeImages'', ''ec2:DescribeVpcs'', ''ec2:DescribeAddresses'',
             ''ec2:DescribeSecurityGroups'', ''ec2:AllocateAddress'', ''ec2:AssociateAddress'', ''ec2:DisassociateAddress'',
             ''ec2:ReleaseAddress'', ''ec2:CreateSecurityGroup'', ''ec2:DeleteSecurityGroup'', ''ec2:AuthorizeSecurityGroupIngress'',
             ''ec2:CreateTags''] [''*''] (StringEquals ''aws:RequestedRegion'' region),
          allow ''IamNodeRole'' role_lifecycle [nodeRoleArn],
          allow_if ''IamAttachManagedPolicy'' [''iam:AttachRolePolicy'', ''iam:DetachRolePolicy''] [nodeRoleArn]
            (ArnEquals ''iam:PolicyARN'' SSM_MANAGED_INSTANCE_CORE_ARN),
          allow ''IamNodeProfile''
            [''iam:CreateInstanceProfile'', ''iam:DeleteInstanceProfile'', ''iam:GetInstanceProfile'', ''iam:TagInstanceProfile'',
             ''iam:AddRoleToInstanceProfile'', ''iam:RemoveRoleFromInstanceProfile''] [nodeProfileArn],
          allow_if ''IamPassNodeRole'' [''iam:PassRole''] [nodeRoleArn] (StringEquals ''iam:PassedToService'' ''ec2.amazonaws.com''),
          allow ''CodeBuildRemoteBuilds''
            [''codebuild:CreateProject'', ''codebuild:UpdateProject'', ''codebuild:DeleteProject'', ''codebuild:StartBuild'',
             ''codebuild:BatchGetBuilds''] [at ''codebuild'' @ ''project/'' @ CODEBUILD_PROJECT_PREFIX @ ''*''],
          allow ''IamCodeBuildRole'' role_lifecycle [codebuildRoleArn],
          allow_if ''IamPassCodeBuildRole'' [''iam:PassRole''] [codebuildRoleArn]
            (StringEquals ''iam:PassedToService'' ''codebuild.amazonaws.com''),
          allow ''CodeBuildLogs'' [''logs:GetLogEvents'', ''logs:DeleteLogGroup'']
            [at ''logs'' @ ''log-group:/aws/codebuild/'' @ CODEBUILD_PROJECT_PREFIX @ ''*'',
             at ''logs'' @ ''log-group:/aws/codebuild/'' @ CODEBUILD_PROJECT_PREFIX @ ''*:*''],
          allow ''SsmSecrets''
            [''ssm:PutParameter'', ''ssm:GetParameter'', ''ssm:GetParameters'', ''ssm:GetParametersByPath'', ''ssm:DeleteParameter'']
            [at ''ssm'' @ ''parameter/launch-pad/*''],
          allow ''SsmPublicParams'' [''ssm:GetParameter''] [''arn:aws:ssm:'' @ region @ ''::parameter/aws/service/*''],
          allow ''SsmRunCommand'' [''ssm:SendCommand'', ''ssm:GetCommandInvocation'']
            [''arn:aws:ssm:'' @ region @ ''::document/AWS-RunShellScript'', at ''ec2'' @ ''instance/*''],
          allow_if ''SsmKms'' [''kms:Encrypt'', ''kms:Decrypt'', ''kms:GenerateDataKey''] [''*'']
            (StringEquals ''kms:ViaService'' (''ssm.'' @ region @ ''.amazonaws.com'')),
          allow ''CloudWatchLogsRead'' [''logs:FilterLogEvents''] [at ''logs'' @ ''log-group:/launch-pad/*:*''],
          allow ''SnsDeployNotifications'' [''sns:CreateTopic'', ''sns:SetTopicAttributes'', ''sns:Subscribe'', ''sns:Publish'']
            [at ''sns'' @ ''launch-pad-*''],
          allow ''SqsDeployNotifications'' [''sqs:CreateQueue'', ''sqs:GetQueueAttributes'', ''sqs:SetQueueAttributes'']
            [at ''sqs'' @ ''launch-pad-*'']])"

section \<open>The workflow of a repository\<close>

definition GITHUB_OIDC_HOST :: string where "GITHUB_OIDC_HOST = ''token.actions.githubusercontent.com''"

datatype oidc_error = BadRepo string | BadBranch string | BadRoleName string

definition repo_char :: "char \<Rightarrow> bool" where
  "repo_char c \<longleftrightarrow> is_alnum c \<or> c \<in> set ''._-''"

definition parseRepo :: "string \<Rightarrow> oidc_error + string \<times> string" where
  "parseRepo input =
     (case split_char CHR ''/'' input of
        [owner, repo] \<Rightarrow>
          (if owner \<noteq> [] \<and> list_all repo_char owner \<and> repo \<noteq> [] \<and> list_all repo_char repo then Inr (owner, repo)
           else Inl (BadRepo input))
      | _ \<Rightarrow> Inl (BadRepo input))"

definition branch_char :: "char \<Rightarrow> bool" where
  "branch_char c \<longleftrightarrow> is_alnum c \<or> c \<in> set ''._/-''"

definition validateBranch :: "string \<Rightarrow> oidc_error + string" where
  "validateBranch branch =
     (if branch \<noteq> [] \<and> is_alnum (hd branch) \<and> list_all branch_char (tl branch) \<and> \<not> str_includes branch ''..''
      then Inr branch else Inl (BadBranch branch))"

definition validateRoleName :: "string \<Rightarrow> oidc_error + string" where
  "validateRoleName name =
     (if 1 \<le> length name \<and> length name \<le> 64 \<and> list_all iam_char name then Inr name else Inl (BadRoleName name))"

definition oidcProviderArn :: "string \<Rightarrow> string" where
  "oidcProviderArn accountId = ''arn:aws:iam::'' @ accountId @ '':oidc-provider/'' @ GITHUB_OIDC_HOST"

definition githubSubject :: "string \<Rightarrow> string \<Rightarrow> string option \<Rightarrow> string" where
  "githubSubject owner repo branch =
     (let base = ''repo:'' @ owner @ ''/'' @ repo
      in case branch of
           Some b \<Rightarrow> if b \<noteq> [] then base @ '':ref:refs/heads/'' @ b else base @ '':*''
         | None \<Rightarrow> base @ '':*'')"

datatype principal = ServicePrincipal string | Federated string

record trust_policy =
  tp_principal :: principal
  tp_action :: string
  tp_conditions :: "iam_condition list"

definition buildOidcTrustPolicy :: "string \<Rightarrow> string \<Rightarrow> trust_policy" where
  "buildOidcTrustPolicy accountId subject =
     \<lparr>tp_principal = Federated (oidcProviderArn accountId), tp_action = ''sts:AssumeRoleWithWebIdentity'',
      tp_conditions = [StringEquals (GITHUB_OIDC_HOST @ '':aud'') ''sts.amazonaws.com'',
                       StringLike (GITHUB_OIDC_HOST @ '':sub'') [subject]]\<rparr>"

definition trusts :: "glob \<Rightarrow> trust_policy \<Rightarrow> string \<Rightarrow> string \<Rightarrow> bool" where
  "trusts g t audience subject \<longleftrightarrow>
     list_all (condition_holds g [GITHUB_OIDC_HOST @ '':aud'' \<mapsto> audience, GITHUB_OIDC_HOST @ '':sub'' \<mapsto> subject]) (tp_conditions t)"

definition deployFlags :: "string option \<Rightarrow> bool \<Rightarrow> string" where
  "deployFlags cluster deployOnly =
     join_str '' '' ((case cluster of None \<Rightarrow> [] | Some c \<Rightarrow> [''--cluster '' @ c])
       @ (if deployOnly then [''--no-create'', ''--no-repair'', ''--no-recreate''] else []) @ [''--yes''])"

definition TRUST_POLICY :: trust_policy where
  "TRUST_POLICY = \<lparr>tp_principal = ServicePrincipal ''ec2.amazonaws.com'', tp_action = ''sts:AssumeRole'', tp_conditions = []\<rparr>"

definition codebuildTrustPolicy :: trust_policy where
  "codebuildTrustPolicy =
     \<lparr>tp_principal = ServicePrincipal ''codebuild.amazonaws.com'', tp_action = ''sts:AssumeRole'', tp_conditions = []\<rparr>"

section \<open>What the build role reads\<close>

lemma glob_two:
  assumes "iam_glob g" "plain p" "plain q"
  shows "g (p @ CHR ''*'' # q @ ''*'') s \<longleftrightarrow> (\<exists>m r. s = p @ m @ q @ r)"
proof -
  have "g (CHR ''*'' # x) r \<longleftrightarrow> (\<exists>m t. r = m @ t \<and> g x t)" for x r using assms(1) by (simp add: iam_glob_def)
  then show ?thesis
    using glob_plain_append [OF assms(1,2), of "CHR ''*'' # q @ ''*''" s] glob_prefix [OF assms(1,3)]
    by (auto simp: starts_with_iff)
qed

lemma scope_split:
  assumes "CHR ''/'' \<notin> set c"
  shows "split_char CHR ''/'' (projectsPrefix c @ s) = scope c (''projects'' # split_char CHR ''/'' s)"
  using assms split_char_append [of "CHR ''/''" "''projects''"] split_char_append [of "CHR ''/''" c]
    split_char_append [of "CHR ''/''" "''clusters''"]
  by (simp add: projectsPrefix_def CLUSTERS_PREFIX_def scope_def)

lemma split_append_slash: "split_char CHR ''/'' (p @ CHR ''/'' # s) = split_char CHR ''/'' p @ split_char CHR ''/'' s"
  by (induction p) (auto split: list.split simp: split_char_ne)

lemma builds_pattern:
  assumes "wf_key k" "CHR ''/'' \<notin> set c"
  shows "(\<exists>m r. key_of k = projectsPrefix c @ m @ ''/builds/'' @ r) \<longleftrightarrow> (\<exists>p s t. k = BuildDoc c p s t)"
proof
  assume "\<exists>m r. key_of k = projectsPrefix c @ m @ ''/builds/'' @ r"
  then obtain m r where k: "key_of k = projectsPrefix c @ m @ ''/builds/'' @ r" by blast
  have "split_char CHR ''/'' (m @ ''/builds/'' @ r) = split_char CHR ''/'' m @ ''builds'' # split_char CHR ''/'' r"
    using split_append_slash [of m "''builds/'' @ r"] split_char_append [of "CHR ''/''" "''builds''" r] by simp
  then have p: "path_of k = scope c (''projects'' # split_char CHR ''/'' m @ ''builds'' # split_char CHR ''/'' r)"
    using scope_split [OF assms(2), of "m @ ''/builds/'' @ r"] k path_of_key [OF assms(1)] by simp
  obtain x xs where m: "split_char CHR ''/'' m = x # xs" by (metis neq_Nil_conv split_char_ne)
  obtain y ys where r: "split_char CHR ''/'' r = y # ys" by (metis neq_Nil_conv split_char_ne)
  show "\<exists>p s t. k = BuildDoc c p s t"
    using p m r assms(1) by (cases k; cases xs) (auto simp: scope_simps)
next
  assume "\<exists>p s t. k = BuildDoc c p s t"
  then obtain p s t where "key_of k = projectsPrefix c @ p @ ''/builds/'' @ s @ ''/'' @ t @ ''.tar.gz''"
    by (auto simp: remoteBuildContextKey_def remoteBuildContextPrefix_def projectStatePrefix_def)
  then show "\<exists>m r. key_of k = projectsPrefix c @ m @ ''/builds/'' @ r" by blast
qed

text \<open>
  A build reads uploaded build contexts of its own cluster and no other document of the state bucket, of
  any kind or cluster: no desired state, status or project record, and not another cluster's contexts.
\<close>

theorem build_role_reads_contexts_only:
  assumes "iam_glob g" "plain_id region" "plain_id acct" "plain_id c" "wf_key k"
    and "a \<in> {''s3:GetObject'', ''s3:PutObject'', ''s3:DeleteObject''}"
  shows "permits g (buildCodeBuildServicePolicy (stateBucketName acct region) region acct c project)
      (s3_object a (stateBucketName acct region) (key_of k)) \<longleftrightarrow> a = ''s3:GetObject'' \<and> (\<exists>p s t. k = BuildDoc c p s t)"
proof -
  let ?b = "stateBucketName acct region" and ?k = "key_of k"
  have b: "plain_id ?b" using assms by simp
  then have nb: "CHR ''/'' \<notin> set ?b" "plain ?b" using plain_idD by blast+
  have c: "plain c" "CHR ''/'' \<notin> set c" using plain_idD [OF assms(4)] by blast+
  have pl: "plain (''arn:aws:s3:::'' @ ?b @ ''/'' @ projectsPrefix c)" "plain ''/builds/''"
    using nb c by (simp_all add: projectsPrefix_def CLUSTERS_PREFIX_def)
  have "g ((''arn:aws:s3:::'' @ ?b @ ''/'' @ projectsPrefix c) @ CHR ''*'' # ''/builds/'' @ ''*'') (''arn:aws:s3:::'' @ ?b @ ''/'' @ ?k)
      \<longleftrightarrow> (\<exists>p s t. k = BuildDoc c p s t)"
    unfolding glob_two [OF assms(1) pl] using builds_pattern [OF assms(5) c(2)] by simp
  then have res: "g (if c = DEFAULT_CLUSTER then (''arn:aws:s3:::'' @ ?b) @ ''/projects/*/builds/*''
      else (''arn:aws:s3:::'' @ ?b) @ ''/clusters/'' @ c @ ''/projects/*/builds/*'') (''arn:aws:s3:::'' @ ?b @ ''/'' @ ?k)
      \<longleftrightarrow> (\<exists>p s t. k = BuildDoc c p s t)"
    by (cases "c = DEFAULT_CLUSTER") (simp_all add: projectsPrefix_def CLUSTERS_PREFIX_def)
  have act: "g ''s3:GetObject'' a \<longleftrightarrow> a = ''s3:GetObject''"
    by (simp add: glob_plain [OF assms(1)])
  have other: "\<not> list_ex (\<lambda>x. g x a) [''ecr:GetAuthorizationToken'']"
    "\<not> list_ex (\<lambda>x. g x a) [''ecr:BatchCheckLayerAvailability'', ''ecr:GetDownloadUrlForLayer'', ''ecr:BatchGetImage'', ''ecr:InitiateLayerUpload'',
             ''ecr:UploadLayerPart'', ''ecr:CompleteLayerUpload'', ''ecr:PutImage'']"
    "\<not> list_ex (\<lambda>x. g x a) [''logs:CreateLogGroup'', ''logs:CreateLogStream'', ''logs:PutLogEvents'']"
    using assms(6) by (auto simp: glob_plain [OF assms(1)])
  show ?thesis
    unfolding buildCodeBuildServicePolicy_def Let_def permits_simps statement_simps s3_object_simps
    using other act res unfolding list_ex_one by blast
qed

section \<open>What the deploy-only role reaches\<close>

text \<open>The cluster a document belongs to.\<close>

fun key_cluster :: "state_key \<Rightarrow> string" where
  "key_cluster (NodeDoc c n) = c"
| "key_cluster (DesiredDoc c n) = c"
| "key_cluster (StatusDoc c n) = c"
| "key_cluster (EdgeDoc c n) = c"
| "key_cluster (UpstreamDoc c e a) = c"
| "key_cluster (ClusterDoc c) = c"
| "key_cluster (BaselineDoc c p) = c"
| "key_cluster (PreviewDoc c p) = c"
| "key_cluster (IndexDoc c p) = c"
| "key_cluster (EventDoc c p ts i) = c"
| "key_cluster (BuildDoc c p s t) = c"

lemma cluster_pattern:
  assumes "wf_key k" "CHR ''/'' \<notin> set c" "c \<noteq> DEFAULT_CLUSTER"
  shows "starts_with (key_of k) (''clusters/'' @ c @ ''/'') \<longleftrightarrow> key_cluster k = c"
proof
  assume "starts_with (key_of k) (''clusters/'' @ c @ ''/'')"
  then obtain r where r: "key_of k = ''clusters/'' @ c @ ''/'' @ r" by (auto simp: starts_with_iff)
  have "split_char CHR ''/'' (key_of k) = ''clusters'' # c # split_char CHR ''/'' r"
    using split_char_append [of "CHR ''/''" "''clusters''"] split_char_append [OF assms(2)] by (simp add: r)
  then have "path_of k = ''clusters'' # c # split_char CHR ''/'' r" by (simp add: path_of_key [OF assms(1)])
  then show "key_cluster k = c" by (cases k) (auto simp: scope_def split: if_splits)
next
  assume c: "key_cluster k = c"
  then obtain p ps where "path_of k = ''clusters'' # c # p # ps"
    using assms(3) by (cases k) (auto simp: scope_def)
  then show "starts_with (key_of k) (''clusters/'' @ c @ ''/'')"
    by (simp add: key_of_path starts_with_def)
qed

definition iam_prefixes :: "string list" where
  "iam_prefixes = [''iam:'', ''ec2:Run'', ''ec2:Terminate'', ''ec2:Stop'', ''ec2:Start'', ''ec2:Create'', ''ec2:Delete'', ''ec2:Modify'',
     ''sns:'', ''sqs:'', ''codebuild:'', ''kms:'', ''ssm:Put'', ''ssm:Delete'', ''ssm:Send'']"

lemma deploy_role_secrets:
  assumes "iam_glob g" "plain_id region" "plain_id acct" "plain_id cluster" "plain_id project"
    and d: "CHR ''/'' \<notin> set d \<and> CHR ''/'' \<notin> set owner"
  shows "permits g (buildProjectDeployPolicy acct region cluster project)
    (secret_read ''ssm:GetParameters'' region acct (secretParameterPath d owner service key)) \<longleftrightarrow> d = cluster \<and> owner = project"
proof -
  have c: "plain cluster" "CHR ''/'' \<notin> set cluster" and pr: "plain project" "CHR ''/'' \<notin> set project" and re: "plain region" "plain acct"
    using plain_idD [OF assms(4)] plain_idD [OF assms(5)] plain_idD [OF assms(2)] plain_idD [OF assms(3)] by blast+
  have pl: "plain (''arn:aws:ssm:'' @ region @ '':'' @ acct @ '':parameter/launch-pad/'' @ cluster @ ''/'' @ project @ ''/'')"
    using c pr re by simp
  have gp: "g (''arn:aws:ssm:'' @ region @ '':'' @ acct @ '':parameter/launch-pad/'' @ cluster @ ''/'' @ project @ ''/*'') s
      \<longleftrightarrow> starts_with s (''arn:aws:ssm:'' @ region @ '':'' @ acct @ '':parameter/launch-pad/'' @ cluster @ ''/'' @ project @ ''/'')" for s
    using glob_prefix [OF assms(1) pl] by simp
  have 1: "g (''arn:aws:ssm:'' @ region @ '':'' @ acct @ '':parameter/launch-pad/'' @ cluster @ ''/'' @ project @ ''/*'')
      (''arn:aws:ssm:'' @ region @ '':'' @ acct @ '':parameter'' @ secretParameterPath d owner service key) \<longleftrightarrow> d = cluster \<and> owner = project"
    unfolding gp starts_with_iff
    by (simp add: secretParameterPath_def secretParameterPrefix_def object_of d c(2) pr(2))
  have yes: "list_ex (\<lambda>x. g x ''ssm:GetParameters'') [''ssm:GetParameter'', ''ssm:GetParameters'', ''ssm:GetParametersByPath'']"
    by (auto simp: glob_plain [OF assms(1)])
  have no: "\<forall>x \<in> set [''sts:GetCallerIdentity'', ''s3:ListBucket'', ''s3:GetBucketLocation'', ''s3:PutBucketTagging'', ''ecr:GetAuthorizationToken'',
      ''s3:GetObject'', ''s3:PutObject'', ''s3:DeleteObject'', ''ecr:CreateRepository'', ''ecr:DescribeRepositories'', ''ecr:DescribeImages'',
      ''ecr:ListImages'', ''ecr:TagResource'', ''ecr:BatchCheckLayerAvailability'', ''ecr:GetDownloadUrlForLayer'', ''ecr:BatchGetImage'',
      ''ecr:InitiateLayerUpload'', ''ecr:UploadLayerPart'', ''ecr:CompleteLayerUpload'', ''ecr:PutImage'', ''ssm:GetParameter'',
      ''ec2:DescribeInstances'', ''ec2:DescribeInstanceStatus'']. \<not> g x ''ssm:GetParameters''"
    by (auto simp: glob_plain [OF assms(1)])
  have sel: "ir_action (secret_read a re ac pa) = a" "ir_resource (secret_read a re ac pa) = ''arn:aws:ssm:'' @ re @ '':'' @ ac @ '':parameter'' @ pa"
    for a re ac pa by (simp_all add: secret_read_def)
  show ?thesis
    unfolding buildProjectDeployPolicy_def Let_def permits_simps statement_simps sel
    using 1 yes no by (simp add: list_ex_one del: append_Cons append.simps)
qed

text \<open>
  C15. A compromised deploy role is confined to one project of one cluster: of the documents of the state bucket it
  reads, writes and deletes exactly those of its cluster, the secrets it reads are exactly those of its project in
  that cluster, and it can neither change machines or access rights nor write a secret.
\<close>

theorem deploy_role_confined:
  assumes "iam_glob g" "plain_id region" "plain_id acct" "plain_id cluster" "plain_id project" "cluster \<noteq> DEFAULT_CLUSTER"
  shows "(\<forall>a \<in> {''s3:GetObject'', ''s3:PutObject'', ''s3:DeleteObject''}. \<forall>k. wf_key k \<longrightarrow>
       (permits g (buildProjectDeployPolicy acct region cluster project) (s3_object a (stateBucketName acct region) (key_of k))
        \<longleftrightarrow> key_cluster k = cluster))
    \<and> (\<forall>d owner service key. CHR ''/'' \<notin> set d \<and> CHR ''/'' \<notin> set owner \<longrightarrow>
       (permits g (buildProjectDeployPolicy acct region cluster project)
          (secret_read ''ssm:GetParameters'' region acct (secretParameterPath d owner service key))
        \<longleftrightarrow> d = cluster \<and> owner = project))
    \<and> (\<forall>r. list_ex (starts_with (ir_action r)) iam_prefixes \<longrightarrow> \<not> permits g (buildProjectDeployPolicy acct region cluster project) r)"
proof -
  let ?b = "stateBucketName acct region" and ?p = "buildProjectDeployPolicy acct region cluster project"
  have b: "plain_id ?b" using assms by simp
  have c: "plain cluster" "CHR ''/'' \<notin> set cluster" and pr: "plain project" "CHR ''/'' \<notin> set project" and re: "plain region" "plain acct"
    using plain_idD [OF assms(4)] plain_idD [OF assms(5)] plain_idD [OF assms(2)] plain_idD [OF assms(3)] by blast+
  have "permits g ?p (s3_object a ?b (key_of k)) \<longleftrightarrow> key_cluster k = cluster"
    if a: "a \<in> {''s3:GetObject'', ''s3:PutObject'', ''s3:DeleteObject''}" and k: "wf_key k" for a k
  proof -
    have p1: "plain (''clusters/'' @ cluster @ ''/'')" using c by simp
    have 1: "g ((''arn:aws:s3:::'' @ ?b) @ ''/clusters/'' @ cluster @ ''/*'') (''arn:aws:s3:::'' @ ?b @ ''/'' @ key_of k) \<longleftrightarrow> key_cluster k = cluster"
      using object_patterns(2) [OF assms(1) b b p1 plain_simps(1)] cluster_pattern [OF k c(2) assms(6)] by simp
    have yes: "list_ex (\<lambda>x. g x a) [''s3:GetObject'', ''s3:PutObject'', ''s3:DeleteObject'']"
      using a by (auto simp: glob_plain [OF assms(1)])
    have no: "\<forall>x \<in> set [''sts:GetCallerIdentity'', ''s3:ListBucket'', ''s3:GetBucketLocation'', ''s3:PutBucketTagging'', ''ecr:GetAuthorizationToken'',
        ''ecr:CreateRepository'', ''ecr:DescribeRepositories'', ''ecr:DescribeImages'', ''ecr:ListImages'', ''ecr:TagResource'',
        ''ecr:BatchCheckLayerAvailability'', ''ecr:GetDownloadUrlForLayer'', ''ecr:BatchGetImage'', ''ecr:InitiateLayerUpload'',
        ''ecr:UploadLayerPart'', ''ecr:CompleteLayerUpload'', ''ecr:PutImage'', ''ssm:GetParameter'', ''ssm:GetParameters'',
        ''ssm:GetParametersByPath'', ''ec2:DescribeInstances'', ''ec2:DescribeInstanceStatus'']. \<not> g x a"
      using a by (auto simp: glob_plain [OF assms(1)])
    show ?thesis
      unfolding buildProjectDeployPolicy_def Let_def permits_simps statement_simps s3_object_simps
      using 1 yes no by (simp add: list_ex_one del: append_Cons append.simps)
  qed
  moreover have "permits g ?p (secret_read ''ssm:GetParameters'' region acct (secretParameterPath d owner service key)) \<longleftrightarrow> d = cluster \<and> owner = project"
    if d: "CHR ''/'' \<notin> set d \<and> CHR ''/'' \<notin> set owner" for d owner service key
    using deploy_role_secrets [OF assms(1-5) d] .
  moreover have "\<not> permits g ?p r" if r: "list_ex (starts_with (ir_action r)) iam_prefixes" for r
  proof (rule permits_none [OF assms(1)], intro ballI)
    fix st a assume "st \<in> set ?p" "a \<in> set (is_actions st)"
    then have "a \<in> set (concat (map is_actions (buildProjectDeployPolicy [] [] [] [])))"
      by (auto simp: buildProjectDeployPolicy_def Let_def allow_def allow_if_def)
    moreover have "list_all (\<lambda>a. plain a \<and> \<not> list_ex (starts_with a) iam_prefixes) (concat (map is_actions (buildProjectDeployPolicy [] [] [] [])))"
      by code_simp
    ultimately show "plain a \<and> ir_action r \<noteq> a" using r by (auto simp: list_all_iff)
  qed
  ultimately show ?thesis by blast
qed

text \<open>An environment or a component has an owner of its own, whose secrets the role cannot read.\<close>

lemma deploy_role_misses_environments:
  assumes "iam_glob g" "plain_id region" "plain_id acct" "plain_id cluster" "LABEL_REGEX project" "cluster \<noteq> DEFAULT_CLUSTER" "LABEL_REGEX env"
  shows "\<not> permits g (buildProjectDeployPolicy acct region cluster project)
    (secret_read ''ssm:GetParameters'' region acct (secretParameterPath cluster (footprintOwner project None (Some env)) service key))"
proof -
  have "CHR ''/'' \<notin> set cluster" "CHR ''/'' \<notin> set project" "CHR ''/'' \<notin> set env"
    using plain_idD [OF assms(4)] plain_idD [OF label_plain [OF assms(5)]] plain_idD [OF label_plain [OF assms(7)]] by blast+
  moreover have "footprintOwner project None (Some env) \<noteq> project" "set (footprintOwner project None (Some env)) \<subseteq> set project \<union> set env \<union> {CHR ''-''}"
    by (auto simp: footprintOwner_def envProject_def componentOwner_def)
  ultimately show ?thesis
    using deploy_role_secrets [OF assms(1-4) label_plain [OF assms(5)], of cluster "footprintOwner project None (Some env)"]
    by auto
qed

section \<open>Who may assume the deploy role\<close>

lemma parseRepo_Inr:
  "parseRepo input = Inr (owner, repo) \<Longrightarrow>
   input = owner @ ''/'' @ repo \<and> owner \<noteq> [] \<and> repo \<noteq> [] \<and> list_all repo_char owner \<and> list_all repo_char repo"
proof -
  assume p: "parseRepo input = Inr (owner, repo)"
  then have s: "split_char CHR ''/'' input = [owner, repo]" and v: "owner \<noteq> []" "repo \<noteq> []" "list_all repo_char owner" "list_all repo_char repo"
    by (auto simp: parseRepo_def split: list.splits if_splits)
  have "input = join_str ''/'' (split_char CHR ''/'' input)" by (simp add: join_split_char)
  with s v show ?thesis by simp
qed

lemma repo_plain: "list_all repo_char s \<Longrightarrow> plain s \<and> CHR ''/'' \<notin> set s \<and> CHR '':'' \<notin> set s"
proof -
  assume s: "list_all repo_char s"
  have "\<not> repo_char CHR ''*''" "\<not> repo_char CHR ''?''" "\<not> repo_char CHR ''/''" "\<not> repo_char CHR '':''" by code_simp+
  with s show ?thesis by (auto simp: plain_def list_all_iff)
qed

lemma branch_plain: "validateBranch b = Inr b' \<Longrightarrow> b' = b \<and> b \<noteq> [] \<and> plain b"
proof -
  assume v: "validateBranch b = Inr b'"
  have "\<not> branch_char CHR ''*''" "\<not> branch_char CHR ''?''" "\<not> is_alnum CHR ''*''" "\<not> is_alnum CHR ''?''" by code_simp+
  with v show ?thesis by (cases b) (auto simp: validateBranch_def plain_def list_all_iff split: if_splits)
qed

lemma trusts_iff:
  "trusts g (buildOidcTrustPolicy acct subject) aud sub \<longleftrightarrow> aud = ''sts.amazonaws.com'' \<and> g subject sub"
  by (simp add: trusts_def buildOidcTrustPolicy_def GITHUB_OIDC_HOST_def)

text \<open>
  The role trusts the repository it was made for and no other. Pinned to a branch, it is assumed only with a
  token whose subject is that branch of that repository; without one, with any token of that repository; never
  with a token for another audience or of another repository, whatever its ref.
\<close>

theorem github_trust_exact:
  assumes "iam_glob g" "parseRepo input = Inr (owner, repo)"
  shows "(\<forall>b. validateBranch b = Inr b \<longrightarrow>
       (trusts g (buildOidcTrustPolicy acct (githubSubject owner repo (Some b))) aud sub
        \<longleftrightarrow> aud = ''sts.amazonaws.com'' \<and> sub = ''repo:'' @ owner @ ''/'' @ repo @ '':ref:refs/heads/'' @ b))
    \<and> (trusts g (buildOidcTrustPolicy acct (githubSubject owner repo None)) aud sub
        \<longleftrightarrow> aud = ''sts.amazonaws.com'' \<and> starts_with sub (''repo:'' @ owner @ ''/'' @ repo @ '':''))
    \<and> (\<forall>input' owner' repo' ref. parseRepo input' = Inr (owner', repo') \<and> (owner', repo') \<noteq> (owner, repo) \<longrightarrow>
        \<not> trusts g (buildOidcTrustPolicy acct (githubSubject owner repo None)) aud (''repo:'' @ owner' @ ''/'' @ repo' @ '':'' @ ref))"
proof -
  have o: "plain owner \<and> CHR ''/'' \<notin> set owner \<and> CHR '':'' \<notin> set owner" "plain repo \<and> CHR ''/'' \<notin> set repo \<and> CHR '':'' \<notin> set repo"
    using parseRepo_Inr [OF assms(2)] repo_plain by blast+
  have pinned: "g (githubSubject owner repo (Some b)) sub \<longleftrightarrow> sub = ''repo:'' @ owner @ ''/'' @ repo @ '':ref:refs/heads/'' @ b"
    if "validateBranch b = Inr b" for b
  proof -
    have "b \<noteq> []" "plain b" using branch_plain [OF that] by auto
    then have "plain (''repo:'' @ owner @ ''/'' @ repo @ '':ref:refs/heads/'' @ b)" using o by simp
    then show ?thesis using glob_plain [OF assms(1)] \<open>b \<noteq> []\<close> by (simp add: githubSubject_def)
  qed
  have pre: "plain (''repo:'' @ owner @ ''/'' @ repo @ '':'')" using o by simp
  have any: "g (githubSubject owner repo None) s \<longleftrightarrow> starts_with s (''repo:'' @ owner @ ''/'' @ repo @ '':'')" for s
    using glob_prefix [OF assms(1) pre] by (simp add: githubSubject_def)
  have other: "\<not> starts_with (''repo:'' @ owner' @ ''/'' @ repo' @ '':'' @ ref) (''repo:'' @ owner @ ''/'' @ repo @ '':'')"
    if "parseRepo input' = Inr (owner', repo')" "(owner', repo') \<noteq> (owner, repo)" for input' owner' repo' ref
  proof
    assume "starts_with (''repo:'' @ owner' @ ''/'' @ repo' @ '':'' @ ref) (''repo:'' @ owner @ ''/'' @ repo @ '':'')"
    then obtain t where e: "owner' @ CHR ''/'' # repo' @ CHR '':'' # ref = owner @ CHR ''/'' # repo @ CHR '':'' # t"
      unfolding starts_with_iff by fastforce
    have o': "CHR ''/'' \<notin> set owner'" "CHR '':'' \<notin> set repo'" using parseRepo_Inr [OF that(1)] repo_plain by blast+
    from slash_split_unique [OF o'(1) _ e] o have "owner' = owner" and r: "repo' @ CHR '':'' # ref = repo @ CHR '':'' # t" by blast+
    moreover have "repo' = repo"
      using split_char_append [OF o'(2), of ref] split_char_append [of "CHR '':''" repo t] o(2) r by simp
    ultimately show False using that(2) by simp
  qed
  show ?thesis unfolding trusts_iff any
  proof (intro conjI allI impI)
    fix b assume "validateBranch b = Inr b"
    from pinned [OF this] show "aud = ''sts.amazonaws.com'' \<and> g (githubSubject owner repo (Some b)) sub \<longleftrightarrow>
        aud = ''sts.amazonaws.com'' \<and> sub = ''repo:'' @ owner @ ''/'' @ repo @ '':ref:refs/heads/'' @ b" by simp
  next
    show "aud = ''sts.amazonaws.com'' \<and> starts_with sub (''repo:'' @ owner @ ''/'' @ repo @ '':'') \<longleftrightarrow>
      aud = ''sts.amazonaws.com'' \<and> starts_with sub (''repo:'' @ owner @ ''/'' @ repo @ '':'')" ..
  next
    fix input' owner' repo' ref
    assume "parseRepo input' = Inr (owner', repo') \<and> (owner', repo') \<noteq> (owner, repo)"
    then have "\<not> starts_with (''repo:'' @ owner' @ ''/'' @ repo' @ '':'' @ ref) (''repo:'' @ owner @ ''/'' @ repo @ '':'')"
      using other by blast
    then show "\<not> (aud = ''sts.amazonaws.com'' \<and> starts_with (''repo:'' @ owner' @ ''/'' @ repo' @ '':'' @ ref) (''repo:'' @ owner @ ''/'' @ repo @ '':''))"
      by blast
  qed
qed

section \<open>What the operator may manage\<close>

definition on :: "string \<Rightarrow> string \<Rightarrow> iam_request" where
  "on action resource = \<lparr>ir_action = action, ir_resource = resource, ir_context = (\<lambda>_. None)\<rparr>"

lemma permits_by:
  assumes "iam_glob g" "allow sid as [pre @ ''*''] \<in> set policy" "a \<in> set as" "plain a" "plain pre" "starts_with x pre"
  shows "permits g policy (on a x)"
proof -
  have "statement_permits g (allow sid as [pre @ ''*'']) (on a x)"
    unfolding statement_simps using assms(3,6) glob_plain [OF assms(1,4)] glob_prefix [OF assms(1,5)]
    by (auto simp: on_def list_ex_iff)
  with assms(2) show ?thesis unfolding permits_def list_ex_iff by blast
qed

lemma operator_roles:
  assumes "iam_glob g" "plain acct" "a \<in> set role_lifecycle"
    and "starts_with name NODE_IAM_PREFIX \<or> starts_with name CODEBUILD_ROLE_PREFIX"
  shows "permits g (buildOperatorPolicy acct region) (on a (''arn:aws:iam::'' @ acct @ '':role/'' @ name))"
proof -
  have a: "plain a" using assms(3) by (auto simp: role_lifecycle_def)
  have n: "plain (''arn:aws:iam::'' @ acct @ '':role/'' @ NODE_IAM_PREFIX)" and b: "plain (''arn:aws:iam::'' @ acct @ '':role/'' @ CODEBUILD_ROLE_PREFIX)"
    using assms(2) by (simp_all add: NODE_IAM_PREFIX_def CODEBUILD_ROLE_PREFIX_def)
  have node: "allow ''IamNodeRole'' role_lifecycle [(''arn:aws:iam::'' @ acct @ '':role/'' @ NODE_IAM_PREFIX) @ ''*''] \<in> set (buildOperatorPolicy acct region)"
    and build: "allow ''IamCodeBuildRole'' role_lifecycle [(''arn:aws:iam::'' @ acct @ '':role/'' @ CODEBUILD_ROLE_PREFIX) @ ''*''] \<in> set (buildOperatorPolicy acct region)"
    by (simp_all add: buildOperatorPolicy_def Let_def)
  from assms(4) show ?thesis
  proof
    assume "starts_with name NODE_IAM_PREFIX"
    then show ?thesis by (intro permits_by [OF assms(1) node assms(3) a n]) (auto simp: starts_with_iff)
  next
    assume "starts_with name CODEBUILD_ROLE_PREFIX"
    then show ?thesis by (intro permits_by [OF assms(1) build assms(3) a b]) (auto simp: starts_with_iff)
  qed
qed

text \<open>Every role the program creates is one the operator may create, change and delete.\<close>

lemma operator_manages_its_roles:
  assumes "iam_glob g" "plain acct" "a \<in> set role_lifecycle"
  shows "permits g (buildOperatorPolicy acct region) (on a (''arn:aws:iam::'' @ acct @ '':role/'' @ nodeRoleName c n))"
    "permits g (buildOperatorPolicy acct region) (on a (''arn:aws:iam::'' @ acct @ '':role/'' @ remoteBuildRoleName c))"
  by (rule operator_roles [OF assms], simp add: nodeRoleName_def remoteBuildRoleName_def NODE_IAM_PREFIX_def CODEBUILD_ROLE_PREFIX_def starts_with_def)+

text \<open>
  The policy is meant to cover every call the program makes. It does not cover the users of external nodes nor
  the bucket of the database backups.
\<close>

lemma operator_actions: "map is_actions (buildOperatorPolicy acct region) = map is_actions (buildOperatorPolicy [] [])"
  by (simp add: buildOperatorPolicy_def Let_def allow_def allow_if_def)

lemma operator_action:
  assumes "st \<in> set (buildOperatorPolicy acct region)" "a \<in> set (is_actions st)"
  shows "a \<in> set (concat (map is_actions (buildOperatorPolicy [] [])))"
  using assms unfolding operator_actions [of acct region, symmetric] by auto

lemma operator_bucket:
  "list_all (\<lambda>st. ''s3:CreateBucket'' \<in> set (is_actions st) \<longrightarrow> is_resources st = [''arn:aws:s3:::'' @ stateBucketName acct region])
     (buildOperatorPolicy acct region)"
  by (simp add: buildOperatorPolicy_def Let_def allow_def allow_if_def role_lifecycle_def)

lemma operator_gaps:
  assumes "iam_glob g" "plain_id acct" "plain_id region"
  shows "\<not> permits g (buildOperatorPolicy acct region) (on ''iam:CreateUser'' x)"
    "\<not> permits g (buildOperatorPolicy acct region) (on ''s3:CreateBucket'' (''arn:aws:s3:::'' @ backupsBucketName acct region))"
proof -
  have "\<not> permits g (buildOperatorPolicy acct region) r" if "ir_action r = ''iam:CreateUser''" for r
  proof (rule permits_none [OF assms(1)], intro ballI)
    fix st a assume "st \<in> set (buildOperatorPolicy acct region)" "a \<in> set (is_actions st)"
    then have "a \<in> set (concat (map is_actions (buildOperatorPolicy [] [])))" by (rule operator_action)
    moreover have "list_all (\<lambda>a. plain a \<and> ''iam:CreateUser'' \<noteq> a) (concat (map is_actions (buildOperatorPolicy [] [])))"
      by code_simp
    ultimately show "plain a \<and> ir_action r \<noteq> a" using that by (auto simp: list_all_iff)
  qed
  then show "\<not> permits g (buildOperatorPolicy acct region) (on ''iam:CreateUser'' x)" by (simp add: on_def)
  have none: "\<not> statement_permits g st (on ''s3:CreateBucket'' (''arn:aws:s3:::'' @ backupsBucketName acct region))"
    if st: "st \<in> set (buildOperatorPolicy acct region)" for st
  proof
    assume p: "statement_permits g st (on ''s3:CreateBucket'' (''arn:aws:s3:::'' @ backupsBucketName acct region))"
    then obtain a where a: "a \<in> set (is_actions st)" "g a ''s3:CreateBucket''"
      by (auto simp: statement_permits_def on_def list_ex_iff)
    have "list_all plain (concat (map is_actions (buildOperatorPolicy [] [])))" by code_simp
    moreover from st a(1) have "a \<in> set (concat (map is_actions (buildOperatorPolicy [] [])))" by (rule operator_action)
    ultimately have "a = ''s3:CreateBucket''" using glob_plain [OF assms(1)] a(2) by (auto simp: list_all_iff)
    with a(1) st have "is_resources st = [''arn:aws:s3:::'' @ stateBucketName acct region]"
      using operator_bucket [of acct region] by (auto simp: list_all_iff)
    with p have "g (''arn:aws:s3:::'' @ stateBucketName acct region) (''arn:aws:s3:::'' @ backupsBucketName acct region)"
      by (simp add: statement_permits_def on_def)
    moreover have "plain (''arn:aws:s3:::'' @ stateBucketName acct region)"
      using plain_idD [OF plain_buckets(1) [OF assms(2,3)]] by simp
    ultimately show False using glob_plain [OF assms(1)] buckets_apart [of acct region] by auto
  qed
  then show "\<not> permits g (buildOperatorPolicy acct region) (on ''s3:CreateBucket'' (''arn:aws:s3:::'' @ backupsBucketName acct region))"
    unfolding permits_def list_ex_iff by blast
qed

section \<open>Examples\<close>

lemma build_role_reads_contexts_only_witness:
  "permits glob_match (buildCodeBuildServicePolicy (stateBucketName ''1'' ''eu'') ''eu'' ''1'' ''prod'' ''b'')
     (s3_object ''s3:GetObject'' (stateBucketName ''1'' ''eu'') (key_of (BuildDoc ''prod'' ''shop'' ''api'' ''t1'')))
   \<and> \<not> permits glob_match (buildCodeBuildServicePolicy (stateBucketName ''1'' ''eu'') ''eu'' ''1'' ''prod'' ''b'')
     (s3_object ''s3:GetObject'' (stateBucketName ''1'' ''eu'') (key_of (DesiredDoc ''prod'' ''a'')))"
proof -
  have h: "plain_id ''eu''" "plain_id ''1''" "plain_id ''prod''" by (simp_all add: plain_id_def)
  have k: "wf_key (BuildDoc ''prod'' ''shop'' ''api'' ''t1'')" "wf_key (DesiredDoc ''prod'' ''a'')" by simp_all
  show ?thesis
    using build_role_reads_contexts_only [OF glob_match_documented h k(1), of "''s3:GetObject''" "''b''"]
      build_role_reads_contexts_only [OF glob_match_documented h k(2), of "''s3:GetObject''" "''b''"] by simp
qed

lemma deploy_role_confined_witness:
  "\<not> permits glob_match (buildProjectDeployPolicy ''1'' ''eu'' ''prod'' ''shop'')
     (s3_object ''s3:PutObject'' (stateBucketName ''1'' ''eu'') (key_of (DesiredDoc ''staging'' ''a'')))
   \<and> permits glob_match (buildProjectDeployPolicy ''1'' ''eu'' ''prod'' ''shop'')
     (s3_object ''s3:PutObject'' (stateBucketName ''1'' ''eu'') (key_of (DesiredDoc ''prod'' ''a'')))"
proof -
  have h: "plain_id ''eu''" "plain_id ''1''" "plain_id ''prod''" "plain_id ''shop''" "''prod'' \<noteq> DEFAULT_CLUSTER"
    by (simp_all add: plain_id_def DEFAULT_CLUSTER_def)
  have put: "''s3:PutObject'' \<in> {''s3:GetObject'', ''s3:PutObject'', ''s3:DeleteObject''}" by simp
  note T = bspec [OF conjunct1 [OF deploy_role_confined [OF glob_match_documented h]] put, rule_format]
  have k: "wf_key (DesiredDoc ''staging'' ''a'')" "wf_key (DesiredDoc ''prod'' ''a'')" by simp_all
  show ?thesis using T [OF k(1)] T [OF k(2)] by simp
qed

lemma github_trust_exact_witness:
  "trusts glob_match (buildOidcTrustPolicy ''1'' (githubSubject ''acme'' ''shop'' (Some ''main''))) ''sts.amazonaws.com''
     ''repo:acme/shop:ref:refs/heads/main''
   \<and> \<not> trusts glob_match (buildOidcTrustPolicy ''1'' (githubSubject ''acme'' ''shop'' (Some ''main''))) ''sts.amazonaws.com''
     ''repo:acme/shop:ref:refs/heads/dev''"
proof -
  have p: "parseRepo ''acme/shop'' = Inr (''acme'', ''shop'')" by code_simp
  have b: "validateBranch ''main'' = Inr ''main''" by code_simp
  note T = conjunct1 [OF github_trust_exact [OF glob_match_documented p], rule_format, OF b]
  show ?thesis unfolding T by simp
qed

end
