(* ===== verification/Node_Lifecycle.thy ===== *)
theory Node_Lifecycle
  imports Node_Destroy Provision
begin

text \<open>
  The life of a node after its creation (\<open>packages/cli/src/commands/node/index.ts\<close>): pause, resume, the resize with
  its evacuation (\<open>resize-evacuate.ts\<close>), and \<open>node reconcile\<close>, which repairs drift between the registry and EC2
  and marks external nodes ready. The operations on instances are those of Provision.
\<close>

section \<open>Errors and the world\<close>

datatype lifecycle_error =
    BadNodeName string
  | NoSuchNode string
  | NodeDocBad string
  | ExternalNode string
  | NothingToPause string
  | PauseFailed
  | NodeOpFailed node_op_error
  | TypeRequired
  | SameType string
  | CapacityUnknown string
  | OtherArchitecture
  | TooSmall int int
  | ResizeNoConfig
  | ResizeBadConfig
  | ResizeBadEnv string
  | PausedNode string
  | PinnedHere "scheduled_service list"
  | ResizeAborted
  | DrainFailed rebalance_run_error
  | DrainTimeoutBad string
  | ResizeFailedAfterDrain node_op_error
  | BackFailed rebalance_run_error
  | DescribeFailed
  | ReconcileBlocked "(string \<times> blocked_reason) list"
  | ReconcileAborted
  | NoImage

text \<open>The cloud's answers, the clocks and the two rebalances of a resize are parameters.\<close>

record lifecycle_world =
  lw_drain :: rebalance_world
  lw_back :: rebalance_world
  lw_config :: "launch_pad_config option option"
  lw_confirm :: bool
  lw_stopOk :: bool
  lw_retypeOk :: bool
  lw_describe :: "(string \<Rightarrow> ec2_observation option) option"
  lw_startInstance :: "string \<Rightarrow> network option"
  lw_launch :: "string \<Rightarrow> launch_env"
  lw_imageOk :: bool
  lw_typeCapacity :: "string \<Rightarrow> instance_capacity option"
  lw_agentVersion :: string
  lw_dateParse :: "string \<Rightarrow> int option"
  lw_nowMs :: int
  lw_drainStart :: int
  lw_drainClock :: "nat \<Rightarrow> int"
  lw_drainStatus :: "nat \<Rightarrow> document option"
  lw_meanwhile :: "state_bucket \<Rightarrow> state_bucket"

abbreviation lw_cluster :: "lifecycle_world \<Rightarrow> string" where
  "lw_cluster w \<equiv> aws_clusterId (bw_aws (lw_drain w))"

type_synonym 'a lifecycle = "(state_bucket \<times> ec2_effect list) \<times> (lifecycle_error + 'a)"

section \<open>Pause and resume\<close>

definition loadNode :: "string \<Rightarrow> string \<Rightarrow> state_bucket \<Rightarrow> lifecycle_error + node_entry" where
  "loadNode c n s =
     (case getJson s (nodeRegistryKey c n) of
        None \<Rightarrow> Inl (NoSuchNode n)
      | Some (raw, _) \<Rightarrow> (case parseNodeRegistryEntry raw of None \<Rightarrow> Inl (NodeDocBad n) | Some e \<Rightarrow> Inr e))"

definition assertNotExternal :: "node_entry \<Rightarrow> lifecycle_error + unit" where
  "assertNotExternal e = (if ne_provisioning e = External then Inl (ExternalNode (ne_nodeId e)) else Inr ())"

definition load_managed :: "lifecycle_world \<Rightarrow> string \<Rightarrow> state_bucket \<Rightarrow> lifecycle_error + node_entry" where
  "load_managed w n s =
     (if nodeIdError n \<noteq> None then Inl (BadNodeName n)
      else res_bind (loadNode (lw_cluster w) n s) (\<lambda>e. res_bind (assertNotExternal e) (\<lambda>_. Inr e)))"

text \<open>The entry is read before the instance stops and written back whole afterwards.\<close>

definition runPause :: "lifecycle_world \<Rightarrow> string \<Rightarrow> state_bucket \<Rightarrow> unit lifecycle" where
  "runPause w n s =
     (case load_managed w n s of
        Inl e \<Rightarrow> ((s, []), Inl e)
      | Inr e \<Rightarrow>
          (if \<not> truthy (ne_instanceId e) then ((s, []), Inl (NothingToPause n))
           else let i = the (ne_instanceId e)
                in if \<not> lw_stopOk w then ((s, [Stop i]), Inl PauseFailed)
                   else (((lw_meanwhile w s)(nodeRegistryKey (ne_clusterId e) n \<mapsto> NodeJson (e\<lparr>ne_state := Stopped\<rparr>)), [Stop i]), Inr ())))"

definition lift_op :: "(node_op_error \<Rightarrow> lifecycle_error) \<Rightarrow> 'a node_op \<Rightarrow> 'a lifecycle" where
  "lift_op f r = (fst r, case snd r of Inl e \<Rightarrow> Inl (f e) | Inr x \<Rightarrow> Inr x)"

definition runResume :: "lifecycle_world \<Rightarrow> string \<Rightarrow> state_bucket \<Rightarrow> node_entry lifecycle" where
  "runResume w n s =
     (case load_managed w n s of
        Inl e \<Rightarrow> ((s, []), Inl e)
      | Inr e \<Rightarrow>
          (if \<not> truthy (ne_instanceId e) then ((s, []), Inl (NothingToPause n))
           else lift_op NodeOpFailed (resumeNode (lw_startInstance w) e (lw_meanwhile w s))))"

section \<open>Resize\<close>

record resize_options =
  zo_instanceType :: "string option"
  zo_yes :: bool
  zo_dryRun :: bool
  zo_evacuate :: bool
  zo_env :: "string option"
  zo_timeout :: "string option"

datatype resize_plan =
    RefuseStopped
  | RefusePinned "scheduled_service list"
  | ResizeOnly "scheduled_service list"
  | DrainFirst "scheduled_service list"

definition planResizeEvacuation :: "node_state \<Rightarrow> scheduled_service list \<Rightarrow> string \<Rightarrow> string set \<Rightarrow> resize_plan" where
  "planResizeEvacuation state services owner names =
     (if state = Stopped then RefuseStopped
      else let unmovable = filter (\<lambda>x. \<not> movable owner names x) services
           in if \<not> list_ex (movable owner names) services then ResizeOnly unmovable
              else let pinned = filter (\<lambda>x. sv_project x = owner) unmovable
                   in if pinned \<noteq> [] then RefusePinned pinned else DrainFirst unmovable)"

definition demand_of :: "service_config \<Rightarrow> capacity_demand" where
  "demand_of x =
     (let surge = min (ro_maxSurge (sc_rollout x)) (sc_replicas x)
      in \<lparr>cd_project = sc_project x, cd_service = sc_service x, cd_cpu = sc_cpu x * sc_replicas x, cd_memory = sc_memory x * sc_replicas x,
          cd_surgeCpu = Some (sc_cpu x * surge), cd_surgeMemory = Some (sc_memory x * surge)\<rparr>)"

definition scheduledDemands :: "string \<Rightarrow> string \<Rightarrow> state_bucket \<Rightarrow> capacity_demand list" where
  "scheduledDemands c n s = map demand_of (services_of (s (desiredKey c n)))"

definition resize_check :: "instance_capacity \<Rightarrow> node_entry \<Rightarrow> capacity_demand list \<Rightarrow> capacity_check_result" where
  "resize_check cap e demands =
     checkCapacity \<lparr>ci_totalCpu = ic_totalCpu cap, ci_totalMemory = ic_totalMemory cap, ci_reservedCpu = ne_reservedCpu e,
       ci_reservedMemory = ne_reservedMemory e, ci_services = demands\<rparr>"

definition resolveCapacity :: "lifecycle_world \<Rightarrow> string \<Rightarrow> instance_capacity option" where
  "resolveCapacity w ty = (case lookupInstanceCapacity ty of Some c \<Rightarrow> Some c | None \<Rightarrow> lw_typeCapacity w ty)"

definition assessResizeEvacuation ::
  "lifecycle_world \<Rightarrow> string \<Rightarrow> node_entry \<Rightarrow> resize_options \<Rightarrow> state_bucket \<Rightarrow> lifecycle_error + resize_plan \<times> launch_pad_config" where
  "assessResizeEvacuation w n e opts s =
     (case lw_config w of
        None \<Rightarrow> Inl ResizeNoConfig
      | Some loaded \<Rightarrow>
          if \<not> opt_all LABEL_REGEX (zo_env opts) then Inl (ResizeBadEnv (the (zo_env opts)))
          else (case loaded of
            None \<Rightarrow> Inl ResizeBadConfig
          | Some config \<Rightarrow>
              (let plan = planResizeEvacuation (ne_state e) (listScheduledServices (lw_cluster w) n s)
                     (footprintOwner (lc_project config) (lc_component config) (zo_env opts)) (movable_names config)
               in case plan of
                    RefuseStopped \<Rightarrow> Inl (PausedNode n)
                  | RefusePinned p \<Rightarrow> Inl (PinnedHere p)
                  | _ \<Rightarrow> Inr (plan, config))))"

text \<open>
  One poll of the wait for the drained node: no service of the footprint reports a running replica. Past the
  deadline the resize goes on without.
\<close>

definition node_drained_step :: "string \<Rightarrow> int \<Rightarrow> (nat \<Rightarrow> document option) \<Rightarrow> (nat \<Rightarrow> int) \<Rightarrow> nat \<Rightarrow> bool option" where
  "node_drained_step owner deadline obs clock i =
     (if (case Option.bind (obs i) parseNodeStatus of
            None \<Rightarrow> False
          | Some st \<Rightarrow> list_all (\<lambda>x. ss_runningReplicas x = 0) (filter (\<lambda>x. ss_project x = owner) (ns_services st)))
      then Some True
      else if deadline < clock i then Some False else None)"

definition waitForNodeDrained :: "lifecycle_world \<Rightarrow> string \<Rightarrow> int \<Rightarrow> bool option" where
  "waitForNodeDrained w owner timeoutMs =
     poll (node_drained_step owner (lw_drainStart w + timeoutMs) (lw_drainStatus w) (lw_drainClock w)) 0"

record resize_run =
  rz_entry :: node_entry
  rz_drained :: "bool option"

datatype resize_outcome = ResizePreview bool | Resized resize_run

definition drain_for_resize :: "string option \<Rightarrow> string option \<Rightarrow> int option \<Rightarrow> rebalance_options" where
  "drain_for_resize env drain timeout =
     \<lparr>ro_env = env, ro_drain = drain, ro_drainNodes = None, ro_dryRun = False, ro_yes = True, ro_wait = True, ro_timeout = timeout\<rparr>"

definition timeout_of :: "string option \<Rightarrow> lifecycle_error + int option" where
  "timeout_of raw = (case parseEvacuateTimeout raw of Inr t \<Rightarrow> Inr t | Inl _ \<Rightarrow> Inl (DrainTimeoutBad (the raw)))"

definition resize_instance :: "lifecycle_world \<Rightarrow> string \<Rightarrow> instance_capacity \<Rightarrow> node_entry \<Rightarrow> state_bucket \<Rightarrow> node_entry node_op" where
  "resize_instance w ty cap e s =
     (case lw_describe w of
        None \<Rightarrow> ((s, []), Inl LaunchFailed)
      | Some observe \<Rightarrow> resizeNode observe (lw_stopOk w) (lw_retypeOk w) (lw_startInstance w) ty cap e s)"

text \<open>The resize with its evacuation: off the node, the wait for its agent, the instance, back.\<close>

definition resize_drained ::
  "lifecycle_world \<Rightarrow> string \<Rightarrow> resize_options \<Rightarrow> launch_pad_config \<Rightarrow> string \<Rightarrow> instance_capacity \<Rightarrow> state_bucket
   \<Rightarrow> resize_outcome lifecycle option" where
  "resize_drained w n opts config ty cap s =
     (let owner = footprintOwner (lc_project config) (lc_component config) (zo_env opts)
      in case timeout_of (zo_timeout opts) of
           Inl e \<Rightarrow> Some ((s, []), Inl e)
         | Inr timeout \<Rightarrow>
             (case runRebalance (lw_drain w) (drain_for_resize (zo_env opts) (Some n) timeout) config s of
                None \<Rightarrow> None
              | Some (s1, Inl e) \<Rightarrow> Some ((s1, []), Inl (DrainFailed e))
              | Some (s1, Inr _) \<Rightarrow>
                  (case waitForNodeDrained w owner (option_or timeout 300 * 1000) of
                     None \<Rightarrow> None
                   | Some clean \<Rightarrow>
                       (case loadNode (lw_cluster w) n (lw_meanwhile w s1) of
                          Inl e \<Rightarrow> Some ((lw_meanwhile w s1, []), Inl e)
                        | Inr fresh \<Rightarrow>
                            (case resize_instance w ty cap fresh (lw_meanwhile w s1) of
                               ((s2, fx), Inl e) \<Rightarrow> Some ((s2, fx), Inl (ResizeFailedAfterDrain e))
                             | ((s2, fx), Inr e') \<Rightarrow>
                                 map_option (\<lambda>(s3, r). ((s3, fx), case r of
                                     Inl e \<Rightarrow> Inl (BackFailed e)
                                   | Inr _ \<Rightarrow> Inr (Resized \<lparr>rz_entry = e', rz_drained = Some clean\<rparr>)))
                                   (runRebalance (lw_back w) (drain_for_resize (zo_env opts) None timeout) config s2))))))"

definition resize_checks ::
  "lifecycle_world \<Rightarrow> string \<Rightarrow> resize_options \<Rightarrow> state_bucket \<Rightarrow> lifecycle_error + (string \<times> instance_capacity \<times> node_entry)" where
  "resize_checks w n opts s =
     (if nodeIdError n \<noteq> None then Inl (BadNodeName n)
      else if \<not> truthy (zo_instanceType opts) then Inl TypeRequired
      else res_bind (load_managed w n s) (\<lambda>e.
        let ty = the (zo_instanceType opts)
        in if \<not> truthy (ne_instanceId e) then Inl (NothingToPause n)
           else if ne_instanceType e = ty then Inl (SameType ty)
           else case resolveCapacity w ty of
             None \<Rightarrow> Inl (CapacityUnknown ty)
           | Some cap \<Rightarrow>
               (if ne_architecture e \<noteq> ic_architecture cap then Inl OtherArchitecture
                else let check = resize_check cap e (scheduledDemands (lw_cluster w) n s)
                     in if \<not> cr_ok check then Inl (TooSmall (cr_cpuOverBy check) (cr_memoryOverBy check))
                        else Inr (ty, cap, e))))"

definition runResize :: "lifecycle_world \<Rightarrow> string \<Rightarrow> resize_options \<Rightarrow> state_bucket \<Rightarrow> resize_outcome lifecycle option" where
  "runResize w n opts s =
     (case resize_checks w n opts s of
        Inl e \<Rightarrow> Some ((s, []), Inl e)
      | Inr (ty, cap, e) \<Rightarrow>
          (case (if zo_evacuate opts then map_sum id Some (assessResizeEvacuation w n e opts s) else Inr None) of
             Inl x \<Rightarrow> Some ((s, []), Inl x)
           | Inr evac \<Rightarrow>
               (let draining = (case evac of Some (DrainFirst _, _) \<Rightarrow> True | _ \<Rightarrow> False)
                in if zo_dryRun opts then Some ((s, []), Inr (ResizePreview draining))
                   else if \<not> zo_yes opts \<and> \<not> lw_confirm w then Some ((s, []), Inl ResizeAborted)
                   else if draining then resize_drained w n opts (snd (the evac)) ty cap s
                   else Some (lift_op NodeOpFailed
                     (case resize_instance w ty cap e s of (st, r) \<Rightarrow>
                        (st, map_sum id (\<lambda>e'. Resized \<lparr>rz_entry = e', rz_drained = None\<rparr>) r))))))"

section \<open>Reconcile\<close>

datatype heartbeat = HbLive | HbStale | HbMissing

datatype external_action = ExtNoop | MarkReady | OperatorAction

definition assessExternalReconcile ::
  "(string \<Rightarrow> int option) \<Rightarrow> node_entry \<Rightarrow> string option \<Rightarrow> int \<Rightarrow> heartbeat \<times> external_action" where
  "assessExternalReconcile date_parse e lastSeen nowMs =
     (let hb = (case lastSeen of
            None \<Rightarrow> HbMissing
          | Some seen \<Rightarrow> if isHeartbeatStale date_parse seen nowMs HEARTBEAT_STALE_MS then HbStale else HbLive)
      in (hb,
          if ne_provisioning e \<noteq> External then ExtNoop
          else if hb = HbLive then (if ne_state e = Provisioning then MarkReady else ExtNoop)
          else if ne_state e = Ready \<or> ne_state e = Provisioning then OperatorAction else ExtNoop))"

text \<open>The entries: one named node, which must exist, or every listed one that reads.\<close>

definition reconcile_entries :: "lifecycle_world \<Rightarrow> string option \<Rightarrow> state_bucket \<Rightarrow> lifecycle_error + node_entry list" where
  "reconcile_entries w name s =
     (case name of
        Some n \<Rightarrow>
          (if nodeIdError n \<noteq> None then Inl (BadNodeName n)
           else case s (nodeRegistryKey (lw_cluster w) n) of
             None \<Rightarrow> Inl (NoSuchNode n)
           | Some raw \<Rightarrow> Inr (case parseNodeRegistryEntry raw of None \<Rightarrow> [] | Some e \<Rightarrow> [e]))
      | None \<Rightarrow> Inr (List.map_filter (\<lambda>n. Option.bind (s (nodeRegistryKey (lw_cluster w) n)) parseNodeRegistryEntry)
                  (bw_ids (lw_drain w) s)))"

definition last_seen :: "string \<Rightarrow> state_bucket \<Rightarrow> node_entry \<Rightarrow> string option" where
  "last_seen c s e = map_option ns_lastSeen (Option.bind (s (statusKey c (ne_nodeId e))) parseNodeStatus)"

record reconcile_plan =
  rcp_repairs :: "(node_entry \<times> drift_action) list"
  rcp_ready :: "node_entry list"
  rcp_operator :: "node_entry list"

definition drift_of :: "(string \<Rightarrow> ec2_observation option) \<Rightarrow> bool \<Rightarrow> node_entry \<Rightarrow> drift_class \<times> drift_action" where
  "drift_of observe allowRecreate e =
     planNodeDrift (ne_state e) (option_or (observe (the (ne_instanceId e))) OMissing) allowRecreate"

definition reconcile_plan_of ::
  "lifecycle_world \<Rightarrow> (string \<Rightarrow> ec2_observation option) \<Rightarrow> bool \<Rightarrow> node_entry list \<Rightarrow> state_bucket \<Rightarrow> reconcile_plan" where
  "reconcile_plan_of w observe allowRecreate entries s =
     (let external = filter (\<lambda>e. ne_provisioning e = External) entries;
          act = (\<lambda>e. snd (assessExternalReconcile (lw_dateParse w) e (last_seen (lw_cluster w) s e) (lw_nowMs w)))
      in \<lparr>rcp_repairs = filter (\<lambda>x. snd x \<noteq> Noop)
            (map (\<lambda>e. (e, snd (drift_of observe allowRecreate e))) (filter (\<lambda>e. truthy (ne_instanceId e)) entries)),
          rcp_ready = filter (\<lambda>e. act e = MarkReady) external,
          rcp_operator = filter (\<lambda>e. act e = OperatorAction) external\<rparr>)"

definition mark_ready :: "string \<Rightarrow> node_entry \<Rightarrow> state_bucket \<Rightarrow> state_bucket" where
  "mark_ready c e s = s(nodeRegistryKey c (ne_nodeId e) \<mapsto> NodeJson (e\<lparr>ne_state := Ready\<rparr>))"

fun apply_repairs ::
  "lifecycle_world \<Rightarrow> (node_entry \<times> drift_action) list \<Rightarrow> state_bucket \<Rightarrow> unit lifecycle" where
  "apply_repairs w [] s = ((s, []), Inr ())"
| "apply_repairs w ((e, a) # rs) s =
     (case applyNodeDrift (lw_startInstance w) (lw_launch w (ne_nodeId e)) (lw_agentVersion w) (lw_cluster w) e a s of
        ((s1, fx), Inl err) \<Rightarrow> ((s1, fx), Inl (NodeOpFailed err))
      | ((s1, fx), Inr _) \<Rightarrow>
          (case apply_repairs w rs s1 of ((s2, fx2), r) \<Rightarrow> ((s2, fx @ fx2), r)))"

datatype reconcile_outcome = InSync | ReconcilePreview nat | Reconciled "string list"

definition boots_instance :: "drift_action \<Rightarrow> bool" where
  "boots_instance a \<longleftrightarrow> (case a of Resume \<Rightarrow> True | Recreate \<Rightarrow> True | _ \<Rightarrow> False)"

definition blocked_nodes :: "(node_entry \<times> drift_action) list \<Rightarrow> (string \<times> blocked_reason) list" where
  "blocked_nodes rs = List.map_filter (\<lambda>(e, a). case a of Blocked r \<Rightarrow> Some (ne_nodeId e, r) | _ \<Rightarrow> None) rs"

text \<open>Edges before apps.\<close>

definition repair_order :: "(node_entry \<times> drift_action) list \<Rightarrow> (node_entry \<times> drift_action) list" where
  "repair_order rs = sort_key (\<lambda>x. if ne_role (fst x) = RoleApp then 1 else (0::nat)) rs"

definition runReconcile ::
  "lifecycle_world \<Rightarrow> string option \<Rightarrow> bool \<Rightarrow> bool \<Rightarrow> bool \<Rightarrow> state_bucket \<Rightarrow> reconcile_outcome lifecycle" where
  "runReconcile w name yes dryRun allowRecreate s =
     (case reconcile_entries w name s of
        Inl e \<Rightarrow> ((s, []), Inl e)
      | Inr entries \<Rightarrow>
          (case lw_describe w of
             None \<Rightarrow> ((s, []), Inl DescribeFailed)
           | Some observe \<Rightarrow>
               (let p = reconcile_plan_of w observe allowRecreate entries s; repairs = rcp_repairs p; ready = rcp_ready p
                in if blocked_nodes repairs \<noteq> [] then ((s, []), Inl (ReconcileBlocked (blocked_nodes repairs)))
                   else if repairs = [] \<and> ready = [] then ((s, []), Inr InSync)
                   else if dryRun then ((s, []), Inr (ReconcilePreview (length repairs + length ready)))
                   else if list_ex (\<lambda>x. boots_instance (snd x)) repairs \<and> \<not> yes \<and> \<not> lw_confirm w then ((s, []), Inl ReconcileAborted)
                   else if list_ex (\<lambda>x. snd x = Recreate) repairs \<and> \<not> lw_imageOk w then ((s, []), Inl NoImage)
                   else (case apply_repairs w (repair_order repairs) (fold (mark_ready (lw_cluster w)) ready (lw_meanwhile w s)) of
                     (st, Inl e) \<Rightarrow> (st, Inl e)
                   | (st, Inr _) \<Rightarrow> (st, Inr (Reconciled (map ne_nodeId ready @ map (ne_nodeId \<circ> fst) (repair_order repairs))))))))"

section \<open>The waits return\<close>

interpretation node_drain: deadline_loop "node_drained_step owner deadline obs clock" deadline clock
  for owner deadline obs clock
  by unfold_locales (auto simp: node_drained_step_def)

lemma node_drain_returns:
  assumes "\<And>i. lw_drainClock w i + 3000 \<le> lw_drainClock w (Suc i)" "lw_drainStart w \<le> lw_drainClock w 0" "0 \<le> timeoutMs"
  shows "\<exists>r. waitForNodeDrained w owner timeoutMs = Some r"
proof -
  have "(0::int) < 3000" "lw_drainStart w \<le> lw_drainStart w + timeoutMs" using assms(3) by simp_all
  from node_drain.returns [OF assms(1) this(1) assms(2) this(2)] show ?thesis
    unfolding waitForNodeDrained_def by blast
qed

section \<open>A resize stops the machine only when it may\<close>

lemma load_managed_Inr:
  "load_managed w n s = Inr e \<Longrightarrow> NODE_ID_REGEX n \<and> ne_provisioning e \<noteq> External
     \<and> (\<exists>raw. s (nodeRegistryKey (lw_cluster w) n) = Some raw \<and> parseNodeRegistryEntry raw = Some e)"
  by (auto simp: load_managed_def loadNode_def assertNotExternal_def getJson_def nodeIdError_def res_bind_eq_Inr
      split: if_splits option.splits)

lemma resize_checks_Inr:
  assumes "resize_checks w n opts s = Inr (ty, cap, e)"
  shows "zo_instanceType opts = Some ty" "resolveCapacity w ty = Some cap" "load_managed w n s = Inr e" "ne_instanceType e \<noteq> ty"
    "ne_architecture e = ic_architecture cap" "cr_ok (resize_check cap e (scheduledDemands (lw_cluster w) n s))"
  using assms
  by (auto simp: resize_checks_def res_bind_eq_Inr Let_def truthy_def split: if_splits option.splits)

text \<open>The conditions of a resize, read from the state \<open>s\<close> before anything was done.\<close>

definition resize_allowed :: "lifecycle_world \<Rightarrow> string \<Rightarrow> resize_options \<Rightarrow> state_bucket \<Rightarrow> node_entry \<Rightarrow> bool" where
  "resize_allowed w n opts s e \<longleftrightarrow>
     (\<exists>ty cap. zo_instanceType opts = Some ty \<and> resolveCapacity w ty = Some cap \<and> ne_architecture e = ic_architecture cap
        \<and> cr_ok (resize_check cap e (scheduledDemands (lw_cluster w) n s)))
     \<and> load_managed w n s = Inr e \<and> \<not> zo_dryRun opts \<and> (zo_yes opts \<or> lw_confirm w)"

text \<open>With an evacuation: nothing of the footprint could move, or all of it could and the rebalance moved it.\<close>

definition evacuated_for_resize :: "lifecycle_world \<Rightarrow> string \<Rightarrow> resize_options \<Rightarrow> state_bucket \<Rightarrow> node_entry \<Rightarrow> bool" where
  "evacuated_for_resize w n opts s e \<longleftrightarrow>
     (\<exists>config. lw_config w = Some (Some config) \<and> ne_state e \<noteq> Stopped
        \<and> (let owner = footprintOwner (lc_project config) (lc_component config) (zo_env opts); names = movable_names config;
               here = listScheduledServices (lw_cluster w) n s
           in list_all (\<lambda>x. \<not> movable owner names x) here
            \<or> filter (\<lambda>x. sv_project x = owner \<and> sv_service x \<notin> names) here = []
              \<and> (\<exists>timeout s1 out. runRebalance (lw_drain w) (drain_for_resize (zo_env opts) (Some n) timeout) config s = Some (s1, Inr out)
                   \<and> out \<noteq> RebalancePreview)))"

lemma assess_resize_Inr:
  assumes "assessResizeEvacuation w n e opts s = Inr (plan, config)"
  shows "lw_config w = Some (Some config)"
    "plan = planResizeEvacuation (ne_state e) (listScheduledServices (lw_cluster w) n s)
       (footprintOwner (lc_project config) (lc_component config) (zo_env opts)) (movable_names config)"
    "plan \<noteq> RefuseStopped" "\<And>p. plan \<noteq> RefusePinned p"
  using assms by (auto simp: assessResizeEvacuation_def Let_def split: option.splits if_splits resize_plan.splits)

lemma plan_resize_cases:
  assumes "planResizeEvacuation state services owner names = plan" "plan \<noteq> RefuseStopped" "\<And>p. plan \<noteq> RefusePinned p"
  shows "state \<noteq> Stopped"
    and "(\<exists>l. plan = ResizeOnly l) \<and> list_all (\<lambda>x. \<not> movable owner names x) services
       \<or> (\<exists>l. plan = DrainFirst l) \<and> filter (\<lambda>x. sv_project x = owner \<and> sv_service x \<notin> names) services = []"
  using assms unfolding planResizeEvacuation_def Let_def
  by (auto simp: list_ex_iff list_all_iff filter_empty_conv movable_def split: if_splits)

text \<open>A drain leaves nothing of the footprint behind.\<close>

lemma drain_leaves_others:
  assumes "planResizeEvacuation state services owner names = DrainFirst rides"
  shows "rides = filter (\<lambda>x. sv_project x \<noteq> owner) services"
proof -
  have rides: "rides = filter (\<lambda>x. \<not> movable owner names x) services" "filter (\<lambda>x. sv_project x = owner) rides = []"
    using assms by (auto simp: planResizeEvacuation_def Let_def split: if_splits)
  then have "sv_project x \<noteq> owner" if "x \<in> set rides" for x using that by (auto simp: filter_empty_conv)
  then show ?thesis unfolding rides(1) by (intro filter_cong) (auto simp: movable_def)
qed

lemma not_Inl_unit: "\<forall>x. z \<noteq> Inl x \<Longrightarrow> z = Inr ()"
  by (cases z) simp_all

lemma rebalance_no_preview:
  "runRebalance w opts config s = Some (s', Inr out) \<Longrightarrow> \<not> ro_dryRun opts \<Longrightarrow> out \<noteq> RebalancePreview"
  unfolding runRebalance_def Let_def
  by (auto dest!: not_Inl_unit split: if_splits sum.splits prod.splits)

lemma resize_drained_fx:
  assumes "resize_drained w n opts config ty cap s = Some ((s', fx), r)" "fx \<noteq> []"
  shows "\<exists>timeout s1 out. runRebalance (lw_drain w) (drain_for_resize (zo_env opts) (Some n) timeout) config s = Some (s1, Inr out)
    \<and> out \<noteq> RebalancePreview"
proof -
  obtain timeout where t: "timeout_of (zo_timeout opts) = Inr timeout"
    using assms by (cases "timeout_of (zo_timeout opts)") (auto simp: resize_drained_def Let_def)
  let ?run = "runRebalance (lw_drain w) (drain_for_resize (zo_env opts) (Some n) timeout) config s"
  obtain s1 x where x: "?run = Some (s1, x)" using assms t by (cases ?run) (auto simp: resize_drained_def Let_def)
  obtain out where out: "x = Inr out" using assms t x by (cases x) (auto simp: resize_drained_def Let_def)
  have "out \<noteq> RebalancePreview" using rebalance_no_preview [OF x [unfolded out]] by (simp add: drain_for_resize_def)
  with x out show ?thesis by blast
qed

lemma resize_guard:
  assumes "runResize w n opts s = Some ((s', fx), r)" "fx \<noteq> []"
  shows "\<exists>e. resize_allowed w n opts s e \<and> (if zo_evacuate opts then evacuated_for_resize w n opts s e else True)"
proof -
  obtain ty cap e where c: "resize_checks w n opts s = Inr (ty, cap, e)"
    using assms by (cases "resize_checks w n opts s") (auto simp: runResize_def)
  let ?evac = "if zo_evacuate opts then map_sum id Some (assessResizeEvacuation w n e opts s) else Inr None"
  obtain evac where evac: "?evac = Inr evac"
    using assms c by (cases ?evac) (auto simp: runResize_def)
  have run: "\<not> zo_dryRun opts" "zo_yes opts \<or> lw_confirm w"
    "(case evac of Some (DrainFirst _, _) \<Rightarrow> True | _ \<Rightarrow> False) \<Longrightarrow> resize_drained w n opts (snd (the evac)) ty cap s = Some ((s', fx), r)"
    using assms unfolding runResize_def c by (simp_all add: evac Let_def split: if_splits)
  have "resize_allowed w n opts s e"
    using resize_checks_Inr [OF c] run unfolding resize_allowed_def by blast
  moreover have "evacuated_for_resize w n opts s e" if ev: "zo_evacuate opts"
  proof -
    obtain plan config where a: "assessResizeEvacuation w n e opts s = Inr (plan, config)" "evac = Some (plan, config)"
      using evac ev by (cases "assessResizeEvacuation w n e opts s") auto
    note A = assess_resize_Inr [OF a(1)]
    note P = plan_resize_cases [OF A(2) [symmetric] A(3,4)]
    show ?thesis
      using A(1) P resize_drained_fx [OF _ assms(2)] run(3) a(2) unfolding evacuated_for_resize_def Let_def by auto
  qed
  ultimately show ?thesis by auto
qed


section \<open>What a reconcile leaves\<close>

text \<open>The entry under a node's key is the entry of that node in that cluster.\<close>

definition coherent :: "string \<Rightarrow> state_bucket \<Rightarrow> bool" where
  "coherent c s \<longleftrightarrow>
     (\<forall>n raw e. s (nodeRegistryKey c n) = Some raw \<longrightarrow> parseNodeRegistryEntry raw = Some e \<longrightarrow> ne_nodeId e = n \<and> ne_clusterId e = c)"

lemma registry_inj [simp]: "nodeRegistryKey c n = nodeRegistryKey c m \<longleftrightarrow> n = m"
  by (simp add: nodeRegistryKey_def nodePrefix_def)

lemma map_filter_ids:
  assumes "distinct ns" "\<And>n e. n \<in> set ns \<Longrightarrow> f n = Some e \<Longrightarrow> g e = n"
  shows "distinct (map g (List.map_filter f ns))"
  using assms
proof (induction ns)
  case (Cons n ns)
  have IH: "distinct (map g (List.map_filter f ns))" using Cons by simp
  show ?case
  proof (cases "f n")
    case (Some e)
    have "g e = n" using Cons.prems(2) [of n e] Some by simp
    moreover have "n \<notin> g ` set (List.map_filter f ns)"
      using Cons.prems by (auto simp: set_map_filter_Some)
    ultimately show ?thesis using IH Some by (simp add: List.map_filter_simps)
  qed (use IH in \<open>simp add: List.map_filter_simps\<close>)
qed (simp add: List.map_filter_simps)

lemma reconcile_entries_coherent:
  assumes "reconcile_entries w name s = Inr es" "coherent (lw_cluster w) s" "distinct (bw_ids (lw_drain w) s)"
  shows "distinct (map ne_nodeId es) \<and> (\<forall>e \<in> set es. ne_clusterId e = lw_cluster w)"
proof (cases name)
  case None
  let ?f = "\<lambda>n. Option.bind (s (nodeRegistryKey (lw_cluster w) n)) parseNodeRegistryEntry"
  have es: "es = List.map_filter ?f (bw_ids (lw_drain w) s)" using assms(1) None by (simp add: reconcile_entries_def)
  have f: "?f n = Some e \<Longrightarrow> ne_nodeId e = n \<and> ne_clusterId e = lw_cluster w" for n e
    using assms(2) by (auto simp: coherent_def bind_eq_Some_conv)
  have "distinct (map ne_nodeId es)" unfolding es by (rule map_filter_ids [OF assms(3)]) (use f in blast)
  moreover have "\<forall>e \<in> set es. ne_clusterId e = lw_cluster w" using f unfolding es by (auto simp: set_map_filter_Some)
  ultimately show ?thesis ..
next
  case (Some n)
  then show ?thesis using assms(1,2) by (auto simp: reconcile_entries_def coherent_def split: if_splits option.splits)
qed

lemma repaired_ready:
  assumes "applyNodeDrift start env version c e a s = ((s', fx), Inr e')" "a \<noteq> Noop" "ne_clusterId e = c"
  shows "s' = s(nodeRegistryKey c (ne_nodeId e) := Some (NodeJson e')) \<and> ne_state e' = Ready \<and> ne_nodeId e' = ne_nodeId e"
  using assms
  by (auto simp: applyNodeDrift_def put_entry_def putJson_def synced_entry_def resumeNode_def resumed_entry_def replaceInstance_def Let_def
      split: drift_action.splits option.splits if_splits)

lemma failed_repair: "applyNodeDrift start env version c e a s = ((s', fx), Inl x) \<Longrightarrow> s' = s"
  by (auto simp: applyNodeDrift_def resumeNode_def replaceInstance_def Let_def
      split: drift_action.splits option.splits if_splits)

lemma apply_repairs_effect:
  assumes "apply_repairs w rs s = ((s', fx), r)" "\<forall>x \<in> set rs. snd x \<noteq> Noop \<and> ne_clusterId (fst x) = lw_cluster w"
    "distinct (map (ne_nodeId \<circ> fst) rs)"
  shows "(\<forall>k. k \<notin> nodeRegistryKey (lw_cluster w) ` ne_nodeId ` fst ` set rs \<longrightarrow> s' k = s k)
    \<and> (case r of Inl x \<Rightarrow> \<exists>y. x = NodeOpFailed y
       | Inr _ \<Rightarrow> \<forall>x \<in> set rs. \<exists>e'. s' (nodeRegistryKey (lw_cluster w) (ne_nodeId (fst x))) = Some (NodeJson e')
           \<and> ne_nodeId e' = ne_nodeId (fst x) \<and> ne_state e' = Ready)"
  using assms
proof (induction rs arbitrary: s s' fx)
  case (Cons x rs)
  obtain e a where x: "x = (e, a)" by (cases x)
  let ?c = "lw_cluster w"
  obtain s1 fx1 r1 where one: "applyNodeDrift (lw_startInstance w) (lw_launch w (ne_nodeId e)) (lw_agentVersion w) ?c e a s = ((s1, fx1), r1)"
    by (metis prod.collapse)
  show ?case
  proof (cases r1)
    case (Inl err)
    with one Cons.prems(1) show ?thesis by (auto simp: x dest: failed_repair)
  next
    case (Inr e')
    have e': "s1 = s(nodeRegistryKey ?c (ne_nodeId e) := Some (NodeJson e'))" "ne_state e' = Ready" "ne_nodeId e' = ne_nodeId e"
      using repaired_ready [OF one [unfolded Inr]] Cons.prems(2) by (simp_all add: x)
    obtain s2 fx2 where rest: "apply_repairs w rs s1 = ((s2, fx2), r)" "s' = s2"
      using Cons.prems(1) one Inr by (auto simp: x split: prod.splits)
    have IH: "(\<forall>k. k \<notin> nodeRegistryKey ?c ` ne_nodeId ` fst ` set rs \<longrightarrow> s2 k = s1 k)
      \<and> (case r of Inl x \<Rightarrow> \<exists>y. x = NodeOpFailed y
         | Inr _ \<Rightarrow> \<forall>x \<in> set rs. \<exists>e'. s2 (nodeRegistryKey ?c (ne_nodeId (fst x))) = Some (NodeJson e')
             \<and> ne_nodeId e' = ne_nodeId (fst x) \<and> ne_state e' = Ready)"
      by (rule Cons.IH [OF rest(1)]) (use Cons.prems in \<open>simp_all add: x\<close>)
    have "nodeRegistryKey ?c (ne_nodeId e) \<notin> nodeRegistryKey ?c ` ne_nodeId ` fst ` set rs"
      using Cons.prems(3) by (auto simp: x image_iff)
    with IH have "s2 (nodeRegistryKey ?c (ne_nodeId e)) = Some (NodeJson e')" using e'(1) by simp
    with IH e' rest(2) show ?thesis by (cases r) (auto simp: x)
  qed
qed auto

lemma mark_ready_fold:
  "fold (mark_ready c) es s k =
     (if k \<in> nodeRegistryKey c ` ne_nodeId ` set es
      then Some (NodeJson ((last (filter (\<lambda>e. nodeRegistryKey c (ne_nodeId e) = k) es))\<lparr>ne_state := Ready\<rparr>)) else s k)"
proof (induction es rule: rev_induct)
  case (snoc e es)
  then show ?case by (auto simp: mark_ready_def)
qed simp

definition considered :: "lifecycle_world \<Rightarrow> string option \<Rightarrow> bool \<Rightarrow> state_bucket \<Rightarrow> reconcile_plan option" where
  "considered w name allow s =
     (case reconcile_entries w name s of
        Inl _ \<Rightarrow> None
      | Inr es \<Rightarrow> map_option (\<lambda>observe. reconcile_plan_of w observe allow es s) (lw_describe w))"

lemma reconcile_plan_entries:
  assumes "considered w name allow s = Some p" "coherent (lw_cluster w) s" "distinct (bw_ids (lw_drain w) s)"
  shows "\<forall>x \<in> set (rcp_repairs p). snd x \<noteq> Noop \<and> ne_clusterId (fst x) = lw_cluster w"
    and "distinct (map (ne_nodeId \<circ> fst) (rcp_repairs p))"
proof -
  obtain es observe where es: "reconcile_entries w name s = Inr es" and p: "p = reconcile_plan_of w observe allow es s"
    using assms(1) by (auto simp: considered_def split: sum.splits)
  note E = reconcile_entries_coherent [OF es assms(2,3)]
  show "\<forall>x \<in> set (rcp_repairs p). snd x \<noteq> Noop \<and> ne_clusterId (fst x) = lw_cluster w"
    using E by (auto simp: p reconcile_plan_of_def Let_def)
  have "distinct (map (ne_nodeId \<circ> fst) (map (\<lambda>e. (e, snd (drift_of observe allow e))) (filter (\<lambda>e. truthy (ne_instanceId e)) es)))"
    using E by (simp add: o_def distinct_map_filter_key)
  then show "distinct (map (ne_nodeId \<circ> fst) (rcp_repairs p))"
    unfolding p reconcile_plan_of_def Let_def reconcile_plan.select_convs by (rule distinct_map_filter_key)
qed

lemma marked_ready:
  assumes "n \<in> ne_nodeId ` set es"
  shows "\<exists>e. fold (mark_ready c) es s (nodeRegistryKey c n) = Some (NodeJson e) \<and> ne_nodeId e = n \<and> ne_state e = Ready"
proof -
  let ?l = "filter (\<lambda>e. nodeRegistryKey c (ne_nodeId e) = nodeRegistryKey c n) es"
  have "?l \<noteq> []" using assms by (auto simp: filter_empty_conv)
  then have "last ?l \<in> set ?l" by (rule last_in_set)
  then have "ne_nodeId (last ?l) = n" by simp
  with assms show ?thesis by (auto simp: mark_ready_fold)
qed

text \<open>The outcomes of a reconcile.\<close>

definition reconciled_as :: "lifecycle_world \<Rightarrow> state_bucket \<Rightarrow> state_bucket \<Rightarrow> reconcile_plan \<Rightarrow> string list \<Rightarrow> bool" where
  "reconciled_as w s s' p ns \<longleftrightarrow>
     blocked_nodes (rcp_repairs p) = []
     \<and> set ns = ne_nodeId ` (set (rcp_ready p) \<union> fst ` set (rcp_repairs p))
     \<and> (\<forall>n \<in> set ns. \<exists>e. s' (nodeRegistryKey (lw_cluster w) n) = Some (NodeJson e) \<and> ne_nodeId e = n \<and> ne_state e = Ready)
     \<and> (\<forall>k. if k \<in> nodeRegistryKey (lw_cluster w) ` set ns then True else s' k = lw_meanwhile w s k)"

lemma repair_order_set: "set (repair_order rs) = set rs" "distinct (map f rs) \<Longrightarrow> distinct (map f (repair_order rs))"
  by (simp_all add: repair_order_def distinct_map_sort_key)

lemma repaired_as_planned:
  assumes p: "considered w name allow s = Some p" and ok: "coherent (lw_cluster w) s" "distinct (bw_ids (lw_drain w) s)"
    and run: "apply_repairs w (repair_order (rcp_repairs p)) (fold (mark_ready (lw_cluster w)) (rcp_ready p) (lw_meanwhile w s)) = ((s', fx), r)"
    and free: "blocked_nodes (rcp_repairs p) = []"
  shows "case r of
      Inl x \<Rightarrow> (\<exists>y. x = NodeOpFailed y) \<and> (\<forall>k. k \<notin> range (nodeRegistryKey (lw_cluster w)) \<longrightarrow> s' k = lw_meanwhile w s k)
    | Inr _ \<Rightarrow> reconciled_as w s s' p (map ne_nodeId (rcp_ready p) @ map (ne_nodeId \<circ> fst) (repair_order (rcp_repairs p)))"
proof -
  let ?c = "lw_cluster w" and ?rs = "repair_order (rcp_repairs p)" and ?s1 = "fold (mark_ready (lw_cluster w)) (rcp_ready p) (lw_meanwhile w s)"
  note P = reconcile_plan_entries [OF p ok]
  have A: "(\<forall>k. k \<notin> nodeRegistryKey ?c ` ne_nodeId ` fst ` set ?rs \<longrightarrow> s' k = ?s1 k)
    \<and> (case r of Inl x \<Rightarrow> \<exists>y. x = NodeOpFailed y
       | Inr _ \<Rightarrow> \<forall>x \<in> set ?rs. \<exists>e'. s' (nodeRegistryKey ?c (ne_nodeId (fst x))) = Some (NodeJson e')
           \<and> ne_nodeId e' = ne_nodeId (fst x) \<and> ne_state e' = Ready)"
    by (rule apply_repairs_effect [OF run]) (use P in \<open>simp_all add: repair_order_set\<close>)
  show ?thesis
  proof (cases r)
    case (Inl x)
    have "s' k = lw_meanwhile w s k" if "k \<notin> range (nodeRegistryKey ?c)" for k
    proof -
      have "k \<notin> nodeRegistryKey ?c ` ne_nodeId ` fst ` set ?rs" "k \<notin> nodeRegistryKey ?c ` ne_nodeId ` set (rcp_ready p)"
        using that by auto
      with A show ?thesis by (simp add: mark_ready_fold)
    qed
    with A Inl show ?thesis by simp
  next
    case (Inr u)
    let ?ns = "map ne_nodeId (rcp_ready p) @ map (ne_nodeId \<circ> fst) ?rs"
    have at: "\<exists>e. s' (nodeRegistryKey ?c n) = Some (NodeJson e) \<and> ne_nodeId e = n \<and> ne_state e = Ready" if n: "n \<in> set ?ns" for n
    proof (cases "n \<in> ne_nodeId ` fst ` set ?rs")
      case True
      then show ?thesis using A Inr by auto
    next
      case False
      then have "n \<in> ne_nodeId ` set (rcp_ready p)" using n by auto
      moreover have "nodeRegistryKey ?c n \<notin> nodeRegistryKey ?c ` ne_nodeId ` fst ` set ?rs" using False by (force simp: image_iff)
      then have "s' (nodeRegistryKey ?c n) = ?s1 (nodeRegistryKey ?c n)" using A by blast
      ultimately show ?thesis using marked_ready [of n "rcp_ready p" ?c "lw_meanwhile w s"] by simp
    qed
    have frame: "s' k = lw_meanwhile w s k" if "k \<notin> nodeRegistryKey ?c ` set ?ns" for k
    proof -
      have "k \<notin> nodeRegistryKey ?c ` ne_nodeId ` fst ` set ?rs" "k \<notin> nodeRegistryKey ?c ` ne_nodeId ` set (rcp_ready p)"
        using that by (auto simp: image_iff)
      with A show ?thesis by (simp add: mark_ready_fold)
    qed
    have "set ?ns = ne_nodeId ` (set (rcp_ready p) \<union> fst ` set (rcp_repairs p))"
      by (auto simp: repair_order_set image_iff)
    then have "reconciled_as w s s' p ?ns"
      unfolding reconciled_as_def if_bool_eq_conj using at frame free by blast
    then show ?thesis unfolding Inr sum.case .
  qed
qed

lemma reconcile_effect:
  assumes run: "runReconcile w name yes dry allow s = ((s', fx), r)"
    and ok: "coherent (lw_cluster w) s" "distinct (bw_ids (lw_drain w) s)"
  shows "case r of
      Inr (Reconciled ns) \<Rightarrow> \<exists>p. considered w name allow s = Some p \<and> \<not> dry \<and> reconciled_as w s s' p ns
    | Inl (NodeOpFailed _) \<Rightarrow> \<forall>k. if k \<in> range (nodeRegistryKey (lw_cluster w)) then True else s' k = lw_meanwhile w s k
    | _ \<Rightarrow> s' = s \<and> fx = []"
proof (cases "considered w name allow s")
  case None
  then show ?thesis using run
    by (auto simp: runReconcile_def considered_def reconcile_entries_def split: sum.splits option.splits if_splits)
next
  case (Some p)
  obtain es observe where es: "reconcile_entries w name s = Inr es" "lw_describe w = Some observe"
    and p: "p = reconcile_plan_of w observe allow es s"
    using Some by (auto simp: considered_def split: sum.splits)
  obtain st r1 where rep: "apply_repairs w (repair_order (rcp_repairs p)) (fold (mark_ready (lw_cluster w)) (rcp_ready p) (lw_meanwhile w s)) = (st, r1)"
    by fastforce
  obtain s1 fx1 where st: "st = (s1, fx1)" by (cases st)
  note R = repaired_as_planned [OF Some ok rep [unfolded st]]
  show ?thesis
  proof (cases r1)
    case (Inl x)
    then show ?thesis using run R Some unfolding runReconcile_def es sum.case option.case p [symmetric] Let_def rep st
      by (auto split: if_splits)
  next
    case (Inr u)
    then show ?thesis using run R Some unfolding runReconcile_def es sum.case option.case p [symmetric] Let_def rep st
      by (auto split: if_splits)
  qed
qed


section \<open>Examples\<close>

definition running_node :: node_entry where
  "running_node = example_small_node\<lparr>ne_instanceId := Some ''i-1''\<rparr>"

definition paused_bucket :: state_bucket where
  "paused_bucket = two_nodes(nodeRegistryKey ''default'' ''a'' \<mapsto> NodeJson (running_node\<lparr>ne_state := Stopped\<rparr>))"

definition resize_bucket :: state_bucket where
  "resize_bucket = two_nodes(nodeRegistryKey ''default'' ''a'' \<mapsto> NodeJson running_node)"

definition lifecycle_example :: "ec2_observation \<Rightarrow> lifecycle_world" where
  "lifecycle_example obs = \<lparr>lw_drain = moving_world, lw_back = moving_world, lw_config = Some (Some moving_config), lw_confirm = False,
     lw_stopOk = True, lw_retypeOk = True, lw_describe = Some (\<lambda>_. Some obs), lw_startInstance = (\<lambda>_. Some no_network),
     lw_launch = (\<lambda>_. \<lparr>le_instance = None, le_network = None, le_eip = None\<rparr>), lw_imageOk = True, lw_typeCapacity = (\<lambda>_. None),
     lw_agentVersion = ''1'', lw_dateParse = iso_parse, lw_nowMs = 0, lw_drainStart = 0, lw_drainClock = steady_clock,
     lw_drainStatus = (\<lambda>_. Some (StatusJson (quiet_status ''a'' ''t'' []))), lw_meanwhile = id\<rparr>"

definition resize_example :: "string \<Rightarrow> resize_options" where
  "resize_example ty = \<lparr>zo_instanceType = Some ty, zo_yes = True, zo_dryRun = False, zo_evacuate = True, zo_env = None, zo_timeout = None\<rparr>"

lemma lifecycle_runs:
  "(map_option (\<lambda>x. (snd (fst x), map_sum id (\<lambda>_. ()) (snd x)))
     (runResize (lifecycle_example (ORunning no_network)) ''a'' (resize_example ''t4g.medium'') resize_bucket)
   = Some ([Stop ''i-1'', Start ''i-1''], Inr ())) \<and>
   (drift_of (\<lambda>_. Some OStopped) False (running_node\<lparr>ne_state := Stopped\<rparr>) = (DriftNone, Resume)) \<and>
   (snd (runReconcile (lifecycle_example OStopped) None True False False paused_bucket) = Inr (Reconciled [''a'']))"
  by code_simp

lemma resize_runs:
  "map_option (\<lambda>x. (snd (fst x), map_sum id (\<lambda>_. ()) (snd x)))
     (runResize (lifecycle_example (ORunning no_network)) ''a'' (resize_example ''t4g.medium'') resize_bucket)
   = Some ([Stop ''i-1'', Start ''i-1''], Inr ())"
  by (rule conjunct1 [OF lifecycle_runs])

text \<open>A node paused on purpose: the plan calls it in sync and boots it.\<close>

lemma reconcile_resumes_paused:
  "drift_of (\<lambda>_. Some OStopped) False (running_node\<lparr>ne_state := Stopped\<rparr>) = (DriftNone, Resume)"
  "snd (runReconcile (lifecycle_example OStopped) None True False False paused_bucket) = Inr (Reconciled [''a''])"
  using lifecycle_runs by - (elim conjE, assumption)+


lemma paused_coherent: "coherent ''default'' paused_bucket"
proof -
  have "nodeRegistryKey ''default'' n \<noteq> desiredKey ''default'' ''a''" for n
    by (simp add: nodeRegistryKey_def desiredKey_def nodePrefix_def)
  then show ?thesis
    by (auto simp: coherent_def paused_bucket_def two_nodes_def running_node_def example_small_node_def parseNodeRegistryEntry_def
        split: if_splits)
qed


end
