(* ===== verification/Rollback.thy ===== *)
theory Rollback
  imports Deploy_Request Project_Registry
begin

text \<open>
  Going back and looking back: \<open>packages/cli/src/commands/rollback.ts\<close>, which ends in a deploy of an existing image, and
  \<open>packages/cli/src/commands/history.ts\<close>. The tags of a repository, the list of the nodes and of the event keys are
  parameters, as are the confirmation of the user and the mode of the output.
\<close>

section \<open>The image to go back to\<close>

datatype rollback_error =
    NoConfigFile
  | RollbackInvalidEnv string
  | ServiceRequired "string list"
  | NotInConfig string
  | EmptyTag
  | NotDeployed string string
  | CurrentUnparsable string
  | NothingOlder string
  | TagsNotListed
  | RollbackAborted
  | InvalidLimit string
  | EventsNotListed

record rollback_resolution =
  rr_fromTag :: string
  rr_toTag :: string
  rr_uri :: string
  rr_noop :: bool

definition rollback_to :: "parsed_image \<Rightarrow> string \<Rightarrow> rollback_resolution" where
  "rollback_to p target =
     \<lparr>rr_fromTag = pi_tag p, rr_toTag = target, rr_uri = pi_registry p @ ''/'' @ pi_repository p @ '':'' @ target,
      rr_noop = (target = pi_tag p)\<rparr>"

definition resolveRollback :: "string \<Rightarrow> pushed_tag list \<Rightarrow> string option \<Rightarrow> rollback_error + rollback_resolution" where
  "resolveRollback currentImage images toTag =
     (case parseEcrImageUri currentImage of
        None \<Rightarrow> Inl (CurrentUnparsable currentImage)
      | Some p \<Rightarrow>
          (case toTag of
             Some t \<Rightarrow> Inr (rollback_to p t)
           | None \<Rightarrow>
               (case findPreviousImageTag images (pi_tag p) of
                  None \<Rightarrow> Inl (NothingOlder (pi_repository p))
                | Some t \<Rightarrow> if t = [] then Inl (NothingOlder (pi_repository p)) else Inr (rollback_to p t))))"

section \<open>The command\<close>

record rollback_options =
  rl_service :: "string option"
  rl_env :: "string option"
  rl_to :: "string option"
  rl_yes :: bool
  rl_wait :: bool
  rl_timeout :: "string option"
  rl_dryRun :: bool

record rollback_world =
  rw_config :: "launch_pad_config option"
  rw_cluster :: string
  rw_nodes :: "string list"
  rw_tags :: "string \<Rightarrow> pushed_tag list option"
  rw_json :: bool
  rw_confirm :: bool

datatype rollback_outcome =
    AlreadyOnTag string string
  | WouldRoll string rollback_resolution
  | RollTo deploy_options

definition rollback_env :: "string option \<Rightarrow> rollback_error + unit" where
  "rollback_env env = (case env of Some e \<Rightarrow> if LABEL_REGEX e then Inr () else Inl (RollbackInvalidEnv e) | None \<Rightarrow> Inr ())"

text \<open>The service: the one named, or the only one.\<close>

definition rollback_service :: "string option \<Rightarrow> service_decl list \<Rightarrow> rollback_error + string" where
  "rollback_service given services =
     (let names = map sd_name services
      in if given = None \<or> given = Some []
         then (case services of [s] \<Rightarrow> Inr (sd_name s) | _ \<Rightarrow> Inl (ServiceRequired names))
         else if the given \<in> set names then Inr (the given) else Inl (NotInConfig (the given)))"

text \<open>The service as the first node that has it publishes it.\<close>

definition published_service :: "node_services list \<Rightarrow> string \<Rightarrow> string \<Rightarrow> service_config option" where
  "published_service states owner service =
     find (\<lambda>s. sc_project s = owner \<and> sc_service s = service) (concat (map snd states))"

definition rollback_deploy :: "rollback_options \<Rightarrow> string \<Rightarrow> string \<Rightarrow> deploy_options" where
  "rollback_deploy opts service uri =
     \<lparr>do_service = Some service, do_changed = None, do_env = rl_env opts, do_ttl = None, do_wait = rl_wait opts,
      do_yes = True, do_dryRun = False, do_create = False, do_repair = False, do_recreate = False,
      do_restart = False, do_image = Some uri, do_remoteBuild = False, do_allowNewServices = False,
      do_timeout = rl_timeout opts\<rparr>"

text \<open>The tags are asked for only when none is given.\<close>

definition rollback_tags :: "rollback_world \<Rightarrow> rollback_options \<Rightarrow> string \<Rightarrow> rollback_error + pushed_tag list" where
  "rollback_tags w opts repository =
     (if rl_to opts \<noteq> None then Inr []
      else case rw_tags w repository of None \<Rightarrow> Inl TagsNotListed | Some ts \<Rightarrow> Inr ts)"

definition rollback_end :: "rollback_world \<Rightarrow> rollback_options \<Rightarrow> string \<Rightarrow> rollback_resolution \<Rightarrow> rollback_error + rollback_outcome" where
  "rollback_end w opts service res =
     (if rr_noop res then Inr (AlreadyOnTag service (rr_toTag res))
      else if rl_dryRun opts then Inr (WouldRoll service res)
      else if \<not> rl_yes opts \<and> \<not> rw_json w \<and> \<not> rw_confirm w then Inl RollbackAborted
      else Inr (RollTo (rollback_deploy opts service (rr_uri res))))"

definition runRollback :: "rollback_world \<Rightarrow> rollback_options \<Rightarrow> state_bucket \<Rightarrow> rollback_error + rollback_outcome" where
  "runRollback w opts s =
     (case rw_config w of
        None \<Rightarrow> Inl NoConfigFile
      | Some config \<Rightarrow>
          res_bind (rollback_env (rl_env opts)) (\<lambda>_.
          res_bind (rollback_service (rl_service opts) (lc_service config)) (\<lambda>service.
            if rl_to opts = Some [] then Inl EmptyTag
            else let owner = footprintOwner (lc_project config) (lc_component config) (rl_env opts)
                 in case published_service (loadNodeDesiredStates (rw_cluster w) (rw_nodes w) s) owner service of
                      None \<Rightarrow> Inl (NotDeployed service owner)
                    | Some current \<Rightarrow>
                        res_bind (rollback_tags w opts (ecrRepositoryName (lc_project config) service)) (\<lambda>images.
                        res_bind (resolveRollback (sc_image current) images (rl_to opts)) (\<lambda>res.
                          rollback_end w opts service res)))))"

section \<open>History\<close>

definition MAX_SCAN :: nat where "MAX_SCAN = 500"
definition DEFAULT_LIMIT :: int where "DEFAULT_LIMIT = 10"

definition touches :: "string option \<Rightarrow> deploy_event \<Rightarrow> bool" where
  "touches service e \<longleftrightarrow> (case service of None \<Rightarrow> True | Some n \<Rightarrow> n \<in> es_service ` set (ev_services e))"

definition selectRecentEvents :: "deploy_event list \<Rightarrow> string option \<Rightarrow> int \<Rightarrow> deploy_event list" where
  "selectRecentEvents events service limit =
     take (nat limit) (sort_by (\<lambda>a b. locale_le (ev_at b) (ev_at a)) (filter (touches service) events))"

definition parseLimit :: "string option \<Rightarrow> rollback_error + int" where
  "parseLimit raw =
     (case raw of
        None \<Rightarrow> Inr DEFAULT_LIMIT
      | Some r \<Rightarrow>
          (case parse_int10 r of Some n \<Rightarrow> if n < 1 then Inl (InvalidLimit r) else Inr n | None \<Rightarrow> Inl (InvalidLimit r)))"

record history_options =
  ho_service :: "string option"
  ho_env :: "string option"
  ho_limit :: "string option"

text \<open>The newest keys first; what is gone by now or is no event is passed over.\<close>

definition scanned_events :: "string list \<Rightarrow> state_bucket \<Rightarrow> deploy_event list" where
  "scanned_events keys s =
     List.map_filter (\<lambda>k. Option.bind (s k) parseDeployEvent) (take MAX_SCAN (rev (sort keys)))"

definition runHistory ::
  "launch_pad_config option \<Rightarrow> string \<Rightarrow> (string \<Rightarrow> string list option) \<Rightarrow> history_options \<Rightarrow> state_bucket
   \<Rightarrow> rollback_error + string \<times> deploy_event list" where
  "runHistory cfg cluster list_keys opts s =
     (case cfg of
        None \<Rightarrow> Inl NoConfigFile
      | Some config \<Rightarrow>
          res_bind (rollback_env (ho_env opts)) (\<lambda>_.
          res_bind (parseLimit (ho_limit opts)) (\<lambda>limit.
            if (case ho_service opts of None \<Rightarrow> False | Some n \<Rightarrow> n \<notin> sd_name ` set (lc_service config))
            then Inl (NotInConfig (the (ho_service opts)))
            else let owner = footprintOwner (lc_project config) (lc_component config) (ho_env opts)
                 in case list_keys (deployEventsPrefix cluster owner) of
                      None \<Rightarrow> Inl EventsNotListed
                    | Some keys \<Rightarrow> Inr (owner, selectRecentEvents (scanned_events keys s) (ho_service opts) limit))))"

section \<open>A rollback goes back\<close>

lemma resolved_target:
  assumes "resolveRollback curImage images toTag = Inr res"
  obtains p where "parseEcrImageUri curImage = Some p" "res = rollback_to p (rr_toTag res)"
    and "toTag = Some (rr_toTag res) \<or> toTag = None \<and> findPreviousImageTag images (pi_tag p) = Some (rr_toTag res)"
  using assms that by (auto simp: resolveRollback_def rollback_to_def split: option.splits if_splits)

text \<open>What has happened when the command reaches its deploy.\<close>

lemma rollback_reaches:
  assumes "runRollback w opts s = Inr (RollTo d)"
  obtains config service current images p target where
    "rw_config w = Some config" "rollback_env (rl_env opts) = Inr ()"
    "rollback_service (rl_service opts) (lc_service config) = Inr service"
    "published_service (loadNodeDesiredStates (rw_cluster w) (rw_nodes w) s)
       (footprintOwner (lc_project config) (lc_component config) (rl_env opts)) service = Some current"
    "parseEcrImageUri (sc_image current) = Some p" "target \<noteq> pi_tag p"
    "rollback_tags w opts (ecrRepositoryName (lc_project config) service) = Inr images"
    "rl_to opts = Some target \<or> rl_to opts = None \<and> findPreviousImageTag images (pi_tag p) = Some target"
    "rl_yes opts \<or> rw_json w \<or> rw_confirm w" "\<not> rl_dryRun opts"
    "d = rollback_deploy opts service (pi_registry p @ ''/'' @ pi_repository p @ '':'' @ target)"
proof -
  from assms obtain config service current images res where c: "rw_config w = Some config" "rollback_env (rl_env opts) = Inr ()"
    "rollback_service (rl_service opts) (lc_service config) = Inr service"
    "published_service (loadNodeDesiredStates (rw_cluster w) (rw_nodes w) s)
       (footprintOwner (lc_project config) (lc_component config) (rl_env opts)) service = Some current"
    "rollback_tags w opts (ecrRepositoryName (lc_project config) service) = Inr images"
    and r: "resolveRollback (sc_image current) images (rl_to opts) = Inr res" and e: "rollback_end w opts service res = Inr (RollTo d)"
    by (auto simp: runRollback_def Let_def res_bind_eq_Inr split: option.splits if_splits)
  from resolved_target [OF r] obtain p where p: "parseEcrImageUri (sc_image current) = Some p" "res = rollback_to p (rr_toTag res)"
    "rl_to opts = Some (rr_toTag res) \<or> rl_to opts = None \<and> findPreviousImageTag images (pi_tag p) = Some (rr_toTag res)" .
  obtain t where t: "t = rr_toTag res" "res = rollback_to p t" using p(2) by blast
  from e have "t \<noteq> pi_tag p" "rl_yes opts \<or> rw_json w \<or> rw_confirm w" "\<not> rl_dryRun opts"
    "d = rollback_deploy opts service (pi_registry p @ ''/'' @ pi_repository p @ '':'' @ t)"
    unfolding t(2) by (auto simp: rollback_end_def rollback_to_def split: if_splits)
  with c p t show thesis using that by blast
qed

lemma rollback_service_declared:
  "rollback_service given services = Inr n \<Longrightarrow> n \<in> sd_name ` set services"
  by (auto simp: rollback_service_def Let_def split: if_splits list.splits)


section \<open>The deploy it ends in is accepted\<close>

lemma named_alone:
  assumes "distinct (map sd_name xs)" "n \<in> sd_name ` set xs"
  obtains x where "filter (\<lambda>s. sd_name s = n) xs = [x]" "sd_name x = n" "x \<in> set xs"
proof -
  from assms obtain x where "filter (\<lambda>s. sd_name s = n) xs = [x] \<and> sd_name x = n \<and> x \<in> set xs"
  proof (induction xs)
    case (Cons y ys)
    then show ?case by (cases "sd_name y = n") (fastforce simp: filter_empty_conv image_iff)+
  qed simp
  with that show thesis by blast
qed

text \<open>
  Where the published image is of the service's own repository in the account, the deploy a rollback ends in passes
  every check of deploy: it asks for exactly that service of the same owner, builds nothing, and the image is taken, as
  long as the registry still has the tag.
\<close>

theorem rollback_deploy_accepted:
  assumes "runRollback w opts s = Inr (RollTo d)" "rw_config w = Some config"
    and "distinct (map sd_name (lc_service config))"
    and "list_all (\<lambda>x. sd_name x \<noteq> [] \<and> findEnvSecretConflicts (sd_env x) (sd_secrets x) = []) (lc_service config)"
    and "do_service d = Some service" "do_image d = Some uri" "parseEcrImageUri uri = Some p"
    and "pi_registry p = aws_accountId aws @ ''.dkr.ecr.'' @ aws_region aws @ ''.amazonaws.com''"
    and "pi_repository p = ecrRepositoryName (lc_project config) service" "imageExists (pi_repository p) (pi_tag p)"
  shows "\<exists>rq x. deploy_request d config dir repoRoot changed = Inr (Some rq) \<and> rq_services rq = [x] \<and> sd_name x = service
    \<and> rq_owner rq = footprintOwner (lc_project config) (lc_component config) (rl_env opts) \<and> rq_partial rq \<and> rq_reuse rq
    \<and> loadOverrideImage aws imageExists (lc_project config) service uri = Inr [(service, uri)]"
proof -
  from rollback_reaches [OF assms(1)] obtain r q t where d: "rollback_service (rl_service opts) (lc_service config) = Inr service"
    "rollback_env (rl_env opts) = Inr ()" "d = rollback_deploy opts service (r @ ''/'' @ q @ '':'' @ t)"
    using assms(2,5) by (metis option.inject rollback_deploy_def deploy_options.select_convs(1))
  from named_alone [OF assms(3) rollback_service_declared [OF d(1)]] obtain x where
    x: "filter (\<lambda>s. sd_name s = service) (lc_service config) = [x]" "sd_name x = service" "x \<in> set (lc_service config)" .
  have o: "do_env d = rl_env opts" "do_ttl d = None" "do_changed d = None" "\<not> do_restart d" "\<not> do_remoteBuild d"
    unfolding d(3) by (simp_all add: rollback_deploy_def)
  have ne: "service \<noteq> []" "findEnvSecretConflicts (sd_env x) (sd_secrets x) = []" using assms(4) x by (auto simp: list_all_iff)
  have "case do_env d of None \<Rightarrow> False | Some e \<Rightarrow> \<not> LABEL_REGEX e \<Longrightarrow> False"
    using d(2) unfolding o by (auto simp: rollback_env_def split: option.splits if_splits)
  moreover have "named_services d (lc_service config) = [x]" by (simp add: named_services_def assms(5) ne x(1))
  moreover have "first_conflict [x] = None" by (simp add: first_conflict_def ne)
  moreover have "image_option d [x] = None" by (simp add: image_option_def assms(6,7) o)
  ultimately have "deploy_request d config dir repoRoot changed = Inr (Some \<lparr>rq_owner = footprintOwner (lc_project config) (lc_component config) (rl_env opts),
      rq_ttlMs = None, rq_services = [x], rq_partial = True, rq_reuse = True\<rparr>)"
    by (simp add: deploy_request_def request_ttl_def select_services_def remote_build_option_def is_partial_def
        reuses_images_def o assms(5,6)) blast?
  moreover have "loadOverrideImage aws imageExists (lc_project config) service uri = Inr [(service, uri)]"
    using assms(7-10) by (simp add: loadOverrideImage_def)
  ultimately show ?thesis using x(2) by simp
qed

section \<open>The newest events\<close>

lemma take_sorted_rest:
  assumes "sorted_wrt le xs" "x \<in> set xs" "x \<notin> set (take n xs)"
  shows "length (take n xs) = n \<and> (\<forall>y \<in> set (take n xs). le y x)"
proof -
  have "x \<in> set (drop n xs)" using assms(2,3) by (metis UnE append_take_drop_id set_append)
  moreover have "sorted_wrt le (take n xs @ drop n xs)" using assms(1) by simp
  moreover have "n \<le> length xs" using \<open>x \<in> set (drop n xs)\<close> by (cases "n \<le> length xs") simp_all
  ultimately show ?thesis by (simp add: sorted_wrt_append del: append_take_drop_id)
qed

text \<open>
  The history shows at most as many events as asked for, newest first, each an event that was read and touches the
  service; one that was read, touches it and is not shown is no newer than any that is, and then the limit is reached.
\<close>

theorem history_newest:
  assumes "runHistory (Some config) cluster list_keys opts s = Inr (owner, events)"
    and "list_keys (deployEventsPrefix cluster owner) = Some keys" "parseLimit (ho_limit opts) = Inr limit"
  shows "owner = footprintOwner (lc_project config) (lc_component config) (ho_env opts)
    \<and> int (length events) \<le> limit \<and> sorted_wrt (\<lambda>a b. locale_le (ev_at b) (ev_at a)) events
    \<and> set events \<subseteq> {e \<in> set (scanned_events keys s). touches (ho_service opts) e}
    \<and> (\<forall>e \<in> set (scanned_events keys s). touches (ho_service opts) e \<and> e \<notin> set events
        \<longrightarrow> int (length events) = limit \<and> (\<forall>x \<in> set events. locale_le (ev_at e) (ev_at x)))"
proof -
  let ?le = "\<lambda>a b. locale_le (ev_at b) (ev_at a)"
  let ?all = "sort_by ?le (filter (touches (ho_service opts)) (scanned_events keys s))"
  from assms(1) have o: "owner = footprintOwner (lc_project config) (lc_component config) (ho_env opts)"
    and "events = selectRecentEvents (scanned_events keys s) (ho_service opts) limit"
    using assms(2,3) by (auto simp: runHistory_def Let_def res_bind_eq_Inr split: option.splits if_splits)
  then have e: "events = take (nat limit) ?all" by (simp add: selectRecentEvents_def)
  have l: "0 \<le> limit" using assms(3) by (auto simp: parseLimit_def DEFAULT_LIMIT_def split: option.splits if_splits)
  have s: "sorted_wrt ?le ?all" by (rule sorted_sort_by) (use locale_le_total locale_le_trans in blast)+
  have a: "set ?all = {e \<in> set (scanned_events keys s). touches (ho_service opts) e}" by simp
  have "length events \<le> nat limit" unfolding e by simp
  then have "int (length events) \<le> limit" using l by simp
  moreover have "sorted_wrt ?le events" using s unfolding e by (rule sorted_wrt_take)
  moreover have "set events \<subseteq> set ?all" unfolding e by (rule set_take_subset)
  moreover have "int (length events) = limit \<and> (\<forall>x \<in> set events. ?le x y)" if "y \<in> set ?all" "y \<notin> set events" for y
    using take_sorted_rest [OF s that(1), of "nat limit"] that(2) l unfolding e by auto
  ultimately show ?thesis using o unfolding a by blast
qed

section \<open>Examples\<close>

definition two_tags :: "pushed_tag list" where
  "two_tags = [\<lparr>pt_tag = ''v1'', pt_pushedAt = 1\<rparr>, \<lparr>pt_tag = ''v2'', pt_pushedAt = 2\<rparr>]"

definition web_image :: "string \<Rightarrow> string" where
  "web_image tag = ''123456789012.dkr.ecr.eu-west-1.amazonaws.com/shop/api:'' @ tag"

definition web_env :: aws_env where
  "web_env = \<lparr>aws_accountId = ''123456789012'', aws_region = ''eu-west-1'', aws_clusterId = ''default''\<rparr>"

definition web_config :: launch_pad_config where
  "web_config = \<lparr>lc_project = ''shop'', lc_component = None, lc_domainPattern = None, lc_service = [example_decl ''api''],
     lc_database = None, lc_job = None\<rparr>"

definition web_bucket :: state_bucket where
  "web_bucket = [desiredKey ''default'' ''a'' \<mapsto> DesiredJson \<lparr>ds_version = PROTOCOL_VERSION, ds_nodeId = ''a'', ds_updatedAt = ''t'',
     ds_services = [(plain_service ''shop'' ''api'' 512 256 2)\<lparr>sc_image := web_image ''v2''\<rparr>]\<rparr>]"

definition web_world :: rollback_world where
  "web_world = \<lparr>rw_config = Some web_config, rw_cluster = ''default'', rw_nodes = [''a''], rw_tags = (\<lambda>_. Some two_tags),
     rw_json = False, rw_confirm = True\<rparr>"

definition plain_rollback :: rollback_options where
  "plain_rollback = \<lparr>rl_service = None, rl_env = None, rl_to = None, rl_yes = False, rl_wait = True, rl_timeout = None, rl_dryRun = False\<rparr>"

lemma web_rolls: "runRollback web_world plain_rollback web_bucket = Inr (RollTo (rollback_deploy plain_rollback ''api'' (web_image ''v1'')))"
  by code_simp

lemma web_tags: "rw_tags web_world r = Some ts \<Longrightarrow> distinct (map pt_tag ts)"
  by (auto simp: web_world_def two_tags_def)


lemma rollback_deploy_accepted_witness:
  "\<exists>rq. deploy_request (rollback_deploy plain_rollback ''api'' (web_image ''v1'')) web_config ''/'' None (\<lambda>_. Inr []) = Inr (Some rq)
     \<and> rq_reuse rq \<and> rq_owner rq = ''shop''"
proof -
  let ?p = "\<lparr>pi_registry = ''123456789012.dkr.ecr.eu-west-1.amazonaws.com'', pi_repository = ''shop/api'', pi_tag = ''v1''\<rparr>"
  have c: "rw_config web_world = Some web_config" "distinct (map sd_name (lc_service web_config))"
    "list_all (\<lambda>x. sd_name x \<noteq> [] \<and> findEnvSecretConflicts (sd_env x) (sd_secrets x) = []) (lc_service web_config)"
    by (simp add: web_world_def) code_simp+
  have d: "do_service (rollback_deploy plain_rollback ''api'' (web_image ''v1'')) = Some ''api''"
    "do_image (rollback_deploy plain_rollback ''api'' (web_image ''v1'')) = Some (web_image ''v1'')"
    by (simp_all add: rollback_deploy_def)
  have p: "parseEcrImageUri (web_image ''v1'') = Some ?p"
    "pi_registry ?p = aws_accountId web_env @ ''.dkr.ecr.'' @ aws_region web_env @ ''.amazonaws.com''"
    "pi_repository ?p = ecrRepositoryName (lc_project web_config) ''api''" by code_simp+
  have o: "footprintOwner (lc_project web_config) (lc_component web_config) (rl_env plain_rollback) = ''shop''" by code_simp
  show ?thesis
    using rollback_deploy_accepted [OF web_rolls c d p, of "\<lambda>_ _. True" "''/''" None "\<lambda>_. Inr []"] unfolding o by auto
qed

definition event_at :: "string \<Rightarrow> deploy_event" where
  "event_at t = \<lparr>ev_version = DEPLOY_EVENT_VERSION, ev_at = t, ev_by = ''me'', ev_cluster = ''default'', ev_project = ''shop'', ev_env = None,
     ev_kind = KBuild, ev_services = [\<lparr>es_service = ''api'', es_image = ''i'', es_replicas = 1\<rparr>], ev_converged = None\<rparr>"

lemma history_newest_witness:
  "\<exists>events. runHistory (Some web_config) ''default'' (\<lambda>_. Some [''1'', ''2'']) \<lparr>ho_service = None, ho_env = None, ho_limit = Some ''1''\<rparr>
      [''1'' \<mapsto> EventJson (event_at ''1''), ''2'' \<mapsto> EventJson (event_at ''2'')] = Inr (''shop'', events)
     \<and> length events \<le> 1"
proof -
  let ?run = "runHistory (Some web_config) ''default'' (\<lambda>_. Some [''1'', ''2'']) \<lparr>ho_service = None, ho_env = None, ho_limit = Some ''1''\<rparr>
      [''1'' \<mapsto> EventJson (event_at ''1''), ''2'' \<mapsto> EventJson (event_at ''2'')]"
  have r: "?run = Inr (''shop'', [event_at ''2''])" by code_simp
  have l: "parseLimit (ho_limit \<lparr>ho_service = None, ho_env = None, ho_limit = Some ''1''\<rparr>) = Inr 1" by code_simp
  from history_newest [OF r refl l] r show ?thesis by auto
qed

end
