(* ===== verification/Ssh_Cidr.thy ===== *)
theory Ssh_Cidr
  imports Js_Strings "HOL-Library.Word"
begin

text \<open>
  Which addresses may reach port 22 of a node (\<open>packages/cli/src/aws/ssh-cidr.ts\<close>): the check of \<open>--ssh-cidr\<close>
  and the range of addresses that an accepted block stands for. EC2 ignores the bits of the address behind the
  prefix, as its documentation of security group rules says.
\<close>

section \<open>The check\<close>

text \<open>\<open>(?:[0-9]|[1-2][0-9]|3[0-2])\<close>\<close>

definition prefix_length_shape :: "string \<Rightarrow> bool" where
  "prefix_length_shape s \<longleftrightarrow>
     (case s of
        [d] \<Rightarrow> is_digit d
      | [c, d] \<Rightarrow> (c = CHR ''1'' \<or> c = CHR ''2'') \<and> is_digit d \<or> c = CHR ''3'' \<and> (d = CHR ''0'' \<or> d = CHR ''1'' \<or> d = CHR ''2'')
      | _ \<Rightarrow> False)"

definition IPV4_CIDR :: "string \<Rightarrow> bool" where
  "IPV4_CIDR s \<longleftrightarrow>
     (case split_char CHR ''/'' s of
        [addr, len] \<Rightarrow>
          (let os = split_char CHR ''.'' addr
           in length os = 4 \<and> list_all (\<lambda>x. 1 \<le> length x \<and> length x \<le> 3 \<and> list_all is_digit x) os \<and> prefix_length_shape len)
      | _ \<Rightarrow> False)"

definition WORLD_OPEN :: "string set" where "WORLD_OPEN = {''0.0.0.0/0'', ''::/0''}"

definition ipv4OctetsValid :: "string \<Rightarrow> bool" where
  "ipv4OctetsValid cidr =
     (case split_char CHR ''/'' cidr of
        [] \<Rightarrow> False
      | addr # _ \<Rightarrow> addr \<noteq> []
          \<and> list_all (\<lambda>x. case parse_int10 x of None \<Rightarrow> False | Some n \<Rightarrow> 0 \<le> n \<and> n \<le> 255) (split_char CHR ''.'' addr))"

datatype cidr_error = CidrEmpty | CidrWorldOpen string | CidrInvalid string

definition parseSshCidr :: "string \<Rightarrow> cidr_error + string" where
  "parseSshCidr raw =
     (let cidr = trim raw
      in if cidr = [] then Inl CidrEmpty
         else if cidr \<in> WORLD_OPEN then Inl (CidrWorldOpen cidr)
         else if \<not> IPV4_CIDR cidr \<or> \<not> ipv4OctetsValid cidr then Inl (CidrInvalid raw)
         else Inr cidr)"

section \<open>The range of a block\<close>

definition octet_value :: "string \<Rightarrow> nat" where
  "octet_value s = (case parse_int10 s of None \<Rightarrow> 0 | Some n \<Rightarrow> nat n)"

definition cidr_address :: "string \<Rightarrow> 32 word" where
  "cidr_address cidr =
     of_nat (foldl (\<lambda>v x. v * 256 + octet_value x) 0 (split_char CHR ''.'' (hd (split_char CHR ''/'' cidr))))"

definition cidr_bits :: "string \<Rightarrow> nat" where
  "cidr_bits cidr = octet_value (last (split_char CHR ''/'' cidr))"

text \<open>The addresses that agree with the block's in the first \<open>cidr_bits\<close> bits.\<close>

definition admits :: "string \<Rightarrow> 32 word \<Rightarrow> bool" where
  "admits cidr a \<longleftrightarrow> drop_bit (32 - cidr_bits cidr) a = drop_bit (32 - cidr_bits cidr) (cidr_address cidr)"

lemma unat_32: "unat (b :: 32 word) < 2 ^ 32"
  using unsigned_less [of b, where ?'a = nat] by simp

lemma block_card:
  fixes b :: "32 word"
  assumes "k \<le> 32"
  shows "card {a. drop_bit k a = drop_bit k b} = 2 ^ k"
proof -
  let ?q = "unat b div 2 ^ k"
  have iff: "drop_bit k a = drop_bit k b \<longleftrightarrow> unat a div 2 ^ k = ?q" for a :: "32 word"
    by (simp only: word_unat_eq_iff unat_drop_bit_eq) (simp only: drop_bit_eq_div)
  have "unat b < 2 ^ (32 - k) * 2 ^ k"
    using unat_32 [of b] assms by (simp add: power_add [symmetric])
  then have q: "?q < 2 ^ (32 - k)" by (simp add: less_mult_imp_div_less)
  have top: "(?q + 1) * 2 ^ k \<le> (2 :: nat) ^ 32"
  proof -
    have "(?q + 1) * 2 ^ k \<le> 2 ^ (32 - k) * (2 :: nat) ^ k" using q by (intro mult_right_mono) simp_all
    also have "\<dots> = 2 ^ 32" using assms by (simp add: power_add [symmetric])
    finally show ?thesis .
  qed
  have "unat ` {a :: 32 word. unat a div 2 ^ k = ?q} = {?q * 2 ^ k ..< (?q + 1) * 2 ^ k}"
  proof (intro set_eqI iffI)
    fix m assume "m \<in> unat ` {a :: 32 word. unat a div 2 ^ k = ?q}"
    then obtain a :: "32 word" where a: "m = unat a" "unat a div 2 ^ k = ?q" by auto
    have "m = ?q * 2 ^ k + m mod 2 ^ k" using div_mult_mod_eq [of m "2 ^ k"] a by simp
    moreover have "m mod 2 ^ k < 2 ^ k" by simp
    ultimately show "m \<in> {?q * 2 ^ k ..< (?q + 1) * 2 ^ k}" unfolding atLeastLessThan_iff add_mult_distrib by linarith
  next
    fix m assume m: "m \<in> {?q * 2 ^ k ..< (?q + 1) * 2 ^ k}"
    then have "m < 2 ^ 32" using top by simp
    then have u: "unat (of_nat m :: 32 word) = m" by (simp add: unat_of_nat take_bit_eq_mod)
    have "m div 2 ^ k = ?q" using m by (intro div_nat_eqI) (simp_all add: algebra_simps)
    with u show "m \<in> unat ` {a :: 32 word. unat a div 2 ^ k = ?q}"
      by (intro image_eqI [of _ _ "of_nat m"]) simp_all
  qed
  moreover have "inj_on unat {a :: 32 word. unat a div 2 ^ k = ?q}" by (simp add: inj_on_def word_unat_eq_iff)
  ultimately have "card {a :: 32 word. unat a div 2 ^ k = ?q} = card {?q * 2 ^ k ..< (?q + 1) * 2 ^ k}"
    by (metis card_image)
  then show ?thesis by (simp add: iff)
qed

lemma digit_cases: "is_digit d \<Longrightarrow> d \<in> set ''0123456789''"
proof -
  assume "is_digit d"
  then obtain k where k: "of_char d = (48 :: nat) + k" "k < 10"
    by (auto simp: is_digit_def in_range_def le_iff_add)
  then have "d = char_of ((48 :: nat) + k)" by (metis char_of_char)
  moreover have "\<forall>k \<in> set [0..<10]. char_of ((48 :: nat) + k) \<in> set ''0123456789''" by code_simp
  ultimately show ?thesis using k(2) by simp
qed

lemma prefix_length_value: "prefix_length_shape s \<Longrightarrow> octet_value s \<le> 32"
proof -
  assume "prefix_length_shape s"
  then consider d where "s = [d]" "is_digit d"
    | c d where "s = [c, d]" "(c = CHR ''1'' \<or> c = CHR ''2'') \<and> is_digit d \<or> c = CHR ''3'' \<and> (d = CHR ''0'' \<or> d = CHR ''1'' \<or> d = CHR ''2'')"
    by (auto simp: prefix_length_shape_def split: list.splits)
  then show ?thesis
  proof cases
    case 1
    have "\<forall>d \<in> set ''0123456789''. octet_value [d] \<le> 32" by code_simp
    with 1 digit_cases show ?thesis by blast
  next
    case 2
    have "\<forall>d \<in> set ''0123456789''. octet_value [CHR ''1'', d] \<le> 32 \<and> octet_value [CHR ''2'', d] \<le> 32"
      "octet_value ''30'' \<le> 32" "octet_value ''31'' \<le> 32" "octet_value ''32'' \<le> 32" by code_simp+
    with 2 digit_cases show ?thesis by blast
  qed
qed

lemma accepted_bits: "parseSshCidr raw = Inr cidr \<Longrightarrow> cidr_bits cidr \<le> 32"
  by (auto simp: parseSshCidr_def Let_def IPV4_CIDR_def cidr_bits_def prefix_length_value split: if_splits list.splits)

text \<open>
  An accepted block of n bits admits exactly the 2^(32-n) addresses that share its first n bits, its own among
  them. The two spellings of the whole internet are refused, but a block is the whole internet exactly when its
  length is 0, whatever its address: 1.2.3.4/0 is accepted and opens port 22 to everyone.
\<close>

theorem ssh_cidr_range:
  assumes "parseSshCidr raw = Inr cidr"
  shows "cidr_bits cidr \<le> 32 \<and> card {a. admits cidr a} = 2 ^ (32 - cidr_bits cidr) \<and> admits cidr (cidr_address cidr)
    \<and> cidr \<notin> WORLD_OPEN \<and> ((\<forall>a. admits cidr a) \<longleftrightarrow> cidr_bits cidr = 0)"
proof -
  have b: "cidr_bits cidr \<le> 32" by (rule accepted_bits [OF assms])
  have c: "card {a. admits cidr a} = 2 ^ (32 - cidr_bits cidr)" unfolding admits_def by (rule block_card) simp
  have "(\<forall>a. admits cidr a) \<longleftrightarrow> cidr_bits cidr = 0"
  proof
    assume "\<forall>a. admits cidr a"
    then have "{a. admits cidr a} = UNIV" by auto
    with c have "(2 :: nat) ^ 32 = 2 ^ (32 - cidr_bits cidr)" by (simp add: card_word)
    then have "32 = 32 - cidr_bits cidr" by (rule power_inject_exp [THEN iffD1, rotated]) simp
    then show "cidr_bits cidr = 0" using b by simp
  next
    assume "cidr_bits cidr = 0"
    then show "\<forall>a. admits cidr a" by (simp add: admits_def word_unat_eq_iff unat_drop_bit_eq)
  qed
  moreover have "cidr \<notin> WORLD_OPEN" using assms by (auto simp: parseSshCidr_def Let_def split: if_splits)
  ultimately show ?thesis using b c by (simp add: admits_def)
qed

lemma ssh_cidr_range_witness: "parseSshCidr '' 1.2.3.4/0 '' = Inr ''1.2.3.4/0'' \<and> (\<forall>a. admits ''1.2.3.4/0'' a)"
proof -
  have p: "parseSshCidr '' 1.2.3.4/0 '' = Inr ''1.2.3.4/0''" "cidr_bits ''1.2.3.4/0'' = 0" by code_simp+
  from ssh_cidr_range [OF p(1)] p show ?thesis by simp
qed

end
