(* ===== verification/Spec2Isabelle.thy ===== *)
theory Spec2Isabelle
  imports Autoscale Backup Cluster_Commands Dashboard_Auth Dashboard_Rooms Deploy_Types Edge External_Keys Footprint_Destroy Footprint_View Iam_Roles Node_Lifecycle Rollback Ssh_Cidr
begin

text \<open>
  A verification library of launch-pad's control plane.

  launch-pad deploys containers to a fleet of machines. A command-line
  program (packages/cli) reads a configuration file, decides where replicas
  run and writes documents to a bucket; an agent on every machine reads its
  own documents, starts and stops containers and writes status documents
  back. There is no server: the bucket is the only shared state. Desired states
  and most registry documents are written on condition that the version read is
  still there; the writes that are not are modelled as such. The library models
  the TypeScript part: the rules shared by both sides (packages/shared) and
  the decisions and the store protocols of the CLI.

  \<^bold>\<open>Data and numbers.\<close> Strings are lists of characters, integers are exact
  (int), the language's doubles are rationals rounded to 53 bits where the code
  depends on it (Js_Numbers), timestamps are milliseconds since the epoch
  (Iso_Time). A schema of the schema library is a predicate valid_x on the
  record x, a document that fails to parse is the value None or Unreadable;
  error messages are constructors of an error datatype.

  \<^bold>\<open>Store and concurrency.\<close> Store models the bucket with its conditional
  get, put and delete. The read-modify-write loops take a schedule of
  interference: what other writers do to the bucket before each operation.
  A theorem about a loop quantifies over every such schedule. Clocks, status
  reads and calls to the cloud provider are functions of the poll index or
  parameters, their effects are recorded as lists.

  \<^bold>\<open>Theories.\<close>
  \<^item> Prelude, Js_Strings, Js_Numbers, Iso_Time, Polling: lemmas on association
    lists and stable sorting, trimming, splitting and number parsing,
    doubles, ISO timestamps and their round trip, waiting loops.
  \<^item> Constants, Names, Registry, Service_Config, Status, Cluster, Preview,
    Project_Index, Deploy_Events, Documents: the documents of packages/shared
    and their constraints.
  \<^item> Cron: shared/cron.ts, parsed schedules, the first fire and the last due
    fire, with the calendar.
  \<^item> Merge: shared/merge.ts and undeploy.ts, what a deploy or an undeploy does
    to the services of a node; other owners keep theirs.
  \<^item> Config, Config_Lock, Footprint: shared/config.ts and config-lock.ts, the
    configuration file, its expansion, the lock against the recorded baseline.
  \<^item> Capacity, Placement, Candidates, Node_Names: the capacity gate, the
    planner of deploy/placement.ts and the pool it plans on.
  \<^item> Store, S3_Keys, Publish: the bucket and the publishing loops of
    commands/deploy.ts and commands/destroy.ts.
  \<^item> Watch: deploy/watch.ts, the waits for convergence, for a drain, for a job.
  \<^item> Rebalance, Rebalance_Run: deploy/rebalance-plan.ts and commands/rebalance.ts,
    first the pieces, then the whole command (it is also an evacuation).
  \<^item> Node_Destroy: node destroy and node prune of commands/node/index.ts. How a
    call to the cloud ends is a parameter; the calls made are recorded.
  \<^item> Footprint_Destroy: commands/destroy.ts, the destroy command on every path. Its
    state is the bucket and the secrets deleted; calm says nobody else writes.
  \<^item> Local_Config: config/local.ts, aws/context.ts, the preferences of a machine
    and the cluster, region and profile of a command. Cluster_Commands:
    commands/cluster/index.ts on top of it. Footprint_View:
    project/footprint-view.ts, what a cluster runs, per footprint.
  \<^item> Rollback: commands/rollback.ts, up to the deploy it ends in, and
    commands/history.ts. Dashboard_Auth, Dashboard_Rooms: dashboard/auth.ts and
    dashboard/stream-registry.ts, who gets in and which subprocesses run.
  \<^item> Backup: backup/plan.ts and commands/backup.ts, what a backup takes and what
    a restore writes back.
  \<^item> Node_Lifecycle: pause, resume, resize (with --evacuate) and reconcile of the
    same file, resize-evacuate.ts; the machines are the operations of Provision.
  \<^item> External_Keys: the access keys of external nodes (aws/iam.ts, node
    rotate-creds). Ssh_Cidr: aws/ssh-cidr.ts and the addresses a block admits.
  \<^item> Cluster_Store, Autoscale: cluster/store.ts, shared/autoscale.ts and
    commands/autoscale.ts.
  \<^item> Provision: deploy/provision-plan.ts, drift-plan.ts, drift-apply.ts and
    provision/provision-node.ts.
  \<^item> Edge: shared/edge.ts and the shard an agent publishes for it.
  \<^item> Project_Registry: project/registry.ts, preview/markers.ts and the advisory
    records of commands/deploy.ts.
  \<^item> Node_Path, Changed_Services, Build_Context, Ecr: paths as node:path
    resolves them, deploy/changed-services.ts, deploy/remote-build.ts and
    context-pack.ts, shared/ecr.ts.
  \<^item> Deploy_Request, Deploy_Plan, Deploy: runDeploy of commands/deploy.ts, from
    the options (Deploy_Request) over the placement and the node plan
    (Deploy_Plan) to publication and the wait (Deploy). Everything outside
    the program is one record of parameters, deploy_world.
  \<^item> Deploy_Correct, Deploy_Types: what a deploy does to the bucket as a whole,
    which steps touch which documents, and the form of what is written.
  \<^item> Iam_Policy, Iam_Roles: the policies aws/iam.ts gives a node, the roles of
    setup/ and of the remote build. The matching of resource patterns is a
    parameter with its documented laws (iam_glob); permits says what a policy
    allows.
  \<^item> Dotenv, Toml_Edit, Deploy_Edits, Secrets: config/dotenv.ts, toml-edit.ts and
    toml-secrets.ts, the commands scale, config and secret, aws/ssm-secrets.ts.

  \<^bold>\<open>Bounds.\<close> The loops that retry are bounded by the retry constants of the
  code; a wait is a partial function of its poll index and is shown to return
  whenever its clock passes the deadline. The cron scan uses the horizon of the
  code as fuel; that a schedule without a fire in it returns None is part of
  the theorems.

  \<^bold>\<open>Not modelled.\<close> Calls to EC2, IAM, SSM, ECR, CodeBuild, CloudWatch, SNS and
  SQS are parameters. Terminal output, prompts, spinners and JSON printing, the
  start-up scripts of machines, the dashboard's web pages, shell completions
  and the agent (a program in another language, except the shard it publishes)
  are left out.
\<close>

end
